(* ===== verification/Prelude.thy ===== *)
theory Prelude
  imports Main "HOL-Library.Word"
begin

text \<open>
  Shared vocabulary of the development.

  \<^item> \<open>fault\<close> and \<open>'a res\<close>: what the C++ program does where the language gives no meaning
    (a null pointer followed, a read past the end of an allocation, an object used after
    \<open>delete\<close>, an iterator moved off an empty container, the end of a function that has to
    return a value, an \<open>int\<close> that leaves its 32 bits). Every operation that can do so
    returns \<open>Inl fault\<close>; \<open>bindF\<close> sequences such operations. \<open>NonTermination\<close> is what a loop or a
    recursion answers when the fuel of its model runs out, so that a theorem which excludes
    every fault also says that the code returns.
  \<^item> \<open>'v omap\<close>: \<open>std::map<int, V>\<close> as the key-sorted list of its entries, which is also the
    order in which the program iterates over it, and \<open>oset\<close>: \<open>std::set<int>\<close> likewise.
    \<open>om_at\<close> and \<open>om_touch\<close> are the two halves of \<open>operator[]\<close>: the value it
    yields and the map it leaves (a missing key is inserted with the value-initialised
    element).
  \<^item> \<open>invariant_machine\<close>: an initial state, a step that may fault and an invariant; what an
    invariant gives for every run, proved once and used by every server.
\<close>

section \<open>Faults\<close>

datatype fault =
  NullDeref | OutOfBounds | UseAfterFree | EmptyContainer | MissingReturn | NonTermination | SignedOverflow

type_synonym 'a res = "fault + 'a"

fun bindF :: "'a res \<Rightarrow> ('a \<Rightarrow> 'b res) \<Rightarrow> 'b res" where
  "bindF (Inl e) f = Inl e"
| "bindF (Inr x) f = f x"

lemma bindF_eq_Inr [simp]: "bindF r f = Inr y \<longleftrightarrow> (\<exists>x. r = Inr x \<and> f x = Inr y)"
  by (cases r) auto

lemma bindF_cong:
  "r = r' \<Longrightarrow> (\<And>x. r' = Inr x \<Longrightarrow> f x = g x) \<Longrightarrow> bindF r f = bindF r' g"
  by (cases r') auto

lemma bindF_assoc: "bindF (bindF r f) g = bindF r (\<lambda>x. bindF (f x) g)"
  by (cases r) auto

lemma bindF_Inr_right [simp]: "bindF r Inr = r"
  by (cases r) auto

fun foldF :: "('a \<Rightarrow> 's \<Rightarrow> 's res) \<Rightarrow> 'a list \<Rightarrow> 's \<Rightarrow> 's res" where
  "foldF f [] s = Inr s"
| "foldF f (x # xs) s = bindF (f x s) (foldF f xs)"

lemma foldF_append: "foldF f (xs @ ys) s = bindF (foldF f xs s) (foldF f ys)"
proof (induction xs arbitrary: s)
  case (Cons a xs)
  have "foldF f (xs @ ys) = (\<lambda>s. bindF (foldF f xs s) (foldF f ys))"
    using Cons.IH by (rule ext)
  then show ?case by (simp add: bindF_assoc)
qed simp

lemma foldF_total: "(\<And>x s. x \<in> set xs \<Longrightarrow> f x s = Inr (g x s)) \<Longrightarrow> foldF f xs s = Inr (fold g xs s)"
  by (induction xs arbitrary: s) auto

lemma fold_invariant: "I s \<Longrightarrow> (\<And>x s. x \<in> set xs \<Longrightarrow> I s \<Longrightarrow> I (f x s)) \<Longrightarrow> I (fold f xs s)"
  by (induction xs arbitrary: s) auto

section \<open>C strings\<close>

text \<open>What a \<open>char *\<close> reads as: the characters up to the first NUL.\<close>

definition c_str :: "string \<Rightarrow> string" where
  "c_str s = takeWhile (\<lambda>c. c \<noteq> CHR 0x00) s"

lemma c_str_clean: "CHR 0x00 \<notin> set s \<Longrightarrow> c_str s = s"
  unfolding c_str_def by (induction s) auto

section \<open>Ordered maps\<close>

text \<open>The operations are generic in the ordered type of the keys; most maps of the program have
  integer keys.\<close>

type_synonym 'v omap = "(int \<times> 'v) list"

abbreviation om_get :: "('k \<times> 'v) list \<Rightarrow> 'k \<Rightarrow> 'v option" where
  "om_get \<equiv> map_of"

fun om_upd :: "'k::linorder \<Rightarrow> 'v \<Rightarrow> ('k \<times> 'v) list \<Rightarrow> ('k \<times> 'v) list" where
  "om_upd k v [] = [(k, v)]"
| "om_upd k v ((k', v') # m) =
     (if k < k' then (k, v) # (k', v') # m
      else if k = k' then (k, v) # m
      else (k', v') # om_upd k v m)"

definition om_del :: "'k \<Rightarrow> ('k \<times> 'v) list \<Rightarrow> ('k \<times> 'v) list" where
  "om_del k m = filter (\<lambda>e. fst e \<noteq> k) m"

definition om_has :: "'k \<Rightarrow> ('k \<times> 'v) list \<Rightarrow> bool" where
  "om_has k m \<longleftrightarrow> map_of m k \<noteq> None"

definition om_keys :: "('k \<times> 'v) list \<Rightarrow> 'k list" where
  "om_keys m = map fst m"

definition om_at :: "'v \<Rightarrow> ('k \<times> 'v) list \<Rightarrow> 'k \<Rightarrow> 'v" where
  "om_at d m k = (case map_of m k of None \<Rightarrow> d | Some v \<Rightarrow> v)"

definition om_touch :: "'v \<Rightarrow> 'k::linorder \<Rightarrow> ('k \<times> 'v) list \<Rightarrow> ('k \<times> 'v) list" where
  "om_touch d k m = (if om_has k m then m else om_upd k d m)"

definition om_wf :: "('k::linorder \<times> 'v) list \<Rightarrow> bool" where
  "om_wf m \<longleftrightarrow> sorted_wrt (<) (map fst m)"

lemma om_get_upd [simp]: "map_of (om_upd k v m) = (map_of m)(k \<mapsto> v)"
  by (induction k v m rule: om_upd.induct) (auto simp: fun_eq_iff)

lemma om_get_del [simp]: "map_of (om_del k m) = (map_of m)(k := None)"
  by (induction m) (auto simp: om_del_def fun_eq_iff)

lemma om_upd_upd [simp]: "om_upd k v (om_upd k v' m) = om_upd k v m"
  by (induction k v' m rule: om_upd.induct) auto

lemma om_has_upd [simp]: "om_has k (om_upd k' v m) \<longleftrightarrow> k = k' \<or> om_has k m"
  by (auto simp: om_has_def)

lemma om_has_del [simp]: "om_has k (om_del k' m) \<longleftrightarrow> k \<noteq> k' \<and> om_has k m"
  by (auto simp: om_has_def)

lemma om_has_Nil [simp]: "\<not> om_has k []"
  by (simp add: om_has_def)

lemma om_hasE: "om_has k m \<Longrightarrow> (\<And>v. map_of m k = Some v \<Longrightarrow> P) \<Longrightarrow> P"
  by (auto simp: om_has_def)

lemma om_at_upd [simp]: "om_at d (om_upd k v m) k' = (if k' = k then v else om_at d m k')"
  by (simp add: om_at_def)

lemma om_at_Some [simp]: "map_of m k = Some v \<Longrightarrow> om_at d m k = v"
  by (simp add: om_at_def)

lemma om_touch_has [simp]: "om_has k m \<Longrightarrow> om_touch d k m = m"
  by (simp add: om_touch_def)

lemma om_at_touch [simp]: "om_at d (om_touch d k m) k' = om_at d m k'"
  by (auto simp: om_touch_def om_at_def om_has_def)

lemma om_has_touch [simp]: "om_has k (om_touch d k' m) \<longleftrightarrow> k = k' \<or> om_has k m"
  by (auto simp: om_touch_def)

lemma set_om_keys [simp]: "set (om_keys m) = dom (map_of m)"
  by (simp add: om_keys_def dom_map_of_conv_image_fst)

lemma om_has_keys: "om_has k m \<longleftrightarrow> k \<in> set (om_keys m)"
  by (auto simp: om_has_def)

lemma om_keys_Nil_iff [simp]: "om_keys m = [] \<longleftrightarrow> m = []"
  by (simp add: om_keys_def)

lemma om_eq_Nil_iff: "m = [] \<longleftrightarrow> (\<forall>k. \<not> om_has k m)"
  by (cases m) (auto simp: om_has_def split: if_splits)

lemma om_upd_not_Nil [simp]: "om_upd k v m \<noteq> []"
  by (cases "(k, v, m)" rule: om_upd.cases) auto

text \<open>Sortedness is only needed where the size or the first entry of a map matters.\<close>

lemma fst_om_upd: "fst ` set (om_upd k v m) = insert k (fst ` set m)"
  by (induction k v m rule: om_upd.induct) auto

lemma om_wf_Nil [simp]: "om_wf []"
  by (simp add: om_wf_def)

lemma om_wf_upd [simp]: "om_wf m \<Longrightarrow> om_wf (om_upd k v m)"
  by (induction k v m rule: om_upd.induct) (auto simp: om_wf_def fst_om_upd)

lemma om_wf_del [simp]: "om_wf m \<Longrightarrow> om_wf (om_del k m)"
  by (induction m) (auto simp: om_wf_def om_del_def)

lemma om_wf_touch [simp]: "om_wf m \<Longrightarrow> om_wf (om_touch d k m)"
  by (simp add: om_touch_def)

lemma om_wf_distinct: "om_wf m \<Longrightarrow> distinct (map fst m)"
  by (simp add: om_wf_def strict_sorted_iff)

lemma length_om_upd:
  "om_wf m \<Longrightarrow> length (om_upd k v m) = (if om_has k m then length m else Suc (length m))"
proof (induction k v m rule: om_upd.induct)
  case (2 k v k' v' m)
  show ?case
  proof (cases "k < k'")
    case True
    then have "k \<notin> fst ` set ((k', v') # m)"
      using "2.prems" by (auto simp: om_wf_def)
    with True show ?thesis by (simp add: om_has_def map_of_eq_None_iff)
  next
    case False
    with 2 show ?thesis by (auto simp: om_wf_def om_has_def)
  qed
qed simp

lemma om_del_absent [simp]: "\<not> om_has k m \<Longrightarrow> om_del k m = m"
  by (auto simp: om_del_def om_has_def filter_id_conv map_of_eq_None_iff)

lemma length_om_del:
  "om_wf m \<Longrightarrow> om_has k m \<Longrightarrow> Suc (length (om_del k m)) = length m"
proof (induction m)
  case Nil
  then show ?case by simp
next
  case (Cons e m)
  have wf: "om_wf m" and notin: "fst e \<notin> fst ` set m"
    using Cons.prems(1) by (auto simp: om_wf_def)
  show ?case
  proof (cases "fst e = k")
    case True
    then have "om_del k m = m"
      using notin by (intro om_del_absent) (auto simp: om_has_def map_of_eq_None_iff)
    with True show ?thesis by (simp add: om_del_def)
  next
    case False
    then have "om_has k m"
      using Cons.prems(2) by (cases e) (auto simp: om_has_def)
    with False wf Cons.IH show ?thesis by (simp add: om_del_def)
  qed
qed

lemma length_om_del_le: "length (om_del k m) \<le> length m"
  by (simp add: om_del_def)

lemma length_om_del_less: "om_has k m \<Longrightarrow> length (om_del k m) < length m"
  unfolding om_del_def om_has_def
  by (auto intro!: length_filter_less dest!: map_of_SomeD)

lemma length_om_card: "om_wf m \<Longrightarrow> length m = card (dom (map_of m))"
  using om_wf_distinct [of m] distinct_card [of "map fst m"]
  by (simp add: dom_map_of_conv_image_fst)

section \<open>Ordered sets\<close>

type_synonym oset = "int list"

fun os_ins :: "int \<Rightarrow> oset \<Rightarrow> oset" where
  "os_ins x [] = [x]"
| "os_ins x (y # ys) = (if x < y then x # y # ys else if x = y then y # ys else y # os_ins x ys)"

definition os_del :: "int \<Rightarrow> oset \<Rightarrow> oset" where
  "os_del x xs = filter (\<lambda>y. y \<noteq> x) xs"

abbreviation os_wf :: "oset \<Rightarrow> bool" where
  "os_wf \<equiv> sorted_wrt (<)"

lemma set_os_ins [simp]: "set (os_ins x xs) = insert x (set xs)"
  by (induction x xs rule: os_ins.induct) auto

lemma set_os_del [simp]: "set (os_del x xs) = set xs - {x}"
  by (auto simp: os_del_def)

lemma os_wf_ins [simp]: "os_wf xs \<Longrightarrow> os_wf (os_ins x xs)"
  by (induction x xs rule: os_ins.induct) auto

lemma os_wf_del [simp]: "os_wf xs \<Longrightarrow> os_wf (os_del x xs)"
  by (induction xs) (auto simp: os_del_def)

lemma os_ins_not_Nil [simp]: "os_ins x xs \<noteq> []"
  by (cases "(x, xs)" rule: os_ins.cases) auto

lemma length_os_card: "os_wf xs \<Longrightarrow> length xs = card (set xs)"
  by (simp add: strict_sorted_iff distinct_card)

lemma os_hd_least: "os_wf xs \<Longrightarrow> y \<in> set xs \<Longrightarrow> hd xs \<le> y"
  by (cases xs) auto

section \<open>Invariants of machines whose steps may fault\<close>

text \<open>Every event of the run is allowed in the state it finds.\<close>

fun run_ok :: "('s \<Rightarrow> 'e \<Rightarrow> bool) \<Rightarrow> ('e \<Rightarrow> 's \<Rightarrow> 's res) \<Rightarrow> 'e list \<Rightarrow> 's \<Rightarrow> bool" where
  "run_ok ok step [] s = True"
| "run_ok ok step (e # es) s =
     (ok s e \<and> (case step e s of Inl _ \<Rightarrow> True | Inr s' \<Rightarrow> run_ok ok step es s'))"

locale invariant_machine =
  fixes init :: "'s \<Rightarrow> bool"
    and step :: "'e \<Rightarrow> 's \<Rightarrow> 's res"
    and inv :: "'s \<Rightarrow> bool"
    and ok :: "'s \<Rightarrow> 'e \<Rightarrow> bool"
  assumes init_inv: "init s \<Longrightarrow> inv s"
    and step_inv: "inv s \<Longrightarrow> ok s e \<Longrightarrow> step e s = Inr s' \<Longrightarrow> inv s'"
begin

lemma run_inv: "inv s \<Longrightarrow> run_ok ok step es s \<Longrightarrow> foldF step es s = Inr s' \<Longrightarrow> inv s'"
  by (induction es arbitrary: s) (auto, blast intro: step_inv)

lemma reachable_inv: "init s \<Longrightarrow> run_ok ok step es s \<Longrightarrow> foldF step es s = Inr s' \<Longrightarrow> inv s'"
  by (blast intro: run_inv init_inv)

end

locale total_machine = invariant_machine +
  assumes step_total: "inv s \<Longrightarrow> ok s e \<Longrightarrow> \<exists>s'. step e s = Inr s'"
begin

lemma run_total: "inv s \<Longrightarrow> run_ok ok step es s \<Longrightarrow> \<exists>s'. foldF step es s = Inr s' \<and> inv s'"
proof (induction es arbitrary: s)
  case Nil
  then show ?case by simp
next
  case (Cons e es)
  then obtain s1 where "step e s = Inr s1" "run_ok ok step es s1"
    using step_total [of s e] by auto
  moreover from this have "inv s1"
    using Cons.prems by (auto intro: step_inv)
  ultimately show ?case
    using Cons.IH [of s1] by simp
qed

end

end
