(* ===== verification/Enums.thy ===== *)
theory Enums
  imports Prelude
begin

text \<open>
  The enumerations of \<open>src/Header/EnumHome.h\<close>. A C++ enumerator is an integer on the wire
  and in a message head, so every enumeration comes with its code and with the partial
  function that reads a code back (\<open>None\<close> where no enumerator has that code, which is the
  \<open>default\<close> branch of the program's switches).
\<close>

datatype SERVER_TYPE = NONE | CENTER | GATE | LOGIC | DATABASE | MATCH

fun server_type_code :: "SERVER_TYPE \<Rightarrow> int" where
  "server_type_code NONE = 0"
| "server_type_code CENTER = 1"
| "server_type_code GATE = 2"
| "server_type_code LOGIC = 3"
| "server_type_code DATABASE = 4"
| "server_type_code MATCH = 5"

definition server_type_of :: "int \<Rightarrow> SERVER_TYPE option" where
  "server_type_of n =
     (if n = 0 then Some NONE else if n = 1 then Some CENTER else if n = 2 then Some GATE
      else if n = 3 then Some LOGIC else if n = 4 then Some DATABASE
      else if n = 5 then Some MATCH else None)"

datatype SERVER_FREE_LEVEL = FREE | COMMON | BUSY | DOWN

fun free_level_code :: "SERVER_FREE_LEVEL \<Rightarrow> int" where
  "free_level_code FREE = 0"
| "free_level_code COMMON = 1"
| "free_level_code BUSY = 2"
| "free_level_code DOWN = 3"

datatype BODYTYPE =
    ErrorPackage
  | LoginRequest | LoginResponse | RegistRequest | RegistResponse | LoginOut
  | JoinRoom | LeaveRoom | CreateRoom | GetRoomList | ChangeRole | JoinGame | QuitGame
  | NotifyRoomInfo
  | StartGame | EndGame
  | Frame | UserOperate | ChaseFrame | GameReplay | Reconnect | UserHeart
  | ServerInfo | UserInfo | ServerConnChange
  | RegionInfo | GetRegionInfoRequest | GetRegionInfoResponse | JoinRegionRequest
  | JoinRegionResponse
  | ErrorToken

fun bodytype_code :: "BODYTYPE \<Rightarrow> int" where
  "bodytype_code ErrorPackage = -1"
| "bodytype_code LoginRequest = 0"
| "bodytype_code LoginResponse = 1"
| "bodytype_code RegistRequest = 2"
| "bodytype_code RegistResponse = 3"
| "bodytype_code LoginOut = 4"
| "bodytype_code JoinRoom = 5"
| "bodytype_code LeaveRoom = 6"
| "bodytype_code CreateRoom = 7"
| "bodytype_code GetRoomList = 8"
| "bodytype_code ChangeRole = 9"
| "bodytype_code JoinGame = 10"
| "bodytype_code QuitGame = 11"
| "bodytype_code NotifyRoomInfo = 12"
| "bodytype_code StartGame = 50"
| "bodytype_code EndGame = 51"
| "bodytype_code Frame = 70"
| "bodytype_code UserOperate = 71"
| "bodytype_code ChaseFrame = 72"
| "bodytype_code GameReplay = 73"
| "bodytype_code Reconnect = 74"
| "bodytype_code UserHeart = 75"
| "bodytype_code ServerInfo = 100"
| "bodytype_code UserInfo = 101"
| "bodytype_code ServerConnChange = 102"
| "bodytype_code RegionInfo = 200"
| "bodytype_code GetRegionInfoRequest = 201"
| "bodytype_code GetRegionInfoResponse = 202"
| "bodytype_code JoinRegionRequest = 203"
| "bodytype_code JoinRegionResponse = 204"
| "bodytype_code ErrorToken = 400"

definition all_bodytypes :: "BODYTYPE list" where
  "all_bodytypes =
     [ErrorPackage, LoginRequest, LoginResponse, RegistRequest, RegistResponse, LoginOut,
      JoinRoom, LeaveRoom, CreateRoom, GetRoomList, ChangeRole, JoinGame, QuitGame,
      NotifyRoomInfo, StartGame, EndGame, Frame, UserOperate, ChaseFrame, GameReplay,
      Reconnect, UserHeart, ServerInfo, UserInfo, ServerConnChange, RegionInfo,
      GetRegionInfoRequest, GetRegionInfoResponse, JoinRegionRequest, JoinRegionResponse,
      ErrorToken]"

definition bodytype_of :: "int \<Rightarrow> BODYTYPE option" where
  "bodytype_of n = find (\<lambda>b. bodytype_code b = n) all_bodytypes"

lemma bodytype_of_code [simp]: "bodytype_of (bodytype_code b) = Some b"
  by (cases b) (simp_all add: bodytype_of_def all_bodytypes_def)

lemma bodytype_code_of: "bodytype_of n = Some b \<Longrightarrow> bodytype_code b = n"
  by (auto simp: bodytype_of_def find_Some_iff)

lemma bodytype_code_inj [simp]: "bodytype_code a = bodytype_code b \<longleftrightarrow> a = b"
  by (metis bodytype_of_code option.inject)

lemma server_type_of_code [simp]: "server_type_of (server_type_code t) = Some t"
  by (cases t) (simp_all add: server_type_of_def)

datatype CallbackType =
    LogicServer_Update | FuncServer_TryToConnectAvailabeServer
  | FuncServer_SendSelfInfoToCenter | GateServer_CheckAllClientConn | ServerBase_FixedTimeFire

text \<open>
  \<open>instantiation\<close> of the library's order on the message types by their codes, so that the
  library's sorting and searching apply to them.
\<close>

instantiation BODYTYPE :: linorder
begin

definition less_eq_BODYTYPE :: "BODYTYPE \<Rightarrow> BODYTYPE \<Rightarrow> bool" where
  "less_eq_BODYTYPE a b \<longleftrightarrow> bodytype_code a \<le> bodytype_code b"

definition less_BODYTYPE :: "BODYTYPE \<Rightarrow> BODYTYPE \<Rightarrow> bool" where
  "less_BODYTYPE a b \<longleftrightarrow> bodytype_code a < bodytype_code b"

instance
  by standard (auto simp: less_eq_BODYTYPE_def less_BODYTYPE_def)

end

end
