(* ===== verification/Proto.thy ===== *)
theory Proto
  imports Enums
begin

text \<open>
  The message classes the protobuf compiler generated under \<open>src/Protobuf\<close> (one record per
  class, with the fields in the order of the class and a two-letter prefix against clashes)
  and their default instances, which are what \<open>new T\<close> builds. \<open>proto_body\<close> is the dynamic
  type of a \<open>google::protobuf::MessageLite *\<close>: one constructor per class that
  \<open>CreateMessageBody\<close> can build, so that a \<open>dynamic_cast\<close> is a case analysis.

  Proto3 enumerations are open: a received value may be no enumerator, hence the extra
  constructor of each of them. The wire format itself belongs to the protobuf library; where
  bytes are parsed or printed the codec is a parameter (theory \<open>Message_Codec\<close>).
\<close>

type_synonym u32 = "32 word"

datatype ReqType = REQUEST | RESPONSE | ReqType_other int

datatype OperateType =
  FrameInfo | OpJoinGame | OpLeaveGame | Shop_GetRandom | Shop_Buy | OperateType_other int

datatype ServerInfo_Operation =
  Op_Register | Op_RequstAssgin | Op_Connect | ServerInfo_Operation_other int

datatype UserInfo_Operation = User_Register | User_Logout | UserInfo_Operation_other int

record LoginRequestMsg =
  lq_username :: string
  lq_passwd :: string

definition new_LoginRequest :: LoginRequestMsg where
  "new_LoginRequest =
    \<lparr>lq_username = '''', lq_passwd = ''''\<rparr>"

record LoginResponseMsg =
  lp_result :: bool
  lp_msg :: string
  lp_userid :: int
  lp_token :: u32
  lp_username :: string

definition new_LoginResponse :: LoginResponseMsg where
  "new_LoginResponse =
    \<lparr>lp_result = False, lp_msg = '''', lp_userid = 0, lp_token = 0, lp_username =
     ''''\<rparr>"

record RegistRequestMsg =
  rq_username :: string
  rq_passwd :: string

definition new_RegistRequest :: RegistRequestMsg where
  "new_RegistRequest =
    \<lparr>rq_username = '''', rq_passwd = ''''\<rparr>"

record RegistResponseMsg =
  rp_result :: bool
  rp_msg :: string

definition new_RegistResponse :: RegistResponseMsg where
  "new_RegistResponse =
    \<lparr>rp_result = False, rp_msg = ''''\<rparr>"

record StartGameMsg =
  sg_roomid :: int
  sg_userpid :: int
  sg_seed :: u32

definition new_StartGame :: StartGameMsg where
  "new_StartGame =
    \<lparr>sg_roomid = 0, sg_userpid = 0, sg_seed = 0\<rparr>"

record EndGameMsg =
  eg_roomid :: int

definition new_EndGame :: EndGameMsg where
  "new_EndGame =
    \<lparr>eg_roomid = 0\<rparr>"

record UserOperateMsg =
  uo_data :: "int list"
  uo_opt :: OperateType
  uo_userpid :: int

definition new_UserOperate :: UserOperateMsg where
  "new_UserOperate =
    \<lparr>uo_data = [], uo_opt = FrameInfo, uo_userpid = 0\<rparr>"

record ReconnectMsg =
  rc_roomid :: int
  rc_userpid :: int
  rc_is_roomhost :: bool
  rc_seed :: u32
  rc_token :: int
  rc_ret :: bool
  rc_msg :: string

definition new_Reconnect :: ReconnectMsg where
  "new_Reconnect =
    \<lparr>rc_roomid = 0, rc_userpid = 0, rc_is_roomhost = False, rc_seed = 0, rc_token =
     0, rc_ret = False, rc_msg = ''''\<rparr>"

record FrameMsg =
  fr_frame_id :: int
  fr_operates :: "UserOperateMsg list"

definition new_Frame :: FrameMsg where
  "new_Frame =
    \<lparr>fr_frame_id = 0, fr_operates = []\<rparr>"

record GameReplayMsg =
  gr_frames :: "FrameMsg list"

definition new_GameReplay :: GameReplayMsg where
  "new_GameReplay =
    \<lparr>gr_frames = []\<rparr>"

record RoomUserInfoMsg =
  ui_username :: string
  ui_userid :: int
  ui_is_roomhost :: bool
  ui_role_id :: int
  ui_userpid :: int
  ui_in_game :: bool

definition new_RoomUserInfo :: RoomUserInfoMsg where
  "new_RoomUserInfo =
    \<lparr>ui_username = '''', ui_userid = 0, ui_is_roomhost = False, ui_role_id = 0,
     ui_userpid = 0, ui_in_game = False\<rparr>"

record JoinRoomMsg =
  jr_roomid :: int
  jr_result :: string
  jr_type :: ReqType
  jr_ret :: bool

definition new_JoinRoom :: JoinRoomMsg where
  "new_JoinRoom =
    \<lparr>jr_roomid = 0, jr_result = '''', jr_type = REQUEST, jr_ret = False\<rparr>"

record LeaveRoomMsg =
  lr_roomid :: int
  lr_ret :: bool
  lr_result :: string
  lr_type :: ReqType

definition new_LeaveRoom :: LeaveRoomMsg where
  "new_LeaveRoom =
    \<lparr>lr_roomid = 0, lr_ret = False, lr_result = '''', lr_type = REQUEST\<rparr>"

record CreateRoomMsg =
  cr_roomid :: int
  cr_ret :: bool
  cr_result :: string
  cr_roomname :: string
  cr_type :: ReqType
  cr_is_roomhost :: bool

definition new_CreateRoom :: CreateRoomMsg where
  "new_CreateRoom =
    \<lparr>cr_roomid = 0, cr_ret = False, cr_result = '''', cr_roomname = '''', cr_type =
     REQUEST, cr_is_roomhost = False\<rparr>"

record RoomInfoMsg =
  ri_roomid :: int
  ri_people_count :: int
  ri_roomname :: string

definition new_RoomInfo :: RoomInfoMsg where
  "new_RoomInfo =
    \<lparr>ri_roomid = 0, ri_people_count = 0, ri_roomname = ''''\<rparr>"

record GetRoomListMsg =
  gl_room_list :: "RoomInfoMsg list"
  gl_size :: int
  gl_ret :: bool
  gl_type :: ReqType

definition new_GetRoomList :: GetRoomListMsg where
  "new_GetRoomList =
    \<lparr>gl_room_list = [], gl_size = 0, gl_ret = False, gl_type = REQUEST\<rparr>"

record NotifyRoomInfoMsg =
  ni_users :: "RoomUserInfoMsg list"
  ni_roomid :: int
  ni_m_gamestart :: bool

definition new_NotifyRoomInfo :: NotifyRoomInfoMsg where
  "new_NotifyRoomInfo =
    \<lparr>ni_users = [], ni_roomid = 0, ni_m_gamestart = False\<rparr>"

record ChangeRoleMsg =
  ch_role_id :: int

definition new_ChangeRole :: ChangeRoleMsg where
  "new_ChangeRole =
    \<lparr>ch_role_id = 0\<rparr>"

record JoinGameMsg =
  jg_userid :: int

definition new_JoinGame :: JoinGameMsg where
  "new_JoinGame =
    \<lparr>jg_userid = 0\<rparr>"

record QuitGameMsg =
  qg_userid :: int

definition new_QuitGame :: QuitGameMsg where
  "new_QuitGame =
    \<lparr>qg_userid = 0\<rparr>"

record ServerInfoMsg =
  sv_ip :: string
  sv_port :: int
  sv_server_free_level :: int
  sv_server_type :: int
  sv_opt :: ServerInfo_Operation
  sv_server_name :: string

definition new_ServerInfo :: ServerInfoMsg where
  "new_ServerInfo =
    \<lparr>sv_ip = '''', sv_port = 0, sv_server_free_level = 0, sv_server_type = 0, sv_opt
     = Op_Register, sv_server_name = ''''\<rparr>"

record ServerConnChangeMsg =
  sc_ip :: string
  sc_port :: int
  sc_change :: int
  sc_type :: int

definition new_ServerConnChange :: ServerConnChangeMsg where
  "new_ServerConnChange =
    \<lparr>sc_ip = '''', sc_port = 0, sc_change = 0, sc_type = 0\<rparr>"

record UserInfoMsg =
  us_userid :: int
  us_fd :: int
  us_opt :: UserInfo_Operation

definition new_UserInfo :: UserInfoMsg where
  "new_UserInfo =
    \<lparr>us_userid = 0, us_fd = 0, us_opt = User_Register\<rparr>"

record RegionInfoMsg =
  rg_id :: int
  rg_people_count :: int
  rg_server_name :: string
  rg_level :: int

definition new_RegionInfo :: RegionInfoMsg where
  "new_RegionInfo =
    \<lparr>rg_id = 0, rg_people_count = 0, rg_server_name = '''', rg_level = 0\<rparr>"

record GetRegionInfoResponseMsg =
  gp_infos :: "RegionInfoMsg list"

definition new_GetRegionInfoResponse :: GetRegionInfoResponseMsg where
  "new_GetRegionInfoResponse =
    \<lparr>gp_infos = []\<rparr>"

record JoinRegionRequestMsg =
  jq_id :: int

definition new_JoinRegionRequest :: JoinRegionRequestMsg where
  "new_JoinRegionRequest =
    \<lparr>jq_id = 0\<rparr>"

record JoinRegionResponseMsg =
  jp_ret :: bool
  jp_ip :: string
  jp_port :: int

definition new_JoinRegionResponse :: JoinRegionResponseMsg where
  "new_JoinRegionResponse =
    \<lparr>jp_ret = False, jp_ip = '''', jp_port = 0\<rparr>"

datatype proto_body =
    B_LoginRequest LoginRequestMsg
  | B_LoginResponse LoginResponseMsg
  | B_RegistRequest RegistRequestMsg
  | B_RegistResponse RegistResponseMsg
  | B_JoinRoom JoinRoomMsg
  | B_LeaveRoom LeaveRoomMsg
  | B_CreateRoom CreateRoomMsg
  | B_GetRoomList GetRoomListMsg
  | B_ChangeRole ChangeRoleMsg
  | B_JoinGame JoinGameMsg
  | B_QuitGame QuitGameMsg
  | B_NotifyRoomInfo NotifyRoomInfoMsg
  | B_StartGame StartGameMsg
  | B_EndGame EndGameMsg
  | B_Frame FrameMsg
  | B_UserOperate UserOperateMsg
  | B_GameReplay GameReplayMsg
  | B_Reconnect ReconnectMsg
  | B_UserHeart
  | B_ServerInfo ServerInfoMsg
  | B_UserInfo UserInfoMsg
  | B_GetRegionInfoRequest
  | B_GetRegionInfoResponse GetRegionInfoResponseMsg
  | B_JoinRegionRequest JoinRegionRequestMsg
  | B_JoinRegionResponse JoinRegionResponseMsg
  | B_ServerConnChange ServerConnChangeMsg

lemmas new_message_defs =
  new_LoginRequest_def new_LoginResponse_def new_RegistRequest_def
  new_RegistResponse_def new_StartGame_def new_EndGame_def new_UserOperate_def
  new_Reconnect_def new_Frame_def new_GameReplay_def new_RoomUserInfo_def
  new_JoinRoom_def new_LeaveRoom_def new_CreateRoom_def new_RoomInfo_def
  new_GetRoomList_def new_NotifyRoomInfo_def new_ChangeRole_def new_JoinGame_def
  new_QuitGame_def new_ServerInfo_def new_ServerConnChange_def new_UserInfo_def
  new_RegionInfo_def new_GetRegionInfoResponse_def new_JoinRegionRequest_def
  new_JoinRegionResponse_def

end
