(* ===== verification/Config.thy ===== *)
theory Config
  imports Proto
begin

text \<open>
  The constants of \<open>ConstPool\<close> (\<open>src/Header/Tool/ConstPool.h\<close>), reached in the program through
  the singleton macro \<open>JSON\<close>. Every operation that reads one takes the record as an argument.
  The eight numbered fields of each server list are kept as one list, in their order, of
  (ip, port, name). How they are read from the files under \<open>ini\<close> is in \<open>Config_Files\<close>.
\<close>

record Config =
  IS_CHASE_FRAME :: bool
  DEBUG :: bool
  PRESSURE_TEST :: bool
  HEAD_SIZE :: int
  HEAD_SIZE_S :: int
  TMP_BUFFER_SIZE :: int
  MAX_BUFFER_SIZE :: int
  EPOLL_WAIT_TIME :: int
  MAX_CLIENTS :: int
  ROOM_SIZE :: int
  DEFAULT_ROOM_COUNT :: int
  ROOM_POOL_SIZE :: int
  ONE_FRAME_MS :: int
  CHECK_ALL_CLIENT_CONN :: int
  TRY_CONNECT_SERVER_TIME :: int
  MAX_HEARTBEAT_DIFF :: int
  SEND_CENTERSERVER_TIME :: int
  GATE_SERVERS :: "(string \<times> int \<times> string) list"
  LOGIC_SERVERS :: "(string \<times> int \<times> string) list"
  CENTER_SERVER :: "string \<times> int \<times> string"
  DATABASE_SERVER :: "string \<times> int \<times> string"
  LOCAL_IP :: string
  SERVER_FREE_COUNT :: int
  SERVER_COMMON_COUNT :: int
  SERVER_BUSY_COUNT :: int

text \<open>What the layout of a message head and of a receive buffer needs of the constants.\<close>

definition net_config_ok :: "Config \<Rightarrow> bool" where
  "net_config_ok cfg \<longleftrightarrow>
     HEAD_SIZE_S cfg = 4 \<and> HEAD_SIZE cfg = 12 \<and>
     12 \<le> MAX_BUFFER_SIZE cfg \<and> MAX_BUFFER_SIZE cfg < 2 ^ 31"

definition room_config_ok :: "Config \<Rightarrow> bool" where
  "room_config_ok cfg \<longleftrightarrow>
     0 < ROOM_SIZE cfg \<and> 0 < ROOM_POOL_SIZE cfg \<and>
     ROOM_POOL_SIZE cfg \<le> DEFAULT_ROOM_COUNT cfg"

end
