(* ===== verification/RingBuffer.thy ===== *)
theory RingBuffer
  imports Config
begin

text \<open>
  The receive buffer of a connection (\<open>src/Tool/RingBuffer.cpp\<close>): a byte array of
  \<open>MAX_BUFFER_SIZE\<close> with unsigned 32-bit cursors that wrap around its end. The array the
  constructor allocates is uninitialised; it is modelled as zeros, and \<open>GetBuffer_view\<close>
  shows that reading what was written never sees them. Indexing past the array is a fault.

  \<open>rb_view\<close> is the byte sequence a buffer holds. The locale \<open>fifo_buffer\<close> states what its
  client, the framing loop of \<open>ServerBase\<close>, relies on; the interpretation at the end shows
  that the ring buffer provides it.
\<close>

type_synonym byte = "8 word"

record RingBuffer =
  rb_buffer :: "byte list"
  rb_begin :: u32
  rb_end :: u32
  rb_remain :: u32
  rb_capacity :: u32

definition max_buffer :: "Config \<Rightarrow> u32" where
  "max_buffer cfg = word_of_int (MAX_BUFFER_SIZE cfg)"

definition RingBuffer_new :: "Config \<Rightarrow> RingBuffer" where
  "RingBuffer_new cfg =
     \<lparr>rb_buffer = replicate (unat (max_buffer cfg)) 0, rb_begin = 0, rb_end = 0,
      rb_remain = max_buffer cfg, rb_capacity = 0\<rparr>"

fun write_loop :: "u32 \<Rightarrow> byte list \<Rightarrow> byte list \<Rightarrow> u32 \<Rightarrow> (byte list \<times> u32) res" where
  "write_loop M [] buf e = Inr (buf, e)"
| "write_loop M (b # bs) buf e =
     (if unat e < length buf then write_loop M bs (buf[unat e := b]) ((e + 1) mod M)
      else Inl OutOfBounds)"

definition AddBuffer :: "Config \<Rightarrow> byte list \<Rightarrow> RingBuffer \<Rightarrow> (bool \<times> RingBuffer) res" where
  "AddBuffer cfg data rb =
     (let len = word_of_nat (length data) :: u32 in
      if len > rb_remain rb then Inr (False, rb)
      else bindF (write_loop (max_buffer cfg) data (rb_buffer rb) (rb_end rb)) (\<lambda>(buf, e).
             Inr (True, rb\<lparr>rb_buffer := buf, rb_end := e,
                          rb_capacity := rb_capacity rb + len,
                          rb_remain := rb_remain rb - len\<rparr>)))"

definition PopBuffer :: "Config \<Rightarrow> u32 \<Rightarrow> RingBuffer \<Rightarrow> bool \<times> RingBuffer" where
  "PopBuffer cfg len rb =
     (if len > rb_capacity rb then (False, rb)
      else (True, rb\<lparr>rb_begin := (rb_begin rb + len) mod max_buffer cfg,
                     rb_capacity := rb_capacity rb - len,
                     rb_remain := rb_remain rb + len\<rparr>))"

fun read_loop :: "u32 \<Rightarrow> byte list \<Rightarrow> nat \<Rightarrow> u32 \<Rightarrow> byte list res" where
  "read_loop M buf 0 start = Inr []"
| "read_loop M buf (Suc n) start =
     (if unat start < length buf
      then bindF (read_loop M buf n ((start + 1) mod M)) (\<lambda>ret. Inr (buf ! unat start # ret))
      else Inl OutOfBounds)"

definition GetBuffer :: "Config \<Rightarrow> u32 \<Rightarrow> RingBuffer \<Rightarrow> byte list res" where
  "GetBuffer cfg len rb = read_loop (max_buffer cfg) (rb_buffer rb) (unat len) (rb_begin rb)"

definition GetRemain :: "RingBuffer \<Rightarrow> u32" where
  "GetRemain rb = rb_remain rb"

definition GetCapacity :: "RingBuffer \<Rightarrow> u32" where
  "GetCapacity rb = rb_capacity rb"

definition RingBuffer_index :: "Config \<Rightarrow> int \<Rightarrow> RingBuffer \<Rightarrow> byte res" where
  "RingBuffer_index cfg i rb =
     (if i < 0 \<or> MAX_BUFFER_SIZE cfg \<le> i then Inr 0
      else if nat i < length (rb_buffer rb) then Inr (rb_buffer rb ! nat i)
      else Inl OutOfBounds)"

section \<open>Invariant and view\<close>

definition rb_wf :: "Config \<Rightarrow> RingBuffer \<Rightarrow> bool" where
  "rb_wf cfg rb \<longleftrightarrow>
     0 < MAX_BUFFER_SIZE cfg \<and> MAX_BUFFER_SIZE cfg < 2 ^ 31 \<and>
     length (rb_buffer rb) = nat (MAX_BUFFER_SIZE cfg) \<and>
     unat (rb_begin rb) < nat (MAX_BUFFER_SIZE cfg) \<and>
     unat (rb_end rb) = (unat (rb_begin rb) + unat (rb_capacity rb)) mod nat (MAX_BUFFER_SIZE cfg) \<and>
     unat (rb_capacity rb) + unat (rb_remain rb) = nat (MAX_BUFFER_SIZE cfg)"

definition rb_view :: "Config \<Rightarrow> RingBuffer \<Rightarrow> byte list" where
  "rb_view cfg rb =
     map (\<lambda>i. rb_buffer rb ! ((unat (rb_begin rb) + i) mod nat (MAX_BUFFER_SIZE cfg)))
       [0..<unat (rb_capacity rb)]"

lemma length_rb_view [simp]: "length (rb_view cfg rb) = unat (rb_capacity rb)"
  by (simp add: rb_view_def)

lemma unat_max_buffer:
  "0 < MAX_BUFFER_SIZE cfg \<Longrightarrow> MAX_BUFFER_SIZE cfg < 2 ^ 31 \<Longrightarrow>
     unat (max_buffer cfg) = nat (MAX_BUFFER_SIZE cfg)"
  by (simp add: max_buffer_def unat_eq_nat_uint uint_word_of_int take_bit_int_eq_self)

lemma RingBuffer_new_wf:
  "0 < MAX_BUFFER_SIZE cfg \<Longrightarrow> MAX_BUFFER_SIZE cfg < 2 ^ 31 \<Longrightarrow> rb_wf cfg (RingBuffer_new cfg)"
  by (simp add: rb_wf_def RingBuffer_new_def unat_max_buffer)

lemma RingBuffer_new_view [simp]: "rb_view cfg (RingBuffer_new cfg) = []"
  by (simp add: rb_view_def RingBuffer_new_def)

lemma unat_word_of_nat_u32: "n < 2 ^ 32 \<Longrightarrow> unat (word_of_nat n :: u32) = n"
  by (simp add: unat_of_nat)

text \<open>One step of a cursor.\<close>

lemma unat_cursor_step:
  fixes e M :: u32
  assumes "unat e < unat M" "unat M < 2 ^ 31"
  shows "unat ((e + 1) mod M) = Suc (unat e) mod unat M"
proof -
  have "unat (e + 1) = Suc (unat e)"
    using assms by (simp add: unat_word_ariths)
  then show ?thesis by (simp add: unat_mod)
qed

lemma write_loop_spec:
  assumes "unat M = length buf" "unat M < 2 ^ 31" "unat e < unat M" "length bs \<le> unat M"
  shows "\<exists>buf' e'. write_loop M bs buf e = Inr (buf', e') \<and> length buf' = length buf \<and>
     unat e' = (unat e + length bs) mod unat M \<and>
     (\<forall>i < unat M. buf' ! ((unat e + i) mod unat M) =
        (if i < length bs then bs ! i else buf ! ((unat e + i) mod unat M)))"
  using assms
proof (induction bs arbitrary: buf e)
  case Nil
  then show ?case by simp
next
  case (Cons b bs)
  let ?M = "unat M" and ?e = "(e + 1) mod M" and ?buf = "buf[unat e := b]"
  have M0: "0 < ?M" using Cons.prems(3) by simp
  have e': "unat ?e = Suc (unat e) mod ?M"
    using Cons.prems by (intro unat_cursor_step) auto
  then have "unat ?e < ?M" using M0 by simp
  then obtain buf' e'' where IH: "write_loop M bs ?buf ?e = Inr (buf', e'')"
      "length buf' = length ?buf" "unat e'' = (unat ?e + length bs) mod ?M"
      "\<forall>i < ?M. buf' ! ((unat ?e + i) mod ?M) =
        (if i < length bs then bs ! i else ?buf ! ((unat ?e + i) mod ?M))"
    using Cons.IH [of ?buf ?e] Cons.prems by auto
  have shift: "(unat ?e + i) mod ?M = (unat e + Suc i) mod ?M" for i
    by (simp add: e' mod_add_left_eq)
  have "buf' ! ((unat e + i) mod ?M) =
      (if i < length (b # bs) then (b # bs) ! i else buf ! ((unat e + i) mod ?M))"
    if i: "i < ?M" for i
  proof (cases i)
    case 0
    have last: "?M - 1 < ?M" "\<not> ?M - 1 < length bs"
      using M0 Cons.prems(4) by auto
    have wrap: "(unat e + Suc (?M - 1)) mod ?M = unat e"
      using M0 Cons.prems(3) by simp
    have "buf' ! unat e = ?buf ! unat e"
      using IH(4) last wrap shift [of "?M - 1"] by metis
    then show ?thesis
      using 0 Cons.prems by simp
  next
    case (Suc j)
    have ne: "(unat e + Suc j) mod ?M \<noteq> unat e"
    proof (cases "unat e + Suc j < ?M")
      case True
      then show ?thesis by simp
    next
      case False
      then have "(unat e + Suc j) mod ?M = unat e + Suc j - ?M"
        using i Suc Cons.prems(3) by (simp add: mod_if)
      then show ?thesis using i Suc False by arith
    qed
    have "buf' ! ((unat e + Suc j) mod ?M) =
        (if j < length bs then bs ! j else ?buf ! ((unat e + Suc j) mod ?M))"
      using IH(4) i Suc shift [of j] by (metis Suc_lessD)
    then show ?thesis using Suc ne by auto
  qed
  moreover have "write_loop M (b # bs) buf e = Inr (buf', e'')"
    using IH(1) Cons.prems(1,3) by simp
  moreover have "unat e'' = (unat e + length (b # bs)) mod ?M"
    using IH(3) by (simp add: shift)
  ultimately show ?case using IH(2) by auto
qed

lemma read_loop_spec:
  assumes "unat M = length buf" "unat M < 2 ^ 31" "unat s < unat M"
  shows "read_loop M buf n s = Inr (map (\<lambda>i. buf ! ((unat s + i) mod unat M)) [0..<n])"
  using assms(3)
proof (induction n arbitrary: s)
  case 0
  then show ?case by simp
next
  case (Suc n)
  have s': "unat ((s + 1) mod M) = Suc (unat s) mod unat M"
    using Suc.prems assms by (intro unat_cursor_step) auto
  then have "read_loop M buf n ((s + 1) mod M) =
      Inr (map (\<lambda>i. buf ! ((unat ((s + 1) mod M) + i) mod unat M)) [0..<n])"
    using Suc.prems by (intro Suc.IH) simp
  also have "\<dots> = Inr (map (\<lambda>i. buf ! ((unat s + Suc i) mod unat M)) [0..<n])"
    by (simp add: s' mod_add_left_eq)
  finally show ?case
    using Suc.prems assms(1)
    by (simp add: upt_conv_Cons map_Suc_upt [symmetric] comp_def del: upt_Suc)
qed

section \<open>Operations on the view\<close>

lemma GetBuffer_view:
  assumes "rb_wf cfg rb" "unat len \<le> unat (rb_capacity rb)"
  shows "GetBuffer cfg len rb = Inr (take (unat len) (rb_view cfg rb))"
proof -
  have "read_loop (max_buffer cfg) (rb_buffer rb) (unat len) (rb_begin rb) =
      Inr (map (\<lambda>i. rb_buffer rb ! ((unat (rb_begin rb) + i) mod unat (max_buffer cfg)))
        [0..<unat len])"
    using assms(1) by (intro read_loop_spec) (auto simp: rb_wf_def unat_max_buffer)
  then show ?thesis
    using assms by (simp add: GetBuffer_def rb_wf_def unat_max_buffer rb_view_def take_map)
qed

lemma AddBuffer_full:
  assumes "rb_wf cfg rb" "length data < 2 ^ 32" "unat (rb_remain rb) < length data"
  shows "AddBuffer cfg data rb = Inr (False, rb)"
proof -
  have "rb_remain rb < word_of_nat (length data)"
    using assms(2,3) by (simp add: word_less_nat_alt unat_word_of_nat_u32)
  then show ?thesis by (simp add: AddBuffer_def)
qed

lemma AddBuffer_fits:
  assumes wf: "rb_wf cfg rb" and len: "length data \<le> unat (rb_remain rb)"
  shows "\<exists>rb'. AddBuffer cfg data rb = Inr (True, rb') \<and> rb_wf cfg rb' \<and>
     rb_view cfg rb' = rb_view cfg rb @ data"
proof -
  let ?M = "nat (MAX_BUFFER_SIZE cfg)" and ?n = "word_of_nat (length data) :: u32"
  have M: "unat (max_buffer cfg) = ?M" "0 < ?M" "?M < 2 ^ 31"
    using wf by (auto simp: rb_wf_def unat_max_buffer)
  have fits: "length data \<le> ?M" "unat (rb_capacity rb) + length data \<le> ?M"
    using wf len by (auto simp: rb_wf_def)
  then have n: "unat ?n = length data"
    using M by (intro unat_word_of_nat_u32) auto
  obtain buf e where w:
      "write_loop (max_buffer cfg) data (rb_buffer rb) (rb_end rb) = Inr (buf, e)"
      "length buf = length (rb_buffer rb)" "unat e = (unat (rb_end rb) + length data) mod ?M"
      "\<forall>i < ?M. buf ! ((unat (rb_end rb) + i) mod ?M) =
         (if i < length data then data ! i else rb_buffer rb ! ((unat (rb_end rb) + i) mod ?M))"
    using write_loop_spec [of "max_buffer cfg" "rb_buffer rb" "rb_end rb" data] M wf fits
    by (auto simp: rb_wf_def)
  define rb' where "rb' = rb\<lparr>rb_buffer := buf, rb_end := e, rb_capacity := rb_capacity rb + ?n,
    rb_remain := rb_remain rb - ?n\<rparr>"
  have add: "AddBuffer cfg data rb = Inr (True, rb')"
    using len n w(1) by (simp add: AddBuffer_def rb'_def word_less_nat_alt not_less Let_def)
  have cap: "unat (rb_capacity rb') = unat (rb_capacity rb) + length data"
    using fits(2) M(3) n by (simp add: rb'_def unat_word_ariths)
  have rem: "unat (rb_remain rb') = unat (rb_remain rb) - length data"
    using len n by (simp add: rb'_def unat_sub word_le_nat_alt)
  have wf': "rb_wf cfg rb'"
    using wf w(2,3) cap rem len
    by (auto simp: rb_wf_def rb'_def mod_add_left_eq add.assoc)
  have "rb_view cfg rb' ! i = (rb_view cfg rb @ data) ! i"
    if i: "i < unat (rb_capacity rb) + length data" for i
  proof -
    let ?b = "unat (rb_begin rb)" and ?c = "unat (rb_capacity rb)"
    have end_eq: "unat (rb_end rb) = (?b + ?c) mod ?M"
      using wf by (simp add: rb_wf_def)
    have at: "rb_view cfg rb' ! i = buf ! ((?b + i) mod ?M)"
      using i cap by (simp add: rb_view_def rb'_def)
    show ?thesis
    proof (cases "i < ?c")
      case True
      define j where "j = ?M - ?c + i"
      have j: "j < ?M" "\<not> j < length data"
        using True fits by (auto simp: j_def)
      have idx: "(unat (rb_end rb) + j) mod ?M = (?b + i) mod ?M"
      proof -
        have "?b + ?c + j = ?b + i + ?M" using fits(2) by (simp add: j_def)
        then have "(?b + ?c + j) mod ?M = (?b + i) mod ?M" by (simp only: mod_add_self2)
        then show ?thesis by (simp add: end_eq mod_add_left_eq)
      qed
      from w(4) j have "buf ! ((?b + i) mod ?M) = rb_buffer rb ! ((?b + i) mod ?M)"
        by (auto simp: idx)
      with True show ?thesis by (simp add: at nth_append) (simp add: rb_view_def)
    next
      case False
      have idx: "(unat (rb_end rb) + (i - ?c)) mod ?M = (?b + i) mod ?M"
      proof -
        have "?b + ?c + (i - ?c) = ?b + i" using False by simp
        then show ?thesis unfolding end_eq mod_add_left_eq by simp
      qed
      have "i - ?c < length data" "i - ?c < ?M" using i False fits by auto
      with w(4) idx have "buf ! ((?b + i) mod ?M) = data ! (i - ?c)" by auto
      with False show ?thesis by (simp add: at nth_append)
    qed
  qed
  then have "rb_view cfg rb' = rb_view cfg rb @ data"
    using cap by (intro nth_equalityI) auto
  with add wf' show ?thesis by blast
qed

lemma PopBuffer_refuse: "unat (rb_capacity rb) < unat n \<Longrightarrow> PopBuffer cfg n rb = (False, rb)"
  by (simp add: PopBuffer_def word_less_nat_alt)

lemma PopBuffer_drop:
  assumes wf: "rb_wf cfg rb" and n: "unat n \<le> unat (rb_capacity rb)"
  shows "\<exists>rb'. PopBuffer cfg n rb = (True, rb') \<and> rb_wf cfg rb' \<and>
     rb_view cfg rb' = drop (unat n) (rb_view cfg rb)"
proof -
  let ?M = "nat (MAX_BUFFER_SIZE cfg)"
  define rb' where "rb' = rb\<lparr>rb_begin := (rb_begin rb + n) mod max_buffer cfg,
    rb_capacity := rb_capacity rb - n, rb_remain := rb_remain rb + n\<rparr>"
  have M: "unat (max_buffer cfg) = ?M" "0 < ?M" "?M < 2 ^ 31"
    using wf by (auto simp: rb_wf_def unat_max_buffer)
  have sum: "unat (rb_begin rb) + unat n < 2 ^ 32" "unat (rb_remain rb) + unat n \<le> ?M"
    using wf n M(3) by (auto simp: rb_wf_def)
  have pop: "PopBuffer cfg n rb = (True, rb')"
    using n by (simp add: PopBuffer_def rb'_def word_less_nat_alt not_less)
  have b: "unat (rb_begin rb') = (unat (rb_begin rb) + unat n) mod ?M"
    using sum(1) by (simp add: rb'_def unat_mod M unat_word_ariths)
  have c: "unat (rb_capacity rb') = unat (rb_capacity rb) - unat n"
    using n by (simp add: rb'_def unat_sub word_le_nat_alt)
  have r: "unat (rb_remain rb') = unat (rb_remain rb) + unat n"
    using sum(2) M(3) by (simp add: rb'_def unat_word_ariths)
  have "unat (rb_end rb') = (unat (rb_begin rb') + unat (rb_capacity rb')) mod ?M"
  proof -
    have "unat (rb_begin rb) + unat n + (unat (rb_capacity rb) - unat n) =
        unat (rb_begin rb) + unat (rb_capacity rb)"
      using n by simp
    then show ?thesis
      using wf unfolding b c mod_add_left_eq by (simp add: rb_wf_def rb'_def)
  qed
  moreover have "length (rb_buffer rb') = ?M" "unat (rb_begin rb') < ?M"
      "unat (rb_capacity rb') + unat (rb_remain rb') = ?M"
    using wf b c r n M(2) by (auto simp: rb_wf_def) (simp add: rb'_def)
  ultimately have "rb_wf cfg rb'"
    using wf by (simp add: rb_wf_def)
  moreover have "rb_view cfg rb' = drop (unat n) (rb_view cfg rb)"
  proof (rule nth_equalityI)
    show "length (rb_view cfg rb') = length (drop (unat n) (rb_view cfg rb))"
      using c by simp
    fix i assume i: "i < length (rb_view cfg rb')"
    then have "unat n + i < unat (rb_capacity rb)"
      using c by simp
    have "(unat (rb_begin rb') + i) mod ?M = (unat (rb_begin rb) + (unat n + i)) mod ?M"
      by (simp add: b mod_add_left_eq add.assoc)
    then show "rb_view cfg rb' ! i = drop (unat n) (rb_view cfg rb) ! i"
      using i c n \<open>unat n + i < unat (rb_capacity rb)\<close> by (simp add: rb_view_def rb'_def)
  qed
  ultimately show ?thesis using pop by blast
qed

section \<open>The interface the framing loop relies on\<close>

locale fifo_buffer =
  fixes wf :: "'b \<Rightarrow> bool"
    and view :: "'b \<Rightarrow> 'a list"
    and add :: "'a list \<Rightarrow> 'b \<Rightarrow> (bool \<times> 'b) res"
    and get :: "nat \<Rightarrow> 'b \<Rightarrow> 'a list res"
    and pop :: "nat \<Rightarrow> 'b \<Rightarrow> bool \<times> 'b"
    and cap lim :: nat
  assumes view_bound: "wf b \<Longrightarrow> length (view b) \<le> cap"
    and add_fits: "wf b \<Longrightarrow> length xs < lim \<Longrightarrow> length (view b) + length xs \<le> cap \<Longrightarrow>
      \<exists>b'. add xs b = Inr (True, b') \<and> wf b' \<and> view b' = view b @ xs"
    and add_full: "wf b \<Longrightarrow> length xs < lim \<Longrightarrow> cap < length (view b) + length xs \<Longrightarrow>
      add xs b = Inr (False, b)"
    and get_prefix: "wf b \<Longrightarrow> n \<le> length (view b) \<Longrightarrow> get n b = Inr (take n (view b))"
    and pop_drop: "wf b \<Longrightarrow> n \<le> length (view b) \<Longrightarrow>
      \<exists>b'. pop n b = (True, b') \<and> wf b' \<and> view b' = drop n (view b)"

text \<open>Adding chunk after chunk, as the receive loop of \<open>HandleConnEvent\<close> does.\<close>

fun add_chunks ::
  "('a list \<Rightarrow> 'b \<Rightarrow> (bool \<times> 'b) res) \<Rightarrow> 'a list list \<Rightarrow> 'b \<Rightarrow> (bool \<times> 'b) res" where
  "add_chunks add [] b = Inr (True, b)"
| "add_chunks add (c # cs) b =
     bindF (add c b) (\<lambda>(ok, b'). if ok then add_chunks add cs b' else Inr (False, b'))"

context fifo_buffer
begin

lemma add_total: "wf b \<Longrightarrow> length xs < lim \<Longrightarrow> \<exists>ok b'. add xs b = Inr (ok, b') \<and> wf b'"
  using add_fits add_full by (metis not_less)

lemma add_chunks_fit:
  "wf b \<Longrightarrow> \<forall>c\<in>set cs. length c < lim \<Longrightarrow> length (view b) + length (concat cs) \<le> cap \<Longrightarrow>
     \<exists>b'. add_chunks add cs b = Inr (True, b') \<and> wf b' \<and> view b' = view b @ concat cs"
proof (induction cs arbitrary: b)
  case Nil
  then show ?case by simp
next
  case (Cons c cs)
  then obtain b1 where b1: "add c b = Inr (True, b1)" "wf b1" "view b1 = view b @ c"
    using add_fits [of b c] by auto
  moreover obtain b2 where "add_chunks add cs b1 = Inr (True, b2)" "wf b2"
      "view b2 = view b1 @ concat cs"
    using Cons.IH [of b1] Cons.prems b1 by auto
  ultimately show ?case by auto
qed

lemma add_chunks_prefix:
  "wf b \<Longrightarrow> \<forall>c\<in>set cs. length c < lim \<Longrightarrow>
     \<exists>ok b' k. add_chunks add cs b = Inr (ok, b') \<and> wf b' \<and>
       view b' = view b @ concat (take k cs) \<and> (ok \<longrightarrow> k = length cs)"
proof (induction cs arbitrary: b)
  case Nil
  then show ?case by auto
next
  case (Cons c cs)
  show ?case
  proof (cases "length (view b) + length c \<le> cap")
    case True
    then obtain b1 where b1: "add c b = Inr (True, b1)" "wf b1" "view b1 = view b @ c"
      using add_fits [of b c] Cons.prems by auto
    then obtain ok b2 k where IH: "add_chunks add cs b1 = Inr (ok, b2)" "wf b2"
        "view b2 = view b1 @ concat (take k cs)" "ok \<longrightarrow> k = length cs"
      using Cons.IH [of b1] Cons.prems by auto
    then have "view b2 = view b @ concat (take (Suc k) (c # cs))"
      using b1 by simp
    moreover have "add_chunks add (c # cs) b = Inr (ok, b2)"
      using b1 IH by simp
    moreover have "ok \<longrightarrow> Suc k = length (c # cs)"
      using IH by simp
    ultimately show ?thesis using IH(2) by blast
  next
    case False
    then have "add_chunks add (c # cs) b = Inr (False, b)"
      using add_full [of b c] Cons.prems by simp
    moreover have "view b = view b @ concat (take 0 (c # cs))"
      by simp
    ultimately show ?thesis using Cons.prems(1) by blast
  qed
qed

lemma drain:
  assumes "wf b"
  shows "get (length (view b)) b = Inr (view b)"
    and "\<exists>b'. pop (length (view b)) b = (True, b') \<and> wf b' \<and> view b' = []"
  using get_prefix [OF assms, of "length (view b)"] pop_drop [OF assms, of "length (view b)"]
  by auto

end

text \<open>
  The ring buffer provides it, at any configuration whose buffer size is usable; the sizes a
  client passes are the 32-bit unsigned ones of the C++ interface.
\<close>

definition rb_ok :: "Config \<Rightarrow> bool" where
  "rb_ok cfg \<longleftrightarrow> 0 < MAX_BUFFER_SIZE cfg \<and> MAX_BUFFER_SIZE cfg < 2 ^ 31"

lemma rb_view_bound: "rb_wf cfg rb \<Longrightarrow> length (rb_view cfg rb) \<le> nat (MAX_BUFFER_SIZE cfg)"
  by (simp add: rb_wf_def)

lemma rb_capacity_u32: "rb_wf cfg rb \<Longrightarrow> n \<le> length (rb_view cfg rb) \<Longrightarrow>
  unat (word_of_nat n :: u32) = n"
  using rb_view_bound [of cfg rb] by (intro unat_word_of_nat_u32) (auto simp: rb_wf_def)

interpretation rb: fifo_buffer "rb_wf cfg" "rb_view cfg" "AddBuffer cfg"
  "\<lambda>n. GetBuffer cfg (word_of_nat n)" "\<lambda>n. PopBuffer cfg (word_of_nat n)"
  "nat (MAX_BUFFER_SIZE cfg)" "2 ^ 32" for cfg
proof
  fix b and xs :: "byte list"
  assume wf: "rb_wf cfg b" and len: "length xs < 2 ^ 32"
  have rem: "unat (rb_remain b) = nat (MAX_BUFFER_SIZE cfg) - length (rb_view cfg b)"
    using wf unfolding rb_wf_def length_rb_view by linarith
  show "\<exists>b'. AddBuffer cfg xs b = Inr (True, b') \<and> rb_wf cfg b' \<and>
      rb_view cfg b' = rb_view cfg b @ xs"
    if "length (rb_view cfg b) + length xs \<le> nat (MAX_BUFFER_SIZE cfg)"
    using that rem by (intro AddBuffer_fits [OF wf]) simp
  show "AddBuffer cfg xs b = Inr (False, b)"
    if "nat (MAX_BUFFER_SIZE cfg) < length (rb_view cfg b) + length xs"
    using that rem wf len rb_view_bound [OF wf] by (intro AddBuffer_full) auto
next
  fix b n
  assume wf: "rb_wf cfg b" and n: "n \<le> length (rb_view cfg b)"
  show "GetBuffer cfg (word_of_nat n) b = Inr (take n (rb_view cfg b))"
    using wf n GetBuffer_view [OF wf, of "word_of_nat n"] by (simp add: rb_capacity_u32 [OF wf n])
  show "\<exists>b'. PopBuffer cfg (word_of_nat n) b = (True, b') \<and> rb_wf cfg b' \<and>
      rb_view cfg b' = drop n (rb_view cfg b)"
    using wf n PopBuffer_drop [OF wf, of "word_of_nat n"] by (simp add: rb_capacity_u32 [OF wf n])
qed (rule rb_view_bound)

end
