(* ===== verification/Message_Codec.thy ===== *)
theory Message_Codec
  imports RingBuffer
begin

unbundle bit_operations_syntax

text \<open>
  Messages and their wire format: \<open>src/Header/Message/Message.h\<close>,
  \<open>src/Tool/Message.cpp\<close> and \<open>src/Header/Message/MessageUtils.h\<close>.

  A packet is a head of three 4-byte big-endian fields (size, type, user id) followed by the
  body in protobuf's format. The 4-byte codecs are words; the locale \<open>int_codec\<close> states what
  the head relies on and both codecs of the source interpret it. The body codec is the
  protobuf library's and is a parameter \<open>protobuf\<close>: \<open>pb_enc\<close> is the byte string of a message
  (so \<open>ByteSizeLong\<close> is its length) and \<open>pb_dec\<close> what \<open>ParseFromArray\<close> makes of bytes, given
  the object it fills: whether it succeeded, and the object afterwards.

  The C++ pointers of a \<open>Message\<close> are: \<open>m_head\<close>, never null once the message is built;
  \<open>m_body\<close>, \<open>None\<close> for a null body and \<open>Some None\<close> for a body whose \<open>message\<close> is null.
\<close>

record MessageHead =
  m_packageSize :: int
  m_packageType :: int
  m_userid :: int

record Message =
  m_head :: MessageHead
  m_body :: "proto_body option option"

record protobuf =
  pb_enc :: "proto_body \<Rightarrow> byte list"
  pb_dec :: "proto_body \<Rightarrow> byte list \<Rightarrow> bool \<times> proto_body"

section \<open>Four-byte integers\<close>

definition IntToByte :: "int \<Rightarrow> byte list" where
  "IntToByte x =
     (let w = word_of_int x :: u32 in
      [ucast (signed_drop_bit 24 w AND 255), ucast (signed_drop_bit 16 w AND 255),
       ucast (signed_drop_bit 8 w AND 255), ucast (signed_drop_bit 0 w AND 255)])"

definition UintToByte :: "u32 \<Rightarrow> byte list" where
  "UintToByte x =
     [ucast (drop_bit 24 x AND 255), ucast (drop_bit 16 x AND 255),
      ucast (drop_bit 8 x AND 255), ucast (drop_bit 0 x AND 255)]"

definition shift_in :: "u32 \<Rightarrow> byte \<Rightarrow> u32" where
  "shift_in ret x = push_bit 8 ret + ucast x"

fun ByteToUint :: "byte list \<Rightarrow> u32 res" where
  "ByteToUint (a # b # c # d # _) =
     Inr (shift_in (shift_in (shift_in (shift_in 0 a) b) c) d)"
| "ByteToUint _ = Inl OutOfBounds"

fun ByteToInt :: "byte list \<Rightarrow> int res" where
  "ByteToInt (a # b # c # d # _) =
     Inr (sint (shift_in (shift_in (shift_in (shift_in 0 a) b) c) d))"
| "ByteToInt _ = Inl OutOfBounds"

definition int32 :: "int \<Rightarrow> bool" where
  "int32 x \<longleftrightarrow> - (2 ^ 31) \<le> x \<and> x < 2 ^ 31"

lemma length_IntToByte [simp]: "length (IntToByte x) = 4"
  by (simp add: IntToByte_def Let_def)

lemma length_UintToByte [simp]: "length (UintToByte x) = 4"
  by (simp add: UintToByte_def)

lemma and_255: "(w :: u32) AND 255 = take_bit 8 w"
  by (simp add: take_bit_eq_mask mask_eq_exp_minus_1)

lemma shift_in_or: "shift_in a b = push_bit 8 a OR (ucast b :: u32)"
    unfolding shift_in_def by (rule disjunctive_add) (auto simp: bit_simps dest: bit_imp_le_length)

lemma bit_shift_in: "bit (shift_in a b) n \<longleftrightarrow> n < 32 \<and> (if n < 8 then bit b n else bit a (n - 8))"
  unfolding shift_in_or by (auto simp: bit_simps dest: bit_imp_le_length)
lemma bit_byte_at: "bit (ucast (drop_bit k w AND 255) :: byte) n \<longleftrightarrow> n < 8 \<and> bit (w :: u32) (k + n)"
  unfolding and_255 by (auto simp: bit_simps dest: bit_imp_le_length)
lemma shift_in_split:
  "shift_in (shift_in (shift_in (shift_in 0 (ucast (drop_bit 24 w AND 255)))
     (ucast (drop_bit 16 w AND 255))) (ucast (drop_bit 8 w AND 255)))
     (ucast (drop_bit 0 w AND 255)) = (w :: u32)"
  by (rule bit_word_eqI) (auto simp add: bit_shift_in bit_byte_at simp del: drop_bit_0)
lemma signed_drop_bit_byte:
  "n \<le> 24 \<Longrightarrow> (ucast (signed_drop_bit n (w :: u32) AND 255) :: byte) = ucast (drop_bit n w AND 255)"
  by (rule bit_word_eqI) (auto simp: and_255 bit_simps bit_signed_drop_bit_iff dest: bit_imp_le_length)

lemma IntToByte_UintToByte: "IntToByte x = UintToByte (word_of_int x)"
  by (simp add: IntToByte_def UintToByte_def Let_def signed_drop_bit_byte del: signed_drop_bit_0)

lemma ByteToUint_UintToByte [simp]: "ByteToUint (UintToByte w @ rest) = Inr w"
  unfolding UintToByte_def by (simp only: append_Cons append_Nil ByteToUint.simps shift_in_split)

lemma ByteToInt_ByteToUint: "ByteToInt bs = bindF (ByteToUint bs) (\<lambda>w. Inr (sint w))"
  by (cases bs rule: ByteToInt.cases) auto

lemma sint_word_of_int_u32: "int32 x \<Longrightarrow> sint (word_of_int x :: u32) = x"
  by (simp add: int32_def sint_sbintrunc' signed_take_bit_int_eq_self)

lemma ByteToInt_IntToByte [simp]: "int32 x \<Longrightarrow> ByteToInt (IntToByte x @ rest) = Inr x"
  by (simp add: IntToByte_UintToByte ByteToInt_ByteToUint sint_word_of_int_u32)

text \<open>What the head relies on.\<close>

locale int_codec =
  fixes enc :: "int \<Rightarrow> byte list"
    and dec :: "byte list \<Rightarrow> int res"
    and dom_ok :: "int \<Rightarrow> bool"
  assumes enc_length: "length (enc x) = 4"
    and dec_enc: "dom_ok x \<Longrightarrow> dec (enc x @ rest) = Inr x"
    and dec_short: "length bs < 4 \<Longrightarrow> dec bs = Inl OutOfBounds"
    and dec_total: "4 \<le> length bs \<Longrightarrow> \<exists>x. dom_ok x \<and> dec bs = Inr x"
begin

lemma enc_take: "take 4 (enc x) = enc x"
  by (simp add: enc_length)

lemma enc_inj: "dom_ok x \<Longrightarrow> dom_ok y \<Longrightarrow> enc x = enc y \<Longrightarrow> x = y"
  using dec_enc [of x "[]"] dec_enc [of y "[]"] by simp

end

lemma list_at_least_4: "4 \<le> length bs \<Longrightarrow> \<exists>a b c d r. bs = a # b # c # d # r"
  by (auto simp: eval_nat_numeral Suc_le_length_iff)

lemma int32_sint: "int32 (sint (w :: u32))"
  using sint_greater_eq [of w] sint_less [of w] by (simp add: int32_def)

interpretation ic: int_codec IntToByte ByteToInt int32
proof
  fix bs :: "byte list"
  show "length bs < 4 \<Longrightarrow> ByteToInt bs = Inl OutOfBounds"
    by (cases bs rule: ByteToInt.cases) auto
  show "4 \<le> length bs \<Longrightarrow> \<exists>x. int32 x \<and> ByteToInt bs = Inr x"
    using int32_sint by (auto dest!: list_at_least_4)
qed simp_all

definition UserIdToByte :: "int \<Rightarrow> byte list" where
  "UserIdToByte x = UintToByte (word_of_int x)"

definition ByteToUserId :: "byte list \<Rightarrow> int res" where
  "ByteToUserId bs = bindF (ByteToUint bs) (\<lambda>w. Inr (sint w))"

interpretation uc: int_codec UserIdToByte ByteToUserId int32
proof
  fix bs rest :: "byte list" and x :: int
  show "length bs < 4 \<Longrightarrow> ByteToUserId bs = Inl OutOfBounds"
    by (cases bs rule: ByteToUint.cases) (auto simp: ByteToUserId_def)
  show "4 \<le> length bs \<Longrightarrow> \<exists>x. int32 x \<and> ByteToUserId bs = Inr x"
    using int32_sint by (auto simp: ByteToUserId_def dest!: list_at_least_4)
  show "int32 x \<Longrightarrow> ByteToUserId (UserIdToByte x @ rest) = Inr x"
    by (simp add: ByteToUserId_def UserIdToByte_def sint_word_of_int_u32)
  show "length (UserIdToByte x) = 4"
    by (simp add: UserIdToByte_def)
qed

section \<open>The head\<close>

definition copy_bytes :: "nat \<Rightarrow> byte list \<Rightarrow> nat \<Rightarrow> byte list \<Rightarrow> byte list res" where
  "copy_bytes n src off buf =
     (if n \<le> length src \<and> off + n \<le> length buf
      then Inr (take off buf @ take n src @ drop (off + n) buf) else Inl OutOfBounds)"

definition MessageHead_parse :: "Config \<Rightarrow> byte list \<Rightarrow> int \<Rightarrow> MessageHead res" where
  "MessageHead_parse cfg buffer len =
     (if len < HEAD_SIZE cfg
      then Inr \<lparr>m_packageSize = 0, m_packageType = bodytype_code ErrorPackage, m_userid = 0\<rparr>
      else bindF (ByteToInt buffer) (\<lambda>sz.
           bindF (ByteToInt (drop (nat (HEAD_SIZE_S cfg)) buffer)) (\<lambda>ty.
           bindF (ByteToUserId (drop (nat (2 * HEAD_SIZE_S cfg)) buffer)) (\<lambda>uid.
             Inr \<lparr>m_packageSize = sz, m_packageType = ty, m_userid = uid\<rparr>))))"

definition SerailizeToArray ::
  "Config \<Rightarrow> MessageHead \<Rightarrow> byte list \<Rightarrow> int \<Rightarrow> (bool \<times> byte list) res" where
  "SerailizeToArray cfg h buffer len =
     (let n = nat (HEAD_SIZE_S cfg) in
      if len < HEAD_SIZE cfg then Inr (False, buffer)
      else bindF (copy_bytes n (IntToByte (m_packageSize h)) 0 buffer) (\<lambda>b1.
           bindF (copy_bytes n (IntToByte (m_packageType h)) n b1) (\<lambda>b2.
           bindF (copy_bytes n (UserIdToByte (m_userid h)) (2 * n) b2) (\<lambda>b3.
             Inr (True, b3)))))"

definition head_ok :: "MessageHead \<Rightarrow> bool" where
  "head_ok h \<longleftrightarrow> int32 (m_packageSize h) \<and> int32 (m_packageType h) \<and> int32 (m_userid h)"

definition head_bytes :: "MessageHead \<Rightarrow> byte list" where
  "head_bytes h =
     IntToByte (m_packageSize h) @ IntToByte (m_packageType h) @ UserIdToByte (m_userid h)"

lemma length_head_bytes [simp]: "length (head_bytes h) = 12"
  by (simp add: head_bytes_def uc.enc_length)

lemma SerailizeToArray_bytes:
  assumes "net_config_ok cfg" "12 \<le> len" "12 \<le> length buffer"
  shows "SerailizeToArray cfg h buffer len = Inr (True, head_bytes h @ drop 12 buffer)"
  using assms
  by (simp add: SerailizeToArray_def net_config_ok_def copy_bytes_def head_bytes_def
      uc.enc_length min_def Let_def)

lemma MessageHead_parse_bytes:
  assumes "net_config_ok cfg" "12 \<le> len" "head_ok h"
  shows "MessageHead_parse cfg (head_bytes h @ rest) len = Inr h"
  using assms
  by (simp add: MessageHead_parse_def net_config_ok_def head_bytes_def head_ok_def
      uc.dec_enc [of "m_userid h"])

lemma MessageHead_parse_total:
  assumes "net_config_ok cfg" "12 \<le> length buffer"
  shows "\<exists>h. head_ok h \<and> MessageHead_parse cfg buffer (HEAD_SIZE cfg) = Inr h"
proof -
  have "4 \<le> length (drop 4 buffer)" "4 \<le> length (drop 8 buffer)"
    using assms(2) by auto
  note tails = ic.dec_total [OF this(1)] uc.dec_total [OF this(2)]
  obtain a where "int32 a" "ByteToInt buffer = Inr a"
    using assms(2) ic.dec_total [of buffer] by auto
  moreover obtain b where "int32 b" "ByteToInt (drop 4 buffer) = Inr b"
    using tails by auto
  moreover obtain c where "int32 c" "ByteToUserId (drop 8 buffer) = Inr c"
    using tails by auto
  ultimately show ?thesis
    using assms(1) by (auto simp: MessageHead_parse_def net_config_ok_def head_ok_def)
qed

lemma MessageHead_parse_short:
  assumes cfg: "net_config_ok cfg" and short: "length buffer < 12"
  shows "MessageHead_parse cfg buffer (HEAD_SIZE cfg) = Inl OutOfBounds"
proof -
  have last: "ByteToUserId (drop 8 buffer) = Inl OutOfBounds"
    using short by (intro uc.dec_short) simp
  have "ByteToInt buffer = Inl OutOfBounds \<or> (\<exists>a. ByteToInt buffer = Inr a)"
    using ic.dec_short ic.dec_total by (meson not_less)
  moreover have "ByteToInt (drop 4 buffer) = Inl OutOfBounds \<or> (\<exists>a. ByteToInt (drop 4 buffer) = Inr a)"
    using ic.dec_short ic.dec_total by (meson not_less)
  ultimately show ?thesis
    using cfg last by (auto simp: MessageHead_parse_def net_config_ok_def)
qed

definition CheckHeaderIsValid :: "Config \<Rightarrow> MessageHead \<Rightarrow> bool" where
  "CheckHeaderIsValid cfg header =
     (if m_packageSize header < HEAD_SIZE cfg then False
      else if m_packageSize header > MAX_BUFFER_SIZE cfg then False
      else if m_packageType header < bodytype_code LoginRequest then False
      else if m_packageType header > bodytype_code ErrorToken then False
      else True)"

section \<open>Bodies\<close>

text \<open>
  \<open>CreateMessageBody\<close>: the class built for a type code, or null. \<open>ChaseFrame\<close> builds a
  \<open>GameReplay\<close>; \<open>LoginOut\<close>, \<open>RegionInfo\<close>, \<open>ErrorToken\<close> and every code that is no
  enumerator build nothing.
\<close>

fun body_prototype :: "BODYTYPE \<Rightarrow> proto_body option" where
  "body_prototype LoginRequest = Some (B_LoginRequest new_LoginRequest)"
| "body_prototype LoginResponse = Some (B_LoginResponse new_LoginResponse)"
| "body_prototype RegistRequest = Some (B_RegistRequest new_RegistRequest)"
| "body_prototype RegistResponse = Some (B_RegistResponse new_RegistResponse)"
| "body_prototype JoinRoom = Some (B_JoinRoom new_JoinRoom)"
| "body_prototype LeaveRoom = Some (B_LeaveRoom new_LeaveRoom)"
| "body_prototype CreateRoom = Some (B_CreateRoom new_CreateRoom)"
| "body_prototype GetRoomList = Some (B_GetRoomList new_GetRoomList)"
| "body_prototype ChangeRole = Some (B_ChangeRole new_ChangeRole)"
| "body_prototype JoinGame = Some (B_JoinGame new_JoinGame)"
| "body_prototype QuitGame = Some (B_QuitGame new_QuitGame)"
| "body_prototype NotifyRoomInfo = Some (B_NotifyRoomInfo new_NotifyRoomInfo)"
| "body_prototype StartGame = Some (B_StartGame new_StartGame)"
| "body_prototype EndGame = Some (B_EndGame new_EndGame)"
| "body_prototype Frame = Some (B_Frame new_Frame)"
| "body_prototype UserOperate = Some (B_UserOperate new_UserOperate)"
| "body_prototype ChaseFrame = Some (B_GameReplay new_GameReplay)"
| "body_prototype GameReplay = Some (B_GameReplay new_GameReplay)"
| "body_prototype Reconnect = Some (B_Reconnect new_Reconnect)"
| "body_prototype UserHeart = Some B_UserHeart"
| "body_prototype ServerInfo = Some (B_ServerInfo new_ServerInfo)"
| "body_prototype UserInfo = Some (B_UserInfo new_UserInfo)"
| "body_prototype GetRegionInfoRequest = Some B_GetRegionInfoRequest"
| "body_prototype GetRegionInfoResponse = Some (B_GetRegionInfoResponse new_GetRegionInfoResponse)"
| "body_prototype JoinRegionRequest = Some (B_JoinRegionRequest new_JoinRegionRequest)"
| "body_prototype JoinRegionResponse = Some (B_JoinRegionResponse new_JoinRegionResponse)"
| "body_prototype ServerConnChange = Some (B_ServerConnChange new_ServerConnChange)"
| "body_prototype _ = None"

definition CreateMessageBody :: "int \<Rightarrow> proto_body option" where
  "CreateMessageBody ty = (case bodytype_of ty of None \<Rightarrow> None | Some bt \<Rightarrow> body_prototype bt)"

text \<open>The class of an object, as the type code its class is sent under.\<close>

fun body_class :: "proto_body \<Rightarrow> BODYTYPE" where
  "body_class (B_LoginRequest _) = LoginRequest"
| "body_class (B_LoginResponse _) = LoginResponse"
| "body_class (B_RegistRequest _) = RegistRequest"
| "body_class (B_RegistResponse _) = RegistResponse"
| "body_class (B_JoinRoom _) = JoinRoom"
| "body_class (B_LeaveRoom _) = LeaveRoom"
| "body_class (B_CreateRoom _) = CreateRoom"
| "body_class (B_GetRoomList _) = GetRoomList"
| "body_class (B_ChangeRole _) = ChangeRole"
| "body_class (B_JoinGame _) = JoinGame"
| "body_class (B_QuitGame _) = QuitGame"
| "body_class (B_NotifyRoomInfo _) = NotifyRoomInfo"
| "body_class (B_StartGame _) = StartGame"
| "body_class (B_EndGame _) = EndGame"
| "body_class (B_Frame _) = Frame"
| "body_class (B_UserOperate _) = UserOperate"
| "body_class (B_GameReplay _) = GameReplay"
| "body_class (B_Reconnect _) = Reconnect"
| "body_class B_UserHeart = UserHeart"
| "body_class (B_ServerInfo _) = ServerInfo"
| "body_class (B_UserInfo _) = UserInfo"
| "body_class B_GetRegionInfoRequest = GetRegionInfoRequest"
| "body_class (B_GetRegionInfoResponse _) = GetRegionInfoResponse"
| "body_class (B_JoinRegionRequest _) = JoinRegionRequest"
| "body_class (B_JoinRegionResponse _) = JoinRegionResponse"
| "body_class (B_ServerConnChange _) = ServerConnChange"

lemma body_prototype_class:
  "body_prototype bt = Some b \<Longrightarrow> body_class b = (if bt = ChaseFrame then GameReplay else bt)"
  by (cases bt) auto

text \<open>What protobuf documents of \<open>ParseFromArray\<close>: it fills the object, it never changes
  its class.\<close>

definition pb_keeps_class :: "protobuf \<Rightarrow> bool" where
  "pb_keeps_class pb \<longleftrightarrow> (\<forall>b bs. body_class (snd (pb_dec pb b bs)) = body_class b)"

definition MessageBody_length :: "protobuf \<Rightarrow> proto_body option \<Rightarrow> int" where
  "MessageBody_length pb mb = (case mb of None \<Rightarrow> 0 | Some m \<Rightarrow> int (length (pb_enc pb m)))"

definition MessageBody_ParseFromArray ::
  "protobuf \<Rightarrow> proto_body option \<Rightarrow> byte list \<Rightarrow> int \<Rightarrow> (bool \<times> proto_body option) res" where
  "MessageBody_ParseFromArray pb mb data len =
     (case mb of
        None \<Rightarrow> Inr (True, None)
      | Some m \<Rightarrow>
          if len < 0 \<or> int (length data) < len then Inl OutOfBounds
          else (let (ok, m') = pb_dec pb m (take (nat len) data) in Inr (ok, Some m')))"

definition MessageBody_SerializeToArray ::
  "protobuf \<Rightarrow> proto_body option \<Rightarrow> byte list \<Rightarrow> nat \<Rightarrow> int \<Rightarrow> (bool \<times> byte list) res" where
  "MessageBody_SerializeToArray pb mb buffer off len =
     (case mb of
        None \<Rightarrow> Inr (True, buffer)
      | Some m \<Rightarrow>
          if len < int (length (pb_enc pb m)) then Inr (False, buffer)
          else bindF (copy_bytes (length (pb_enc pb m)) (pb_enc pb m) off buffer)
                 (\<lambda>b. Inr (True, b)))"

definition Message_length :: "Config \<Rightarrow> protobuf \<Rightarrow> proto_body option option \<Rightarrow> int" where
  "Message_length cfg pb body =
     (case body of None \<Rightarrow> HEAD_SIZE cfg
      | Some mb \<Rightarrow> HEAD_SIZE cfg + MessageBody_length pb mb)"

definition Message_SerializeToArray ::
  "Config \<Rightarrow> protobuf \<Rightarrow> Message \<Rightarrow> byte list \<Rightarrow> int \<Rightarrow> (bool \<times> byte list) res" where
  "Message_SerializeToArray cfg pb msg buffer len =
     (if len < Message_length cfg pb (m_body msg) then Inr (False, buffer)
      else bindF (SerailizeToArray cfg (m_head msg) buffer len) (\<lambda>(ok, b).
             if \<not> ok then Inr (False, b)
             else (case m_body msg of
                     None \<Rightarrow> Inr (True, b)
                   | Some mb \<Rightarrow>
                       MessageBody_SerializeToArray pb mb b (nat (HEAD_SIZE cfg))
                         (len - HEAD_SIZE cfg))))"

definition DecodeMessage :: "Config \<Rightarrow> protobuf \<Rightarrow> byte list \<Rightarrow> int \<Rightarrow> Message res" where
  "DecodeMessage cfg pb data len =
     bindF (MessageHead_parse cfg data (HEAD_SIZE cfg)) (\<lambda>h.
     bindF (MessageBody_ParseFromArray pb (CreateMessageBody (m_packageType h))
              (drop (nat (HEAD_SIZE cfg)) data) (len - HEAD_SIZE cfg)) (\<lambda>(ok, mb).
       Inr \<lparr>m_head = h, m_body = Some mb\<rparr>))"

section \<open>Building messages\<close>

text \<open>Every sender computes the size field from the body, in this way.\<close>

definition make_message ::
  "Config \<Rightarrow> protobuf \<Rightarrow> BODYTYPE \<Rightarrow> int \<Rightarrow> proto_body \<Rightarrow> Message" where
  "make_message cfg pb ty uid b =
     \<lparr>m_head = \<lparr>m_packageSize = Message_length cfg pb (Some (Some b)),
                m_packageType = bodytype_code ty, m_userid = uid\<rparr>,
      m_body = Some (Some b)\<rparr>"

definition NewLoginResponseMessage ::
  "Config \<Rightarrow> protobuf \<Rightarrow> bool \<Rightarrow> string \<Rightarrow> u32 \<Rightarrow> int \<Rightarrow> int \<Rightarrow> string \<Rightarrow> Message" where
  "NewLoginResponseMessage cfg pb ret msg token userid fd username =
     make_message cfg pb LoginResponse fd
       (B_LoginResponse (new_LoginResponse\<lparr>lp_result := ret, lp_msg := msg, lp_token := token,
          lp_userid := userid, lp_username := username\<rparr>))"

definition NewRegisterResponseMessage ::
  "Config \<Rightarrow> protobuf \<Rightarrow> bool \<Rightarrow> string \<Rightarrow> int \<Rightarrow> Message" where
  "NewRegisterResponseMessage cfg pb ret msg fd =
     make_message cfg pb RegistResponse fd
       (B_RegistResponse (new_RegistResponse\<lparr>rp_result := ret, rp_msg := msg\<rparr>))"

definition NewServerInfoMessage ::
  "Config \<Rightarrow> protobuf \<Rightarrow> string \<Rightarrow> int \<Rightarrow> string \<Rightarrow> int \<Rightarrow> ServerInfo_Operation \<Rightarrow> int \<Rightarrow> Message"
where
  "NewServerInfoMessage cfg pb ip port name type opt level =
     make_message cfg pb ServerInfo 0
       (B_ServerInfo (new_ServerInfo\<lparr>sv_ip := ip, sv_port := port, sv_server_name := name,
          sv_server_type := type, sv_opt := opt, sv_server_free_level := level\<rparr>))"

definition NewUserInfoMessage ::
  "Config \<Rightarrow> protobuf \<Rightarrow> int \<Rightarrow> int \<Rightarrow> UserInfo_Operation \<Rightarrow> Message" where
  "NewUserInfoMessage cfg pb userid fd opt =
     make_message cfg pb UserInfo 0
       (B_UserInfo (new_UserInfo\<lparr>us_userid := userid, us_fd := fd, us_opt := opt\<rparr>))"

section \<open>Decimal printing\<close>

text \<open>C++ division truncates towards zero.\<close>

definition c_div :: "int \<Rightarrow> int \<Rightarrow> int" where
  "c_div a b = sgn a * sgn b * (\<bar>a\<bar> div \<bar>b\<bar>)"

definition c_mod :: "int \<Rightarrow> int \<Rightarrow> int" where
  "c_mod a b = a - b * c_div a b"

function to_string_loop :: "int \<Rightarrow> string \<Rightarrow> string" where
  "to_string_loop x ret =
     (if x = 0 then ret
      else to_string_loop (c_div x 10) (ret @ [char_of (nat (c_mod x 10 + 48))]))"
  by pat_completeness auto
termination
  by (relation "measure (\<lambda>(x, ret). nat \<bar>x\<bar>)") (auto simp: c_div_def abs_mult sgn_if)

declare to_string_loop.simps [simp del]

definition to_string :: "int \<Rightarrow> string" where
  "to_string x = rev (to_string_loop x '''')"

end
