(* ===== verification/Room.thy ===== *)
theory Room
  imports Message_Codec
begin

text \<open>
  A game room (\<open>src/Logic/Room.h\<close>, \<open>src/Logic/Room.cpp\<close>): its members with their slot
  numbers (\<open>userid2userpid\<close>), roles and names, the free slots, the members in the running game,
  the frame being filled and the frames of the game so far.

  A room sends through the global \<open>LOGICSERVER.SendToClient\<close> and ignores its result, so an
  operation here appends what it sends to \<open>outbox\<close>, in order, and the logic server delivers the
  outbox after the call (theory \<open>LogicServer\<close>). \<open>room_fault\<close> records the first undefined
  operation; \<open>None\<close> in every well-formed room. \<open>frame_id\<close> is uninitialised in the C++ object
  until \<open>StartGame\<close> sets it, and only read in a started game; it starts at 0 here. The
  recursion of \<open>LeaveFromGame\<close>, \<open>EndGame\<close> and \<open>KickAllUserFromGame\<close> is kept, with its
  termination: the nested \<open>EndGame\<close> finds the game already stopped.

  The reply texts are the program's UTF-8 strings, byte for byte.
\<close>

section \<open>Reply texts\<close>

definition txt_game_already_started :: string where
  "txt_game_already_started = map char_of
     [230, 184, 184, 230, 136, 143, 229, 183, 178, 231, 187, 143, 229, 188, 128, 229,
      167, 139, 239, 188, 140, 229, 138, 160, 229, 133, 165, 229, 164, 177, 232, 180,
      165 :: nat]"

definition txt_room_full :: string where
  "txt_room_full = map char_of
     [230, 136, 191, 233, 151, 180, 229, 183, 178, 230, 187, 161 :: nat]"

definition txt_already_here :: string where
  "txt_already_here = map char_of
     [228, 189, 160, 229, 183, 178, 229, 156, 168, 230, 173, 164, 230, 136, 191, 233,
      151, 180 :: nat]"

definition txt_join_ok :: string where
  "txt_join_ok = map char_of
     [229, 138, 160, 229, 133, 165, 230, 136, 144, 229, 138, 159 :: nat]"

definition txt_reconnected :: string where
  "txt_reconnected = map char_of
     [233, 135, 141, 232, 191, 158, 230, 136, 144, 229, 138, 159, 239, 188, 140, 229,
      183, 178, 229, 155, 158, 229, 136, 176, 230, 136, 191, 233, 151, 180 :: nat]"

definition txt_not_here :: string where
  "txt_not_here = map char_of
     [228, 189, 160, 228, 184, 141, 229, 156, 168, 232, 175, 165, 230, 136, 191, 233,
      151, 180 :: nat]"

definition txt_left :: string where
  "txt_left = map char_of
     [229, 183, 178, 233, 128, 128, 229, 135, 186, 230, 136, 191, 233, 151, 180 ::
      nat]"

definition txt_no_such_room :: string where
  "txt_no_such_room = map char_of
     [230, 137, 190, 228, 184, 141, 229, 136, 176, 232, 175, 165, 230, 136, 191, 233,
      151, 180 :: nat]"

definition txt_already_in_room :: string where
  "txt_already_in_room = map char_of
     [228, 189, 160, 229, 183, 178, 229, 156, 168, 230, 136, 191, 233, 151, 180, 228,
      184, 173 :: nat]"

definition txt_created :: string where
  "txt_created = map char_of
     [229, 136, 155, 229, 187, 186, 230, 136, 144, 229, 138, 159 :: nat]"
section \<open>State\<close>

type_synonym outgoing = "BODYTYPE \<times> proto_body \<times> int"

record Room =
  m_id :: int
  m_name :: string
  cur_frame :: FrameMsg
  frame_id :: int
  m_size :: int
  m_seed :: u32
  m_gameStarted :: bool
  host_userid :: int
  userpid_pool :: oset
  userid2roleid :: "int omap"
  all_frames :: "FrameMsg list"
  userid2userpid :: "int omap"
  in_game_id2pid :: "int omap"
  id2name :: "string omap"
  offline_userid :: oset
  outbox :: "outgoing list"
  room_fault :: "fault option"

definition pid_range :: "int \<Rightarrow> oset" where
  "pid_range n = [1..n]"

definition Room_new :: "int \<Rightarrow> string \<Rightarrow> int \<Rightarrow> u32 \<Rightarrow> Room" where
  "Room_new rid name sz rng =
     \<lparr>m_id = rid, m_name = name, cur_frame = new_Frame, frame_id = 0, m_size = sz,
      m_seed = rng mod 4294967295, m_gameStarted = False, host_userid = -1,
      userpid_pool = fold os_ins (pid_range sz) [], userid2roleid = [], all_frames = [],
      userid2userpid = [], in_game_id2pid = [], id2name = [], offline_userid = [],
      outbox = [], room_fault = None\<rparr>"

definition room_send :: "BODYTYPE \<Rightarrow> proto_body \<Rightarrow> int \<Rightarrow> Room \<Rightarrow> Room" where
  "room_send ty b userid r = r\<lparr>outbox := outbox r @ [(ty, b, userid)]\<rparr>"

definition room_crash :: "fault \<Rightarrow> Room \<Rightarrow> Room" where
  "room_crash f r = r\<lparr>room_fault := (case room_fault r of None \<Rightarrow> Some f | Some g \<Rightarrow> Some g)\<rparr>"

definition PlayerCount :: "Room \<Rightarrow> int" where
  "PlayerCount r = int (length (userid2userpid r))"

definition IsFull :: "Room \<Rightarrow> bool" where
  "IsFull r \<longleftrightarrow> PlayerCount r \<ge> m_size r"

section \<open>Notifications\<close>

definition BroadCastToRoom :: "BODYTYPE \<Rightarrow> proto_body \<Rightarrow> Room \<Rightarrow> Room" where
  "BroadCastToRoom ty b r = fold (room_send ty b) (om_keys (userid2userpid r)) r"

definition BroadCastToGame :: "BODYTYPE \<Rightarrow> proto_body \<Rightarrow> Room \<Rightarrow> Room" where
  "BroadCastToGame ty b r = fold (room_send ty b) (om_keys (in_game_id2pid r)) r"

definition user_info :: "Room \<Rightarrow> int \<times> string \<Rightarrow> RoomUserInfoMsg" where
  "user_info r p =
     \<lparr>ui_username = snd p, ui_userid = fst p, ui_is_roomhost = (host_userid r = fst p),
      ui_role_id = om_at 0 (userid2roleid r) (fst p),
      ui_userpid = om_at 0 (userid2userpid r) (fst p),
      ui_in_game = om_has (fst p) (in_game_id2pid r)\<rparr>"

definition GetRoomUserInfos :: "Room \<Rightarrow> RoomUserInfoMsg list \<times> Room" where
  "GetRoomUserInfos r =
     (let n = length (userid2userpid r);
          infos = map (user_info r) (id2name r);
          r1 = r\<lparr>userid2roleid := fold (om_touch 0) (om_keys (id2name r)) (userid2roleid r),
                 userid2userpid := fold (om_touch 0) (om_keys (id2name r)) (userid2userpid r)\<rparr>
      in if n < length infos then (infos, room_crash OutOfBounds r1)
         else (infos @ replicate (n - length infos) new_RoomUserInfo, r1))"

definition SendRoomAllInfo :: "int \<Rightarrow> Room \<Rightarrow> Room" where
  "SendRoomAllInfo userid r =
     (let (it, r1) = GetRoomUserInfos r in
      room_send NotifyRoomInfo
        (B_NotifyRoomInfo \<lparr>ni_users = it, ni_roomid = m_id r1, ni_m_gamestart = m_gameStarted r1\<rparr>)
        userid r1)"

definition SendRoomAllInfoToAll :: "Room \<Rightarrow> Room" where
  "SendRoomAllInfoToAll r = fold SendRoomAllInfo (om_keys (userid2roleid r)) r"

definition add_operate :: "UserOperateMsg \<Rightarrow> Room \<Rightarrow> Room" where
  "add_operate op r =
     r\<lparr>cur_frame := (cur_frame r)\<lparr>fr_operates := fr_operates (cur_frame r) @ [op]\<rparr>\<rparr>"

definition NotifyUserJoinGame :: "int \<Rightarrow> Room \<Rightarrow> Room" where
  "NotifyUserJoinGame userid r =
     (if \<not> m_gameStarted r \<or> \<not> om_has userid (userid2userpid r) then r
      else add_operate
             \<lparr>uo_data = [om_at 0 (userid2roleid r) userid], uo_opt = OpJoinGame,
              uo_userpid = om_at 0 (userid2userpid r) userid\<rparr>
             (r\<lparr>userid2roleid := om_touch 0 userid (userid2roleid r)\<rparr>))"

definition NotifyUserQuitGame :: "int \<Rightarrow> Room \<Rightarrow> Room" where
  "NotifyUserQuitGame userid r =
     (if \<not> m_gameStarted r \<or> \<not> om_has userid (in_game_id2pid r) then r
      else add_operate
             \<lparr>uo_data = [], uo_opt = OpLeaveGame,
              uo_userpid = om_at 0 (in_game_id2pid r) userid\<rparr> r)"

definition NotifyGameStartToUser :: "int \<Rightarrow> Room \<Rightarrow> Room" where
  "NotifyGameStartToUser userid r =
     room_send StartGame
       (B_StartGame \<lparr>sg_roomid = m_id r, sg_userpid = om_at 0 (userid2userpid r) userid,
                     sg_seed = m_seed r\<rparr>)
       userid (r\<lparr>userid2userpid := om_touch 0 userid (userid2userpid r)\<rparr>)"

definition NotifyGameStart :: "Room \<Rightarrow> Room" where
  "NotifyGameStart r = fold NotifyGameStartToUser (om_keys (userid2userpid r)) r"

definition NotifyGameEnd :: "Room \<Rightarrow> Room" where
  "NotifyGameEnd r = BroadCastToGame EndGame (B_EndGame \<lparr>eg_roomid = m_id r\<rparr>) r"

section \<open>Leaving a game and ending it\<close>

function Room_LeaveFromGame :: "int \<Rightarrow> Room \<Rightarrow> Room"
  and Room_EndGame :: "Room \<Rightarrow> Room"
  and kick_from_game :: "int list \<Rightarrow> Room \<Rightarrow> Room" where
  "Room_LeaveFromGame userid r =
     (if \<not> om_has userid (in_game_id2pid r) then r
      else let r1 = r\<lparr>in_game_id2pid := om_del userid (in_game_id2pid r)\<rparr>;
               r2 = NotifyUserQuitGame userid r1;
               r3 = (if in_game_id2pid r2 = [] then Room_EndGame r2 else r2)
           in SendRoomAllInfoToAll r3)"
| "Room_EndGame r =
     (if \<not> m_gameStarted r then r
      else let r1 = NotifyGameEnd (r\<lparr>m_gameStarted := False\<rparr>)
           in SendRoomAllInfoToAll (kick_from_game (om_keys (in_game_id2pid r1)) r1))"
| "kick_from_game [] r = r"
| "kick_from_game (u # us) r = kick_from_game us (Room_LeaveFromGame u r)"
  by pat_completeness auto

text \<open>
  Termination: \<open>EndGame\<close> only goes on from a started game, and stops it before it kicks
  anybody. The recursion is nested, so the argument needs that no operation starts a game, on
  the domain of the functions.
\<close>

lemma started_projections [simp]:
  "m_gameStarted (room_send ty b u r) = m_gameStarted r"
  "m_gameStarted (room_crash f r) = m_gameStarted r"
  "m_gameStarted (add_operate opn r) = m_gameStarted r"
  "m_gameStarted (NotifyUserQuitGame u r) = m_gameStarted r"
  by (simp_all add: room_send_def room_crash_def add_operate_def NotifyUserQuitGame_def)

lemma started_fold:
  "(\<And>x r. m_gameStarted (f x r) = m_gameStarted r) \<Longrightarrow>
     m_gameStarted (fold f xs r) = m_gameStarted r"
  by (induction xs arbitrary: r) auto

lemma started_info [simp]: "m_gameStarted (SendRoomAllInfo u r) = m_gameStarted r"
  by (auto simp: SendRoomAllInfo_def GetRoomUserInfos_def Let_def)

lemma started_broadcasts [simp]:
  "m_gameStarted (SendRoomAllInfoToAll r) = m_gameStarted r"
  "m_gameStarted (NotifyGameEnd r) = m_gameStarted r"
  by (simp_all add: SendRoomAllInfoToAll_def NotifyGameEnd_def BroadCastToGame_def started_fold)

lemma stays_stopped:
  "Room_LeaveFromGame_Room_EndGame_kick_from_game_dom (Inl (u, r)) \<Longrightarrow>
     m_gameStarted (Room_LeaveFromGame u r) \<Longrightarrow> m_gameStarted r"
  "Room_LeaveFromGame_Room_EndGame_kick_from_game_dom (Inr (Inl r)) \<Longrightarrow>
     m_gameStarted (Room_EndGame r) \<Longrightarrow> m_gameStarted r"
  "Room_LeaveFromGame_Room_EndGame_kick_from_game_dom (Inr (Inr (us, r))) \<Longrightarrow>
     m_gameStarted (kick_from_game us r) \<Longrightarrow> m_gameStarted r"
proof (induction u r and r and us r rule: Room_LeaveFromGame_Room_EndGame_kick_from_game.pinduct)
  case (1 u r)
  let ?r2 = "NotifyUserQuitGame u (r\<lparr>in_game_id2pid := om_del u (in_game_id2pid r)\<rparr>)"
  have IH: "om_has u (in_game_id2pid r) \<Longrightarrow> in_game_id2pid ?r2 = [] \<Longrightarrow>
      m_gameStarted (Room_EndGame ?r2) \<Longrightarrow> m_gameStarted ?r2"
    by (rule "1.IH" [OF _ refl refl]) simp_all
  show ?case
    using "1.prems" IH unfolding Room_LeaveFromGame.psimps [OF "1.hyps"] Let_def
    by (simp split: if_splits)
next
  case (2 r)
  then show ?case
    using Room_EndGame.psimps [OF "2.hyps"] by (simp split: if_splits)
next
  case (3 r)
  then show ?case using kick_from_game.psimps(1) [OF "3.hyps"] by simp
next
  case (4 u us r)
  have "m_gameStarted (kick_from_game us (Room_LeaveFromGame u r))"
    using "4.prems" unfolding kick_from_game.psimps(2) [OF "4.hyps"] .
  then show ?case by (intro "4.IH"(1) "4.IH"(2))
qed

definition started_rank :: "Room \<Rightarrow> nat" where
  "started_rank r = (if m_gameStarted r then 1 else 0)"

definition game_call_rank :: "int \<times> Room + Room + int list \<times> Room \<Rightarrow> nat \<times> nat" where
  "game_call_rank c =
     (case c of
        Inl (u, r) \<Rightarrow> (started_rank r, 1)
      | Inr (Inl r) \<Rightarrow> (started_rank r, 0)
      | Inr (Inr (us, r)) \<Rightarrow> (started_rank r, 2 + length us))"

termination Room_LeaveFromGame
proof (relation "inv_image (less_than <*lex*> less_than) game_call_rank", goal_cases)
  case 1
  show ?case by (simp add: wf_inv_image wf_lex_prod)
qed (auto simp: game_call_rank_def started_rank_def dest: stays_stopped)

declare Room_LeaveFromGame.simps [simp del] Room_EndGame.simps [simp del]

definition KickAllUserFromGame :: "Room \<Rightarrow> Room" where
  "KickAllUserFromGame r = kick_from_game (om_keys (in_game_id2pid r)) r"

section \<open>Membership\<close>

definition ChangeRoomHost :: "int \<Rightarrow> Room \<Rightarrow> Room" where
  "ChangeRoomHost userid r =
     (if userid = -1 then r\<lparr>host_userid := -1\<rparr>
      else if \<not> om_has userid (userid2userpid r) then r
      else r\<lparr>host_userid := userid\<rparr>)"

definition Room_LeaveFromRoom :: "int \<Rightarrow> Room \<Rightarrow> Room" where
  "Room_LeaveFromRoom userid r0 =
     (let r = Room_LeaveFromGame userid r0;
          message = new_LeaveRoom\<lparr>lr_type := RESPONSE, lr_ret := False\<rparr>
      in if \<not> om_has userid (userid2userpid r)
         then room_send LeaveRoom (B_LeaveRoom (message\<lparr>lr_result := txt_not_here\<rparr>)) userid r
         else
           let r1 = r\<lparr>userpid_pool := os_ins (om_at 0 (userid2userpid r) userid) (userpid_pool r),
                      userid2userpid := om_del userid (userid2userpid r),
                      userid2roleid := om_del userid (userid2roleid r),
                      id2name := om_del userid (id2name r)\<rparr>;
               r2 = (if host_userid r1 = userid
                     then (case userid2userpid r1 of
                             [] \<Rightarrow> ChangeRoomHost (-1) r1
                           | e # _ \<Rightarrow> ChangeRoomHost (fst e) r1)
                     else r1)
           in SendRoomAllInfoToAll r2)"

definition Room_Leave :: "int \<Rightarrow> Room \<Rightarrow> Room" where
  "Room_Leave userid r = Room_LeaveFromRoom userid (Room_LeaveFromGame userid r)"

text \<open>Shrinking walks the slot numbers that disappear and hands each of them to \<open>Leave\<close>,
  which takes a user id.\<close>

definition Resize :: "int \<Rightarrow> Room \<Rightarrow> Room" where
  "Resize n r =
     (let r1 = (if n < m_size r
                then fold (\<lambda>i r. let r' = Room_Leave i r
                                 in r'\<lparr>userpid_pool := os_del i (userpid_pool r')\<rparr>)
                       [n + 1 .. m_size r] r
                else r\<lparr>userpid_pool := fold os_ins [m_size r + 1 .. n] (userpid_pool r)\<rparr>)
      in r1\<lparr>m_size := n\<rparr>)"

definition Room_JoinGame :: "int \<Rightarrow> Room \<Rightarrow> Room" where
  "Room_JoinGame userid r =
     (if \<not> m_gameStarted r \<or> \<not> om_has userid (userid2userpid r) then r
      else let r1 = NotifyUserJoinGame userid r
           in r1\<lparr>in_game_id2pid :=
                 om_upd userid (om_at 0 (userid2userpid r1) userid) (in_game_id2pid r1)\<rparr>)"

text \<open>\<open>name\<close> is what \<open>LOGICSERVER.GetUserName(userid)\<close> answers; it is asked for exactly when the
  result is true.\<close>

definition Room_JoinRoom :: "string \<Rightarrow> int \<Rightarrow> Room \<Rightarrow> bool \<times> Room" where
  "Room_JoinRoom name userid r =
     (let message = new_JoinRoom\<lparr>jr_type := RESPONSE, jr_ret := False, jr_roomid := -1\<rparr>;
          refuse = (\<lambda>txt. (False, room_send JoinRoom
                             (B_JoinRoom (message\<lparr>jr_result := txt\<rparr>)) userid r))
      in if m_gameStarted r then refuse txt_game_already_started
         else if IsFull r then refuse txt_room_full
         else if om_has userid (userid2userpid r) then refuse txt_already_here
         else
           let r1 = (if userpid_pool r = [] then Resize (m_size r + 1) r else r)
           in case userpid_pool r1 of
                [] \<Rightarrow> (True, room_crash EmptyContainer r1)
              | pid # _ \<Rightarrow>
                  let r2 = r1\<lparr>userpid_pool := os_del pid (userpid_pool r1),
                              userid2userpid := om_upd userid pid (userid2userpid r1),
                              userid2roleid := om_upd userid 1 (userid2roleid r1),
                              id2name := om_upd userid name (id2name r1)\<rparr>;
                      r3 = (if host_userid r2 = -1 then ChangeRoomHost userid r2 else r2)
                  in (True, SendRoomAllInfoToAll
                       (room_send JoinRoom
                          (B_JoinRoom (message\<lparr>jr_ret := True, jr_roomid := m_id r3,
                                               jr_result := txt_join_ok\<rparr>)) userid r3)))"

definition KickAllUserFromRoom :: "Room \<Rightarrow> Room" where
  "KickAllUserFromRoom r = fold Room_LeaveFromRoom (om_keys (userid2userpid r)) r"

text \<open>The destructor.\<close>

definition Room_destroy :: "Room \<Rightarrow> Room" where
  "Room_destroy r = KickAllUserFromRoom (Room_EndGame r)"

section \<open>The game\<close>

text \<open>The object a message carries, which a \<open>dynamic_cast\<close> inspects.\<close>

definition msg_object :: "Message \<Rightarrow> proto_body option" where
  "msg_object msg = (case m_body msg of Some mb \<Rightarrow> mb | None \<Rightarrow> None)"

definition Room_OnUserOperate :: "Message \<Rightarrow> Room \<Rightarrow> Room" where
  "Room_OnUserOperate message r =
     (if \<not> m_gameStarted r then r
      else case msg_object message of
             Some (B_UserOperate opn) \<Rightarrow>
               let userid = m_userid (m_head message) in
               if \<not> om_has userid (userid2userpid r) then r
               else add_operate (opn\<lparr>uo_userpid := om_at 0 (userid2userpid r) userid\<rparr>) r
           | _ \<Rightarrow> r)"

definition Room_StartGame :: "int \<Rightarrow> Room \<Rightarrow> Room" where
  "Room_StartGame userid r =
     (if m_gameStarted r \<or> userid \<noteq> host_userid r then r
      else let r1 = r\<lparr>m_gameStarted := True, frame_id := 0,
                      cur_frame := (cur_frame r)\<lparr>fr_operates := []\<rparr>, all_frames := []\<rparr>;
               r2 = NotifyGameStart r1;
               r3 = fold Room_JoinGame (om_keys (userid2userpid r2)) r2
           in SendRoomAllInfoToAll r3)"

definition Room_Tick :: "Config \<Rightarrow> Room \<Rightarrow> bool \<times> Room" where
  "Room_Tick cfg r =
     (if \<not> m_gameStarted r then (False, r)
      else if \<not> int32 (frame_id r + 1) then (True, room_crash SignedOverflow r)
      else let r1 = r\<lparr>frame_id := frame_id r + 1,
                      cur_frame := (cur_frame r)\<lparr>fr_frame_id := frame_id r + 1\<rparr>\<rparr>;
               r2 = BroadCastToGame Frame (B_Frame (cur_frame r1)) r1;
               r3 = (if IS_CHASE_FRAME cfg
                     then r2\<lparr>all_frames := all_frames r2 @ [cur_frame r2]\<rparr> else r2)
           in (True, r3\<lparr>cur_frame := (cur_frame r3)\<lparr>fr_operates := []\<rparr>\<rparr>))"

definition SetUserOnline :: "int \<Rightarrow> Room \<Rightarrow> Room" where
  "SetUserOnline userid r =
     (if \<not> om_has userid (userid2userpid r) \<or> userid \<notin> set (offline_userid r) then r
      else r\<lparr>offline_userid := os_del userid (offline_userid r)\<rparr>)"

definition SetUserOffline :: "int \<Rightarrow> Room \<Rightarrow> Room" where
  "SetUserOffline userid r =
     (if \<not> om_has userid (userid2userpid r) \<or> userid \<in> set (offline_userid r) then r
      else Room_LeaveFromGame userid (r\<lparr>offline_userid := os_ins userid (offline_userid r)\<rparr>))"

definition CheckRoomDead :: "Room \<Rightarrow> bool" where
  "CheckRoomDead r = (if length (offline_userid r) = length (userid2userpid r) then True else False)"

definition Room_Reconnect :: "int \<Rightarrow> Room \<Rightarrow> Room" where
  "Room_Reconnect userid r =
     (if \<not> om_has userid (userid2userpid r) then r
      else let r1 = SetUserOnline userid r;
               r2 = room_send Reconnect
                      (B_Reconnect (new_Reconnect\<lparr>rc_ret := True, rc_msg := txt_reconnected,
                         rc_userpid := om_at 0 (userid2userpid r1) userid, rc_roomid := m_id r1,
                         rc_is_roomhost := (host_userid r1 = userid), rc_seed := m_seed r1\<rparr>))
                      userid r1;
               r3 = NotifyGameStartToUser userid r2;
               r4 = room_send ChaseFrame (B_GameReplay \<lparr>gr_frames = all_frames r3\<rparr>) userid r3
           in Room_JoinGame userid r4)"

definition Room_UserInfoChange :: "Message \<Rightarrow> Room \<Rightarrow> Room" where
  "Room_UserInfoChange message r =
     (let userid = m_userid (m_head message) in
      if \<not> om_has userid (userid2userpid r) then r
      else case msg_object message of
             Some (B_ChangeRole request) \<Rightarrow>
               SendRoomAllInfoToAll
                 (r\<lparr>userid2roleid := om_upd userid (ch_role_id request) (userid2roleid r)\<rparr>)
           | _ \<Rightarrow> room_crash NullDeref r)"

end
