(* ===== verification/Room_Inv.thy ===== *)
theory Room_Inv
  imports Room
begin

text \<open>
  What the operations of a room keep and do. \<open>room_wf\<close> is the room's data invariant: its four
  member tables agree, every member has a slot of its own in \<open>1..m_size\<close> and the pool holds
  exactly the free ones, players of the running game are members with the same slot, there is
  a host among the members as soon as there are members, and nothing undefined has happened.
  \<open>game_on\<close> says that a game runs exactly while somebody plays it.
\<close>

section \<open>Keys of ordered maps\<close>

lemma om_keys_upd [simp]: "om_keys (om_upd k v m) = os_ins k (om_keys m)"
  by (induction k v m rule: om_upd.induct) (auto simp: om_keys_def)

lemma om_keys_del [simp]: "om_keys (om_del k m) = os_del k (om_keys m)"
  by (simp add: om_keys_def om_del_def os_del_def filter_map comp_def)

lemma os_ins_same: "os_wf xs \<Longrightarrow> x \<in> set xs \<Longrightarrow> os_ins x xs = xs"
  by (induction x xs rule: os_ins.induct) auto

lemma om_touch_fold [simp]: "set ks \<subseteq> set (om_keys m) \<Longrightarrow> fold (om_touch d) ks m = m"
  by (induction ks) (auto simp: om_has_def)

lemma om_has_cong: "om_keys m = om_keys m' \<Longrightarrow> om_has k m = om_has k m'"
  by (simp add: om_has_keys)

lemma om_keys_length: "om_keys m = om_keys m' \<Longrightarrow> length m = length m'"
  by (metis length_map om_keys_def)

section \<open>The invariant\<close>

definition room_wf :: "Room \<Rightarrow> bool" where
  "room_wf r \<longleftrightarrow>
     om_wf (userid2userpid r) \<and> om_wf (in_game_id2pid r) \<and>
     om_keys (userid2roleid r) = om_keys (userid2userpid r) \<and>
     om_keys (id2name r) = om_keys (userid2userpid r) \<and>
     (\<forall>u p. om_get (in_game_id2pid r) u = Some p \<longrightarrow> om_get (userid2userpid r) u = Some p) \<and>
     (\<forall>u v p. om_get (userid2userpid r) u = Some p \<and> om_get (userid2userpid r) v = Some p \<longrightarrow> u = v) \<and>
     (\<forall>u p. om_get (userid2userpid r) u = Some p \<longrightarrow> 1 \<le> p \<and> p \<le> m_size r) \<and>
     os_wf (userpid_pool r) \<and>
     (\<forall>p. p \<in> set (userpid_pool r) \<longleftrightarrow>
        1 \<le> p \<and> p \<le> m_size r \<and> (\<forall>u. om_get (userid2userpid r) u \<noteq> Some p)) \<and>
     (host_userid r \<noteq> -1 \<longrightarrow> om_has (host_userid r) (userid2userpid r)) \<and>
     (userid2userpid r \<noteq> [] \<and> \<not> om_has (-1) (userid2userpid r) \<longrightarrow> host_userid r \<noteq> -1) \<and>
     os_wf (offline_userid r) \<and> room_fault r = None"

definition game_on :: "Room \<Rightarrow> bool" where
  "game_on r \<longleftrightarrow> (m_gameStarted r \<longleftrightarrow> in_game_id2pid r \<noteq> [])"

lemma room_wf_frame [simp]:
  "room_wf (r\<lparr>outbox := ob\<rparr>) = room_wf r"
  "room_wf (r\<lparr>cur_frame := f\<rparr>) = room_wf r"
  "room_wf (r\<lparr>frame_id := n\<rparr>) = room_wf r"
  "room_wf (r\<lparr>all_frames := fs\<rparr>) = room_wf r"
  "room_wf (r\<lparr>m_gameStarted := b\<rparr>) = room_wf r"
  by (simp_all add: room_wf_def)

lemma room_wfD:
  assumes "room_wf r"
  shows "om_wf (userid2userpid r)" "om_wf (in_game_id2pid r)"
    "om_keys (userid2roleid r) = om_keys (userid2userpid r)"
    "om_keys (id2name r) = om_keys (userid2userpid r)" "room_fault r = None"
    "os_wf (userpid_pool r)" "os_wf (offline_userid r)"
    "om_has (host_userid r) (userid2userpid r) \<or> host_userid r = -1"
  using assms by (auto simp: room_wf_def)

lemma room_wfI:
  assumes "om_wf (userid2userpid r)" "om_wf (in_game_id2pid r)"
    "om_keys (userid2roleid r) = om_keys (userid2userpid r)"
    "om_keys (id2name r) = om_keys (userid2userpid r)"
    "\<And>u p. om_get (in_game_id2pid r) u = Some p \<Longrightarrow> om_get (userid2userpid r) u = Some p"
    "\<And>u v p. om_get (userid2userpid r) u = Some p \<Longrightarrow> om_get (userid2userpid r) v = Some p \<Longrightarrow> u = v"
    "\<And>u p. om_get (userid2userpid r) u = Some p \<Longrightarrow> 1 \<le> p \<and> p \<le> m_size r"
    "os_wf (userpid_pool r)"
    "\<And>p. p \<in> set (userpid_pool r) \<longleftrightarrow>
        1 \<le> p \<and> p \<le> m_size r \<and> (\<forall>u. om_get (userid2userpid r) u \<noteq> Some p)"
    "host_userid r \<noteq> -1 \<Longrightarrow> om_has (host_userid r) (userid2userpid r)"
    "userid2userpid r \<noteq> [] \<Longrightarrow> \<not> om_has (-1) (userid2userpid r) \<Longrightarrow> host_userid r \<noteq> -1"
    "os_wf (offline_userid r)" "room_fault r = None"
  shows "room_wf r"
  unfolding room_wf_def using assms by blast

lemma wf_pool: "room_wf r \<Longrightarrow> p \<in> set (userpid_pool r) \<longleftrightarrow>
     1 \<le> p \<and> p \<le> m_size r \<and> (\<forall>u. om_get (userid2userpid r) u \<noteq> Some p)"
  by (simp add: room_wf_def)

lemma wf_slot_inj: "room_wf r \<Longrightarrow> om_get (userid2userpid r) u = Some p \<Longrightarrow>
     om_get (userid2userpid r) v = Some p \<Longrightarrow> u = v"
  unfolding room_wf_def by blast

lemma wf_slot_range:
  "room_wf r \<Longrightarrow> om_get (userid2userpid r) u = Some p \<Longrightarrow> 1 \<le> p \<and> p \<le> m_size r"
  unfolding room_wf_def by blast

lemma wf_game: "room_wf r \<Longrightarrow> om_get (in_game_id2pid r) u = Some p \<Longrightarrow>
     om_get (userid2userpid r) u = Some p"
  unfolding room_wf_def by blast

lemma wf_host:
  "room_wf r \<Longrightarrow> host_userid r \<noteq> -1 \<Longrightarrow> om_has (host_userid r) (userid2userpid r)"
  "room_wf r \<Longrightarrow> om_has u (userid2userpid r) \<Longrightarrow> \<not> om_has (-1) (userid2userpid r) \<Longrightarrow>
     host_userid r \<noteq> -1"
  unfolding room_wf_def by auto

lemma in_game_member:
  "room_wf r \<Longrightarrow> om_has u (in_game_id2pid r) \<Longrightarrow> om_has u (userid2userpid r)"
  by (auto simp: room_wf_def om_has_def)

lemma room_wf_game_sub:
  "room_wf r \<Longrightarrow> om_wf g \<Longrightarrow>
     (\<And>u p. om_get g u = Some p \<Longrightarrow> om_get (userid2userpid r) u = Some p) \<Longrightarrow>
     room_wf (r\<lparr>in_game_id2pid := g\<rparr>)"
  by (simp add: room_wf_def)

section \<open>What notifications send\<close>

lemma fold_room_send:
  "fold (room_send ty b) us r = r\<lparr>outbox := outbox r @ map (\<lambda>u. (ty, b, u)) us\<rparr>"
  by (induction us arbitrary: r) (simp_all add: room_send_def)

lemma BroadCastToGame_outbox:
  "BroadCastToGame ty b r =
     r\<lparr>outbox := outbox r @ map (\<lambda>u. (ty, b, u)) (om_keys (in_game_id2pid r))\<rparr>"
  by (simp add: BroadCastToGame_def fold_room_send)

definition room_info :: "Room \<Rightarrow> proto_body" where
  "room_info r =
     B_NotifyRoomInfo \<lparr>ni_users = map (user_info r) (id2name r), ni_roomid = m_id r,
       ni_m_gamestart = m_gameStarted r\<rparr>"

lemma room_info_outbox [simp]: "room_info (r\<lparr>outbox := ob\<rparr>) = room_info r"
  by (simp add: room_info_def user_info_def [abs_def])

lemma GetRoomUserInfos_wf:
  assumes "room_wf r"
  shows "GetRoomUserInfos r = (map (user_info r) (id2name r), r)"
proof -
  have "length (id2name r) = length (userid2userpid r)"
    using assms by (intro om_keys_length) (simp add: room_wfD)
  then show ?thesis
    using assms by (simp add: GetRoomUserInfos_def Let_def room_wfD)
qed

lemma SendRoomAllInfo_wf:
  "room_wf r \<Longrightarrow> SendRoomAllInfo u r = room_send NotifyRoomInfo (room_info r) u r"
  by (simp add: SendRoomAllInfo_def GetRoomUserInfos_wf room_info_def)

text \<open>Every member gets the same description of the room.\<close>

definition room_infos :: "Room \<Rightarrow> outgoing list" where
  "room_infos r = map (\<lambda>u. (NotifyRoomInfo, room_info r, u)) (om_keys (userid2userpid r))"

lemma SendRoomAllInfoToAll_wf:
  assumes "room_wf r"
  shows "SendRoomAllInfoToAll r = r\<lparr>outbox := outbox r @ room_infos r\<rparr>"
proof -
  have "fold SendRoomAllInfo us r =
      r\<lparr>outbox := outbox r @ map (\<lambda>u. (NotifyRoomInfo, room_info r, u)) us\<rparr>" if "room_wf r" for us r
    using that
  proof (induction us arbitrary: r)
    case Nil
    then show ?case by simp
  next
    case (Cons u us)
    have "SendRoomAllInfo u r = r\<lparr>outbox := outbox r @ [(NotifyRoomInfo, room_info r, u)]\<rparr>"
      using Cons.prems by (simp add: SendRoomAllInfo_wf room_send_def)
    then show ?case
      using Cons.IH [of "r\<lparr>outbox := outbox r @ [(NotifyRoomInfo, room_info r, u)]\<rparr>"] Cons.prems
      by simp
  qed
  then show ?thesis
    using assms by (simp add: SendRoomAllInfoToAll_def room_infos_def room_wfD)
qed

lemma NotifyUserJoinGame_wf:
  assumes "room_wf r" "m_gameStarted r" "om_has u (userid2userpid r)"
  shows "NotifyUserJoinGame u r =
     add_operate \<lparr>uo_data = [om_at 0 (userid2roleid r) u], uo_opt = OpJoinGame,
                  uo_userpid = om_at 0 (userid2userpid r) u\<rparr> r"
proof -
  have "om_has u (userid2roleid r)"
    using assms(1,3) om_has_cong [of "userid2roleid r" "userid2userpid r" u] by (simp add: room_wfD)
  then show ?thesis
    using assms by (simp add: NotifyUserJoinGame_def)
qed

lemma NotifyGameStartToUser_member:
  "om_has u (userid2userpid r) \<Longrightarrow> NotifyGameStartToUser u r =
     room_send StartGame (B_StartGame \<lparr>sg_roomid = m_id r,
        sg_userpid = om_at 0 (userid2userpid r) u, sg_seed = m_seed r\<rparr>) u r"
  by (simp add: NotifyGameStartToUser_def)

lemma NotifyGameStart_outbox:
  "NotifyGameStart r = r\<lparr>outbox := outbox r @ map (\<lambda>u. (StartGame,
     B_StartGame \<lparr>sg_roomid = m_id r, sg_userpid = om_at 0 (userid2userpid r) u,
       sg_seed = m_seed r\<rparr>, u)) (om_keys (userid2userpid r))\<rparr>"
proof -
  have "fold NotifyGameStartToUser us r = r\<lparr>outbox := outbox r @ map (\<lambda>u. (StartGame,
      B_StartGame \<lparr>sg_roomid = m_id r, sg_userpid = om_at 0 (userid2userpid r) u,
        sg_seed = m_seed r\<rparr>, u)) us\<rparr>"
    if "\<forall>u\<in>set us. om_has u (userid2userpid r)" for us r
    using that
    by (induction us arbitrary: r) (simp_all add: NotifyGameStartToUser_member room_send_def)
  then show ?thesis
    by (simp add: NotifyGameStart_def om_has_keys)
qed

section \<open>Leaving and ending a game\<close>

text \<open>These only touch the players, the running flag and the outbox.\<close>

definition game_frame :: "Room \<Rightarrow> Room \<Rightarrow> bool" where
  "game_frame r r' \<longleftrightarrow>
     m_id r' = m_id r \<and> m_name r' = m_name r \<and> cur_frame r' = cur_frame r \<and>
     frame_id r' = frame_id r \<and> m_size r' = m_size r \<and> m_seed r' = m_seed r \<and>
     host_userid r' = host_userid r \<and> userpid_pool r' = userpid_pool r \<and>
     userid2roleid r' = userid2roleid r \<and> all_frames r' = all_frames r \<and>
     userid2userpid r' = userid2userpid r \<and> id2name r' = id2name r \<and>
     offline_userid r' = offline_userid r \<and> room_fault r' = room_fault r"

lemma game_frame_refl [simp]: "game_frame r r"
  by (simp add: game_frame_def)

lemma game_frame_trans: "game_frame r s \<Longrightarrow> game_frame s t \<Longrightarrow> game_frame r t"
  by (simp add: game_frame_def)

lemma game_frame_updates [simp]:
  "game_frame r (s\<lparr>outbox := ob\<rparr>) = game_frame r s"
  "game_frame r (s\<lparr>m_gameStarted := b\<rparr>) = game_frame r s"
  "game_frame r (s\<lparr>in_game_id2pid := g\<rparr>) = game_frame r s"
  by (simp_all add: game_frame_def)

lemma game_frame_wf:
  assumes "room_wf r" "game_frame r r'" "om_wf (in_game_id2pid r')"
    and "\<And>u p. om_get (in_game_id2pid r') u = Some p \<Longrightarrow> om_get (in_game_id2pid r) u = Some p"
  shows "room_wf r'"
  using assms unfolding room_wf_def game_frame_def by simp

lemma NotifyUserQuitGame_absent [simp]:
  "\<not> om_has u (in_game_id2pid r) \<Longrightarrow> NotifyUserQuitGame u r = r"
  by (simp add: NotifyUserQuitGame_def)

lemma room_wf_del_player [simp]:
  "room_wf r \<Longrightarrow> room_wf (r\<lparr>in_game_id2pid := om_del u (in_game_id2pid r)\<rparr>)"
  by (intro room_wf_game_sub) (auto simp: room_wf_def split: if_splits)

lemma Room_LeaveFromGame_absent [simp]:
  "\<not> om_has u (in_game_id2pid r) \<Longrightarrow> Room_LeaveFromGame u r = r"
  by (simp add: Room_LeaveFromGame.simps)

lemma Room_LeaveFromGame_present:
  assumes "om_has u (in_game_id2pid r)"
    and "r2 = r\<lparr>in_game_id2pid := om_del u (in_game_id2pid r)\<rparr>"
  shows "Room_LeaveFromGame u r =
     SendRoomAllInfoToAll (if in_game_id2pid r2 = [] then Room_EndGame r2 else r2)"
proof -
  have "NotifyUserQuitGame u r2 = r2"
    using assms(2) by (intro NotifyUserQuitGame_absent) simp
  with assms show ?thesis by (simp only: Room_LeaveFromGame.simps [of u r] Let_def) simp
qed

lemma Room_EndGame_stopped [simp]: "\<not> m_gameStarted r \<Longrightarrow> Room_EndGame r = r"
  by (simp add: Room_EndGame.simps)

text \<open>In a stopped game leaving is one deletion and one round of room descriptions.\<close>

lemma Room_LeaveFromGame_stopped:
  assumes "\<not> m_gameStarted r" "om_has u (in_game_id2pid r)"
  shows "Room_LeaveFromGame u r =
     SendRoomAllInfoToAll (r\<lparr>in_game_id2pid := om_del u (in_game_id2pid r)\<rparr>)"
  using assms Room_LeaveFromGame_present [OF assms(2) refl] by (simp split: if_splits)

lemma leave_stopped:
  assumes "room_wf r" "\<not> m_gameStarted r"
  shows "room_wf (Room_LeaveFromGame u r) \<and> game_frame r (Room_LeaveFromGame u r) \<and>
     in_game_id2pid (Room_LeaveFromGame u r) = om_del u (in_game_id2pid r) \<and>
     \<not> m_gameStarted (Room_LeaveFromGame u r)"
  using assms
  by (cases "om_has u (in_game_id2pid r)")
    (simp_all add: Room_LeaveFromGame_stopped SendRoomAllInfoToAll_wf)

lemma kick_stopped:
  "room_wf r \<Longrightarrow> \<not> m_gameStarted r \<Longrightarrow>
     room_wf (kick_from_game us r) \<and> game_frame r (kick_from_game us r) \<and>
     in_game_id2pid (kick_from_game us r) = fold om_del us (in_game_id2pid r) \<and>
     \<not> m_gameStarted (kick_from_game us r)"
proof (induction us arbitrary: r)
  case Nil
  then show ?case by simp
next
  case (Cons u us)
  from leave_stopped [OF Cons.prems, of u] Cons.IH [of "Room_LeaveFromGame u r"]
  show ?case by (auto intro: game_frame_trans)
qed

lemma fold_om_del: "om_get (fold om_del us m) u = (if u \<in> set us then None else om_get m u)"
  by (induction us arbitrary: m) auto

lemma fold_om_del_keys [simp]: "fold om_del (om_keys m) m = []"
  by (subst om_eq_Nil_iff) (auto simp: om_has_def fold_om_del)

lemma NotifyGameEnd_outbox:
  "NotifyGameEnd r = r\<lparr>outbox := outbox r @
     map (\<lambda>u. (EndGame, B_EndGame \<lparr>eg_roomid = m_id r\<rparr>, u)) (om_keys (in_game_id2pid r))\<rparr>"
  by (simp add: NotifyGameEnd_def BroadCastToGame_outbox)

lemma EndGame_spec:
  assumes wf: "room_wf r"
  shows "room_wf (Room_EndGame r) \<and> game_frame r (Room_EndGame r) \<and>
     \<not> m_gameStarted (Room_EndGame r) \<and>
     in_game_id2pid (Room_EndGame r) = (if m_gameStarted r then [] else in_game_id2pid r)"
proof (cases "m_gameStarted r")
  case False
  with wf show ?thesis by simp
next
  case True
  let ?r1 = "NotifyGameEnd (r\<lparr>m_gameStarted := False\<rparr>)"
  let ?us = "om_keys (in_game_id2pid ?r1)"
  have "room_wf ?r1" "\<not> m_gameStarted ?r1"
    using wf by (simp_all add: NotifyGameEnd_outbox)
  from kick_stopped [OF this, of ?us]
  have k: "room_wf (kick_from_game ?us ?r1)" "game_frame ?r1 (kick_from_game ?us ?r1)"
      "in_game_id2pid (kick_from_game ?us ?r1) = []" "\<not> m_gameStarted (kick_from_game ?us ?r1)"
    by simp_all
  have "game_frame r ?r1"
    by (simp add: NotifyGameEnd_outbox)
  then have "game_frame r (kick_from_game ?us ?r1)"
    using k(2) by (rule game_frame_trans)
  with k True show ?thesis
    by (simp add: Room_EndGame.simps [of r] Let_def SendRoomAllInfoToAll_wf)
qed

lemma LeaveFromGame_spec:
  assumes wf: "room_wf r"
  shows "room_wf (Room_LeaveFromGame u r) \<and> game_frame r (Room_LeaveFromGame u r) \<and>
     in_game_id2pid (Room_LeaveFromGame u r) = om_del u (in_game_id2pid r) \<and>
     (m_gameStarted (Room_LeaveFromGame u r) \<longleftrightarrow>
        m_gameStarted r \<and> \<not> (om_has u (in_game_id2pid r) \<and> om_del u (in_game_id2pid r) = []))"
proof (cases "om_has u (in_game_id2pid r)")
  case False
  with wf show ?thesis by simp
next
  case True
  let ?r2 = "r\<lparr>in_game_id2pid := om_del u (in_game_id2pid r)\<rparr>"
  have wf2: "room_wf ?r2"
    using wf by simp
  have "game_frame r (Room_EndGame ?r2)"
    using EndGame_spec [OF wf2] by (auto intro: game_frame_trans [of r ?r2])
  with EndGame_spec [OF wf2] wf2 True show ?thesis
    unfolding Room_LeaveFromGame_present [OF True refl]
    by (cases "om_del u (in_game_id2pid r) = []") (simp_all add: SendRoomAllInfoToAll_wf)
qed

lemma LeaveFromGame_game_on:
  "room_wf r \<Longrightarrow> game_on r \<Longrightarrow> game_on (Room_LeaveFromGame u r)"
  using LeaveFromGame_spec [of r u] by (auto simp: game_on_def)

lemma EndGame_game_on: "room_wf r \<Longrightarrow> game_on r \<Longrightarrow> game_on (Room_EndGame r)"
  using EndGame_spec [of r] by (auto simp: game_on_def)

text \<open>The source's own recursion, with the kick written as the method it is.\<close>

lemma EndGame_eq:
  "Room_EndGame r =
     (if \<not> m_gameStarted r then r
      else SendRoomAllInfoToAll (KickAllUserFromGame (NotifyGameEnd (r\<lparr>m_gameStarted := False\<rparr>))))"
  by (simp add: Room_EndGame.simps [of r] KickAllUserFromGame_def Let_def)

section \<open>Joining and leaving a room\<close>

definition member_pid :: "Room \<Rightarrow> int \<Rightarrow> int" where
  "member_pid r u = om_at 0 (userid2userpid r) u"

text \<open>The next host: the remaining member with the least user id.\<close>

definition next_host :: "int omap \<Rightarrow> int" where
  "next_host m = (case m of [] \<Rightarrow> -1 | e # _ \<Rightarrow> fst e)"

lemma next_host_has: "m \<noteq> [] \<Longrightarrow> om_has (next_host m) m"
  by (cases m) (auto simp: next_host_def om_has_def)

lemma ChangeRoomHost_next:
  assumes "m = userid2userpid r"
  shows "(case m of [] \<Rightarrow> ChangeRoomHost (-1) r | e # x \<Rightarrow> ChangeRoomHost (fst e) r) =
     r\<lparr>host_userid := next_host m\<rparr>"
  using assms next_host_has [of m]
  by (auto simp: ChangeRoomHost_def next_host_def split: list.splits)

definition remove_member :: "int \<Rightarrow> Room \<Rightarrow> Room" where
  "remove_member u r =
     r\<lparr>userpid_pool := os_ins (member_pid r u) (userpid_pool r),
       userid2userpid := om_del u (userid2userpid r),
       userid2roleid := om_del u (userid2roleid r),
       id2name := om_del u (id2name r),
       host_userid := (if host_userid r = u then next_host (om_del u (userid2userpid r))
                       else host_userid r)\<rparr>"

lemma room_wf_remove_member:
  assumes wf: "room_wf r" and u: "om_has u (userid2userpid r)" "\<not> om_has u (in_game_id2pid r)"
  shows "room_wf (remove_member u r)"
proof -
  obtain p where p: "om_get (userid2userpid r) u = Some p" "member_pid r u = p"
    using u(1) by (auto simp: om_has_def member_pid_def)
  let ?m = "om_del u (userid2userpid r)"
  let ?h = "if host_userid r = u then next_host ?m else host_userid r"
  note h = wf_host(1) [OF wf] wf_host(2) [OF wf u(1)]
  have host1: "?h \<noteq> -1 \<longrightarrow> om_has ?h ?m"
  proof (cases "host_userid r = u")
    case True
    then show ?thesis
      using next_host_has [of ?m] by (cases "?m = []") (simp_all add: next_host_def)
  next
    case False
    then show ?thesis using h(1) by simp
  qed
  have host2: "?m \<noteq> [] \<and> \<not> om_has (-1) ?m \<longrightarrow> ?h \<noteq> -1"
  proof (cases "host_userid r = u")
    case True
    then show ?thesis
      using next_host_has [of ?m] by (cases "next_host ?m = -1") auto
  next
    case False
    then show ?thesis using h(2) by (cases "u = -1") auto
  qed
  have pool: "q \<in> set (os_ins p (userpid_pool r)) \<longleftrightarrow>
      1 \<le> q \<and> q \<le> m_size r \<and> (\<forall>v. om_get ?m v \<noteq> Some q)" for q
  proof (cases "q = p")
    case True
    have "om_get ?m v \<noteq> Some p" for v
      using wf_slot_inj [OF wf p(1), of v] by auto
    with True show ?thesis
      using wf_slot_range [OF wf p(1)] by simp
  next
    case False
    then have "(\<forall>v. om_get ?m v \<noteq> Some q) = (\<forall>v. om_get (userid2userpid r) v \<noteq> Some q)"
      using p(1) by (metis fun_upd_apply om_get_del option.distinct(1) option.inject)
    with False show ?thesis
      using wf_pool [OF wf, of q] by simp
  qed
  have game: "om_get (in_game_id2pid r) v = Some q \<longrightarrow> om_get ?m v = Some q" for v q
    using wf_game [OF wf, of v q] u(2) by (auto simp: om_has_def)
  show ?thesis
  proof (rule room_wfI)
    fix v w q
    let ?r = "remove_member u r"
    have m: "userid2userpid ?r = ?m" by (simp add: remove_member_def)
    show "om_get (userid2userpid ?r) v = Some q \<Longrightarrow> om_get (userid2userpid ?r) w = Some q \<Longrightarrow> v = w"
      by (rule wf_slot_inj [OF wf]) (auto simp: m split: if_splits)
    show "om_get (userid2userpid ?r) v = Some q \<Longrightarrow> 1 \<le> q \<and> q \<le> m_size ?r"
      using wf_slot_range [OF wf, of v q] by (simp add: remove_member_def split: if_splits)
    show "om_get (in_game_id2pid ?r) v = Some q \<Longrightarrow> om_get (userid2userpid ?r) v = Some q"
      using game [of v q] by (simp add: remove_member_def)
    show "q \<in> set (userpid_pool ?r) \<longleftrightarrow>
        1 \<le> q \<and> q \<le> m_size ?r \<and> (\<forall>u. om_get (userid2userpid ?r) u \<noteq> Some q)"
      using pool [of q] p(2) by (simp add: remove_member_def)
    show "host_userid ?r \<noteq> -1 \<Longrightarrow> om_has (host_userid ?r) (userid2userpid ?r)"
      using host1 by (simp add: remove_member_def del: om_has_del)
    show "userid2userpid ?r \<noteq> [] \<Longrightarrow> \<not> om_has (-1) (userid2userpid ?r) \<Longrightarrow> host_userid ?r \<noteq> -1"
      using host2 by (simp add: remove_member_def del: om_has_del)
  qed (use room_wfD [OF wf] in \<open>simp_all add: remove_member_def\<close>)
qed

lemma Room_LeaveFromRoom_outsider:
  assumes "room_wf r" "\<not> om_has u (userid2userpid r)"
  shows "Room_LeaveFromRoom u r =
     room_send LeaveRoom (B_LeaveRoom \<lparr>lr_roomid = 0, lr_ret = False, lr_result = txt_not_here,
       lr_type = RESPONSE\<rparr>) u r"
proof -
  have "\<not> om_has u (in_game_id2pid r)"
    using assms in_game_member by blast
  with assms(2) show ?thesis
    by (simp add: Room_LeaveFromRoom_def Let_def new_LeaveRoom_def)
qed

lemma Room_LeaveFromRoom_member:
  assumes wf: "room_wf r" and u: "om_has u (userid2userpid r)"
  shows "Room_LeaveFromRoom u r = SendRoomAllInfoToAll (remove_member u (Room_LeaveFromGame u r))"
proof -
  have "userid2userpid (Room_LeaveFromGame u r) = userid2userpid r"
    using LeaveFromGame_spec [OF wf, of u] by (simp add: game_frame_def)
  then show ?thesis
    using u by (simp add: Room_LeaveFromRoom_def Let_def remove_member_def member_pid_def
        ChangeRoomHost_next)
qed

lemma LeaveFromRoom_spec:
  assumes wf: "room_wf r"
  shows "room_wf (Room_LeaveFromRoom u r) \<and>
     userid2userpid (Room_LeaveFromRoom u r) = om_del u (userid2userpid r) \<and>
     in_game_id2pid (Room_LeaveFromRoom u r) = om_del u (in_game_id2pid r) \<and>
     m_gameStarted (Room_LeaveFromRoom u r) = m_gameStarted (Room_LeaveFromGame u r) \<and>
     m_size (Room_LeaveFromRoom u r) = m_size r \<and> m_id (Room_LeaveFromRoom u r) = m_id r \<and>
     offline_userid (Room_LeaveFromRoom u r) = offline_userid r"
proof (cases "om_has u (userid2userpid r)")
  case False
  then have "\<not> om_has u (in_game_id2pid r)"
    using wf in_game_member by blast
  with False wf show ?thesis
    by (simp add: Room_LeaveFromRoom_outsider room_send_def)
next
  case True
  let ?r = "Room_LeaveFromGame u r"
  from LeaveFromGame_spec [OF wf, of u]
  have r: "room_wf ?r" "userid2userpid ?r = userid2userpid r" "m_size ?r = m_size r"
      "m_id ?r = m_id r" "offline_userid ?r = offline_userid r"
      "in_game_id2pid ?r = om_del u (in_game_id2pid r)"
    by (auto simp: game_frame_def)
  then have "room_wf (remove_member u ?r)"
    using True by (intro room_wf_remove_member) simp_all
  then show ?thesis
    using r by (simp add: Room_LeaveFromRoom_member [OF wf True] SendRoomAllInfoToAll_wf)
      (simp add: remove_member_def)
qed

lemma LeaveFromRoom_game_on:
  assumes "room_wf r" "game_on r"
  shows "game_on (Room_LeaveFromRoom u r)"
  using LeaveFromRoom_spec [OF assms(1), of u] LeaveFromGame_spec [OF assms(1), of u] assms(2)
  by (auto simp: game_on_def)

lemma kick_room_spec:
  "room_wf r \<Longrightarrow> game_on r \<Longrightarrow>
     room_wf (fold Room_LeaveFromRoom us r) \<and> game_on (fold Room_LeaveFromRoom us r) \<and>
     userid2userpid (fold Room_LeaveFromRoom us r) = fold om_del us (userid2userpid r)"
proof (induction us arbitrary: r)
  case (Cons u us)
  then show ?case
    using LeaveFromRoom_spec [OF Cons.prems(1), of u] LeaveFromRoom_game_on [OF Cons.prems, of u]
    by simp
qed simp

lemma Room_destroy_spec:
  assumes "room_wf r" "game_on r"
  shows "room_wf (Room_destroy r) \<and> userid2userpid (Room_destroy r) = []"
proof -
  have e: "room_wf (Room_EndGame r)" "game_on (Room_EndGame r)"
    using EndGame_spec [OF assms(1)] EndGame_game_on [OF assms] by auto
  show ?thesis
    using kick_room_spec [OF e, of "om_keys (userid2userpid (Room_EndGame r))"]
    by (simp add: Room_destroy_def KickAllUserFromRoom_def)
qed

text \<open>
  Slots are counted: the members and the free slots together are exactly \<open>1..m_size\<close>, so the
  pool is never empty in a room that is not full and the growing branch of \<open>JoinRoom\<close> is dead.
\<close>

lemma room_slots:
  assumes wf: "room_wf r" and sz: "0 \<le> m_size r"
  shows "int (length (userid2userpid r) + length (userpid_pool r)) = m_size r"
proof -
  let ?m = "om_get (userid2userpid r)"
  have inj: "inj_on ?m (dom ?m)"
    using wf by (auto simp: room_wf_def inj_on_def)
  have fin: "finite (ran ?m)"
    by (rule finite_ran) (rule finite_dom_map_of)
  have "Some ` ran ?m = ?m ` dom ?m"
    by (force simp: ran_def dom_def image_iff)
  then have "card (ran ?m) = card (dom ?m)"
    using card_image [OF inj] card_image [of Some "ran ?m"] by simp
  then have members: "length (userid2userpid r) = card (ran ?m)"
    using wf by (simp add: length_om_card room_wfD)
  have pool: "length (userpid_pool r) = card (set (userpid_pool r))"
    using wf by (simp add: length_os_card room_wfD)
  have "ran ?m \<union> set (userpid_pool r) = {1..m_size r}" "ran ?m \<inter> set (userpid_pool r) = {}"
    using wf by (auto simp: room_wf_def ran_def)
  then have "card (ran ?m) + card (set (userpid_pool r)) = card {1..m_size r}"
    using card_Un_disjoint [OF fin, of "set (userpid_pool r)"] by simp
  then show ?thesis
    using members pool sz by simp
qed

lemma room_wf_size: "room_wf r \<Longrightarrow> 0 \<le> m_size r \<Longrightarrow> PlayerCount r \<le> m_size r"
  using room_slots [of r] by (simp add: PlayerCount_def)

lemma pool_nonempty:
  "room_wf r \<Longrightarrow> 0 \<le> m_size r \<Longrightarrow> \<not> IsFull r \<Longrightarrow> userpid_pool r \<noteq> []"
  using room_slots [of r] by (auto simp: IsFull_def PlayerCount_def)

definition add_member :: "string \<Rightarrow> int \<Rightarrow> int \<Rightarrow> Room \<Rightarrow> Room" where
  "add_member name u p r =
     r\<lparr>userpid_pool := os_del p (userpid_pool r),
       userid2userpid := om_upd u p (userid2userpid r),
       userid2roleid := om_upd u 1 (userid2roleid r),
       id2name := om_upd u name (id2name r),
       host_userid := (if host_userid r = -1 then u else host_userid r)\<rparr>"

lemma room_wf_add_member:
  assumes wf: "room_wf r" and u: "\<not> om_has u (userid2userpid r)" and p: "p \<in> set (userpid_pool r)"
  shows "room_wf (add_member name u p r)"
proof -
  have p': "1 \<le> p" "p \<le> m_size r" "\<forall>v. om_get (userid2userpid r) v \<noteq> Some p"
    using wf_pool [OF wf] p by auto
  have u': "om_get (userid2userpid r) u = None" "om_get (in_game_id2pid r) u = None"
    using u in_game_member [OF wf, of u]
    by (cases "om_get (in_game_id2pid r) u"; simp add: om_has_def)+
  let ?m = "om_upd u p (userid2userpid r)"
  have pool: "q \<in> set (os_del p (userpid_pool r)) \<longleftrightarrow>
      1 \<le> q \<and> q \<le> m_size r \<and> (\<forall>v. om_get ?m v \<noteq> Some q)" for q
  proof -
    have "(\<forall>v. om_get ?m v \<noteq> Some q) \<longleftrightarrow>
        q \<noteq> p \<and> (\<forall>v. om_get (userid2userpid r) v \<noteq> Some q)"
      using u'(1) by (metis fun_upd_apply om_get_upd option.distinct(1) option.inject)
    then show ?thesis
      using wf_pool [OF wf, of q] by auto
  qed
  show ?thesis
  proof (rule room_wfI)
    fix v w q
    let ?r = "add_member name u p r"
    have m: "userid2userpid ?r = ?m" by (simp add: add_member_def)
    show "v = w" if "om_get (userid2userpid ?r) v = Some q" "om_get (userid2userpid ?r) w = Some q"
    proof (cases "q = p")
      case True
      then show ?thesis using that p'(3) by (simp add: m split: if_splits)
    next
      case False
      then show ?thesis using that by (intro wf_slot_inj [OF wf, of v q w]) (auto simp: m split: if_splits)
    qed
    show "om_get (userid2userpid ?r) v = Some q \<Longrightarrow> 1 \<le> q \<and> q \<le> m_size ?r"
      using wf_slot_range [OF wf, of v q] p' by (auto simp: add_member_def split: if_splits)
    show "om_get (in_game_id2pid ?r) v = Some q \<Longrightarrow> om_get (userid2userpid ?r) v = Some q"
      using wf_game [OF wf, of v q] u' by (auto simp: add_member_def)
    show "q \<in> set (userpid_pool ?r) \<longleftrightarrow>
        1 \<le> q \<and> q \<le> m_size ?r \<and> (\<forall>u. om_get (userid2userpid ?r) u \<noteq> Some q)"
      using pool [of q] by (simp add: add_member_def)
    show "host_userid ?r \<noteq> -1 \<Longrightarrow> om_has (host_userid ?r) (userid2userpid ?r)"
      using wf_host(1) [OF wf] by (auto simp: add_member_def)
    show "userid2userpid ?r \<noteq> [] \<Longrightarrow> \<not> om_has (-1) (userid2userpid ?r) \<Longrightarrow> host_userid ?r \<noteq> -1"
      by (auto simp: add_member_def)
  qed (use room_wfD [OF wf] in \<open>simp_all add: add_member_def\<close>)
qed

lemma Room_JoinRoom_ok:
  assumes wf: "room_wf r" and sz: "0 \<le> m_size r"
    and g: "\<not> m_gameStarted r" "\<not> IsFull r" "\<not> om_has u (userid2userpid r)"
  shows "Room_JoinRoom name u r =
     (let r3 = add_member name u (hd (userpid_pool r)) r
      in (True, SendRoomAllInfoToAll (room_send JoinRoom
           (B_JoinRoom \<lparr>jr_roomid = m_id r, jr_result = txt_join_ok, jr_type = RESPONSE,
              jr_ret = True\<rparr>) u r3)))"
proof -
  obtain p ps where p: "userpid_pool r = p # ps"
    using pool_nonempty [OF wf sz g(2)] by (cases "userpid_pool r") auto
  show ?thesis
    using g p
    by (auto simp: Room_JoinRoom_def Let_def new_JoinRoom_def add_member_def ChangeRoomHost_def)
qed

lemma Room_JoinRoom_refused:
  assumes "m_gameStarted r \<or> IsFull r \<or> om_has u (userid2userpid r)"
  shows "Room_JoinRoom name u r = (False, room_send JoinRoom
     (B_JoinRoom \<lparr>jr_roomid = -1,
        jr_result = (if m_gameStarted r then txt_game_already_started
                     else if IsFull r then txt_room_full else txt_already_here),
        jr_type = RESPONSE, jr_ret = False\<rparr>) u r)"
  using assms by (auto simp: Room_JoinRoom_def Let_def new_JoinRoom_def)

lemma JoinRoom_spec:
  assumes wf: "room_wf r" and sz: "0 \<le> m_size r" and j: "Room_JoinRoom name u r = (ok, r')"
  shows "room_wf r' \<and> m_size r' = m_size r \<and> m_id r' = m_id r \<and>
     m_gameStarted r' = m_gameStarted r \<and> in_game_id2pid r' = in_game_id2pid r \<and>
     (ok \<longleftrightarrow> \<not> m_gameStarted r \<and> \<not> IsFull r \<and> \<not> om_has u (userid2userpid r)) \<and>
     userid2userpid r' = (if ok then om_upd u (hd (userpid_pool r)) (userid2userpid r)
                          else userid2userpid r)"
proof (cases "m_gameStarted r \<or> IsFull r \<or> om_has u (userid2userpid r)")
  case True
  with wf j show ?thesis
    by (auto simp: Room_JoinRoom_refused room_send_def)
next
  case False
  let ?r3 = "add_member name u (hd (userpid_pool r)) r"
  have "room_wf ?r3"
    using False pool_nonempty [OF wf sz] by (intro room_wf_add_member [OF wf]) auto
  then show ?thesis
    using False j
    by (auto simp: Room_JoinRoom_ok [OF wf sz] Let_def room_send_def SendRoomAllInfoToAll_wf)
      (auto simp: add_member_def)
qed

lemma JoinRoom_game_on:
  "room_wf r \<Longrightarrow> 0 \<le> m_size r \<Longrightarrow> Room_JoinRoom name u r = (ok, r') \<Longrightarrow> game_on r \<Longrightarrow> game_on r'"
  using JoinRoom_spec [of r name u ok r'] by (simp add: game_on_def)

section \<open>Entering, running and rejoining a game\<close>

definition join_op :: "Room \<Rightarrow> int \<Rightarrow> UserOperateMsg" where
  "join_op r u =
     \<lparr>uo_data = [om_at 0 (userid2roleid r) u], uo_opt = OpJoinGame, uo_userpid = member_pid r u\<rparr>"

lemma join_op_frame [simp]:
  "join_op (r\<lparr>outbox := ob\<rparr>) = join_op r"
  "join_op (r\<lparr>cur_frame := f\<rparr>) = join_op r"
  "join_op (r\<lparr>in_game_id2pid := g\<rparr>) = join_op r"
  by (simp_all add: join_op_def member_pid_def fun_eq_iff)

lemma member_pid_frame [simp]:
  "member_pid (r\<lparr>outbox := ob\<rparr>) = member_pid r"
  "member_pid (r\<lparr>cur_frame := f\<rparr>) = member_pid r"
  "member_pid (r\<lparr>in_game_id2pid := g\<rparr>) = member_pid r"
  by (simp_all add: member_pid_def fun_eq_iff)

definition with_players :: "int list \<Rightarrow> Room \<Rightarrow> Room" where
  "with_players us r =
     r\<lparr>in_game_id2pid := fold (\<lambda>u. om_upd u (member_pid r u)) us (in_game_id2pid r),
       cur_frame := (cur_frame r)\<lparr>fr_operates := fr_operates (cur_frame r) @ map (join_op r) us\<rparr>\<rparr>"

lemma Room_JoinGame_player:
  assumes "room_wf r" "m_gameStarted r" "om_has u (userid2userpid r)"
  shows "Room_JoinGame u r = with_players [u] r"
  using assms NotifyUserJoinGame_wf [OF assms]
  by (simp add: Room_JoinGame_def Let_def with_players_def add_operate_def join_op_def member_pid_def)

lemma Room_JoinGame_ignored:
  "\<not> m_gameStarted r \<or> \<not> om_has u (userid2userpid r) \<Longrightarrow> Room_JoinGame u r = r"
  by (auto simp: Room_JoinGame_def)

lemma om_wf_players: "om_wf g \<Longrightarrow> om_wf (fold (\<lambda>u. om_upd u (f u)) us g)"
  by (induction us arbitrary: g) auto

lemma om_get_players:
  "om_get (fold (\<lambda>u. om_upd u (f u)) us g) v = (if v \<in> set us then Some (f v) else om_get g v)"
  by (induction us arbitrary: g) auto

lemma with_players_wf:
  assumes wf: "room_wf r" and us: "\<forall>u\<in>set us. om_has u (userid2userpid r)"
  shows "room_wf (with_players us r)"
proof -
  have "room_wf (r\<lparr>in_game_id2pid := fold (\<lambda>u. om_upd u (member_pid r u)) us (in_game_id2pid r)\<rparr>)"
    using us wf_game [OF wf] room_wfD(2) [OF wf]
    by (intro room_wf_game_sub [OF wf])
      (auto simp: om_wf_players om_get_players member_pid_def om_has_def split: if_splits)
  then show ?thesis
    by (simp add: with_players_def)
qed

lemma fold_JoinGame:
  "room_wf r \<Longrightarrow> m_gameStarted r \<Longrightarrow> \<forall>u\<in>set us. om_has u (userid2userpid r) \<Longrightarrow>
     fold Room_JoinGame us r = with_players us r"
proof (induction us arbitrary: r)
  case Nil
  then show ?case by (simp add: with_players_def)
next
  case (Cons u us)
  have one: "Room_JoinGame u r = with_players [u] r"
    using Cons.prems by (intro Room_JoinGame_player) auto
  have "fold Room_JoinGame us (with_players [u] r) = with_players us (with_players [u] r)"
    using Cons.prems by (intro Cons.IH with_players_wf) (simp_all add: with_players_def)
  also have "\<dots> = with_players (u # us) r"
    by (simp add: with_players_def)
  finally show ?case using one by simp
qed

text \<open>Starting: everybody is told, everybody is a player, the replay starts empty.\<close>

definition start_msgs :: "Room \<Rightarrow> outgoing list" where
  "start_msgs r = map (\<lambda>u. (StartGame, B_StartGame \<lparr>sg_roomid = m_id r,
     sg_userpid = member_pid r u, sg_seed = m_seed r\<rparr>, u)) (om_keys (userid2userpid r))"

definition started_room :: "Room \<Rightarrow> Room" where
  "started_room r =
     with_players (om_keys (userid2userpid r))
       (r\<lparr>m_gameStarted := True, frame_id := 0,
          cur_frame := (cur_frame r)\<lparr>fr_operates := []\<rparr>, all_frames := [],
          outbox := outbox r @ start_msgs r\<rparr>)"

lemma Room_StartGame_host:
  assumes "room_wf r" "\<not> m_gameStarted r" "u = host_userid r"
  shows "Room_StartGame u r = SendRoomAllInfoToAll (started_room r)"
  using assms
  by (simp add: Room_StartGame_def Let_def NotifyGameStart_outbox fold_JoinGame om_has_keys
      started_room_def start_msgs_def member_pid_def)

lemma started_room_wf: "room_wf r \<Longrightarrow> room_wf (started_room r)"
  unfolding started_room_def by (intro with_players_wf) (simp_all add: om_has_keys)

lemma started_room_fields:
  "m_gameStarted (started_room r)" "frame_id (started_room r) = 0"
  "all_frames (started_room r) = []" "userid2userpid (started_room r) = userid2userpid r"
  "m_size (started_room r) = m_size r" "m_id (started_room r) = m_id r"
  "offline_userid (started_room r) = offline_userid r"
  by (simp_all add: started_room_def with_players_def)

lemma StartGame_spec:
  assumes "room_wf r"
  shows "room_wf (Room_StartGame u r) \<and> m_size (Room_StartGame u r) = m_size r \<and>
     m_id (Room_StartGame u r) = m_id r \<and>
     userid2userpid (Room_StartGame u r) = userid2userpid r \<and>
     offline_userid (Room_StartGame u r) = offline_userid r"
proof (cases "m_gameStarted r \<or> u \<noteq> host_userid r")
  case True
  with assms show ?thesis by (auto simp: Room_StartGame_def)
next
  case False
  with assms show ?thesis
    by (simp add: Room_StartGame_host started_room_wf SendRoomAllInfoToAll_wf started_room_fields)
qed

lemma players_not_Nil: "us \<noteq> [] \<Longrightarrow> fold (\<lambda>u. om_upd u (f u)) us g \<noteq> []"
  by (cases us rule: rev_cases) auto

lemma StartGame_game_on:
  assumes wf: "room_wf r" and g: "game_on r" and u: "u = host_userid r \<Longrightarrow> om_has u (userid2userpid r)"
  shows "game_on (Room_StartGame u r)"
proof (cases "m_gameStarted r \<or> u \<noteq> host_userid r")
  case True
  with g show ?thesis by (auto simp: Room_StartGame_def)
next
  case False
  then have "om_keys (userid2userpid r) \<noteq> []"
    using u by (auto simp: om_has_keys)
  then have "in_game_id2pid (started_room r) \<noteq> []"
    unfolding started_room_def with_players_def by (simp add: players_not_Nil)
  with False wf show ?thesis
    by (simp add: Room_StartGame_host SendRoomAllInfoToAll_wf started_room_wf game_on_def
        started_room_fields)
qed

lemma JoinGame_spec:
  assumes "room_wf r"
  shows "room_wf (Room_JoinGame u r) \<and> m_size (Room_JoinGame u r) = m_size r \<and>
     m_id (Room_JoinGame u r) = m_id r \<and> m_gameStarted (Room_JoinGame u r) = m_gameStarted r \<and>
     userid2userpid (Room_JoinGame u r) = userid2userpid r \<and>
     offline_userid (Room_JoinGame u r) = offline_userid r \<and>
     frame_id (Room_JoinGame u r) = frame_id r \<and> all_frames (Room_JoinGame u r) = all_frames r \<and>
     outbox (Room_JoinGame u r) = outbox r"
proof (cases "m_gameStarted r \<and> om_has u (userid2userpid r)")
  case True
  then have "room_wf (with_players [u] r)"
    using assms by (intro with_players_wf) simp_all
  with True assms show ?thesis
    by (simp add: Room_JoinGame_player) (simp add: with_players_def)
next
  case False
  with assms show ?thesis by (auto simp: Room_JoinGame_ignored)
qed

lemma JoinGame_game_on: "room_wf r \<Longrightarrow> game_on r \<Longrightarrow> game_on (Room_JoinGame u r)"
  by (cases "m_gameStarted r \<and> om_has u (userid2userpid r)")
    (auto simp: game_on_def Room_JoinGame_player with_players_def Room_JoinGame_ignored)

text \<open>A tick: the frame so far goes, numbered, to the players, is kept for replay, and the next
  one starts empty.\<close>

definition next_frame :: "Room \<Rightarrow> FrameMsg" where
  "next_frame r = (cur_frame r)\<lparr>fr_frame_id := frame_id r + 1\<rparr>"

text \<open>The frame counter has room for one more.\<close>

definition ticks_on :: "Room \<Rightarrow> bool" where
  "ticks_on r \<longleftrightarrow> (m_gameStarted r \<longrightarrow> int32 (frame_id r + 1))"

lemma Room_Tick_started:
  "m_gameStarted r \<Longrightarrow> int32 (frame_id r + 1) \<Longrightarrow> Room_Tick cfg r =
     (True, r\<lparr>frame_id := frame_id r + 1,
              cur_frame := (next_frame r)\<lparr>fr_operates := []\<rparr>,
              all_frames := (if IS_CHASE_FRAME cfg then all_frames r @ [next_frame r]
                             else all_frames r),
              outbox := outbox r @ map (\<lambda>u. (Frame, B_Frame (next_frame r), u))
                                       (om_keys (in_game_id2pid r))\<rparr>)"
  by (simp add: Room_Tick_def Let_def BroadCastToGame_outbox next_frame_def)

lemma Room_Tick_overflow:
  "m_gameStarted r \<Longrightarrow> \<not> int32 (frame_id r + 1) \<Longrightarrow> Room_Tick cfg r = (True, room_crash SignedOverflow r)"
  by (simp add: Room_Tick_def)

lemma Tick_spec:
  assumes "room_wf r" "ticks_on r"
  shows "room_wf (snd (Room_Tick cfg r)) \<and> m_size (snd (Room_Tick cfg r)) = m_size r \<and>
     m_id (snd (Room_Tick cfg r)) = m_id r \<and> fst (Room_Tick cfg r) = m_gameStarted r \<and>
     userid2userpid (snd (Room_Tick cfg r)) = userid2userpid r \<and>
     offline_userid (snd (Room_Tick cfg r)) = offline_userid r \<and>
     (game_on (snd (Room_Tick cfg r)) \<longleftrightarrow> game_on r)"
proof (cases "m_gameStarted r")
  case True
  with assms show ?thesis by (simp add: ticks_on_def Room_Tick_started game_on_def)
next
  case False
  with assms show ?thesis by (simp add: Room_Tick_def)
qed

lemma room_wf_offline:
  "room_wf r \<Longrightarrow> os_wf xs \<Longrightarrow> room_wf (r\<lparr>offline_userid := xs\<rparr>)"
  by (simp add: room_wf_def)

lemma SetUserOnline_spec:
  assumes "room_wf r"
  shows "room_wf (SetUserOnline u r) \<and>
     SetUserOnline u r = r\<lparr>offline_userid :=
       (if om_has u (userid2userpid r) then os_del u (offline_userid r) else offline_userid r)\<rparr>"
proof -
  have "os_del u (offline_userid r) = offline_userid r" if "u \<notin> set (offline_userid r)"
    using that by (auto simp: os_del_def filter_id_conv)
  then have "SetUserOnline u r = r\<lparr>offline_userid :=
      (if om_has u (userid2userpid r) then os_del u (offline_userid r) else offline_userid r)\<rparr>"
    by (simp add: SetUserOnline_def)
  then show ?thesis
    using assms by (simp add: room_wf_offline room_wfD)
qed

lemma SetUserOffline_spec:
  assumes wf: "room_wf r"
  shows "room_wf (SetUserOffline u r) \<and> m_size (SetUserOffline u r) = m_size r \<and>
     m_id (SetUserOffline u r) = m_id r \<and>
     userid2userpid (SetUserOffline u r) = userid2userpid r \<and>
     offline_userid (SetUserOffline u r) =
       (if om_has u (userid2userpid r) \<and> u \<notin> set (offline_userid r)
        then os_ins u (offline_userid r) else offline_userid r) \<and>
     (game_on r \<longrightarrow> game_on (SetUserOffline u r)) \<and>
     frame_id (SetUserOffline u r) = frame_id r \<and> all_frames (SetUserOffline u r) = all_frames r"
proof (cases "om_has u (userid2userpid r) \<and> u \<notin> set (offline_userid r)")
  case False
  with wf show ?thesis by (auto simp: SetUserOffline_def)
next
  case True
  let ?r = "r\<lparr>offline_userid := os_ins u (offline_userid r)\<rparr>"
  have "room_wf ?r"
    using wf by (intro room_wf_offline) (simp_all add: room_wfD)
  from LeaveFromGame_spec [OF this, of u] LeaveFromGame_game_on [OF this, of u] True
  show ?thesis
    by (auto simp: SetUserOffline_def game_frame_def game_on_def)
qed

text \<open>Rejoining a running game: the reply, the start of the game, all its frames so far, and the
  player is back in.\<close>

definition reconnect_msgs :: "Room \<Rightarrow> int \<Rightarrow> outgoing list" where
  "reconnect_msgs r u =
     [(Reconnect, B_Reconnect \<lparr>rc_roomid = m_id r, rc_userpid = member_pid r u,
         rc_is_roomhost = (host_userid r = u), rc_seed = m_seed r, rc_token = 0, rc_ret = True,
         rc_msg = txt_reconnected\<rparr>, u),
      (StartGame, B_StartGame \<lparr>sg_roomid = m_id r, sg_userpid = member_pid r u,
         sg_seed = m_seed r\<rparr>, u),
      (ChaseFrame, B_GameReplay \<lparr>gr_frames = all_frames r\<rparr>, u)]"

lemma Room_Reconnect_member:
  assumes wf: "room_wf r" and u: "om_has u (userid2userpid r)"
  shows "Room_Reconnect u r =
     Room_JoinGame u (r\<lparr>offline_userid := os_del u (offline_userid r),
                        outbox := outbox r @ reconnect_msgs r u\<rparr>)"
proof -
  have "SetUserOnline u r = r\<lparr>offline_userid := os_del u (offline_userid r)\<rparr>"
    using SetUserOnline_spec [OF wf, of u] u by simp
  then show ?thesis
    using u by (simp add: Room_Reconnect_def Let_def NotifyGameStartToUser_member room_send_def
        reconnect_msgs_def new_Reconnect_def member_pid_def)
qed

lemma Reconnect_spec:
  assumes wf: "room_wf r"
  shows "room_wf (Room_Reconnect u r) \<and> m_size (Room_Reconnect u r) = m_size r \<and>
     m_id (Room_Reconnect u r) = m_id r \<and>
     userid2userpid (Room_Reconnect u r) = userid2userpid r \<and>
     (game_on r \<longrightarrow> game_on (Room_Reconnect u r)) \<and>
     frame_id (Room_Reconnect u r) = frame_id r \<and> all_frames (Room_Reconnect u r) = all_frames r"
proof (cases "om_has u (userid2userpid r)")
  case False
  with wf show ?thesis by (simp add: Room_Reconnect_def)
next
  case True
  let ?r = "r\<lparr>offline_userid := os_del u (offline_userid r),
    outbox := outbox r @ reconnect_msgs r u\<rparr>"
  have wf': "room_wf ?r"
    using wf room_wf_offline [of r "os_del u (offline_userid r)"] by (simp add: room_wfD)
  have "game_on r \<longrightarrow> game_on ?r" by (simp add: game_on_def)
  with JoinGame_spec [OF wf', of u] JoinGame_game_on [OF wf', of u] True wf show ?thesis
    by (simp add: Room_Reconnect_member)
qed

lemma room_wf_role:
  assumes wf: "room_wf r" and u: "om_has u (userid2userpid r)"
  shows "room_wf (r\<lparr>userid2roleid := om_upd u x (userid2roleid r)\<rparr>)"
proof -
  have "os_ins u (om_keys (userid2userpid r)) = om_keys (userid2userpid r)"
    if "om_wf (userid2userpid r)" "u \<in> set (om_keys (userid2userpid r))"
    using that(1) by (intro os_ins_same [OF _ that(2)]) (simp add: om_wf_def om_keys_def)
  then show ?thesis
    using wf u by (auto simp: room_wf_def om_has_keys)
qed

lemma UserInfoChange_spec:
  assumes wf: "room_wf r"
    and msg: "om_has (m_userid (m_head m)) (userid2userpid r) \<Longrightarrow> \<exists>q. msg_object m = Some (B_ChangeRole q)"
  shows "room_wf (Room_UserInfoChange m r) \<and> m_size (Room_UserInfoChange m r) = m_size r \<and>
     m_id (Room_UserInfoChange m r) = m_id r \<and>
     userid2userpid (Room_UserInfoChange m r) = userid2userpid r \<and>
     game_on (Room_UserInfoChange m r) = game_on r \<and>
     offline_userid (Room_UserInfoChange m r) = offline_userid r \<and>
     frame_id (Room_UserInfoChange m r) = frame_id r \<and>
     all_frames (Room_UserInfoChange m r) = all_frames r"
proof (cases "om_has (m_userid (m_head m)) (userid2userpid r)")
  case False
  with wf show ?thesis by (simp add: Room_UserInfoChange_def)
next
  case True
  with msg obtain q where "msg_object m = Some (B_ChangeRole q)" by blast
  with True wf room_wf_role [OF wf True] show ?thesis
    by (simp add: Room_UserInfoChange_def SendRoomAllInfoToAll_wf game_on_def Let_def)
qed

lemma OnUserOperate_spec:
  "room_wf r \<Longrightarrow> room_wf (Room_OnUserOperate m r) \<and> m_size (Room_OnUserOperate m r) = m_size r \<and>
     m_id (Room_OnUserOperate m r) = m_id r \<and>
     userid2userpid (Room_OnUserOperate m r) = userid2userpid r \<and>
     game_on (Room_OnUserOperate m r) = game_on r \<and>
     offline_userid (Room_OnUserOperate m r) = offline_userid r \<and>
     frame_id (Room_OnUserOperate m r) = frame_id r \<and>
     all_frames (Room_OnUserOperate m r) = all_frames r"
  by (auto simp: Room_OnUserOperate_def add_operate_def game_on_def Let_def
      split: option.splits proto_body.splits)

lemma NotifyUserJoinGame_spec:
  "room_wf r \<Longrightarrow> room_wf (NotifyUserJoinGame u r) \<and> m_size (NotifyUserJoinGame u r) = m_size r \<and>
     m_id (NotifyUserJoinGame u r) = m_id r \<and>
     userid2userpid (NotifyUserJoinGame u r) = userid2userpid r \<and>
     game_on (NotifyUserJoinGame u r) = game_on r \<and>
     offline_userid (NotifyUserJoinGame u r) = offline_userid r \<and>
     frame_id (NotifyUserJoinGame u r) = frame_id r \<and>
     all_frames (NotifyUserJoinGame u r) = all_frames r"
proof (cases "m_gameStarted r \<and> om_has u (userid2userpid r)")
  case True
  assume "room_wf r"
  with True show ?thesis
    by (simp add: NotifyUserJoinGame_wf add_operate_def game_on_def)
next
  case False
  then show "room_wf r \<Longrightarrow> ?thesis"
    by (auto simp: NotifyUserJoinGame_def)
qed

end
