(* ===== verification/Room_Machine.thy ===== *)
theory Room_Machine
  imports Room_Inv
begin

text \<open>
  The public interface of a room as a machine: one event per method of the public section of
  \<open>src/Logic/Room.h\<close> that can change the room, whether the program calls it from outside or not,
  and the invariant every call keeps. The destructor, after which there is no room, is
  \<open>room_inv_destroy\<close>. The invariant adds to \<open>room_wf\<close> that a game runs exactly while it has
  players, that the frame counter fits its \<open>int\<close>, and that the replay of a chase-frame room holds
  the frames 1, 2, 3, \<dots> of the game without a gap.

  Some calls are only safe under a condition their callers have to establish, which is \<open>room_ok\<close>.
  Of the methods the logic server calls: the role change carries a role-change body (the method
  dereferences the result of its \<open>dynamic_cast\<close> unchecked), a start by user id -1, which also marks
  an empty room's host, comes from a member, and the frame counter of a running game has room for
  one more tick (\<open>frame_id++\<close> on an \<open>int\<close>). The logic server establishes the first two (theory
  \<open>Logic_Handlers\<close>). Of those only the room itself calls: a resize does not shrink, a host is
  not taken away from members, and the start of a game is announced to members.
\<close>

datatype room_event =
    EvJoinRoom string int
  | EvJoinGame int
  | EvReconnect int
  | EvLeave int
  | EvLeaveFromRoom int
  | EvLeaveFromGame int
  | EvChangeRole Message
  | EvOperate Message
  | EvStartGame int
  | EvEndGame
  | EvOffline int
  | EvOnline int
  | EvTick
  | EvNotifyJoinGame int
  | EvResize int
  | EvKickFromGame
  | EvKickFromRoom
  | EvChangeHost int
  | EvInfo int
  | EvInfoToAll
  | EvNotifyStartTo int
  | EvNotifyStart
  | EvNotifyEnd
  | EvNotifyQuitGame int

fun room_apply :: "Config \<Rightarrow> room_event \<Rightarrow> Room \<Rightarrow> Room" where
  "room_apply cfg (EvJoinRoom name u) r = snd (Room_JoinRoom name u r)"
| "room_apply cfg (EvJoinGame u) r = Room_JoinGame u r"
| "room_apply cfg (EvReconnect u) r = Room_Reconnect u r"
| "room_apply cfg (EvLeave u) r = Room_Leave u r"
| "room_apply cfg (EvLeaveFromRoom u) r = Room_LeaveFromRoom u r"
| "room_apply cfg (EvLeaveFromGame u) r = Room_LeaveFromGame u r"
| "room_apply cfg (EvChangeRole m) r = Room_UserInfoChange m r"
| "room_apply cfg (EvOperate m) r = Room_OnUserOperate m r"
| "room_apply cfg (EvStartGame u) r = Room_StartGame u r"
| "room_apply cfg EvEndGame r = Room_EndGame r"
| "room_apply cfg (EvOffline u) r = SetUserOffline u r"
| "room_apply cfg (EvOnline u) r = SetUserOnline u r"
| "room_apply cfg EvTick r = snd (Room_Tick cfg r)"
| "room_apply cfg (EvNotifyJoinGame u) r = NotifyUserJoinGame u r"
| "room_apply cfg (EvResize n) r = Resize n r"
| "room_apply cfg EvKickFromGame r = KickAllUserFromGame r"
| "room_apply cfg EvKickFromRoom r = KickAllUserFromRoom r"
| "room_apply cfg (EvChangeHost u) r = ChangeRoomHost u r"
| "room_apply cfg (EvInfo u) r = SendRoomAllInfo u r"
| "room_apply cfg EvInfoToAll r = SendRoomAllInfoToAll r"
| "room_apply cfg (EvNotifyStartTo u) r = NotifyGameStartToUser u r"
| "room_apply cfg EvNotifyStart r = NotifyGameStart r"
| "room_apply cfg EvNotifyEnd r = NotifyGameEnd r"
| "room_apply cfg (EvNotifyQuitGame u) r = NotifyUserQuitGame u r"

text \<open>A call that ran into undefined behaviour is a fault of the machine.\<close>

definition room_step :: "Config \<Rightarrow> room_event \<Rightarrow> Room \<Rightarrow> Room res" where
  "room_step cfg e r =
     (case room_fault (room_apply cfg e r) of
        Some f \<Rightarrow> Inl f
      | None \<Rightarrow> Inr (room_apply cfg e r))"

fun room_ok :: "Room \<Rightarrow> room_event \<Rightarrow> bool" where
  "room_ok r (EvChangeRole m) =
     (om_has (m_userid (m_head m)) (userid2userpid r) \<longrightarrow>
       (case msg_object m of Some (B_ChangeRole q) \<Rightarrow> True | _ \<Rightarrow> False))"
| "room_ok r (EvStartGame u) = (u = -1 \<longrightarrow> om_has u (userid2userpid r))"
| "room_ok r EvTick = ticks_on r"
| "room_ok r (EvResize n) = (m_size r \<le> n \<and> int32 (n + 1))"
| "room_ok r (EvChangeHost u) = (u = -1 \<longrightarrow> userid2userpid r = [] \<or> om_has u (userid2userpid r))"
| "room_ok r (EvNotifyStartTo u) = om_has u (userid2userpid r)"
| "room_ok r _ = True"

definition frames_ok :: "Config \<Rightarrow> Room \<Rightarrow> bool" where
  "frames_ok cfg r \<longleftrightarrow> 0 \<le> frame_id r \<and> int32 (frame_id r) \<and>
     (IS_CHASE_FRAME cfg \<longrightarrow> map fr_frame_id (all_frames r) = [1..frame_id r])"

definition room_inv :: "Config \<Rightarrow> Room \<Rightarrow> bool" where
  "room_inv cfg r \<longleftrightarrow> room_wf r \<and> game_on r \<and> 0 \<le> m_size r \<and> frames_ok cfg r"

definition fresh_room :: "Room \<Rightarrow> bool" where
  "fresh_room r \<longleftrightarrow> (\<exists>rid name sz rng. 0 \<le> sz \<and> r = Room_new rid name sz rng)"

section \<open>A new room\<close>

lemma set_fold_os_ins [simp]: "set (fold os_ins xs ys) = set xs \<union> set ys"
  by (induction xs arbitrary: ys) auto

lemma os_wf_fold_ins [simp]: "os_wf ys \<Longrightarrow> os_wf (fold os_ins xs ys)"
  by (induction xs arbitrary: ys) auto

lemma set_pid_range [simp]: "set (pid_range sz) = {1..sz}"
  by (auto simp: pid_range_def)

lemma Room_new_wf: "room_wf (Room_new rid name sz rng)"
  by (simp add: room_wf_def Room_new_def om_keys_def)

lemma Room_new_inv: "0 \<le> sz \<Longrightarrow> room_inv cfg (Room_new rid name sz rng)"
  by (simp add: room_inv_def Room_new_wf) (simp add: Room_new_def game_on_def frames_ok_def int32_def)

section \<open>Frames\<close>

lemma room_inv_quiet:
  "room_inv cfg r \<Longrightarrow> room_wf r' \<Longrightarrow> game_on r' \<Longrightarrow> m_size r' = m_size r \<Longrightarrow>
     frame_id r' = frame_id r \<Longrightarrow> all_frames r' = all_frames r \<Longrightarrow> room_inv cfg r'"
  by (simp add: room_inv_def frames_ok_def)

lemma LeaveFromRoom_frames:
  assumes "room_wf r"
  shows "frame_id (Room_LeaveFromRoom u r) = frame_id r \<and>
     all_frames (Room_LeaveFromRoom u r) = all_frames r"
proof (cases "om_has u (userid2userpid r)")
  case False
  with assms show ?thesis by (simp add: Room_LeaveFromRoom_outsider room_send_def)
next
  case True
  have "room_wf (remove_member u (Room_LeaveFromGame u r))"
    using LeaveFromGame_spec [OF assms, of u] True
    by (intro room_wf_remove_member) (simp_all add: game_frame_def)
  then show ?thesis
    using LeaveFromGame_spec [OF assms, of u]
    by (simp add: Room_LeaveFromRoom_member [OF assms True] SendRoomAllInfoToAll_wf)
      (simp add: remove_member_def game_frame_def)
qed

lemma JoinRoom_frames:
  assumes wf: "room_wf r" and sz: "0 \<le> m_size r"
  shows "frame_id (snd (Room_JoinRoom name u r)) = frame_id r \<and>
     all_frames (snd (Room_JoinRoom name u r)) = all_frames r"
proof (cases "m_gameStarted r \<or> IsFull r \<or> om_has u (userid2userpid r)")
  case True
  then show ?thesis by (simp add: Room_JoinRoom_refused room_send_def)
next
  case False
  have "room_wf (add_member name u (hd (userpid_pool r)) r)"
    using False pool_nonempty [OF wf sz] by (intro room_wf_add_member [OF wf]) auto
  then show ?thesis
    using False by (simp add: Room_JoinRoom_ok [OF wf sz] Let_def room_send_def
        SendRoomAllInfoToAll_wf) (simp add: add_member_def)
qed

lemma NotifyUserJoinGame_frames:
  "frame_id (NotifyUserJoinGame u r) = frame_id r \<and>
   all_frames (NotifyUserJoinGame u r) = all_frames r"
  by (simp add: NotifyUserJoinGame_def add_operate_def)

lemma StartGame_frames:
  assumes "room_wf r" "frames_ok cfg r"
  shows "frames_ok cfg (Room_StartGame u r)"
proof (cases "m_gameStarted r \<or> u \<noteq> host_userid r")
  case True
  with assms show ?thesis by (auto simp: Room_StartGame_def)
next
  case False
  with assms show ?thesis
    by (simp add: Room_StartGame_host SendRoomAllInfoToAll_wf started_room_wf started_room_fields
        frames_ok_def int32_def)
qed

lemma Tick_frames:
  assumes "frames_ok cfg r" "ticks_on r"
  shows "frames_ok cfg (snd (Room_Tick cfg r))"
proof (cases "m_gameStarted r")
  case True
  have "[1..frame_id r + 1] = [1..frame_id r] @ [frame_id r + 1]"
    using assms upto_rec2 [of 1 "frame_id r + 1"] by (simp add: frames_ok_def)
  with True assms show ?thesis
    by (simp add: ticks_on_def Room_Tick_started frames_ok_def next_frame_def)
next
  case False
  with assms show ?thesis by (simp add: Room_Tick_def)
qed

section \<open>Growing, kicking, announcing\<close>

lemma Resize_grow:
  assumes wf: "room_wf r" and n: "0 \<le> m_size r" "m_size r \<le> n"
  shows "Resize n r = r\<lparr>userpid_pool := fold os_ins [m_size r + 1..n] (userpid_pool r), m_size := n\<rparr>"
    "room_wf (Resize n r)"
proof -
  show eq: "Resize n r = r\<lparr>userpid_pool := fold os_ins [m_size r + 1..n] (userpid_pool r), m_size := n\<rparr>"
    using n by (simp add: Resize_def Let_def)
  have slots: "1 \<le> p \<and> p \<le> m_size r" if "om_get (userid2userpid r) u = Some p" for u p
    by (rule wf_slot_range [OF wf that])
  show "room_wf (Resize n r)"
    unfolding eq
  proof (rule room_wfI, goal_cases)
    case (7 u p)
    then show ?case using slots [of u p] n by auto
  next
    case (9 p)
    have "p \<in> set (userpid_pool r) \<or> m_size r < p \<and> p \<le> n \<longleftrightarrow>
        1 \<le> p \<and> p \<le> n \<and> (\<forall>u. om_get (userid2userpid r) u \<noteq> Some p)"
      using wf_pool [OF wf, of p] slots [of _ p] n by (cases "p \<le> m_size r") auto
    then show ?case by auto
  qed (use wf in \<open>auto simp: room_wf_def\<close>)
qed

lemma kick_from_game_inv:
  assumes "\<And>u s. room_inv cfg s \<Longrightarrow> room_inv cfg (Room_LeaveFromGame u s)"
  shows "room_inv cfg r \<Longrightarrow> room_inv cfg (kick_from_game us r)"
  using assms by (induction us arbitrary: r) auto

lemma ChangeRoomHost_wf:
  assumes "room_wf r" "u = -1 \<longrightarrow> userid2userpid r = [] \<or> om_has u (userid2userpid r)"
  shows "room_wf (ChangeRoomHost u r)"
  using assms by (auto simp: ChangeRoomHost_def room_wf_def)

lemma NotifyUserQuitGame_wf: "room_wf r \<Longrightarrow> room_wf (NotifyUserQuitGame u r)"
  by (simp add: NotifyUserQuitGame_def add_operate_def)

section \<open>Every call keeps the invariant\<close>

lemma room_step_safe:
  assumes inv: "room_inv cfg r" and ok: "room_ok r e"
  shows "room_inv cfg (room_apply cfg e r)"
proof -
  have wf: "room_wf r" "game_on r" "0 \<le> m_size r" "frames_ok cfg r"
    using inv by (simp_all add: room_inv_def)
  note quiet = room_inv_quiet [OF inv]
  have leave: "room_inv cfg (Room_LeaveFromRoom u s)" if "room_inv cfg s" for u s
    using that LeaveFromRoom_spec [of s u] LeaveFromRoom_game_on [of s u]
      LeaveFromRoom_frames [of s u] room_inv_quiet [OF that, of "Room_LeaveFromRoom u s"]
    by (simp add: room_inv_def)
  have quit: "room_inv cfg (Room_LeaveFromGame u s)" if "room_inv cfg s" for u s
    using that LeaveFromGame_spec [of s u] LeaveFromGame_game_on [of s u]
    by (intro room_inv_quiet [OF that]) (simp_all add: game_frame_def room_inv_def)
  show ?thesis
  proof (cases e)
    case (EvJoinRoom name u)
    obtain b r' where j: "Room_JoinRoom name u r = (b, r')" by fastforce
    have "room_inv cfg r'"
      using wf j JoinRoom_spec [OF wf(1,3) j] JoinRoom_game_on [OF wf(1,3) j]
        JoinRoom_frames [OF wf(1,3), of name u] by (intro quiet) simp_all
    with j EvJoinRoom show ?thesis by simp
  next
    case (EvJoinGame u)
    with wf JoinGame_spec [of r u] JoinGame_game_on [of r u] show ?thesis
      by (intro quiet) simp_all
  next
    case (EvReconnect u)
    with wf Reconnect_spec [of r u] show ?thesis by (intro quiet) simp_all
  next
    case (EvChangeRole m)
    have "\<exists>q. msg_object m = Some (B_ChangeRole q)"
      if "om_has (m_userid (m_head m)) (userid2userpid r)"
      using ok that EvChangeRole by (auto split: option.splits proto_body.splits)
    from UserInfoChange_spec [OF wf(1) this] EvChangeRole wf(2) show ?thesis
      by (intro quiet) simp_all
  next
    case (EvOperate m)
    with wf OnUserOperate_spec [of r m] show ?thesis by (intro quiet) simp_all
  next
    case (EvStartGame u)
    have "game_on (Room_StartGame u r)"
      using wf ok EvStartGame wf_host(1) [OF wf(1)]
      by (intro StartGame_game_on) (cases "host_userid r = -1"; auto)+
    with EvStartGame wf StartGame_spec [of r u] StartGame_frames [of r cfg u] show ?thesis
      by (simp add: room_inv_def)
  next
    case EvEndGame
    with wf EndGame_spec [of r] EndGame_game_on [of r] show ?thesis
      by (intro quiet) (simp_all add: game_frame_def)
  next
    case (EvOffline u)
    with wf SetUserOffline_spec [of r u] show ?thesis by (intro quiet) simp_all
  next
    case (EvOnline u)
    with wf show ?thesis
      by (intro quiet) (simp_all add: SetUserOnline_def game_on_def room_wf_offline room_wfD)
  next
    case EvTick
    with wf ok Tick_spec [of r cfg] Tick_frames [of cfg r] show ?thesis
      by (simp add: room_inv_def)
  next
    case (EvNotifyJoinGame u)
    with wf NotifyUserJoinGame_spec [of r u] NotifyUserJoinGame_frames [of u r] show ?thesis
      by (intro quiet) simp_all
  next
    case (EvResize n)
    with wf ok Resize_grow [of r n] show ?thesis
      by (simp add: room_inv_def game_on_def frames_ok_def)
  next
    case EvKickFromGame
    then show ?thesis using kick_from_game_inv [OF quit inv] by (simp add: KickAllUserFromGame_def)
  next
    case EvKickFromRoom
    have "room_inv cfg (fold Room_LeaveFromRoom us r)" for us
      using inv leave by (induction us arbitrary: r) auto
    with EvKickFromRoom show ?thesis by (simp add: KickAllUserFromRoom_def)
  next
    case (EvChangeHost u)
    with wf ok ChangeRoomHost_wf [of r u] show ?thesis
      by (intro quiet) (simp_all add: ChangeRoomHost_def game_on_def)
  next
    case (EvInfo u)
    with wf show ?thesis by (intro quiet) (simp_all add: SendRoomAllInfo_wf room_send_def game_on_def)
  next
    case EvInfoToAll
    with wf show ?thesis by (intro quiet) (simp_all add: SendRoomAllInfoToAll_wf game_on_def)
  next
    case (EvNotifyStartTo u)
    with wf ok show ?thesis
      by (intro quiet) (simp_all add: NotifyGameStartToUser_member room_send_def game_on_def)
  next
    case EvNotifyStart
    with wf show ?thesis by (intro quiet) (simp_all add: NotifyGameStart_outbox game_on_def)
  next
    case EvNotifyEnd
    with wf show ?thesis by (intro quiet) (simp_all add: NotifyGameEnd_outbox game_on_def)
  next
    case (EvNotifyQuitGame u)
    with wf NotifyUserQuitGame_wf [of r u] show ?thesis
      by (intro quiet) (simp_all add: NotifyUserQuitGame_def add_operate_def game_on_def)
  qed (simp_all add: leave quit inv Room_Leave_def)
qed

text \<open>The destructor of a room in any of these states.\<close>

lemma room_inv_destroy:
  "room_inv cfg r \<Longrightarrow> room_fault (Room_destroy r) = None \<and> userid2userpid (Room_destroy r) = []"
  using Room_destroy_spec [of r] by (simp add: room_inv_def room_wfD)

interpretation rm: total_machine fresh_room "room_step cfg" "room_inv cfg" room_ok
proof
  show "room_inv cfg r" if "fresh_room r" for r
    using that by (auto simp: fresh_room_def Room_new_inv)
  show "room_inv cfg r'" if "room_inv cfg r" "room_ok r e" "room_step cfg e r = Inr r'" for r e r'
    using that room_step_safe [of cfg r e] by (simp add: room_step_def split: option.splits)
  show "\<exists>r'. room_step cfg e r = Inr r'" if "room_inv cfg r" "room_ok r e" for r e
    using room_step_safe [OF that] by (simp add: room_step_def room_inv_def room_wfD)
qed

end
