(* ===== verification/ServerBase.thy ===== *)
theory ServerBase
  imports Room_Machine
begin

text \<open>
  The base class of every server: \<open>src/Header/Server/ServerBase.h\<close>,
  \<open>src/Source/ServerBase.cpp\<close> (built without \<open>MULTI_THREAD\<close>) and \<open>src/Tool/Timer.cpp\<close>.

  A server object is the record \<open>ServerBase\<close>; the subclasses extend the record, so an operation
  of this theory applies to all of them. Virtual methods are arguments: \<open>close\<close> is the dynamic
  \<open>CloseClientSocket\<close>, \<open>handler\<close> the dynamic \<open>OnMsgBodyAnalysised\<close>. Since
  \<open>SendMsg\<close> closes a socket it cannot send to, and closing one sends to the center server,
  \<open>close\<close> reaches itself through them; theory \<open>Virtual_Close\<close> ties that knot.

  Everything outside the process is the argument \<open>world\<close>: the constants, the protobuf codec and
  \<open>os\<close>, the answers of the system calls, each indexed by how many system calls the process has
  made before (\<open>io_clock\<close>), so that any behaviour of the network is some \<open>os\<close>. \<open>net_log\<close> records
  what the process did to the outside: packets sent and sockets closed.

  A connection carries the identity of its \<open>RingBuffer\<close> allocation (\<open>next_buf\<close> counts them), so
  that a buffer used after its connection was closed is seen, even when the descriptor is in use
  again.
\<close>

section \<open>Timers\<close>

record Timer =
  m_interval :: int
  m_preTime :: int
  m_onceFlag :: bool
  m_already :: bool
  m_callbackType :: CallbackType

definition Timer_new :: "int \<Rightarrow> CallbackType \<Rightarrow> Timer" where
  "Timer_new interval type =
     \<lparr>m_interval = interval, m_preTime = 0, m_onceFlag = False, m_already = False,
      m_callbackType = type\<rparr>"

definition Timer_Start :: "Timer \<Rightarrow> Timer" where
  "Timer_Start t = t\<lparr>m_already := True\<rparr>"

definition Timer_SetOnce :: "Timer \<Rightarrow> Timer" where
  "Timer_SetOnce t = t\<lparr>m_onceFlag := True\<rparr>"

definition Timer_Stop :: "Timer \<Rightarrow> Timer" where
  "Timer_Stop t = t\<lparr>m_already := False\<rparr>"

text \<open>The first half of \<open>Tick\<close>: whether the callback runs, and the timer it runs under.\<close>

definition Timer_due :: "int \<Rightarrow> Timer \<Rightarrow> Timer option" where
  "Timer_due now t =
     (if \<not> m_already t then None
      else if now - m_preTime t \<ge> m_interval t
           then Some (if m_onceFlag t then Timer_Stop t else t)
           else None)"

section \<open>The world of a process\<close>

datatype recv_end = PeerClosed | WouldBlock | RecvError

text \<open>\<open>os_recv\<close> is what the successive \<open>recv\<close> calls of one event yield: the chunks with data, then
  how the reading ends. \<open>os_stale_errno\<close> is whether \<open>errno\<close>, which a successful call leaves alone,
  reads as \<open>EAGAIN\<close> or \<open>EWOULDBLOCK\<close>; \<open>os_garbage\<close> is what the uninitialised members of a local
  object hold, by member.\<close>

record os =
  os_socket :: "nat \<Rightarrow> int option"
  os_setsockopt :: "nat \<Rightarrow> bool"
  os_bind :: "nat \<Rightarrow> int \<Rightarrow> bool"
  os_listen :: "nat \<Rightarrow> bool"
  os_accept :: "nat \<Rightarrow> int option"
  os_inet_pton :: "string \<Rightarrow> bool"
  os_connect :: "nat \<Rightarrow> string \<Rightarrow> int \<Rightarrow> bool"
  os_epoll_create :: "nat \<Rightarrow> int option"
  os_epoll_add :: "nat \<Rightarrow> int \<Rightarrow> bool"
  os_epoll_wait :: "nat \<Rightarrow> (int \<times> bool \<times> bool \<times> bool) list option"
  os_recv :: "nat \<Rightarrow> int \<Rightarrow> byte list list \<times> recv_end"
  os_stale_errno :: "nat \<Rightarrow> bool"
  os_send :: "nat \<Rightarrow> int \<Rightarrow> byte list \<Rightarrow> bool"
  os_time :: "nat \<Rightarrow> int"
  os_random :: "nat \<Rightarrow> u32"
  os_local_ips :: "nat \<Rightarrow> string \<times> string"
  os_garbage :: "nat \<Rightarrow> nat \<Rightarrow> int"

record world =
  w_cfg :: Config
  w_pb :: protobuf
  w_os :: os
  w_retries :: nat

datatype net_event =
    Sent int "byte list"
  | SendFailed int
  | OsClosed int

record ServerBase =
  listen_fd :: int
  center_server_client :: int
  listen_port :: int
  listen_ip :: string
  listen_name :: string
  server_type :: SERVER_TYPE
  connections :: "(nat \<times> RingBuffer) omap"
  epoll_fd :: int
  m_callfuncList :: "Timer list"
  conns_count :: int
  next_buf :: nat
  io_clock :: nat
  net_log :: "net_event list"

definition ServerBase_new :: "SERVER_TYPE \<Rightarrow> ServerBase" where
  "ServerBase_new type =
     \<lparr>listen_fd = -1, center_server_client = -1, listen_port = -1, listen_ip = ''127.0.0.1'',
      listen_name = '''', server_type = type, connections = [], epoll_fd = -1,
      m_callfuncList = [], conns_count = 0, next_buf = 0, io_clock = 0, net_log = []\<rparr>"

definition io_tick :: "'a ServerBase_scheme \<Rightarrow> 'a ServerBase_scheme" where
  "io_tick s = s\<lparr>io_clock := Suc (io_clock s)\<rparr>"

definition net_do :: "net_event \<Rightarrow> 'a ServerBase_scheme \<Rightarrow> 'a ServerBase_scheme" where
  "net_do e s = io_tick (s\<lparr>net_log := net_log s @ [e]\<rparr>)"

definition os_close :: "int \<Rightarrow> 'a ServerBase_scheme \<Rightarrow> 'a ServerBase_scheme" where
  "os_close fd s = net_do (OsClosed fd) s"

text \<open>\<open>connections[fd] = new RingBuffer()\<close>.\<close>

definition new_connection :: "world \<Rightarrow> int \<Rightarrow> 'a ServerBase_scheme \<Rightarrow> 'a ServerBase_scheme" where
  "new_connection w fd s =
     s\<lparr>connections := om_upd fd (next_buf s, RingBuffer_new (w_cfg w)) (connections s),
       next_buf := Suc (next_buf s)\<rparr>"

text \<open>The wall clock in milliseconds.\<close>

definition getCurrentTime :: "world \<Rightarrow> 'a ServerBase_scheme \<Rightarrow> int \<times> 'a ServerBase_scheme" where
  "getCurrentTime w s = (os_time (w_os w) (io_clock s), io_tick s)"

definition AddEventToEpoll ::
  "world \<Rightarrow> int \<Rightarrow> 'a ServerBase_scheme \<Rightarrow> int \<times> 'a ServerBase_scheme" where
  "AddEventToEpoll w fd s =
     (if os_epoll_add (w_os w) (io_clock s) fd then 1 else -1, io_tick s)"

definition CreateEpoll :: "world \<Rightarrow> 'a ServerBase_scheme \<Rightarrow> int \<times> 'a ServerBase_scheme" where
  "CreateEpoll w s =
     (case os_epoll_create (w_os w) (io_clock s) of
        None \<Rightarrow> (-1, (io_tick s)\<lparr>epoll_fd := -1\<rparr>)
      | Some fd \<Rightarrow> (1, (io_tick s)\<lparr>epoll_fd := fd\<rparr>))"

definition TransformType :: "SERVER_TYPE \<Rightarrow> int" where
  "TransformType type =
     (if type = GATE then 2 else if type = LOGIC then 3 else if type = DATABASE then 4
      else if type = CENTER then 1 else if type = NONE then 0 else 5)"

section \<open>Sending and closing\<close>

type_synonym 's closer = "int \<Rightarrow> 's \<Rightarrow> 's res"

definition SendMsg ::
  "world \<Rightarrow> 'a ServerBase_scheme closer \<Rightarrow> Message \<Rightarrow> int \<Rightarrow> 'a ServerBase_scheme \<Rightarrow>
     (bool \<times> 'a ServerBase_scheme) res" where
  "SendMsg w close msg fd s =
     (if om_has fd (connections s) then
        let size = m_packageSize (m_head msg) in
        if size > MAX_BUFFER_SIZE (w_cfg w) then Inr (False, s)
        else bindF (Message_SerializeToArray (w_cfg w) (w_pb w) msg (replicate (nat size) 0) size)
               (\<lambda>(ok, resp).
                  if \<not> ok then Inr (False, s)
                  else if \<not> os_send (w_os w) (io_clock s) fd resp
                  then bindF (close fd (net_do (SendFailed fd) s)) (\<lambda>s'. Inr (False, s'))
                  else Inr (True, net_do (Sent fd resp) s))
      else Inr (False, s))"

definition SendToCenterServerConnChange ::
  "world \<Rightarrow> 'a ServerBase_scheme closer \<Rightarrow> int \<Rightarrow> string \<Rightarrow> int \<Rightarrow> int \<Rightarrow>
     'a ServerBase_scheme \<Rightarrow> 'a ServerBase_scheme res" where
  "SendToCenterServerConnChange w close type ip port change s =
     bindF (SendMsg w close
              (make_message (w_cfg w) (w_pb w) ServerConnChange 0
                 (B_ServerConnChange (new_ServerConnChange\<lparr>sc_ip := ip, sc_port := port,
                    sc_change := change, sc_type := type\<rparr>)))
              (center_server_client s) s)
       (\<lambda>(ok, s'). Inr s')"

definition SendConnsChange ::
  "world \<Rightarrow> 'a ServerBase_scheme closer \<Rightarrow> int \<Rightarrow> string \<Rightarrow> int \<Rightarrow> int \<Rightarrow>
     'a ServerBase_scheme \<Rightarrow> 'a ServerBase_scheme res" where
  "SendConnsChange w close type ip port change s =
     (let s1 = s\<lparr>conns_count := conns_count s + change\<rparr> in
      if type \<noteq> 1 then
        SendToCenterServerConnChange w close (TransformType (server_type s1)) (listen_ip s1)
          (listen_port s1) (conns_count s1) s1
      else Inr s1)"

definition ServerBase_CloseClientSocket ::
  "world \<Rightarrow> 'a ServerBase_scheme closer \<Rightarrow> 'a ServerBase_scheme closer" where
  "ServerBase_CloseClientSocket w close fd s =
     (if om_has fd (connections s) then
        let s1 = os_close fd (s\<lparr>connections := om_del fd (connections s)\<rparr>) in
        SendConnsChange w close (TransformType (server_type s1)) (listen_ip s1) (listen_port s1)
          (-1) s1
      else Inr s)"

definition ServerBase_CloseServer :: "'a ServerBase_scheme \<Rightarrow> 'a ServerBase_scheme" where
  "ServerBase_CloseServer s = (if listen_fd s > 0 then os_close (listen_fd s) s else s)"

section \<open>Receiving\<close>

text \<open>The base \<open>OnMsgBodyAnalysised\<close> builds the body for the head's type and parses into it; a parse
  error is only logged. \<open>body\<close> is what the pointer reads on.\<close>

definition ServerBase_OnMsgBodyAnalysised ::
  "world \<Rightarrow> Message \<Rightarrow> byte list \<Rightarrow> u32 \<Rightarrow> Message res" where
  "ServerBase_OnMsgBodyAnalysised w msg body len =
     bindF (MessageBody_ParseFromArray (w_pb w)
              (CreateMessageBody (m_packageType (m_head msg))) body (sint len))
       (\<lambda>(ok, mb). Inr (msg\<lparr>m_body := Some mb\<rparr>))"

type_synonym 's msg_handler = "Message \<Rightarrow> byte list \<Rightarrow> u32 \<Rightarrow> int \<Rightarrow> 's \<Rightarrow> 's res"

text \<open>
  The framing loop. \<open>recv\<close> is what the read pointer has in front of it, \<open>buffer_size\<close> the unsigned
  count the loop keeps. Each round consumes at least a head, so the length of the contents is
  fuel enough.
\<close>

fun frame_loop ::
  "nat \<Rightarrow> world \<Rightarrow> 's msg_handler \<Rightarrow> byte list \<Rightarrow> u32 \<Rightarrow> int \<Rightarrow> 's \<Rightarrow> 's res" where
  "frame_loop 0 w handler recv buffer_size fd s = Inl NonTermination"
| "frame_loop (Suc n) w handler recv buffer_size fd s =
     (if buffer_size < word_of_int (HEAD_SIZE (w_cfg w)) then Inr s
      else bindF (MessageHead_parse (w_cfg w) recv (HEAD_SIZE (w_cfg w))) (\<lambda>head.
             if CheckHeaderIsValid (w_cfg w) head
             then bindF (handler \<lparr>m_head = head, m_body = None\<rparr>
                           (drop (nat (HEAD_SIZE (w_cfg w))) recv)
                           (word_of_int (m_packageSize head - HEAD_SIZE (w_cfg w))) fd s)
                    (\<lambda>s'. frame_loop n w handler (drop (nat (m_packageSize head)) recv)
                            (buffer_size - word_of_int (m_packageSize head)) fd s')
             else frame_loop n w handler recv 0 fd s))"

text \<open>The buffer of the call, by its allocation.\<close>

definition buffer_of :: "int \<Rightarrow> nat \<Rightarrow> 'a ServerBase_scheme \<Rightarrow> RingBuffer res" where
  "buffer_of fd i s =
     (case om_get (connections s) fd of
        None \<Rightarrow> Inl UseAfterFree
      | Some (j, rb) \<Rightarrow> if i = j then Inr rb else Inl UseAfterFree)"

definition set_buffer :: "int \<Rightarrow> nat \<Rightarrow> RingBuffer \<Rightarrow> 'a ServerBase_scheme \<Rightarrow> 'a ServerBase_scheme"
where
  "set_buffer fd i rb s = s\<lparr>connections := om_upd fd (i, rb) (connections s)\<rparr>"

definition HandleReceivedMsg ::
  "world \<Rightarrow> 'a ServerBase_scheme msg_handler \<Rightarrow> nat \<Rightarrow> int \<Rightarrow>
     'a ServerBase_scheme \<Rightarrow> 'a ServerBase_scheme res" where
  "HandleReceivedMsg w handler i fd s =
     bindF (buffer_of fd i s) (\<lambda>rb.
     bindF (GetBuffer (w_cfg w) (GetCapacity rb) rb) (\<lambda>recv.
     bindF (frame_loop (length recv + 2) w handler recv (GetCapacity rb) fd s) (\<lambda>s'.
     bindF (buffer_of fd i s') (\<lambda>rb'.
       Inr (set_buffer fd i (snd (PopBuffer (w_cfg w) (GetCapacity rb') rb')) s')))))"

text \<open>The reading loop: chunks go into the buffer until one does not fit.\<close>

fun recv_loop :: "world \<Rightarrow> byte list list \<Rightarrow> RingBuffer \<Rightarrow> (bool \<times> RingBuffer) res" where
  "recv_loop w [] rb = Inr (True, rb)"
| "recv_loop w (c # cs) rb =
     bindF (AddBuffer (w_cfg w) c rb) (\<lambda>(ok, rb').
       if ok then recv_loop w cs rb' else Inr (False, rb'))"

definition HandleConnEvent ::
  "world \<Rightarrow> 'a ServerBase_scheme closer \<Rightarrow> 'a ServerBase_scheme msg_handler \<Rightarrow> int \<Rightarrow>
     'a ServerBase_scheme \<Rightarrow> 'a ServerBase_scheme res" where
  "HandleConnEvent w close handler conn_fd s =
     (case om_get (connections s) conn_fd of
        None \<Rightarrow> Inr s
      | Some (i, rb) \<Rightarrow>
          let (chunks, fin) = os_recv (w_os w) (io_clock s) conn_fd in
          bindF (recv_loop w chunks rb) (\<lambda>(fits, rb').
            let s1 = set_buffer conn_fd i rb' (io_tick s);
                again = (if fits then fin = WouldBlock
                         else os_stale_errno (w_os w) (io_clock s))
            in if fits \<and> fin = PeerClosed then close conn_fd s1
               else if again then HandleReceivedMsg w handler i conn_fd s1
               else close conn_fd s1))"

definition HandleListenerEvent ::
  "world \<Rightarrow> 'a ServerBase_scheme closer \<Rightarrow> int \<Rightarrow>
     'a ServerBase_scheme \<Rightarrow> 'a ServerBase_scheme res" where
  "HandleListenerEvent w close fd s =
     (if fd = listen_fd s then
        (case os_accept (w_os w) (io_clock s) of
           None \<Rightarrow> Inr (io_tick s)
         | Some conn_fd \<Rightarrow>
             bindF (SendConnsChange w close (TransformType (server_type s)) (listen_ip s)
                      (listen_port s) 1 (io_tick s)) (\<lambda>s1.
               let (r, s2) = AddEventToEpoll w conn_fd s1 in
               if r = -1 then close conn_fd s2 else Inr (new_connection w conn_fd s2)))
      else Inr s)"

section \<open>Connecting, listening and the event loop\<close>

text \<open>The socket goes to the caller's variable: the result carries it with the outcome. A failed
  call leaves -1 there.\<close>

definition ConnectToOtherServer ::
  "world \<Rightarrow> string \<Rightarrow> int \<Rightarrow> 'a ServerBase_scheme \<Rightarrow> bool \<times> int \<times> 'a ServerBase_scheme" where
  "ConnectToOtherServer w ip port s =
     (case os_socket (w_os w) (io_clock s) of
        None \<Rightarrow> (False, -1, io_tick s)
      | Some fd \<Rightarrow>
          if \<not> os_inet_pton (w_os w) ip then (False, -1, io_tick s)
          else if \<not> os_connect (w_os w) (io_clock (io_tick s)) ip port
          then (False, -1, io_tick (io_tick s))
          else (True, fd, io_tick (io_tick s)))"

definition StartListener :: "world \<Rightarrow> int \<Rightarrow> 'a ServerBase_scheme \<Rightarrow> int \<times> 'a ServerBase_scheme" where
  "StartListener w port s =
     (case os_socket (w_os w) (io_clock s) of
        None \<Rightarrow> (-1, (io_tick s)\<lparr>listen_fd := -1\<rparr>)
      | Some fd \<Rightarrow>
          let s1 = (io_tick s)\<lparr>listen_fd := fd\<rparr> in
          if \<not> os_setsockopt (w_os w) (io_clock s1) then (-1, io_tick s1)
          else let s2 = io_tick s1 in
          if \<not> os_bind (w_os w) (io_clock s2) port then (-1, os_close fd (io_tick s2))
          else let s3 = io_tick s2 in
          if \<not> os_listen (w_os w) (io_clock s3) then (-1, os_close fd (io_tick s3))
          else (1, io_tick s3))"

text \<open>One timer of the list, and all of them in turn. \<open>callback\<close> dispatches on the timer's type.\<close>

definition Timer_Tick ::
  "world \<Rightarrow> (CallbackType \<Rightarrow> 'a ServerBase_scheme \<Rightarrow> 'a ServerBase_scheme res) \<Rightarrow> nat \<Rightarrow>
     'a ServerBase_scheme \<Rightarrow> 'a ServerBase_scheme res" where
  "Timer_Tick w callback i s =
     (let t = m_callfuncList s ! i in
      if \<not> m_already t then Inr s
      else let (now, s1) = getCurrentTime w s in
        case Timer_due now t of
          None \<Rightarrow> Inr s1
        | Some t1 \<Rightarrow>
            bindF (callback (m_callbackType t)
                     (s1\<lparr>m_callfuncList := (m_callfuncList s1)[i := t1]\<rparr>)) (\<lambda>s2.
              Inr (s2\<lparr>m_callfuncList :=
                        (m_callfuncList s2)[i := (m_callfuncList s2 ! i)\<lparr>m_preTime := now\<rparr>]\<rparr>)))"

definition FireEvent ::
  "world \<Rightarrow> (CallbackType \<Rightarrow> 'a ServerBase_scheme \<Rightarrow> 'a ServerBase_scheme res) \<Rightarrow>
     'a ServerBase_scheme \<Rightarrow> 'a ServerBase_scheme res" where
  "FireEvent w callback s =
     foldF (Timer_Tick w callback) [0..<length (m_callfuncList s)] s"

text \<open>The methods a class overrides.\<close>

record 's virtuals =
  v_close :: "int \<Rightarrow> 's \<Rightarrow> 's res"
  v_handler :: "Message \<Rightarrow> byte list \<Rightarrow> u32 \<Rightarrow> int \<Rightarrow> 's \<Rightarrow> 's res"
  v_callback :: "CallbackType \<Rightarrow> 's \<Rightarrow> 's res"
  v_on_start :: "'s \<Rightarrow> (bool \<times> 's) res"

definition epoll_event ::
  "world \<Rightarrow> 'a ServerBase_scheme virtuals \<Rightarrow> int \<times> bool \<times> bool \<times> bool \<Rightarrow>
     'a ServerBase_scheme \<Rightarrow> 'a ServerBase_scheme res" where
  "epoll_event w v ev s =
     (case ev of (conn_fd, epollin, epollerr, epollhup) \<Rightarrow>
        bindF (if epollin
               then (if conn_fd = listen_fd s then HandleListenerEvent w (v_close v) conn_fd s
                     else HandleConnEvent w (v_close v) (v_handler v) conn_fd s)
               else Inr s) (\<lambda>s1.
        bindF (if epollerr then v_close v conn_fd s1 else Inr s1) (\<lambda>s2.
          if epollhup then v_close v conn_fd s2 else Inr s2)))"

text \<open>One turn of the server's endless loop; \<open>False\<close> when \<open>epoll_wait\<close> failed and the loop ends.\<close>

definition server_turn ::
  "world \<Rightarrow> 'a ServerBase_scheme virtuals \<Rightarrow>
     'a ServerBase_scheme \<Rightarrow> (bool \<times> 'a ServerBase_scheme) res" where
  "server_turn w v s =
     (case os_epoll_wait (w_os w) (io_clock s) of
        None \<Rightarrow> Inr (False, io_tick s)
      | Some events \<Rightarrow>
          bindF (foldF (epoll_event w v) events (io_tick s)) (\<lambda>s1.
          bindF (FireEvent w (v_callback v) s1) (\<lambda>s2. Inr (True, s2))))"

text \<open>\<open>turns\<close> bounds how many turns are looked at: the loop itself only ends on an error.\<close>

fun server_loop ::
  "nat \<Rightarrow> world \<Rightarrow> 'a ServerBase_scheme virtuals \<Rightarrow>
     'a ServerBase_scheme \<Rightarrow> (bool \<times> 'a ServerBase_scheme) res" where
  "server_loop 0 w v s = Inr (True, s)"
| "server_loop (Suc n) w v s =
     bindF (server_turn w v s) (\<lambda>(go, s').
       if go then server_loop n w v s' else Inr (False, os_close (epoll_fd s') s'))"

definition BootServer ::
  "nat \<Rightarrow> world \<Rightarrow> 'a ServerBase_scheme virtuals \<Rightarrow> string \<Rightarrow> int \<Rightarrow> string \<Rightarrow>
     'a ServerBase_scheme \<Rightarrow> (bool \<times> 'a ServerBase_scheme) res" where
  "BootServer turns w v ip port name s =
     (let (nip, wip) = os_local_ips (w_os w) (io_clock s) in
      if nip \<noteq> ip \<and> wip \<noteq> ip then Inr (False, s)
      else let (r, s1) = StartListener w port (io_tick s) in
      if r = 1 then
        let s2 = s1\<lparr>listen_ip := ip, listen_port := port, listen_name := name\<rparr>;
            (e, s3) = CreateEpoll w s2
        in if e = -1 then Inr (False, os_close (listen_fd s3) s3)
           else let (a, s4) = AddEventToEpoll w (listen_fd s3) s3 in
             if a = -1 then Inr (False, os_close (listen_fd s4) s4)
             else bindF (v_on_start v s4) (\<lambda>(ok, s5).
               if \<not> ok then Inr (False, os_close (listen_fd s5) s5)
               else server_loop turns w v s5)
      else Inr (False, os_close (listen_fd s1) s1))"

end
