(* ===== verification/Message_Wire.thy ===== *)
theory Message_Wire
  imports Message_Codec
begin

text \<open>
  What a message is on the wire. \<open>packet_bytes\<close> is the layout (head, then the body's protobuf
  bytes); serialising into an array of the size the head announces writes exactly that, never
  faults and never fails for a size that is large enough, and parsing a packet gives the message
  back when the protobuf codec gives the body back.
\<close>

definition body_bytes :: "protobuf \<Rightarrow> proto_body option option \<Rightarrow> byte list" where
  "body_bytes pb body = (case body of Some (Some b) \<Rightarrow> pb_enc pb b | _ \<Rightarrow> [])"

definition packet_bytes :: "protobuf \<Rightarrow> Message \<Rightarrow> byte list" where
  "packet_bytes pb msg = head_bytes (m_head msg) @ body_bytes pb (m_body msg)"

lemma Message_length_bytes:
  "net_config_ok cfg \<Longrightarrow> Message_length cfg pb body = 12 + int (length (body_bytes pb body))"
  by (auto simp: Message_length_def MessageBody_length_def body_bytes_def net_config_ok_def
      split: option.splits)

lemma length_packet_bytes:
  "net_config_ok cfg \<Longrightarrow> int (length (packet_bytes pb msg)) = Message_length cfg pb (m_body msg)"
  by (simp add: packet_bytes_def Message_length_bytes)

lemma Message_Serialize_short:
  "len < Message_length cfg pb (m_body msg) \<Longrightarrow>
     Message_SerializeToArray cfg pb msg buffer len = Inr (False, buffer)"
  by (simp add: Message_SerializeToArray_def)

lemma Message_Serialize_fits:
  assumes cfg: "net_config_ok cfg" and len: "int (length buffer) = len"
    and fits: "Message_length cfg pb (m_body msg) \<le> len"
  shows "Message_SerializeToArray cfg pb msg buffer len =
     Inr (True, packet_bytes pb msg @ drop (length (packet_bytes pb msg)) buffer)"
proof -
  have "12 \<le> length buffer" and hs: "HEAD_SIZE cfg = 12"
    using cfg len fits by (simp_all add: Message_length_bytes net_config_ok_def)
  then have head: "SerailizeToArray cfg (m_head msg) buffer len =
      Inr (True, head_bytes (m_head msg) @ drop 12 buffer)"
    using cfg len by (intro SerailizeToArray_bytes) auto
  have room: "length (body_bytes pb (m_body msg)) \<le> length buffer - 12"
    using cfg len fits by (simp add: Message_length_bytes)
  consider (none) "m_body msg = None" | (null) "m_body msg = Some None"
    | (body) b where "m_body msg = Some (Some b)"
    by (cases "m_body msg"; cases "the (m_body msg)") auto
  then show ?thesis
  proof cases
    case body
    then have "int (length (pb_enc pb b)) \<le> len - 12" "12 + length (pb_enc pb b) \<le> length buffer"
      using room \<open>12 \<le> length buffer\<close> len by (auto simp: body_bytes_def)
    then show ?thesis
      using fits head body hs
      by (simp add: Message_SerializeToArray_def MessageBody_SerializeToArray_def copy_bytes_def
          packet_bytes_def body_bytes_def add.commute)
  qed (use fits head hs in \<open>simp_all add: Message_SerializeToArray_def packet_bytes_def
      body_bytes_def MessageBody_SerializeToArray_def\<close>)
qed

lemma Message_Serialize_total:
  assumes "net_config_ok cfg" "int (length buffer) = len"
  shows "\<exists>ok b. Message_SerializeToArray cfg pb msg buffer len = Inr (ok, b)"
  using Message_Serialize_short [of len cfg pb msg buffer] Message_Serialize_fits [OF assms, of pb msg]
  by (cases "len < Message_length cfg pb (m_body msg)") auto

text \<open>An array of \<open>size\<close> elements, as \<open>SendMsg\<close> declares it; a negative size holds nothing.\<close>

lemma Message_Serialize_array:
  assumes "net_config_ok cfg"
  shows "Message_SerializeToArray cfg pb msg (replicate (nat sz) 0) sz =
     (if sz < Message_length cfg pb (m_body msg) then Inr (False, replicate (nat sz) 0)
      else Inr (True, packet_bytes pb msg @
                      replicate (nat sz - length (packet_bytes pb msg)) 0))"
proof (cases "sz < Message_length cfg pb (m_body msg)")
  case False
  then have "0 \<le> sz"
    using assms by (simp add: Message_length_bytes)
  with False assms show ?thesis
    by (simp add: Message_Serialize_fits)
qed (simp add: Message_Serialize_short)

lemma make_message_fields [simp]:
  "m_packageSize (m_head (make_message cfg pb ty uid b)) = Message_length cfg pb (Some (Some b))"
  "m_packageType (m_head (make_message cfg pb ty uid b)) = bodytype_code ty"
  "m_userid (m_head (make_message cfg pb ty uid b)) = uid"
  "m_body (make_message cfg pb ty uid b) = Some (Some b)"
  by (simp_all add: make_message_def)

lemma make_message_serialize:
  assumes "net_config_ok cfg"
  shows "Message_SerializeToArray cfg pb (make_message cfg pb ty uid b)
     (replicate (nat (Message_length cfg pb (Some (Some b)))) 0) (Message_length cfg pb (Some (Some b))) =
   Inr (True, packet_bytes pb (make_message cfg pb ty uid b))"
proof -
  have "int (length (packet_bytes pb (make_message cfg pb ty uid b))) =
      Message_length cfg pb (Some (Some b))"
    using length_packet_bytes [OF assms, of pb "make_message cfg pb ty uid b"] by simp
  then show ?thesis
    by (simp add: Message_Serialize_array [OF assms])
qed

section \<open>Reading a packet back\<close>

text \<open>The codec hypothesis, for one object and the default instance it is parsed into.\<close>

definition pb_recovers :: "protobuf \<Rightarrow> proto_body \<Rightarrow> proto_body \<Rightarrow> bool" where
  "pb_recovers pb p b \<longleftrightarrow> pb_dec pb p (pb_enc pb b) = (True, b)"

lemma CreateMessageBody_code [simp]: "CreateMessageBody (bodytype_code ty) = body_prototype ty"
  by (simp add: CreateMessageBody_def)

lemma DecodeMessage_packet:
  assumes cfg: "net_config_ok cfg" and h: "head_ok (m_head msg)"
    and p: "CreateMessageBody (m_packageType (m_head msg)) = Some p"
    and b: "m_body msg = Some (Some b)" "pb_recovers pb p b"
    and len: "len = Message_length cfg pb (m_body msg)"
  shows "DecodeMessage cfg pb (packet_bytes pb msg) len = Inr msg"
proof -
  have hs: "HEAD_SIZE cfg = 12" using cfg by (simp add: net_config_ok_def)
  have head: "MessageHead_parse cfg (packet_bytes pb msg) 12 = Inr (m_head msg)"
    unfolding packet_bytes_def using cfg h by (intro MessageHead_parse_bytes) auto
  have "len - 12 = int (length (pb_enc pb b))"
    using cfg b len by (simp add: Message_length_bytes body_bytes_def)
  then have "MessageBody_ParseFromArray pb (Some p) (drop 12 (packet_bytes pb msg)) (len - 12) =
      Inr (True, Some b)"
    using b by (simp add: MessageBody_ParseFromArray_def packet_bytes_def body_bytes_def
        pb_recovers_def)
  then show ?thesis
    using head hs p b(1) by (cases msg) (simp add: DecodeMessage_def)
qed

end
