(* ===== verification/Virtual_Close.thy ===== *)
theory Virtual_Close
  imports ServerBase Message_Wire
begin

text \<open>
  The recursion through the virtual \<open>CloseClientSocket\<close>. A class overrides it with a body \<open>F\<close>
  that calls \<open>SendMsg\<close> and the base method, which call the virtual method again. \<open>tie F n\<close> is
  the method with at most \<open>n\<close> nested calls, and \<open>virtual_close F\<close> gives it as many as
  \<open>close_rank\<close> asks for: a connection is removed before anything else is tried, so a nested
  call finds fewer connections or a descriptor that is still open.

  The locale \<open>closing\<close> says what a body has to satisfy for that to be enough, and proves that the
  result satisfies the class's own equation, with the virtual call in it, and never runs out of
  nested calls. Every server interprets it on its own body.
\<close>

section \<open>Tying the knot\<close>

primrec tie :: "('s closer \<Rightarrow> 's closer) \<Rightarrow> nat \<Rightarrow> 's closer" where
  "tie F 0 = (\<lambda>fd s. Inl NonTermination)"
| "tie F (Suc n) = F (tie F n)"

definition close_rank :: "int \<Rightarrow> 'a ServerBase_scheme \<Rightarrow> nat" where
  "close_rank fd s = 2 * length (connections s) + (if om_has fd (connections s) then 0 else 1)"

definition virtual_close ::
  "('a ServerBase_scheme closer \<Rightarrow> 'a ServerBase_scheme closer) \<Rightarrow> 'a ServerBase_scheme closer"
where
  "virtual_close F fd s = tie F (Suc (close_rank fd s)) fd s"

text \<open>Two methods that agree on everything below a rank; a method that opens no connection.\<close>

definition agree_below ::
  "nat \<Rightarrow> 'a ServerBase_scheme closer \<Rightarrow> 'a ServerBase_scheme closer \<Rightarrow> bool" where
  "agree_below k c c' \<longleftrightarrow> (\<forall>fd s. close_rank fd s < k \<longrightarrow> c fd s = c' fd s)"

definition shrinking :: "'a ServerBase_scheme closer \<Rightarrow> bool" where
  "shrinking c \<longleftrightarrow>
     (\<forall>fd s s'. c fd s = Inr s' \<longrightarrow> length (connections s') \<le> length (connections s))"

lemma agree_belowD: "agree_below k c c' \<Longrightarrow> close_rank fd s < k \<Longrightarrow> c fd s = c' fd s"
  by (simp add: agree_below_def)

lemma agree_below_mono: "agree_below k c c' \<Longrightarrow> j \<le> k \<Longrightarrow> agree_below j c c'"
  by (simp add: agree_below_def)

lemma shrinkingD:
  "shrinking c \<Longrightarrow> c fd s = Inr s' \<Longrightarrow> length (connections s') \<le> length (connections s)"
  by (simp add: shrinking_def)

lemma close_rank_le: "close_rank fd s \<le> 2 * length (connections s) + 1"
  by (simp add: close_rank_def)

locale closing =
  fixes F :: "'a ServerBase_scheme closer \<Rightarrow> 'a ServerBase_scheme closer"
  assumes body_local: "shrinking c \<Longrightarrow> shrinking c' \<Longrightarrow> agree_below (close_rank fd s) c c' \<Longrightarrow>
      F c fd s = F c' fd s"
    and body_shrinks: "shrinking c \<Longrightarrow> shrinking (F c)"
begin

lemma tie_shrinks: "shrinking (tie F n)"
  by (induction n) (simp add: shrinking_def, simp add: body_shrinks)

lemma tie_enough: "close_rank fd s < n \<Longrightarrow> close_rank fd s < m \<Longrightarrow> tie F n fd s = tie F m fd s"
proof (induction n arbitrary: m fd s)
  case 0
  then show ?case by simp
next
  case (Suc n)
  then obtain m' where m: "m = Suc m'"
    by (cases m) auto
  have "agree_below (close_rank fd s) (tie F n) (tie F m')"
    unfolding agree_below_def using Suc.prems m by (intro allI impI Suc.IH) auto
  then show ?case
    using m by (simp add: body_local tie_shrinks)
qed

lemma virtual_close_agrees: "agree_below k (tie F k) (virtual_close F)"
  unfolding agree_below_def virtual_close_def by (intro allI impI tie_enough) auto

lemma virtual_close_shrinks: "shrinking (virtual_close F)"
  using tie_shrinks unfolding shrinking_def virtual_close_def by blast

text \<open>The class's equation, with the virtual call in its body.\<close>

lemma virtual_close_eq: "virtual_close F fd s = F (virtual_close F) fd s"
  unfolding virtual_close_def [of F fd s] tie.simps
  by (rule body_local [OF tie_shrinks virtual_close_shrinks virtual_close_agrees])

end

section \<open>The base methods\<close>

lemma connections_log [simp]:
  "connections (io_tick s) = connections s"
  "connections (net_do e s) = connections s"
  "connections (os_close fd s) = connections s"
  by (simp_all add: io_tick_def net_do_def os_close_def)

text \<open>What a send can do to the state, whatever the virtual method does: nothing, write a packet,
  or call the method on a descriptor that is open.\<close>

lemma SendMsg_cases:
  assumes "SendMsg w close msg fd s = Inr (ok, s')"
  obtains "\<not> ok" "s' = s"
  | resp where "ok" "om_has fd (connections s)" "s' = net_do (Sent fd resp) s"
      "os_send (w_os w) (io_clock s) fd resp"
      "Message_SerializeToArray (w_cfg w) (w_pb w) msg
         (replicate (nat (m_packageSize (m_head msg))) 0) (m_packageSize (m_head msg)) =
       Inr (True, resp)"
  | "\<not> ok" "om_has fd (connections s)" "close fd (net_do (SendFailed fd) s) = Inr s'"
  using assms by (auto simp: SendMsg_def Let_def split: if_splits prod.splits)

lemma SendMsg_agree:
  assumes "agree_below k c c'" "2 * length (connections s) < k"
  shows "SendMsg w c msg fd s = SendMsg w c' msg fd s"
proof (cases "om_has fd (connections s)")
  case True
  have "c fd (net_do (SendFailed fd) s) = c' fd (net_do (SendFailed fd) s)"
    using assms True by (intro agree_belowD [OF assms(1)]) (simp add: close_rank_def)
  then have same: "c fd (net_do (SendFailed fd) s) = c' fd (net_do (SendFailed fd) s)" .
  show ?thesis
    unfolding SendMsg_def same by (rule refl)
qed (simp add: SendMsg_def)

lemma SendMsg_shrinks:
  "shrinking c \<Longrightarrow> SendMsg w c msg fd s = Inr (ok, s') \<Longrightarrow>
     length (connections s') \<le> length (connections s)"
  by (erule SendMsg_cases) (auto dest: shrinkingD)

lemma SendConnsChange_agree:
  "agree_below k c c' \<Longrightarrow> 2 * length (connections s) < k \<Longrightarrow>
     SendConnsChange w c ty ip port d s = SendConnsChange w c' ty ip port d s"
  by (simp add: SendConnsChange_def SendToCenterServerConnChange_def Let_def
      SendMsg_agree [of k c c'])

lemma SendConnsChange_shrinks:
  "shrinking c \<Longrightarrow> SendConnsChange w c ty ip port d s = Inr s' \<Longrightarrow>
     length (connections s') \<le> length (connections s)"
  by (auto simp: SendConnsChange_def SendToCenterServerConnChange_def Let_def split: if_splits
      dest!: SendMsg_shrinks)

lemma ServerBase_Close_agree:
  assumes "agree_below (close_rank fd s) c c'"
  shows "ServerBase_CloseClientSocket w c fd s = ServerBase_CloseClientSocket w c' fd s"
proof (cases "om_has fd (connections s)")
  case True
  let ?s = "os_close fd (s\<lparr>connections := om_del fd (connections s)\<rparr>)"
  have "2 * length (connections ?s) < close_rank fd s"
    using True length_om_del_less [OF True] by (simp add: close_rank_def)
  from SendConnsChange_agree [OF assms this] show ?thesis
    by (simp add: ServerBase_CloseClientSocket_def Let_def)
qed (simp add: ServerBase_CloseClientSocket_def)

lemma ServerBase_Close_shrinks:
  assumes "shrinking c" "ServerBase_CloseClientSocket w c fd s = Inr s'"
  shows "length (connections s') \<le> length (connections s) \<and>
     (om_has fd (connections s) \<longrightarrow> length (connections s') < length (connections s))"
proof (cases "om_has fd (connections s)")
  case True
  with assms show ?thesis
    using length_om_del_less [OF True]
    by (auto simp: ServerBase_CloseClientSocket_def Let_def dest!: SendConnsChange_shrinks)
qed (use assms in \<open>simp add: ServerBase_CloseClientSocket_def\<close>)

section \<open>Methods that return\<close>

text \<open>
  \<open>good_below k I R c\<close>: below rank \<open>k\<close> and in a state that satisfies \<open>I\<close> the method returns, and
  relates the states before and after by \<open>R\<close>. \<open>net_stable I R\<close>: \<open>I\<close> follows \<open>R\<close>, and \<open>R\<close> only looks
  at what the base methods leave alone.
\<close>

definition good_below ::
  "nat \<Rightarrow> ('a ServerBase_scheme \<Rightarrow> bool) \<Rightarrow> ('a ServerBase_scheme \<Rightarrow> 'a ServerBase_scheme \<Rightarrow> bool) \<Rightarrow>
     'a ServerBase_scheme closer \<Rightarrow> bool"
where
  "good_below k I R c \<longleftrightarrow>
     (\<forall>fd s. close_rank fd s < k \<longrightarrow> I s \<longrightarrow> (\<exists>s'. c fd s = Inr s' \<and> R s s'))"

definition net_stable ::
  "('a ServerBase_scheme \<Rightarrow> bool) \<Rightarrow> ('a ServerBase_scheme \<Rightarrow> 'a ServerBase_scheme \<Rightarrow> bool) \<Rightarrow> bool"
where
  "net_stable I R \<longleftrightarrow>
     (\<forall>s t. I s \<longrightarrow> R s t \<longrightarrow> I t) \<and>
     (\<forall>s. R s s) \<and> (\<forall>s t u. R s t \<longrightarrow> R t u \<longrightarrow> R s u) \<and> (\<forall>s e. R s (net_do e s)) \<and>
     (\<forall>s x. R s (s\<lparr>connections := x\<rparr>)) \<and> (\<forall>s n. R s (s\<lparr>conns_count := n\<rparr>))"

lemma net_stableD:
  assumes "net_stable I R"
  shows "R s s" "R s t \<Longrightarrow> R t u \<Longrightarrow> R s u" "R s (net_do e s)" "R s (s\<lparr>connections := x\<rparr>)"
    "R s (s\<lparr>conns_count := n\<rparr>)" "R s (os_close fd s)" "I s \<Longrightarrow> R s t \<Longrightarrow> I t"
  using assms unfolding net_stable_def os_close_def by blast+

lemma SendMsg_good:
  assumes cfg: "net_config_ok (w_cfg w)" and R: "net_stable I R" and good: "good_below k I R c"
    and rank: "2 * length (connections s) < k" and I: "I s"
  shows "\<exists>ok s'. SendMsg w c msg fd s = Inr (ok, s') \<and> R s s'"
proof (cases "om_has fd (connections s)")
  case False
  then have "SendMsg w c msg fd s = Inr (False, s)" by (simp add: SendMsg_def)
  then show ?thesis using net_stableD(1) [OF R] by blast
next
  case True
  let ?s = "net_do (SendFailed fd) s"
  have "close_rank fd ?s < k" "I ?s"
    using rank True I net_stableD(3,7) [OF R] by (simp add: close_rank_def, blast)
  then obtain s' where s': "c fd ?s = Inr s'" "R ?s s'"
    using good unfolding good_below_def by blast
  have "R s s'"
    using net_stableD(2,3) [OF R] s'(2) by blast
  moreover obtain ok b where "Message_SerializeToArray (w_cfg w) (w_pb w) msg
      (replicate (nat (m_packageSize (m_head msg))) 0) (m_packageSize (m_head msg)) = Inr (ok, b)"
    using Message_Serialize_array [OF cfg] by (cases "m_packageSize (m_head msg)
      < Message_length (w_cfg w) (w_pb w) (m_body msg)") auto
  ultimately show ?thesis
    using True s' net_stableD(1,3) [OF R] by (simp add: SendMsg_def Let_def ex_bool_eq)
qed

lemma SendConnsChange_good:
  assumes "net_config_ok (w_cfg w)" "net_stable I R" "good_below k I R c"
    and "2 * length (connections s) < k" "I s"
  shows "\<exists>s'. SendConnsChange w c ty ip port d s = Inr s' \<and> R s s'"
proof -
  let ?s = "s\<lparr>conns_count := conns_count s + d\<rparr>"
  let ?m = "make_message (w_cfg w) (w_pb w) ServerConnChange 0
     (B_ServerConnChange (new_ServerConnChange\<lparr>sc_ip := listen_ip s, sc_port := listen_port s,
        sc_change := conns_count s + d, sc_type := TransformType (server_type s)\<rparr>))"
  have "R s ?s" "I ?s"
    using net_stableD(5,7) [OF assms(2)] assms(5) by blast+
  then obtain ok s' where "SendMsg w c ?m (center_server_client s) ?s = Inr (ok, s')" "R ?s s'"
    using SendMsg_good [OF assms(1-3), of ?s ?m "center_server_client s"] assms(4) by auto
  moreover have "R s s'"
    using net_stableD(2) [OF assms(2)] \<open>R s ?s\<close> \<open>R ?s s'\<close> by blast
  ultimately show ?thesis
    using \<open>R s ?s\<close> by (simp add: SendConnsChange_def SendToCenterServerConnChange_def Let_def)
qed

lemma ServerBase_Close_good:
  assumes cfg: "net_config_ok (w_cfg w)" and R: "net_stable I R"
    and good: "good_below (close_rank fd s) I R c" and I: "I s"
  shows "\<exists>s'. ServerBase_CloseClientSocket w c fd s = Inr s' \<and> R s s'"
proof (cases "om_has fd (connections s)")
  case True
  let ?s0 = "s\<lparr>connections := om_del fd (connections s)\<rparr>"
  let ?s = "os_close fd ?s0"
  have "R s ?s" "I ?s"
    using net_stableD(2,4,6,7) [OF R] I by blast+
  moreover have "2 * length (connections ?s) < close_rank fd s"
    using True length_om_del_less [OF True] by (simp add: close_rank_def)
  ultimately obtain s' where "SendConnsChange w c (TransformType (server_type ?s)) (listen_ip ?s)
      (listen_port ?s) (-1) ?s = Inr s'" "R ?s s'"
    using SendConnsChange_good [OF cfg R good] by blast
  moreover have "R s s'"
    using net_stableD(2) [OF R] \<open>R s ?s\<close> \<open>R ?s s'\<close> by blast
  ultimately show ?thesis
    using True by (simp add: ServerBase_CloseClientSocket_def Let_def)
qed (use net_stableD(1) [OF R] in \<open>simp add: ServerBase_CloseClientSocket_def\<close>)

text \<open>A body that is good when its calls are makes a method that always returns. \<open>P\<close> is what that
  asks of the environment.\<close>

locale safe_closing = closing F
  for F :: "'a ServerBase_scheme closer \<Rightarrow> 'a ServerBase_scheme closer" +
  fixes I :: "'a ServerBase_scheme \<Rightarrow> bool"
    and R :: "'a ServerBase_scheme \<Rightarrow> 'a ServerBase_scheme \<Rightarrow> bool"
    and P :: bool
  assumes body_good: "P \<Longrightarrow> shrinking c \<Longrightarrow> good_below (close_rank fd s) I R c \<Longrightarrow> I s \<Longrightarrow>
      \<exists>s'. F c fd s = Inr s' \<and> R s s'"
begin

lemma virtual_close_good: "P \<Longrightarrow> I s \<Longrightarrow> \<exists>s'. virtual_close F fd s = Inr s' \<and> R s s'"
proof (induction "close_rank fd s" arbitrary: fd s rule: less_induct)
  case less
  then have "good_below (close_rank fd s) I R (virtual_close F)"
    by (simp add: good_below_def)
  from body_good [OF less.prems(1) virtual_close_shrinks this less.prems(2)] show ?case
    by (simp add: virtual_close_eq [of fd s])
qed

lemma virtual_close_good_below: "P \<Longrightarrow> good_below k I R (virtual_close F)"
  by (simp add: good_below_def virtual_close_good)

end

text \<open>What holds of the states before and after every call that returns, whether or not all do.\<close>

definition relates :: "('s \<Rightarrow> 's \<Rightarrow> bool) \<Rightarrow> 's closer \<Rightarrow> bool" where
  "relates R c \<longleftrightarrow> (\<forall>fd s s'. c fd s = Inr s' \<longrightarrow> R s s')"

lemma relatesD: "relates R c \<Longrightarrow> c fd s = Inr s' \<Longrightarrow> R s s'"
  by (simp add: relates_def)

lemma virtual_close_relates:
  assumes "\<And>c. relates R c \<Longrightarrow> relates R (F c)"
  shows "relates R (virtual_close F)"
proof -
  have "relates R (tie F n)" for n
    by (induction n) (simp add: relates_def, simp add: assms)
  then show ?thesis
    unfolding relates_def virtual_close_def by blast
qed

lemma SendMsg_relates:
  assumes "net_stable I R" "relates R c" "SendMsg w c msg fd s = Inr (ok, s')"
  shows "R s s'"
  using assms(3)
proof (cases rule: SendMsg_cases)
  case 3
  then show ?thesis
    using relatesD [OF assms(2)] net_stableD(2,3) [OF assms(1)] by blast
qed (use net_stableD [OF assms(1)] in auto)

lemma SendConnsChange_relates:
  assumes R: "net_stable I R" and c: "relates R c"
    and run: "SendConnsChange w c ty ip port d s = Inr s'"
  shows "R s s'"
proof -
  let ?s = "s\<lparr>conns_count := conns_count s + d\<rparr>"
  have "R ?s s'"
    using run SendMsg_relates [OF R c] net_stableD(1) [OF R]
    by (auto simp: SendConnsChange_def SendToCenterServerConnChange_def Let_def split: if_splits)
  then show ?thesis
    using net_stableD(2,5) [OF R] by blast
qed

lemma ServerBase_Close_relates:
  assumes R: "net_stable I R" and c: "relates R c"
  shows "relates R (ServerBase_CloseClientSocket w c)"
  unfolding relates_def
proof (intro allI impI)
  fix fd s s'
  assume run: "ServerBase_CloseClientSocket w c fd s = Inr s'"
  show "R s s'"
  proof (cases "om_has fd (connections s)")
    case True
    let ?s = "os_close fd (s\<lparr>connections := om_del fd (connections s)\<rparr>)"
    have "R ?s s'"
      using run True SendConnsChange_relates [OF R c]
      by (simp add: ServerBase_CloseClientSocket_def Let_def)
    moreover have "R s ?s"
      using net_stableD(2,4,6) [OF R] by blast
    ultimately show ?thesis
      using net_stableD(2) [OF R] by blast
  qed (use run net_stableD(1) [OF R] in \<open>simp add: ServerBase_CloseClientSocket_def\<close>)
qed

text \<open>A server that does not override the method.\<close>

interpretation base: closing "ServerBase_CloseClientSocket w"
proof
  show "ServerBase_CloseClientSocket w c fd s = ServerBase_CloseClientSocket w c' fd s"
    if "agree_below (close_rank fd s) c c'" for c c' :: "'a ServerBase_scheme closer" and fd s
    using that by (rule ServerBase_Close_agree)
  show "shrinking (ServerBase_CloseClientSocket w c)"
    if "shrinking c" for c :: "'a ServerBase_scheme closer"
    using ServerBase_Close_shrinks [OF that] by (auto simp: shrinking_def)
qed

section \<open>Healthy sockets\<close>

definition sends_ok :: "world \<Rightarrow> bool" where
  "sends_ok w \<longleftrightarrow> net_config_ok (w_cfg w) \<and> (\<forall>n fd b. os_send (w_os w) n fd b)"

lemma sends_okD: "sends_ok w \<Longrightarrow> net_config_ok (w_cfg w)" "sends_ok w \<Longrightarrow> os_send (w_os w) n fd b"
  by (simp_all add: sends_ok_def)

end
