(* ===== verification/Framing.thy ===== *)
theory Framing
  imports Virtual_Close
begin

text \<open>
  The receive path: chunks from the socket are collected in the connection's ring buffer, and the
  framing loop hands each packet of the buffer to the class's handler. A well-formed packet is a
  head that passes \<open>CheckHeaderIsValid\<close> and announces exactly the bytes that follow it.

  \<open>reads_exactly\<close> says of a handler that it looks at the announced bytes only, which is how the
  base method reads; every server's handler has it.
\<close>

type_synonym raw_packet = "MessageHead \<times> byte list"

definition raw_bytes :: "raw_packet \<Rightarrow> byte list" where
  "raw_bytes p = head_bytes (fst p) @ snd p"

definition wire :: "raw_packet list \<Rightarrow> byte list" where
  "wire ps = concat (map raw_bytes ps)"

definition packet_ok :: "Config \<Rightarrow> raw_packet \<Rightarrow> bool" where
  "packet_ok cfg p \<longleftrightarrow> head_ok (fst p) \<and> CheckHeaderIsValid cfg (fst p) \<and>
     m_packageSize (fst p) = int (length (raw_bytes p))"

definition reads_exactly :: "'s msg_handler \<Rightarrow> bool" where
  "reads_exactly handler \<longleftrightarrow>
     (\<forall>m body rest fd s. length body < 2 ^ 31 \<longrightarrow>
        handler m (body @ rest) (word_of_nat (length body)) fd s =
        handler m body (word_of_nat (length body)) fd s)"

text \<open>What the handler is called with for a packet.\<close>

definition on_packet :: "'s msg_handler \<Rightarrow> int \<Rightarrow> raw_packet \<Rightarrow> 's \<Rightarrow> 's res" where
  "on_packet handler fd p =
     handler \<lparr>m_head = fst p, m_body = None\<rparr> (snd p) (word_of_nat (length (snd p))) fd"

lemma wire_Nil [simp]: "wire [] = []"
  by (simp add: wire_def)

lemma wire_Cons [simp]: "wire (p # ps) = raw_bytes p @ wire ps"
  by (simp add: wire_def)

lemma length_raw_bytes [simp]: "length (raw_bytes p) = 12 + length (snd p)"
  by (simp add: raw_bytes_def)

lemma packet_ok_length:
  assumes "net_config_ok cfg" "packet_ok cfg p"
  shows "m_packageSize (fst p) = 12 + int (length (snd p))" "length (snd p) + 12 < 2 ^ 31"
proof -
  show sz: "m_packageSize (fst p) = 12 + int (length (snd p))"
    using assms(2) by (simp add: packet_ok_def)
  then show "length (snd p) + 12 < 2 ^ 31"
    using assms by (auto simp: packet_ok_def CheckHeaderIsValid_def net_config_ok_def split: if_splits)
qed

lemma less_head_size: "n < 2 ^ 32 \<Longrightarrow> (word_of_nat n < (word_of_int 12 :: u32)) \<longleftrightarrow> n < 12"
  by (simp add: word_less_nat_alt unat_word_of_nat_u32)

lemma frame_loop_step:
  assumes cfg: "net_config_ok (w_cfg w)" and p: "packet_ok (w_cfg w) p"
    and h: "reads_exactly handler" and len: "length (raw_bytes p @ rest) < 2 ^ 32"
  shows "frame_loop (Suc n) w handler (raw_bytes p @ rest)
           (word_of_nat (length (raw_bytes p @ rest))) fd s =
     bindF (on_packet handler fd p s) (frame_loop n w handler rest (word_of_nat (length rest)) fd)"
proof -
  note sz = packet_ok_length [OF cfg p]
  have hs: "HEAD_SIZE (w_cfg w) = 12" using cfg by (simp add: net_config_ok_def)
  have ok: "head_ok (fst p)" "CheckHeaderIsValid (w_cfg w) (fst p)"
    using p by (simp_all add: packet_ok_def)
  have parse: "MessageHead_parse (w_cfg w) (raw_bytes p @ rest) 12 = Inr (fst p)"
    unfolding raw_bytes_def append_assoc using cfg ok by (intro MessageHead_parse_bytes) auto
  have enough: "\<not> (word_of_nat (length (raw_bytes p @ rest)) < (word_of_int 12 :: u32))"
    using len by (simp only: less_head_size) simp
  have body: "drop 12 (raw_bytes p @ rest) = snd p @ rest"
    by (simp add: raw_bytes_def)
  have next1: "drop (nat (m_packageSize (fst p))) (raw_bytes p @ rest) = rest"
    using sz by (simp add: nat_add_distrib)
  have next2: "(word_of_nat (length (raw_bytes p @ rest)) :: u32) -
      word_of_int (m_packageSize (fst p)) = word_of_nat (length rest)"
    using sz by simp
  have arg: "(word_of_int (m_packageSize (fst p) - 12) :: u32) = word_of_nat (length (snd p))"
    using sz by simp
  have call: "handler m (snd p @ rest) (word_of_nat (length (snd p))) fd s =
      handler m (snd p) (word_of_nat (length (snd p))) fd s" for m
    using h sz(2) unfolding reads_exactly_def by simp
  show ?thesis
    unfolding frame_loop.simps hs parse
    by (simp only: enough ok(2) if_True if_False bindF.simps nat_numeral body next1 next2 arg call
        on_packet_def)
qed

lemma frame_loop_empty: "net_config_ok (w_cfg w) \<Longrightarrow> frame_loop (Suc n) w handler recv 0 fd s = Inr s"
  by (simp add: net_config_ok_def)

text \<open>Every packet of the contents is handled, in order, and nothing else happens.\<close>

lemma frame_loop_packets:
  assumes "net_config_ok (w_cfg w)" "reads_exactly handler"
  shows "\<forall>p\<in>set ps. packet_ok (w_cfg w) p \<Longrightarrow> length (wire ps) < 2 ^ 32 \<Longrightarrow> length ps < n \<Longrightarrow>
     frame_loop n w handler (wire ps) (word_of_nat (length (wire ps))) fd s =
     foldF (on_packet handler fd) ps s"
proof (induction ps arbitrary: n s)
  case Nil
  then obtain m where "n = Suc m"
    by (cases n) auto
  then show ?case
    using frame_loop_empty [OF assms(1), of m handler "[]" fd s] by (simp del: frame_loop.simps)
next
  case (Cons p ps)
  obtain m where n: "n = Suc m" "length ps < m"
    using Cons.prems(3) by (cases n) auto
  have "length (wire ps) < 2 ^ 32"
    using Cons.prems(2) by simp
  from Cons.IH [OF _ this n(2)] Cons.prems(1)
  have IH: "frame_loop m w handler (wire ps) (word_of_nat (length (wire ps))) fd t =
      foldF (on_packet handler fd) ps t" for t
    by simp
  have "frame_loop n w handler (wire (p # ps)) (word_of_nat (length (wire (p # ps)))) fd s =
      bindF (on_packet handler fd p s)
        (frame_loop m w handler (wire ps) (word_of_nat (length (wire ps))) fd)"
    unfolding n(1) wire_Cons using Cons.prems
    by (intro frame_loop_step [OF assms(1) _ assms(2)]) auto
  also have "\<dots> = bindF (on_packet handler fd p s) (foldF (on_packet handler fd) ps)"
    using IH by (cases "on_packet handler fd p s") simp_all
  finally show ?case by simp
qed

lemma length_wire_packets: "12 * length ps \<le> length (wire ps)"
  by (induction ps) auto

section \<open>One receive event\<close>

text \<open>The connection is still open after the handlers ran, with the buffer it had.\<close>

definition conn_at :: "int \<Rightarrow> nat \<Rightarrow> RingBuffer \<Rightarrow> 'a ServerBase_scheme \<Rightarrow> bool" where
  "conn_at fd i rb s \<longleftrightarrow> om_get (connections s) fd = Some (i, rb)"

lemma HandleReceivedMsg_packets:
  assumes cfg: "net_config_ok (w_cfg w)" and h: "reads_exactly handler"
    and ps: "\<forall>p\<in>set ps. packet_ok (w_cfg w) p"
    and conn: "conn_at fd i rb s" "rb_wf (w_cfg w) rb" "rb_view (w_cfg w) rb = wire ps"
    and run: "foldF (on_packet handler fd) ps s = Inr s'"
    and keep: "conn_at fd i rb' s'" "rb_wf (w_cfg w) rb'"
  shows "\<exists>rb''. rb_wf (w_cfg w) rb'' \<and> rb_view (w_cfg w) rb'' = [] \<and>
     HandleReceivedMsg w handler i fd s = Inr (set_buffer fd i rb'' s')"
proof -
  have cap: "GetCapacity rb = word_of_nat (length (wire ps))"
    unfolding conn(3) [symmetric] by (simp add: GetCapacity_def)
  have small: "length (wire ps) < 2 ^ 32"
    unfolding conn(3) [symmetric] using unsigned_less [of "rb_capacity rb"] by simp
  have get: "GetBuffer (w_cfg w) (GetCapacity rb) rb = Inr (wire ps)"
    using rb.drain(1) [OF conn(2)] unfolding conn(3) cap .
  have loop: "frame_loop (length (wire ps) + 2) w handler (wire ps) (GetCapacity rb) fd s = Inr s'"
    unfolding cap run [symmetric] using length_wire_packets [of ps]
    by (intro frame_loop_packets [OF cfg h ps small]) simp
  obtain rb'' where pop: "PopBuffer (w_cfg w) (GetCapacity rb') rb' = (True, rb'')"
    "rb_wf (w_cfg w) rb''" "rb_view (w_cfg w) rb'' = []"
    using rb.drain(2) [OF keep(2)] by (auto simp: GetCapacity_def)
  have "buffer_of fd i s = Inr rb" "buffer_of fd i s' = Inr rb'"
    using conn(1) keep(1) by (simp_all add: buffer_of_def conn_at_def)
  then show ?thesis
    using pop get loop by (auto simp: HandleReceivedMsg_def)
qed

lemma recv_loop_chunks: "recv_loop w cs = add_chunks (AddBuffer (w_cfg w)) cs"
  by (induction cs) (simp_all cong: if_cong)

text \<open>Whatever the socket delivers, in whatever chunks: if what is in the buffer afterwards is a
  sequence of packets, they are handled in order.\<close>

lemma HandleConnEvent_packets:
  assumes cfg: "net_config_ok (w_cfg w)" and h: "reads_exactly handler"
    and conn: "om_get (connections s) fd = Some (i, rb)" "rb_wf (w_cfg w) rb"
    and recv: "os_recv (w_os w) (io_clock s) fd = (chunks, WouldBlock)"
      "\<forall>c\<in>set chunks. length c < 2 ^ 32"
    and fits: "length (rb_view (w_cfg w) rb) + length (concat chunks) \<le> nat (MAX_BUFFER_SIZE (w_cfg w))"
    and ps: "rb_view (w_cfg w) rb @ concat chunks = wire ps" "\<forall>p\<in>set ps. packet_ok (w_cfg w) p"
    and run: "\<And>rb1. rb_wf (w_cfg w) rb1 \<Longrightarrow> rb_view (w_cfg w) rb1 = wire ps \<Longrightarrow>
       \<exists>s' rb'. foldF (on_packet handler fd) ps (set_buffer fd i rb1 (io_tick s)) = Inr s' \<and>
         conn_at fd i rb' s' \<and> rb_wf (w_cfg w) rb' \<and> Q s'"
  shows "\<exists>s' rb''. HandleConnEvent w close handler fd s = Inr (set_buffer fd i rb'' s') \<and> Q s' \<and>
     rb_wf (w_cfg w) rb'' \<and> rb_view (w_cfg w) rb'' = []"
proof -
  obtain rb1 where rb1: "recv_loop w chunks rb = Inr (True, rb1)" "rb_wf (w_cfg w) rb1"
      "rb_view (w_cfg w) rb1 = wire ps"
    using rb.add_chunks_fit [OF conn(2) recv(2) fits] ps(1) by (auto simp: recv_loop_chunks)
  let ?s = "set_buffer fd i rb1 (io_tick s)"
  obtain s' rb' where run: "foldF (on_packet handler fd) ps ?s = Inr s'"
      "conn_at fd i rb' s'" "rb_wf (w_cfg w) rb'" "Q s'"
    using run [OF rb1(2,3)] by blast
  have "conn_at fd i rb1 ?s" by (simp add: conn_at_def set_buffer_def)
  from HandleReceivedMsg_packets [OF cfg h ps(2) this rb1(2,3) run(1-3)]
  obtain rb'' where "rb_wf (w_cfg w) rb''" "rb_view (w_cfg w) rb'' = []"
      "HandleReceivedMsg w handler i fd ?s = Inr (set_buffer fd i rb'' s')"
    by blast
  moreover have "HandleConnEvent w close handler fd s = HandleReceivedMsg w handler i fd ?s"
    using conn(1) recv(1) rb1(1) by (simp add: HandleConnEvent_def)
  ultimately show ?thesis
    using run(4) by auto
qed

section \<open>Every handler reads the announced bytes only\<close>

lemma base_handler_exact:
  assumes "length body < 2 ^ 31"
  shows "ServerBase_OnMsgBodyAnalysised w m (body @ rest) (word_of_nat (length body)) =
     ServerBase_OnMsgBodyAnalysised w m body (word_of_nat (length body))"
proof -
  have "sint (word_of_nat (length body) :: u32) = int (length body)"
    using assms sint_word_of_int_u32 [of "int (length body)"] by (simp add: int32_def)
  then show ?thesis
    by (simp add: ServerBase_OnMsgBodyAnalysised_def MessageBody_ParseFromArray_def
        split: option.split)
qed

section \<open>Messages as the base class hands them over\<close>

text \<open>The body is of the class its type announces, or missing for a type that has none.\<close>

definition msg_typed :: "Message \<Rightarrow> bool" where
  "msg_typed msg \<longleftrightarrow>
     (case CreateMessageBody (m_packageType (m_head msg)) of
        None \<Rightarrow> msg_object msg = None
      | Some p \<Rightarrow> (case msg_object msg of None \<Rightarrow> False | Some b \<Rightarrow> body_class b = body_class p))"

lemma ServerBase_OnMsg_typed:
  assumes pb: "pb_keeps_class pb" "pb = w_pb w" and len: "length body < 2 ^ 31"
  shows "\<exists>m'. ServerBase_OnMsgBodyAnalysised w m body (word_of_nat (length body)) = Inr m' \<and>
     m_head m' = m_head m \<and> msg_typed m'"
proof -
  have l: "sint (word_of_nat (length body) :: u32) = int (length body)"
    using len sint_word_of_int_u32 [of "int (length body)"] by (simp add: int32_def)
  show ?thesis
  proof (cases "CreateMessageBody (m_packageType (m_head m))")
    case None
    then show ?thesis
      by (simp add: ServerBase_OnMsgBodyAnalysised_def MessageBody_ParseFromArray_def msg_typed_def
          msg_object_def)
  next
    case (Some p)
    have "body_class (snd (pb_dec (w_pb w) p body)) = body_class p"
      using pb by (simp add: pb_keeps_class_def)
    then show ?thesis
      using Some l by (simp add: ServerBase_OnMsgBodyAnalysised_def MessageBody_ParseFromArray_def
          msg_typed_def msg_object_def case_prod_beta)
  qed
qed

lemma msg_typed_class:
  assumes "msg_typed msg" "m_packageType (m_head msg) = bodytype_code ty"
    and "ty \<in> {ChangeRole, JoinRoom, LeaveRoom, CreateRoom, UserInfo, ServerInfo, JoinRegionRequest, ServerConnChange}"
  shows "\<exists>b. msg_object msg = Some b \<and> body_class b = ty"
  using assms by (auto simp: msg_typed_def split: option.splits simp del: bodytype_code.simps)

lemma body_class_eqs:
  "body_class b = ChangeRole \<longleftrightarrow> (\<exists>q. b = B_ChangeRole q)"
  "body_class b = JoinRoom \<longleftrightarrow> (\<exists>q. b = B_JoinRoom q)"
  "body_class b = LeaveRoom \<longleftrightarrow> (\<exists>q. b = B_LeaveRoom q)"
  "body_class b = CreateRoom \<longleftrightarrow> (\<exists>q. b = B_CreateRoom q)"
  "body_class b = UserInfo \<longleftrightarrow> (\<exists>q. b = B_UserInfo q)"
  "body_class b = ServerInfo \<longleftrightarrow> (\<exists>q. b = B_ServerInfo q)"
  "body_class b = JoinRegionRequest \<longleftrightarrow> (\<exists>q. b = B_JoinRegionRequest q)"
  "body_class b = ServerConnChange \<longleftrightarrow> (\<exists>q. b = B_ServerConnChange q)"
  by (cases b; simp)+

section \<open>Packets that are not whole\<close>

text \<open>
  The loop compares what is left with the size of a head only, never with the size the head
  announces. A packet of which a part has not arrived yet is read past the end of the copy.
\<close>

lemma frame_loop_partial:
  assumes cfg: "net_config_ok (w_cfg w)" and head: "head_ok h" "CheckHeaderIsValid (w_cfg w) h"
    and part: "int (length (head_bytes h @ body)) < m_packageSize h"
    and cls: "CreateMessageBody (m_packageType h) = Some p"
    and handler: "\<And>m b l. handler m b l fd s =
       bindF (ServerBase_OnMsgBodyAnalysised w m b l) (\<lambda>m'. act m' s)"
  shows "frame_loop (Suc n) w handler (head_bytes h @ body)
           (word_of_nat (length (head_bytes h @ body))) fd s = Inl OutOfBounds"
proof -
  have hs: "HEAD_SIZE (w_cfg w) = 12" and max: "m_packageSize h < 2 ^ 31"
    using cfg head(2) by (auto simp: net_config_ok_def CheckHeaderIsValid_def split: if_splits)
  have parse: "MessageHead_parse (w_cfg w) (head_bytes h @ body) 12 = Inr h"
    using cfg head(1) by (intro MessageHead_parse_bytes) auto
  have "length (head_bytes h @ body) < 2 ^ 32"
    using part max by simp
  then have enough: "\<not> (word_of_nat (length (head_bytes h @ body)) < (word_of_int 12 :: u32))"
    by (simp only: less_head_size) simp
  have l: "sint (word_of_int (m_packageSize h - 12) :: u32) = m_packageSize h - 12"
    using part max by (intro sint_word_of_int_u32) (simp add: int32_def)
  show ?thesis
    unfolding frame_loop.simps hs parse
    using part
    by (simp only: enough head(2) if_True if_False bindF.simps nat_numeral handler l cls
        ServerBase_OnMsgBodyAnalysised_def MessageBody_ParseFromArray_def MessageHead.simps
        Message.simps) simp
qed

end
