(* ===== verification/CenterServer.thy ===== *)
theory CenterServer
  imports Framing
begin

text \<open>
  The center server: \<open>src/Header/Server/CenterServer.h\<close>, \<open>src/Source/CenterServer.cpp\<close>. Every other
  server registers here over its connection, reports its load, and asks for servers to connect
  to; clients ask for the list of gates and for the address of one.

  The \<open>Server_Info\<close> objects are shared by pointer between \<open>MachineRecord\<close> (by connection) and the
  group of their type, and the type is read from the object, so they live in a store \<open>infos\<close>
  from addresses to objects; following an address that was deleted is a fault. Level and type
  are integers, as the program casts them from the message without a test.
\<close>

record Server_Info =
  si_ip :: string
  si_port :: int
  si_name :: string
  si_level :: int
  si_type :: int
  si_people_count :: int
  si_id :: int

text \<open>\<open>new Server_Info()\<close> zeroes the members; a local \<open>Server_Info\<close> leaves the integers uninitialised.\<close>

definition Server_Info_new :: Server_Info where
  "Server_Info_new =
     \<lparr>si_ip = '''', si_port = 0, si_name = '''', si_level = 0, si_type = 0, si_people_count = 0,
      si_id = 0\<rparr>"

definition local_Server_Info :: "world \<Rightarrow> nat \<Rightarrow> Server_Info" where
  "local_Server_Info w t =
     \<lparr>si_ip = '''', si_port = os_garbage (w_os w) t 0, si_name = '''',
      si_level = os_garbage (w_os w) t 1, si_type = os_garbage (w_os w) t 2,
      si_people_count = os_garbage (w_os w) t 3, si_id = os_garbage (w_os w) t 4\<rparr>"

record CenterServer = ServerBase +
  gateServerGroup :: "int list"
  logicServerGroup :: "int list"
  dbServerGroup :: "int list"
  MachineRecord :: "int omap"
  infos :: "Server_Info omap"
  next_info :: int

definition CenterServer_new :: CenterServer where
  "CenterServer_new =
     ServerBase.ServerBase.extend (ServerBase_new CENTER) (CenterServer.CenterServer.fields [] [] [] [] [] 0)"

definition deref_info :: "int \<Rightarrow> 'a CenterServer_scheme \<Rightarrow> Server_Info res" where
  "deref_info p s = (case om_get (infos s) p of None \<Rightarrow> Inl UseAfterFree | Some i \<Rightarrow> Inr i)"

definition upd_info ::
  "int \<Rightarrow> (Server_Info \<Rightarrow> Server_Info) \<Rightarrow> 'a CenterServer_scheme \<Rightarrow> 'a CenterServer_scheme res" where
  "upd_info p f s = bindF (deref_info p s) (\<lambda>i. Inr (s\<lparr>infos := om_upd p (f i) (infos s)\<rparr>))"

section \<open>Groups\<close>

definition RegisterServer :: "int \<Rightarrow> 'a CenterServer_scheme \<Rightarrow> 'a CenterServer_scheme res" where
  "RegisterServer machine s =
     bindF (deref_info machine s) (\<lambda>i.
       if si_type i = server_type_code LOGIC
       then bindF (upd_info machine (\<lambda>i. i\<lparr>si_id := int (length (logicServerGroup s))\<rparr>) s)
              (\<lambda>s1. Inr (s1\<lparr>logicServerGroup := logicServerGroup s1 @ [machine]\<rparr>))
       else if si_type i = server_type_code GATE
       then bindF (upd_info machine (\<lambda>i. i\<lparr>si_id := int (length (gateServerGroup s))\<rparr>) s)
              (\<lambda>s1. Inr (s1\<lparr>gateServerGroup := gateServerGroup s1 @ [machine]\<rparr>))
       else if si_type i = server_type_code DATABASE
       then bindF (upd_info machine (\<lambda>i. i\<lparr>si_id := int (length (dbServerGroup s))\<rparr>) s)
              (\<lambda>s1. Inr (s1\<lparr>dbServerGroup := dbServerGroup s1 @ [machine]\<rparr>))
       else Inr s)"

text \<open>The scan keeps the best server so far and its level; it starts from nothing and \<open>DOWN\<close>.\<close>

fun find_available ::
  "'a CenterServer_scheme \<Rightarrow> int list \<Rightarrow> (Server_Info option \<times> int) \<Rightarrow> (Server_Info option \<times> int) res" where
  "find_available s [] best = Inr best"
| "find_available s (p # ps) best =
     bindF (deref_info p s) (\<lambda>i.
       find_available s ps (if si_level i < snd best then (Some i, si_level i) else best))"

definition FindAvailableServerInGroup ::
  "world \<Rightarrow> int list \<Rightarrow> 'a CenterServer_scheme \<Rightarrow> Server_Info res" where
  "FindAvailableServerInGroup w grp s =
     bindF (find_available s grp (None, free_level_code DOWN)) (\<lambda>(best, lvl).
       Inr (case best of
              None \<Rightarrow> (local_Server_Info w (io_clock s))\<lparr>si_level := free_level_code DOWN\<rparr>
            | Some i \<Rightarrow> i))"

definition AssignServer :: "world \<Rightarrow> int \<Rightarrow> 'a CenterServer_scheme \<Rightarrow> Server_Info res" where
  "AssignServer w in_type s =
     (if in_type = server_type_code LOGIC then FindAvailableServerInGroup w (logicServerGroup s) s
      else if in_type = server_type_code GATE then FindAvailableServerInGroup w (gateServerGroup s) s
      else if in_type = server_type_code DATABASE then FindAvailableServerInGroup w (dbServerGroup s) s
      else Inr ((local_Server_Info w (io_clock s))\<lparr>si_level := free_level_code DOWN\<rparr>))"

text \<open>The first occurrence is erased.\<close>

definition RemoveServerFromGroup :: "int \<Rightarrow> int list \<Rightarrow> int list" where
  "RemoveServerFromGroup info grp = remove1 info grp"

definition RemoveServer :: "int \<Rightarrow> 'a CenterServer_scheme \<Rightarrow> 'a CenterServer_scheme res" where
  "RemoveServer info s =
     bindF (deref_info info s) (\<lambda>i.
       Inr (if si_type i = server_type_code LOGIC
            then s\<lparr>logicServerGroup := RemoveServerFromGroup info (logicServerGroup s)\<rparr>
            else if si_type i = server_type_code GATE
            then s\<lparr>gateServerGroup := RemoveServerFromGroup info (gateServerGroup s)\<rparr>
            else if si_type i = server_type_code DATABASE
            then s\<lparr>dbServerGroup := RemoveServerFromGroup info (dbServerGroup s)\<rparr>
            else s))"

section \<open>Closing\<close>

text \<open>The machine of the connection, if it registered, is taken out of its group and deleted.\<close>

definition forget_machine :: "int \<Rightarrow> 'a CenterServer_scheme \<Rightarrow> 'a CenterServer_scheme res" where
  "forget_machine fd s =
     (case om_get (MachineRecord s) fd of
        None \<Rightarrow> Inr s
      | Some p \<Rightarrow>
          bindF (RemoveServer p s) (\<lambda>s1.
            Inr (s1\<lparr>infos := om_del p (infos s1), MachineRecord := om_del fd (MachineRecord s1)\<rparr>)))"

definition CenterServer_close_body ::
  "world \<Rightarrow> 'a CenterServer_scheme closer \<Rightarrow> 'a CenterServer_scheme closer" where
  "CenterServer_close_body w close fd s =
     bindF (forget_machine fd s) (ServerBase_CloseClientSocket w close fd)"

definition CenterServer_CloseClientSocket :: "world \<Rightarrow> 'a CenterServer_scheme closer" where
  "CenterServer_CloseClientSocket w = virtual_close (CenterServer_close_body w)"

definition Center_SendMsg ::
  "world \<Rightarrow> Message \<Rightarrow> int \<Rightarrow> 'a CenterServer_scheme \<Rightarrow> 'a CenterServer_scheme res" where
  "Center_SendMsg w msg fd s =
     bindF (SendMsg w (CenterServer_CloseClientSocket w) msg fd s) (\<lambda>(ok, s'). Inr s')"

section \<open>Requests\<close>

definition CheckFreeLevel :: "Config \<Rightarrow> Server_Info \<Rightarrow> int" where
  "CheckFreeLevel cfg info =
     (if si_people_count info < SERVER_FREE_COUNT cfg then free_level_code FREE
      else if si_people_count info < SERVER_COMMON_COUNT cfg then free_level_code COMMON
      else free_level_code BUSY)"

definition Center_HandleServerInfo ::
  "world \<Rightarrow> Message \<Rightarrow> int \<Rightarrow> 'a CenterServer_scheme \<Rightarrow> 'a CenterServer_scheme res" where
  "Center_HandleServerInfo w msg fd s =
     (case msg_object msg of
        Some (B_ServerInfo body) \<Rightarrow>
          (case sv_opt body of
             Op_Register \<Rightarrow>
               bindF (if om_has fd (MachineRecord s) then Inr s
                      else
                        let p = next_info s;
                            i = Server_Info_new\<lparr>si_ip := sv_ip body, si_port := sv_port body,
                                  si_name := sv_server_name body, si_type := sv_server_type body\<rparr>
                        in RegisterServer p
                             (s\<lparr>MachineRecord := om_upd fd p (MachineRecord s),
                                infos := om_upd p i (infos s), next_info := next_info s + 1\<rparr>))
                 (\<lambda>s1. upd_info (om_at 0 (MachineRecord s1) fd)
                          (\<lambda>i. i\<lparr>si_level := sv_server_free_level body\<rparr>) s1)
           | Op_RequstAssgin \<Rightarrow>
               bindF (AssignServer w (sv_server_type body) s) (\<lambda>machine.
                 Center_SendMsg w
                   (NewServerInfoMessage (w_cfg w) (w_pb w) (si_ip machine) (si_port machine)
                      (si_name machine) (si_type machine) Op_Connect (si_level machine)) fd s)
           | _ \<Rightarrow> Inr s)
      | _ \<Rightarrow> Inr s)"

definition Center_HandleUserInfo ::
  "Message \<Rightarrow> int \<Rightarrow> 'a CenterServer_scheme \<Rightarrow> 'a CenterServer_scheme res" where
  "Center_HandleUserInfo msg fd s = Inr s"

definition region_info :: "Config \<Rightarrow> Server_Info \<Rightarrow> RegionInfoMsg" where
  "region_info cfg info =
     \<lparr>rg_id = si_id info, rg_people_count = max 0 (si_people_count info),
      rg_server_name = si_name info, rg_level = CheckFreeLevel cfg info\<rparr>"

fun region_infos :: "Config \<Rightarrow> int list \<Rightarrow> 'a CenterServer_scheme \<Rightarrow> RegionInfoMsg list res" where
  "region_infos cfg [] s = Inr []"
| "region_infos cfg (p # ps) s =
     bindF (deref_info p s) (\<lambda>i.
     bindF (region_infos cfg ps s) (\<lambda>rs. Inr (region_info cfg i # rs)))"

definition HandleGetRegionInfoRequest ::
  "world \<Rightarrow> Message \<Rightarrow> int \<Rightarrow> 'a CenterServer_scheme \<Rightarrow> 'a CenterServer_scheme res" where
  "HandleGetRegionInfoRequest w msg fd s =
     bindF (region_infos (w_cfg w) (gateServerGroup s) s) (\<lambda>rs.
       Center_SendMsg w
         (make_message (w_cfg w) (w_pb w) GetRegionInfoResponse 0
            (B_GetRegionInfoResponse \<lparr>gp_infos = rs\<rparr>)) fd s)"

definition join_region :: "int \<Rightarrow> 'a CenterServer_scheme \<Rightarrow> JoinRegionResponseMsg res" where
  "join_region rid s =
     (if 0 \<le> rid \<and> rid < int (length (gateServerGroup s))
      then bindF (deref_info (gateServerGroup s ! nat rid) s) (\<lambda>i.
             Inr \<lparr>jp_ret = True, jp_ip = si_ip i, jp_port = si_port i\<rparr>)
      else Inr \<lparr>jp_ret = False, jp_ip = '''', jp_port = 0\<rparr>)"

definition HandleJoinRegionRequest ::
  "world \<Rightarrow> Message \<Rightarrow> int \<Rightarrow> 'a CenterServer_scheme \<Rightarrow> 'a CenterServer_scheme res" where
  "HandleJoinRegionRequest w msg fd s =
     (case msg_object msg of
        Some (B_JoinRegionRequest request) \<Rightarrow>
          bindF (join_region (jq_id request) s) (\<lambda>body.
            Center_SendMsg w
              (make_message (w_cfg w) (w_pb w) JoinRegionResponse 0 (B_JoinRegionResponse body)) fd s)
      | _ \<Rightarrow> Inl NullDeref)"

definition set_people_count ::
  "string \<Rightarrow> int \<Rightarrow> int \<Rightarrow> int \<Rightarrow> 'a CenterServer_scheme \<Rightarrow> 'a CenterServer_scheme res" where
  "set_people_count ip port count p s =
     bindF (deref_info p s) (\<lambda>i.
       if ip = si_ip i \<and> port = si_port i then upd_info p (\<lambda>i. i\<lparr>si_people_count := count\<rparr>) s
       else Inr s)"

definition HandleServerConnChange ::
  "world \<Rightarrow> Message \<Rightarrow> int \<Rightarrow> 'a CenterServer_scheme \<Rightarrow> 'a CenterServer_scheme res" where
  "HandleServerConnChange w msg fd s =
     (case msg_object msg of
        Some (B_ServerConnChange request) \<Rightarrow>
          let upd = set_people_count (sc_ip request) (sc_port request) (sc_change request);
              ty = sc_type request
          in bindF (if ty = 2 then foldF upd (gateServerGroup s) s else Inr s) (\<lambda>s1.
             bindF (if ty = 3 then foldF upd (logicServerGroup s1) s1 else Inr s1) (\<lambda>s2.
               if ty = 4 then foldF upd (dbServerGroup s2) s2 else Inr s2))
      | _ \<Rightarrow> Inl NullDeref)"

definition Center_dispatch ::
  "world \<Rightarrow> Message \<Rightarrow> int \<Rightarrow> 'a CenterServer_scheme \<Rightarrow> 'a CenterServer_scheme res" where
  "Center_dispatch w msg fd s =
     (case bodytype_of (m_packageType (m_head msg)) of
        Some ServerInfo \<Rightarrow> Center_HandleServerInfo w msg fd s
      | Some UserInfo \<Rightarrow> Center_HandleUserInfo msg fd s
      | Some GetRegionInfoRequest \<Rightarrow> HandleGetRegionInfoRequest w msg fd s
      | Some JoinRegionRequest \<Rightarrow> HandleJoinRegionRequest w msg fd s
      | Some ServerConnChange \<Rightarrow> HandleServerConnChange w msg fd s
      | _ \<Rightarrow> Inr s)"

definition CenterServer_OnMsgBodyAnalysised ::
  "world \<Rightarrow> 'a CenterServer_scheme msg_handler" where
  "CenterServer_OnMsgBodyAnalysised w msg body len fd s =
     bindF (ServerBase_OnMsgBodyAnalysised w msg body len) (\<lambda>msg1. Center_dispatch w msg1 fd s)"

definition CenterServer_virtuals :: "world \<Rightarrow> 'a CenterServer_scheme virtuals" where
  "CenterServer_virtuals w =
     \<lparr>v_close = CenterServer_CloseClientSocket w, v_handler = CenterServer_OnMsgBodyAnalysised w,
      v_callback = (\<lambda>ty s. Inr s), v_on_start = (\<lambda>s. Inr (True, s))\<rparr>"

definition CenterServer_main :: "nat \<Rightarrow> world \<Rightarrow> (bool \<times> CenterServer) res" where
  "CenterServer_main turns w =
     (case CENTER_SERVER (w_cfg w) of (ip, port, name) \<Rightarrow>
        BootServer turns w (CenterServer_virtuals w) ip port '''' CenterServer_new)"

end
