(* ===== verification/Center_Inv.thy ===== *)
theory Center_Inv
  imports CenterServer
begin

text \<open>
  The registry of the center server. \<open>center_wf\<close>: every registered connection has a live object of
  its own, and a group lists, once each, exactly the registered objects of its type, so that no
  group holds an address that was deleted. The invariant makes the server a total machine: no
  packet and no lost connection leads it into undefined behaviour.
\<close>

definition listed :: "'a CenterServer_scheme \<Rightarrow> int \<Rightarrow> int \<Rightarrow> bool" where
  "listed s ty p \<longleftrightarrow>
     (\<exists>fd. om_get (MachineRecord s) fd = Some p) \<and>
     (\<exists>i. om_get (infos s) p = Some i \<and> si_type i = ty)"

definition center_wf :: "'a CenterServer_scheme \<Rightarrow> bool" where
  "center_wf s \<longleftrightarrow>
     (\<forall>fd fd' p. om_get (MachineRecord s) fd = Some p \<longrightarrow> om_get (MachineRecord s) fd' = Some p \<longrightarrow> fd = fd') \<and>
     (\<forall>fd p. om_get (MachineRecord s) fd = Some p \<longrightarrow> om_has p (infos s) \<and> p < next_info s) \<and>
     distinct (gateServerGroup s) \<and> distinct (logicServerGroup s) \<and> distinct (dbServerGroup s) \<and>
     set (gateServerGroup s) = Collect (listed s 2) \<and>
     set (logicServerGroup s) = Collect (listed s 3) \<and>
     set (dbServerGroup s) = Collect (listed s 4)"

lemma center_wfD:
  assumes "center_wf s"
  shows "om_get (MachineRecord s) fd = Some p \<Longrightarrow> om_get (MachineRecord s) fd' = Some p \<Longrightarrow> fd = fd'"
    "om_get (MachineRecord s) fd = Some p \<Longrightarrow> om_has p (infos s)"
    "om_get (MachineRecord s) fd = Some p \<Longrightarrow> p < next_info s"
    "distinct (gateServerGroup s)" "distinct (logicServerGroup s)" "distinct (dbServerGroup s)"
    "set (gateServerGroup s) = Collect (listed s 2)"
    "set (logicServerGroup s) = Collect (listed s 3)"
    "set (dbServerGroup s) = Collect (listed s 4)"
  using assms unfolding center_wf_def by blast+

lemma center_wf_cong:
  assumes "MachineRecord t = MachineRecord s" "infos t = infos s" "next_info t = next_info s"
    "gateServerGroup t = gateServerGroup s" "logicServerGroup t = logicServerGroup s"
    "dbServerGroup t = dbServerGroup s"
  shows "center_wf t = center_wf s"
  unfolding center_wf_def listed_def assms by (rule refl)

text \<open>An object that is changed in place keeps its type.\<close>

lemma center_wf_upd_info:
  assumes wf: "center_wf s" and i: "om_get (infos s) p = Some i" and ty: "si_type j = si_type i"
  shows "center_wf (s\<lparr>infos := om_upd p j (infos s)\<rparr>)"
proof -
  let ?t = "s\<lparr>infos := om_upd p j (infos s)\<rparr>"
  have listed: "listed ?t ty' = listed s ty'" for ty'
    using i ty by (intro ext) (auto simp: listed_def)
  have has: "om_has q (infos ?t) = om_has q (infos s)" for q
    using i by (auto simp: om_has_def)
  show ?thesis
    using wf unfolding center_wf_def listed has by simp
qed

lemma upd_info_good:
  assumes wf: "center_wf s" and p: "om_has p (infos s)" and ty: "\<And>i. si_type (f i) = si_type i"
  shows "\<exists>s'. upd_info p f s = Inr s' \<and> center_wf s' \<and> MachineRecord s' = MachineRecord s \<and>
     (\<forall>q. om_has q (infos s') = om_has q (infos s)) \<and> gateServerGroup s' = gateServerGroup s \<and>
     logicServerGroup s' = logicServerGroup s \<and> dbServerGroup s' = dbServerGroup s"
proof -
  obtain i where i: "om_get (infos s) p = Some i" using p by (auto elim: om_hasE)
  then show ?thesis
    using center_wf_upd_info [OF wf i ty] by (auto simp: upd_info_def deref_info_def om_has_def)
qed

section \<open>A machine goes\<close>

lemma forget_machine_good:
  assumes wf: "center_wf s"
  shows "\<exists>s'. forget_machine fd s = Inr s' \<and> center_wf s' \<and> connections s' = connections s \<and>
     om_get (MachineRecord s') = (om_get (MachineRecord s))(fd := None)"
proof (cases "om_get (MachineRecord s) fd")
  case None
  then show ?thesis using wf by (auto simp: forget_machine_def fun_upd_idem)
next
  case (Some p)
  note D = center_wfD [OF wf]
  obtain i where i: "om_get (infos s) p = Some i"
    using D(2) [OF Some] by (auto elim: om_hasE)
  let ?del = "\<lambda>ty g. if si_type i = ty then remove1 p g else g"
  let ?t = "s\<lparr>gateServerGroup := ?del 2 (gateServerGroup s), logicServerGroup := ?del 3 (logicServerGroup s),
      dbServerGroup := ?del 4 (dbServerGroup s), infos := om_del p (infos s),
      MachineRecord := om_del fd (MachineRecord s)\<rparr>"
  have run: "forget_machine fd s = Inr ?t"
    using Some i by (simp add: forget_machine_def RemoveServer_def deref_info_def RemoveServerFromGroup_def)
  have other: "fd' = fd" if "om_get (MachineRecord s) fd' = Some p" for fd'
    using D(1) [OF that Some] .
  have listed: "listed ?t ty q \<longleftrightarrow> listed s ty q \<and> q \<noteq> p" for ty q
  proof (cases "q = p")
    case True
    have "om_get (MachineRecord ?t) fd' \<noteq> Some p" for fd'
      using other [of fd'] by auto
    then show ?thesis using True by (simp add: listed_def)
  next
    case False
    have "(\<exists>fd'. ((om_get (MachineRecord s))(fd := None)) fd' = Some q) \<longleftrightarrow>
        (\<exists>fd'. om_get (MachineRecord s) fd' = Some q)"
      using False Some by (metis fun_upd_apply option.distinct(1) option.inject)
    then show ?thesis using False by (simp add: listed_def)
  qed
  have mine: "listed s ty p \<longleftrightarrow> si_type i = ty" for ty
    using Some i by (auto simp: listed_def)
  have del: "distinct (?del ty g) \<and> set (?del ty g) = Collect (listed ?t ty)"
    if "distinct g" "set g = Collect (listed s ty)" for ty g
  proof -
    have "Collect (listed ?t ty) = Collect (listed s ty) - {p}"
      by (intro set_eqI) (simp only: listed mem_Collect_eq Diff_iff singleton_iff)
    then show ?thesis
      using that mine [of ty] by (simp add: set_remove1_eq)
  qed
  have "center_wf ?t"
    unfolding center_wf_def
  proof (intro conjI allI impI)
    show "om_has q (infos ?t)" if "om_get (MachineRecord ?t) fd' = Some q" for fd' q
      using that D(2) [of fd' q] other [of fd'] by (auto split: if_splits)
    show "q < next_info ?t" if "om_get (MachineRecord ?t) fd' = Some q" for fd' q
      using that D(3) [of fd' q] by (auto split: if_splits)
    show "fd1 = fd2" if "om_get (MachineRecord ?t) fd1 = Some q" "om_get (MachineRecord ?t) fd2 = Some q"
      for fd1 fd2 q
      using that D(1) [of fd1 q fd2] by (auto split: if_splits)
  qed (use del [OF D(4,7)] del [OF D(5,8)] del [OF D(6,9)] in simp_all)
  then show ?thesis
    using run by auto
qed

section \<open>Closing\<close>

text \<open>What closing does to the registry: machines go, none comes.\<close>

definition registry_kept :: "'a CenterServer_scheme \<Rightarrow> 'a CenterServer_scheme \<Rightarrow> bool" where
  "registry_kept s t \<longleftrightarrow> (center_wf s \<longrightarrow> center_wf t) \<and>
     (\<forall>fd p. om_get (MachineRecord t) fd = Some p \<longrightarrow> om_get (MachineRecord s) fd = Some p)"

lemma center_wf_frame:
  "center_wf (net_do e s) = center_wf s" "center_wf (s\<lparr>connections := x\<rparr>) = center_wf s"
  "center_wf (s\<lparr>conns_count := n\<rparr>) = center_wf s"
  by (rule center_wf_cong; simp add: net_do_def io_tick_def)+

lemma registry_frame: "MachineRecord (net_do e s) = MachineRecord s"
  by (simp add: net_do_def io_tick_def)

lemma registry_stable: "net_stable center_wf registry_kept"
  unfolding net_stable_def registry_kept_def by (auto simp: center_wf_frame registry_frame)

lemma forget_machine_connections:
  "forget_machine fd s = Inr s1 \<Longrightarrow> connections s1 = connections s"
  by (auto simp: forget_machine_def RemoveServer_def split: option.splits)

lemma Center_close_local:
  assumes "agree_below (close_rank fd s) c c'"
  shows "CenterServer_close_body w c fd s = CenterServer_close_body w c' fd s"
proof (cases "forget_machine fd s")
  case (Inr s1)
  then have "close_rank fd s1 = close_rank fd s"
    by (simp add: close_rank_def forget_machine_connections)
  then show ?thesis
    using Inr ServerBase_Close_agree [of fd s1 c c' w] assms by (simp add: CenterServer_close_body_def)
qed (simp add: CenterServer_close_body_def)

lemma Center_close_shrinks:
  "shrinking c \<Longrightarrow> shrinking (CenterServer_close_body w c)"
  unfolding shrinking_def [of "CenterServer_close_body w c"]
  by (auto simp: CenterServer_close_body_def dest!: forget_machine_connections ServerBase_Close_shrinks)

lemma Center_close_good:
  assumes cfg: "net_config_ok (w_cfg w)" and good: "good_below (close_rank fd s) center_wf registry_kept c"
    and wf: "center_wf s"
  shows "\<exists>s'. CenterServer_close_body w c fd s = Inr s' \<and> registry_kept s s'"
proof -
  obtain s1 where s1: "forget_machine fd s = Inr s1" "center_wf s1" "connections s1 = connections s"
      "om_get (MachineRecord s1) = (om_get (MachineRecord s))(fd := None)"
    using forget_machine_good [OF wf] by blast
  have "registry_kept s s1" using s1(2,4) by (auto simp: registry_kept_def split: if_splits)
  moreover have "close_rank fd s1 = close_rank fd s" by (simp add: close_rank_def s1(3))
  with good ServerBase_Close_good [OF cfg registry_stable _ s1(2), of fd c]
  obtain s2 where "ServerBase_CloseClientSocket w c fd s1 = Inr s2" "registry_kept s1 s2"
    by auto
  ultimately show ?thesis
    using s1(1) by (auto simp: CenterServer_close_body_def registry_kept_def)
qed

interpretation cc: safe_closing "CenterServer_close_body w" center_wf registry_kept "net_config_ok (w_cfg w)"
proof
  fix c c' :: "'a CenterServer_scheme closer" and fd s
  show "CenterServer_close_body w c fd s = CenterServer_close_body w c' fd s"
    if "agree_below (close_rank fd s) c c'"
    using that by (rule Center_close_local)
  show "shrinking (CenterServer_close_body w c)" if "shrinking c"
    using that by (rule Center_close_shrinks)
  show "\<exists>s'. CenterServer_close_body w c fd s = Inr s' \<and> registry_kept s s'"
    if "net_config_ok (w_cfg w)" "good_below (close_rank fd s) center_wf registry_kept c" "center_wf s"
    using that by (rule Center_close_good)
qed

lemma Center_Close_good:
  "net_config_ok (w_cfg w) \<Longrightarrow> center_wf s \<Longrightarrow>
     \<exists>s'. CenterServer_CloseClientSocket w fd s = Inr s' \<and> center_wf s'"
  using cc.virtual_close_good [of w s fd] by (auto simp: CenterServer_CloseClientSocket_def registry_kept_def)

lemma Center_SendMsg_good:
  assumes cfg: "net_config_ok (w_cfg w)" and wf: "center_wf s"
  shows "\<exists>s'. Center_SendMsg w msg fd s = Inr s' \<and> center_wf s'"
  unfolding Center_SendMsg_def CenterServer_CloseClientSocket_def
  using SendMsg_good [OF cfg registry_stable cc.virtual_close_good_below [OF cfg] lessI wf, of msg fd] wf
  by (auto simp: registry_kept_def)

section \<open>A machine comes\<close>

lemma RegisterServer_good:
  assumes wf: "center_wf s" and fd: "om_get (MachineRecord s) fd = None" and p: "p = next_info s"
  shows "\<exists>s'. RegisterServer p (s\<lparr>MachineRecord := om_upd fd p (MachineRecord s),
       infos := om_upd p i (infos s), next_info := p + 1\<rparr>) = Inr s' \<and>
     center_wf s' \<and> om_get (MachineRecord s') fd = Some p"
proof -
  note D = center_wfD [OF wf]
  have new: "om_get (MachineRecord s) fd' \<noteq> Some p" for fd'
    using D(3) [of fd' p] p by auto
  let ?add = "\<lambda>ty g. if si_type i = ty then g @ [p] else g"
  have wf': "center_wf (s\<lparr>MachineRecord := om_upd fd p (MachineRecord s), next_info := p + 1,
      infos := om_upd p j (infos s), gateServerGroup := ?add 2 (gateServerGroup s),
      logicServerGroup := ?add 3 (logicServerGroup s), dbServerGroup := ?add 4 (dbServerGroup s)\<rparr>)"
    (is "center_wf ?t") if j: "si_type j = si_type i" for j
  proof -
    have keep: "listed ?t ty q = listed s ty q" if "q \<noteq> p" for ty q
    proof -
      have "(\<exists>fd'. om_get (om_upd fd p (MachineRecord s)) fd' = Some q) \<longleftrightarrow>
          (\<exists>fd'. om_get (MachineRecord s) fd' = Some q)"
        using that fd by (metis (no_types) fun_upd_apply om_get_upd option.distinct(1) option.inject)
      then show ?thesis using that by (simp add: listed_def)
    qed
    have mine: "listed ?t ty p \<longleftrightarrow> si_type i = ty" "\<not> listed s ty p" for ty
      using j new by (auto simp: listed_def)
    have set: "Collect (listed ?t ty) =
        (if si_type i = ty then insert p (Collect (listed s ty)) else Collect (listed s ty))" for ty
    proof (intro set_eqI)
      fix q
      show "q \<in> Collect (listed ?t ty) \<longleftrightarrow>
          q \<in> (if si_type i = ty then insert p (Collect (listed s ty)) else Collect (listed s ty))"
        using keep [of q ty] mine [of ty] by (cases "q = p") simp_all
    qed
    have add: "distinct (?add ty g) \<and> set (?add ty g) = Collect (listed ?t ty)"
      if "distinct g" "set g = Collect (listed s ty)" for ty g
      using that mine(2) unfolding set by simp
    show ?thesis
      unfolding center_wf_def
    proof (intro conjI allI impI)
      show "om_has q (infos ?t)" if "om_get (MachineRecord ?t) fd' = Some q" for fd' q
        using that D(2) [of fd' q] by (auto split: if_splits)
      show "q < next_info ?t" if "om_get (MachineRecord ?t) fd' = Some q" for fd' q
        using that D(3) [of fd' q] p by (auto split: if_splits)
      show "fd1 = fd2" if "om_get (MachineRecord ?t) fd1 = Some q" "om_get (MachineRecord ?t) fd2 = Some q"
        for fd1 fd2 q
        using that D(1) [of fd1 q fd2] new by (auto split: if_splits)
    qed (use add [OF D(4,7)] add [OF D(5,8)] add [OF D(6,9)] in simp_all)
  qed
  let ?s = "s\<lparr>MachineRecord := om_upd fd p (MachineRecord s), infos := om_upd p i (infos s),
     next_info := p + 1\<rparr>"
  have get: "deref_info p ?s = Inr i" by (simp add: deref_info_def)
  consider (logic) "si_type i = 3" | (gate) "si_type i = 2" | (db) "si_type i = 4"
    | (other) "si_type i \<noteq> 2" "si_type i \<noteq> 3" "si_type i \<noteq> 4"
    by blast
  then show ?thesis
  proof cases
    case logic
    then show ?thesis
      using wf' [of "i\<lparr>si_id := int (length (logicServerGroup s))\<rparr>"]
      by (simp add: RegisterServer_def upd_info_def get)
  next
    case gate
    then show ?thesis
      using wf' [of "i\<lparr>si_id := int (length (gateServerGroup s))\<rparr>"]
      by (simp add: RegisterServer_def upd_info_def get)
  next
    case db
    then show ?thesis
      using wf' [of "i\<lparr>si_id := int (length (dbServerGroup s))\<rparr>"]
      by (simp add: RegisterServer_def upd_info_def get)
  next
    case other
    have "center_wf ?s"
      using wf' [of i] other
      by (subst center_wf_cong [where s = "s\<lparr>MachineRecord := om_upd fd p (MachineRecord s),
          next_info := p + 1, infos := om_upd p i (infos s)\<rparr>"]) simp_all
    then show ?thesis
      using other by (simp add: RegisterServer_def get)
  qed
qed

text \<open>The handler does not look beyond the body it is given.\<close>

lemma center_handler_exact: "reads_exactly (CenterServer_OnMsgBodyAnalysised w)"
  by (simp add: reads_exactly_def CenterServer_OnMsgBodyAnalysised_def base_handler_exact)

text \<open>The registry spelled out.\<close>

lemma center_wf_groups:
  assumes wf: "center_wf s"
  shows "distinct (gateServerGroup s @ logicServerGroup s @ dbServerGroup s) \<and>
     (\<forall>p. p \<in> set (gateServerGroup s @ logicServerGroup s @ dbServerGroup s) \<longleftrightarrow>
        (\<exists>fd i. om_get (MachineRecord s) fd = Some p \<and> om_get (infos s) p = Some i \<and>
           (si_type i = server_type_code GATE \<and> p \<in> set (gateServerGroup s) \<or>
            si_type i = server_type_code LOGIC \<and> p \<in> set (logicServerGroup s) \<or>
            si_type i = server_type_code DATABASE \<and> p \<in> set (dbServerGroup s)))) \<and>
     (\<forall>fd p. om_get (MachineRecord s) fd = Some p \<longrightarrow> om_has p (infos s) \<and>
        (\<forall>fd'. om_get (MachineRecord s) fd' = Some p \<longrightarrow> fd' = fd))"
proof -
  note D = center_wfD [OF wf]
  have "set (gateServerGroup s) \<inter> set (logicServerGroup s) = {}" "set (gateServerGroup s) \<inter> set (dbServerGroup s) = {}"
    "set (logicServerGroup s) \<inter> set (dbServerGroup s) = {}"
    unfolding D(7-9) by (auto simp: listed_def)
  then have "distinct (gateServerGroup s @ logicServerGroup s @ dbServerGroup s)"
    using D(4-6) by auto
  moreover have "\<exists>fd i. om_get (MachineRecord s) fd = Some p \<and> om_get (infos s) p = Some i \<and> si_type i = ty"
    if "listed s ty p" for ty p
    using that by (auto simp: listed_def)
  ultimately show ?thesis
    using D(1,2,7-9) by fastforce
qed

end
