(* ===== verification/Example_World.thy ===== *)
theory Example_World
  imports ServerBase Message_Wire
begin

text \<open>
  A concrete environment, for the theorems that apply a property to an input: the shipped network
  constants with a small room pool, sockets that take everything, a clock that stands still and
  a protobuf codec with empty encodings.
\<close>

definition example_cfg :: Config where
  "example_cfg =
     \<lparr>IS_CHASE_FRAME = True, DEBUG = False, PRESSURE_TEST = False, HEAD_SIZE = 12, HEAD_SIZE_S = 4,
      TMP_BUFFER_SIZE = 1024, MAX_BUFFER_SIZE = 1048576, EPOLL_WAIT_TIME = 5, MAX_CLIENTS = 3072,
      ROOM_SIZE = 2, DEFAULT_ROOM_COUNT = 2, ROOM_POOL_SIZE = 2, ONE_FRAME_MS = 66,
      CHECK_ALL_CLIENT_CONN = 500, TRY_CONNECT_SERVER_TIME = 1000, MAX_HEARTBEAT_DIFF = 4000,
      SEND_CENTERSERVER_TIME = 5000, GATE_SERVERS = [], LOGIC_SERVERS = [],
      CENTER_SERVER = (''127.0.0.1'', 30000, ''center''),
      DATABASE_SERVER = (''127.0.0.1'', 40000, ''db''), LOCAL_IP = ''127.0.0.1'',
      SERVER_FREE_COUNT = 10, SERVER_COMMON_COUNT = 250, SERVER_BUSY_COUNT = 1145\<rparr>"

definition example_pb :: protobuf where
  "example_pb = \<lparr>pb_enc = (\<lambda>b. []), pb_dec = (\<lambda>p bs. (True, p))\<rparr>"

definition example_os :: os where
  "example_os =
     \<lparr>os_socket = (\<lambda>n. Some 9), os_setsockopt = (\<lambda>n. True), os_bind = (\<lambda>n p. True),
      os_listen = (\<lambda>n. True), os_accept = (\<lambda>n. Some 7), os_inet_pton = (\<lambda>ip. True),
      os_connect = (\<lambda>n ip p. True), os_epoll_create = (\<lambda>n. Some 3), os_epoll_add = (\<lambda>n fd. True),
      os_epoll_wait = (\<lambda>n. Some []), os_recv = (\<lambda>n fd. ([], WouldBlock)),
      os_stale_errno = (\<lambda>n. False), os_send = (\<lambda>n fd b. True), os_time = (\<lambda>n. 9000),
      os_random = (\<lambda>n. 7), os_local_ips = (\<lambda>n. (''127.0.0.1'', ''127.0.0.1'')),
      os_garbage = (\<lambda>n k. 0)\<rparr>"

definition example_world :: world where
  "example_world = \<lparr>w_cfg = example_cfg, w_pb = example_pb, w_os = example_os, w_retries = 3\<rparr>"

lemmas example_defs = example_world_def example_cfg_def example_pb_def example_os_def

lemma example_world_fields [simp]:
  "w_cfg example_world = example_cfg" "w_pb example_world = example_pb"
  "w_os example_world = example_os" "w_retries example_world = 3"
  by (simp_all add: example_world_def)

lemma example_cfg_ok [simp]: "net_config_ok example_cfg" "room_config_ok example_cfg"
  by (simp_all add: net_config_ok_def room_config_ok_def example_cfg_def)

lemma example_cfg_fields [simp]:
  "HEAD_SIZE example_cfg = 12" "HEAD_SIZE_S example_cfg = 4" "MAX_BUFFER_SIZE example_cfg = 1048576"
  "ROOM_SIZE example_cfg = 2" "DEFAULT_ROOM_COUNT example_cfg = 2" "ROOM_POOL_SIZE example_cfg = 2"
  "MAX_HEARTBEAT_DIFF example_cfg = 4000" "PRESSURE_TEST example_cfg = False"
  by (simp_all add: example_cfg_def)

lemma example_pb_keeps [simp]: "pb_keeps_class example_pb"
  by (simp add: pb_keeps_class_def example_pb_def)

lemma example_os_fields [simp]:
  "os_send example_os n fd b" "os_time example_os n = 9000" "os_random example_os n = 7"
  by (simp_all add: example_os_def)

text \<open>The count of connections without a connection to the center.\<close>

lemma SendConnsChange_lost:
  "\<not> om_has (center_server_client s) (connections s) \<Longrightarrow>
     SendConnsChange w c ty ip port d s = Inr (s\<lparr>conns_count := conns_count s + d\<rparr>)"
  by (simp add: SendConnsChange_def SendToCenterServerConnChange_def SendMsg_def Let_def)

text \<open>A packet with an empty body.\<close>

lemma parse_empty:
  assumes "CreateMessageBody (m_packageType h) = Some p" "pb_dec (w_pb w) p [] = (True, q)"
  shows "ServerBase_OnMsgBodyAnalysised w \<lparr>m_head = h, m_body = None\<rparr> [] 0 =
     Inr \<lparr>m_head = h, m_body = Some (Some q)\<rparr>"
  using assms by (simp add: ServerBase_OnMsgBodyAnalysised_def MessageBody_ParseFromArray_def)

end
