(* ===== verification/Net_Properties.thy ===== *)
theory Net_Properties
  imports Center_Inv Example_World
begin

text \<open>
  Properties of the byte level and of the receive path: the codecs, the ring buffer and the
  framing of packets, each with an application to a concrete input.
\<close>

section \<open>Codecs\<close>

text \<open>C20: a message that is serialized into an array of its own length and decoded from it comes
  back unchanged, head and body, whatever its type, as long as the codec of its body class
  recovers the body.\<close>

theorem message_roundtrip:
  assumes "net_config_ok cfg" "head_ok (m_head msg)"
    and "CreateMessageBody (m_packageType (m_head msg)) = Some p"
    and "m_body msg = Some (Some b)" "pb_recovers pb p b"
    and "len = Message_length cfg pb (m_body msg)"
  shows "\<exists>buffer. Message_SerializeToArray cfg pb msg (replicate (nat len) 0) len = Inr (True, buffer) \<and>
     int (length buffer) = len \<and> DecodeMessage cfg pb buffer len = Inr msg"
proof -
  have l: "int (length (packet_bytes pb msg)) = len"
    using length_packet_bytes [OF assms(1), of pb msg] assms(6) by simp
  then have "Message_SerializeToArray cfg pb msg (replicate (nat len) 0) len = Inr (True, packet_bytes pb msg)"
    using assms(6) by (auto simp: Message_Serialize_array [OF assms(1)])
  then show ?thesis
    using l DecodeMessage_packet [OF assms] by blast
qed

theorem message_roundtrip_witness:
  "\<exists>buffer. Message_SerializeToArray example_cfg example_pb (make_message example_cfg example_pb UserHeart 5 B_UserHeart)
       (replicate 12 0) 12 = Inr (True, buffer) \<and> int (length buffer) = 12 \<and>
     DecodeMessage example_cfg example_pb buffer 12 = Inr (make_message example_cfg example_pb UserHeart 5 B_UserHeart)"
proof -
  have body: "CreateMessageBody 75 = Some B_UserHeart"
    using CreateMessageBody_code [of UserHeart] by simp
  have len: "12 = Message_length example_cfg example_pb (Some (Some B_UserHeart))"
    by (simp add: Message_length_def MessageBody_length_def example_pb_def)
  have "\<exists>buffer. Message_SerializeToArray example_cfg example_pb (make_message example_cfg example_pb UserHeart 5 B_UserHeart)
       (replicate (nat 12) 0) 12 = Inr (True, buffer) \<and> int (length buffer) = 12 \<and>
     DecodeMessage example_cfg example_pb buffer 12 = Inr (make_message example_cfg example_pb UserHeart 5 B_UserHeart)"
    by (rule message_roundtrip [where p = B_UserHeart and b = B_UserHeart])
      (use body len in \<open>simp_all add: head_ok_def int32_def pb_recovers_def example_pb_def\<close>)
  then show ?thesis by simp
qed

text \<open>A head survives its 12 bytes, with whatever follows them; with fewer than 12 bytes the
  parser reads past the end.\<close>

theorem head_roundtrip:
  assumes "net_config_ok cfg" "head_ok h" "length buffer = 12" "length bytes < 12"
  shows "\<exists>bs. SerailizeToArray cfg h buffer 12 = Inr (True, bs) \<and> length bs = 12 \<and>
     MessageHead_parse cfg (bs @ rest) (HEAD_SIZE cfg) = Inr h \<and>
     MessageHead_parse cfg bytes (HEAD_SIZE cfg) = Inl OutOfBounds"
proof -
  have hs: "HEAD_SIZE cfg = 12" using assms(1) by (simp add: net_config_ok_def)
  show ?thesis
    using SerailizeToArray_bytes [OF assms(1), of 12 buffer h] MessageHead_parse_bytes [OF assms(1) _ assms(2), of 12 rest]
      MessageHead_parse_short [OF assms(1,4)] assms(3) hs by (intro exI [of _ "head_bytes h"]) simp
qed

theorem head_roundtrip_witness:
  "\<exists>bs. SerailizeToArray example_cfg \<lparr>m_packageSize = 300, m_packageType = -2, m_userid = 70000\<rparr>
       (replicate 12 0) 12 = Inr (True, bs) \<and> length bs = 12 \<and>
     MessageHead_parse example_cfg (bs @ [1, 2]) (HEAD_SIZE example_cfg) =
       Inr \<lparr>m_packageSize = 300, m_packageType = -2, m_userid = 70000\<rparr> \<and>
     MessageHead_parse example_cfg [1, 2, 3] (HEAD_SIZE example_cfg) = Inl OutOfBounds"
  by (rule head_roundtrip) (simp_all add: head_ok_def int32_def)

text \<open>The four bytes written for an integer are read back as that integer exactly on the
  range of an \<open>int\<close>, and different integers have different bytes; outside the range the value
  comes back reduced modulo 2 to the 32.\<close>

theorem int_bytes:
  "ByteToInt (IntToByte x @ rest) = Inr (signed_take_bit 31 x) \<and>
   (int32 x \<longrightarrow> ByteToInt (IntToByte x @ rest) = Inr x) \<and>
   (int32 x \<longrightarrow> int32 y \<longrightarrow> IntToByte x = IntToByte y \<longrightarrow> x = y)"
proof (intro conjI impI)
  show "ByteToInt (IntToByte x @ rest) = Inr (signed_take_bit 31 x)"
    by (simp add: ByteToInt_ByteToUint IntToByte_UintToByte sint_sbintrunc')
  show "ByteToInt (IntToByte x @ rest) = Inr x" if "int32 x"
    using that by simp
  show "x = y" if "int32 x" "int32 y" "IntToByte x = IntToByte y"
    using that by (rule ic.enc_inj)
qed

theorem int_bytes_witness:
  "ByteToInt (IntToByte (-3) @ [7]) = Inr (-3) \<and> ByteToInt (IntToByte 4294967301 @ [7]) = Inr 5"
proof -
  have "int32 (-3)" by (simp add: int32_def)
  then show ?thesis
    using int_bytes [of "-3" "[7]" 0] int_bytes [of 4294967301 "[7]" 0]
    by simp
qed

section \<open>The receive buffer\<close>

text \<open>C21: the ring buffer is a bounded first-in first-out queue of bytes: \<open>AddBuffer\<close> appends a
  chunk that fits and refuses one that does not without changing anything, \<open>GetBuffer\<close> copies a
  prefix without consuming it and \<open>PopBuffer\<close> drops one, wherever the cursors stand.\<close>

theorem ring_buffer_queue:
  assumes "rb_wf cfg rb" "length xs < 2 ^ 32" "n \<le> length (rb_view cfg rb)"
  shows "(if length (rb_view cfg rb) + length xs \<le> nat (MAX_BUFFER_SIZE cfg)
          then \<exists>rb'. AddBuffer cfg xs rb = Inr (True, rb') \<and> rb_wf cfg rb' \<and>
                 rb_view cfg rb' = rb_view cfg rb @ xs
          else AddBuffer cfg xs rb = Inr (False, rb)) \<and>
     GetBuffer cfg (word_of_nat n) rb = Inr (take n (rb_view cfg rb)) \<and>
     (\<exists>rb'. PopBuffer cfg (word_of_nat n) rb = (True, rb') \<and> rb_wf cfg rb' \<and>
        rb_view cfg rb' = drop n (rb_view cfg rb))"
  using rb.add_fits [OF assms(1,2)] rb.add_full [OF assms(1,2)] rb.get_prefix [OF assms(1,3)]
    rb.pop_drop [OF assms(1,3)] by (simp add: not_le)

theorem ring_buffer_queue_witness:
  "\<exists>rb'. AddBuffer example_cfg [1, 2, 3] (RingBuffer_new example_cfg) = Inr (True, rb') \<and>
     rb_view example_cfg rb' = [1, 2, 3]"
  using ring_buffer_queue [of example_cfg "RingBuffer_new example_cfg" "[1, 2, 3]" 0]
    RingBuffer_new_wf [of example_cfg] by auto

text \<open>The chunks of one receive event are kept in order; when the buffer runs full, a whole
  number of chunks has been kept and the first that did not fit ends the reading.\<close>

theorem chunks_in_order:
  assumes "rb_wf (w_cfg w) rb" "\<forall>c\<in>set chunks. length c < 2 ^ 32"
  shows "\<exists>ok rb' k. recv_loop w chunks rb = Inr (ok, rb') \<and> rb_wf (w_cfg w) rb' \<and>
     rb_view (w_cfg w) rb' = rb_view (w_cfg w) rb @ concat (take k chunks) \<and>
     (ok \<longrightarrow> k = length chunks) \<and>
     (length (rb_view (w_cfg w) rb) + length (concat chunks) \<le> nat (MAX_BUFFER_SIZE (w_cfg w)) \<longrightarrow> ok)"
proof -
  obtain ok rb' k where r: "recv_loop w chunks rb = Inr (ok, rb')" "rb_wf (w_cfg w) rb'"
      "rb_view (w_cfg w) rb' = rb_view (w_cfg w) rb @ concat (take k chunks)" "ok \<longrightarrow> k = length chunks"
    using rb.add_chunks_prefix [OF assms] by (auto simp: recv_loop_chunks)
  moreover have "ok" if "length (rb_view (w_cfg w) rb) + length (concat chunks) \<le> nat (MAX_BUFFER_SIZE (w_cfg w))"
    using rb.add_chunks_fit [OF assms that] r(1) by (auto simp: recv_loop_chunks)
  ultimately show ?thesis by blast
qed

theorem chunks_in_order_witness:
  "\<exists>ok rb' k. recv_loop example_world [[1, 2], [3]] (RingBuffer_new example_cfg) = Inr (ok, rb') \<and>
     rb_view example_cfg rb' = concat (take k [[1, 2], [3]]) \<and> (ok \<longrightarrow> k = 2)"
  using chunks_in_order [of example_world "RingBuffer_new example_cfg" "[[1, 2], [3]]"]
    RingBuffer_new_wf [of example_cfg] by fastforce

section \<open>Packets\<close>




definition connected_center :: CenterServer where
  "connected_center = CenterServer_new\<lparr>connections := [(7, 0, RingBuffer_new example_cfg)]\<rparr>"




text \<open>The framing loop never asks whether the packet it found is complete: when only a part of a
  well-formed packet has arrived, the center server reads its body past the end of the copied
  bytes.\<close>

theorem partial_packet_overread:
  assumes "net_config_ok (w_cfg w)" "head_ok h" "CheckHeaderIsValid (w_cfg w) h"
    and "int (length (head_bytes h @ body)) < m_packageSize h"
    and "CreateMessageBody (m_packageType h) = Some p"
  shows "frame_loop (Suc n) w (CenterServer_OnMsgBodyAnalysised w) (head_bytes h @ body)
           (word_of_nat (length (head_bytes h @ body))) fd s = Inl OutOfBounds"
  by (rule frame_loop_partial [OF assms, where act = "\<lambda>m s. Center_dispatch w m fd s"])
    (simp add: CenterServer_OnMsgBodyAnalysised_def)

theorem partial_packet_overread_witness:
  "frame_loop 1 example_world (CenterServer_OnMsgBodyAnalysised example_world)
     (head_bytes \<lparr>m_packageSize = 20, m_packageType = bodytype_code ServerInfo, m_userid = 0\<rparr> @ [1, 2, 3])
     (word_of_nat 15) 7 connected_center = Inl OutOfBounds"
proof -
  let ?h = "\<lparr>m_packageSize = 20, m_packageType = bodytype_code ServerInfo, m_userid = 0\<rparr>"
  have "frame_loop (Suc 0) example_world (CenterServer_OnMsgBodyAnalysised example_world)
      (head_bytes ?h @ [1, 2, 3]) (word_of_nat (length (head_bytes ?h @ [1, 2, 3]))) 7 connected_center =
      Inl OutOfBounds"
  proof (rule partial_packet_overread)
    have "CreateMessageBody (bodytype_code ServerInfo) = body_prototype ServerInfo"
      by (rule CreateMessageBody_code)
    then show "CreateMessageBody (m_packageType ?h) = Some (B_ServerInfo new_ServerInfo)" by simp
  qed (simp_all add: head_ok_def int32_def CheckHeaderIsValid_def)
  then show ?thesis by (simp del: frame_loop.simps)
qed

end
