(* ===== verification/Room_Talk.thy ===== *)
theory Room_Talk
  imports Room_Machine
begin

text \<open>
  What a room says and to whom: every message a room's method sends has a type under which the
  receiver (\<open>CreateMessageBody\<close>) makes an object of the class the room filled in, and goes to a
  user of the room or to the one the call is about.
\<close>

text \<open>The receiver makes the class that was sent out of the announced type.\<close>

definition type_fits :: "BODYTYPE \<Rightarrow> proto_body \<Rightarrow> bool" where
  "type_fits ty b \<longleftrightarrow>
     (case CreateMessageBody (bodytype_code ty) of None \<Rightarrow> False | Some p \<Rightarrow> body_class p = body_class b)"

definition proper :: "int set \<Rightarrow> outgoing \<Rightarrow> bool" where
  "proper A x \<longleftrightarrow> (case x of (ty, b, u) \<Rightarrow> type_fits ty b \<and> u \<in> A)"

text \<open>All users a room knows are among \<open>A\<close>.\<close>

definition known_to :: "int set \<Rightarrow> Room \<Rightarrow> bool" where
  "known_to A r \<longleftrightarrow> set (om_keys (userid2userpid r)) \<subseteq> A \<and> set (om_keys (userid2roleid r)) \<subseteq> A \<and>
     set (om_keys (in_game_id2pid r)) \<subseteq> A \<and> set (om_keys (id2name r)) \<subseteq> A"

definition talks :: "int set \<Rightarrow> Room \<Rightarrow> Room \<Rightarrow> bool" where
  "talks A r r' \<longleftrightarrow> (known_to A r \<longrightarrow>
     known_to A r' \<and> (\<exists>out. outbox r' = outbox r @ out \<and> list_all (proper A) out))"

section \<open>Building blocks\<close>

lemma talks_refl [simp]: "talks A r r"
  by (simp add: talks_def)

lemma talks_trans: "talks A r s \<Longrightarrow> talks A s t \<Longrightarrow> talks A r t"
  unfolding talks_def by fastforce

lemma talks_fold: "(\<And>x r. x \<in> set xs \<Longrightarrow> talks A r (f x r)) \<Longrightarrow> talks A r (fold f xs r)"
proof (induction xs arbitrary: r)
  case (Cons x xs)
  have "talks A r (f x r)" by (rule Cons.prems) simp
  moreover have "talks A (f x r) (fold f xs (f x r))" by (rule Cons.IH) (use Cons.prems in simp)
  ultimately show ?case by (auto intro: talks_trans)
qed simp

lemma talks_known: "(known_to A r \<Longrightarrow> talks A r r') \<Longrightarrow> talks A r r'"
  by (auto simp: talks_def)

text \<open>A step that says nothing and learns of nobody new.\<close>

lemma talks_quiet:
  "outbox r' = outbox r \<Longrightarrow> (known_to A r \<Longrightarrow> known_to A r') \<Longrightarrow> talks A r r'"
  by (simp add: talks_def)

lemma talks_send: "type_fits ty b \<Longrightarrow> u \<in> A \<Longrightarrow> talks A r (room_send ty b u r)"
  by (simp add: talks_def room_send_def known_to_def proper_def)

lemma type_fits_all:
  "type_fits NotifyRoomInfo (B_NotifyRoomInfo a)" "type_fits StartGame (B_StartGame b)"
  "type_fits EndGame (B_EndGame c)" "type_fits LeaveRoom (B_LeaveRoom d)"
  "type_fits JoinRoom (B_JoinRoom e)" "type_fits Frame (B_Frame f)"
  "type_fits Reconnect (B_Reconnect g)" "type_fits ChaseFrame (B_GameReplay h)"
  by (simp_all add: type_fits_def CreateMessageBody_def del: bodytype_code.simps)

lemma dom_fold_touch [simp]: "dom (map_of (fold (om_touch d) ks m)) = dom (map_of m) \<union> set ks"
proof (induction ks arbitrary: m)
  case (Cons k ks)
  have "dom (map_of (om_touch d k m)) = insert k (dom (map_of m))"
    by (auto simp: om_touch_def om_has_def)
  then show ?case using Cons by auto
qed simp

lemma known_touch:
  "known_to A r \<Longrightarrow> u \<in> A \<Longrightarrow> known_to A (r\<lparr>userid2userpid := om_touch 0 u (userid2userpid r)\<rparr>)"
  "known_to A r \<Longrightarrow> u \<in> A \<Longrightarrow> known_to A (r\<lparr>userid2roleid := om_touch 0 u (userid2roleid r)\<rparr>)"
  using dom_fold_touch [of 0 "[u]" "userid2userpid r"] dom_fold_touch [of 0 "[u]" "userid2roleid r"]
  by (simp_all add: known_to_def)

section \<open>The methods\<close>

lemma talks_crash [simp]: "talks A r (room_crash f r)"
  by (rule talks_quiet) (simp_all add: room_crash_def known_to_def)

lemma talks_operate [simp]: "talks A r (add_operate op r)"
  by (rule talks_quiet) (simp_all add: add_operate_def known_to_def)

lemma talks_info:
  assumes "u \<in> A"
  shows "talks A r (SendRoomAllInfo u r)"
proof (rule talks_trans)
  show "talks A r (snd (GetRoomUserInfos r))"
    by (rule talks_quiet) (auto simp: GetRoomUserInfos_def Let_def room_crash_def known_to_def)
  show "talks A (snd (GetRoomUserInfos r)) (SendRoomAllInfo u r)"
    using talks_send [OF type_fits_all(1) assms] by (simp add: SendRoomAllInfo_def case_prod_beta)
qed

lemma talks_all_info: "talks A r (SendRoomAllInfoToAll r)"
  unfolding SendRoomAllInfoToAll_def
  by (rule talks_known, rule talks_fold, rule talks_info) (auto simp: known_to_def)

lemma talks_start_notice:
  assumes "u \<in> A"
  shows "talks A r (NotifyGameStartToUser u r)"
  unfolding NotifyGameStartToUser_def
  by (rule talks_trans [OF talks_quiet talks_send]) (simp_all add: known_touch assms type_fits_all)

lemma talks_start: "talks A r (NotifyGameStart r)"
  unfolding NotifyGameStart_def
  by (rule talks_known, rule talks_fold, rule talks_start_notice) (auto simp: known_to_def)

lemma talks_broadcast: "type_fits ty b \<Longrightarrow> talks A r (BroadCastToGame ty b r)"
  unfolding BroadCastToGame_def
  by (rule talks_known, rule talks_fold, rule talks_send) (auto simp: known_to_def)

lemma talks_join_notice:
  assumes "u \<in> A"
  shows "talks A r (NotifyUserJoinGame u r)"
  unfolding NotifyUserJoinGame_def
  by (auto intro!: talks_trans [OF talks_quiet talks_operate] simp: known_touch assms)

lemma talks_quit_notice: "talks A r (NotifyUserQuitGame u r)"
  by (simp add: NotifyUserQuitGame_def)

lemma talks_game:
  "talks A r (Room_LeaveFromGame u r)" "talks A r (Room_EndGame r)" "talks A r (kick_from_game us r)"
proof (induction u r and r and us r rule: Room_LeaveFromGame_Room_EndGame_kick_from_game.induct)
  case (1 u r)
  let ?r1 = "r\<lparr>in_game_id2pid := om_del u (in_game_id2pid r)\<rparr>"
  let ?r2 = "NotifyUserQuitGame u ?r1"
  let ?r3 = "if in_game_id2pid ?r2 = [] then Room_EndGame ?r2 else ?r2"
  show ?case
  proof (cases "om_has u (in_game_id2pid r)")
    case True
    have "talks A r ?r1" by (rule talks_quiet) (auto simp: known_to_def)
    moreover have "talks A ?r1 ?r2" by (rule talks_quit_notice)
    moreover have "talks A ?r2 ?r3" using "1.IH" True by simp
    ultimately have "talks A r (SendRoomAllInfoToAll ?r3)"
      by (intro talks_trans [OF _ talks_trans [OF _ talks_trans [OF _ talks_all_info]]])
    then show ?thesis using True by (simp add: Room_LeaveFromGame.simps Let_def)
  qed (simp add: Room_LeaveFromGame.simps)
next
  case (2 r)
  let ?r1 = "NotifyGameEnd (r\<lparr>m_gameStarted := False\<rparr>)"
  show ?case
  proof (cases "m_gameStarted r")
    case True
    have "talks A r (r\<lparr>m_gameStarted := False\<rparr>)" by (rule talks_quiet) (simp_all add: known_to_def)
    moreover have "talks A (r\<lparr>m_gameStarted := False\<rparr>) ?r1"
      unfolding NotifyGameEnd_def by (rule talks_broadcast) (simp add: type_fits_all)
    moreover have "talks A ?r1 (kick_from_game (om_keys (in_game_id2pid ?r1)) ?r1)" using "2.IH" True by simp
    ultimately have "talks A r (SendRoomAllInfoToAll (kick_from_game (om_keys (in_game_id2pid ?r1)) ?r1))"
      by (intro talks_trans [OF _ talks_trans [OF _ talks_trans [OF _ talks_all_info]]])
    then show ?thesis using True by (simp add: Room_EndGame.simps Let_def)
  qed (simp add: Room_EndGame.simps)
next
  case (4 u us r)
  then show ?case by (auto intro: talks_trans)
qed simp_all

lemma talks_host: "talks A r (ChangeRoomHost u r)"
  by (rule talks_quiet) (simp_all add: ChangeRoomHost_def known_to_def)

lemma talks_leave:
  assumes "u \<in> A"
  shows "talks A r (Room_LeaveFromRoom u r)"
proof -
  let ?r = "Room_LeaveFromGame u r"
  let ?r1 = "?r\<lparr>userpid_pool := os_ins (om_at 0 (userid2userpid ?r) u) (userpid_pool ?r),
      userid2userpid := om_del u (userid2userpid ?r), userid2roleid := om_del u (userid2roleid ?r),
      id2name := om_del u (id2name ?r)\<rparr>"
  have 1: "talks A ?r ?r1" by (rule talks_quiet) (auto simp: known_to_def)
  have 2: "talks A ?r1 (if host_userid ?r1 = u
      then (case userid2userpid ?r1 of [] \<Rightarrow> ChangeRoomHost (-1) ?r1 | e # _ \<Rightarrow> ChangeRoomHost (fst e) ?r1)
      else ?r1)"
    by (simp add: talks_host split: list.split)
  note member = talks_trans [OF talks_game(1) talks_trans [OF 1 talks_trans [OF 2 talks_all_info]]]
  show ?thesis
  proof (cases "om_has u (userid2userpid ?r)")
    case True
    then show ?thesis using member unfolding Room_LeaveFromRoom_def Let_def by simp
  next
    case False
    then show ?thesis
      unfolding Room_LeaveFromRoom_def Let_def
      by (simp add: talks_trans [OF talks_game(1) talks_send] type_fits_all assms)
  qed
qed

lemma talks_join_game:
  assumes "u \<in> A"
  shows "talks A r (Room_JoinGame u r)"
proof -
  let ?r1 = "NotifyUserJoinGame u r"
  have "talks A ?r1 (?r1\<lparr>in_game_id2pid := om_upd u (om_at 0 (userid2userpid ?r1) u) (in_game_id2pid ?r1)\<rparr>)"
    by (rule talks_quiet) (auto simp: known_to_def assms simp flip: set_om_keys)
  then show ?thesis
    using talks_trans [OF talks_join_notice [OF assms]] by (simp add: Room_JoinGame_def Let_def)
qed

lemma talks_join_room:
  assumes "u \<in> A"
  shows "talks A r (snd (Room_JoinRoom name u r))"
proof -
  let ?message = "new_JoinRoom\<lparr>jr_type := RESPONSE, jr_ret := False, jr_roomid := -1\<rparr>"
  let ?r1 = "if userpid_pool r = [] then Resize (m_size r + 1) r else r"
  have grow: "talks A r ?r1"
    by (rule talks_quiet) (simp_all add: Resize_def Let_def known_to_def)
  have "talks A ?r1 (snd (case userpid_pool ?r1 of [] \<Rightarrow> (True, room_crash EmptyContainer ?r1)
      | pid # _ \<Rightarrow>
          let r2 = ?r1\<lparr>userpid_pool := os_del pid (userpid_pool ?r1), userid2userpid := om_upd u pid (userid2userpid ?r1),
                userid2roleid := om_upd u 1 (userid2roleid ?r1), id2name := om_upd u name (id2name ?r1)\<rparr>;
              r3 = (if host_userid r2 = -1 then ChangeRoomHost u r2 else r2)
          in (True, SendRoomAllInfoToAll (room_send JoinRoom (B_JoinRoom (?message\<lparr>jr_ret := True, jr_roomid := m_id r3,
               jr_result := txt_join_ok\<rparr>)) u r3))))"
  proof (cases "userpid_pool ?r1")
    case (Cons pid rest)
    let ?r2 = "?r1\<lparr>userpid_pool := os_del pid (userpid_pool ?r1), userid2userpid := om_upd u pid (userid2userpid ?r1),
        userid2roleid := om_upd u 1 (userid2roleid ?r1), id2name := om_upd u name (id2name ?r1)\<rparr>"
    let ?r3 = "if host_userid ?r2 = -1 then ChangeRoomHost u ?r2 else ?r2"
    have "talks A ?r1 ?r2"
      by (rule talks_quiet) (auto simp: known_to_def assms simp flip: set_om_keys)
    moreover have "talks A ?r2 ?r3" by (simp add: talks_host)
    ultimately have "talks A ?r1 (SendRoomAllInfoToAll (room_send JoinRoom (B_JoinRoom (?message\<lparr>jr_ret := True,
        jr_roomid := m_id ?r3, jr_result := txt_join_ok\<rparr>)) u ?r3))"
      by (rule talks_trans [OF _ talks_trans [OF _ talks_trans [OF talks_send talks_all_info]]])
        (simp_all add: assms type_fits_all)
    then show ?thesis unfolding Cons by (simp only: list.case Let_def snd_conv)
  qed (simp only: list.case snd_conv talks_crash)
  note joins = talks_trans [OF grow this]
  show ?thesis
  proof (cases "m_gameStarted r \<or> IsFull r \<or> om_has u (userid2userpid r)")
    case True
    then show ?thesis
      by (auto simp: Room_JoinRoom_def Let_def intro!: talks_send type_fits_all assms)
  next
    case False
    then have "\<not> m_gameStarted r" "\<not> IsFull r" "\<not> om_has u (userid2userpid r)" by blast+
    then show ?thesis using joins by (simp only: Room_JoinRoom_def Let_def if_False)
  qed
qed

lemma talks_start_game: "talks A r (Room_StartGame u r)"
proof -
  let ?r1 = "r\<lparr>m_gameStarted := True, frame_id := 0, cur_frame := (cur_frame r)\<lparr>fr_operates := []\<rparr>, all_frames := []\<rparr>"
  let ?r2 = "NotifyGameStart ?r1"
  have 1: "talks A r ?r1" by (rule talks_quiet) (simp_all add: known_to_def)
  have 2: "talks A ?r2 (fold Room_JoinGame (om_keys (userid2userpid ?r2)) ?r2)"
    by (rule talks_known, rule talks_fold, rule talks_join_game) (auto simp: known_to_def)
  have "talks A r (SendRoomAllInfoToAll (fold Room_JoinGame (om_keys (userid2userpid ?r2)) ?r2))"
    by (rule talks_trans [OF 1 talks_trans [OF talks_start talks_trans [OF 2 talks_all_info]]])
  then show ?thesis by (simp add: Room_StartGame_def Let_def)
qed

lemma talks_tick: "talks A r (snd (Room_Tick cfg r))"
proof -
  let ?r1 = "r\<lparr>frame_id := frame_id r + 1, cur_frame := (cur_frame r)\<lparr>fr_frame_id := frame_id r + 1\<rparr>\<rparr>"
  let ?r2 = "BroadCastToGame Frame (B_Frame (cur_frame ?r1)) ?r1"
  let ?r3 = "if IS_CHASE_FRAME cfg then ?r2\<lparr>all_frames := all_frames ?r2 @ [cur_frame ?r2]\<rparr> else ?r2"
  have 1: "talks A r ?r1" by (rule talks_quiet) (simp_all add: known_to_def)
  have 2: "talks A ?r1 ?r2" by (rule talks_broadcast) (simp add: type_fits_all)
  have 3: "talks A ?r2 (?r3\<lparr>cur_frame := (cur_frame ?r3)\<lparr>fr_operates := []\<rparr>\<rparr>)"
    by (rule talks_quiet) (simp_all add: known_to_def)
  have "talks A r (?r3\<lparr>cur_frame := (cur_frame ?r3)\<lparr>fr_operates := []\<rparr>\<rparr>)"
    by (rule talks_trans [OF 1 talks_trans [OF 2 3]])
  then show ?thesis by (simp add: Room_Tick_def Let_def)
qed

lemma talks_online: "talks A r (SetUserOnline u r)"
  by (rule talks_quiet) (simp_all add: SetUserOnline_def known_to_def)

lemma talks_offline: "talks A r (SetUserOffline u r)"
proof -
  have "talks A r (r\<lparr>offline_userid := os_ins u (offline_userid r)\<rparr>)"
    by (rule talks_quiet) (simp_all add: known_to_def)
  then show ?thesis by (auto simp: SetUserOffline_def intro: talks_trans talks_game)
qed

lemma talks_reconnect:
  assumes "u \<in> A"
  shows "talks A r (Room_Reconnect u r)"
  unfolding Room_Reconnect_def Let_def
  by (auto intro!: talks_trans [OF talks_online talks_trans [OF talks_send talks_trans [OF talks_start_notice
          talks_trans [OF talks_send talks_join_game]]]] type_fits_all assms)

lemma talks_change: "talks A r (Room_UserInfoChange m r)"
proof (cases "om_has (m_userid (m_head m)) (userid2userpid r)")
  case True
  show ?thesis
  proof (rule talks_known)
    assume k: "known_to A r"
    have "talks A r (r\<lparr>userid2roleid := om_upd (m_userid (m_head m)) x (userid2roleid r)\<rparr>)" for x
      using k True by (intro talks_quiet) (auto simp: known_to_def om_has_keys simp flip: set_om_keys)
    then show "talks A r (Room_UserInfoChange m r)"
      using True talks_trans [OF _ talks_all_info]
      by (auto simp: Room_UserInfoChange_def Let_def split: option.split proto_body.split)
  qed
qed (simp add: Room_UserInfoChange_def)

lemma talks_operates: "talks A r (Room_OnUserOperate m r)"
  by (auto simp: Room_OnUserOperate_def Let_def split: option.split proto_body.split)

text \<open>The user a call is about, for the calls that name one.\<close>

fun event_user :: "room_event \<Rightarrow> int set" where
  "event_user (EvJoinRoom name u) = {u}"
| "event_user (EvJoinGame u) = {u}"
| "event_user (EvReconnect u) = {u}"
| "event_user (EvLeave u) = {u}"
| "event_user (EvLeaveFromRoom u) = {u}"
| "event_user (EvNotifyJoinGame u) = {u}"
| "event_user (EvResize n) = {u. n < u}"
| "event_user (EvInfo u) = {u}"
| "event_user (EvNotifyStartTo u) = {u}"
| "event_user _ = {}"

lemma talks_left: "u \<in> A \<Longrightarrow> talks A r (Room_Leave u r)"
  unfolding Room_Leave_def by (rule talks_trans [OF talks_game(1) talks_leave])

lemma talks_resize:
  assumes "{u. n < u} \<subseteq> A"
  shows "talks A r (Resize n r)"
proof -
  have size: "talks A s (s\<lparr>m_size := n\<rparr>)" for s by (rule talks_quiet) (simp_all add: known_to_def)
  have pool: "talks A s (s\<lparr>userpid_pool := x\<rparr>)" for s x by (rule talks_quiet) (simp_all add: known_to_def)
  have "talks A r (fold (\<lambda>i r. let r' = Room_Leave i r in r'\<lparr>userpid_pool := os_del i (userpid_pool r')\<rparr>)
      [n + 1 .. m_size r] r)"
    using assms by (intro talks_fold) (auto simp: Let_def intro!: talks_trans [OF talks_left pool])
  then show ?thesis
    unfolding Resize_def Let_def using pool by (auto intro!: talks_trans [OF _ size])
qed

lemma talks_kick_room: "talks A r (KickAllUserFromRoom r)"
  unfolding KickAllUserFromRoom_def
  by (rule talks_known, rule talks_fold, rule talks_leave) (auto simp: known_to_def)

text \<open>\<open>Resize\<close> hands the slot numbers that disappear to \<open>Leave\<close>, as user ids, so it may write to
  those users.\<close>

lemma talks_apply: "event_user e \<subseteq> A \<Longrightarrow> talks A r (room_apply cfg e r)"
  by (cases e) (simp_all add: talks_join_room talks_join_game talks_reconnect talks_leave talks_game talks_change
      talks_operates talks_start_game talks_online talks_offline talks_tick talks_join_notice Room_Leave_def
      talks_trans [OF talks_game(1) talks_leave] talks_resize talks_kick_room talks_host talks_info talks_all_info
      talks_start_notice talks_start KickAllUserFromGame_def NotifyGameEnd_def talks_broadcast type_fits_all
      talks_quit_notice)

end
