(* ===== verification/Room_Properties.thy ===== *)
theory Room_Properties
  imports Room_Machine Room_Talk Example_World
begin

text \<open>
  What the rooms promise, with applications to a room of two that runs a short game.
\<close>

definition example_room :: Room where
  "example_room = Room_new 1 ''r'' 2 5"

definition example_run :: "room_event list" where
  "example_run = [EvJoinRoom ''a'' 7, EvJoinRoom ''b'' 9, EvStartGame 7, EvTick]"

lemma example_fresh: "fresh_room example_room"
  unfolding fresh_room_def example_room_def
  by (rule exI [of _ 1], rule exI [of _ "''r''"], rule exI [of _ 2], rule exI [of _ 5]) simp

lemma example_run_ok: "run_ok room_ok (room_step example_cfg) example_run example_room"
  by code_simp

section \<open>Every reachable room\<close>

text \<open>C5: no sequence of calls of a room's public methods runs into undefined behaviour, every call of
  it returns, although leaving a game and ending it call each other, and so does the destructor at
  its end, which empties the room. The calls are made under these conditions: a role change carries
  a role-change body; a game is not started in the name of user id -1, which also marks a room
  without a host, unless that is a member; no running game is ticked when its frame counter, an
  \<open>int\<close>, has reached 2147483647; and, of the methods only the room itself calls, \<open>Resize\<close> does not
  shrink, the host's role is not taken from a room with members, and the start of a game is announced
  to members only.\<close>

theorem room_never_faults:
  assumes "fresh_room r" "run_ok room_ok (room_step cfg) es r"
  shows "\<exists>r'. foldF (room_step cfg) es r = Inr r' \<and> room_fault r' = None \<and>
     room_fault (Room_destroy r') = None \<and> userid2userpid (Room_destroy r') = []"
proof -
  obtain r' where "foldF (room_step cfg) es r = Inr r'" "room_inv cfg r'"
    using rm.run_total [OF rm.init_inv [OF assms(1)] assms(2)] by blast
  then show ?thesis using room_inv_destroy [of cfg r'] by (simp add: room_inv_def room_wfD)
qed

theorem room_never_faults_witness:
  "\<exists>r'. foldF (room_step example_cfg) example_run example_room = Inr r' \<and> room_fault r' = None \<and>
     room_fault (Room_destroy r') = None \<and> userid2userpid (Room_destroy r') = []"
  by (rule room_never_faults [OF example_fresh example_run_ok])

text \<open>C29: in every reachable room each member has a slot of its own between 1 and the size of the
  room, the free slots are exactly the others, and no room holds more members than its size.\<close>

theorem room_slots_distinct:
  assumes "fresh_room r" "run_ok room_ok (room_step cfg) es r" "foldF (room_step cfg) es r = Inr r'"
  shows "(\<forall>u p. om_get (userid2userpid r') u = Some p \<longrightarrow> 1 \<le> p \<and> p \<le> m_size r' \<and> p \<notin> set (userpid_pool r')) \<and>
     inj_on (om_get (userid2userpid r')) (dom (om_get (userid2userpid r'))) \<and>
     PlayerCount r' + int (length (userpid_pool r')) = m_size r'"
proof -
  have inv: "room_wf r'" "0 \<le> m_size r'"
    using rm.reachable_inv [OF assms] by (simp_all add: room_inv_def)
  have "inj_on (om_get (userid2userpid r')) (dom (om_get (userid2userpid r')))"
    using wf_slot_inj [OF inv(1)] by (auto simp: inj_on_def)
  then show ?thesis
    using wf_slot_range [OF inv(1)] wf_pool [OF inv(1)] room_slots [OF inv] by (auto simp: PlayerCount_def)
qed

theorem room_slots_distinct_witness:
  "\<exists>r'. foldF (room_step example_cfg) example_run example_room = Inr r' \<and>
     PlayerCount r' + int (length (userpid_pool r')) = m_size r'"
proof -
  obtain r' where "foldF (room_step example_cfg) example_run example_room = Inr r'"
    using rm.run_total [OF rm.init_inv [OF example_fresh] example_run_ok] by blast
  with room_slots_distinct [OF example_fresh example_run_ok this] show ?thesis by blast
qed

text \<open>C30: a reachable room that is not empty has a member as its host, and an empty one has none,
  which the program writes as user id -1. The room's calls are made under the conditions of
  \<open>room_never_faults\<close>. A user can register under the id -1, and such a member can be the host;
  then the program's test for a room without a host succeeds too.\<close>

theorem room_has_host:
  assumes "fresh_room r" "run_ok room_ok (room_step cfg) es r" "foldF (room_step cfg) es r = Inr r'"
  shows "if userid2userpid r' = [] then host_userid r' = -1
     else om_has (host_userid r') (userid2userpid r')"
proof -
  have wf: "room_wf r'" using rm.reachable_inv [OF assms(1-3)] by (simp add: room_inv_def)
  show ?thesis
  proof (cases "host_userid r' = -1")
    case True
    then have "om_has (-1) (userid2userpid r')" if "userid2userpid r' \<noteq> []"
      using wf that by (auto simp: room_wf_def)
    then show ?thesis using True by simp
  next
    case False
    then show ?thesis using wf_host(1) [OF wf] by auto
  qed
qed

theorem room_has_host_witness:
  "\<exists>r'. foldF (room_step example_cfg) example_run example_room = Inr r' \<and>
     (if userid2userpid r' = [] then host_userid r' = -1 else om_has (host_userid r') (userid2userpid r'))"
proof -
  obtain r' where "foldF (room_step example_cfg) example_run example_room = Inr r'"
    using rm.run_total [OF rm.init_inv [OF example_fresh] example_run_ok] by blast
  with room_has_host [OF example_fresh example_run_ok this] show ?thesis by blast
qed

text \<open>C31: with chase frames on, the replay kept by a reachable room holds the frames 1, 2, 3, \<dots> up to
  the current one without a gap, and a game is running exactly while it has players. The frame
  counter is an \<open>int\<close>: it stays within its 32 bits, because a tick at 2147483647, which would
  overflow it, is undefined and is not among the calls considered (\<open>room_ok\<close>, the conditions of
  \<open>room_never_faults\<close>).\<close>

theorem replay_without_gap:
  assumes "IS_CHASE_FRAME cfg" "fresh_room r" "run_ok room_ok (room_step cfg) es r"
    and "foldF (room_step cfg) es r = Inr r'"
  shows "map fr_frame_id (all_frames r') = [1..frame_id r'] \<and> int32 (frame_id r') \<and>
     (m_gameStarted r' \<longleftrightarrow> in_game_id2pid r' \<noteq> [])"
  using rm.reachable_inv [OF assms(2-4)] assms(1) by (simp add: room_inv_def frames_ok_def game_on_def)

theorem replay_without_gap_witness:
  "\<exists>r'. foldF (room_step example_cfg) example_run example_room = Inr r' \<and>
     map fr_frame_id (all_frames r') = [1..frame_id r'] \<and> int32 (frame_id r')"
proof -
  obtain r' where "foldF (room_step example_cfg) example_run example_room = Inr r'"
    using rm.run_total [OF rm.init_inv [OF example_fresh] example_run_ok] by blast
  moreover have "IS_CHASE_FRAME example_cfg" by (simp add: example_cfg_def)
  ultimately show ?thesis
    using replay_without_gap [OF _ example_fresh example_run_ok] by blast
qed

section \<open>The operations\<close>

text \<open>A room where 7 and 9 play, with the first frame sent.\<close>

definition playing_room :: Room where
  "playing_room = fold (room_apply example_cfg) example_run example_room"

lemma example_room_wf: "room_wf example_room"
  by (simp add: example_room_def Room_new_wf)

lemma playing_room_wf: "room_wf playing_room"
proof -
  have same: "foldF (room_step cfg) es r = Inr r' \<Longrightarrow> r' = fold (room_apply cfg) es r" for cfg es r r'
    by (induction es arbitrary: r) (auto simp: room_step_def split: option.splits)
  obtain r' where "foldF (room_step example_cfg) example_run example_room = Inr r'" "room_inv example_cfg r'"
    using rm.run_total [OF rm.init_inv [OF example_fresh] example_run_ok] by blast
  then show ?thesis
    using same by (auto simp: playing_room_def room_inv_def)
qed

text \<open>C9: \<open>JoinRoom\<close> refuses a user when a game is running, the room is full or the user is already in
  it, with the message for the first of these reasons and no other effect; otherwise the user gets
  the least free slot, role 1 and its name, becomes the host of a room that has none, is told so
  first, and then every member is sent the new description of the room.\<close>

theorem join_room_effect:
  assumes wf: "room_wf r" and size: "0 \<le> m_size r"
  shows "if m_gameStarted r \<or> IsFull r \<or> om_has u (userid2userpid r)
     then Room_JoinRoom name u r = (False, r\<lparr>outbox := outbox r @ [(JoinRoom,
            B_JoinRoom \<lparr>jr_roomid = -1, jr_result = (if m_gameStarted r then txt_game_already_started
                         else if IsFull r then txt_room_full else txt_already_here),
               jr_type = RESPONSE, jr_ret = False\<rparr>, u)]\<rparr>)
     else \<exists>r'. Room_JoinRoom name u r = (True, r') \<and>
            userid2userpid r' = om_upd u (Min (set (userpid_pool r))) (userid2userpid r) \<and>
            userid2roleid r' = om_upd u 1 (userid2roleid r) \<and> id2name r' = om_upd u name (id2name r) \<and>
            set (userpid_pool r') = set (userpid_pool r) - {Min (set (userpid_pool r))} \<and>
            host_userid r' = (if host_userid r = -1 then u else host_userid r) \<and>
            outbox r' = outbox r @ (JoinRoom, B_JoinRoom \<lparr>jr_roomid = m_id r, jr_result = txt_join_ok,
               jr_type = RESPONSE, jr_ret = True\<rparr>, u) # room_infos r'"
proof (cases "m_gameStarted r \<or> IsFull r \<or> om_has u (userid2userpid r)")
  case True
  then show ?thesis by (simp add: Room_JoinRoom_refused room_send_def)
next
  case False
  then have g: "\<not> m_gameStarted r" "\<not> IsFull r" "\<not> om_has u (userid2userpid r)" by auto
  have ne: "userpid_pool r \<noteq> []" using pool_nonempty [OF wf size g(2)] .
  let ?p = "hd (userpid_pool r)"
  have least: "?p = Min (set (userpid_pool r))"
    using ne os_hd_least [OF room_wfD(6) [OF wf]] by (intro Min_eqI [symmetric]) auto
  let ?a = "add_member name u ?p r"
  have a: "room_wf ?a" using room_wf_add_member [OF wf g(3)] ne by simp
  have info: "room_infos (s\<lparr>outbox := x\<rparr>) = room_infos s" for s x by (simp add: room_infos_def)
  have told: "SendRoomAllInfoToAll (room_send ty b v ?a) =
      ?a\<lparr>outbox := outbox ?a @ (ty, b, v) # room_infos ?a\<rparr>" for ty b v
    using a by (subst SendRoomAllInfoToAll_wf) (simp_all add: room_send_def info)
  show ?thesis
    unfolding if_not_P [OF False] Room_JoinRoom_ok [OF wf size g] Let_def told least [symmetric]
    by (intro exI conjI, rule refl) (simp_all only: info, simp_all add: add_member_def)
qed

theorem join_room_effect_witness:
  "\<exists>r'. Room_JoinRoom ''a'' 7 example_room = (True, r') \<and>
     userid2userpid r' = om_upd 7 (Min (set (userpid_pool example_room))) (userid2userpid example_room) \<and>
     host_userid r' = 7"
proof -
  have "\<not> (m_gameStarted example_room \<or> IsFull example_room \<or> om_has 7 (userid2userpid example_room))"
      "host_userid example_room = -1" "0 \<le> m_size example_room"
    by (simp_all add: example_room_def Room_new_def IsFull_def PlayerCount_def)
  with join_room_effect [OF example_room_wf, of 7 "''a''"] show ?thesis by auto
qed

text \<open>C10: leaving a room takes a member out of the game, gives its slot back, and passes a host's role
  to the remaining member with the least id, or to nobody; an outsider only gets a refusal.\<close>

theorem leave_room_effect:
  assumes wf: "room_wf r"
  shows "if om_has u (userid2userpid r)
     then userid2userpid (Room_LeaveFromRoom u r) = om_del u (userid2userpid r) \<and>
          in_game_id2pid (Room_LeaveFromRoom u r) = om_del u (in_game_id2pid r) \<and>
          set (userpid_pool (Room_LeaveFromRoom u r)) = insert (om_at 0 (userid2userpid r) u) (set (userpid_pool r)) \<and>
          host_userid (Room_LeaveFromRoom u r) =
            (if host_userid r \<noteq> u then host_userid r
             else case om_del u (userid2userpid r) of [] \<Rightarrow> -1 | e # _ \<Rightarrow> fst e)
     else Room_LeaveFromRoom u r = r\<lparr>outbox := outbox r @ [(LeaveRoom,
            B_LeaveRoom \<lparr>lr_roomid = 0, lr_ret = False, lr_result = txt_not_here, lr_type = RESPONSE\<rparr>, u)]\<rparr>"
proof (cases "om_has u (userid2userpid r)")
  case True
  let ?r = "Room_LeaveFromGame u r"
  have r: "room_wf ?r" "userid2userpid ?r = userid2userpid r" "userpid_pool ?r = userpid_pool r"
      "host_userid ?r = host_userid r" "in_game_id2pid ?r = om_del u (in_game_id2pid r)"
    using LeaveFromGame_spec [OF wf, of u] by (auto simp: game_frame_def)
  have "room_wf (remove_member u ?r)"
    using r True by (intro room_wf_remove_member) simp_all
  then show ?thesis
    using True r by (simp add: Room_LeaveFromRoom_member [OF wf True] SendRoomAllInfoToAll_wf)
      (simp add: remove_member_def member_pid_def next_host_def)
next
  case False
  then show ?thesis by (simp add: Room_LeaveFromRoom_outsider [OF wf] room_send_def)
qed

theorem leave_room_effect_witness:
  "Room_LeaveFromRoom 7 example_room = example_room\<lparr>outbox := outbox example_room @ [(LeaveRoom,
     B_LeaveRoom \<lparr>lr_roomid = 0, lr_ret = False, lr_result = txt_not_here, lr_type = RESPONSE\<rparr>, 7)]\<rparr>"
proof -
  have "\<not> om_has 7 (userid2userpid example_room)" by (simp add: example_room_def Room_new_def)
  with leave_room_effect [OF example_room_wf, of 7] show ?thesis by (simp only: if_False)
qed

text \<open>A tick of a running game sends the frame, numbered one higher than the last, to exactly the
  players, keeps it for replay when chase frames are on, and starts an empty one; without a game
  it does nothing, and at the last frame number an \<open>int\<close> holds it overflows.\<close>

theorem tick_effect:
  "Room_Tick cfg r =
     (if m_gameStarted r
      then if int32 (frame_id r + 1)
        then let f = (cur_frame r)\<lparr>fr_frame_id := frame_id r + 1\<rparr>
             in (True, r\<lparr>frame_id := frame_id r + 1, cur_frame := f\<lparr>fr_operates := []\<rparr>,
                   all_frames := (if IS_CHASE_FRAME cfg then all_frames r @ [f] else all_frames r),
                   outbox := outbox r @ map (\<lambda>u. (Frame, B_Frame f, u)) (om_keys (in_game_id2pid r))\<rparr>)
        else (True, room_crash SignedOverflow r)
      else (False, r))"
  by (simp add: Room_Tick_started Room_Tick_overflow next_frame_def Let_def) (simp add: Room_Tick_def)

text \<open>What is sent is only ever added to.\<close>

definition sends_more :: "Room \<Rightarrow> Room \<Rightarrow> bool" where
  "sends_more r r' \<longleftrightarrow> (\<exists>ms. outbox r' = outbox r @ ms)"

lemma sends_more_refl: "sends_more r r"
  by (simp add: sends_more_def)

lemma sends_more_trans: "sends_more r s \<Longrightarrow> sends_more s t \<Longrightarrow> sends_more r t"
  by (auto simp: sends_more_def)

lemma kick_sends_more:
  "room_wf r \<Longrightarrow> \<not> m_gameStarted r \<Longrightarrow> sends_more r (kick_from_game us r)"
proof (induction us arbitrary: r)
  case Nil
  then show ?case by (simp add: sends_more_refl)
next
  case (Cons u us)
  have "sends_more r (Room_LeaveFromGame u r)"
  proof (cases "om_has u (in_game_id2pid r)")
    case True
    then show ?thesis
      using Cons.prems by (simp add: Room_LeaveFromGame_stopped SendRoomAllInfoToAll_wf sends_more_def)
  qed (simp add: sends_more_refl)
  then show ?case
    using Cons.IH [of "Room_LeaveFromGame u r"] leave_stopped [OF Cons.prems, of u]
    by (auto intro: sends_more_trans)
qed

text \<open>Ending a running game tells every player first, then takes all of them out of the game; the
  members, their slots and roles, the host, the frame counter and the replay stay. Ending a game
  that is not running does nothing.\<close>

theorem end_game_effect:
  assumes wf: "room_wf r"
  shows "(\<not> m_gameStarted r \<longrightarrow> Room_EndGame r = r) \<and>
     (m_gameStarted r \<longrightarrow>
        \<not> m_gameStarted (Room_EndGame r) \<and> in_game_id2pid (Room_EndGame r) = [] \<and>
        game_frame r (Room_EndGame r) \<and>
        (\<exists>ms. outbox (Room_EndGame r) = outbox r @
           map (\<lambda>u. (EndGame, B_EndGame \<lparr>eg_roomid = m_id r\<rparr>, u)) (om_keys (in_game_id2pid r)) @ ms))"
proof (cases "m_gameStarted r")
  case True
  let ?r1 = "NotifyGameEnd (r\<lparr>m_gameStarted := False\<rparr>)"
  let ?us = "om_keys (in_game_id2pid ?r1)"
  have r1: "room_wf ?r1" "\<not> m_gameStarted ?r1"
    using wf by (simp_all add: NotifyGameEnd_outbox)
  have "sends_more ?r1 (Room_EndGame r)"
    using True kick_sends_more [OF r1, of ?us] kick_stopped [OF r1, of ?us]
    by (auto simp: Room_EndGame.simps [of r] Let_def SendRoomAllInfoToAll_wf sends_more_def)
  then show ?thesis
    using EndGame_spec [OF wf] True by (auto simp: sends_more_def NotifyGameEnd_outbox)
qed simp

theorem end_game_effect_witness:
  "m_gameStarted playing_room \<and> \<not> m_gameStarted (Room_EndGame playing_room) \<and>
     in_game_id2pid (Room_EndGame playing_room) = []"
proof -
  have "m_gameStarted playing_room" by code_simp
  with end_game_effect [OF playing_room_wf] show ?thesis by blast
qed

text \<open>Entering a running game is recorded in the current frame as an operation of the player, but
  leaving one never is: the player is already gone from the table when \<open>NotifyUserQuitGame\<close> looks
  for it, so the notice it is meant to add to the frame is lost.\<close>

theorem quit_not_recorded:
  assumes wf: "room_wf r"
  shows "cur_frame (Room_LeaveFromGame u r) = cur_frame r \<and>
     (m_gameStarted r \<and> om_has u (userid2userpid r) \<longrightarrow>
        fr_operates (cur_frame (Room_JoinGame u r)) = fr_operates (cur_frame r) @
          [\<lparr>uo_data = [om_at 0 (userid2roleid r) u], uo_opt = OpJoinGame,
            uo_userpid = om_at 0 (userid2userpid r) u\<rparr>])"
  using LeaveFromGame_spec [OF wf, of u]
  by (auto simp: game_frame_def Room_JoinGame_player [OF wf] with_players_def join_op_def member_pid_def)

theorem quit_not_recorded_witness:
  "om_has 9 (in_game_id2pid playing_room) \<and>
     cur_frame (Room_LeaveFromGame 9 playing_room) = cur_frame playing_room"
proof -
  have "om_has 9 (in_game_id2pid playing_room)" by code_simp
  with quit_not_recorded [OF playing_room_wf, of 9] show ?thesis by blast
qed

text \<open>A member that reconnects is sent, in this order, the confirmation with its slot, whether it
  is the host and the seed of the game, the start of the game and the whole replay; it is online
  again, and a player of the game if one is running. For anybody else nothing happens.\<close>

theorem reconnect_effect:
  assumes wf: "room_wf r"
  shows "if om_has u (userid2userpid r)
     then outbox (Room_Reconnect u r) = outbox r @
            [(Reconnect, B_Reconnect \<lparr>rc_roomid = m_id r, rc_userpid = om_at 0 (userid2userpid r) u,
                rc_is_roomhost = (host_userid r = u), rc_seed = m_seed r, rc_token = 0, rc_ret = True,
                rc_msg = txt_reconnected\<rparr>, u),
             (StartGame, B_StartGame \<lparr>sg_roomid = m_id r, sg_userpid = om_at 0 (userid2userpid r) u,
                sg_seed = m_seed r\<rparr>, u),
             (ChaseFrame, B_GameReplay \<lparr>gr_frames = all_frames r\<rparr>, u)] \<and>
          u \<notin> set (offline_userid (Room_Reconnect u r)) \<and>
          (m_gameStarted r \<longrightarrow> om_get (in_game_id2pid (Room_Reconnect u r)) u = om_get (userid2userpid r) u)
     else Room_Reconnect u r = r"
proof (cases "om_has u (userid2userpid r)")
  case True
  let ?s = "r\<lparr>offline_userid := os_del u (offline_userid r), outbox := outbox r @ reconnect_msgs r u\<rparr>"
  have s: "room_wf ?s"
    using wf room_wf_offline [of r "os_del u (offline_userid r)"] by (simp add: room_wfD)
  have "Room_Reconnect u r = Room_JoinGame u ?s" by (rule Room_Reconnect_member [OF wf True])
  moreover have "Room_JoinGame u ?s = (if m_gameStarted r then with_players [u] ?s else ?s)"
    using Room_JoinGame_player [OF s] Room_JoinGame_ignored [of ?s u] True by simp
  ultimately show ?thesis
    using True by (auto simp: with_players_def reconnect_msgs_def member_pid_def om_at_def om_has_def)
qed (simp add: Room_Reconnect_def)

theorem reconnect_effect_witness:
  "om_get (in_game_id2pid (Room_Reconnect 9 playing_room)) 9 = om_get (userid2userpid playing_room) 9"
proof -
  have "om_has 9 (userid2userpid playing_room)" "m_gameStarted playing_room" by code_simp+
  with reconnect_effect [OF playing_room_wf, of 9] show ?thesis by simp
qed

text \<open>Shrinking a room hands the slot numbers that disappear to \<open>Leave\<close>, which takes user ids. When
  no user id happens to be one of these numbers, nobody leaves, whatever slots the members have:
  a room whose members use its last slots ends up with members outside its new size.\<close>

theorem resize_keeps_everyone:
  assumes wf: "room_wf r" and n: "n < m_size r"
    and ids: "\<forall>u. om_has u (userid2userpid r) \<longrightarrow> \<not> (n < u \<and> u \<le> m_size r)"
  shows "userid2userpid (Resize n r) = userid2userpid r \<and> m_size (Resize n r) = n"
proof -
  let ?step = "\<lambda>i r. let r' = Room_Leave i r in r'\<lparr>userpid_pool := os_del i (userpid_pool r')\<rparr>"
  have keep: "userid2userpid (fold ?step ks s) = userid2userpid s"
    if "\<forall>i\<in>set ks. \<not> om_has i (userid2userpid s)" "\<And>u. om_has u (in_game_id2pid s) \<Longrightarrow> om_has u (userid2userpid s)"
    for ks s
    using that
  proof (induction ks arbitrary: s)
    case (Cons i xs)
    then have i: "\<not> om_has i (userid2userpid s)" "\<not> om_has i (in_game_id2pid s)" by auto
    have "Room_Leave i s = room_send LeaveRoom (B_LeaveRoom (new_LeaveRoom\<lparr>lr_type := RESPONSE, lr_ret := False,
        lr_result := txt_not_here\<rparr>)) i s"
      using i by (simp add: Room_Leave_def Room_LeaveFromRoom_def Let_def)
    then have s: "userid2userpid (?step i s) = userid2userpid s" "in_game_id2pid (?step i s) = in_game_id2pid s"
      by (simp_all add: room_send_def Let_def)
    have "userid2userpid (fold ?step xs (?step i s)) = userid2userpid (?step i s)"
      using Cons.prems s by (intro Cons.IH) simp_all
    then show ?case using s(1) by simp
  qed simp
  have "userid2userpid (fold ?step [n + 1..m_size r] r) = userid2userpid r"
    using ids in_game_member [OF wf] by (intro keep) auto
  then show ?thesis using n by (simp add: Resize_def Let_def)
qed

theorem resize_keeps_everyone_witness:
  "userid2userpid (Resize 1 playing_room) = userid2userpid playing_room \<and> m_size (Resize 1 playing_room) = 1 \<and>
     om_get (userid2userpid playing_room) 9 = Some 2"
proof -
  have sz: "m_size playing_room = 2" by code_simp
  have ids: "om_keys (userid2userpid playing_room) = [7, 9]" by code_simp
  have slot: "om_get (userid2userpid playing_room) 9 = Some 2" by code_simp
  have "om_has u (userid2userpid playing_room) \<longleftrightarrow> u = 7 \<or> u = 9" for u
    using ids by (simp only: om_has_keys) auto
  then show ?thesis
    using resize_keeps_everyone [OF playing_room_wf, of 1] sz slot by auto
qed

text \<open>C13: whatever method of a consistent room is called, the messages it sends carry a body of the class
  their type announces, so the receiver parses them into the class they were filled in as; and they go
  only to members of the room and to the user the call is about, which for \<open>Resize\<close>, that takes the
  numbers of the slots it removes for user ids, are the ids above the new size.\<close>

theorem room_messages_typed:
  assumes "room_wf r"
  shows "\<exists>out. outbox (room_apply cfg e r) = outbox r @ out \<and>
     (\<forall>(ty, b, u) \<in> set out. (\<exists>p. CreateMessageBody (bodytype_code ty) = Some p \<and> body_class p = body_class b) \<and>
        (om_has u (userid2userpid r) \<or> u \<in> event_user e))"
proof -
  let ?A = "set (om_keys (userid2userpid r)) \<union> event_user e"
  have "talks ?A r (room_apply cfg e r)" by (rule talks_apply) simp
  moreover have "known_to ?A r"
    using room_wfD [OF assms] in_game_member [OF assms]
    by (auto simp: known_to_def om_has_keys simp del: set_om_keys)
  ultimately show ?thesis
    by (fastforce simp: talks_def proper_def type_fits_def list_all_iff om_has_def split: option.splits)
qed

theorem room_messages_typed_witness:
  "\<exists>r out. foldF (room_step example_cfg) example_run example_room = Inr r \<and>
     outbox (room_apply example_cfg EvTick r) = outbox r @ out \<and>
     (\<forall>(ty, b, u) \<in> set out. (\<exists>p. CreateMessageBody (bodytype_code ty) = Some p \<and> body_class p = body_class b) \<and>
        om_has u (userid2userpid r))"
proof -
  obtain r where r: "foldF (room_step example_cfg) example_run example_room = Inr r" "room_inv example_cfg r"
    using rm.run_total [OF rm.init_inv [OF example_fresh] example_run_ok] by blast
  then show ?thesis
    using room_messages_typed [of r example_cfg EvTick] by (auto simp: room_inv_def)
qed

end
