(* ===== verification/Center_Machine.thy ===== *)
theory Center_Machine
  imports Center_Inv
begin

text \<open>
  What the center server answers, and that it keeps its registry and returns: for every packet, every
  connection to accept and every connection lost.
\<close>

section \<open>Looking at a group\<close>

definition info_of :: "'a CenterServer_scheme \<Rightarrow> int \<Rightarrow> Server_Info" where
  "info_of s p = the (om_get (infos s) p)"

definition live :: "'a CenterServer_scheme \<Rightarrow> int list \<Rightarrow> bool" where
  "live s g \<longleftrightarrow> (\<forall>p\<in>set g. om_has p (infos s))"

lemma live_Cons [simp]: "live s (p # g) \<longleftrightarrow> om_has p (infos s) \<and> live s g"
  by (simp add: live_def)

lemma live_Nil [simp]: "live s []"
  by (simp add: live_def)

lemma deref_live [simp]: "om_has p (infos s) \<Longrightarrow> deref_info p s = Inr (info_of s p)"
  by (auto simp: deref_info_def info_of_def om_has_def)

lemma center_wf_live:
  assumes "center_wf s"
  shows "live s (gateServerGroup s)" "live s (logicServerGroup s)" "live s (dbServerGroup s)"
  using center_wfD(7-9) [OF assms] by (auto simp: live_def listed_def om_has_def)

definition better :: "Server_Info option \<times> int \<Rightarrow> Server_Info \<Rightarrow> Server_Info option \<times> int" where
  "better best i = (if si_level i < snd best then (Some i, si_level i) else best)"

lemma find_available_live:
  "live s g \<Longrightarrow> find_available s g best = Inr (foldl better best (map (info_of s) g))"
  by (induction g arbitrary: best) (simp_all add: better_def)

text \<open>The first of the least loaded, if any is below the starting level.\<close>

definition first_least :: "int \<Rightarrow> Server_Info list \<Rightarrow> Server_Info option \<times> int \<Rightarrow> bool" where
  "first_least d xs best \<longleftrightarrow>
     (case best of
        (None, l) \<Rightarrow> l = d \<and> (\<forall>j\<in>set xs. d \<le> si_level j)
      | (Some i, l) \<Rightarrow> si_level i = l \<and> l < d \<and> (\<forall>j\<in>set xs. l \<le> si_level j) \<and>
          (\<exists>pre post. xs = pre @ i # post \<and> (\<forall>j\<in>set pre. l < si_level j)))"

lemma first_least_snoc:
  assumes "first_least d xs best"
  shows "first_least d (xs @ [i]) (better best i)"
proof (cases best)
  case (Pair m l)
  show ?thesis
  proof (cases "si_level i < l")
    case True
    then have "\<forall>j\<in>set xs. si_level i < si_level j" "si_level i < d"
      using assms Pair by (fastforce simp: first_least_def split: option.splits)+
    then show ?thesis
      using Pair True by (fastforce simp: better_def first_least_def)
  next
    case False
    then show ?thesis
    proof (cases m)
      case None
      then show ?thesis using assms Pair False by (simp add: better_def first_least_def)
    next
      case (Some k)
      then obtain pre post where "xs = pre @ k # post" "\<forall>j\<in>set pre. l < si_level j"
        using assms Pair by (auto simp: first_least_def)
      then have "xs @ [i] = pre @ k # (post @ [i])" "\<forall>j\<in>set pre. l < si_level j" by simp_all
      then show ?thesis
        using assms Pair Some False unfolding better_def first_least_def by fastforce
    qed
  qed
qed

lemma foldl_better: "first_least d xs (foldl better (None, d) xs)"
proof (induction xs rule: rev_induct)
  case Nil
  then show ?case by (simp add: first_least_def)
next
  case (snoc i xs)
  then show ?case using first_least_snoc by simp
qed

definition group_of :: "int \<Rightarrow> 'a CenterServer_scheme \<Rightarrow> int list" where
  "group_of ty s =
     (if ty = 2 then gateServerGroup s else if ty = 3 then logicServerGroup s
      else if ty = 4 then dbServerGroup s else [])"

lemma live_group_of: "center_wf s \<Longrightarrow> live s (group_of ty s)"
  using center_wf_live [of s] by (simp add: group_of_def)

text \<open>The server that is assigned: the first of the lowest level in the group of the type.\<close>

lemma AssignServer_spec:
  assumes wf: "center_wf s"
  shows "\<exists>m. AssignServer w ty s = Inr m \<and>
     (if \<exists>p\<in>set (group_of ty s). si_level (info_of s p) < free_level_code DOWN
      then \<exists>pre p post. group_of ty s = pre @ p # post \<and> m = info_of s p \<and>
             (\<forall>q\<in>set (group_of ty s). si_level m \<le> si_level (info_of s q)) \<and>
             (\<forall>q\<in>set pre. si_level m < si_level (info_of s q))
      else m = (local_Server_Info w (io_clock s))\<lparr>si_level := free_level_code DOWN\<rparr>)"
proof -
  let ?g = "group_of ty s" and ?none = "(local_Server_Info w (io_clock s))\<lparr>si_level := free_level_code DOWN\<rparr>"
  obtain m l where ml: "foldl better (None, free_level_code DOWN) (map (info_of s) ?g) = (m, l)"
    by (cases "foldl better (None, free_level_code DOWN) (map (info_of s) ?g)") auto
  have fl: "first_least (free_level_code DOWN) (map (info_of s) ?g) (m, l)"
    using foldl_better [of "free_level_code DOWN" "map (info_of s) ?g"] by (simp only: ml)
  have run: "FindAvailableServerInGroup w ?g s = Inr (case m of None \<Rightarrow> ?none | Some i \<Rightarrow> i)"
    using ml by (simp add: FindAvailableServerInGroup_def find_available_live [OF live_group_of [OF wf]])
  have assign: "AssignServer w ty s = Inr (case m of None \<Rightarrow> ?none | Some i \<Rightarrow> i)"
  proof (cases "ty = 2 \<or> ty = 3 \<or> ty = 4")
    case True
    then show ?thesis using run by (auto simp: AssignServer_def group_of_def)
  next
    case False
    then show ?thesis using ml by (simp add: AssignServer_def group_of_def)
  qed
  show ?thesis
  proof (cases m)
    case None
    then have "\<not> (\<exists>p\<in>set ?g. si_level (info_of s p) < free_level_code DOWN)"
      using fl by (auto simp: first_least_def)
    then show ?thesis using assign None by simp
  next
    case (Some i)
    then obtain xs ys where split: "map (info_of s) ?g = xs @ i # ys" "\<forall>j\<in>set xs. si_level i < si_level j"
        and least: "si_level i < free_level_code DOWN" "\<forall>p\<in>set ?g. si_level i \<le> si_level (info_of s p)"
      using fl by (auto simp: first_least_def)
    then obtain pre p post where "?g = pre @ p # post" "info_of s p = i" "xs = map (info_of s) pre"
      by (auto simp: map_eq_append_conv)
    moreover from this have "\<exists>p\<in>set ?g. si_level (info_of s p) < free_level_code DOWN"
      using least(1) by auto
    ultimately show ?thesis
      using assign Some split(2) least(2) by auto
  qed
qed

section \<open>Every request is answered\<close>

definition keeps_registry :: "'a CenterServer_scheme \<Rightarrow> 'a CenterServer_scheme res \<Rightarrow> bool" where
  "keeps_registry s r \<longleftrightarrow> (\<exists>s'. r = Inr s' \<and> center_wf s')"

lemma region_infos_live:
  "live s g \<Longrightarrow> region_infos cfg g s = Inr (map (\<lambda>p. region_info cfg (info_of s p)) g)"
  by (induction g) simp_all

lemma set_people_count_good:
  assumes wf: "center_wf s" and p: "om_has p (infos s)"
  shows "\<exists>s'. set_people_count ip port n p s = Inr s' \<and> center_wf s' \<and>
     (\<forall>q. om_has q (infos s') = om_has q (infos s)) \<and> gateServerGroup s' = gateServerGroup s \<and>
     logicServerGroup s' = logicServerGroup s \<and> dbServerGroup s' = dbServerGroup s"
  using upd_info_good [OF wf p, of "\<lambda>i. i\<lparr>si_people_count := n\<rparr>"] wf p
  by (auto simp: set_people_count_def)

lemma set_people_counts_good:
  "center_wf s \<Longrightarrow> live s g \<Longrightarrow>
     \<exists>s'. foldF (set_people_count ip port n) g s = Inr s' \<and> center_wf s' \<and>
       gateServerGroup s' = gateServerGroup s \<and>
       logicServerGroup s' = logicServerGroup s \<and> dbServerGroup s' = dbServerGroup s"
proof (induction g arbitrary: s)
  case (Cons p g)
  then have "om_has p (infos s)" by simp
  from set_people_count_good [OF Cons.prems(1) this, of ip port n]
  obtain s1 where s1: "set_people_count ip port n p s = Inr s1" "center_wf s1"
      "\<forall>q. om_has q (infos s1) = om_has q (infos s)" "gateServerGroup s1 = gateServerGroup s"
      "logicServerGroup s1 = logicServerGroup s" "dbServerGroup s1 = dbServerGroup s"
    by blast
  have "live s1 g" using Cons.prems(2) s1(3) by (simp add: live_def)
  from Cons.IH [OF s1(2) this] s1 show ?case by auto
qed simp

lemma HandleServerConnChange_good:
  assumes wf: "center_wf s" and q: "msg_object msg = Some (B_ServerConnChange q)"
  shows "keeps_registry s (HandleServerConnChange w msg fd s)"
proof -
  let ?upd = "foldF (set_people_count (sc_ip q) (sc_port q) (sc_change q))"
  have one: "\<exists>s'. (if sc_type q = ty then ?upd g t else Inr t) = Inr s' \<and> center_wf s'"
    if "center_wf t" "live t g" for ty g and t :: "'a CenterServer_scheme"
    using set_people_counts_good [OF that, of "sc_ip q" "sc_port q" "sc_change q"] that(1) by auto
  obtain s1 where s1: "(if sc_type q = 2 then ?upd (gateServerGroup s) s else Inr s) = Inr s1" "center_wf s1"
    using one [OF wf center_wf_live(1) [OF wf], of 2] by blast
  obtain s2 where s2: "(if sc_type q = 3 then ?upd (logicServerGroup s1) s1 else Inr s1) = Inr s2" "center_wf s2"
    using one [OF s1(2) center_wf_live(2) [OF s1(2)], of 3] by blast
  obtain s3 where s3: "(if sc_type q = 4 then ?upd (dbServerGroup s2) s2 else Inr s2) = Inr s3" "center_wf s3"
    using one [OF s2(2) center_wf_live(3) [OF s2(2)], of 4] by blast
  show ?thesis
    unfolding HandleServerConnChange_def q keeps_registry_def option.case proto_body.case Let_def
      s1(1) bindF.simps s2(1) s3(1)
    using s3(2) by blast
qed

lemma reply_good:
  "net_config_ok (w_cfg w) \<Longrightarrow> center_wf s \<Longrightarrow> keeps_registry s (Center_SendMsg w msg fd s)"
  using Center_SendMsg_good [of w s msg fd] by (simp add: keeps_registry_def)

lemma HandleJoinRegion_good:
  assumes "net_config_ok (w_cfg w)" "center_wf s" "msg_object msg = Some (B_JoinRegionRequest q)"
  shows "keeps_registry s (HandleJoinRegionRequest w msg fd s)"
proof -
  have "\<exists>body. join_region (jq_id q) s = Inr body"
    using center_wf_live(1) [OF assms(2)] nth_mem [of "nat (jq_id q)" "gateServerGroup s"]
    by (auto simp: join_region_def live_def)
  then show ?thesis
    using assms(3) reply_good [OF assms(1,2)] by (auto simp: HandleJoinRegionRequest_def)
qed

lemma HandleGetRegionInfo_good:
  assumes "net_config_ok (w_cfg w)" "center_wf s"
  shows "keeps_registry s (HandleGetRegionInfoRequest w msg fd s)"
  using region_infos_live [OF center_wf_live(1) [OF assms(2)]] reply_good [OF assms]
  by (simp add: HandleGetRegionInfoRequest_def)

lemma register_good:
  assumes wf: "center_wf s"
  shows "\<exists>s' p. (if om_has fd (MachineRecord s) then Inr s
      else RegisterServer (next_info s) (s\<lparr>MachineRecord := om_upd fd (next_info s) (MachineRecord s),
             infos := om_upd (next_info s) i (infos s), next_info := next_info s + 1\<rparr>)) = Inr s' \<and>
     center_wf s' \<and> om_get (MachineRecord s') fd = Some p"
proof (cases "om_get (MachineRecord s) fd")
  case None
  then show ?thesis
    using RegisterServer_good [OF wf None refl, of i] by (auto simp: om_has_def)
qed (use wf in \<open>auto simp: om_has_def\<close>)

lemma Center_HandleServerInfo_good:
  assumes cfg: "net_config_ok (w_cfg w)" and wf: "center_wf s"
    and q: "msg_object msg = Some (B_ServerInfo q)"
  shows "keeps_registry s (Center_HandleServerInfo w msg fd s)"
proof (cases "sv_opt q")
  case Op_Register
  let ?i = "Server_Info_new\<lparr>si_ip := sv_ip q, si_port := sv_port q, si_name := sv_server_name q,
     si_type := sv_server_type q\<rparr>"
  from register_good [OF wf, of fd ?i] obtain s1 p where s1: "(if om_has fd (MachineRecord s) then Inr s
      else RegisterServer (next_info s) (s\<lparr>MachineRecord := om_upd fd (next_info s) (MachineRecord s),
             infos := om_upd (next_info s) ?i (infos s), next_info := next_info s + 1\<rparr>)) = Inr s1"
      "center_wf s1" "om_get (MachineRecord s1) fd = Some p"
    by blast
  from upd_info_good [OF s1(2) center_wfD(2) [OF s1(2,3)], of "\<lambda>i. i\<lparr>si_level := sv_server_free_level q\<rparr>"]
  obtain s2 where s2: "upd_info p (\<lambda>i. i\<lparr>si_level := sv_server_free_level q\<rparr>) s1 = Inr s2" "center_wf s2"
    by auto
  have "Center_HandleServerInfo w msg fd s = Inr s2"
    unfolding Center_HandleServerInfo_def q option.case proto_body.case Op_Register Let_def
    using s2(1) s1(3) by (simp add: s1(1))
  then show ?thesis using s2(2) by (simp add: keeps_registry_def)
next
  case Op_RequstAssgin
  have "\<exists>m. AssignServer w (sv_server_type q) s = Inr m"
    using AssignServer_spec [OF wf] by blast
  then show ?thesis
    using q Op_RequstAssgin reply_good [OF cfg wf] by (auto simp: Center_HandleServerInfo_def)
qed (use q wf in \<open>simp_all add: Center_HandleServerInfo_def keeps_registry_def\<close>)

lemma Center_dispatch_good:
  assumes cfg: "net_config_ok (w_cfg w)" and wf: "center_wf s" and typed: "msg_typed msg"
  shows "keeps_registry s (Center_dispatch w msg fd s)"
proof (cases "bodytype_of (m_packageType (m_head msg))")
  case None
  then show ?thesis using wf by (simp add: Center_dispatch_def keeps_registry_def)
next
  case (Some ty)
  note cls = msg_typed_class [OF typed bodytype_code_of [OF Some, symmetric]]
  consider "ty = ServerInfo" | "ty = JoinRegionRequest" | "ty = ServerConnChange"
    | "ty = GetRegionInfoRequest"
    | "ty \<notin> {ServerInfo, JoinRegionRequest, ServerConnChange, GetRegionInfoRequest}"
    by blast
  then show ?thesis
  proof cases
    case 1
    then obtain q where "msg_object msg = Some (B_ServerInfo q)"
      using cls by (auto simp: body_class_eqs)
    from Center_HandleServerInfo_good [OF cfg wf this] show ?thesis
      using Some 1 by (simp add: Center_dispatch_def)
  next
    case 2
    then obtain q where "msg_object msg = Some (B_JoinRegionRequest q)"
      using cls by (auto simp: body_class_eqs)
    from HandleJoinRegion_good [OF cfg wf this] show ?thesis
      using Some 2 by (simp add: Center_dispatch_def)
  next
    case 3
    then obtain q where "msg_object msg = Some (B_ServerConnChange q)"
      using cls by (auto simp: body_class_eqs)
    from HandleServerConnChange_good [OF wf this] show ?thesis
      using Some 3 by (simp add: Center_dispatch_def)
  next
    case 4
    then show ?thesis
      using Some HandleGetRegionInfo_good [OF cfg wf] by (simp add: Center_dispatch_def)
  next
    case 5
    then show ?thesis
      using Some wf
      by (cases ty) (simp_all add: Center_dispatch_def Center_HandleUserInfo_def keeps_registry_def)
  qed
qed

section \<open>Packets and connections\<close>

definition center_world_ok :: "world \<Rightarrow> bool" where
  "center_world_ok w \<longleftrightarrow> net_config_ok (w_cfg w) \<and> pb_keeps_class (w_pb w)"

lemma center_packet_safe:
  assumes w: "center_world_ok w" and wf: "center_wf s" and len: "length body < 2 ^ 31"
  shows "\<exists>s'. on_packet (CenterServer_OnMsgBodyAnalysised w) fd (h, body) s = Inr s' \<and> center_wf s'"
proof -
  have cfg: "net_config_ok (w_cfg w)" and pb: "pb_keeps_class (w_pb w)"
    using w by (simp_all add: center_world_ok_def)
  obtain m where m: "ServerBase_OnMsgBodyAnalysised w \<lparr>m_head = h, m_body = None\<rparr> body
      (word_of_nat (length body)) = Inr m" "msg_typed m"
    using ServerBase_OnMsg_typed [OF pb refl len] by blast
  show ?thesis
    using Center_dispatch_good [OF cfg wf m(2), of fd] m(1)
    by (simp add: on_packet_def CenterServer_OnMsgBodyAnalysised_def keeps_registry_def)
qed

lemma center_wf_net [simp]:
  "center_wf (io_tick s) = center_wf s" "center_wf (new_connection w fd s) = center_wf s"
  "center_wf (s\<lparr>conns_count := n\<rparr>) = center_wf s"
  by (rule center_wf_cong; simp add: io_tick_def new_connection_def)+

lemma center_listener_safe:
  assumes cfg: "net_config_ok (w_cfg w)" and wf: "center_wf s"
  shows "\<exists>s'. HandleListenerEvent w (CenterServer_CloseClientSocket w) fd s = Inr s' \<and> center_wf s'"
proof -
  have good: "good_below k center_wf registry_kept (CenterServer_CloseClientSocket w)"
    for k
    unfolding CenterServer_CloseClientSocket_def by (rule cc.virtual_close_good_below [OF cfg])
  obtain s1 where s1: "SendConnsChange w (CenterServer_CloseClientSocket w) (TransformType (server_type s))
      (listen_ip s) (listen_port s) 1 (io_tick s) = Inr s1" "registry_kept (io_tick s) s1"
    using SendConnsChange_good [OF cfg registry_stable good lessI, of "io_tick s"] wf
    by (simp only: center_wf_net) blast
  then have wf1: "center_wf s1" using wf by (simp add: registry_kept_def)
  show ?thesis
    using s1(1) wf wf1 Center_Close_good [OF cfg, of "io_tick s1"]
    by (auto simp: HandleListenerEvent_def AddEventToEpoll_def split: option.split)
qed

lemma CenterServer_new_wf: "center_wf CenterServer_new"
  by (simp add: center_wf_def listed_def CenterServer_new_def ServerBase_new_def
      CenterServer.CenterServer.defs ServerBase.ServerBase.defs)

end
