(* ===== verification/FuncServer.thy ===== *)
theory FuncServer
  imports Framing
begin

text \<open>
  The base class of the servers that work for others: \<open>src/Header/Server/FuncServer.h\<close>,
  \<open>src/Source/FuncServer.cpp\<close>. It registers with the center server and again every
  \<open>SEND_CENTERSERVER_TIME\<close>, asks it for servers to connect to and connects to them when it
  answers. Its virtual methods are arguments, as in theory \<open>ServerBase\<close>: \<open>close\<close>, and
  \<open>on_center\<close> for \<open>OnConnectToCenterServer\<close>.
\<close>

record FuncServer = ServerBase +
  logic_server_client :: int
  db_server_client :: int
  user_fd_record :: "int omap"
  fd_user_record :: "int omap"

definition FuncServer_new :: "Config \<Rightarrow> SERVER_TYPE \<Rightarrow> FuncServer" where
  "FuncServer_new cfg type =
     ServerBase.ServerBase.extend
       (ServerBase_new type\<lparr>m_callfuncList :=
          [Timer_SetOnce (Timer_new (TRY_CONNECT_SERVER_TIME cfg)
             FuncServer_TryToConnectAvailabeServer)]\<rparr>)
       (FuncServer.FuncServer.fields (-1) (-1) [] [])"

definition FuncServer_CloseServer ::
  "world \<Rightarrow> 'a FuncServer_scheme closer \<Rightarrow> 'a FuncServer_scheme \<Rightarrow> 'a FuncServer_scheme res" where
  "FuncServer_CloseServer w close s =
     (let leave = (\<lambda>fd s. if fd > 0
                    then SendConnsChange w close (TransformType (server_type s)) (listen_ip s)
                           (listen_port s) (-1) (os_close fd s)
                    else Inr s)
      in bindF (leave (center_server_client s) (ServerBase_CloseServer s)) (\<lambda>s1.
         bindF (leave (logic_server_client s1) s1) (\<lambda>s2.
           leave (db_server_client s2) s2)))"

definition ApplyServerByType ::
  "world \<Rightarrow> 'a FuncServer_scheme closer \<Rightarrow> SERVER_TYPE \<Rightarrow>
     'a FuncServer_scheme \<Rightarrow> 'a FuncServer_scheme res" where
  "ApplyServerByType w close InType s =
     bindF (SendMsg w close
              (NewServerInfoMessage (w_cfg w) (w_pb w) (listen_ip s) (listen_port s)
                 (listen_name s) (server_type_code InType) Op_RequstAssgin (free_level_code FREE))
              (center_server_client s) s)
       (\<lambda>(ok, s'). Inr s')"

definition DynamicCalcServerFreeLevel :: "int \<Rightarrow> SERVER_FREE_LEVEL res" where
  "DynamicCalcServerFreeLevel conns =
     (if conns = 0 then Inr FREE
      else if conns = 1 then Inr COMMON
      else if conns \<ge> 2 then Inr BUSY
      else Inl MissingReturn)"

text \<open>\<open>n\<close> bounds the reconnections in a row: the source starts over for as long as connecting works
  and the message after it does not.\<close>

fun SendSelfInfoToCenter ::
  "nat \<Rightarrow> world \<Rightarrow> 'a FuncServer_scheme closer \<Rightarrow>
     ('a FuncServer_scheme \<Rightarrow> 'a FuncServer_scheme res) \<Rightarrow>
     'a FuncServer_scheme \<Rightarrow> 'a FuncServer_scheme res" where
  "SendSelfInfoToCenter 0 w close on_center s = Inl NonTermination"
| "SendSelfInfoToCenter (Suc n) w close on_center s =
     bindF (DynamicCalcServerFreeLevel (conns_count s)) (\<lambda>level.
     bindF (SendMsg w close
              (NewServerInfoMessage (w_cfg w) (w_pb w) (listen_ip s) (listen_port s)
                 (listen_name s) (server_type_code (server_type s)) Op_Register
                 (free_level_code level))
              (center_server_client s) s) (\<lambda>(sent, s1).
       if sent then Inr s1
       else
         let (ip, port, name) = CENTER_SERVER (w_cfg w);
             (ok, fd, s2) = ConnectToOtherServer w ip port s1;
             s3 = s2\<lparr>center_server_client := fd\<rparr>
         in if \<not> ok then Inr s3
            else let (r, s4) = AddEventToEpoll w (center_server_client s3) s3 in
            if r = -1 then Inr (os_close (center_server_client s4) s4)
            else bindF (SendSelfInfoToCenter n w close on_center
                          (new_connection w (center_server_client s4) s4)) on_center))"

section \<open>Messages every such server handles\<close>

text \<open>The part both server kinds share: connect, register with epoll, count. \<open>get\<close> and \<open>put\<close> are
  the member that keeps the descriptor. The boolean is whether the caller goes on.\<close>

definition connect_to_server ::
  "world \<Rightarrow> 'a FuncServer_scheme closer \<Rightarrow> ServerInfoMsg \<Rightarrow> ('a FuncServer_scheme \<Rightarrow> int) \<Rightarrow>
     (int \<Rightarrow> 'a FuncServer_scheme \<Rightarrow> 'a FuncServer_scheme) \<Rightarrow>
     'a FuncServer_scheme \<Rightarrow> (bool \<times> 'a FuncServer_scheme) res" where
  "connect_to_server w close body get put s =
     (if get s \<noteq> -1 then Inr (False, s)
      else
        let (ok, fd, s1) = ConnectToOtherServer w (sv_ip body) (sv_port body) s;
            s2 = put fd s1
        in if \<not> ok then Inr (False, s2)
           else let (r, s3) = AddEventToEpoll w (get s2) s2 in
           if r = -1 then Inr (False, os_close (get s3) s3)
           else
             let s4 = new_connection w (get s3) s3 in
             bindF (if server_type s4 \<noteq> GATE
                    then SendConnsChange w close (TransformType (server_type s4)) (listen_ip s4)
                           (listen_port s4) 1 s4
                    else Inr s4)
               (\<lambda>s5. Inr (True, s5)))"

definition restart_timers :: "CallbackType \<Rightarrow> 'a ServerBase_scheme \<Rightarrow> 'a ServerBase_scheme" where
  "restart_timers type s =
     s\<lparr>m_callfuncList := map (\<lambda>t. if m_callbackType t = type then Timer_Start t else t)
                              (m_callfuncList s)\<rparr>"

definition FuncServer_HandleServerInfo ::
  "world \<Rightarrow> 'a FuncServer_scheme closer \<Rightarrow> Message \<Rightarrow>
     'a FuncServer_scheme \<Rightarrow> 'a FuncServer_scheme res" where
  "FuncServer_HandleServerInfo w close msg s =
     (case msg_object msg of
        Some (B_ServerInfo body) \<Rightarrow>
          if sv_opt body = Op_Connect then
            bindF (if sv_server_type body = server_type_code LOGIC
                   then connect_to_server w close body logic_server_client
                          (\<lambda>fd s. s\<lparr>logic_server_client := fd\<rparr>) s
                   else if sv_server_type body = server_type_code DATABASE
                   then connect_to_server w close body db_server_client
                          (\<lambda>fd s. s\<lparr>db_server_client := fd\<rparr>) s
                   else Inr (True, s))
              (\<lambda>(go, s1).
                 if go then Inr (restart_timers FuncServer_TryToConnectAvailabeServer s1)
                 else Inr s1)
          else Inr s
      | _ \<Rightarrow> Inl NullDeref)"

definition FuncServer_HandleUserInfo ::
  "Message \<Rightarrow> 'a FuncServer_scheme \<Rightarrow> 'a FuncServer_scheme res" where
  "FuncServer_HandleUserInfo msg s =
     (case msg_object msg of
        Some (B_UserInfo body) \<Rightarrow>
          Inr (case us_opt body of
                 User_Register \<Rightarrow>
                   s\<lparr>user_fd_record := om_upd (m_userid (m_head msg)) (us_fd body) (user_fd_record s)\<rparr>
               | User_Logout \<Rightarrow>
                   s\<lparr>user_fd_record := om_del (m_userid (m_head msg)) (user_fd_record s)\<rparr>
               | _ \<Rightarrow> s)
      | _ \<Rightarrow> Inl NullDeref)"

text \<open>The message comes back with its body, for the overriding method that goes on with it.\<close>

definition FuncServer_OnMsgBodyAnalysised ::
  "world \<Rightarrow> 'a FuncServer_scheme closer \<Rightarrow> Message \<Rightarrow> byte list \<Rightarrow> u32 \<Rightarrow> int \<Rightarrow>
     'a FuncServer_scheme \<Rightarrow> (Message \<times> 'a FuncServer_scheme) res" where
  "FuncServer_OnMsgBodyAnalysised w close msg body len fd s =
     bindF (ServerBase_OnMsgBodyAnalysised w msg body len) (\<lambda>msg1.
     bindF (if m_packageType (m_head msg1) = bodytype_code ServerInfo
            then FuncServer_HandleServerInfo w close msg1 s
            else if m_packageType (m_head msg1) = bodytype_code UserInfo
            then FuncServer_HandleUserInfo msg1 s
            else Inr s)
       (\<lambda>s1. Inr (msg1, s1)))"

definition FuncServer_OnListenerStart ::
  "world \<Rightarrow> 'a FuncServer_scheme closer \<Rightarrow> ('a FuncServer_scheme \<Rightarrow> 'a FuncServer_scheme res) \<Rightarrow>
     'a FuncServer_scheme \<Rightarrow> (bool \<times> 'a FuncServer_scheme) res" where
  "FuncServer_OnListenerStart w close on_center s =
     bindF (SendSelfInfoToCenter (w_retries w) w close on_center s) (\<lambda>s1.
       Inr (True, s1\<lparr>m_callfuncList := m_callfuncList s1 @
         [Timer_Start (Timer_new (SEND_CENTERSERVER_TIME (w_cfg w))
            FuncServer_SendSelfInfoToCenter)]\<rparr>))"

section \<open>Asking for a server\<close>

lemma ApplyServerByType_agree:
  "agree_below k c c' \<Longrightarrow> 2 * length (connections s) < k \<Longrightarrow>
     ApplyServerByType w c ty s = ApplyServerByType w c' ty s"
  by (simp add: ApplyServerByType_def SendMsg_agree [of k c c'])

lemma ApplyServerByType_shrinks:
  "shrinking c \<Longrightarrow> ApplyServerByType w c ty s = Inr s' \<Longrightarrow>
     length (connections s') \<le> length (connections s)"
  by (auto simp: ApplyServerByType_def dest!: SendMsg_shrinks)

lemma ApplyServerByType_good:
  assumes "net_config_ok (w_cfg w)" "net_stable I R" "good_below k I R c"
    "2 * length (connections s) < k" "I s"
  shows "\<exists>s'. ApplyServerByType w c ty s = Inr s' \<and> R s s'"
  unfolding ApplyServerByType_def
  using SendMsg_good [OF assms, of "NewServerInfoMessage (w_cfg w) (w_pb w) (listen_ip s)
    (listen_port s) (listen_name s) (server_type_code ty) Op_RequstAssgin (free_level_code FREE)"
    "center_server_client s"] by auto

section \<open>Connecting when told to\<close>

text \<open>A relation that also ignores what connecting changes.\<close>

definition conn_stable ::
  "('a FuncServer_scheme \<Rightarrow> bool) \<Rightarrow> ('a FuncServer_scheme \<Rightarrow> 'a FuncServer_scheme \<Rightarrow> bool) \<Rightarrow> bool" where
  "conn_stable I R \<longleftrightarrow> net_stable I R \<and> (\<forall>s. R s (io_tick s)) \<and> (\<forall>s n. R s (s\<lparr>next_buf := n\<rparr>)) \<and>
     (\<forall>s ts. R s (s\<lparr>m_callfuncList := ts\<rparr>)) \<and> (\<forall>s fd. R s (s\<lparr>logic_server_client := fd\<rparr>)) \<and>
     (\<forall>s fd. R s (s\<lparr>db_server_client := fd\<rparr>))"

lemma conn_stableD:
  assumes "conn_stable I R"
  shows "net_stable I R" "R s (io_tick s)" "R s (s\<lparr>next_buf := n\<rparr>)" "R s (s\<lparr>m_callfuncList := ts\<rparr>)"
    "R s (s\<lparr>logic_server_client := fd\<rparr>)" "R s (s\<lparr>db_server_client := fd\<rparr>)"
  using assms by (simp_all add: conn_stable_def)

lemma conn_stable_new:
  assumes "conn_stable I R"
  shows "R s (new_connection w fd s)"
proof -
  note R = conn_stableD [OF assms]
  let ?c = "om_upd fd (next_buf s, RingBuffer_new (w_cfg w)) (connections s)"
  have "R s (s\<lparr>connections := ?c\<rparr>)"
    by (rule net_stableD(4) [OF R(1)])
  moreover have "R (s\<lparr>connections := ?c\<rparr>) (s\<lparr>connections := ?c\<rparr>\<lparr>next_buf := Suc (next_buf s)\<rparr>)"
    by (rule R(3))
  ultimately show ?thesis
    unfolding new_connection_def by (rule net_stableD(2) [OF R(1)])
qed

lemma ConnectToOtherServer_state:
  assumes "conn_stable I R" "ConnectToOtherServer w ip port s = (ok, fd, s')"
  shows "R s s'"
proof -
  note R = conn_stableD [OF assms(1)]
  have "R s (io_tick s)" "R s (io_tick (io_tick s))"
    using R(2) net_stableD(2) [OF R(1), of s "io_tick s" "io_tick (io_tick s)"] by blast+
  with assms(2) show ?thesis
    by (auto simp: ConnectToOtherServer_def split: option.splits if_splits)
qed

lemma connect_to_server_good:
  assumes cfg: "net_config_ok (w_cfg w)" and R: "conn_stable I R"
    and put: "\<And>fd s. R s (put fd s)"
    and good: "\<And>k. good_below k I R c" and I: "I s"
  shows "\<exists>go s'. connect_to_server w c body get put s = Inr (go, s') \<and> R s s'"
proof -
  note S = net_stableD [OF conn_stableD(1) [OF R]] and C = conn_stableD [OF R]
  note trans = S(2)
  obtain ok fd s1 where con: "ConnectToOtherServer w (sv_ip body) (sv_port body) s = (ok, fd, s1)"
    by (cases "ConnectToOtherServer w (sv_ip body) (sv_port body) s") auto
  have r2: "R s (put fd s1)"
    using ConnectToOtherServer_state [OF R con] put by (rule trans)
  let ?s3 = "io_tick (put fd s1)"
  have r3: "R s ?s3" using r2 C(2) by (rule trans)
  have r3': "R s (os_close x ?s3)" for x using r3 S(6) by (rule trans)
  let ?s4 = "new_connection w (get ?s3) ?s3"
  have r4: "R s ?s4" using r3 conn_stable_new [OF R] by (rule trans)
  have "I ?s4" using I r4 by (rule S(7))
  then obtain s5 where s5: "SendConnsChange w c (TransformType (server_type ?s4)) (listen_ip ?s4)
      (listen_port ?s4) 1 ?s4 = Inr s5" "R ?s4 s5"
    using SendConnsChange_good [OF cfg C(1) good lessI] by blast
  have "R s s5" using r4 s5(2) by (rule trans)
  with con r2 r3' r4 s5(1) S(1) show ?thesis
    by (auto simp: connect_to_server_def AddEventToEpoll_def Let_def)
qed

lemma FuncServer_HandleServerInfo_good:
  assumes cfg: "net_config_ok (w_cfg w)" and R: "conn_stable I R" and good: "\<And>k. good_below k I R c"
    and b: "msg_object msg = Some (B_ServerInfo body)" and I: "I s"
  shows "\<exists>s'. FuncServer_HandleServerInfo w c msg s = Inr s' \<and> R s s'"
proof -
  note S = net_stableD [OF conn_stableD(1) [OF R]] and C = conn_stableD [OF R]
  obtain g1 s1 where l: "connect_to_server w c body logic_server_client
      (\<lambda>fd s. s\<lparr>logic_server_client := fd\<rparr>) s = Inr (g1, s1)" "R s s1"
    using connect_to_server_good [OF cfg R, of "\<lambda>fd s. s\<lparr>logic_server_client := fd\<rparr>" c s body
      logic_server_client] C(5) good I by blast
  obtain g2 s2 where d: "connect_to_server w c body db_server_client
      (\<lambda>fd s. s\<lparr>db_server_client := fd\<rparr>) s = Inr (g2, s2)" "R s s2"
    using connect_to_server_good [OF cfg R, of "\<lambda>fd s. s\<lparr>db_server_client := fd\<rparr>" c s body
      db_server_client] C(6) good I by blast
  have restart: "R s (restart_timers ty t)" if "R s t" for ty t
    unfolding restart_timers_def using that C(4) by (rule S(2))
  show ?thesis
    using b l d restart S(1) by (auto simp: FuncServer_HandleServerInfo_def)
qed

end
