(* ===== verification/Event_Loop.thy ===== *)
theory Event_Loop
  imports FuncServer
begin

text \<open>
  Whole processes, from \<open>BootServer\<close> on: what every turn of the event loop keeps, whatever the
  network delivers, in whatever pieces, and whichever calls fail. The statements are about the
  process for as long as it runs: a turn that ends in a fault is where the C++ program has no
  meaning any more, and nothing is claimed of it.

  A property \<open>I\<close> of a server's own members is kept by the loop when the four methods the server
  overrides keep it (\<open>server_invariant\<close>): all the rest of the loop works on the members of the
  base class, which \<open>I\<close> does not read (\<open>base_frame\<close>).
\<close>

section \<open>Properties of a server's own members\<close>

definition base_frame :: "('a ServerBase_scheme \<Rightarrow> bool) \<Rightarrow> bool" where
  "base_frame I \<longleftrightarrow> (\<forall>s t. ServerBase.ServerBase.more t = ServerBase.ServerBase.more s \<longrightarrow> I s \<longrightarrow> I t)"

abbreviation keeping :: "('s \<Rightarrow> bool) \<Rightarrow> 's \<Rightarrow> 's \<Rightarrow> bool" where
  "keeping I s t \<equiv> I s \<longrightarrow> I t"

lemma base_frameD: "base_frame I \<Longrightarrow> I s \<Longrightarrow> ServerBase.ServerBase.more t = ServerBase.ServerBase.more s \<Longrightarrow> I t"
  by (auto simp: base_frame_def)

lemma base_frame_stable:
  assumes "base_frame I"
  shows "net_stable (\<lambda>s. True) (keeping I)"
  using assms unfolding net_stable_def
  by (auto simp: net_do_def io_tick_def elim!: base_frameD)

lemma foldF_keeps:
  "foldF f xs s = Inr s' \<Longrightarrow> (\<And>x t t'. x \<in> set xs \<Longrightarrow> f x t = Inr t' \<Longrightarrow> keeping I t t') \<Longrightarrow> keeping I s s'"
proof (induction xs arbitrary: s)
  case (Cons x xs)
  then obtain s1 where s1: "f x s = Inr s1" "foldF f xs s1 = Inr s'" by auto
  have "keeping I s s1" by (rule Cons.prems(2) [OF _ s1(1)]) simp
  moreover have "keeping I s1 s'" by (rule Cons.IH [OF s1(2)], rule Cons.prems(2)) simp_all
  ultimately show ?case by blast
qed simp

lemma frame_loop_keeps:
  assumes "\<And>m b l t t'. handler m b l fd t = Inr t' \<Longrightarrow> keeping I t t'"
  shows "frame_loop n w handler recv len fd s = Inr s' \<Longrightarrow> keeping I s s'"
proof (induction n arbitrary: recv len s)
  case (Suc n)
  then show ?case using assms by (fastforce split: if_splits)
qed simp

section \<open>The loop\<close>

locale server_invariant =
  fixes w :: world and v :: "'a ServerBase_scheme virtuals" and I :: "'a ServerBase_scheme \<Rightarrow> bool"
  assumes frame: "base_frame I"
    and close_keeps: "relates (keeping I) (v_close v)"
    and handler_keeps: "v_handler v msg body len fd s = Inr s' \<Longrightarrow> keeping I s s'"
    and callback_keeps: "v_callback v ty s = Inr s' \<Longrightarrow> keeping I s s'"
    and start_keeps: "v_on_start v s = Inr (ok, s') \<Longrightarrow> keeping I s s'"
begin

lemmas framed = base_frameD [OF frame]

lemma received_keeps:
  assumes "HandleReceivedMsg w (v_handler v) i fd s = Inr s'"
  shows "keeping I s s'"
proof -
  obtain recv t rb where t: "frame_loop (length recv + 2) w (v_handler v) recv (GetCapacity rb) fd s = Inr t"
    and s': "ServerBase.ServerBase.more s' = ServerBase.ServerBase.more t"
    using assms by (auto simp: HandleReceivedMsg_def set_buffer_def)
  have "keeping I s t" using handler_keeps t by (rule frame_loop_keeps)
  then show ?thesis using framed [OF _ s'] by blast
qed

lemma conn_event_keeps:
  assumes "HandleConnEvent w (v_close v) (v_handler v) fd s = Inr s'"
  shows "keeping I s s'"
proof (cases "om_get (connections s) fd")
  case (Some c)
  obtain i rb where c: "c = (i, rb)" by (cases c)
  obtain chunks fin where r: "os_recv (w_os w) (io_clock s) fd = (chunks, fin)"
    by (cases "os_recv (w_os w) (io_clock s) fd")
  obtain fits rb' where rb': "recv_loop w chunks rb = Inr (fits, rb')"
    using assms Some c r by (auto simp: HandleConnEvent_def)
  let ?s1 = "set_buffer fd i rb' (io_tick s)"
  have "v_close v fd ?s1 = Inr s' \<or> HandleReceivedMsg w (v_handler v) i fd ?s1 = Inr s'"
    using assms Some c r rb' by (simp add: HandleConnEvent_def Let_def split: if_splits)
  then have "keeping I ?s1 s'"
    using relatesD [OF close_keeps] received_keeps by blast
  then show ?thesis using framed [of s ?s1] by (simp add: set_buffer_def io_tick_def)
qed (use assms in \<open>simp add: HandleConnEvent_def\<close>)

lemma conns_change_keeps:
  "SendConnsChange w (v_close v) ty ip port d s = Inr s' \<Longrightarrow> keeping I s s'"
  by (rule SendConnsChange_relates [OF base_frame_stable [OF frame] close_keeps])

lemma listener_keeps:
  assumes "HandleListenerEvent w (v_close v) fd s = Inr s'"
  shows "keeping I s s'"
proof
  assume s: "I s"
  have ticked: "I (io_tick t)" if "I t" for t
    using that by (rule framed) (simp add: io_tick_def)
  have new: "I (new_connection w x t)" if "I t" for x t
    using that by (rule framed) (simp add: new_connection_def)
  have closed: "I t'" if "v_close v x t = Inr t'" "I t" for x t t'
    using relatesD [OF close_keeps that(1)] that(2) by simp
  show "I s'"
    using assms s ticked new closed conns_change_keeps
    by (fastforce simp: HandleListenerEvent_def AddEventToEpoll_def Let_def split: if_splits option.splits)
qed

lemma epoll_event_keeps: "epoll_event w v ev s = Inr s' \<Longrightarrow> keeping I s s'"
proof (cases ev)
  case (fields fd epollin epollerr epollhup)
  have closed: "keeping I t t'" if "(if b then v_close v fd t else Inr t) = Inr t'" for b t t'
    using that relatesD [OF close_keeps] by (auto split: if_splits)
  assume "epoll_event w v ev s = Inr s'"
  then obtain s1 s2 where
    "(if epollin then (if fd = listen_fd s then HandleListenerEvent w (v_close v) fd s
                       else HandleConnEvent w (v_close v) (v_handler v) fd s) else Inr s) = Inr s1"
    "(if epollerr then v_close v fd s1 else Inr s1) = Inr s2"
    "(if epollhup then v_close v fd s2 else Inr s2) = Inr s'"
    unfolding epoll_event_def fields by auto
  moreover from this(1) have "keeping I s s1"
    using listener_keeps conn_event_keeps by (auto split: if_splits)
  ultimately show ?thesis using closed by blast
qed

lemma tick_keeps:
  assumes "Timer_Tick w (v_callback v) i s = Inr s'"
  shows "keeping I s s'"
proof (cases "m_already (m_callfuncList s ! i) \<and>
    Timer_due (os_time (w_os w) (io_clock s)) (m_callfuncList s ! i) \<noteq> None")
  case True
  then obtain t0 t where "v_callback v (m_callbackType (m_callfuncList s ! i)) t0 = Inr t"
    "ServerBase.ServerBase.more t0 = ServerBase.ServerBase.more s" "ServerBase.ServerBase.more s' = ServerBase.ServerBase.more t"
    using assms by (auto simp: Timer_Tick_def getCurrentTime_def Let_def io_tick_def)
  then show ?thesis using framed callback_keeps by blast
next
  case False
  then have "ServerBase.ServerBase.more s' = ServerBase.ServerBase.more s"
    using assms by (auto simp: Timer_Tick_def getCurrentTime_def Let_def io_tick_def split: if_splits)
  then show ?thesis using framed by blast
qed

lemma fire_keeps: "FireEvent w (v_callback v) s = Inr s' \<Longrightarrow> keeping I s s'"
  unfolding FireEvent_def by (rule foldF_keeps) (auto dest: tick_keeps)

lemma turn_keeps:
  assumes "server_turn w v s = Inr (go, s')"
  shows "keeping I s s'"
proof (cases "os_epoll_wait (w_os w) (io_clock s)")
  case None
  then show ?thesis using assms framed [of s s'] by (auto simp: server_turn_def io_tick_def)
next
  case (Some events)
  then obtain s1 where s1: "foldF (epoll_event w v) events (io_tick s) = Inr s1"
      "FireEvent w (v_callback v) s1 = Inr s'"
    using assms by (auto simp: server_turn_def)
  have "keeping I (io_tick s) s1"
    using s1(1) by (rule foldF_keeps) (auto dest: epoll_event_keeps)
  then show ?thesis using fire_keeps [OF s1(2)] framed [of s "io_tick s"] by (auto simp: io_tick_def)
qed

lemma loop_keeps: "server_loop n w v s = Inr (go, s') \<Longrightarrow> keeping I s s'"
proof (induction n arbitrary: s)
  case (Suc n)
  then obtain g s1 where s1: "server_turn w v s = Inr (g, s1)"
      "(if g then server_loop n w v s1 else Inr (False, os_close (epoll_fd s1) s1)) = Inr (go, s')"
    by auto
  have "keeping I s1 s'"
    using s1(2) Suc.IH framed by (cases g) (auto simp: os_close_def net_do_def io_tick_def)
  then show ?case using turn_keeps [OF s1(1)] by blast
qed simp

lemma boot_keeps:
  assumes "BootServer n w v ip port name s = Inr (go, s')" "I s"
  shows "I s'"
proof -
  have listen: "ServerBase.ServerBase.more (snd (StartListener w port t)) = ServerBase.ServerBase.more t" for t :: "'a ServerBase_scheme"
    by (simp add: StartListener_def io_tick_def os_close_def net_do_def Let_def split: option.split)
  have epoll: "ServerBase.ServerBase.more (snd (CreateEpoll w t)) = ServerBase.ServerBase.more t"
      "ServerBase.ServerBase.more (snd (AddEventToEpoll w fd t)) = ServerBase.ServerBase.more t" for fd and t :: "'a ServerBase_scheme"
    by (simp_all add: CreateEpoll_def AddEventToEpoll_def io_tick_def split: option.split)
  have close: "ServerBase.ServerBase.more (os_close fd t) = ServerBase.ServerBase.more t" for fd and t :: "'a ServerBase_scheme"
    by (simp add: os_close_def net_do_def io_tick_def)
  obtain r s1 where s1: "StartListener w port (io_tick s) = (r, s1)"
    by (cases "StartListener w port (io_tick s)")
  let ?s2 = "s1\<lparr>listen_ip := ip, listen_port := port, listen_name := name\<rparr>"
  obtain e s3 where s3: "CreateEpoll w ?s2 = (e, s3)" by (cases "CreateEpoll w ?s2")
  obtain a s4 where s4: "AddEventToEpoll w (listen_fd s3) s3 = (a, s4)"
    by (cases "AddEventToEpoll w (listen_fd s3) s3")
  have more: "ServerBase.ServerBase.more s1 = ServerBase.ServerBase.more s" "ServerBase.ServerBase.more s3 = ServerBase.ServerBase.more s"
    "ServerBase.ServerBase.more s4 = ServerBase.ServerBase.more s"
    using listen [of "io_tick s"] epoll(1) [of ?s2] epoll(2) [of "listen_fd s3" s3] s1 s3 s4
    by (simp_all add: io_tick_def)
  have "ServerBase.ServerBase.more s' = ServerBase.ServerBase.more s \<or>
     (\<exists>ok s5. v_on_start v s4 = Inr (ok, s5) \<and>
        (ServerBase.ServerBase.more s' = ServerBase.ServerBase.more s5 \<or> server_loop n w v s5 = Inr (go, s')))"
    using assms(1) more s1 s3 s4 close
    by (auto simp: BootServer_def Let_def split: prod.splits if_splits)
  then show ?thesis
    using framed assms(2) more(3) start_keeps loop_keeps by meson
qed

end

section \<open>One more turn\<close>

lemma server_loop_more:
  "server_loop n w v s = Inr (True, t) \<Longrightarrow> server_loop (n + k) w v s = server_loop k w v t"
proof (induction n arbitrary: s)
  case (Suc n)
  then obtain g s1 where "server_turn w v s = Inr (g, s1)"
      "(if g then server_loop n w v s1 else Inr (False, os_close (epoll_fd s1) s1)) = Inr (True, t)"
    by auto
  then show ?case using Suc.IH [of s1] by (cases g) simp_all
qed simp

text \<open>A server that is still running came up, and runs on with its next turn.\<close>

lemma boot_more:
  assumes "BootServer n w v ip port name s = Inr (True, t)"
  shows "BootServer (n + k) w v ip port name s = server_loop k w v t"
proof -
  obtain r s1 where s1: "StartListener w port (io_tick s) = (r, s1)"
    by (cases "StartListener w port (io_tick s)")
  let ?s2 = "s1\<lparr>listen_ip := ip, listen_port := port, listen_name := name\<rparr>"
  obtain e s3 where s3: "CreateEpoll w ?s2 = (e, s3)" by (cases "CreateEpoll w ?s2")
  obtain a s4 where s4: "AddEventToEpoll w (listen_fd s3) s3 = (a, s4)"
    by (cases "AddEventToEpoll w (listen_fd s3) s3")
  obtain s5 where s5: "v_on_start v s4 = Inr (True, s5)" "server_loop n w v s5 = Inr (True, t)"
    using assms s1 s3 s4 by (auto simp: BootServer_def Let_def split: prod.splits if_splits)
  have "BootServer (n + k) w v ip port name s = server_loop (n + k) w v s5"
    using assms s1 s3 s4 s5(1) by (auto simp: BootServer_def Let_def split: prod.splits if_splits)
  then show ?thesis using server_loop_more [OF s5(2)] by simp
qed

text \<open>The message the base class hands over is of the class its type announces, if reading it stays
  within the bytes.\<close>

lemma ServerBase_OnMsg_class:
  assumes pb: "pb_keeps_class (w_pb w)" and run: "ServerBase_OnMsgBodyAnalysised w m body len = Inr m'"
  shows "m_head m' = m_head m" "msg_typed m'"
proof -
  have cls: "body_class q = body_class p" if "pb_dec (w_pb w) p bs = (ok, q)" for p bs ok q
    using pb that by (auto simp: pb_keeps_class_def) (metis snd_conv)
  obtain ok mb where mb: "MessageBody_ParseFromArray (w_pb w) (CreateMessageBody (m_packageType (m_head m))) body
      (sint len) = Inr (ok, mb)" "m' = m\<lparr>m_body := Some mb\<rparr>"
    using run by (auto simp: ServerBase_OnMsgBodyAnalysised_def)
  show "m_head m' = m_head m" by (simp add: mb(2))
  show "msg_typed m'"
    using mb
    by (auto dest: cls simp: msg_typed_def msg_object_def MessageBody_ParseFromArray_def Let_def
        split: option.splits if_splits prod.splits)
qed

section \<open>What the network code does to connections\<close>

text \<open>A step of the base class leaves the members of the derived class alone, and a connection it opens
  starts with a new buffer (\<open>base_step\<close>). A property that such steps keep (\<open>base_keeps\<close>) is kept by
  everything that class does but reading.\<close>

definition conns_step :: "world \<Rightarrow> (nat \<times> RingBuffer) omap \<Rightarrow> (nat \<times> RingBuffer) omap \<Rightarrow> bool" where
  "conns_step w m n \<longleftrightarrow>
     (\<forall>fd c. om_get n fd = Some c \<longrightarrow> om_get m fd = Some c \<or> snd c = RingBuffer_new (w_cfg w))"

lemma conns_step_refl [simp]: "conns_step w m m"
  by (simp add: conns_step_def)

lemma conns_step_trans: "conns_step w m n \<Longrightarrow> conns_step w n k \<Longrightarrow> conns_step w m k"
  unfolding conns_step_def by metis

lemma conns_step_del [simp]: "conns_step w m (om_del fd m)"
  by (simp add: conns_step_def)

lemma conns_step_new [simp]: "conns_step w (connections s) (connections (new_connection w fd s))"
  by (simp add: conns_step_def new_connection_def)

definition base_step :: "world \<Rightarrow> 'a ServerBase_scheme \<Rightarrow> 'a ServerBase_scheme \<Rightarrow> bool" where
  "base_step w s t \<longleftrightarrow> ServerBase.ServerBase.more t = ServerBase.ServerBase.more s \<and>
     conns_step w (connections s) (connections t)"

definition base_keeps :: "world \<Rightarrow> ('a ServerBase_scheme \<Rightarrow> bool) \<Rightarrow> bool" where
  "base_keeps w I \<longleftrightarrow> (\<forall>s t. base_step w s t \<longrightarrow> I s \<longrightarrow> I t)"

lemma base_keepsD: "base_keeps w I \<Longrightarrow> base_step w s t \<Longrightarrow> keeping I s t"
  by (auto simp: base_keeps_def)

lemma base_step_network [simp]:
  "base_step w s (io_tick s)" "base_step w s (net_do e s)" "base_step w s (os_close fd s)"
  "base_step w s (s\<lparr>conns_count := n\<rparr>)" "base_step w s (new_connection w fd s)"
  "base_step w s (os_close fd (s\<lparr>connections := om_del fd (connections s)\<rparr>))"
  by (simp_all add: base_step_def io_tick_def os_close_def net_do_def) (simp add: new_connection_def)

lemma base_keeps_send:
  assumes I: "base_keeps w I" and c: "relates (keeping I) c"
  shows "SendMsg w c msg fd s = Inr (ok, s') \<Longrightarrow> keeping I s s'"
    "SendConnsChange w c ty ip port d s = Inr s' \<Longrightarrow> keeping I s s'"
proof -
  have send: "keeping I t t'" if "SendMsg w c msg fd t = Inr (ok, t')" for msg fd ok t t'
    using that
  proof (cases rule: SendMsg_cases)
    case (2 resp)
    then show ?thesis using base_keepsD [OF I base_step_network(2)] by simp
  next
    case 3
    then show ?thesis
      using base_keepsD [OF I base_step_network(2), of t "SendFailed fd"] relatesD [OF c 3(3)] by blast
  qed simp
  then show "SendMsg w c msg fd s = Inr (ok, s') \<Longrightarrow> keeping I s s'" .
  let ?s = "s\<lparr>conns_count := conns_count s + d\<rparr>"
  have "keeping I s ?s" by (rule base_keepsD [OF I base_step_network(4)])
  then show "SendConnsChange w c ty ip port d s = Inr s' \<Longrightarrow> keeping I s s'"
    using send [of _ _ ?s] by (auto simp: SendConnsChange_def SendToCenterServerConnChange_def Let_def split: if_splits)
qed

lemma base_keeps_close:
  assumes I: "base_keeps w I" and c: "relates (keeping I) c"
  shows "relates (keeping I) (ServerBase_CloseClientSocket w c)"
  unfolding relates_def
proof (intro allI impI)
  fix fd s s'
  assume run: "ServerBase_CloseClientSocket w c fd s = Inr s'" and s: "I s"
  have "I (os_close fd (s\<lparr>connections := om_del fd (connections s)\<rparr>))"
    using base_keepsD [OF I base_step_network(6)] s by blast
  then show "I s'"
    using run s base_keeps_send(2) [OF I c] by (auto simp: ServerBase_CloseClientSocket_def Let_def split: if_splits)
qed

lemma base_keeps_listener:
  assumes I: "base_keeps w I" and c: "relates (keeping I) c"
    and run: "HandleListenerEvent w c fd s = Inr s'"
  shows "keeping I s s'"
proof
  assume s: "I s"
  have ticked: "I (io_tick t)" and new: "I (new_connection w x t)" if "I t" for x t
    using base_keepsD [OF I base_step_network(1), of t] base_keepsD [OF I base_step_network(5), of t] that by blast+
  have closed: "I t'" if "c x t = Inr t'" "I t" for x t t'
    using relatesD [OF c that(1)] that(2) by simp
  show "I s'"
    using run s ticked new closed base_keeps_send(2) [OF I c]
    by (fastforce simp: HandleListenerEvent_def AddEventToEpoll_def Let_def split: if_splits option.splits)
qed

section \<open>The members of the worker servers\<close>

text \<open>The same one class further down: a step of \<open>FuncServer\<close> (\<open>net_step\<close>), and what everything that
  class does keeps (\<open>func_keeps\<close>).\<close>

definition net_step :: "world \<Rightarrow> 'a FuncServer_scheme \<Rightarrow> 'a FuncServer_scheme \<Rightarrow> bool" where
  "net_step w s t \<longleftrightarrow> FuncServer.more t = FuncServer.more s \<and> conns_step w (connections s) (connections t)"

definition func_keeps :: "world \<Rightarrow> ('a FuncServer_scheme \<Rightarrow> bool) \<Rightarrow> bool" where
  "func_keeps w I \<longleftrightarrow> (\<forall>s t. net_step w s t \<longrightarrow> I s \<longrightarrow> I t)"

lemma func_keepsD: "func_keeps w I \<Longrightarrow> net_step w s t \<Longrightarrow> keeping I s t"
  by (auto simp: func_keeps_def)

lemma net_step_refl [simp]: "net_step w s s"
  by (simp add: net_step_def)

lemma net_step_trans: "net_step w s t \<Longrightarrow> net_step w t u \<Longrightarrow> net_step w s u"
  unfolding net_step_def by (auto intro: conns_step_trans)

lemma net_step_same:
  "connections t = connections s \<Longrightarrow> FuncServer.more t = FuncServer.more s \<Longrightarrow> net_step w s t"
  by (simp add: net_step_def)

lemma net_step_new [simp]: "net_step w s (new_connection w fd s)"
  by (simp add: net_step_def) (simp add: new_connection_def)

lemma func_more_base:
  "ServerBase.ServerBase.more t = ServerBase.ServerBase.more s \<Longrightarrow> FuncServer.more t = FuncServer.more s"
  by (cases s, cases t) simp

lemma func_keeps_base: "func_keeps w I \<Longrightarrow> base_keeps w I"
  unfolding func_keeps_def base_keeps_def net_step_def base_step_def using func_more_base by blast

lemma net_step_network [simp]:
  "net_step w s (io_tick s)" "net_step w s (net_do e s)" "net_step w s (os_close fd s)"
  "net_step w s (restart_timers ty s)" "net_step w s (snd (AddEventToEpoll w fd s))"
  "net_step w s (snd (snd (ConnectToOtherServer w ip port s)))"
  by (simp_all add: net_step_def io_tick_def os_close_def net_do_def restart_timers_def AddEventToEpoll_def
      ConnectToOtherServer_def split: option.split)

text \<open>What does not read the members of this class at all is such a property.\<close>

definition func_frame :: "('a FuncServer_scheme \<Rightarrow> bool) \<Rightarrow> bool" where
  "func_frame I \<longleftrightarrow> (\<forall>s t. FuncServer.more t = FuncServer.more s \<longrightarrow> I s \<longrightarrow> I t)"

lemma func_frame_keeps: "func_frame I \<Longrightarrow> func_keeps w I"
  unfolding func_frame_def func_keeps_def net_step_def by blast

lemma func_frame_base: "func_frame I \<Longrightarrow> base_frame I"
  unfolding func_frame_def base_frame_def using func_more_base by blast

lemma func_keeps_send:
  assumes I: "func_keeps w I" and c: "relates (keeping I) c"
  shows "SendMsg w c msg fd s = Inr (ok, s') \<Longrightarrow> keeping I s s'"
    "SendConnsChange w c ty ip port d s = Inr s' \<Longrightarrow> keeping I s s'"
    "ApplyServerByType w c sty s = Inr s' \<Longrightarrow> keeping I s s'"
  using base_keeps_send [OF func_keeps_base [OF I] c] by (auto simp: ApplyServerByType_def)

lemma connect_to_server_keeps:
  assumes I: "func_keeps w I" and c: "relates (keeping I) c" and put: "\<And>fd t. net_step w t (put fd t)"
    and run: "connect_to_server w c body get put s = Inr (go, s')"
  shows "keeping I s s'"
proof -
  obtain ok fd s1 where con: "ConnectToOtherServer w (sv_ip body) (sv_port body) s = (ok, fd, s1)"
    by (cases "ConnectToOtherServer w (sv_ip body) (sv_port body) s") auto
  let ?s2 = "put fd s1"
  obtain r s3 where ep: "AddEventToEpoll w (get ?s2) ?s2 = (r, s3)"
    by (cases "AddEventToEpoll w (get ?s2) ?s2")
  let ?s4 = "new_connection w (get s3) s3"
  have 1: "net_step w s s1" "net_step w ?s2 s3"
    using net_step_network(6) [of w s "sv_ip body" "sv_port body", unfolded con snd_conv]
      net_step_network(5) [of w ?s2 "get ?s2", unfolded ep snd_conv] by simp_all
  have 2: "net_step w s ?s2" using 1(1) put by (rule net_step_trans)
  then have 3: "net_step w s s3" using 1(2) by (rule net_step_trans)
  have closed: "net_step w s (os_close x s3)" for x using 3 net_step_network(3) by (rule net_step_trans)
  have 4: "net_step w s ?s4" using 3 net_step_new by (rule net_step_trans)
  consider "s' = s \<or> s' = ?s2 \<or> s' = os_close (get s3) s3 \<or> s' = ?s4"
    | ty where "SendConnsChange w c ty (listen_ip ?s4) (listen_port ?s4) 1 ?s4 = Inr s'"
    using run con ep by (auto simp: connect_to_server_def Let_def split: if_splits)
  then show ?thesis
  proof cases
    case 1
    then show ?thesis using func_keepsD [OF I 2] func_keepsD [OF I closed] func_keepsD [OF I 4] by auto
  next
    case 2
    then show ?thesis using func_keeps_send(2) [OF I c 2] func_keepsD [OF I 4] by blast
  qed
qed

lemma FuncServer_HandleServerInfo_keeps:
  assumes I: "func_keeps w I" and c: "relates (keeping I) c"
    and run: "FuncServer_HandleServerInfo w c msg s = Inr s'"
  shows "keeping I s s'"
proof -
  have restart: "keeping I t (restart_timers ty t)" for ty and t :: "'a FuncServer_scheme"
    by (rule func_keepsD [OF I net_step_network(4)])
  have con: "keeping I s t" if "connect_to_server w c b logic_server_client (\<lambda>fd s. s\<lparr>logic_server_client := fd\<rparr>) s = Inr (go, t)
      \<or> connect_to_server w c b db_server_client (\<lambda>fd s. s\<lparr>db_server_client := fd\<rparr>) s = Inr (go, t)" for b go t
    using that
    by (elim disjE) (rule connect_to_server_keeps [OF I c, rotated], assumption, rule net_step_same, simp, simp)+
  show ?thesis
    using run restart con
    by (fastforce simp: FuncServer_HandleServerInfo_def split: option.splits proto_body.splits if_splits)
qed

lemma SendSelfInfoToCenter_keeps:
  assumes I: "func_keeps w I" and c: "relates (keeping I) c"
    and on: "\<And>t t'. on_center t = Inr t' \<Longrightarrow> keeping I t t'"
  shows "SendSelfInfoToCenter n w c on_center s = Inr s' \<Longrightarrow> keeping I s s'"
proof (induction n arbitrary: s s')
  case (Suc n)
  then obtain level sent s1 where level: "DynamicCalcServerFreeLevel (conns_count s) = Inr level"
    and s1: "SendMsg w c (NewServerInfoMessage (w_cfg w) (w_pb w) (listen_ip s)
      (listen_port s) (listen_name s) (server_type_code (server_type s)) Op_Register (free_level_code level))
      (center_server_client s) s = Inr (sent, s1)"
    by auto
  have k1: "keeping I s s1" by (rule func_keeps_send(1) [OF I c s1])
  show ?case
  proof (cases sent)
    case True
    then show ?thesis using Suc.prems level s1 k1 by simp
  next
    case False
    obtain ip port name where addr: "CENTER_SERVER (w_cfg w) = (ip, port, name)"
      by (cases "CENTER_SERVER (w_cfg w)")
    obtain ok fd s2 where s2: "ConnectToOtherServer w ip port s1 = (ok, fd, s2)"
      by (cases "ConnectToOtherServer w ip port s1")
    let ?s3 = "s2\<lparr>center_server_client := fd\<rparr>"
    obtain r s4 where s4: "AddEventToEpoll w (center_server_client ?s3) ?s3 = (r, s4)"
      by (cases "AddEventToEpoll w (center_server_client ?s3) ?s3")
    let ?s5 = "new_connection w (center_server_client s4) s4"
    have 2: "net_step w s1 s2" "net_step w ?s3 s4" "net_step w s2 ?s3"
      using net_step_network(6) [of w s1 ip port, unfolded s2 snd_conv]
        net_step_network(5) [of w ?s3 "center_server_client ?s3", unfolded s4 snd_conv]
      by simp_all (rule net_step_same; simp)
    have 3: "net_step w s1 ?s3" using 2(1,3) by (rule net_step_trans)
    then have 4: "net_step w s1 s4" using 2(2) by (rule net_step_trans)
    have closed: "net_step w s1 (os_close x s4)" for x using 4 net_step_network(3) by (rule net_step_trans)
    have 5: "net_step w s1 ?s5" using 4 net_step_new by (rule net_step_trans)
    consider "net_step w s1 s'"
      | s6 where "SendSelfInfoToCenter n w c on_center ?s5 = Inr s6" "on_center s6 = Inr s'"
      using Suc.prems level s1 False addr s2 s4 3 closed by (auto simp: Let_def split: if_splits)
    then show ?thesis
    proof cases
      case 1
      with k1 func_keepsD [OF I 1] show ?thesis by blast
    next
      case 2
      with k1 func_keepsD [OF I 5] Suc.IH [OF 2(1)] on [OF 2(2)] show ?thesis by blast
    qed
  qed
qed simp

lemma FuncServer_OnListenerStart_keeps:
  assumes I: "func_keeps w I" and c: "relates (keeping I) c"
    and on: "\<And>t t'. on_center t = Inr t' \<Longrightarrow> keeping I t t'"
    and run: "FuncServer_OnListenerStart w c on_center s = Inr (ok, s')"
  shows "keeping I s s'"
proof -
  obtain s1 where s1: "SendSelfInfoToCenter (w_retries w) w c on_center s = Inr s1"
      "net_step w s1 s'"
    using run by (auto simp: FuncServer_OnListenerStart_def net_step_def)
  show ?thesis
    using SendSelfInfoToCenter_keeps [OF I c on s1(1)] func_keepsD [OF I s1(2)] by blast
qed

lemma FuncServer_OnMsg_keeps:
  assumes I: "func_keeps w I" and c: "relates (keeping I) c"
    and run: "FuncServer_OnMsgBodyAnalysised w c msg body len fd s = Inr (msg', s')"
  shows "keeping I s s'"
proof -
  have user: "keeping I t t'" if "FuncServer_HandleUserInfo m t = Inr t'" for m and t t' :: "'a FuncServer_scheme"
    using that by (intro func_keepsD [OF I])
      (auto simp: FuncServer_HandleUserInfo_def net_step_def split: option.splits proto_body.splits UserInfo_Operation.splits)
  show ?thesis
    using run user FuncServer_HandleServerInfo_keeps [OF I c]
    by (auto simp: FuncServer_OnMsgBodyAnalysised_def split: if_splits)
qed

end
