(* ===== verification/Calm_Net.thy ===== *)
theory Calm_Net
  imports Event_Loop
begin

text \<open>
  The network on a good day: every send is taken, and what a connection delivers at a time is a
  sequence of whole packets that fits into its buffer (\<open>calm\<close>). Then the base class closes a
  connection only when it is told to, buffers are empty between two events (\<open>drained\<close>), and a
  receive event hands its packets to the handler and returns.
\<close>

definition calm :: "world \<Rightarrow> bool" where
  "calm w \<longleftrightarrow> sends_ok w \<and>
     (\<forall>n fd. \<exists>ps. concat (fst (os_recv (w_os w) n fd)) = wire ps \<and>
        (\<forall>p\<in>set ps. packet_ok (w_cfg w) p) \<and> length (wire ps) \<le> nat (MAX_BUFFER_SIZE (w_cfg w)))"

lemma calmD:
  assumes "calm w"
  shows "net_config_ok (w_cfg w)" "sends_ok w"
    "\<exists>ps. concat (fst (os_recv (w_os w) n fd)) = wire ps \<and> (\<forall>p\<in>set ps. packet_ok (w_cfg w) p) \<and>
       length (wire ps) \<le> nat (MAX_BUFFER_SIZE (w_cfg w))"
  using assms by (simp_all add: calm_def sends_ok_def)

section \<open>What sending leaves alone\<close>

definition net_same :: "'a ServerBase_scheme \<Rightarrow> 'a ServerBase_scheme \<Rightarrow> bool" where
  "net_same s t \<longleftrightarrow> connections t = connections s \<and> listen_fd t = listen_fd s \<and>
     m_callfuncList t = m_callfuncList s \<and> io_clock s \<le> io_clock t \<and> (\<exists>es. net_log t = net_log s @ es)"

lemma net_same_refl [simp]: "net_same s s"
  by (simp add: net_same_def)

lemma net_same_trans: "net_same s t \<Longrightarrow> net_same t u \<Longrightarrow> net_same s u"
  by (auto simp: net_same_def)

lemma net_same_tick [simp]: "net_same s (io_tick s)" "net_same s (net_do e s)"
  by (simp_all add: net_same_def net_do_def io_tick_def)

lemma net_same_count [simp]: "net_same s (s\<lparr>conns_count := n\<rparr>)"
  by (simp add: net_same_def)

lemma foldF_same:
  "foldF f xs s = Inr s' \<Longrightarrow> (\<And>x t t'. f x t = Inr t' \<Longrightarrow> net_same t t') \<Longrightarrow> net_same s s'"
proof (induction xs arbitrary: s)
  case (Cons x xs)
  then obtain s1 where "f x s = Inr s1" "foldF f xs s1 = Inr s'" by auto
  with Cons show ?case by (blast intro: net_same_trans)
qed simp

lemma SendMsg_same:
  assumes "sends_ok w" "SendMsg w c msg fd s = Inr (ok, s')"
  shows "net_same s s'" "ServerBase.ServerBase.more s' = ServerBase.ServerBase.more s"
proof -
  have "s' = s \<or> (\<exists>b. s' = net_do (Sent fd b) s)"
    using assms sends_okD(2) [OF assms(1)] by (auto simp: SendMsg_def Let_def split: if_splits prod.splits)
  then show "net_same s s'" "ServerBase.ServerBase.more s' = ServerBase.ServerBase.more s"
    by (auto simp: net_do_def io_tick_def net_same_def)
qed

text \<open>A message that is built for its size, and no larger than a buffer, is written to an open
  connection, if the send is taken.\<close>

lemma SendMsg_taken:
  assumes cfg: "net_config_ok (w_cfg w)" and fd: "om_has fd (connections s)"
    and size: "m_packageSize (m_head msg) = Message_length (w_cfg w) (w_pb w) (m_body msg)"
      "m_packageSize (m_head msg) \<le> MAX_BUFFER_SIZE (w_cfg w)"
    and sent: "\<And>b. os_send (w_os w) (io_clock s) fd b"
  shows "SendMsg w c msg fd s = Inr (True, net_do (Sent fd (packet_bytes (w_pb w) msg)) s)"
proof -
  have "Message_SerializeToArray (w_cfg w) (w_pb w) msg
      (replicate (nat (m_packageSize (m_head msg))) 0) (m_packageSize (m_head msg)) =
      Inr (True, packet_bytes (w_pb w) msg)"
    using size(1) length_packet_bytes [OF cfg, of "w_pb w" msg] by (simp add: Message_Serialize_array [OF cfg])
  then show ?thesis
    using fd size(2) sent by (simp add: SendMsg_def Let_def)
qed

lemma SendMsg_sent:
  assumes w: "sends_ok w" and fd: "om_has fd (connections s)"
    and size: "m_packageSize (m_head msg) = Message_length (w_cfg w) (w_pb w) (m_body msg)"
      "m_packageSize (m_head msg) \<le> MAX_BUFFER_SIZE (w_cfg w)"
  shows "SendMsg w c msg fd s = Inr (True, net_do (Sent fd (packet_bytes (w_pb w) msg)) s)"
  by (rule SendMsg_taken [OF sends_okD(1) [OF w] fd size sends_okD(2) [OF w]])

lemma SendConnsChange_same:
  assumes w: "sends_ok w" and run: "SendConnsChange w c ty ip port d s = Inr s'"
  shows "net_same s s'" "ServerBase.ServerBase.more s' = ServerBase.ServerBase.more s"
proof -
  let ?s = "s\<lparr>conns_count := conns_count s + d\<rparr>"
  have "s' = ?s \<or> (\<exists>m ok. SendMsg w c m (center_server_client s) ?s = Inr (ok, s'))"
    using run by (auto simp: SendConnsChange_def SendToCenterServerConnChange_def Let_def split: if_splits)
  then have "net_same ?s s' \<and> ServerBase.ServerBase.more s' = ServerBase.ServerBase.more ?s"
    using SendMsg_same [OF w, of c _ "center_server_client s" ?s _ s'] net_same_refl by blast
  then show "net_same s s'" "ServerBase.ServerBase.more s' = ServerBase.ServerBase.more s"
    using net_same_trans [of s ?s s'] by simp_all
qed

lemma ServerBase_Close_calm:
  assumes w: "sends_ok w" and run: "ServerBase_CloseClientSocket w c fd s = Inr s'"
  shows "connections s' = om_del fd (connections s)" "listen_fd s' = listen_fd s"
    "m_callfuncList s' = m_callfuncList s" "io_clock s \<le> io_clock s'" "\<exists>es. net_log s' = net_log s @ es"
proof -
  have "connections s' = om_del fd (connections s) \<and> listen_fd s' = listen_fd s \<and>
      m_callfuncList s' = m_callfuncList s \<and> io_clock s \<le> io_clock s' \<and> (\<exists>es. net_log s' = net_log s @ es)"
  proof (cases "om_has fd (connections s)")
    case True
    let ?s = "os_close fd (s\<lparr>connections := om_del fd (connections s)\<rparr>)"
    have "net_same ?s s'"
      using run True SendConnsChange_same(1) [OF w] by (simp add: ServerBase_CloseClientSocket_def Let_def)
    then show ?thesis by (auto simp: net_same_def os_close_def net_do_def io_tick_def)
  next
    case False
    then show ?thesis using run by (simp add: ServerBase_CloseClientSocket_def)
  qed
  then show "connections s' = om_del fd (connections s)" "listen_fd s' = listen_fd s"
    "m_callfuncList s' = m_callfuncList s" "io_clock s \<le> io_clock s'" "\<exists>es. net_log s' = net_log s @ es"
    by blast+
qed

section \<open>Empty buffers\<close>

definition drained :: "Config \<Rightarrow> 'a ServerBase_scheme \<Rightarrow> bool" where
  "drained cfg s \<longleftrightarrow>
     (\<forall>fd i rb. om_get (connections s) fd = Some (i, rb) \<longrightarrow> rb_wf cfg rb \<and> rb_view cfg rb = [])"

lemma drained_conns: "drained cfg s \<Longrightarrow> connections t = connections s \<Longrightarrow> drained cfg t"
  by (simp add: drained_def)

lemma drained_del: "drained cfg s \<Longrightarrow> connections t = om_del fd (connections s) \<Longrightarrow> drained cfg t"
  by (simp add: drained_def)

lemma drained_new:
  assumes "net_config_ok (w_cfg w)" "drained (w_cfg w) s"
  shows "drained (w_cfg w) (new_connection w fd s)"
proof -
  have "rb_wf (w_cfg w) (RingBuffer_new (w_cfg w))"
    using assms(1) by (intro RingBuffer_new_wf) (simp_all add: net_config_ok_def)
  then show ?thesis using assms(2) by (simp add: drained_def new_connection_def)
qed

text \<open>A receive event, when the handler serves the packets and leaves the connections alone. \<open>P\<close> is
  what holds after them of the other members.\<close>

lemma conn_event_calm:
  assumes w: "calm w" and h: "reads_exactly handler" and d: "drained (w_cfg w) s"
    and conn: "om_get (connections s) fd = Some (i, rb)"
    and recv: "os_recv (w_os w) (io_clock s) fd = (chunks, WouldBlock)"
    and ps: "concat chunks = wire ps" "\<forall>p\<in>set ps. packet_ok (w_cfg w) p"
    and run: "\<And>rb1. \<exists>s'. foldF (on_packet handler fd) ps (set_buffer fd i rb1 (io_tick s)) = Inr s' \<and>
       net_same (set_buffer fd i rb1 (io_tick s)) s' \<and> P s'"
    and P: "\<And>rb t. P t \<Longrightarrow> P (set_buffer fd i rb t)"
  shows "\<exists>s'. HandleConnEvent w close handler fd s = Inr s' \<and> drained (w_cfg w) s' \<and> P s' \<and>
     om_has fd (connections s') \<and> (\<forall>k. om_has k (connections s) \<longrightarrow> om_has k (connections s')) \<and>
     listen_fd s' = listen_fd s \<and> m_callfuncList s' = m_callfuncList s \<and> io_clock s \<le> io_clock s' \<and>
     (\<exists>es. net_log s' = net_log s @ es)"
proof -
  have rb: "rb_wf (w_cfg w) rb" "rb_view (w_cfg w) rb = []"
    using d conn by (auto simp: drained_def)
  have "length (concat chunks) \<le> nat (MAX_BUFFER_SIZE (w_cfg w))"
    using calmD(3) [OF w, of "io_clock s" fd] recv by auto
  moreover have "nat (MAX_BUFFER_SIZE (w_cfg w)) < 2 ^ 32"
    using calmD(1) [OF w] by (auto simp: net_config_ok_def)
  ultimately have fits: "length (concat chunks) \<le> nat (MAX_BUFFER_SIZE (w_cfg w))" "length (concat chunks) < 2 ^ 32"
    by linarith+
  have "length c \<le> length (concat chunks)" if "c \<in> set chunks" for c
    using that by (induction chunks) auto
  with fits(2) have small: "\<forall>c\<in>set chunks. length c < 2 ^ 32" by fastforce
  let ?Q = "\<lambda>s'. P s' \<and> (\<exists>rb1. net_same (set_buffer fd i rb1 (io_tick s)) s')"
  have handled: "\<exists>s' rb'. foldF (on_packet handler fd) ps (set_buffer fd i rb1 (io_tick s)) = Inr s' \<and>
      conn_at fd i rb' s' \<and> rb_wf (w_cfg w) rb' \<and> ?Q s'" if "rb_wf (w_cfg w) rb1" for rb1
  proof -
    obtain s' where s': "foldF (on_packet handler fd) ps (set_buffer fd i rb1 (io_tick s)) = Inr s'"
        "net_same (set_buffer fd i rb1 (io_tick s)) s'" "P s'"
      using run by blast
    then have "conn_at fd i rb1 s'" by (simp add: conn_at_def net_same_def set_buffer_def)
    with s' that show ?thesis by blast
  qed
  obtain s' rb'' where s': "HandleConnEvent w close handler fd s = Inr (set_buffer fd i rb'' s')" "?Q s'"
      "rb_wf (w_cfg w) rb''" "rb_view (w_cfg w) rb'' = []"
    using HandleConnEvent_packets [OF calmD(1) [OF w] h conn rb(1) recv small _ _ ps(2), of ?Q close] handled rb(2)
      fits(1) ps(1) by auto
  obtain rb1 where rb1: "net_same (set_buffer fd i rb1 (io_tick s)) s'" using s'(2) by blast
  let ?t = "set_buffer fd i rb'' s'"
  have conns: "connections ?t = om_upd fd (i, rb'') (connections s)"
    using rb1 by (simp add: net_same_def set_buffer_def)
  have rest: "listen_fd ?t = listen_fd s" "m_callfuncList ?t = m_callfuncList s" "io_clock s \<le> io_clock ?t" "\<exists>es. net_log ?t = net_log s @ es"
    using rb1 by (simp_all add: net_same_def set_buffer_def io_tick_def)
  have "drained (w_cfg w) ?t" using d s'(3,4) by (simp add: drained_def conns)
  then show ?thesis using s'(1,2) P conns rest by auto
qed

end
