(* ===== verification/Center_Calm.thy ===== *)
theory Center_Calm
  imports Center_Machine Calm_Net
begin

text \<open>
  What a handler of the center server does outside the registry: it sends. A relation of states that
  ignores the server's own members and holds across every send holds across every handler
  (\<open>center_steps\<close>); that no request makes the server close or open a connection while every send
  is taken is one such relation.
\<close>

locale center_steps =
  fixes w :: world and R :: "'a CenterServer_scheme \<Rightarrow> 'a CenterServer_scheme \<Rightarrow> bool"
  assumes own: "ServerBase.ServerBase.truncate t = ServerBase.ServerBase.truncate s \<Longrightarrow> R s t"
    and trans: "R s t \<Longrightarrow> R t u \<Longrightarrow> R s u"
    and sent: "SendMsg w (CenterServer_CloseClientSocket w) msg fd s = Inr (ok, s') \<Longrightarrow> R s s'"
begin

lemma refl: "R s s"
  by (rule own) simp

lemma fold_steps: "foldF f xs s = Inr s' \<Longrightarrow> (\<And>x t t'. f x t = Inr t' \<Longrightarrow> R t t') \<Longrightarrow> R s s'"
proof (induction xs arbitrary: s)
  case (Cons x xs)
  then obtain s1 where "f x s = Inr s1" "foldF f xs s1 = Inr s'" by auto
  with Cons show ?case by (blast intro: trans)
qed (simp add: refl)

lemma reply_steps: "Center_SendMsg w msg fd s = Inr s' \<Longrightarrow> R s s'"
  by (auto simp: Center_SendMsg_def dest: sent)

lemma upd_info_steps: "upd_info p f s = Inr s' \<Longrightarrow> R s s'"
  by (rule own) (auto simp: upd_info_def ServerBase.ServerBase.truncate_def)

lemma RegisterServer_steps: "RegisterServer p s = Inr s' \<Longrightarrow> R s s'"
  by (rule own) (auto simp: RegisterServer_def upd_info_def ServerBase.ServerBase.truncate_def split: if_splits)

lemma HandleServerInfo_steps:
  assumes run: "Center_HandleServerInfo w msg fd s = Inr s'"
  shows "R s s'"
proof (cases "\<exists>q. msg_object msg = Some (B_ServerInfo q)")
  case True
  then obtain q where q: "msg_object msg = Some (B_ServerInfo q)" by blast
  note run' = run [unfolded Center_HandleServerInfo_def q option.case proto_body.case]
  show ?thesis
  proof (cases "sv_opt q")
    case Op_Register
    let ?i = "Server_Info_new\<lparr>si_ip := sv_ip q, si_port := sv_port q, si_name := sv_server_name q,
        si_type := sv_server_type q\<rparr>"
    let ?t = "s\<lparr>MachineRecord := om_upd fd (next_info s) (MachineRecord s),
        infos := om_upd (next_info s) ?i (infos s), next_info := next_info s + 1\<rparr>"
    obtain s1 f where s1: "(if om_has fd (MachineRecord s) then Inr s else RegisterServer (next_info s) ?t) = Inr s1"
        "upd_info (om_at 0 (MachineRecord s1) fd) f s1 = Inr s'"
      using run' unfolding Op_Register ServerInfo_Operation.case Let_def bindF_eq_Inr by (elim exE conjE)
    have "R s ?t" by (rule own) (simp add: ServerBase.ServerBase.truncate_def)
    then have "R s s1"
      using s1(1) RegisterServer_steps [of "next_info s" ?t s1] trans [of s ?t s1] refl
      by (cases "om_has fd (MachineRecord s)") simp_all
    then show ?thesis using upd_info_steps [OF s1(2)] by (rule trans)
  next
    case Op_RequstAssgin
    then show ?thesis using run' by (auto dest: reply_steps)
  qed (use run' in \<open>simp_all add: refl\<close>)
next
  case False
  then show ?thesis
    using run by (simp add: Center_HandleServerInfo_def refl split: option.splits proto_body.splits)
qed

lemma ServerConnChange_steps:
  assumes run: "HandleServerConnChange w msg fd s = Inr s'"
  shows "R s s'"
proof -
  have one: "R t t'" if "(if b then foldF (set_people_count ip port n) g t else Inr t) = Inr t'"
    for b ip port n g t t'
  proof (cases b)
    case True
    then have "foldF (set_people_count ip port n) g t = Inr t'" using that by simp
    then show ?thesis
      by (rule fold_steps) (auto simp: set_people_count_def refl dest: upd_info_steps split: if_splits)
  qed (use that in \<open>simp add: refl\<close>)
  obtain q where q: "msg_object msg = Some (B_ServerConnChange q)"
    using run by (auto simp: HandleServerConnChange_def split: option.splits proto_body.splits)
  let ?upd = "foldF (set_people_count (sc_ip q) (sc_port q) (sc_change q))"
  obtain s1 s2 where "(if sc_type q = 2 then ?upd (gateServerGroup s) s else Inr s) = Inr s1"
    "(if sc_type q = 3 then ?upd (logicServerGroup s1) s1 else Inr s1) = Inr s2"
    "(if sc_type q = 4 then ?upd (dbServerGroup s2) s2 else Inr s2) = Inr s'"
    using run unfolding HandleServerConnChange_def q option.case proto_body.case Let_def bindF_eq_Inr by blast
  then show ?thesis by (blast intro: trans one)
qed

lemma dispatch_steps:
  assumes run: "Center_dispatch w msg fd s = Inr s'"
  shows "R s s'"
proof (cases "bodytype_of (m_packageType (m_head msg))")
  case (Some ty)
  have "HandleGetRegionInfoRequest w msg fd s = Inr s' \<Longrightarrow> R s s'"
    "HandleJoinRegionRequest w msg fd s = Inr s' \<Longrightarrow> R s s'"
    by (auto simp: HandleGetRegionInfoRequest_def HandleJoinRegionRequest_def dest: reply_steps
        split: option.splits proto_body.splits)
  then show ?thesis
    using Some run HandleServerInfo_steps ServerConnChange_steps
    by (cases ty) (simp_all add: Center_dispatch_def Center_HandleUserInfo_def refl)
qed (use run in \<open>simp add: Center_dispatch_def refl\<close>)

lemma handler_steps: "CenterServer_OnMsgBodyAnalysised w msg body len fd s = Inr s' \<Longrightarrow> R s s'"
  by (auto simp: CenterServer_OnMsgBodyAnalysised_def dest: dispatch_steps)

end

interpretation cs: center_steps w "\<lambda>s t. sends_ok w \<longrightarrow> net_same s t"
proof
  show "sends_ok w \<longrightarrow> net_same s t"
    if "ServerBase.ServerBase.truncate t = ServerBase.ServerBase.truncate s" for s t :: "'a CenterServer_scheme"
    using that by (simp add: net_same_def ServerBase.ServerBase.truncate_def)
qed (auto intro: net_same_trans SendMsg_same(1))

lemma Center_dispatch_same: "sends_ok w \<Longrightarrow> Center_dispatch w msg fd s = Inr s' \<Longrightarrow> net_same s s'"
  using cs.dispatch_steps by blast

end
