(* ===== verification/Center_Run.thy ===== *)
theory Center_Run
  imports Center_Calm
begin

text \<open>
  The center server as a process: its event loop keeps the registry, whatever the network does
  (\<open>center_boot_wf\<close>), and on a calm network it never stops serving.
\<close>

section \<open>Whatever the network does\<close>

definition center_inv :: "world \<Rightarrow> 'a CenterServer_scheme \<Rightarrow> bool" where
  "center_inv w s \<longleftrightarrow> center_world_ok w \<longrightarrow> center_wf s"

lemma center_inv_frame: "base_frame (center_inv w)"
  unfolding base_frame_def
proof (intro allI impI)
  fix s t :: "'a CenterServer_scheme"
  assume more: "ServerBase.ServerBase.more t = ServerBase.ServerBase.more s" and s: "center_inv w s"
  have "center_wf t = center_wf s"
    using more by (intro center_wf_cong) (cases s, cases t, simp)+
  then show "center_inv w t" using s by (simp add: center_inv_def)
qed

lemma center_handler_wf:
  assumes w: "center_world_ok w" and wf: "center_wf s"
    and run: "CenterServer_OnMsgBodyAnalysised w msg body len fd s = Inr s'"
  shows "center_wf s'"
proof -
  have cfg: "net_config_ok (w_cfg w)" and pb: "pb_keeps_class (w_pb w)"
    using w by (simp_all add: center_world_ok_def)
  obtain m where m: "ServerBase_OnMsgBodyAnalysised w msg body len = Inr m" "Center_dispatch w m fd s = Inr s'"
    using run by (auto simp: CenterServer_OnMsgBodyAnalysised_def)
  show ?thesis
    using Center_dispatch_good [OF cfg wf ServerBase_OnMsg_class(2) [OF pb m(1)], of fd] m(2)
    by (simp add: keeps_registry_def)
qed

interpretation cr: server_invariant w "CenterServer_virtuals w" "center_inv w"
proof
  show "base_frame (center_inv w)" by (rule center_inv_frame)
  show "relates (keeping (center_inv w)) (v_close (CenterServer_virtuals w))"
    unfolding relates_def
  proof (intro allI impI)
    fix fd s s'
    assume "v_close (CenterServer_virtuals w) fd s = Inr s'" "center_inv w s"
    then show "center_inv w s'"
      using Center_Close_good [of w s fd] by (auto simp: CenterServer_virtuals_def center_inv_def center_world_ok_def)
  qed
  show "keeping (center_inv w) s s'" if "v_handler (CenterServer_virtuals w) msg body len fd s = Inr s'"
    for msg body len fd s s'
    using that center_handler_wf by (auto simp: CenterServer_virtuals_def center_inv_def)
qed (simp_all add: CenterServer_virtuals_def)

lemma center_boot_wf:
  assumes "center_world_ok w" "CenterServer_main turns w = Inr (go, s)"
  shows "center_wf s"
proof -
  obtain ip port name where addr: "CENTER_SERVER (w_cfg w) = (ip, port, name)"
    by (cases "CENTER_SERVER (w_cfg w)")
  have run: "BootServer turns w (CenterServer_virtuals w) ip port '''' CenterServer_new = Inr (go, s)"
    using assms(2) addr by (simp only: CenterServer_main_def prod.case)
  have "center_inv w CenterServer_new" by (simp only: center_inv_def CenterServer_new_wf simp_thms)
  with run have "center_inv w s" by (rule cr.boot_keeps)
  then show ?thesis using assms(1) by (simp add: center_inv_def)
qed

section \<open>On a calm network\<close>

lemma center_wf_frame_more: "ServerBase.ServerBase.more t = ServerBase.ServerBase.more s \<Longrightarrow> center_wf t = center_wf s"
  by (rule center_wf_cong) (cases s, cases t, simp)+

lemma center_wf_set_buffer [simp]: "center_wf (set_buffer fd i rb s) = center_wf s"
  by (rule center_wf_cong) (simp_all add: set_buffer_def)

lemma center_close_calm:
  assumes w: "calm w" and wf: "center_wf s"
  shows "\<exists>s'. CenterServer_CloseClientSocket w fd s = Inr s' \<and> center_wf s' \<and>
     connections s' = om_del fd (connections s) \<and> listen_fd s' = listen_fd s \<and>
     m_callfuncList s' = m_callfuncList s \<and> io_clock s \<le> io_clock s' \<and> (\<exists>es. net_log s' = net_log s @ es)"
proof -
  let ?c = "CenterServer_CloseClientSocket w :: 'a CenterServer_scheme closer"
  obtain s' where s': "?c fd s = Inr s'" "center_wf s'"
    using Center_Close_good [OF calmD(1) [OF w] wf] by blast
  have eq: "?c fd s = CenterServer_close_body w ?c fd s"
    unfolding CenterServer_CloseClientSocket_def by (rule cc.virtual_close_eq)
  have "CenterServer_close_body w ?c fd s = Inr s'" by (rule trans [OF eq [symmetric] s'(1)])
  then obtain s1 where s1: "forget_machine fd s = Inr s1" "ServerBase_CloseClientSocket w ?c fd s1 = Inr s'"
    unfolding CenterServer_close_body_def bindF_eq_Inr by (elim exE conjE)
  have "net_same s s1"
  proof (cases "om_get (MachineRecord s) fd")
    case (Some p)
    then obtain s2 where s2: "RemoveServer p s = Inr s2"
        "s1 = s2\<lparr>infos := om_del p (infos s2), MachineRecord := om_del fd (MachineRecord s2)\<rparr>"
      using s1(1) by (auto simp: forget_machine_def)
    have "net_same s s2"
      using s2(1) unfolding RemoveServer_def bindF_eq_Inr by (elim exE conjE) (auto simp: net_same_def split: if_splits)
    then show ?thesis by (simp add: s2(2) net_same_def)
  qed (use s1(1) in \<open>simp add: forget_machine_def\<close>)
  with ServerBase_Close_calm [OF calmD(2) [OF w] s1(2)] s' show ?thesis by (auto simp: net_same_def)
qed

text \<open>Serving a packet leaves the connections alone.\<close>

lemma center_packet_calm:
  assumes w: "calm w" "center_world_ok w" and wf: "center_wf s" and p: "packet_ok (w_cfg w) p"
  shows "\<exists>s'. on_packet (CenterServer_OnMsgBodyAnalysised w) fd p s = Inr s' \<and> center_wf s' \<and> net_same s s'"
proof -
  have "length (snd p) < 2 ^ 31" using packet_ok_length(2) [OF calmD(1) [OF w(1)] p] by simp
  from center_packet_safe [OF w(2) wf this, of fd "fst p"] obtain s' where
    s': "on_packet (CenterServer_OnMsgBodyAnalysised w) fd p s = Inr s'" "center_wf s'" by auto
  then have "net_same s s'"
    using Center_dispatch_same [OF calmD(2) [OF w(1)]] by (auto simp: on_packet_def CenterServer_OnMsgBodyAnalysised_def)
  then show ?thesis using s' by blast
qed

lemma center_packets_calm:
  assumes w: "calm w" "center_world_ok w"
  shows "center_wf s \<Longrightarrow> \<forall>p\<in>set ps. packet_ok (w_cfg w) p \<Longrightarrow>
     \<exists>s'. foldF (on_packet (CenterServer_OnMsgBodyAnalysised w) fd) ps s = Inr s' \<and> center_wf s' \<and> net_same s s'"
proof (induction ps arbitrary: s)
  case (Cons p ps)
  obtain s1 where "on_packet (CenterServer_OnMsgBodyAnalysised w) fd p s = Inr s1" "center_wf s1" "net_same s s1"
    using center_packet_calm [OF w Cons.prems(1), of p fd] Cons.prems(2) by auto
  moreover from this Cons obtain s2 where "foldF (on_packet (CenterServer_OnMsgBodyAnalysised w) fd) ps s1 = Inr s2"
    "center_wf s2" "net_same s1 s2" by fastforce
  ultimately show ?case by (auto intro: net_same_trans)
qed simp

section \<open>Requests for a server\<close>

text \<open>The answer to a request for a server. One that outgrows a buffer is dropped by \<open>SendMsg\<close>.\<close>

definition reply_of :: "world \<Rightarrow> Server_Info \<Rightarrow> Message" where
  "reply_of w m = NewServerInfoMessage (w_cfg w) (w_pb w) (si_ip m) (si_port m) (si_name m) (si_type m)
     Op_Connect (si_level m)"

definition fits_buffer :: "world \<Rightarrow> Message \<Rightarrow> bool" where
  "fits_buffer w msg \<longleftrightarrow> m_packageSize (m_head msg) \<le> MAX_BUFFER_SIZE (w_cfg w)"

definition sent_reply :: "world \<Rightarrow> int \<Rightarrow> Server_Info \<Rightarrow> net_event list" where
  "sent_reply w fd m = (if fits_buffer w (reply_of w m) then [Sent fd (packet_bytes (w_pb w) (reply_of w m))] else [])"

definition requests :: "world \<Rightarrow> raw_packet \<Rightarrow> ServerInfoMsg \<Rightarrow> bool" where
  "requests w p q \<longleftrightarrow> m_packageType (fst p) = bodytype_code ServerInfo \<and> sv_opt q = Op_RequstAssgin \<and>
     (\<exists>m. ServerBase_OnMsgBodyAnalysised w \<lparr>m_head = fst p, m_body = None\<rparr> (snd p)
            (word_of_nat (length (snd p))) = Inr m \<and> msg_object m = Some (B_ServerInfo q))"

text \<open>What the center assigns in a state with \<open>Q\<close> has been sent to the client.\<close>

definition answered ::
  "world \<Rightarrow> int \<Rightarrow> ServerInfoMsg \<Rightarrow> ('a CenterServer_scheme \<Rightarrow> bool) \<Rightarrow> 'a CenterServer_scheme \<Rightarrow> bool" where
  "answered w fd q Q s \<longleftrightarrow>
     (\<exists>t m es. Q t \<and> AssignServer w (sv_server_type q) t = Inr m \<and>
        net_log s = net_log t @ sent_reply w fd m @ es)"

lemma answered_log:
  fixes s t :: "'a CenterServer_scheme"
  shows "answered w fd q Q s \<Longrightarrow> net_log t = net_log s @ es \<Longrightarrow> answered w fd q Q t"
  unfolding answered_def by auto

lemma answered_mono: "answered w fd q Q s \<Longrightarrow> (\<And>t. Q t \<Longrightarrow> R t) \<Longrightarrow> answered w fd q R s"
  unfolding answered_def by blast

text \<open>The state in which a request among \<open>ps\<close> is served, and the one in which a request in the next
  receive event is.\<close>

definition serving ::
  "world \<Rightarrow> int \<Rightarrow> ServerInfoMsg \<Rightarrow> raw_packet list \<Rightarrow> 'a CenterServer_scheme \<Rightarrow> 'a CenterServer_scheme \<Rightarrow> bool" where
  "serving w fd q ps s t \<longleftrightarrow>
     (\<exists>before p after. ps = before @ p # after \<and> requests w p q \<and>
        foldF (on_packet (CenterServer_OnMsgBodyAnalysised w) fd) before s = Inr t)"

definition asking ::
  "world \<Rightarrow> int \<Rightarrow> ServerInfoMsg \<Rightarrow> 'a CenterServer_scheme \<Rightarrow> 'a CenterServer_scheme \<Rightarrow> bool" where
  "asking w fd q s t \<longleftrightarrow>
     (\<exists>ps i rb. concat (fst (os_recv (w_os w) (io_clock s) fd)) = wire ps \<and>
        (\<forall>p\<in>set ps. packet_ok (w_cfg w) p) \<and> serving w fd q ps (set_buffer fd i rb (io_tick s)) t)"

lemma request_answered:
  assumes w: "calm w" and wf: "center_wf s" and fd: "om_has fd (connections s)"
    and p: "requests w p q" and run: "on_packet (CenterServer_OnMsgBodyAnalysised w) fd p s = Inr s'"
  shows "answered w fd q (\<lambda>t. t = s) s'"
proof -
  obtain m where m: "ServerBase_OnMsgBodyAnalysised w \<lparr>m_head = fst p, m_body = None\<rparr> (snd p)
      (word_of_nat (length (snd p))) = Inr m" "msg_object m = Some (B_ServerInfo q)"
    and q: "m_packageType (fst p) = bodytype_code ServerInfo" "sv_opt q = Op_RequstAssgin"
    using p by (auto simp: requests_def)
  have "m_head m = fst p"
    using m(1) by (auto simp: ServerBase_OnMsgBodyAnalysised_def)
  then have ty: "bodytype_of (m_packageType (m_head m)) = Some ServerInfo"
    using q(1) by (simp del: bodytype_code.simps)
  obtain i where i: "AssignServer w (sv_server_type q) s = Inr i"
    using AssignServer_spec [OF wf] by blast
  have "Center_SendMsg w (reply_of w i) fd s = Inr s'"
    using run m q(2) ty i
    by (simp add: on_packet_def CenterServer_OnMsgBodyAnalysised_def Center_dispatch_def
        Center_HandleServerInfo_def reply_of_def)
  moreover have "m_packageSize (m_head (reply_of w i)) = Message_length (w_cfg w) (w_pb w) (m_body (reply_of w i))"
    by (simp add: reply_of_def NewServerInfoMessage_def make_message_def)
  then have "SendMsg w (CenterServer_CloseClientSocket w) (reply_of w i) fd s =
      Inr (if fits_buffer w (reply_of w i) then (True, net_do (Sent fd (packet_bytes (w_pb w) (reply_of w i))) s) else (False, s))"
    using SendMsg_sent [OF calmD(2) [OF w] fd, of "reply_of w i"] fd by (simp add: fits_buffer_def SendMsg_def Let_def)
  ultimately have "s' = (if fits_buffer w (reply_of w i) then net_do (Sent fd (packet_bytes (w_pb w) (reply_of w i))) s else s)"
    by (simp add: Center_SendMsg_def split: if_splits)
  then show ?thesis
    using i unfolding answered_def
    by (intro exI [of _ s] exI [of _ i]) (simp add: sent_reply_def net_do_def io_tick_def)
qed

text \<open>A request anywhere among the packets of an event is answered.\<close>

lemma packets_answered:
  assumes w: "calm w" "center_world_ok w" and wf: "center_wf s" and fd: "om_has fd (connections s)"
    and ps: "\<forall>p\<in>set ps. packet_ok (w_cfg w) p" "p \<in> set ps" "requests w p q"
  shows "\<exists>s'. foldF (on_packet (CenterServer_OnMsgBodyAnalysised w) fd) ps s = Inr s' \<and> net_same s s' \<and>
     center_wf s' \<and> answered w fd q (serving w fd q ps s) s'"
proof -
  let ?run = "foldF (on_packet (CenterServer_OnMsgBodyAnalysised w) fd)"
  obtain pre post where split: "ps = pre @ p # post" using ps(2) by (meson split_list)
  obtain s1 where s1: "?run pre s = Inr s1" "center_wf s1" "net_same s s1"
    using center_packets_calm [OF w(1,2) wf, of pre fd] ps(1) split by auto
  obtain s2 where s2: "on_packet (CenterServer_OnMsgBodyAnalysised w) fd p s1 = Inr s2" "center_wf s2" "net_same s1 s2"
    using center_packet_calm [OF w(1,2) s1(2), of p fd] ps(1,2) by blast
  obtain s3 where s3: "?run post s2 = Inr s3" "center_wf s3" "net_same s2 s3"
    using center_packets_calm [OF w(1,2) s2(2), of post fd] ps(1) split by auto
  have "om_has fd (connections s1)" using fd s1(3) by (simp add: net_same_def)
  then have "answered w fd q (\<lambda>t. t = s1) s2" by (rule request_answered [OF w(1) s1(2) _ ps(3) s2(1)])
  moreover have "serving w fd q ps s s1"
    using split ps(3) s1(1) unfolding serving_def by blast
  ultimately have "answered w fd q (serving w fd q ps s) s2" by (auto elim: answered_mono)
  then have "answered w fd q (serving w fd q ps s) s3" using s3(3) answered_log by (auto simp: net_same_def)
  moreover have "net_same s s3" by (blast intro: net_same_trans s1(3) s2(3) s3(3))
  ultimately show ?thesis using s1(1) s2(1) s3(1,2) by (auto simp: split foldF_append)
qed

section \<open>Turns of the loop\<close>

definition center_idle :: "world \<Rightarrow> 'a CenterServer_scheme \<Rightarrow> bool" where
  "center_idle w s \<longleftrightarrow> center_wf s \<and> drained (w_cfg w) s \<and> m_callfuncList s = []"

definition progressed :: "int set \<Rightarrow> 'a CenterServer_scheme \<Rightarrow> 'a CenterServer_scheme \<Rightarrow> bool" where
  "progressed K s t \<longleftrightarrow> listen_fd t = listen_fd s \<and> io_clock s \<le> io_clock t \<and> (\<exists>es. net_log t = net_log s @ es) \<and>
     (\<forall>k. k \<notin> K \<longrightarrow> om_has k (connections s) \<longrightarrow> om_has k (connections t))"

lemma progressed_trans: "progressed K s t \<Longrightarrow> progressed L t u \<Longrightarrow> progressed (K \<union> L) s u"
  by (auto simp: progressed_def)

lemma progressed_mono: "progressed K s t \<Longrightarrow> K \<subseteq> L \<Longrightarrow> progressed L s t"
  by (auto simp: progressed_def)

lemma progressed_refl [simp]: "progressed K s s"
  by (simp add: progressed_def)

lemma center_close_idle:
  assumes w: "calm w" and s: "center_idle w s"
  shows "\<exists>s'. CenterServer_CloseClientSocket w fd s = Inr s' \<and> center_idle w s' \<and> progressed {fd} s s'"
proof -
  obtain s' where "CenterServer_CloseClientSocket w fd s = Inr s'" "center_wf s'"
    "connections s' = om_del fd (connections s)" "listen_fd s' = listen_fd s"
    "m_callfuncList s' = m_callfuncList s" "io_clock s \<le> io_clock s'" "\<exists>es. net_log s' = net_log s @ es"
    using center_close_calm [OF w, of s fd] s by (auto simp: center_idle_def)
  moreover from this have "drained (w_cfg w) s'" using s by (auto simp: center_idle_def intro: drained_del)
  ultimately show ?thesis using s by (auto simp: center_idle_def progressed_def)
qed

definition accepted :: "world \<Rightarrow> nat \<Rightarrow> int set" where
  "accepted w n = {fd. \<exists>m\<ge>n. os_accept (w_os w) m = Some fd}"

lemma accepted_mono: "n \<le> m \<Longrightarrow> accepted w m \<subseteq> accepted w n"
  unfolding accepted_def by (blast intro: le_trans)

lemma accepted_now: "os_accept (w_os w) n = Some fd \<Longrightarrow> fd \<in> accepted w n"
  by (auto simp: accepted_def)

lemma center_listener_idle:
  assumes w: "calm w" and s: "center_idle w s"
  shows "\<exists>s'. HandleListenerEvent w (CenterServer_CloseClientSocket w) fd s = Inr s' \<and> center_idle w s' \<and>
     progressed (accepted w (io_clock s)) s s'"
proof -
  note cfg = calmD(1) [OF w]
  have wf: "center_wf s" and d: "drained (w_cfg w) s" and ts: "m_callfuncList s = []"
    using s by (simp_all add: center_idle_def)
  have good: "good_below k center_wf registry_kept (CenterServer_CloseClientSocket w :: 'a CenterServer_scheme closer)" for k
    unfolding CenterServer_CloseClientSocket_def by (rule cc.virtual_close_good_below [OF cfg])
  obtain s1 where s1: "SendConnsChange w (CenterServer_CloseClientSocket w) (TransformType (server_type s))
      (listen_ip s) (listen_port s) 1 (io_tick s) = Inr s1"
    using SendConnsChange_good [OF cfg registry_stable good lessI, of "io_tick s"] wf
    by (simp only: center_wf_net) blast
  have same: "net_same s s1" using net_same_trans [OF net_same_tick(1) SendConnsChange_same(1) [OF calmD(2) [OF w] s1]] .
  have wf1: "center_wf s1"
    using SendConnsChange_same(2) [OF calmD(2) [OF w] s1] center_wf_frame_more [of s1 "io_tick s"] wf by simp
  have idle: "center_idle w (io_tick s1)" "center_idle w (io_tick s)"
    using wf1 wf d ts same center_wf_net(1) [of s1] center_wf_net(1) [of s]
    by (auto simp: center_idle_def net_same_def io_tick_def drained_def)
  show ?thesis
  proof (cases "fd = listen_fd s \<and> os_accept (w_os w) (io_clock s) \<noteq> None")
    case True
    then obtain c where c: "os_accept (w_os w) (io_clock s) = Some c" by auto
    obtain s2 where s2: "CenterServer_CloseClientSocket w c (io_tick s1) = Inr s2" "center_idle w s2"
        "progressed {c} (io_tick s1) s2"
      using center_close_idle [OF w idle(1)] by blast
    have new: "center_idle w (new_connection w c (io_tick s1))"
      using idle(1) drained_new [OF cfg, of "io_tick s1" c] by (simp add: center_idle_def) (simp add: new_connection_def)
    have "k \<noteq> c" if "k \<notin> accepted w (io_clock s)" for k
      using that accepted_now [OF c] by blast
    then show ?thesis
      using True c s1 s2 new same
      by (auto simp: HandleListenerEvent_def AddEventToEpoll_def net_same_def io_tick_def progressed_def new_connection_def)
  next
    case False
    then show ?thesis
      using s idle(2) by (auto simp: HandleListenerEvent_def progressed_def io_tick_def)
  qed
qed

lemma center_conn_idle:
  assumes w: "calm w" "center_world_ok w" and s: "center_idle w s"
  shows "\<exists>s'. HandleConnEvent w (CenterServer_CloseClientSocket w) (CenterServer_OnMsgBodyAnalysised w) fd s = Inr s' \<and>
     center_idle w s' \<and> progressed {fd} s s'"
proof (cases "om_get (connections s) fd")
  case None
  then show ?thesis using s by (simp add: HandleConnEvent_def)
next
  case (Some c)
  obtain i rb where c: "c = (i, rb)" by (cases c)
  have wf: "center_wf s" and d: "drained (w_cfg w) s" and ts: "m_callfuncList s = []"
    using s by (simp_all add: center_idle_def)
  obtain chunks fin where r: "os_recv (w_os w) (io_clock s) fd = (chunks, fin)"
    by (cases "os_recv (w_os w) (io_clock s) fd")
  obtain ps where ps: "concat chunks = wire ps" "\<forall>p\<in>set ps. packet_ok (w_cfg w) p"
      "length (wire ps) \<le> nat (MAX_BUFFER_SIZE (w_cfg w))"
    using calmD(3) [OF w(1), of "io_clock s" fd] r by auto
  show ?thesis
  proof (cases "fin = WouldBlock")
    case True
    have "\<exists>s'. foldF (on_packet (CenterServer_OnMsgBodyAnalysised w) fd) ps (set_buffer fd i rb1 (io_tick s)) = Inr s' \<and>
        net_same (set_buffer fd i rb1 (io_tick s)) s' \<and> center_wf s'" for rb1
      using center_packets_calm [OF w _ ps(2), of "set_buffer fd i rb1 (io_tick s)" fd] wf by auto
    from conn_event_calm [OF w(1) center_handler_exact d _ _ ps(1,2) this] Some c r True
    show ?thesis using ts by (fastforce simp: center_idle_def progressed_def)
  next
    case False
    have wf_rb: "rb_wf (w_cfg w) rb" "rb_view (w_cfg w) rb = []" using d Some c by (auto simp: drained_def)
    have max: "nat (MAX_BUFFER_SIZE (w_cfg w)) < 2 ^ 32"
      using calmD(1) [OF w(1)] by (auto simp: net_config_ok_def)
    have "length x \<le> length (concat chunks)" if "x \<in> set chunks" for x
      using that by (induction chunks) auto
    then have "\<forall>x\<in>set chunks. length x < 2 ^ 32" using ps(1,3) max by fastforce
    then obtain rb' where rb': "recv_loop w chunks rb = Inr (True, rb')"
      using rb.add_chunks_fit [OF wf_rb(1), of chunks] wf_rb(2) ps(1,3) by (auto simp: recv_loop_chunks)
    let ?s = "set_buffer fd i rb' (io_tick s)"
    have run: "HandleConnEvent w (CenterServer_CloseClientSocket w) (CenterServer_OnMsgBodyAnalysised w) fd s =
        CenterServer_CloseClientSocket w fd ?s"
      using Some c r rb' False by (cases fin) (simp_all add: HandleConnEvent_def)
    obtain s' where s': "CenterServer_CloseClientSocket w fd ?s = Inr s'" "center_wf s'"
        "connections s' = om_del fd (connections ?s)" "listen_fd s' = listen_fd ?s"
        "m_callfuncList s' = m_callfuncList ?s" "io_clock ?s \<le> io_clock s'" "\<exists>es. net_log s' = net_log ?s @ es"
      using center_close_calm [OF w(1), of ?s fd] wf by auto
    have conns: "om_get (connections s') = (om_get (connections s))(fd := None)"
      unfolding s'(3) by (simp add: set_buffer_def io_tick_def)
    have "drained (w_cfg w) s'" using d by (simp add: drained_def conns)
    moreover have "om_has k (connections s') = (k \<noteq> fd \<and> om_has k (connections s))" for k
      by (simp add: om_has_def conns)
    ultimately show ?thesis
      unfolding run using s'(1,2,4-7) ts
      by (auto simp: center_idle_def progressed_def set_buffer_def io_tick_def)
  qed
qed

text \<open>The hang-up and error flags of an event, after its data.\<close>

lemma flags_idle:
  assumes w: "calm w" and s: "center_idle w s"
  shows "\<exists>s'. bindF (if epollerr then CenterServer_CloseClientSocket w fd s else Inr s)
       (\<lambda>s2. if epollhup then CenterServer_CloseClientSocket w fd s2 else Inr s2) = Inr s' \<and>
     center_idle w s' \<and> progressed {fd} s s'"
proof -
  have one: "\<exists>s'. (if b then CenterServer_CloseClientSocket w fd t else Inr t) = Inr s' \<and> center_idle w s' \<and>
      progressed {fd} t s'" if "center_idle w t" for b t
    using center_close_idle [OF w that, of fd] that by (cases b) auto
  obtain s1 where s1: "(if epollerr then CenterServer_CloseClientSocket w fd s else Inr s) = Inr s1" "center_idle w s1"
      "progressed {fd} s s1" using one [OF s] by blast
  obtain s2 where s2: "(if epollhup then CenterServer_CloseClientSocket w fd s1 else Inr s1) = Inr s2" "center_idle w s2"
      "progressed {fd} s1 s2" using one [OF s1(2)] by blast
  show ?thesis
    using progressed_trans [OF s1(3) s2(3)] s1(1) s2(1,2) by simp
qed

lemma event_idle:
  assumes w: "calm w" "center_world_ok w" and s: "center_idle w s"
  shows "\<exists>s'. epoll_event w (CenterServer_virtuals w) ev s = Inr s' \<and> center_idle w s' \<and>
     progressed (insert (fst ev) (accepted w (io_clock s))) s s'"
proof (cases ev)
  case (fields fd epollin epollerr epollhup)
  let ?K = "insert fd (accepted w (io_clock s))"
  obtain s1 where s1: "(if epollin
      then (if fd = listen_fd s then HandleListenerEvent w (CenterServer_CloseClientSocket w) fd s
            else HandleConnEvent w (CenterServer_CloseClientSocket w) (CenterServer_OnMsgBodyAnalysised w) fd s)
      else Inr s) = Inr s1" "center_idle w s1" "progressed ?K s s1"
    using center_listener_idle [OF w(1) s, of fd] center_conn_idle [OF w s, of fd] s progressed_mono [of _ s _ ?K]
    by (cases epollin; cases "fd = listen_fd s") auto
  obtain s2 where s2: "bindF (if epollerr then CenterServer_CloseClientSocket w fd s1 else Inr s1)
       (\<lambda>s2. if epollhup then CenterServer_CloseClientSocket w fd s2 else Inr s2) = Inr s2" "center_idle w s2"
      "progressed {fd} s1 s2"
    using flags_idle [OF w(1) s1(2)] by blast
  have "epoll_event w (CenterServer_virtuals w) ev s = Inr s2"
    unfolding epoll_event_def fields prod.case CenterServer_virtuals_def virtuals.simps s1(1) bindF.simps
    by (rule s2(1))
  moreover have "?K \<union> {fd} = ?K" by auto
  then have "progressed ?K s s2" using progressed_trans [OF s1(3) s2(3)] by argo
  ultimately show ?thesis using s2(2) unfolding fields fst_conv by blast
qed

lemma events_idle:
  assumes w: "calm w" "center_world_ok w"
  shows "center_idle w s \<Longrightarrow> \<exists>s'. foldF (epoll_event w (CenterServer_virtuals w)) evs s = Inr s' \<and>
     center_idle w s' \<and> progressed (fst ` set evs \<union> accepted w (io_clock s)) s s'"
proof (induction evs arbitrary: s)
  case (Cons ev evs)
  let ?K = "fst ` set (ev # evs) \<union> accepted w (io_clock s)"
  obtain s1 where s1: "epoll_event w (CenterServer_virtuals w) ev s = Inr s1" "center_idle w s1"
      "progressed (insert (fst ev) (accepted w (io_clock s))) s s1"
    using event_idle [OF w Cons.prems] by blast
  obtain s2 where s2: "foldF (epoll_event w (CenterServer_virtuals w)) evs s1 = Inr s2" "center_idle w s2"
      "progressed (fst ` set evs \<union> accepted w (io_clock s1)) s1 s2"
    using Cons.IH [OF s1(2)] by blast
  have "accepted w (io_clock s1) \<subseteq> accepted w (io_clock s)"
    using s1(3) by (intro accepted_mono) (simp add: progressed_def)
  then have "progressed ?K s s2"
    by (intro progressed_mono [OF progressed_trans [OF s1(3) s2(3)]]) auto
  then show ?case using s1(1) s2(1,2) by auto
qed simp

lemma center_idle_tick: "center_idle w (io_tick s) = center_idle w s"
  using center_wf_net(1) [of s] by (simp add: center_idle_def drained_def io_tick_def)

lemma fire_idle: "center_idle w s \<Longrightarrow> FireEvent w c s = Inr s"
  by (simp add: FireEvent_def center_idle_def)

lemma center_turn_idle:
  assumes w: "calm w" "center_world_ok w" and s: "center_idle w s"
  shows "\<exists>s'. server_turn w (CenterServer_virtuals w) s = Inr (os_epoll_wait (w_os w) (io_clock s) \<noteq> None, s') \<and>
     center_idle w s'"
proof (cases "os_epoll_wait (w_os w) (io_clock s)")
  case None
  then show ?thesis using s center_idle_tick [of w s] by (simp add: server_turn_def)
next
  case (Some evs)
  obtain s' where s': "foldF (epoll_event w (CenterServer_virtuals w)) evs (io_tick s) = Inr s'" "center_idle w s'"
    using events_idle [OF w, of "io_tick s" evs] s center_idle_tick by blast
  show ?thesis using fire_idle [OF s'(2)] s' by (simp add: server_turn_def Some)
qed

lemma center_loop_idle:
  assumes w: "calm w" "center_world_ok w"
  shows "center_idle w s \<Longrightarrow> \<exists>go s'. server_loop n w (CenterServer_virtuals w) s = Inr (go, s') \<and>
     (go \<longrightarrow> center_idle w s') \<and> ((\<forall>m. os_epoll_wait (w_os w) m \<noteq> None) \<longrightarrow> go)"
proof (induction n arbitrary: s)
  case (Suc n)
  let ?up = "\<forall>m. os_epoll_wait (w_os w) m \<noteq> None"
  obtain s1 where s1: "server_turn w (CenterServer_virtuals w) s =
      Inr (os_epoll_wait (w_os w) (io_clock s) \<noteq> None, s1)" "center_idle w s1"
    using center_turn_idle [OF w Suc.prems] by blast
  show ?case
  proof (cases "os_epoll_wait (w_os w) (io_clock s) = None")
    case True
    then have "\<not> ?up" by blast
    moreover have "server_loop (Suc n) w (CenterServer_virtuals w) s = Inr (False, os_close (epoll_fd s1) s1)"
      using s1(1) True by simp
    ultimately show ?thesis by blast
  next
    case False
    then show ?thesis using s1(1) Suc.IH [OF s1(2)] by simp
  qed
qed auto

lemma center_new_idle: "center_idle w CenterServer_new"
  using CenterServer_new_wf
  by (simp add: center_idle_def drained_def CenterServer_new_def ServerBase_new_def CenterServer.CenterServer.defs
      ServerBase.ServerBase.defs)

lemma center_idle_frame:
  assumes "center_idle w s" "ServerBase.ServerBase.more t = ServerBase.ServerBase.more s"
    "connections t = connections s" "m_callfuncList t = m_callfuncList s"
  shows "center_idle w t"
  using assms center_wf_frame_more [OF assms(2)] by (simp add: center_idle_def drained_def)

text \<open>The server starts, or says that it cannot, and then serves turn after turn.\<close>

lemma center_main_idle:
  assumes w: "calm w" "center_world_ok w"
  shows "\<exists>go s. CenterServer_main n w = Inr (go, s) \<and> (go \<longrightarrow> center_idle w s)"
proof -
  obtain ip port name where addr: "CENTER_SERVER (w_cfg w) = (ip, port, name)"
    by (cases "CENTER_SERVER (w_cfg w)")
  let ?s0 = "io_tick CenterServer_new"
  obtain r s1 where s1: "StartListener w port ?s0 = (r, s1)" by (cases "StartListener w port ?s0")
  let ?s2 = "s1\<lparr>listen_ip := ip, listen_port := port, listen_name := ''''\<rparr>"
  obtain e s3 where s3: "CreateEpoll w ?s2 = (e, s3)" by (cases "CreateEpoll w ?s2")
  obtain a s4 where s4: "AddEventToEpoll w (listen_fd s3) s3 = (a, s4)"
    by (cases "AddEventToEpoll w (listen_fd s3) s3")
  have "center_idle w s1"
    using s1 by (intro center_idle_frame [OF center_new_idle])
      (auto simp: StartListener_def io_tick_def os_close_def net_do_def Let_def split: option.splits if_splits)
  then have "center_idle w s3"
    using s3 by (elim center_idle_frame) (auto simp: CreateEpoll_def io_tick_def split: option.splits)
  then have "center_idle w s4"
    using s4 by (elim center_idle_frame) (auto simp: AddEventToEpoll_def io_tick_def split: if_splits)
  then obtain go s where "server_loop n w (CenterServer_virtuals w) s4 = Inr (go, s)" "go \<longrightarrow> center_idle w s"
    using center_loop_idle [OF w] by blast
  then show ?thesis
    unfolding CenterServer_main_def addr prod.case BootServer_def
    using s1 s3 s4 by (auto simp: CenterServer_virtuals_def Let_def split: prod.splits)
qed

lemma center_main_more:
  assumes "CenterServer_main n w = Inr (True, s)"
  shows "CenterServer_main (n + k) w = server_loop k w (CenterServer_virtuals w) s"
proof -
  obtain ip port name where addr: "CENTER_SERVER (w_cfg w) = (ip, port, name)"
    by (cases "CENTER_SERVER (w_cfg w)")
  show ?thesis
    using assms boot_more [of n w "CenterServer_virtuals w" ip port "''''" CenterServer_new s k]
    unfolding CenterServer_main_def addr prod.case by blast
qed

section \<open>A request is answered in the turn it arrives\<close>

definition asks :: "world \<Rightarrow> int \<Rightarrow> ServerInfoMsg \<Rightarrow> nat \<Rightarrow> bool" where
  "asks w fd q n \<longleftrightarrow>
     (\<exists>chunks ps p. os_recv (w_os w) n fd = (chunks, WouldBlock) \<and> concat chunks = wire ps \<and>
        (\<forall>p\<in>set ps. packet_ok (w_cfg w) p) \<and> p \<in> set ps \<and> requests w p q)"

lemma conn_event_answered:
  assumes w: "calm w" "center_world_ok w" and s: "center_idle w s"
    and fd: "om_has fd (connections s)" "asks w fd q (io_clock s)"
  shows "\<exists>s'. HandleConnEvent w (CenterServer_CloseClientSocket w) (CenterServer_OnMsgBodyAnalysised w) fd s = Inr s' \<and>
     center_idle w s' \<and> answered w fd q (asking w fd q s) s'"
proof -
  obtain i rb where c: "om_get (connections s) fd = Some (i, rb)" using fd(1) by (auto simp: om_has_def)
  have wf: "center_wf s" and d: "drained (w_cfg w) s" and ts: "m_callfuncList s = []"
    using s by (simp_all add: center_idle_def)
  obtain chunks ps p where r: "os_recv (w_os w) (io_clock s) fd = (chunks, WouldBlock)" "concat chunks = wire ps"
      "\<forall>p\<in>set ps. packet_ok (w_cfg w) p" "p \<in> set ps" "requests w p q"
    using fd(2) by (auto simp: asks_def)
  let ?P = "\<lambda>t. center_wf t \<and> answered w fd q (asking w fd q s) t"
  have run: "\<exists>s'. foldF (on_packet (CenterServer_OnMsgBodyAnalysised w) fd) ps (set_buffer fd i rb1 (io_tick s)) = Inr s' \<and>
      net_same (set_buffer fd i rb1 (io_tick s)) s' \<and> ?P s'" for rb1
  proof -
    let ?t = "set_buffer fd i rb1 (io_tick s)"
    have "center_wf ?t" "om_has fd (connections ?t)" using wf by simp (simp add: set_buffer_def om_has_def)
    from packets_answered [OF w this r(3-5)] obtain s' where s':
      "foldF (on_packet (CenterServer_OnMsgBodyAnalysised w) fd) ps ?t = Inr s'" "net_same ?t s'" "center_wf s'"
      "answered w fd q (serving w fd q ps ?t) s'" by blast
    have "asking w fd q s t" if "serving w fd q ps ?t t" for t
      using that r(1-3) unfolding asking_def by auto
    with s'(4) have "answered w fd q (asking w fd q s) s'" by (rule answered_mono)
    then show ?thesis using s'(1-3) by blast
  qed
  have keep: "?P t \<Longrightarrow> ?P (set_buffer fd i rb t)" for rb and t :: "'a CenterServer_scheme"
    using answered_log [of w fd q "asking w fd q s" t "set_buffer fd i rb t" "[]"] by (auto simp: set_buffer_def [of fd i rb t, THEN arg_cong, of net_log])
  obtain s' where "HandleConnEvent w (CenterServer_CloseClientSocket w) (CenterServer_OnMsgBodyAnalysised w) fd s = Inr s'"
      "drained (w_cfg w) s'" "?P s'" "m_callfuncList s' = m_callfuncList s"
    using conn_event_calm [OF w(1) center_handler_exact d c r(1-3) run keep] by blast
  then show ?thesis using ts by (auto simp: center_idle_def)
qed

text \<open>The event may stand anywhere among those of the turn, as long as no earlier event is for the
  same connection and \<open>accept\<close> does not return the number of an open one.\<close>

lemma turn_answered:
  assumes w: "calm w" "center_world_ok w" and s: "center_idle w s"
    and ev: "os_epoll_wait (w_os w) (io_clock s) = Some (pre @ (fd, True, err, hup) # post)"
    and fd: "fd \<notin> fst ` set pre" "fd \<notin> accepted w (io_clock s)" "fd \<noteq> listen_fd s" "om_has fd (connections s)"
    and ask: "\<And>n. io_clock s \<le> n \<Longrightarrow> asks w fd q n"
  shows "\<exists>s'. server_turn w (CenterServer_virtuals w) s = Inr (True, s') \<and> center_idle w s' \<and>
     answered w fd q (\<lambda>t. \<exists>s1. foldF (epoll_event w (CenterServer_virtuals w)) pre (io_tick s) = Inr s1 \<and>
       asking w fd q s1 t) s'"
proof -
  let ?event = "epoll_event w (CenterServer_virtuals w) :: _ \<Rightarrow> 'a CenterServer_scheme \<Rightarrow> _"
  let ?close = "CenterServer_CloseClientSocket w :: 'a CenterServer_scheme closer"
  obtain s1 where s1: "foldF ?event pre (io_tick s) = Inr s1" "center_idle w s1"
      "progressed (fst ` set pre \<union> accepted w (io_clock (io_tick s))) (io_tick s) s1"
    using events_idle [OF w(1,2), of "io_tick s" pre] s center_idle_tick by blast
  have "accepted w (io_clock (io_tick s)) \<subseteq> accepted w (io_clock s)"
    by (rule accepted_mono) (simp add: io_tick_def)
  then have fd1: "om_has fd (connections s1)" "listen_fd s1 = listen_fd s" "io_clock s \<le> io_clock s1"
    using s1(3) fd(1,2,4) by (auto simp: progressed_def io_tick_def)
  obtain s2 where s2: "HandleConnEvent w ?close (CenterServer_OnMsgBodyAnalysised w) fd s1 = Inr s2" "center_idle w s2"
      "answered w fd q (asking w fd q s1) s2"
    using conn_event_answered [OF w s1(2) fd1(1) ask [OF fd1(3)]] by blast
  obtain s3 where s3: "bindF (if err then ?close fd s2 else Inr s2) (\<lambda>s2. if hup then ?close fd s2 else Inr s2) = Inr s3"
      "center_idle w s3" "progressed {fd} s2 s3"
    using flags_idle [OF w(1) s2(2)] by blast
  have "?event (fd, True, err, hup) s1 = Inr s3"
    unfolding epoll_event_def prod.case CenterServer_virtuals_def virtuals.simps
    using fd(3) fd1(2) s2(1) s3(1) by simp
  moreover obtain s4 where s4: "foldF ?event post s3 = Inr s4" "center_idle w s4"
      "progressed (fst ` set post \<union> accepted w (io_clock s3)) s3 s4"
    using events_idle [OF w(1,2) s3(2), of post] by blast
  ultimately have "foldF ?event (pre @ (fd, True, err, hup) # post) (io_tick s) = Inr s4"
    using s1(1) by (simp add: foldF_append)
  then have "server_turn w (CenterServer_virtuals w) s = Inr (True, s4)"
    using ev fire_idle [OF s4(2)] by (simp add: server_turn_def)
  moreover have "answered w fd q (asking w fd q s1) s4"
    using s2(3) s3(3) s4(3) answered_log by (fastforce simp: progressed_def)
  then have "answered w fd q (\<lambda>t. \<exists>s1. foldF ?event pre (io_tick s) = Inr s1 \<and> asking w fd q s1 t) s4"
    by (rule answered_mono) (intro exI [of _ s1] conjI s1(1))
  ultimately show ?thesis using s4(2) by blast
qed

end
