(* ===== verification/Receive.thy ===== *)
theory Receive
  imports Event_Loop
begin

text \<open>
  A receive event as a step of a server: which deliveries of the socket the framing of the base
  class serves (\<open>data_ok\<close>), and that it then returns (the locale \<open>receiver\<close>). \<open>HandleReceivedMsg\<close>
  takes whatever is in the buffer for whole packets, so half a packet is read past its end, and it
  empties the buffer when the handlers are done, so a handler must not have closed the connection.
\<close>

section \<open>Receive buffers\<close>

definition bufs_ok :: "world \<Rightarrow> 'a ServerBase_scheme \<Rightarrow> bool" where
  "bufs_ok w s \<longleftrightarrow> (net_config_ok (w_cfg w) \<longrightarrow>
     (\<forall>fd i rb. om_get (connections s) fd = Some (i, rb) \<longrightarrow> rb_wf (w_cfg w) rb))"

lemma bufs_ok_conns: "connections t = connections s \<Longrightarrow> bufs_ok w t = bufs_ok w s"
  by (simp add: bufs_ok_def)

lemma bufs_ok_set: "bufs_ok w s \<Longrightarrow> rb_wf (w_cfg w) rb \<Longrightarrow> bufs_ok w (set_buffer fd i rb s)"
  by (simp add: bufs_ok_def set_buffer_def)

lemma bufs_ok_step: "conns_step w (connections s) (connections t) \<Longrightarrow> bufs_ok w s \<Longrightarrow> bufs_ok w t"
  unfolding bufs_ok_def
proof (intro impI allI)
  fix fd i rb
  assume step: "conns_step w (connections s) (connections t)" and cfg: "net_config_ok (w_cfg w)"
    and old: "net_config_ok (w_cfg w) \<longrightarrow> (\<forall>fd i rb. om_get (connections s) fd = Some (i, rb) \<longrightarrow> rb_wf (w_cfg w) rb)"
    and new: "om_get (connections t) fd = Some (i, rb)"
  have "rb_wf (w_cfg w) (RingBuffer_new (w_cfg w))"
    using cfg by (intro RingBuffer_new_wf) (simp_all add: net_config_ok_def)
  moreover have "om_get (connections s) fd = Some (i, rb) \<or> rb = RingBuffer_new (w_cfg w)"
    using step new by (auto simp: conns_step_def)
  ultimately show "rb_wf (w_cfg w) rb" using old cfg by blast
qed

lemma base_keeps_bufs: "base_keeps w (bufs_ok w)"
  unfolding base_keeps_def base_step_def by (auto intro: bufs_ok_step)

lemma func_keeps_bufs: "func_keeps w (bufs_ok w)"
  unfolding func_keeps_def net_step_def by (auto intro: bufs_ok_step)

section \<open>Deliveries that are served\<close>

text \<open>The connection a handler works for is still there when all packets are handled.\<close>

definition stays_open ::
  "'a ServerBase_scheme msg_handler \<Rightarrow> int \<Rightarrow> nat \<Rightarrow> raw_packet list \<Rightarrow> 'a ServerBase_scheme \<Rightarrow> bool" where
  "stays_open handler fd i ps s \<longleftrightarrow>
     (case foldF (on_packet handler fd) ps s of
        Inl e \<Rightarrow> True
      | Inr t \<Rightarrow> (case om_get (connections t) fd of None \<Rightarrow> False | Some c \<Rightarrow> fst c = i))"

text \<open>If the connection is open, and the reading neither fails nor finds the other side gone, the
  buffer then holds the packets \<open>ps\<close> and nothing else, each of them \<open>served\<close> in the state it finds.\<close>

definition data_ok ::
  "world \<Rightarrow> ('a ServerBase_scheme \<Rightarrow> raw_packet \<Rightarrow> bool) \<Rightarrow> 'a ServerBase_scheme msg_handler \<Rightarrow> int \<Rightarrow>
     raw_packet list \<Rightarrow> 'a ServerBase_scheme \<Rightarrow> bool" where
  "data_ok w served handler fd ps s \<longleftrightarrow>
     (case om_get (connections s) fd of
        None \<Rightarrow> True
      | Some (i, rb) \<Rightarrow>
          let (chunks, fin) = os_recv (w_os w) (io_clock s) fd in
          (\<forall>c\<in>set chunks. length c < 2 ^ 32) \<and>
          (case recv_loop w chunks rb of
             Inl e \<Rightarrow> True
           | Inr (fits, rb') \<Rightarrow>
               (if fits then fin = WouldBlock else os_stale_errno (w_os w) (io_clock s)) \<longrightarrow>
               rb_view (w_cfg w) rb' = wire ps \<and> (\<forall>p\<in>set ps. packet_ok (w_cfg w) p) \<and>
               run_ok served (on_packet handler fd) ps (set_buffer fd i rb' (io_tick s)) \<and>
               stays_open handler fd i ps (set_buffer fd i rb' (io_tick s))))"

text \<open>What arrives on an empty buffer, in whatever pieces.\<close>

lemma data_okI:
  assumes cfg: "net_config_ok (w_cfg w)"
    and conn: "om_get (connections s) fd = Some (i, rb)" "rb_wf (w_cfg w) rb" "rb_view (w_cfg w) rb = []"
    and recv: "os_recv (w_os w) (io_clock s) fd = (chunks, WouldBlock)" "concat chunks = wire ps"
    and small: "length (wire ps) \<le> nat (MAX_BUFFER_SIZE (w_cfg w))" "\<forall>p\<in>set ps. packet_ok (w_cfg w) p"
    and run: "\<And>rb'. run_ok served (on_packet handler fd) ps (set_buffer fd i rb' (io_tick s)) \<and>
       stays_open handler fd i ps (set_buffer fd i rb' (io_tick s))"
  shows "data_ok w served handler fd ps s"
proof -
  have "length c < 2 ^ 32" if "c \<in> set chunks" for c
  proof -
    have "length c \<le> length (wire ps)"
      using member_le_sum_list [of "length c" "map length chunks"] that
      by (simp add: recv(2) [symmetric] length_concat)
    moreover have "MAX_BUFFER_SIZE (w_cfg w) < 2 ^ 31" using cfg by (simp add: net_config_ok_def)
    ultimately show ?thesis using small(1) by simp
  qed
  then have chunks: "\<forall>c\<in>set chunks. length c < 2 ^ 32" by blast
  obtain rb' where "recv_loop w chunks rb = Inr (True, rb')" "rb_view (w_cfg w) rb' = wire ps"
    using rb.add_chunks_fit [OF conn(2) chunks] conn(3) small(1) recv(2) by (auto simp: recv_loop_chunks)
  then show ?thesis
    using chunks run small(2) by (simp add: data_ok_def conn(1) recv(1))
qed

text \<open>A server with an invariant \<open>I\<close> that its handler keeps while it serves, and its closing method
  in any case.\<close>

locale receiver =
  fixes w :: world and close :: "'a ServerBase_scheme closer" and handler :: "'a ServerBase_scheme msg_handler"
    and served :: "'a ServerBase_scheme \<Rightarrow> raw_packet \<Rightarrow> bool" and I :: "'a ServerBase_scheme \<Rightarrow> bool" and P :: bool
  assumes config: "P \<Longrightarrow> net_config_ok (w_cfg w)"
    and exact: "reads_exactly handler"
    and bufs: "I s \<Longrightarrow> bufs_ok w s"
    and ticked: "I s \<Longrightarrow> I (io_tick s)"
    and buffered: "I s \<Longrightarrow> rb_wf (w_cfg w) rb \<Longrightarrow> I (set_buffer fd i rb s)"
    and closed: "P \<Longrightarrow> I s \<Longrightarrow> \<exists>s'. close fd s = Inr s' \<and> I s'"
    and handled: "P \<Longrightarrow> I s \<Longrightarrow> packet_ok (w_cfg w) p \<Longrightarrow> served s p \<Longrightarrow> \<exists>s'. on_packet handler fd p s = Inr s' \<and> I s'"
begin

lemma packets_handled:
  "P \<Longrightarrow> I s \<Longrightarrow> \<forall>p\<in>set ps. packet_ok (w_cfg w) p \<Longrightarrow> run_ok served (on_packet handler fd) ps s \<Longrightarrow>
     \<exists>s'. foldF (on_packet handler fd) ps s = Inr s' \<and> I s'"
proof (induction ps arbitrary: s)
  case (Cons p ps)
  obtain s1 where s1: "on_packet handler fd p s = Inr s1" "I s1"
    using handled [OF Cons.prems(1,2), of p fd] Cons.prems(3,4) by auto
  then show ?case using Cons.IH [OF Cons.prems(1) s1(2)] Cons.prems(3,4) by simp
qed simp

lemma conn_event_returns:
  assumes P: "P" and I: "I s" and ok: "data_ok w served handler fd ps s"
  shows "\<exists>s'. HandleConnEvent w close handler fd s = Inr s' \<and> I s'"
proof (cases "om_get (connections s) fd")
  case None
  then show ?thesis using I by (simp add: HandleConnEvent_def)
next
  case (Some c)
  obtain i rb where c: "c = (i, rb)" by (cases c)
  obtain chunks fin where r: "os_recv (w_os w) (io_clock s) fd = (chunks, fin)"
    by (cases "os_recv (w_os w) (io_clock s) fd")
  have wf: "rb_wf (w_cfg w) rb"
    using bufs [OF I] config [OF P] Some c by (auto simp: bufs_ok_def)
  have small: "\<forall>c\<in>set chunks. length c < 2 ^ 32"
    using ok Some c r by (simp add: data_ok_def)
  obtain fits rb' where rb': "recv_loop w chunks rb = Inr (fits, rb')" "rb_wf (w_cfg w) rb'"
    using rb.add_chunks_prefix [OF wf small] by (auto simp: recv_loop_chunks)
  let ?s = "set_buffer fd i rb' (io_tick s)"
  let ?again = "if fits then fin = WouldBlock else os_stale_errno (w_os w) (io_clock s)"
  have Is: "I ?s" by (rule buffered [OF ticked [OF I] rb'(2)])
  show ?thesis
  proof (cases ?again)
    case False
    have "HandleConnEvent w close handler fd s = close fd ?s"
      using Some c r rb'(1) False by (simp add: HandleConnEvent_def Let_def)
    then show ?thesis using closed [OF P Is] by simp
  next
    case True
    have ps: "rb_view (w_cfg w) rb' = wire ps" "\<forall>p\<in>set ps. packet_ok (w_cfg w) p"
        "run_ok served (on_packet handler fd) ps ?s" "stays_open handler fd i ps ?s"
      using ok Some c r rb'(1) True unfolding data_ok_def by simp_all
    obtain t where t: "foldF (on_packet handler fd) ps ?s = Inr t" "I t"
      using packets_handled [OF P Is ps(2,3)] by blast
    obtain rb1 where rb1: "conn_at fd i rb1 t"
      using ps(4) t(1) by (auto simp: stays_open_def conn_at_def split: option.splits)
    have wf1: "rb_wf (w_cfg w) rb1"
      using bufs [OF t(2)] config [OF P] rb1 by (auto simp: bufs_ok_def conn_at_def)
    have at: "conn_at fd i rb' ?s" by (simp add: conn_at_def set_buffer_def)
    obtain rb2 where rb2: "rb_wf (w_cfg w) rb2" "HandleReceivedMsg w handler i fd ?s = Inr (set_buffer fd i rb2 t)"
      using HandleReceivedMsg_packets [OF config [OF P] exact ps(2) at rb'(2) ps(1) t(1) rb1 wf1] by blast
    have "HandleConnEvent w close handler fd s = HandleReceivedMsg w handler i fd ?s"
      using Some c r rb'(1) True by (auto simp: HandleConnEvent_def Let_def)
    then show ?thesis using rb2(2) buffered [OF t(2) rb2(1)] by simp
  qed
qed

end

end
