(* ===== verification/Center_Events.thy ===== *)
theory Center_Events
  imports Center_Run Receive
begin

text \<open>
  The center server as a machine of everything its event loop calls: a connection with data, a
  connection to accept, and a lost connection, in any order; and, by itself, a packet for its
  handler.

  \<open>center_ok\<close> excludes what runs into undefined behaviour: data that are not whole packets and an
  answer that is not taken, so that the connection it is for is closed (\<open>data_ok\<close>), and a request
  for a server when all of that type are down or there is none: the answer is then built from a
  local \<open>Server_Info\<close> whose port and type were never set.
\<close>

section \<open>Receive buffers\<close>

lemma center_close_bufs: "relates (keeping (bufs_ok w)) (CenterServer_CloseClientSocket w)"
  unfolding CenterServer_CloseClientSocket_def
proof (rule virtual_close_relates)
  fix c :: "'a CenterServer_scheme closer"
  assume c: "relates (keeping (bufs_ok w)) c"
  show "relates (keeping (bufs_ok w)) (CenterServer_close_body w c)"
    unfolding relates_def
  proof (intro allI impI)
    fix fd and s s' :: "'a CenterServer_scheme"
    assume "CenterServer_close_body w c fd s = Inr s'" and s: "bufs_ok w s"
    then obtain s1 where s1: "forget_machine fd s = Inr s1" "ServerBase_CloseClientSocket w c fd s1 = Inr s'"
      by (auto simp: CenterServer_close_body_def)
    have removed: "connections t = connections s" if "RemoveServer p s = Inr t" for p t
      using that unfolding RemoveServer_def bindF_eq_Inr by (elim exE conjE) (auto split: if_splits)
    have "connections s1 = connections s"
      using s1(1) removed by (auto simp: forget_machine_def split: option.splits)
    then show "bufs_ok w s'"
      using relatesD [OF base_keeps_close [OF base_keeps_bufs c] s1(2)] s bufs_ok_conns [of s1 s w] by blast
  qed
qed

interpretation cb: center_steps w "keeping (bufs_ok w)"
proof
  fix s t :: "'a CenterServer_scheme" and msg fd ok
  show "keeping (bufs_ok w) s t" if "ServerBase.ServerBase.truncate t = ServerBase.ServerBase.truncate s"
    using that bufs_ok_conns [of t s w] by (simp add: ServerBase.ServerBase.truncate_def)
  show "keeping (bufs_ok w) s t" if "SendMsg w (CenterServer_CloseClientSocket w) msg fd s = Inr (ok, t)"
    using that by (rule base_keeps_send(1) [OF base_keeps_bufs center_close_bufs])
qed simp

section \<open>The machine\<close>

text \<open>What a request for a server needs: one of the type that is not down.\<close>

definition assigns :: "Message \<Rightarrow> 'a CenterServer_scheme \<Rightarrow> bool" where
  "assigns msg s \<longleftrightarrow>
     (case msg_object msg of
        Some (B_ServerInfo q) \<Rightarrow> sv_opt q = Op_RequstAssgin \<longrightarrow>
          (\<exists>p\<in>set (group_of (sv_server_type q) s). si_level (info_of s p) < free_level_code DOWN)
      | _ \<Rightarrow> True)"

definition center_served :: "world \<Rightarrow> 'a CenterServer_scheme \<Rightarrow> raw_packet \<Rightarrow> bool" where
  "center_served w s p \<longleftrightarrow> length (snd p) < 2 ^ 31 \<and>
     (case ServerBase_OnMsgBodyAnalysised w \<lparr>m_head = fst p, m_body = None\<rparr> (snd p)
             (word_of_nat (length (snd p))) of
        Inl e \<Rightarrow> False
      | Inr m \<Rightarrow> assigns m s)"

datatype center_event =
    CtPacket MessageHead "byte list" int
  | CtReceive int "raw_packet list"
  | CtListener
  | CtClose int

fun center_step :: "world \<Rightarrow> center_event \<Rightarrow> CenterServer \<Rightarrow> CenterServer res" where
  "center_step w (CtPacket h body fd) s = on_packet (CenterServer_OnMsgBodyAnalysised w) fd (h, body) s"
| "center_step w (CtReceive fd ps) s =
     HandleConnEvent w (CenterServer_CloseClientSocket w) (CenterServer_OnMsgBodyAnalysised w) fd s"
| "center_step w CtListener s =
     HandleListenerEvent w (CenterServer_CloseClientSocket w) (listen_fd s) s"
| "center_step w (CtClose fd) s = CenterServer_CloseClientSocket w fd s"

fun center_ok :: "world \<Rightarrow> CenterServer \<Rightarrow> center_event \<Rightarrow> bool" where
  "center_ok w s (CtPacket h body fd) = center_served w s (h, body)"
| "center_ok w s (CtReceive fd ps) = data_ok w (center_served w) (CenterServer_OnMsgBodyAnalysised w) fd ps s"
| "center_ok w s _ = True"

definition center_state :: "world \<Rightarrow> 'a CenterServer_scheme \<Rightarrow> bool" where
  "center_state w s \<longleftrightarrow> center_wf s \<and> bufs_ok w s"

lemma center_packet_state:
  assumes "center_world_ok w" "center_state w s" "length (snd p) < 2 ^ 31"
  shows "\<exists>s'. on_packet (CenterServer_OnMsgBodyAnalysised w) fd p s = Inr s' \<and> center_state w s'"
proof -
  obtain s' where s': "on_packet (CenterServer_OnMsgBodyAnalysised w) fd p s = Inr s'" "center_wf s'"
    using center_packet_safe [OF assms(1), of s "snd p" fd "fst p"] assms(2,3) by (auto simp: center_state_def)
  moreover have "bufs_ok w s'"
    using cb.handler_steps [OF s'(1) [unfolded on_packet_def]] assms(2) by (simp add: center_state_def)
  ultimately show ?thesis by (simp add: center_state_def)
qed

lemma center_close_state:
  assumes "center_world_ok w" "center_state w s"
  shows "\<exists>s'. CenterServer_CloseClientSocket w fd s = Inr s' \<and> center_state w s'"
proof -
  obtain s' where s': "CenterServer_CloseClientSocket w fd s = Inr s'" "center_wf s'"
    using Center_Close_good [of w s fd] assms by (auto simp: center_world_ok_def center_state_def)
  then show ?thesis
    using relatesD [OF center_close_bufs s'(1)] assms(2) by (simp add: center_state_def)
qed

interpretation crx: receiver w "CenterServer_CloseClientSocket w" "CenterServer_OnMsgBodyAnalysised w"
  "center_served w" "center_state w" "center_world_ok w"
proof
  fix s :: "'a CenterServer_scheme" and rb fd i p
  show "net_config_ok (w_cfg w)" if "center_world_ok w" using that by (simp add: center_world_ok_def)
  show "reads_exactly (CenterServer_OnMsgBodyAnalysised w :: 'a CenterServer_scheme msg_handler)"
    by (rule center_handler_exact)
  show "bufs_ok w s" if "center_state w s" using that by (simp add: center_state_def)
  show "center_state w (io_tick s)" if "center_state w s"
    using that bufs_ok_conns [of "io_tick s" s w] by (simp add: center_state_def)
  show "center_state w (set_buffer fd i rb s)" if "center_state w s" "rb_wf (w_cfg w) rb"
    using that by (simp add: center_state_def bufs_ok_set)
  show "\<exists>s'. CenterServer_CloseClientSocket w fd s = Inr s' \<and> center_state w s'"
    if "center_world_ok w" "center_state w s"
    using that by (rule center_close_state)
  show "\<exists>s'. on_packet (CenterServer_OnMsgBodyAnalysised w) fd p s = Inr s' \<and> center_state w s'"
    if "center_world_ok w" "center_state w s" "center_served w s p"
    using center_packet_state [OF that(1,2), of p fd] that(3) by (simp add: center_served_def)
qed

lemma center_step_safe:
  assumes w: "center_world_ok w" and s: "center_state w s" and ok: "center_ok w s e"
  shows "\<exists>s'. center_step w e s = Inr s' \<and> center_state w s'"
proof (cases e)
  case (CtPacket h body fd)
  then show ?thesis using center_packet_state [OF w s] ok by (simp add: center_served_def)
next
  case (CtReceive fd ps)
  then show ?thesis using crx.conn_event_returns [OF w s] ok by simp
next
  case CtListener
  obtain s' where s': "HandleListenerEvent w (CenterServer_CloseClientSocket w) (listen_fd s) s = Inr s'" "center_wf s'"
    using center_listener_safe [of w s "listen_fd s"] w s by (auto simp: center_world_ok_def center_state_def)
  then show ?thesis
    using base_keeps_listener [OF base_keeps_bufs center_close_bufs s'(1)] s CtListener by (simp add: center_state_def)
next
  case (CtClose fd)
  then show ?thesis using center_close_state [OF w s] by simp
qed

definition center_start :: "world \<Rightarrow> CenterServer \<Rightarrow> bool" where
  "center_start w s \<longleftrightarrow> center_world_ok w \<and> s = CenterServer_new"

definition center_state_ok :: "world \<Rightarrow> CenterServer \<Rightarrow> bool" where
  "center_state_ok w s \<longleftrightarrow> center_world_ok w \<and> center_state w s"

lemma CenterServer_new_state: "center_state w CenterServer_new"
proof -
  have "connections CenterServer_new = []"
    by (simp add: CenterServer_new_def ServerBase_new_def CenterServer.CenterServer.defs ServerBase.ServerBase.defs)
  then show ?thesis using CenterServer_new_wf by (simp add: center_state_def bufs_ok_def)
qed

interpretation cm: total_machine "center_start w" "center_step w" "center_state_ok w" "center_ok w"
proof
  show "center_state_ok w s" if "center_start w s" for s
    using that by (simp add: center_start_def center_state_ok_def CenterServer_new_state)
  show "center_state_ok w s'" if "center_state_ok w s" "center_ok w s e" "center_step w e s = Inr s'"
    for s e s'
    using that center_step_safe [of w s e] by (auto simp: center_state_ok_def)
  show "\<exists>s'. center_step w e s = Inr s'" if "center_state_ok w s" "center_ok w s e" for s e
    using that center_step_safe [of w s e] by (auto simp: center_state_ok_def)
qed

end
