(* ===== verification/Center_Properties.thy ===== *)
theory Center_Properties
  imports Center_Events Example_World
begin

text \<open>
  What the center server promises, with applications to a registry of two logic servers, the
  second the less loaded, and a gate.
\<close>

definition machine :: "int \<Rightarrow> int \<Rightarrow> int \<Rightarrow> Server_Info" where
  "machine ty port level = Server_Info_new\<lparr>si_ip := ''127.0.0.1'', si_port := port, si_type := ty, si_level := level\<rparr>"

definition registry :: CenterServer where
  "registry = CenterServer_new\<lparr>
     infos := [(0, machine 3 6001 2), (1, machine 3 6002 1), (2, machine 2 5001 0)],
     MachineRecord := [(5, 0), (6, 1), (7, 2)], next_info := 3,
     logicServerGroup := [0, 1], gateServerGroup := [2],
     connections := [(5, 0, RingBuffer_new example_cfg), (6, 1, RingBuffer_new example_cfg),
       (7, 2, RingBuffer_new example_cfg)]\<rparr>"

lemma registry_fields [simp]:
  "infos registry = [(0, machine 3 6001 2), (1, machine 3 6002 1), (2, machine 2 5001 0)]"
  "MachineRecord registry = [(5, 0), (6, 1), (7, 2)]" "next_info registry = 3"
  "logicServerGroup registry = [0, 1]" "gateServerGroup registry = [2]" "dbServerGroup registry = []"
  by (simp_all add: registry_def CenterServer_new_def ServerBase_new_def CenterServer.CenterServer.defs
      ServerBase.ServerBase.defs)

lemma machine_fields [simp]:
  "si_type (machine ty port l) = ty" "si_level (machine ty port l) = l" "si_port (machine ty port l) = port"
  by (simp_all add: machine_def)

lemma registry_listed: "Collect (listed registry ty) =
    (if ty = 3 then {0, 1} else if ty = 2 then {2} else {})"
proof -
  have "om_get (MachineRecord registry) 5 = Some 0" "om_get (MachineRecord registry) 6 = Some 1"
    "om_get (MachineRecord registry) 7 = Some 2"
    by simp_all
  then have "(\<exists>fd. om_get (MachineRecord registry) fd = Some p) \<longleftrightarrow> p \<in> {0, 1, 2}" for p
    by (auto simp del: registry_fields) (simp_all split: if_splits)
  then show ?thesis
    by (auto simp: listed_def simp del: registry_fields(2) split: if_splits)
qed

lemma registry_wf: "center_wf registry"
  unfolding center_wf_def registry_listed by (auto simp: om_has_def split: if_splits)


definition registers :: MessageHead where
  "registers = \<lparr>m_packageSize = 12, m_packageType = bodytype_code ServerInfo, m_userid = 0\<rparr>"

text \<open>A server connects, registers in two pieces of one event, and is lost; another one connects.\<close>

definition day_world :: world where
  "day_world = example_world\<lparr>w_os := example_os\<lparr>os_recv := (\<lambda>n fd.
     ([take 5 (wire [(registers, [])]), drop 5 (wire [(registers, [])])], WouldBlock))\<rparr>\<rparr>"

definition center_day :: "center_event list" where
  "center_day = [CtListener, CtReceive 7 [(registers, [])], CtListener, CtClose 7]"

lemma day_fields [simp]:
  "w_cfg day_world = example_cfg" "w_pb day_world = example_pb" "sends_ok day_world"
  "os_accept (w_os day_world) n = Some 7" "os_epoll_add (w_os day_world) n fd"
  by (simp_all add: day_world_def sends_ok_def example_os_def)

lemma CenterServer_new_fields [simp]:
  "connections CenterServer_new = []" "listen_fd CenterServer_new = -1" "center_server_client CenterServer_new = -1"
  "next_buf CenterServer_new = 0"
  by (simp_all add: CenterServer_new_def ServerBase_new_def CenterServer.CenterServer.defs ServerBase.ServerBase.defs)

lemma center_day_ok: "run_ok (center_ok day_world) (center_step day_world) center_day CenterServer_new"
proof -
  let ?p = "(registers, [])" and ?b = "RingBuffer_new example_cfg"
  obtain s1 where s1: "center_step day_world CtListener CenterServer_new = Inr s1" "connections s1 = [(7, 0, ?b)]"
    by (simp add: HandleListenerEvent_def SendConnsChange_lost AddEventToEpoll_def new_connection_def io_tick_def)
  have "data_ok day_world (center_served day_world) (CenterServer_OnMsgBodyAnalysised day_world) 7 [?p] s1"
  proof (rule data_okI)
    show "om_get (connections s1) 7 = Some (0, ?b)" using s1 by simp
    show "os_recv (w_os day_world) (io_clock s1) 7 = ([take 5 (wire [?p]), drop 5 (wire [?p])], WouldBlock)"
      by (simp add: day_world_def)
    show "\<forall>p\<in>set [?p]. packet_ok (w_cfg day_world) p"
      by (simp add: packet_ok_def registers_def head_ok_def int32_def CheckHeaderIsValid_def)
    fix rb'
    let ?t = "set_buffer 7 0 rb' (io_tick s1)"
    let ?h = "CenterServer_OnMsgBodyAnalysised day_world"
    have t: "om_get (connections ?t) 7 = Some (0, rb')" by (simp add: set_buffer_def)
    have body: "CreateMessageBody 100 = Some (B_ServerInfo new_ServerInfo)"
      using CreateMessageBody_code [of ServerInfo] by simp
    have m: "ServerBase_OnMsgBodyAnalysised day_world \<lparr>m_head = registers, m_body = None\<rparr> [] 0 =
        Inr \<lparr>m_head = registers, m_body = Some (Some (B_ServerInfo new_ServerInfo))\<rparr>"
      by (rule parse_empty) (simp_all add: registers_def body example_pb_def)
    have served: "center_served day_world ?t ?p"
      by (simp add: center_served_def m assigns_def msg_object_def new_ServerInfo_def)
    have "connections s2 = connections ?t" if "on_packet ?h 7 ?p ?t = Inr s2" for s2
      using cs.handler_steps [OF that [unfolded on_packet_def]] by (simp add: net_same_def)
    then have "stays_open ?h 7 0 [?p] ?t"
      using t by (cases "on_packet ?h 7 ?p ?t") (simp_all add: stays_open_def)
    with served show "run_ok (center_served day_world) (on_packet ?h 7) [?p] ?t \<and> stays_open ?h 7 0 [?p] ?t"
      by (simp split: sum.split)
  qed (simp_all add: wire_def RingBuffer_new_wf raw_bytes_def registers_def)
  with s1(1) show ?thesis
    unfolding center_day_def run_ok.simps by (simp split: sum.split)
qed


text \<open>In every reachable state of the center server each group lists, without repetition, exactly
  the registered servers of its type, every registered server is still allocated, and no two
  connections share one.\<close>

theorem center_groups_exact:
  assumes "net_config_ok (w_cfg w)" "pb_keeps_class (w_pb w)"
    and "run_ok (center_ok w) (center_step w) es CenterServer_new"
    and "foldF (center_step w) es CenterServer_new = Inr s"
  shows "distinct (gateServerGroup s @ logicServerGroup s @ dbServerGroup s) \<and>
     (\<forall>p. p \<in> set (gateServerGroup s @ logicServerGroup s @ dbServerGroup s) \<longleftrightarrow>
        (\<exists>fd i. om_get (MachineRecord s) fd = Some p \<and> om_get (infos s) p = Some i \<and>
           (si_type i = server_type_code GATE \<and> p \<in> set (gateServerGroup s) \<or>
            si_type i = server_type_code LOGIC \<and> p \<in> set (logicServerGroup s) \<or>
            si_type i = server_type_code DATABASE \<and> p \<in> set (dbServerGroup s)))) \<and>
     (\<forall>fd p. om_get (MachineRecord s) fd = Some p \<longrightarrow> om_has p (infos s) \<and>
        (\<forall>fd'. om_get (MachineRecord s) fd' = Some p \<longrightarrow> fd' = fd))"
proof -
  have "center_state_ok w s"
    using cm.reachable_inv [OF _ assms(3,4)] assms(1,2) by (simp add: center_start_def center_world_ok_def)
  then have "center_wf s" by (simp add: center_state_ok_def center_state_def)
  then show ?thesis by (rule center_wf_groups)
qed

theorem center_groups_exact_witness:
  "\<exists>s. foldF (center_step day_world) center_day CenterServer_new = Inr s \<and>
     distinct (gateServerGroup s @ logicServerGroup s @ dbServerGroup s)"
proof -
  obtain s where s: "foldF (center_step day_world) center_day CenterServer_new = Inr s"
    using cm.run_total [OF cm.init_inv, of day_world CenterServer_new center_day] center_day_ok
    by (auto simp: center_start_def center_world_ok_def)
  then show ?thesis
    using center_groups_exact [of day_world center_day s] center_day_ok by auto
qed

text \<open>C19: the server the center assigns is the first of those with the lowest load level in the group of
  the wanted type, and when every server of the group is down, or there is none, the answer is the
  uninitialised record with the level \<open>DOWN\<close>.\<close>

theorem assign_least_loaded:
  assumes "center_wf s"
    and "grp = (if ty = server_type_code LOGIC then logicServerGroup s
                else if ty = server_type_code GATE then gateServerGroup s
                else if ty = server_type_code DATABASE then dbServerGroup s else [])"
  shows "\<exists>m. AssignServer w ty s = Inr m \<and>
     (if \<exists>p\<in>set grp. si_level (the (om_get (infos s) p)) < free_level_code DOWN
      then \<exists>pre p post. grp = pre @ p # post \<and> om_get (infos s) p = Some m \<and>
             (\<forall>q\<in>set grp. si_level m \<le> si_level (the (om_get (infos s) q))) \<and>
             (\<forall>q\<in>set pre. si_level m < si_level (the (om_get (infos s) q)))
      else m = (local_Server_Info w (io_clock s))\<lparr>si_level := free_level_code DOWN\<rparr>)"
proof -
  have grp: "group_of ty s = grp" using assms(2) by (simp add: group_of_def)
  have the: "om_get (infos s) p = Some (info_of s p)" if "p \<in> set grp" for p
    using live_group_of [OF assms(1), of ty] that grp by (auto simp: live_def info_of_def om_has_def)
  obtain m where m: "AssignServer w ty s = Inr m"
    "if \<exists>p\<in>set grp. si_level (info_of s p) < free_level_code DOWN
     then \<exists>pre p post. grp = pre @ p # post \<and> m = info_of s p \<and>
             (\<forall>q\<in>set grp. si_level m \<le> si_level (info_of s q)) \<and>
             (\<forall>q\<in>set pre. si_level m < si_level (info_of s q))
     else m = (local_Server_Info w (io_clock s))\<lparr>si_level := free_level_code DOWN\<rparr>"
    using AssignServer_spec [OF assms(1), of w ty] unfolding grp by blast
  show ?thesis
  proof (cases "\<exists>p\<in>set grp. si_level (info_of s p) < free_level_code DOWN")
    case True
    with m(2) obtain pre p post where p: "grp = pre @ p # post" "m = info_of s p"
      "\<forall>q\<in>set grp. si_level m \<le> si_level (info_of s q)" "\<forall>q\<in>set pre. si_level m < si_level (info_of s q)"
      by auto
    moreover have "om_get (infos s) p = Some m" using the p(1,2) by simp
    ultimately show ?thesis
      using m(1) True unfolding info_of_def by auto
  next
    case False
    then show ?thesis using m unfolding info_of_def by auto
  qed
qed

theorem assign_least_loaded_witness:
  "AssignServer example_world (server_type_code LOGIC) registry = Inr (machine 3 6002 1)"
proof -
  have some: "\<exists>p\<in>set [0, 1]. si_level (the (om_get (infos registry) p)) < free_level_code DOWN" by simp
  have grp: "[0, 1] = (if server_type_code LOGIC = server_type_code LOGIC then logicServerGroup registry
      else if server_type_code LOGIC = server_type_code GATE then gateServerGroup registry
      else if server_type_code LOGIC = server_type_code DATABASE then dbServerGroup registry else [])"
    by simp
  obtain m pre p post where m: "AssignServer example_world (server_type_code LOGIC) registry = Inr m"
    "[0, 1] = pre @ p # post" "om_get (infos registry) p = Some m"
    "\<forall>q\<in>set [0, 1]. si_level m \<le> si_level (the (om_get (infos registry) q))"
    using assign_least_loaded [OF registry_wf grp, of example_world] unfolding if_P [OF some] by blast
  from m(2) have "p \<in> set [0, 1]" by simp
  moreover have "si_level m \<le> 1" using bspec [OF m(4), of 1] by simp
  ultimately show ?thesis using m(1,3) by auto
qed

text \<open>Closing a connection of the center server returns, although telling the world about it can
  fail and close further connections; the server that registered on it is out of every group and
  the registry is as consistent as before.\<close>

theorem center_close_forgets:
  assumes "net_config_ok (w_cfg w)" "center_wf s"
  shows "\<exists>s'. CenterServer_CloseClientSocket w fd s = Inr s' \<and> center_wf s' \<and>
     om_get (MachineRecord s') fd = None \<and>
     (\<forall>p. om_get (MachineRecord s) fd = Some p \<longrightarrow>
        p \<notin> set (gateServerGroup s') \<union> set (logicServerGroup s') \<union> set (dbServerGroup s'))"
proof -
  let ?c = "CenterServer_CloseClientSocket w :: 'a CenterServer_scheme closer"
  obtain s1 where s1: "forget_machine fd s = Inr s1" "center_wf s1"
      "om_get (MachineRecord s1) = (om_get (MachineRecord s))(fd := None)"
    using forget_machine_good [OF assms(2)] by blast
  have "good_below (Suc (close_rank fd s1)) center_wf registry_kept ?c"
    unfolding CenterServer_CloseClientSocket_def by (rule cc.virtual_close_good_below [OF assms(1)])
  then obtain s2 where s2: "ServerBase_CloseClientSocket w ?c fd s1 = Inr s2" "registry_kept s1 s2"
    using ServerBase_Close_good [OF assms(1) registry_stable _ s1(2), of fd ?c]
    by (auto simp: good_below_def)
  have "?c fd s = Inr s2"
    using s1(1) s2(1) cc.virtual_close_eq [of w fd s]
    by (simp add: CenterServer_CloseClientSocket_def CenterServer_close_body_def)
  moreover have wf2: "center_wf s2" and gone: "om_get (MachineRecord s2) fd = None"
    using s2(2) s1(2,3) by (auto simp: registry_kept_def) (metis fun_upd_same not_Some_eq)
  moreover have "p \<notin> set (gateServerGroup s2) \<union> set (logicServerGroup s2) \<union> set (dbServerGroup s2)"
    if p: "om_get (MachineRecord s) fd = Some p" for p
  proof -
    have "om_get (MachineRecord s2) fd' \<noteq> Some p" for fd'
    proof
      assume "om_get (MachineRecord s2) fd' = Some p"
      then have "om_get (MachineRecord s1) fd' = Some p" using s2(2) by (simp add: registry_kept_def)
      then have "om_get (MachineRecord s) fd' = Some p" "fd' \<noteq> fd"
        by (auto simp: s1(3) split: if_splits)
      then show False using center_wfD(1) [OF assms(2) p] by blast
    qed
    then show ?thesis
      unfolding center_wfD(7-9) [OF wf2] by (auto simp: listed_def)
  qed
  ultimately show ?thesis by blast
qed

theorem center_close_forgets_witness:
  "\<exists>s'. CenterServer_CloseClientSocket example_world 6 registry = Inr s' \<and> 1 \<notin> set (logicServerGroup s')"
  using center_close_forgets [of example_world registry 6] registry_wf by auto

end
