(* ===== verification/GateServer.thy ===== *)
theory GateServer
  imports FuncServer
begin

text \<open>
  The gate: \<open>src/Header/Server/GateServer.h\<close>, \<open>src/Source/GateServer.cpp\<close>. Clients connect here; the
  gate knows which connection belongs to which user (\<open>user_fd_record\<close>, \<open>fd_user_record\<close>),
  forwards requests to the database and logic servers and their answers back, and watches the
  heartbeats.

  \<open>m_user_connections\<close> maps users to \<open>ClientInfo\<close> objects by pointer. The heartbeat check indexes it
  by descriptor, so it can insert null pointers and delete objects that other entries still
  point to: addresses are integers (0 is null) and \<open>gate_clients\<close> is the store of live objects.
  \<open>DisconnectAllClients\<close> keeps an iterator into \<open>connections\<close> across \<open>CloseClientSocket\<close>, which may
  erase the element the iterator is at; the loop here keeps the key and faults when the element
  is gone.
\<close>

record ClientInfo =
  ci_userid :: int
  ci_fd :: int
  ci_lstMs :: int

record GateServer = FuncServer +
  m_user_connections :: "int omap"
  gate_clients :: "ClientInfo omap"
  next_client :: int

definition GateServer_new :: "Config \<Rightarrow> GateServer" where
  "GateServer_new cfg =
     (let s = FuncServer_new cfg GATE in
      FuncServer.FuncServer.extend
        (if PRESSURE_TEST cfg then s
         else s\<lparr>m_callfuncList := m_callfuncList s @
                 [Timer_Start (Timer_new (CHECK_ALL_CLIENT_CONN cfg) GateServer_CheckAllClientConn)]\<rparr>)
        (GateServer.fields [] [] 1))"

section \<open>Connections\<close>

definition GateServer_TryToConnect ::
  "world \<Rightarrow> 'a GateServer_scheme closer \<Rightarrow> 'a GateServer_scheme \<Rightarrow> 'a GateServer_scheme res" where
  "GateServer_TryToConnect w close s =
     bindF (if logic_server_client s = -1 then ApplyServerByType w close LOGIC s else Inr s) (\<lambda>s1.
       if db_server_client s1 = -1 then ApplyServerByType w close DATABASE s1 else Inr s1)"

text \<open>The key of the element after \<open>k\<close>.\<close>

definition next_key :: "int \<Rightarrow> 'v omap \<Rightarrow> int option" where
  "next_key k m = map_option fst (find (\<lambda>e. k < fst e) m)"

definition first_key :: "'v omap \<Rightarrow> int option" where
  "first_key m = (case m of [] \<Rightarrow> None | e # _ \<Rightarrow> Some (fst e))"

text \<open>\<open>it\<close> is the iterator; every round moves it up, so the number of connections is fuel enough.\<close>

fun disconnect_loop ::
  "nat \<Rightarrow> 'a GateServer_scheme closer \<Rightarrow> int option \<Rightarrow> 'a GateServer_scheme \<Rightarrow> 'a GateServer_scheme res" where
  "disconnect_loop n close None s = Inr s"
| "disconnect_loop 0 close (Some k) s = Inl NonTermination"
| "disconnect_loop (Suc n) close (Some k) s =
     (if \<not> om_has k (connections s) then Inl UseAfterFree
      else if k = center_server_client s \<or> k = logic_server_client s \<or> k = db_server_client s
      then disconnect_loop n close (next_key k (connections s)) s
      else bindF (close k s) (disconnect_loop n close (next_key k (connections s))))"

definition DisconnectAllClients ::
  "'a GateServer_scheme closer \<Rightarrow> 'a GateServer_scheme \<Rightarrow> 'a GateServer_scheme res" where
  "DisconnectAllClients close s =
     disconnect_loop (length (connections s)) close (first_key (connections s)) s"

text \<open>A lost client: the logic server is told and both records are cleared.\<close>

definition forget_client ::
  "world \<Rightarrow> 'a GateServer_scheme closer \<Rightarrow> int \<Rightarrow> 'a GateServer_scheme \<Rightarrow> 'a GateServer_scheme res" where
  "forget_client w close fd s =
     (case om_get (fd_user_record s) fd of
        None \<Rightarrow> Inr s
      | Some userid \<Rightarrow>
          bindF (SendMsg w close (NewUserInfoMessage (w_cfg w) (w_pb w) userid fd User_Logout)
                   (logic_server_client s) s) (\<lambda>(ok, s1).
            Inr (s1\<lparr>user_fd_record := om_del (om_at 0 (fd_user_record s1) fd) (user_fd_record s1),
                    fd_user_record := om_del fd (fd_user_record s1)\<rparr>)))"

definition GateServer_close_body ::
  "world \<Rightarrow> 'a GateServer_scheme closer \<Rightarrow> 'a GateServer_scheme closer" where
  "GateServer_close_body w close fd s =
     bindF (ServerBase_CloseClientSocket w close fd s) (\<lambda>s1.
       if fd = logic_server_client s1
       then bindF (DisconnectAllClients close s1) (\<lambda>s2.
              GateServer_TryToConnect w close (s2\<lparr>logic_server_client := -1\<rparr>))
       else if fd = db_server_client s1
       then GateServer_TryToConnect w close (s1\<lparr>db_server_client := -1\<rparr>)
       else forget_client w close fd s1)"

definition GateServer_CloseClientSocket :: "world \<Rightarrow> 'a GateServer_scheme closer" where
  "GateServer_CloseClientSocket w = virtual_close (GateServer_close_body w)"

definition GateServer_OnConnectToCenterServer ::
  "world \<Rightarrow> 'a GateServer_scheme \<Rightarrow> 'a GateServer_scheme res" where
  "GateServer_OnConnectToCenterServer w = GateServer_TryToConnect w (GateServer_CloseClientSocket w)"

definition Gate_SendMsg ::
  "world \<Rightarrow> Message \<Rightarrow> int \<Rightarrow> 'a GateServer_scheme \<Rightarrow> 'a GateServer_scheme res" where
  "Gate_SendMsg w msg fd s =
     bindF (SendMsg w (GateServer_CloseClientSocket w) msg fd s) (\<lambda>(ok, s'). Inr s')"

section \<open>Heartbeats\<close>

definition deref_client :: "int \<Rightarrow> 'a GateServer_scheme \<Rightarrow> ClientInfo res" where
  "deref_client p s =
     (if p = 0 then Inl NullDeref
      else case om_get (gate_clients s) p of None \<Rightarrow> Inl UseAfterFree | Some c \<Rightarrow> Inr c)"

definition delete_client :: "int \<Rightarrow> 'a GateServer_scheme \<Rightarrow> 'a GateServer_scheme res" where
  "delete_client p s =
     (if p = 0 then Inr s
      else if om_has p (gate_clients s) then Inr (s\<lparr>gate_clients := om_del p (gate_clients s)\<rparr>)
      else Inl UseAfterFree)"

definition expire_client ::
  "world \<Rightarrow> int \<Rightarrow> int \<Rightarrow> 'a GateServer_scheme \<Rightarrow> 'a GateServer_scheme res" where
  "expire_client w key p s =
     bindF (deref_client p s) (\<lambda>c.
     bindF (GateServer_CloseClientSocket w (ci_fd c) s) (\<lambda>s1.
     bindF (deref_client p s1) (\<lambda>c1.
       let fd = ci_fd c1;
           s2 = s1\<lparr>m_user_connections := om_touch 0 fd (m_user_connections s1)\<rparr>
       in bindF (delete_client (om_at 0 (m_user_connections s1) fd) s2) (\<lambda>s3.
            Inr (s3\<lparr>m_user_connections := om_del key (m_user_connections s3)\<rparr>)))))"

text \<open>An entry that was inserted behind the iterator's back is null, and following it ends the loop,
  so one round more than there are entries is fuel enough.\<close>

fun heartbeat_loop ::
  "nat \<Rightarrow> world \<Rightarrow> int \<Rightarrow> int option \<Rightarrow> 'a GateServer_scheme \<Rightarrow> 'a GateServer_scheme res" where
  "heartbeat_loop n w nowMs None s = Inr s"
| "heartbeat_loop 0 w nowMs (Some key) s = Inl NonTermination"
| "heartbeat_loop (Suc n) w nowMs (Some key) s =
     (case om_get (m_user_connections s) key of
        None \<Rightarrow> Inl UseAfterFree
      | Some p \<Rightarrow>
          bindF (deref_client p s) (\<lambda>c.
          bindF (if nowMs - ci_lstMs c > MAX_HEARTBEAT_DIFF (w_cfg w)
                 then expire_client w key p s else Inr s)
            (\<lambda>s1. heartbeat_loop n w nowMs (next_key key (m_user_connections s1)) s1)))"

definition CheckAllClientConn :: "world \<Rightarrow> 'a GateServer_scheme \<Rightarrow> 'a GateServer_scheme res" where
  "CheckAllClientConn w s =
     (let (nowMs, s1) = getCurrentTime w s in
      heartbeat_loop (Suc (length (m_user_connections s1))) w nowMs
        (first_key (m_user_connections s1)) s1)"

section \<open>Messages\<close>

definition is_server_fd :: "int \<Rightarrow> 'a FuncServer_scheme \<Rightarrow> bool" where
  "is_server_fd fd s \<longleftrightarrow>
     fd = center_server_client s \<or> fd = logic_server_client s \<or> fd = db_server_client s"

definition CheckMessageValid ::
  "Message \<Rightarrow> int \<Rightarrow> 'a GateServer_scheme \<Rightarrow> bool \<times> 'a GateServer_scheme" where
  "CheckMessageValid msg fd s =
     (let userid = m_userid (m_head msg); type = m_packageType (m_head msg) in
      if is_server_fd fd s then (True, s)
      else if userid = 0
      then (type = bodytype_code LoginRequest \<or> type = bodytype_code RegistRequest, s)
      else (fd = om_at 0 (user_fd_record s) userid,
            s\<lparr>user_fd_record := om_touch 0 userid (user_fd_record s)\<rparr>))"

definition set_userid :: "int \<Rightarrow> Message \<Rightarrow> Message" where
  "set_userid userid msg = msg\<lparr>m_head := (m_head msg)\<lparr>m_userid := userid\<rparr>\<rparr>"

definition to_logic :: "world \<Rightarrow> Message \<Rightarrow> 'a GateServer_scheme \<Rightarrow> 'a GateServer_scheme res" where
  "to_logic w msg s = Gate_SendMsg w msg (logic_server_client s) s"

definition to_db :: "world \<Rightarrow> Message \<Rightarrow> 'a GateServer_scheme \<Rightarrow> 'a GateServer_scheme res" where
  "to_db w msg s = Gate_SendMsg w msg (db_server_client s) s"

definition to_user :: "world \<Rightarrow> Message \<Rightarrow> 'a GateServer_scheme \<Rightarrow> 'a GateServer_scheme res" where
  "to_user w msg s =
     (let userid = m_userid (m_head msg) in
      Gate_SendMsg w msg (om_at 0 (user_fd_record s) userid)
        (s\<lparr>user_fd_record := om_touch 0 userid (user_fd_record s)\<rparr>))"

definition by_type :: "world \<Rightarrow> ReqType \<Rightarrow> Message \<Rightarrow> 'a GateServer_scheme \<Rightarrow> 'a GateServer_scheme res" where
  "by_type w type msg s =
     (case type of REQUEST \<Rightarrow> to_logic w msg s | RESPONSE \<Rightarrow> to_user w msg s | _ \<Rightarrow> Inr s)"

text \<open>A login that succeeded: an older connection of the user is closed, the records are set.\<close>

definition Gate_LoginResponse ::
  "world \<Rightarrow> Message \<Rightarrow> 'a GateServer_scheme \<Rightarrow> 'a GateServer_scheme res" where
  "Gate_LoginResponse w msg s =
     (case msg_object msg of
        Some (B_LoginResponse body) \<Rightarrow>
          let user_fd = m_userid (m_head msg); userid = lp_userid body; msg1 = set_userid userid msg in
          bindF (if lp_result body then
                   bindF (case om_get (user_fd_record s) userid of
                            None \<Rightarrow> Inr s
                          | Some fd \<Rightarrow> GateServer_CloseClientSocket w fd s)
                     (\<lambda>s1. to_logic w msg1
                       (s1\<lparr>user_fd_record := om_upd userid user_fd (user_fd_record s1),
                           fd_user_record := om_upd user_fd userid (fd_user_record s1)\<rparr>))
                 else Inr s)
            (\<lambda>s2. Gate_SendMsg w msg1 user_fd s2)
      | _ \<Rightarrow> Inl NullDeref)"

definition Gate_UserHeart ::
  "world \<Rightarrow> Message \<Rightarrow> int \<Rightarrow> 'a GateServer_scheme \<Rightarrow> 'a GateServer_scheme res" where
  "Gate_UserHeart w msg fd s =
     (if is_server_fd fd s then Inr s
      else
        let userid = m_userid (m_head msg) in
        case om_get (m_user_connections s) userid of
          Some p \<Rightarrow>
            bindF (deref_client p s) (\<lambda>c.
              let (now, s1) = getCurrentTime w s in
              Inr (s1\<lparr>gate_clients := om_upd p (c\<lparr>ci_lstMs := now\<rparr>) (gate_clients s1)\<rparr>))
        | None \<Rightarrow>
            let (now, s1) = getCurrentTime w s;
                c = \<lparr>ci_userid = userid, ci_fd = om_at 0 (user_fd_record s1) userid, ci_lstMs = now\<rparr>
            in Inr (s1\<lparr>user_fd_record := om_touch 0 userid (user_fd_record s1),
                       m_user_connections := om_upd userid (next_client s1) (m_user_connections s1),
                       gate_clients := om_upd (next_client s1) c (gate_clients s1),
                       next_client := next_client s1 + 1\<rparr>))"

definition Gate_dispatch ::
  "world \<Rightarrow> Message \<Rightarrow> int \<Rightarrow> 'a GateServer_scheme \<Rightarrow> 'a GateServer_scheme res" where
  "Gate_dispatch w msg fd s =
     (case bodytype_of (m_packageType (m_head msg)) of
        Some LoginRequest \<Rightarrow> to_db w (set_userid fd msg) s
      | Some LoginResponse \<Rightarrow> Gate_LoginResponse w msg s
      | Some RegistRequest \<Rightarrow> to_db w (set_userid fd msg) s
      | Some RegistResponse \<Rightarrow> Gate_SendMsg w msg (m_userid (m_head msg)) s
      | Some JoinRoom \<Rightarrow>
          (case msg_object msg of Some (B_JoinRoom b) \<Rightarrow> by_type w (jr_type b) msg s | _ \<Rightarrow> Inr s)
      | Some LeaveRoom \<Rightarrow>
          (case msg_object msg of Some (B_LeaveRoom b) \<Rightarrow> by_type w (lr_type b) msg s | _ \<Rightarrow> Inr s)
      | Some CreateRoom \<Rightarrow>
          (case msg_object msg of Some (B_CreateRoom b) \<Rightarrow> by_type w (cr_type b) msg s | _ \<Rightarrow> Inr s)
      | Some GetRoomList \<Rightarrow>
          (case msg_object msg of Some (B_GetRoomList b) \<Rightarrow> by_type w (gl_type b) msg s | _ \<Rightarrow> Inr s)
      | Some ChangeRole \<Rightarrow> to_logic w msg s
      | Some JoinGame \<Rightarrow> to_logic w msg s
      | Some QuitGame \<Rightarrow> to_logic w msg s
      | Some NotifyRoomInfo \<Rightarrow> to_user w msg s
      | Some StartGame \<Rightarrow> if fd = logic_server_client s then to_user w msg s else to_logic w msg s
      | Some UserOperate \<Rightarrow> to_logic w msg s
      | Some Frame \<Rightarrow> to_user w msg s
      | Some Reconnect \<Rightarrow> to_user w msg s
      | Some ChaseFrame \<Rightarrow> to_user w msg s
      | Some UserHeart \<Rightarrow> Gate_UserHeart w msg fd s
      | _ \<Rightarrow> Inr s)"

definition trusted_userid :: "int \<Rightarrow> Message \<Rightarrow> 'a GateServer_scheme \<Rightarrow> Message" where
  "trusted_userid fd msg s =
     (case om_get (fd_user_record s) fd of None \<Rightarrow> msg | Some userid \<Rightarrow> set_userid userid msg)"

definition GateServer_OnMsgBodyAnalysised ::
  "world \<Rightarrow> 'a GateServer_scheme msg_handler" where
  "GateServer_OnMsgBodyAnalysised w msg body len fd s =
     bindF (FuncServer_OnMsgBodyAnalysised w (GateServer_CloseClientSocket w) msg body len fd s)
       (\<lambda>(msg1, s1).
          let (valid, s2) = (if PRESSURE_TEST (w_cfg w) then (True, s1) else CheckMessageValid msg1 fd s1)
          in if \<not> valid then Inr s2 else Gate_dispatch w (trusted_userid fd msg1 s2) fd s2)"

section \<open>The process\<close>

fun GateServer_callback ::
  "world \<Rightarrow> CallbackType \<Rightarrow> 'a GateServer_scheme \<Rightarrow> 'a GateServer_scheme res" where
  "GateServer_callback w GateServer_CheckAllClientConn s = CheckAllClientConn w s"
| "GateServer_callback w FuncServer_TryToConnectAvailabeServer s =
     GateServer_TryToConnect w (GateServer_CloseClientSocket w) s"
| "GateServer_callback w FuncServer_SendSelfInfoToCenter s =
     SendSelfInfoToCenter (w_retries w) w (GateServer_CloseClientSocket w)
       (GateServer_OnConnectToCenterServer w) s"
| "GateServer_callback w _ s = Inr s"

definition GateServer_virtuals :: "world \<Rightarrow> 'a GateServer_scheme virtuals" where
  "GateServer_virtuals w =
     \<lparr>v_close = GateServer_CloseClientSocket w,
      v_handler = GateServer_OnMsgBodyAnalysised w,
      v_callback = GateServer_callback w,
      v_on_start = FuncServer_OnListenerStart w (GateServer_CloseClientSocket w)
                     (GateServer_OnConnectToCenterServer w)\<rparr>"

definition GateServer_BootServer ::
  "nat \<Rightarrow> world \<Rightarrow> string \<times> int \<times> string \<Rightarrow> 'a GateServer_scheme \<Rightarrow> 'a GateServer_scheme res" where
  "GateServer_BootServer turns w addr s =
     (case addr of (ip, port, name) \<Rightarrow>
        bindF (BootServer turns w (GateServer_virtuals w) ip port name s) (\<lambda>(go, s'). Inr s'))"

definition GateServer_main :: "nat \<Rightarrow> world \<Rightarrow> GateServer res" where
  "GateServer_main turns w =
     foldF (GateServer_BootServer turns w) (GATE_SERVERS (w_cfg w)) (GateServer_new (w_cfg w))"

end
