(* ===== verification/Gate_Net.thy ===== *)
theory Gate_Net
  imports GateServer
begin

text \<open>
  The network side of the gate. The body of its \<open>CloseClientSocket\<close> can be tied (\<open>gc\<close>), so the
  class's own equation holds although losing the logic server closes every client from inside
  the method. Whatever happens during a close, users are only forgotten, never added, and the
  heartbeat table is not touched (\<open>gate_kept\<close>).
\<close>

section \<open>The body of the close method\<close>

lemma Gate_TryToConnect_agree:
  assumes "agree_below k c c'" "shrinking c" "2 * length (connections s) < k"
  shows "GateServer_TryToConnect w c s = GateServer_TryToConnect w c' s"
proof -
  let ?l = "\<lambda>c. if logic_server_client s = -1 then ApplyServerByType w c LOGIC s else Inr s"
  have l: "?l c = ?l c'"
    using ApplyServerByType_agree [OF assms(1,3)] by simp
  show ?thesis
  proof (cases "?l c")
    case (Inr s1)
    then have "length (connections s1) \<le> length (connections s)"
      using ApplyServerByType_shrinks [OF assms(2)] by (auto split: if_splits)
    then have "ApplyServerByType w c DATABASE s1 = ApplyServerByType w c' DATABASE s1"
      using assms(3) by (intro ApplyServerByType_agree [OF assms(1)]) simp
    then show ?thesis
      unfolding GateServer_TryToConnect_def l [symmetric] Inr by simp
  qed (simp add: GateServer_TryToConnect_def l [symmetric])
qed

lemma Gate_TryToConnect_shrinks:
  assumes c: "shrinking c" and run: "GateServer_TryToConnect w c s = Inr s'"
  shows "length (connections s') \<le> length (connections s)"
proof -
  obtain s1 where "(if logic_server_client s = -1 then ApplyServerByType w c LOGIC s else Inr s) = Inr s1"
      "(if db_server_client s1 = -1 then ApplyServerByType w c DATABASE s1 else Inr s1) = Inr s'"
    using run by (auto simp: GateServer_TryToConnect_def)
  then have "length (connections s1) \<le> length (connections s)"
      "length (connections s') \<le> length (connections s1)"
    using ApplyServerByType_shrinks [OF c] by (auto split: if_splits)
  then show ?thesis by simp
qed

lemma disconnect_loop_agree:
  assumes ag: "agree_below k c c'" and c: "shrinking c"
  shows "2 * length (connections s) < k \<Longrightarrow> disconnect_loop n c it s = disconnect_loop n c' it s"
proof (induction n arbitrary: it s)
  case 0
  then show ?case by (cases it) simp_all
next
  case (Suc n)
  show ?case
  proof (cases it)
    case (Some key)
    show ?thesis
    proof (cases "om_has key (connections s)")
      case True
      let ?next = "next_key key (connections s)"
      have same: "c key s = c' key s"
        using True Suc.prems by (intro agree_belowD [OF ag]) (simp add: close_rank_def)
      have "bindF (c key s) (disconnect_loop n c ?next) = bindF (c' key s) (disconnect_loop n c' ?next)"
      proof (rule bindF_cong [OF same])
        fix s1 assume "c' key s = Inr s1"
        then have "length (connections s1) \<le> length (connections s)"
          using shrinkingD [OF c] same by simp
        then show "disconnect_loop n c ?next s1 = disconnect_loop n c' ?next s1"
          using Suc.prems by (intro Suc.IH) simp
      qed
      then show ?thesis
        using Some True Suc.IH [OF Suc.prems] by simp
    qed (simp add: Some)
  qed simp
qed

lemma disconnect_loop_shrinks:
  assumes c: "shrinking c"
  shows "disconnect_loop n c it s = Inr s' \<Longrightarrow> length (connections s') \<le> length (connections s)"
proof (induction n arbitrary: it s)
  case 0
  then show ?case by (cases it) simp_all
next
  case (Suc n)
  show ?case
  proof (cases it)
    case (Some key)
    then show ?thesis
      using Suc.prems by (auto split: if_splits dest!: Suc.IH shrinkingD [OF c])
  qed (use Suc.prems in simp)
qed

lemma forget_client_agree:
  "agree_below k c c' \<Longrightarrow> 2 * length (connections s) < k \<Longrightarrow>
     forget_client w c fd s = forget_client w c' fd s"
  by (simp add: forget_client_def SendMsg_agree [of k c c'] split: option.split)

lemma forget_client_shrinks:
  "shrinking c \<Longrightarrow> forget_client w c fd s = Inr s' \<Longrightarrow>
     length (connections s') \<le> length (connections s)"
  by (auto simp: forget_client_def split: option.splits dest!: SendMsg_shrinks)

lemma rank_after_base_close:
  assumes "shrinking c" "ServerBase_CloseClientSocket w c fd s = Inr s1"
  shows "2 * length (connections s1) < close_rank fd s"
  using ServerBase_Close_shrinks [OF assms] by (auto simp: close_rank_def)

lemma Gate_close_local:
  assumes c: "shrinking c" and ag: "agree_below (close_rank fd s) c c'"
  shows "GateServer_close_body w c fd s = GateServer_close_body w c' fd s"
proof (cases "ServerBase_CloseClientSocket w c fd s")
  case (Inr s1)
  note rank = rank_after_base_close [OF c Inr]
  have ask: "GateServer_TryToConnect w c t = GateServer_TryToConnect w c' t"
    if "length (connections t) \<le> length (connections s1)" for t
    using that rank by (intro Gate_TryToConnect_agree [OF ag c]) simp
  have loop: "DisconnectAllClients c s1 = DisconnectAllClients c' s1"
    unfolding DisconnectAllClients_def by (rule disconnect_loop_agree [OF ag c rank])
  have lost: "bindF (DisconnectAllClients c s1) (\<lambda>s2. GateServer_TryToConnect w c (s2\<lparr>logic_server_client := -1\<rparr>)) =
      bindF (DisconnectAllClients c' s1) (\<lambda>s2. GateServer_TryToConnect w c' (s2\<lparr>logic_server_client := -1\<rparr>))"
  proof (cases "DisconnectAllClients c s1")
    case dis: (Inr s2)
    then have "length (connections s2) \<le> length (connections s1)"
      unfolding DisconnectAllClients_def by (rule disconnect_loop_shrinks [OF c])
    then show ?thesis
      using ask [of "s2\<lparr>logic_server_client := -1\<rparr>"] dis loop by simp
  qed (simp add: loop [symmetric])
  have forget: "forget_client w c fd s1 = forget_client w c' fd s1"
    by (rule forget_client_agree [OF ag rank])
  have db: "GateServer_TryToConnect w c (s1\<lparr>db_server_client := -1\<rparr>) =
      GateServer_TryToConnect w c' (s1\<lparr>db_server_client := -1\<rparr>)"
    by (rule ask) simp
  have base: "ServerBase_CloseClientSocket w c' fd s = Inr s1"
    using Inr ServerBase_Close_agree [OF ag, of w] by simp
  show ?thesis
    unfolding GateServer_close_body_def Inr base bindF.simps lost forget db by (rule refl)
qed (use ServerBase_Close_agree [OF ag, of w] in \<open>simp add: GateServer_close_body_def\<close>)

lemma Gate_close_shrinks:
  assumes c: "shrinking c"
  shows "shrinking (GateServer_close_body w c)"
  unfolding shrinking_def
proof (intro allI impI)
  fix fd s s'
  assume "GateServer_close_body w c fd s = Inr s'"
  then obtain s1 where s1: "ServerBase_CloseClientSocket w c fd s = Inr s1"
    and run: "(if fd = logic_server_client s1
       then bindF (DisconnectAllClients c s1) (\<lambda>s2. GateServer_TryToConnect w c (s2\<lparr>logic_server_client := -1\<rparr>))
       else if fd = db_server_client s1 then GateServer_TryToConnect w c (s1\<lparr>db_server_client := -1\<rparr>)
       else forget_client w c fd s1) = Inr s'"
    by (auto simp: GateServer_close_body_def)
  have "length (connections s') \<le> length (connections s1)"
    using run
    by (auto split: if_splits simp: DisconnectAllClients_def dest!: disconnect_loop_shrinks [OF c]
        Gate_TryToConnect_shrinks [OF c] forget_client_shrinks [OF c])
  then show "length (connections s') \<le> length (connections s)"
    using ServerBase_Close_shrinks [OF c s1] by simp
qed

interpretation gc: closing "GateServer_close_body w"
proof
  show "GateServer_close_body w c fd s = GateServer_close_body w c' fd s"
    if "shrinking c" "agree_below (close_rank fd s) c c'" for c c' :: "'a GateServer_scheme closer" and fd s
    using that by (rule Gate_close_local)
  show "shrinking (GateServer_close_body w c)" if "shrinking c" for c :: "'a GateServer_scheme closer"
    using that by (rule Gate_close_shrinks)
qed

section \<open>What every close leaves alone\<close>

definition fewer :: "'v omap \<Rightarrow> 'v omap \<Rightarrow> bool" where
  "fewer m m' \<longleftrightarrow> (\<forall>k v. om_get m' k = Some v \<longrightarrow> om_get m k = Some v)"

lemma fewer_refl [simp]: "fewer m m"
  by (simp add: fewer_def)

lemma fewer_del [simp]: "fewer m (om_del k m)"
  by (simp add: fewer_def)

lemma fewer_trans: "fewer m1 m2 \<Longrightarrow> fewer m2 m3 \<Longrightarrow> fewer m1 m3"
  by (simp add: fewer_def)

definition gate_kept :: "'a GateServer_scheme \<Rightarrow> 'a GateServer_scheme \<Rightarrow> bool" where
  "gate_kept s t \<longleftrightarrow>
     m_user_connections t = m_user_connections s \<and> gate_clients t = gate_clients s \<and>
     next_client t = next_client s \<and> center_server_client t = center_server_client s \<and>
     fewer (user_fd_record s) (user_fd_record t) \<and> fewer (fd_user_record s) (fd_user_record t)"

lemma gate_kept_refl [simp]: "gate_kept s s"
  by (simp add: gate_kept_def)

lemma gate_kept_trans: "gate_kept s t \<Longrightarrow> gate_kept t u \<Longrightarrow> gate_kept s u"
  by (auto simp: gate_kept_def intro: fewer_trans)

lemma gate_kept_stable: "net_stable (\<lambda>s. True) gate_kept"
  unfolding net_stable_def
  by (auto simp: gate_kept_def net_do_def io_tick_def intro: fewer_trans)

lemma Gate_TryToConnect_relates:
  assumes c: "relates gate_kept c" and run: "GateServer_TryToConnect w c s = Inr s'"
  shows "gate_kept s s'"
proof -
  have asks: "gate_kept t t'" if "ApplyServerByType w c ty t = Inr t'" for ty t t'
    using that SendMsg_relates [OF gate_kept_stable c] by (auto simp: ApplyServerByType_def)
  obtain s1 where "(if logic_server_client s = -1 then ApplyServerByType w c LOGIC s else Inr s) = Inr s1"
      "(if db_server_client s1 = -1 then ApplyServerByType w c DATABASE s1 else Inr s1) = Inr s'"
    using run by (auto simp: GateServer_TryToConnect_def)
  then have "gate_kept s s1" "gate_kept s1 s'"
    using asks by (auto split: if_splits)
  then show ?thesis by (rule gate_kept_trans)
qed

lemma disconnect_loop_relates:
  assumes c: "relates gate_kept c"
  shows "disconnect_loop n c it s = Inr s' \<Longrightarrow> gate_kept s s'"
proof (induction n arbitrary: it s)
  case 0
  then show ?case by (cases it) simp_all
next
  case (Suc n)
  show ?case
  proof (cases it)
    case (Some key)
    then show ?thesis
      using Suc.prems by (auto split: if_splits dest!: Suc.IH relatesD [OF c] intro: gate_kept_trans)
  qed (use Suc.prems in simp)
qed

lemma forget_client_relates:
  assumes c: "relates gate_kept c" and run: "forget_client w c fd s = Inr s'"
  shows "gate_kept s s'"
proof (cases "om_get (fd_user_record s) fd")
  case (Some u)
  then obtain ok s1 where s1: "SendMsg w c (NewUserInfoMessage (w_cfg w) (w_pb w) u fd User_Logout)
      (logic_server_client s) s = Inr (ok, s1)"
    and s': "s' = s1\<lparr>user_fd_record := om_del (om_at 0 (fd_user_record s1) fd) (user_fd_record s1),
        fd_user_record := om_del fd (fd_user_record s1)\<rparr>"
    using run by (auto simp: forget_client_def)
  have "gate_kept s s1" by (rule SendMsg_relates [OF gate_kept_stable c s1])
  moreover have "gate_kept s1 s'" using s' by (simp add: gate_kept_def)
  ultimately show ?thesis by (rule gate_kept_trans)
qed (use run in \<open>simp add: forget_client_def\<close>)

lemma Gate_close_relates:
  assumes c: "relates gate_kept c"
  shows "relates gate_kept (GateServer_close_body w c)"
  unfolding relates_def
proof (intro allI impI)
  fix fd s s'
  assume "GateServer_close_body w c fd s = Inr s'"
  then obtain s1 where s1: "ServerBase_CloseClientSocket w c fd s = Inr s1"
    and run: "(if fd = logic_server_client s1
       then bindF (DisconnectAllClients c s1) (\<lambda>s2. GateServer_TryToConnect w c (s2\<lparr>logic_server_client := -1\<rparr>))
       else if fd = db_server_client s1 then GateServer_TryToConnect w c (s1\<lparr>db_server_client := -1\<rparr>)
       else forget_client w c fd s1) = Inr s'"
    by (auto simp: GateServer_close_body_def)
  have field: "gate_kept (t\<lparr>logic_server_client := x\<rparr>) u \<longleftrightarrow> gate_kept t u"
      "gate_kept (t\<lparr>db_server_client := x\<rparr>) u \<longleftrightarrow> gate_kept t u" for t x u
    by (simp_all add: gate_kept_def)
  have "gate_kept s1 s'"
    using run
    by (auto split: if_splits simp: DisconnectAllClients_def field
        dest!: disconnect_loop_relates [OF c] Gate_TryToConnect_relates [OF c] forget_client_relates [OF c]
        intro: gate_kept_trans)
  moreover have "gate_kept s s1"
    using ServerBase_Close_relates [OF gate_kept_stable c] s1 by (rule relatesD)
  ultimately show "gate_kept s s'" by (blast intro: gate_kept_trans)
qed

lemma Gate_Close_kept:
  "GateServer_CloseClientSocket w fd s = Inr s' \<Longrightarrow> gate_kept s s'"
  unfolding GateServer_CloseClientSocket_def
  by (rule relatesD [OF virtual_close_relates [OF Gate_close_relates]])

lemma Gate_SendMsg_kept:
  assumes "Gate_SendMsg w msg fd s = Inr s'"
  shows "gate_kept s s'"
proof -
  have c: "relates gate_kept (GateServer_CloseClientSocket w)"
    by (auto simp: relates_def intro: Gate_Close_kept)
  show ?thesis
    using assms SendMsg_relates [OF gate_kept_stable c] by (auto simp: Gate_SendMsg_def)
qed

end
