(* ===== verification/Gate_Users.thy ===== *)
theory Gate_Users
  imports Gate_Net
begin

text \<open>
  Who is connected and who is who. As long as the sockets take what is sent (\<open>sends_ok\<close>), every
  close of the gate ends, and its effect is written out: one client is forgotten, or, when the
  logic server is lost, all of them. Then the login that joins a connection to a user, and what
  the gate believes of a message's user id.
\<close>

section \<open>Healthy sockets\<close>

text \<open>All that is not the clock, the log or the own address agrees.\<close>

definition logged :: "'a GateServer_scheme \<Rightarrow> 'a GateServer_scheme \<Rightarrow> bool" where
  "logged s t \<longleftrightarrow>
     connections t = connections s \<and> conns_count t = conns_count s \<and>
     center_server_client t = center_server_client s \<and> logic_server_client t = logic_server_client s \<and>
     db_server_client t = db_server_client s \<and> user_fd_record t = user_fd_record s \<and>
     fd_user_record t = fd_user_record s \<and> m_user_connections t = m_user_connections s \<and>
     gate_clients t = gate_clients s \<and> next_client t = next_client s \<and>
     m_callfuncList t = m_callfuncList s"

lemma logged_refl [simp]: "logged s s"
  by (simp add: logged_def)

lemma logged_trans: "logged s t \<Longrightarrow> logged t u \<Longrightarrow> logged s u"
  by (simp add: logged_def)

lemma logged_net_do [simp]: "logged s (net_do e t) = logged s t"
  by (simp add: logged_def net_do_def io_tick_def)

lemma logged_fields:
  assumes "logged s t"
  shows "connections t = connections s" "center_server_client t = center_server_client s"
    "logic_server_client t = logic_server_client s" "db_server_client t = db_server_client s"
    "user_fd_record t = user_fd_record s" "fd_user_record t = fd_user_record s"
    "m_user_connections t = m_user_connections s" "gate_clients t = gate_clients s"
  using assms by (simp_all add: logged_def)

lemma SendMsg_sends:
  assumes w: "sends_ok w"
  shows "\<exists>ok s'. SendMsg w c msg fd s = Inr (ok, s') \<and> logged s s'"
proof (cases "om_has fd (connections s)")
  case True
  obtain ok b where "Message_SerializeToArray (w_cfg w) (w_pb w) msg
      (replicate (nat (m_packageSize (m_head msg))) 0) (m_packageSize (m_head msg)) = Inr (ok, b)"
    using Message_Serialize_array [of "w_cfg w"] w
    by (cases "m_packageSize (m_head msg) < Message_length (w_cfg w) (w_pb w) (m_body msg)")
      (auto simp: sends_ok_def)
  then show ?thesis
    using w True by (simp add: SendMsg_def Let_def sends_ok_def ex_bool_eq)
qed (auto simp: SendMsg_def)

definition drop_conn :: "int \<Rightarrow> 'a GateServer_scheme \<Rightarrow> 'a GateServer_scheme" where
  "drop_conn fd s =
     (if om_has fd (connections s)
      then s\<lparr>connections := om_del fd (connections s), conns_count := conns_count s - 1\<rparr> else s)"

definition drop_user :: "int \<Rightarrow> 'a GateServer_scheme \<Rightarrow> 'a GateServer_scheme" where
  "drop_user fd s =
     (case om_get (fd_user_record s) fd of
        None \<Rightarrow> s
      | Some u \<Rightarrow> s\<lparr>user_fd_record := om_del u (user_fd_record s),
                    fd_user_record := om_del fd (fd_user_record s)\<rparr>)"

lemma drop_logged:
  "logged s t \<Longrightarrow> logged (drop_conn fd s) (drop_conn fd t)"
  "logged s t \<Longrightarrow> logged (drop_user fd s) (drop_user fd t)"
  by (simp_all add: logged_def drop_conn_def drop_user_def split: option.split)

lemma ServerBase_Close_sends:
  assumes w: "sends_ok w"
  shows "\<exists>s'. ServerBase_CloseClientSocket w c fd s = Inr s' \<and> logged (drop_conn fd s) s'"
proof (cases "om_has fd (connections s)")
  case True
  let ?s = "os_close fd (s\<lparr>connections := om_del fd (connections s)\<rparr>)"
  let ?t = "?s\<lparr>conns_count := conns_count ?s - 1\<rparr>"
  have t: "logged (drop_conn fd s) ?t"
    using True by (simp add: logged_def drop_conn_def os_close_def net_do_def io_tick_def)
  let ?m = "make_message (w_cfg w) (w_pb w) ServerConnChange 0
     (B_ServerConnChange (new_ServerConnChange\<lparr>sc_ip := listen_ip ?t, sc_port := listen_port ?t,
        sc_change := conns_count ?t, sc_type := TransformType (server_type ?t)\<rparr>))"
  obtain ok s' where "SendMsg w c ?m (center_server_client ?t) ?t = Inr (ok, s')" "logged ?t s'"
    using SendMsg_sends [OF w] by blast
  moreover from this have "logged (drop_conn fd s) s'"
    using t by (blast intro: logged_trans)
  ultimately show ?thesis
    using True t by (simp add: ServerBase_CloseClientSocket_def SendConnsChange_def
        SendToCenterServerConnChange_def Let_def)
qed (simp add: ServerBase_CloseClientSocket_def drop_conn_def)

lemma forget_client_sends:
  assumes w: "sends_ok w"
  shows "\<exists>s'. forget_client w c fd s = Inr s' \<and> logged (drop_user fd s) s'"
proof (cases "om_get (fd_user_record s) fd")
  case (Some u)
  obtain ok s1 where s1: "SendMsg w c (NewUserInfoMessage (w_cfg w) (w_pb w) u fd User_Logout)
      (logic_server_client s) s = Inr (ok, s1)" "logged s s1"
    using SendMsg_sends [OF w] by blast
  then show ?thesis
    using Some by (simp add: forget_client_def drop_user_def logged_def)
qed (simp add: forget_client_def drop_user_def)

lemma Gate_TryToConnect_sends:
  assumes w: "sends_ok w"
  shows "\<exists>s'. GateServer_TryToConnect w c s = Inr s' \<and> logged s s'"
proof -
  have asks: "\<exists>t'. ApplyServerByType w c ty t = Inr t' \<and> logged t t'" for ty t
    using SendMsg_sends [OF w, of c _ _ t] unfolding ApplyServerByType_def by fastforce
  obtain s1 where s1: "(if logic_server_client s = -1 then ApplyServerByType w c LOGIC s else Inr s) = Inr s1"
      "logged s s1"
    using asks [of LOGIC s] by (cases "logic_server_client s = -1") auto
  obtain s2 where "(if db_server_client s1 = -1 then ApplyServerByType w c DATABASE s1 else Inr s1) = Inr s2"
      "logged s1 s2"
    using asks [of DATABASE s1] by (cases "db_server_client s1 = -1") auto
  with s1 show ?thesis
    unfolding GateServer_TryToConnect_def by (auto intro: logged_trans)
qed

section \<open>Closing a client\<close>

lemma Gate_close_client:
  assumes w: "sends_ok w" and fd: "fd \<noteq> logic_server_client s" "fd \<noteq> db_server_client s"
  shows "\<exists>s'. GateServer_CloseClientSocket w fd s = Inr s' \<and> logged (drop_user fd (drop_conn fd s)) s'"
proof -
  let ?c = "GateServer_CloseClientSocket w :: 'a GateServer_scheme closer"
  have eq: "GateServer_CloseClientSocket w fd s = GateServer_close_body w ?c fd s"
    unfolding GateServer_CloseClientSocket_def by (rule gc.virtual_close_eq)
  obtain s1 where s1: "ServerBase_CloseClientSocket w ?c fd s = Inr s1" "logged (drop_conn fd s) s1"
    using ServerBase_Close_sends [OF w] by blast
  obtain s2 where s2: "forget_client w ?c fd s1 = Inr s2" "logged (drop_user fd s1) s2"
    using forget_client_sends [OF w] by blast
  have "logged (drop_user fd (drop_conn fd s)) s2"
    using drop_logged(2) [OF s1(2)] s2(2) by (rule logged_trans)
  moreover have "logic_server_client s1 = logic_server_client s" "db_server_client s1 = db_server_client s"
    using s1(2) by (simp_all add: logged_fields drop_conn_def)
  ultimately show ?thesis
    unfolding eq GateServer_close_body_def using s1(1) s2(1) fd by simp
qed

section \<open>Losing the logic server\<close>

definition server_fds :: "'a GateServer_scheme \<Rightarrow> int set" where
  "server_fds s = {center_server_client s, logic_server_client s, db_server_client s}"

definition drop_clients :: "int list \<Rightarrow> 'a GateServer_scheme \<Rightarrow> 'a GateServer_scheme" where
  "drop_clients fds s =
     fold (\<lambda>fd s. if fd \<in> server_fds s then s else drop_user fd (drop_conn fd s)) fds s"

lemma drop_fields [simp]:
  "server_fds (drop_user fd s) = server_fds s" "server_fds (drop_conn fd s) = server_fds s"
  "connections (drop_user fd s) = connections s" "connections (drop_conn fd s) = om_del fd (connections s)"
  "fd_user_record (drop_conn fd s) = fd_user_record s" "user_fd_record (drop_conn fd s) = user_fd_record s"
  "fd_user_record (drop_user fd s) = om_del fd (fd_user_record s)"
  by (simp_all add: drop_user_def drop_conn_def server_fds_def om_has_def split: option.split)

lemma drop_clients_logged:
  assumes "logged s t"
  shows "logged (drop_clients fds s) (drop_clients fds t)"
  using assms
proof (induction fds arbitrary: s t)
  case (Cons fd fds)
  have "server_fds t = server_fds s"
    using Cons.prems by (simp add: server_fds_def logged_fields)
  moreover have "logged (drop_user fd (drop_conn fd s)) (drop_user fd (drop_conn fd t))"
    using Cons.prems by (intro drop_logged)
  ultimately show ?case
    using Cons by (simp add: drop_clients_def)
qed (simp add: drop_clients_def)

lemma next_key_split:
  assumes "om_wf (xs @ (k, v) # ys)"
  shows "next_key k (xs @ (k, v) # ys) = first_key ys" "om_del k (xs @ (k, v) # ys) = xs @ ys"
proof -
  have xs: "\<forall>e\<in>set xs. fst e < k" and ys: "\<forall>e\<in>set ys. k < fst e"
    using assms by (auto simp: om_wf_def sorted_wrt_append)
  have "find (\<lambda>e. k < fst e) (xs @ (k, v) # ys) = find (\<lambda>e. k < fst e) ys"
    using xs by (induction xs) auto
  also have "\<dots> = (case ys of [] \<Rightarrow> None | e # _ \<Rightarrow> Some e)"
    using ys by (cases ys) auto
  finally show "next_key k (xs @ (k, v) # ys) = first_key ys"
    by (simp add: next_key_def first_key_def split: list.split)
  show "om_del k (xs @ (k, v) # ys) = xs @ ys"
  proof -
    have "filter (\<lambda>e. fst e \<noteq> k) xs = xs" "filter (\<lambda>e. fst e \<noteq> k) ys = ys"
      using xs ys by (auto simp: filter_id_conv)
    then show ?thesis by (simp add: om_del_def)
  qed
qed

lemma disconnect_loop_sends:
  assumes w: "sends_ok w"
  shows "connections s = xs @ ys \<Longrightarrow> om_wf (connections s) \<Longrightarrow> length ys \<le> n \<Longrightarrow>
     \<exists>s'. disconnect_loop n (GateServer_CloseClientSocket w) (first_key ys) s = Inr s' \<and>
       logged (drop_clients (map fst ys) s) s'"
proof (induction ys arbitrary: n s xs)
  case Nil
  then show ?case by (cases n) (simp_all add: first_key_def drop_clients_def)
next
  case (Cons e ys)
  obtain k v where e: "e = (k, v)" by (cases e)
  obtain m where n: "n = Suc m" "length ys \<le> m" using Cons.prems(3) by (cases n) auto
  have conns: "connections s = xs @ (k, v) # ys" using Cons.prems(1) e by simp
  have wf: "om_wf (xs @ (k, v) # ys)" using Cons.prems(2) conns by simp
  note split = next_key_split [OF wf]
  have has: "om_has k (connections s)" by (simp add: conns om_has_keys om_keys_def)
  show ?case
  proof (cases "k \<in> server_fds s")
    case True
    from Cons.IH [of s "xs @ [(k, v)]" m] Cons.prems conns n(2) obtain s' where
      "disconnect_loop m (GateServer_CloseClientSocket w) (first_key ys) s = Inr s'"
      "logged (drop_clients (map fst ys) s) s'" by auto
    then show ?thesis
      using True has e n(1) split(1) conns
      by (auto simp: first_key_def drop_clients_def server_fds_def)
  next
    case False
    then have fd: "k \<noteq> logic_server_client s" "k \<noteq> db_server_client s" by (auto simp: server_fds_def)
    let ?s = "drop_user k (drop_conn k s)"
    obtain s1 where s1: "GateServer_CloseClientSocket w k s = Inr s1" "logged ?s s1"
      using Gate_close_client [OF w fd] by blast
    have "connections s1 = xs @ ys"
      using s1(2) split(2) conns by (simp add: logged_fields)
    moreover have "om_wf (connections s1)"
      using s1(2) Cons.prems(2) by (simp add: logged_fields)
    ultimately obtain s' where s': "disconnect_loop m (GateServer_CloseClientSocket w) (first_key ys) s1 = Inr s'"
      "logged (drop_clients (map fst ys) s1) s'" using Cons.IH n(2) by blast
    have "logged (drop_clients (map fst ys) ?s) s'"
      using drop_clients_logged [OF s1(2)] s'(2) by (rule logged_trans)
    then show ?thesis
      using False has e n(1) split(1) conns s1(1) s'(1)
      by (auto simp: first_key_def drop_clients_def server_fds_def)
  qed
qed

lemma DisconnectAllClients_sends:
  assumes "sends_ok w" "om_wf (connections s)"
  shows "\<exists>s'. DisconnectAllClients (GateServer_CloseClientSocket w) s = Inr s' \<and>
     logged (drop_clients (om_keys (connections s)) s) s'"
  unfolding DisconnectAllClients_def om_keys_def
  using disconnect_loop_sends [OF assms(1), of s "[]"] assms(2) by simp

lemma drop_clients_fields:
  "center_server_client (drop_clients fds s) = center_server_client s"
  "logic_server_client (drop_clients fds s) = logic_server_client s"
  "db_server_client (drop_clients fds s) = db_server_client s"
  "om_has k (connections (drop_clients fds s)) \<longleftrightarrow>
     om_has k (connections s) \<and> (k \<in> set fds \<longrightarrow> k \<in> server_fds s)"
  "om_has k (fd_user_record (drop_clients fds s)) \<longleftrightarrow>
     om_has k (fd_user_record s) \<and> (k \<in> set fds \<longrightarrow> k \<in> server_fds s)"
proof -
  have fields: "center_server_client (drop_user fd (drop_conn fd s)) = center_server_client s"
    "logic_server_client (drop_user fd (drop_conn fd s)) = logic_server_client s"
    "db_server_client (drop_user fd (drop_conn fd s)) = db_server_client s" for fd and s :: "'a GateServer_scheme"
    by (simp_all add: drop_user_def drop_conn_def split: option.split)
  show "center_server_client (drop_clients fds s) = center_server_client s"
    by (induction fds arbitrary: s) (simp_all add: drop_clients_def fields)
  show "logic_server_client (drop_clients fds s) = logic_server_client s"
    by (induction fds arbitrary: s) (simp_all add: drop_clients_def fields)
  show "db_server_client (drop_clients fds s) = db_server_client s"
    by (induction fds arbitrary: s) (simp_all add: drop_clients_def fields)
  show "om_has k (connections (drop_clients fds s)) \<longleftrightarrow>
      om_has k (connections s) \<and> (k \<in> set fds \<longrightarrow> k \<in> server_fds s)"
  proof (induction fds arbitrary: s)
    case (Cons fd fds)
    show ?case using Cons [of s] Cons [of "drop_user fd (drop_conn fd s)"]
      by (cases "fd \<in> server_fds s") (auto simp: drop_clients_def)
  qed (simp add: drop_clients_def)
  show "om_has k (fd_user_record (drop_clients fds s)) \<longleftrightarrow>
      om_has k (fd_user_record s) \<and> (k \<in> set fds \<longrightarrow> k \<in> server_fds s)"
  proof (induction fds arbitrary: s)
    case (Cons fd fds)
    show ?case using Cons [of s] Cons [of "drop_user fd (drop_conn fd s)"]
      by (cases "fd \<in> server_fds s") (auto simp: drop_clients_def)
  qed (simp add: drop_clients_def)
qed

lemma drop_clients_heartbeats:
  "m_user_connections (drop_clients fds s) = m_user_connections s" "gate_clients (drop_clients fds s) = gate_clients s"
proof -
  have fields: "m_user_connections (drop_user fd (drop_conn fd s)) = m_user_connections s"
    "gate_clients (drop_user fd (drop_conn fd s)) = gate_clients s" for fd and s :: "'a GateServer_scheme"
    by (simp_all add: drop_user_def drop_conn_def split: option.split)
  show "m_user_connections (drop_clients fds s) = m_user_connections s"
    by (induction fds arbitrary: s) (simp_all add: drop_clients_def fields)
  show "gate_clients (drop_clients fds s) = gate_clients s"
    by (induction fds arbitrary: s) (simp_all add: drop_clients_def fields)
qed

text \<open>Exactly the users of the dropped connections are forgotten.\<close>

lemma drop_clients_users:
  "om_get (user_fd_record (drop_clients fds s)) u =
     (if \<exists>k\<in>set fds. k \<notin> server_fds s \<and> om_get (fd_user_record s) k = Some u then None
      else om_get (user_fd_record s) u)"
proof (induction fds arbitrary: s)
  case (Cons fd fds)
  show ?case
  proof (cases "fd \<in> server_fds s")
    case True
    then show ?thesis using Cons [of s] by (auto simp: drop_clients_def)
  next
    case False
    let ?s = "drop_user fd (drop_conn fd s)"
    have one: "om_get (user_fd_record ?s) u =
        (if om_get (fd_user_record s) fd = Some u then None else om_get (user_fd_record s) u)"
      by (auto simp: drop_user_def split: option.split)
    have "drop_clients (fd # fds) s = drop_clients fds ?s" using False by (simp add: drop_clients_def)
    then show ?thesis using Cons [of ?s] one False by auto
  qed
qed (simp add: drop_clients_def)

text \<open>The state after the logic server is lost, up to clock and log.\<close>

definition logic_lost :: "'a GateServer_scheme \<Rightarrow> 'a GateServer_scheme" where
  "logic_lost s =
     (let s1 = drop_conn (logic_server_client s) s
      in (drop_clients (om_keys (connections s1)) s1)\<lparr>logic_server_client := -1\<rparr>)"

lemma drop_conn_servers [simp]:
  "center_server_client (drop_conn fd s) = center_server_client s"
  "logic_server_client (drop_conn fd s) = logic_server_client s"
  "db_server_client (drop_conn fd s) = db_server_client s"
  by (simp_all add: drop_conn_def)

lemma Gate_close_logic_state:
  assumes w: "sends_ok w" and wf: "om_wf (connections s)" and fd: "fd = logic_server_client s"
  shows "\<exists>s'. GateServer_CloseClientSocket w fd s = Inr s' \<and> logged (logic_lost s) s'"
proof -
  let ?c = "GateServer_CloseClientSocket w :: 'a GateServer_scheme closer"
  have eq: "GateServer_CloseClientSocket w fd s = GateServer_close_body w ?c fd s"
    unfolding GateServer_CloseClientSocket_def by (rule gc.virtual_close_eq)
  obtain s1 where s1: "ServerBase_CloseClientSocket w ?c fd s = Inr s1" "logged (drop_conn fd s) s1"
    using ServerBase_Close_sends [OF w] by blast
  have conns: "connections s1 = connections (drop_conn fd s)" and server: "logic_server_client s1 = fd"
    using s1(2) fd by (simp_all add: logged_fields drop_conn_def)
  obtain s2 where s2: "DisconnectAllClients ?c s1 = Inr s2"
      "logged (drop_clients (om_keys (connections s1)) s1) s2"
    using DisconnectAllClients_sends [OF w, of s1] wf conns by auto
  let ?s2 = "s2\<lparr>logic_server_client := -1\<rparr>"
  obtain s3 where s3: "GateServer_TryToConnect w ?c ?s2 = Inr s3" "logged ?s2 s3"
    using Gate_TryToConnect_sends [OF w] by blast
  have "GateServer_CloseClientSocket w fd s = Inr s3"
    unfolding eq GateServer_close_body_def using s1(1) s2(1) s3(1) server by simp
  moreover have "logged (drop_clients (om_keys (connections s1)) (drop_conn fd s)) s2"
    using drop_clients_logged [OF s1(2)] s2(2) by (rule logged_trans)
  then have "logged (logic_lost s) ?s2"
    unfolding conns logic_lost_def Let_def fd [symmetric] by (simp add: logged_def)
  ultimately show ?thesis using s3(2) by (blast intro: logged_trans)
qed

lemma Gate_close_logic:
  assumes w: "sends_ok w" and wf: "om_wf (connections s)"
    and fd: "fd = logic_server_client s"
  shows "\<exists>s'. GateServer_CloseClientSocket w fd s = Inr s' \<and> logic_server_client s' = -1 \<and>
     (\<forall>k. om_has k (connections s') \<longleftrightarrow> om_has k (connections s) \<and> k \<noteq> fd \<and>
            (k = center_server_client s \<or> k = db_server_client s)) \<and>
     (\<forall>k. om_has k (connections s) \<longrightarrow> k \<notin> server_fds s \<longrightarrow> \<not> om_has k (fd_user_record s')) \<and>
     (\<forall>u. om_get (user_fd_record s') u =
        (if \<exists>k. om_has k (connections s) \<and> k \<notin> server_fds s \<and> om_get (fd_user_record s) k = Some u then None
         else om_get (user_fd_record s) u)) \<and>
     m_user_connections s' = m_user_connections s \<and> gate_clients s' = gate_clients s"
proof -
  obtain s' where s': "GateServer_CloseClientSocket w fd s = Inr s'" "logged (logic_lost s) s'"
    using Gate_close_logic_state [OF assms] by blast
  have "logic_server_client s' = -1"
    using s'(2) by (simp add: logged_fields logic_lost_def Let_def)
  moreover have "om_has k (connections s') \<longleftrightarrow> om_has k (connections s) \<and> k \<noteq> fd \<and>
      (k = center_server_client s \<or> k = db_server_client s)" for k
    using s'(2) fd
    by (auto simp: logged_fields logic_lost_def Let_def drop_clients_fields om_has_keys [symmetric]
        server_fds_def simp del: set_om_keys)
  moreover have "\<not> om_has k (fd_user_record s')" if "om_has k (connections s)" "k \<notin> server_fds s" for k
    using s'(2) that fd
    by (auto simp: logged_fields logic_lost_def Let_def drop_clients_fields om_has_keys [symmetric]
        server_fds_def simp del: set_om_keys)
  moreover have "om_get (user_fd_record s') u =
      (if \<exists>k. om_has k (connections s) \<and> k \<notin> server_fds s \<and> om_get (fd_user_record s) k = Some u then None
       else om_get (user_fd_record s) u)" for u
    using s'(2) by (auto simp: logged_fields logic_lost_def Let_def drop_clients_users om_has_keys [symmetric]
        server_fds_def simp del: set_om_keys)
  moreover have "m_user_connections s' = m_user_connections s" "gate_clients s' = gate_clients s"
    using s'(2) by (simp_all add: logged_fields logic_lost_def Let_def drop_clients_heartbeats drop_conn_def)
  ultimately show ?thesis using s'(1) by blast
qed

text \<open>Every connection that goes counts, the one to the logic server too.\<close>

lemma drop_clients_count:
  "distinct ks \<Longrightarrow> \<forall>k\<in>set ks. om_has k (connections s) \<Longrightarrow>
     conns_count (drop_clients ks s) = conns_count s - int (length (filter (\<lambda>k. k \<notin> server_fds s) ks))"
proof (induction ks arbitrary: s)
  case (Cons k ks)
  let ?s = "drop_user k (drop_conn k s)"
  have "conns_count ?s = conns_count s - 1"
    using Cons.prems by (simp add: drop_user_def drop_conn_def split: option.split)
  moreover have "\<forall>j\<in>set ks. om_has j (connections ?s)"
    using Cons.prems by auto
  ultimately show ?case
    using Cons.prems Cons.IH [of s] Cons.IH [of ?s] by (simp add: drop_clients_def)
qed (simp add: drop_clients_def)

lemma logic_lost_count:
  assumes wf: "om_wf (connections s)" and has: "om_has (logic_server_client s) (connections s)"
  shows "conns_count (logic_lost s) =
     conns_count s - 1 - int (length (filter (\<lambda>k. k \<notin> server_fds s) (om_keys (connections s))))"
proof -
  let ?fd = "logic_server_client s"
  let ?s = "drop_conn ?fd s"
  have d: "distinct (om_keys (connections ?s))" "\<forall>k\<in>set (om_keys (connections ?s)). om_has k (connections ?s)"
    using om_wf_distinct [OF om_wf_del [OF wf]] by (simp_all add: om_keys_def om_has_keys del: set_om_keys)
  have "filter (\<lambda>k. k \<notin> server_fds ?s) (om_keys (connections ?s)) =
      filter (\<lambda>k. k \<notin> server_fds s) (om_keys (connections s))"
    by (simp add: os_del_def) (auto simp: server_fds_def intro: filter_cong)
  moreover have "conns_count ?s = conns_count s - 1"
    using has by (simp add: drop_conn_def)
  ultimately show ?thesis
    using drop_clients_count [OF d] by (simp add: logic_lost_def Let_def)
qed

end
