(* ===== verification/Gate_Messages.thy ===== *)
theory Gate_Messages
  imports Gate_Users
begin

text \<open>
  What the gate makes of a message: the login that binds a user to a connection, the check that
  a client only speaks for itself and what gets around it, and the heartbeat table.
\<close>

section \<open>Login\<close>

lemma Gate_SendMsg_sends:
  assumes "sends_ok w"
  shows "\<exists>s'. Gate_SendMsg w msg fd s = Inr s' \<and> logged s s'"
  unfolding Gate_SendMsg_def
  using SendMsg_sends [OF assms, of "GateServer_CloseClientSocket w" msg fd s] by auto

text \<open>The old connection of the user, if there is one, is closed.\<close>

definition old_closed :: "int \<Rightarrow> 'a GateServer_scheme \<Rightarrow> 'a GateServer_scheme" where
  "old_closed u s =
     (case om_get (user_fd_record s) u of None \<Rightarrow> s | Some fd \<Rightarrow> drop_user fd (drop_conn fd s))"

lemma Gate_login:
  assumes w: "sends_ok w" and b: "msg_object msg = Some (B_LoginResponse b)" "lp_result b"
    and old: "\<And>fd. om_get (user_fd_record s) (lp_userid b) = Some fd \<Longrightarrow>
                 fd \<noteq> logic_server_client s \<and> fd \<noteq> db_server_client s"
  defines "u \<equiv> lp_userid b" and "fd \<equiv> m_userid (m_head msg)"
  shows "\<exists>s'. Gate_LoginResponse w msg s = Inr s' \<and>
     logged ((old_closed u s)\<lparr>user_fd_record := om_upd u fd (user_fd_record (old_closed u s)),
                             fd_user_record := om_upd fd u (fd_user_record (old_closed u s))\<rparr>) s'"
proof -
  let ?close = "case om_get (user_fd_record s) u of None \<Rightarrow> Inr s
     | Some fd \<Rightarrow> GateServer_CloseClientSocket w fd s"
  obtain s1 where s1: "?close = Inr s1" "logged (old_closed u s) s1"
  proof (cases "om_get (user_fd_record s) u")
    case None
    then show ?thesis using that [of s] by (simp add: old_closed_def)
  next
    case (Some f)
    then show ?thesis
      using that Gate_close_client [OF w, of f s] old by (auto simp: old_closed_def u_def)
  qed
  let ?s1 = "s1\<lparr>user_fd_record := om_upd u fd (user_fd_record s1),
                fd_user_record := om_upd fd u (fd_user_record s1)\<rparr>"
  let ?t = "(old_closed u s)\<lparr>user_fd_record := om_upd u fd (user_fd_record (old_closed u s)),
                             fd_user_record := om_upd fd u (fd_user_record (old_closed u s))\<rparr>"
  have t: "logged ?t ?s1" using s1(2) by (simp add: logged_def)
  obtain s2 where s2: "to_logic w (set_userid u msg) ?s1 = Inr s2" "logged ?s1 s2"
    using Gate_SendMsg_sends [OF w] unfolding to_logic_def by blast
  obtain s3 where s3: "Gate_SendMsg w (set_userid u msg) fd s2 = Inr s3" "logged s2 s3"
    using Gate_SendMsg_sends [OF w] by blast
  have "Gate_LoginResponse w msg s = Inr s3"
    using b s1(1) s2(1) s3(1) by (simp add: Gate_LoginResponse_def Let_def u_def fd_def)
  moreover have "logged ?t s3"
    using t s2(2) s3(2) by (blast intro: logged_trans)
  ultimately show ?thesis by blast
qed

lemma old_closed_conns:
  "om_get (user_fd_record s) u = Some fd \<Longrightarrow> connections (old_closed u s) = om_del fd (connections s)"
  "om_get (user_fd_record s) u = None \<Longrightarrow> old_closed u s = s"
  by (simp_all add: old_closed_def)

section \<open>Whose message\<close>

text \<open>The common part of the handler, for a type the base class does not act on.\<close>

lemma Gate_handler_plain:
  assumes base: "ServerBase_OnMsgBodyAnalysised w m body len = Inr msg"
    and ty: "m_packageType (m_head msg) \<noteq> bodytype_code ServerInfo"
      "m_packageType (m_head msg) \<noteq> bodytype_code UserInfo"
    and test: "\<not> PRESSURE_TEST (w_cfg w)"
  shows "GateServer_OnMsgBodyAnalysised w m body len fd s =
     (if fst (CheckMessageValid msg fd s)
      then Gate_dispatch w (trusted_userid fd msg (snd (CheckMessageValid msg fd s))) fd
             (snd (CheckMessageValid msg fd s))
      else Inr (snd (CheckMessageValid msg fd s)))"
  using assms
  by (simp add: GateServer_OnMsgBodyAnalysised_def FuncServer_OnMsgBodyAnalysised_def case_prod_beta)

lemma CheckMessageValid_client:
  assumes "\<not> is_server_fd fd s"
  shows "fst (CheckMessageValid msg fd s) \<longleftrightarrow>
     (if m_userid (m_head msg) = 0
      then m_packageType (m_head msg) \<in> {bodytype_code LoginRequest, bodytype_code RegistRequest}
      else fd = om_at 0 (user_fd_record s) (m_userid (m_head msg)))"
    "fd_user_record (snd (CheckMessageValid msg fd s)) = fd_user_record s"
    "logic_server_client (snd (CheckMessageValid msg fd s)) = logic_server_client s"
  using assms by (auto simp: CheckMessageValid_def Let_def simp del: bodytype_code.simps)

text \<open>A logged-in client speaks for the user its connection is bound to, whatever id it writes.\<close>

lemma Gate_forwards_as_owner:
  assumes base: "ServerBase_OnMsgBodyAnalysised w m body len = Inr msg"
    and ty: "m_packageType (m_head msg) = bodytype_code ty" "ty \<in> {ChangeRole, JoinGame, QuitGame, UserOperate}"
    and test: "\<not> PRESSURE_TEST (w_cfg w)"
    and fd: "\<not> is_server_fd fd s" "om_get (fd_user_record s) fd = Some u"
  shows "GateServer_OnMsgBodyAnalysised w m body len fd s =
     (if fst (CheckMessageValid msg fd s)
      then Gate_SendMsg w (set_userid u msg) (logic_server_client s) (snd (CheckMessageValid msg fd s))
      else Inr (snd (CheckMessageValid msg fd s)))"
proof -
  have ne: "m_packageType (m_head msg) \<noteq> bodytype_code ServerInfo"
      "m_packageType (m_head msg) \<noteq> bodytype_code UserInfo"
    using ty by auto
  have code: "bodytype_of (m_packageType (m_head msg)) = Some ty"
    using ty(1) by (simp del: bodytype_code.simps)
  have disp: "Gate_dispatch w (set_userid u msg) fd t = to_logic w (set_userid u msg) t" for t
    using ty(2) code by (auto simp: Gate_dispatch_def set_userid_def)
  have user: "trusted_userid fd msg (snd (CheckMessageValid msg fd s)) = set_userid u msg"
    using CheckMessageValid_client(2) [OF fd(1), of msg] fd(2) by (simp add: trusted_userid_def)
  show ?thesis
    unfolding Gate_handler_plain [OF base ne test] user disp to_logic_def
      CheckMessageValid_client(3) [OF fd(1)] by (rule refl)
qed

text \<open>A \<open>UserInfo\<close> message is acted on by the base class before the check, whoever sent it.\<close>

lemma Gate_UserInfo_unchecked:
  assumes base: "ServerBase_OnMsgBodyAnalysised w m body len = Inr msg"
    and ty: "m_packageType (m_head msg) = bodytype_code UserInfo"
    and b: "msg_object msg = Some (B_UserInfo b)" "us_opt b = User_Register"
  shows "\<exists>s'. GateServer_OnMsgBodyAnalysised w m body len fd s = Inr s' \<and>
     user_fd_record s' = om_upd (m_userid (m_head msg)) (us_fd b) (user_fd_record s) \<and>
     fd_user_record s' = fd_user_record s \<and>
     logic_server_client s' = logic_server_client s \<and> db_server_client s' = db_server_client s \<and>
     center_server_client s' = center_server_client s"
proof -
  have code: "bodytype_of (bodytype_code UserInfo) = Some UserInfo"
    by (simp del: bodytype_code.simps)
  let ?s = "s\<lparr>user_fd_record := om_upd (m_userid (m_head msg)) (us_fd b) (user_fd_record s)\<rparr>"
  have func: "FuncServer_OnMsgBodyAnalysised w (GateServer_CloseClientSocket w) m body len fd s =
      Inr (msg, ?s)"
    using base ty b by (simp add: FuncServer_OnMsgBodyAnalysised_def FuncServer_HandleUserInfo_def)
  have disp: "Gate_dispatch w (trusted_userid fd msg t) fd t = Inr t" for t
    using ty code by (simp add: Gate_dispatch_def trusted_userid_def set_userid_def del: bodytype_code.simps
        split: option.split)
  have "snd (CheckMessageValid msg fd ?s) = ?s"
    by (simp add: CheckMessageValid_def Let_def)
  then have "GateServer_OnMsgBodyAnalysised w m body len fd s = Inr ?s"
    unfolding GateServer_OnMsgBodyAnalysised_def func by (simp add: disp case_prod_beta)
  then show ?thesis by simp
qed

text \<open>So a connection that never logged in is then heard in the name of any user: the first message
  binds the user to it, the second passes the check and is forwarded with the user's id.\<close>

lemma Gate_hijack:
  assumes m1: "ServerBase_OnMsgBodyAnalysised w m1 body1 len1 = Inr msg1"
      "m_packageType (m_head msg1) = bodytype_code UserInfo" "msg_object msg1 = Some (B_UserInfo b)"
      "us_opt b = User_Register" "us_fd b = fd" "m_userid (m_head msg1) = u" "u \<noteq> 0"
    and m2: "ServerBase_OnMsgBodyAnalysised w m2 body2 len2 = Inr msg2"
      "m_packageType (m_head msg2) = bodytype_code ty" "ty \<in> {ChangeRole, JoinGame, QuitGame, UserOperate}"
      "m_userid (m_head msg2) = u"
    and test: "\<not> PRESSURE_TEST (w_cfg w)"
    and fd: "\<not> is_server_fd fd s" "om_get (fd_user_record s) fd = None"
  shows "\<exists>s1. GateServer_OnMsgBodyAnalysised w m1 body1 len1 fd s = Inr s1 \<and>
     GateServer_OnMsgBodyAnalysised w m2 body2 len2 fd s1 = Gate_SendMsg w msg2 (logic_server_client s) s1"
proof -
  obtain s1 where s1: "GateServer_OnMsgBodyAnalysised w m1 body1 len1 fd s = Inr s1"
      "user_fd_record s1 = om_upd u fd (user_fd_record s)" "fd_user_record s1 = fd_user_record s"
      "logic_server_client s1 = logic_server_client s" "db_server_client s1 = db_server_client s"
      "center_server_client s1 = center_server_client s"
    using Gate_UserInfo_unchecked [OF m1(1-4), of fd s] m1(5,6) by auto
  have ne: "m_packageType (m_head msg2) \<noteq> bodytype_code ServerInfo"
      "m_packageType (m_head msg2) \<noteq> bodytype_code UserInfo"
    using m2(2,3) by auto
  have code: "bodytype_of (m_packageType (m_head msg2)) = Some ty"
    using m2(2) by (simp del: bodytype_code.simps)
  have disp: "Gate_dispatch w msg2 fd s1 = to_logic w msg2 s1"
    using m2(3) code by (auto simp: Gate_dispatch_def)
  have "\<not> is_server_fd fd s1" using fd(1) s1 by (simp add: is_server_fd_def)
  then have "CheckMessageValid msg2 fd s1 = (True, s1)"
    using m2(4) m1(7) s1(2) by (simp add: CheckMessageValid_def Let_def)
  then have "GateServer_OnMsgBodyAnalysised w m2 body2 len2 fd s1 = Gate_SendMsg w msg2 (logic_server_client s) s1"
    using Gate_handler_plain [OF m2(1) ne test, of fd s1] fd(2) s1(3,4) disp
    by (simp add: trusted_userid_def to_logic_def)
  then show ?thesis using s1(1) by blast
qed

section \<open>Heartbeats\<close>

lemma heartbeat_null:
  assumes "first_key (m_user_connections s) = Some k" "om_get (m_user_connections s) k = Some 0"
  shows "CheckAllClientConn w s = Inl NullDeref"
  using assms by (simp add: CheckAllClientConn_def getCurrentTime_def io_tick_def deref_client_def)

text \<open>One client, whose last heartbeat is too long ago.\<close>

lemma heartbeat_expired:
  assumes conns: "m_user_connections s = [(u, p)]" and p: "om_get (gate_clients s) p = Some c" "p \<noteq> 0"
    and late: "os_time (w_os w) (io_clock s) - ci_lstMs c > MAX_HEARTBEAT_DIFF (w_cfg w)"
    and close: "GateServer_CloseClientSocket w (ci_fd c) (io_tick s) = Inr s1"
  shows "ci_fd c = u \<Longrightarrow> \<exists>s'. CheckAllClientConn w s = Inr s' \<and>
       m_user_connections s' = [] \<and> \<not> om_has p (gate_clients s')"
    "u < ci_fd c \<Longrightarrow> CheckAllClientConn w s = Inl NullDeref"
    "ci_fd c < u \<Longrightarrow> \<exists>s'. CheckAllClientConn w s = Inr s' \<and>
       m_user_connections s' = [(ci_fd c, 0)] \<and> CheckAllClientConn w s' = Inl NullDeref"
proof -
  have kept: "m_user_connections s1 = [(u, p)]" "gate_clients s1 = gate_clients s"
    using Gate_Close_kept [OF close] conns by (simp_all add: gate_kept_def io_tick_def)
  have get: "deref_client p (io_tick s) = Inr c" "deref_client p s1 = Inr c"
    using p kept by (simp_all add: deref_client_def io_tick_def)
  let ?s2 = "s1\<lparr>m_user_connections := om_touch 0 (ci_fd c) [(u, p)]\<rparr>"
  have start: "CheckAllClientConn w s =
      bindF (expire_client w u p (io_tick s)) (\<lambda>s1. heartbeat_loop 1 w (os_time (w_os w) (io_clock s))
        (next_key u (m_user_connections s1)) s1)"
    using conns late get(1)
    by (simp add: CheckAllClientConn_def getCurrentTime_def first_key_def io_tick_def)
  have expire: "expire_client w u p (io_tick s) =
      bindF (delete_client (om_at 0 [(u, p)] (ci_fd c)) ?s2) (\<lambda>s3.
        Inr (s3\<lparr>m_user_connections := om_del u (m_user_connections s3)\<rparr>))"
    using get close kept by (simp add: expire_client_def Let_def)
  have live: "om_has p (gate_clients s1)"
    using kept(2) p(1) by (simp add: om_has_def)
  show "\<exists>s'. CheckAllClientConn w s = Inr s' \<and> m_user_connections s' = [] \<and> \<not> om_has p (gate_clients s')"
    if "ci_fd c = u"
  proof -
    have "om_touch 0 u [(u, p)] = [(u, p)]" "om_del u [(u, p)] = []"
      by (simp_all add: om_has_def om_del_def)
    then show ?thesis
      using that p(2) live by (simp add: start expire om_at_def delete_client_def next_key_def)
  qed
  have null: "delete_client (om_at 0 [(u, p)] (ci_fd c)) ?s2 = Inr ?s2" if "ci_fd c \<noteq> u"
    using that by (simp add: om_at_def delete_client_def)
  have rest: "om_del u (om_touch 0 (ci_fd c) [(u, p)]) = [(ci_fd c, 0)]" if "ci_fd c \<noteq> u"
    using that by (auto simp: om_touch_def om_has_def om_del_def)
  show "CheckAllClientConn w s = Inl NullDeref" if "u < ci_fd c"
    using that null rest
    by (simp add: start expire next_key_def deref_client_def del: om_at_touch)
  show "\<exists>s'. CheckAllClientConn w s = Inr s' \<and> m_user_connections s' = [(ci_fd c, 0)] \<and>
      CheckAllClientConn w s' = Inl NullDeref" if "ci_fd c < u"
  proof -
    let ?t = "?s2\<lparr>m_user_connections := [(ci_fd c, 0)]\<rparr>"
    have "first_key (m_user_connections ?t) = Some (ci_fd c)" "om_get (m_user_connections ?t) (ci_fd c) = Some 0"
      by (simp_all add: first_key_def)
    then have "CheckAllClientConn w ?t = Inl NullDeref" by (rule heartbeat_null)
    moreover have "CheckAllClientConn w s = Inr ?t"
      using that null rest by (simp add: start expire next_key_def)
    ultimately show ?thesis by (intro exI [of _ ?t]) simp
  qed
qed

end
