(* ===== verification/Gate_Properties.thy ===== *)
theory Gate_Properties
  imports Gate_Messages Example_World
begin

text \<open>
  What the gate promises its clients and the servers behind it, with applications to a gate where
  user 5 is logged in on connection 7, a stranger is on connection 8, and 10, 11 and 12 lead to
  the center, logic and database servers.
\<close>

definition plug :: "nat \<Rightarrow> nat \<times> RingBuffer" where
  "plug i = (i, RingBuffer_new example_cfg)"

definition gate :: GateServer where
  "gate = (GateServer_new example_cfg)\<lparr>
     connections := [(7, plug 0), (8, plug 1), (10, plug 2), (11, plug 3), (12, plug 4)],
     center_server_client := 10, logic_server_client := 11, db_server_client := 12,
     user_fd_record := [(5, 7)], fd_user_record := [(7, 5)],
     m_user_connections := [(5, 1)], gate_clients := [(1, \<lparr>ci_userid = 5, ci_fd = 7, ci_lstMs = 1000\<rparr>)],
     next_client := 2, conns_count := 2\<rparr>"

lemma gate_fields [simp]:
  "connections gate = [(7, plug 0), (8, plug 1), (10, plug 2), (11, plug 3), (12, plug 4)]"
  "conns_count gate = 2" "center_server_client gate = 10" "logic_server_client gate = 11" "db_server_client gate = 12"
  "user_fd_record gate = [(5, 7)]" "fd_user_record gate = [(7, 5)]" "m_user_connections gate = [(5, 1)]"
  "gate_clients gate = [(1, \<lparr>ci_userid = 5, ci_fd = 7, ci_lstMs = 1000\<rparr>)]"
  by (simp_all add: gate_def)

lemma gate_untouched: "gate\<lparr>user_fd_record := [(5, 7)]\<rparr> = gate"
  by (simp add: gate_def)

lemma example_sends [simp]: "sends_ok example_world"
  by (simp add: sends_ok_def)

definition told :: "BODYTYPE \<Rightarrow> int \<Rightarrow> Message" where
  "told ty u = \<lparr>m_head = \<lparr>m_packageSize = 12, m_packageType = bodytype_code ty, m_userid = u\<rparr>, m_body = None\<rparr>"

section \<open>Login and logout\<close>

text \<open>After a successful login response the user is bound to the connection the response names, in
  both directions, and the connection the user was bound to before is closed, even when it is the
  same one.\<close>

theorem login_binds:
  assumes "sends_ok w" "msg_object msg = Some (B_LoginResponse b)" "lp_result b"
    and "\<forall>fd. om_get (user_fd_record s) (lp_userid b) = Some fd \<longrightarrow>
           fd \<noteq> logic_server_client s \<and> fd \<noteq> db_server_client s"
  shows "\<exists>s'. Gate_LoginResponse w msg s = Inr s' \<and>
     om_get (user_fd_record s') (lp_userid b) = Some (m_userid (m_head msg)) \<and>
     om_get (fd_user_record s') (m_userid (m_head msg)) = Some (lp_userid b) \<and>
     connections s' = (case om_get (user_fd_record s) (lp_userid b) of
         None \<Rightarrow> connections s | Some fd \<Rightarrow> om_del fd (connections s))"
proof -
  let ?old = "old_closed (lp_userid b) s"
  obtain s' where s': "Gate_LoginResponse w msg s = Inr s'"
    "logged (?old\<lparr>user_fd_record := om_upd (lp_userid b) (m_userid (m_head msg)) (user_fd_record ?old),
        fd_user_record := om_upd (m_userid (m_head msg)) (lp_userid b) (fd_user_record ?old)\<rparr>) s'"
    using Gate_login [OF assms(1-3), of s] assms(4) by blast
  have "connections s' = connections ?old" using s'(2) by (simp add: logged_def)
  then show ?thesis
    using s' old_closed_conns [of s "lp_userid b"]
    by (auto simp: logged_def split: option.split)
qed

definition login_ok :: "int \<Rightarrow> int \<Rightarrow> Message" where
  "login_ok u fd = \<lparr>m_head = \<lparr>m_packageSize = 12, m_packageType = bodytype_code LoginResponse, m_userid = fd\<rparr>,
     m_body = Some (Some (B_LoginResponse (new_LoginResponse\<lparr>lp_result := True, lp_userid := u\<rparr>)))\<rparr>"

text \<open>5 logs in again on connection 8; connection 7 goes.\<close>

theorem login_binds_witness:
  "\<exists>s'. Gate_LoginResponse example_world (login_ok 5 8) gate = Inr s' \<and>
     om_get (user_fd_record s') 5 = Some 8 \<and> \<not> om_has 7 (connections s')"
  using login_binds [of example_world "login_ok 5 8" "new_LoginResponse\<lparr>lp_result := True, lp_userid := 5\<rparr>" gate]
  by (auto simp: login_ok_def msg_object_def)



text \<open>The gate counts the clients it accepts up and every connection it closes down, the one to the
  logic server too. So once that one is lost the count is -1, and the next report to the center
  runs off the end of the function that turns the count into a load level.\<close>

theorem gate_count_underflows:
  assumes "sends_ok w" "0 < w_retries w" "om_wf (connections s)"
    and "om_has (logic_server_client s) (connections s)"
    and "conns_count s = int (length (filter
           (\<lambda>k. k \<notin> {center_server_client s, logic_server_client s, db_server_client s}) (om_keys (connections s))))"
  shows "\<exists>s'. GateServer_CloseClientSocket w (logic_server_client s) s = Inr s' \<and> conns_count s' = -1 \<and>
     GateServer_callback w FuncServer_SendSelfInfoToCenter s' = Inl MissingReturn"
proof -
  obtain s' where s': "GateServer_CloseClientSocket w (logic_server_client s) s = Inr s'" "logged (logic_lost s) s'"
    using Gate_close_logic_state [OF assms(1,3) refl] by blast
  have "conns_count s' = -1"
    using s'(2) logic_lost_count [OF assms(3,4)] assms(5) by (simp add: logged_def server_fds_def)
  moreover from this have "GateServer_callback w FuncServer_SendSelfInfoToCenter s' = Inl MissingReturn"
    using assms(2) by (cases "w_retries w") (simp_all add: DynamicCalcServerFreeLevel_def)
  ultimately show ?thesis using s'(1) by blast
qed

theorem gate_count_underflows_witness:
  "\<exists>s'. GateServer_CloseClientSocket example_world 11 gate = Inr s' \<and>
     GateServer_callback example_world FuncServer_SendSelfInfoToCenter s' = Inl MissingReturn"
proof -
  have wf: "om_wf (connections gate)" "om_has (logic_server_client gate) (connections gate)"
    by (simp_all add: om_wf_def om_has_def)
  have "conns_count gate = int (length (filter
      (\<lambda>k. k \<notin> {center_server_client gate, logic_server_client gate, db_server_client gate}) (om_keys (connections gate))))"
    by (simp add: om_keys_def)
  from gate_count_underflows [OF example_sends _ wf this] show ?thesis
    unfolding gate_fields by auto
qed

section \<open>Who may speak for whom\<close>


lemma told_parsed:
  assumes "body_prototype ty = Some b"
  shows "ServerBase_OnMsgBodyAnalysised example_world (told ty u) [] 0 =
     Inr \<lparr>m_head = \<lparr>m_packageSize = 12, m_packageType = bodytype_code ty, m_userid = u\<rparr>, m_body = Some (Some b)\<rparr>"
  using assms CreateMessageBody_code [of ty] unfolding told_def
  by (intro parse_empty [where p = b]) (simp_all add: example_pb_def)

definition quitting :: "int \<Rightarrow> Message" where
  "quitting u = \<lparr>m_head = \<lparr>m_packageSize = 12, m_packageType = bodytype_code QuitGame, m_userid = u\<rparr>,
     m_body = Some (Some (B_QuitGame new_QuitGame))\<rparr>"


text \<open>What a logged-in client sends to the game goes to the logic server in the name of the user its
  connection is bound to, whatever id the client wrote, if the check lets it through at all.\<close>

theorem client_speaks_for_itself:
  assumes "ServerBase_OnMsgBodyAnalysised w m body len = Inr msg"
    and "m_packageType (m_head msg) = bodytype_code ty" "ty \<in> {ChangeRole, JoinGame, QuitGame, UserOperate}"
    and "\<not> PRESSURE_TEST (w_cfg w)"
    and "fd \<notin> {center_server_client s, logic_server_client s, db_server_client s}"
    and "om_get (fd_user_record s) fd = Some u"
  shows "GateServer_OnMsgBodyAnalysised w m body len fd s =
     (if fst (CheckMessageValid msg fd s)
      then Gate_SendMsg w (set_userid u msg) (logic_server_client s) (snd (CheckMessageValid msg fd s))
      else Inr (snd (CheckMessageValid msg fd s)))"
  using assms by (intro Gate_forwards_as_owner) (simp_all add: is_server_fd_def)

theorem client_speaks_for_itself_witness:
  "GateServer_OnMsgBodyAnalysised example_world (told QuitGame 5) [] 0 7 gate =
     Gate_SendMsg example_world (set_userid 5 (quitting 5)) 11 gate"
  using client_speaks_for_itself [OF told_parsed [of QuitGame "B_QuitGame new_QuitGame" 5], of QuitGame 7 gate 5]
  by (simp add: CheckMessageValid_def is_server_fd_def om_at_def om_touch_def om_has_def gate_untouched quitting_def)


text \<open>C28: but a \<open>UserInfo\<close> message is acted on before the check. A connection that never logged in and
  registers itself for a user this way is then heard as that user: its next message goes to the
  logic server under the user's id.\<close>

theorem user_info_hijacks:
  assumes "ServerBase_OnMsgBodyAnalysised w m1 body1 len1 = Inr msg1"
    and "m_packageType (m_head msg1) = bodytype_code UserInfo" "m_userid (m_head msg1) = u" "u \<noteq> 0"
    and "msg_object msg1 = Some (B_UserInfo b)" "us_opt b = User_Register" "us_fd b = fd"
    and "ServerBase_OnMsgBodyAnalysised w m2 body2 len2 = Inr msg2"
    and "m_packageType (m_head msg2) = bodytype_code ty" "ty \<in> {ChangeRole, JoinGame, QuitGame, UserOperate}"
    and "m_userid (m_head msg2) = u" "\<not> PRESSURE_TEST (w_cfg w)"
    and "fd \<notin> {center_server_client s, logic_server_client s, db_server_client s}"
    and "om_get (fd_user_record s) fd = None"
  shows "\<exists>s1. GateServer_OnMsgBodyAnalysised w m1 body1 len1 fd s = Inr s1 \<and>
     GateServer_OnMsgBodyAnalysised w m2 body2 len2 fd s1 = Gate_SendMsg w msg2 (logic_server_client s) s1"
  using assms by (intro Gate_hijack) (simp_all add: is_server_fd_def)

definition spy_world :: world where
  "spy_world = example_world\<lparr>w_pb := \<lparr>pb_enc = (\<lambda>b. []),
     pb_dec = (\<lambda>p bs. (True, case p of B_UserInfo b \<Rightarrow> B_UserInfo (b\<lparr>us_fd := 8\<rparr>) | _ \<Rightarrow> p))\<rparr>\<rparr>"

theorem user_info_hijacks_witness:
  "\<exists>s1. GateServer_OnMsgBodyAnalysised spy_world (told UserInfo 5) [] 0 8 gate = Inr s1 \<and>
     GateServer_OnMsgBodyAnalysised spy_world (told QuitGame 5) [] 0 8 s1 = Gate_SendMsg spy_world (quitting 5) 11 s1"
proof -
  have 1: "ServerBase_OnMsgBodyAnalysised spy_world (told UserInfo 5) [] 0 =
      Inr \<lparr>m_head = \<lparr>m_packageSize = 12, m_packageType = bodytype_code UserInfo, m_userid = 5\<rparr>,
        m_body = Some (Some (B_UserInfo (new_UserInfo\<lparr>us_fd := 8\<rparr>)))\<rparr>"
    unfolding told_def using CreateMessageBody_code [of UserInfo]
    by (intro parse_empty [where p = "B_UserInfo new_UserInfo"]) (simp_all add: spy_world_def)
  have 2: "ServerBase_OnMsgBodyAnalysised spy_world (told QuitGame 5) [] 0 =
      Inr (quitting 5)"
    unfolding told_def quitting_def using CreateMessageBody_code [of QuitGame]
    by (intro parse_empty [where p = "B_QuitGame new_QuitGame"]) (simp_all add: spy_world_def)
  have "w_cfg spy_world = example_cfg" by (simp add: spy_world_def)
  then show ?thesis
    using user_info_hijacks [OF 1, where u = 5 and fd = 8 and b = "new_UserInfo\<lparr>us_fd := 8\<rparr>" and ty = QuitGame and s = gate, OF _ _ _ _ _ _ 2]
    by (auto simp: msg_object_def new_UserInfo_def quitting_def)
qed

text \<open>C27: any client that is logged in can log out any other user. The gate takes a \<open>LoginResponse\<close> from a client as
  it takes one from the database server: it closes the connection of the user the message names and binds that user, in
  both directions, to the connection whose number is the sender's user id.\<close>

theorem spoofed_login:
  assumes "sends_ok w" "\<not> PRESSURE_TEST (w_cfg w)" "ServerBase_OnMsgBodyAnalysised w m body len = Inr msg"
    and "m_packageType (m_head msg) = bodytype_code LoginResponse" "m_userid (m_head msg) = u" "u \<noteq> 0"
    and "msg_object msg = Some (B_LoginResponse b)" "lp_result b"
    and "fd \<notin> {center_server_client s, logic_server_client s, db_server_client s}"
    and "om_get (user_fd_record s) u = Some fd" "om_get (fd_user_record s) fd = Some u"
    and "om_get (user_fd_record s) (lp_userid b) = Some victim" "victim \<notin> {logic_server_client s, db_server_client s}"
  shows "\<exists>s'. GateServer_OnMsgBodyAnalysised w m body len fd s = Inr s' \<and>
     connections s' = om_del victim (connections s) \<and>
     om_get (user_fd_record s') (lp_userid b) = Some u \<and> om_get (fd_user_record s') u = Some (lp_userid b)"
proof -
  have "\<not> is_server_fd fd s" using assms(9) by (simp add: is_server_fd_def)
  then have valid: "CheckMessageValid msg fd s = (True, s)"
    using assms(5,6,10) by (auto simp: CheckMessageValid_def om_at_def om_has_def)
  have "set_userid u msg = msg" using assms(5) by (cases msg) (auto simp: set_userid_def)
  then have trusted: "trusted_userid fd msg s = msg" using assms(11) by (simp add: trusted_userid_def)
  have ty: "m_packageType (m_head msg) \<noteq> bodytype_code ServerInfo" "m_packageType (m_head msg) \<noteq> bodytype_code UserInfo"
    using assms(4) by auto
  have "bodytype_of (m_packageType (m_head msg)) = Some LoginResponse"
    using assms(4) by (simp del: bodytype_code.simps)
  then have "GateServer_OnMsgBodyAnalysised w m body len fd s = Gate_LoginResponse w msg s"
    using Gate_handler_plain [OF assms(3) ty assms(2), of fd s] by (simp add: valid trusted Gate_dispatch_def)
  moreover have "\<forall>old. om_get (user_fd_record s) (lp_userid b) = Some old \<longrightarrow>
      old \<noteq> logic_server_client s \<and> old \<noteq> db_server_client s"
    using assms(12,13) by simp
  note login_binds [OF assms(1,7,8) this, unfolded assms(5,12) option.case]
  ultimately show ?thesis by auto
qed

text \<open>User 5 throws user 6 off connection 8.\<close>

definition spoof_world :: world where
  "spoof_world = example_world\<lparr>w_pb := \<lparr>pb_enc = (\<lambda>b. []),
     pb_dec = (\<lambda>p bs. (True, B_LoginResponse (new_LoginResponse\<lparr>lp_result := True, lp_userid := 6\<rparr>)))\<rparr>\<rparr>"

theorem spoofed_login_witness:
  "\<exists>s'. GateServer_OnMsgBodyAnalysised spoof_world (told LoginResponse 5) [] 0 7
       (gate\<lparr>user_fd_record := [(5, 7), (6, 8)], fd_user_record := [(7, 5), (8, 6)]\<rparr>) = Inr s' \<and> \<not> om_has 8 (connections s')"
proof -
  let ?b = "new_LoginResponse\<lparr>lp_result := True, lp_userid := 6\<rparr>"
  have parsed: "ServerBase_OnMsgBodyAnalysised spoof_world (told LoginResponse 5) [] 0 =
      Inr \<lparr>m_head = \<lparr>m_packageSize = 12, m_packageType = bodytype_code LoginResponse, m_userid = 5\<rparr>, m_body = Some (Some (B_LoginResponse ?b))\<rparr>"
    unfolding told_def using CreateMessageBody_code [of LoginResponse]
    by (intro parse_empty [where p = "B_LoginResponse new_LoginResponse"]) (simp_all add: spoof_world_def)
  have w: "sends_ok spoof_world" "w_cfg spoof_world = example_cfg"
    by (simp_all add: sends_ok_def spoof_world_def)
  show ?thesis
    using spoofed_login [OF w(1) _ parsed, where u = 5 and b = ?b and fd = 7 and victim = 8 and
        s = "gate\<lparr>user_fd_record := [(5, 7), (6, 8)], fd_user_record := [(7, 5), (8, 6)]\<rparr>"] w(2)
    by (auto simp: msg_object_def om_has_def)
qed

section \<open>Heartbeats\<close>

text \<open>The table of heartbeats is kept by user and read by connection. When the only entry has
  expired, its connection is closed and the entry deleted if the two numbers happen to agree;
  otherwise a null entry is left, and the loop or the next round dereferences it.\<close>

theorem heartbeat_expiry:
  assumes "m_user_connections s = [(u, p)]" "om_get (gate_clients s) p = Some c" "p \<noteq> 0"
    and "os_time (w_os w) (io_clock s) - ci_lstMs c > MAX_HEARTBEAT_DIFF (w_cfg w)"
    and "GateServer_CloseClientSocket w (ci_fd c) (io_tick s) = Inr s1"
  shows "if u < ci_fd c then CheckAllClientConn w s = Inl NullDeref
     else \<exists>s'. CheckAllClientConn w s = Inr s' \<and>
       (if ci_fd c = u then m_user_connections s' = [] \<and> \<not> om_has p (gate_clients s')
        else CheckAllClientConn w s' = Inl NullDeref)"
  using heartbeat_expired [OF assms] by (cases "ci_fd c" u rule: linorder_cases) auto

text \<open>User 5 on connection 7 has been silent for 8 seconds.\<close>

theorem heartbeat_expiry_witness: "CheckAllClientConn example_world gate = Inl NullDeref"
proof -
  obtain s1 where "GateServer_CloseClientSocket example_world 7 (io_tick gate) = Inr s1"
    using Gate_close_client [OF example_sends, of 7 "io_tick gate"] by (auto simp: io_tick_def)
  then show ?thesis
    using heartbeat_expiry [of gate 5 1 "\<lparr>ci_userid = 5, ci_fd = 7, ci_lstMs = 1000\<rparr>" example_world s1] by simp
qed

end
