(* ===== verification/Encryption.thy ===== *)
theory Encryption
  imports Message_Codec
begin

text \<open>
  The login token: \<open>src/Header/Tool/Encryption.hpp\<close>. All arithmetic is on \<open>uint32_t\<close> and wraps; a
  \<open>char\<close> is signed, so bytes above 127 are sign-extended. The random factor is an argument.
\<close>

definition char_u32 :: "char \<Rightarrow> u32" where
  "char_u32 c = word_of_int (if of_char c < (128 :: int) then of_char c else of_char c - 256)"

text \<open>One of the loops over the characters: hash and radix go through it.\<close>

fun hash_loop :: "string \<Rightarrow> u32 \<Rightarrow> u32 \<Rightarrow> u32 \<times> u32" where
  "hash_loop [] radix ret = (radix, ret)"
| "hash_loop (c # cs) radix ret = hash_loop cs (radix * 114514) (ret + radix * char_u32 c)"

text \<open>\<open>std::to_string\<close> of an unsigned number.\<close>

definition std_to_string :: "u32 \<Rightarrow> string" where
  "std_to_string x = (if x = 0 then ''0'' else to_string (uint x))"

text \<open>A number of \<open>int\<close> under \<open>%d\<close>.\<close>

definition decimal :: "int \<Rightarrow> string" where
  "decimal n = (if n < 0 then CHR ''-'' # std_to_string (word_of_int (- n)) else std_to_string (word_of_int n))"

definition GenerationSuffix :: "string \<Rightarrow> string \<Rightarrow> string" where
  "GenerationSuffix username passwd =
     (let (radix, ret) = hash_loop username 1 0 in
      std_to_string (snd (hash_loop passwd radix ret)))"

definition GenerateToken :: "u32 \<Rightarrow> string \<Rightarrow> string \<Rightarrow> u32" where
  "GenerateToken rng username passwd =
     (let suffix = GenerationSuffix username passwd;
          (radix1, ret1) = hash_loop username 1 0;
          (radix2, ret2) = hash_loop passwd radix1 (ret1 * word_of_nat (length username));
          (radix3, ret3) = hash_loop suffix radix2 ret2
      in ret3 * rng)"

section \<open>The hash is a polynomial\<close>

definition hash_poly :: "string \<Rightarrow> u32" where
  "hash_poly cs = (\<Sum>i<length cs. 114514 ^ i * char_u32 (cs ! i))"

lemma hash_poly_Cons: "hash_poly (c # cs) = char_u32 c + 114514 * hash_poly cs"
  unfolding hash_poly_def
  by (simp add: sum.lessThan_Suc_shift sum_distrib_left mult.assoc del: sum.lessThan_Suc)

lemma hash_poly_Nil [simp]: "hash_poly [] = 0"
  by (simp add: hash_poly_def)

lemma hash_loop_poly:
  "hash_loop cs radix ret = (radix * 114514 ^ length cs, ret + radix * hash_poly cs)"
  by (induction cs arbitrary: radix ret) (simp_all add: hash_poly_Cons algebra_simps)

lemma hash_poly_append: "hash_poly (xs @ ys) = hash_poly xs + 114514 ^ length xs * hash_poly ys"
  by (induction xs) (simp_all add: hash_poly_Cons algebra_simps)

lemma GenerationSuffix_poly:
  "GenerationSuffix username passwd = std_to_string (hash_poly (username @ passwd))"
  by (simp add: GenerationSuffix_def hash_loop_poly hash_poly_append)

text \<open>The radix is even, so its 32nd power is 0: only the first 32 characters count.\<close>

lemma radix_power_zero: "32 \<le> n \<Longrightarrow> (114514 :: u32) ^ n = 0"
proof -
  assume n: "32 \<le> n"
  have "(114514 :: u32) ^ n = (2 * 57257) ^ n" by simp
  also have "\<dots> = 2 ^ n * 57257 ^ n" by (rule power_mult_distrib)
  also have "(2 :: u32) ^ n = 0" using n by (simp add: exp_eq_zero_iff)
  finally show ?thesis by simp
qed

lemma hash_poly_prefix: "32 \<le> length xs \<Longrightarrow> hash_poly (xs @ ys) = hash_poly xs"
  by (simp add: hash_poly_append radix_power_zero)

end
