(* ===== verification/DBServer.thy ===== *)
theory DBServer
  imports FuncServer Encryption
begin

text \<open>
  The database server: \<open>src/Header/Server/DBServer.h\<close>, \<open>src/Source/DBServer.cpp\<close>. It answers the
  gates' login and registration requests from MySQL, with a Redis cache in front.

  The two client libraries are the argument \<open>dbms\<close>, indexed like the system calls by the number
  of calls made before: whether connecting works, what \<open>mysql_query\<close> and \<open>mysql_store_result\<close>
  answer, what \<open>mysql_real_escape_string\<close> writes and what a Redis command replies. \<open>db_log\<close>
  records the statements and commands that were sent. Arguments of a command are C strings
  (\<open>c_str\<close>), and so are what the libraries hand back: an escaped string, a column, a reply. A column
  that is NULL is \<open>None\<close>. Freeing replies and results is not modelled.
\<close>

datatype redis_reply = RedisString string | RedisInteger int | RedisError string | RedisOther

record dbms =
  my_connect :: bool
  my_escape :: "string \<Rightarrow> string"
  my_query :: "nat \<Rightarrow> string \<Rightarrow> bool"
  my_store :: "nat \<Rightarrow> string \<Rightarrow> string option list list option"
  rd_connect :: bool
  rd_command :: "nat \<Rightarrow> string list \<Rightarrow> redis_reply option"

datatype db_event = Sql string | Redis "string list"

record DBServer = FuncServer +
  mysql_open :: bool
  redis_open :: bool
  db_clock :: nat
  db_log :: "db_event list"

definition DBServer_new :: "Config \<Rightarrow> DBServer" where
  "DBServer_new cfg =
     FuncServer.FuncServer.extend (FuncServer_new cfg DATABASE) (DBServer.fields False False 0 [])"

definition db_do :: "db_event \<Rightarrow> 'a DBServer_scheme \<Rightarrow> 'a DBServer_scheme" where
  "db_do e s = s\<lparr>db_clock := Suc (db_clock s), db_log := db_log s @ [e]\<rparr>"

definition mysql_query :: "dbms \<Rightarrow> string \<Rightarrow> 'a DBServer_scheme \<Rightarrow> bool \<times> 'a DBServer_scheme" where
  "mysql_query d sql s = (my_query d (db_clock s) sql, db_do (Sql sql) s)"

definition redisCommand ::
  "dbms \<Rightarrow> string list \<Rightarrow> 'a DBServer_scheme \<Rightarrow> redis_reply option \<times> 'a DBServer_scheme" where
  "redisCommand d args s = (rd_command d (db_clock s) args, db_do (Redis args) s)"

section \<open>Connecting\<close>

text \<open>\<open>mysql_init\<close> sets the pointer before the connection is tried; the reply to \<open>AUTH\<close> is followed
  without a test.\<close>

definition ConnectToMysqlAndRedis ::
  "dbms \<Rightarrow> string \<Rightarrow> 'a DBServer_scheme \<Rightarrow> (bool \<times> 'a DBServer_scheme) res" where
  "ConnectToMysqlAndRedis d redis_password s =
     (let s1 = s\<lparr>mysql_open := True\<rparr> in
      if \<not> my_connect d then Inr (False, s1)
      else if \<not> rd_connect d then Inr (False, s1)
      else
        let (reply, s2) = redisCommand d [''AUTH'', redis_password] (s1\<lparr>redis_open := True\<rparr>) in
        case reply of
          None \<Rightarrow> Inl NullDeref
        | Some (RedisError e) \<Rightarrow> Inr (False, s2)
        | Some r \<Rightarrow> Inr (True, s2))"

section \<open>SQL\<close>

text \<open>The escaped string and its terminator go into an array of twice the length.\<close>

definition SQL_Escape :: "dbms \<Rightarrow> string \<Rightarrow> 'a DBServer_scheme \<Rightarrow> string res" where
  "SQL_Escape d sql s =
     (if \<not> mysql_open s then Inl NullDeref
      else if length (my_escape d sql) + 1 > 2 * length sql then Inl OutOfBounds
      else Inr (my_escape d sql))"

definition quote :: string where
  "quote = [CHR 0x27]"

definition sql_exists :: "string \<Rightarrow> string" where
  "sql_exists name = ''SELECT username FROM user where username = '' @ quote @ name @ quote"

definition sql_user :: "string \<Rightarrow> string" where
  "sql_user name =
     ''SELECT username, passwd, userid FROM user where username = '' @ quote @ name @ quote"

definition sql_insert :: "string \<Rightarrow> string \<Rightarrow> string" where
  "sql_insert name passwd =
     ''insert into user (username, passwd) VALUES ('' @ quote @ name @ quote @ '', '' @
     quote @ passwd @ quote @ '')''"

definition IsExistUser ::
  "dbms \<Rightarrow> string \<Rightarrow> 'a DBServer_scheme \<Rightarrow> (bool \<times> 'a DBServer_scheme) res" where
  "IsExistUser d username s =
     (if \<not> mysql_open s then Inr (False, s)
      else bindF (SQL_Escape d username s) (\<lambda>name.
             let sql = sql_exists name; (ok, s1) = mysql_query d sql s in
             if \<not> ok then Inr (False, s1)
             else case my_store d (db_clock s) sql of
                    None \<Rightarrow> Inr (False, s1)
                  | Some rows \<Rightarrow> Inr (rows \<noteq> [], s1)))"

definition InsertUser ::
  "dbms \<Rightarrow> string \<Rightarrow> string \<Rightarrow> 'a DBServer_scheme \<Rightarrow> (bool \<times> 'a DBServer_scheme) res" where
  "InsertUser d username password s =
     (if \<not> mysql_open s then Inr (False, s)
      else bindF (SQL_Escape d username s) (\<lambda>name.
           bindF (SQL_Escape d password s) (\<lambda>pass.
             Inr (mysql_query d (sql_insert name pass) s))))"

text \<open>\<open>std::atoi\<close>, which is undefined on a number that is no \<open>int\<close>.\<close>

definition is_digit :: "char \<Rightarrow> bool" where
  "is_digit c \<longleftrightarrow> 48 \<le> (of_char c :: int) \<and> (of_char c :: int) \<le> 57"

fun atoi_digits :: "string \<Rightarrow> int \<Rightarrow> int" where
  "atoi_digits [] n = n"
| "atoi_digits (c # cs) n = (if is_digit c then atoi_digits cs (10 * n + (of_char c - 48)) else n)"

definition atoi :: "string \<Rightarrow> int res" where
  "atoi s =
     (let n = (case dropWhile (\<lambda>c. c \<in> set [CHR 0x20, CHR 0x09, CHR 0x0A, CHR 0x0B, CHR 0x0C, CHR 0x0D]) s of
                 c # cs \<Rightarrow> if c = CHR ''-'' then - atoi_digits cs 0
                           else if c = CHR ''+'' then atoi_digits cs 0
                           else atoi_digits (c # cs) 0
               | [] \<Rightarrow> 0)
      in if int32 n then Inr n else Inl SignedOverflow)"

text \<open>A column compared or converted: NULL is followed.\<close>

definition column :: "string option list \<Rightarrow> nat \<Rightarrow> string res" where
  "column row i =
     (if length row \<le> i then Inl OutOfBounds
      else case row ! i of None \<Rightarrow> Inl NullDeref | Some x \<Rightarrow> Inr x)"

text \<open>\<open>rng() % 500 + 500\<close>, from the system's random source.\<close>

definition expire_seconds :: "world \<Rightarrow> 'a DBServer_scheme \<Rightarrow> string" where
  "expire_seconds w s = std_to_string (os_random (w_os w) (db_clock s) mod 500 + 500)"

text \<open>Set a key, and when that was answered, when it expires.\<close>

definition redis_cache ::
  "world \<Rightarrow> dbms \<Rightarrow> string \<Rightarrow> string list \<Rightarrow> 'a DBServer_scheme \<Rightarrow> 'a DBServer_scheme" where
  "redis_cache w d key cmd s =
     (let (reply, s1) = redisCommand d cmd s in
      case reply of
        None \<Rightarrow> s1
      | Some r \<Rightarrow> snd (redisCommand d [''EXPIRE'', key, expire_seconds w s1] s1))"

text \<open>The result is 1, 0 or -1 and the caller's \<open>userid\<close>, which only a match sets. An integer of Redis
  has 64 bits and is cut to an \<open>int\<close>.\<close>

definition QueryUser ::
  "world \<Rightarrow> dbms \<Rightarrow> string \<Rightarrow> string \<Rightarrow> int \<Rightarrow> 'a DBServer_scheme \<Rightarrow>
     ((int \<times> int) \<times> 'a DBServer_scheme) res" where
  "QueryUser w d username password userid s =
     (let key = ''user'' @ c_str username;
          (reply_pwd, s1) = redisCommand d [''hget'', key, ''pwd''] s;
          (reply_uid, s2) = redisCommand d [''hget'', key, ''uid''] s1
      in case (reply_pwd, reply_uid) of
           (Some (RedisString pwd), Some (RedisInteger uid)) \<Rightarrow>
             Inr (if password = pwd then (1, signed_take_bit 31 uid) else (0, userid), s2)
         | _ \<Rightarrow>
             if \<not> mysql_open s2 then Inr ((-1, userid), s2)
             else bindF (SQL_Escape d username s2) (\<lambda>name.
               let sql = sql_user name; (ok, s3) = mysql_query d sql s2 in
               if \<not> ok then Inr ((-1, userid), s3)
               else case my_store d (db_clock s2) sql of
                      None \<Rightarrow> Inr ((-1, userid), s3)
                    | Some [] \<Rightarrow> Inr ((0, userid), s3)
                    | Some (row # rows) \<Rightarrow>
                        bindF (column row 1) (\<lambda>pwd.
                        if pwd = password
                        then bindF (column row 2) (\<lambda>id.
                             bindF (atoi id) (\<lambda>uid.
                               Inr ((1, uid),
                                    redis_cache w d key
                                      [''hmset'', key, ''pwd'', CHR 0x22 # c_str password @ [CHR 0x22], ''uid'',
                                       (if uid < 0 then CHR ''-'' # to_string (- uid)
                                        else if uid = 0 then ''0'' else to_string uid)] s3)))
                        else Inr ((0, userid), s3))))"

section \<open>Requests\<close>

definition DB_SendMsg ::
  "world \<Rightarrow> Message \<Rightarrow> int \<Rightarrow> 'a DBServer_scheme \<Rightarrow> 'a DBServer_scheme res" where
  "DB_SendMsg w msg fd s =
     bindF (SendMsg w (virtual_close (ServerBase_CloseClientSocket w)) msg fd s) (\<lambda>(ok, s'). Inr s')"

definition HandleUserLogin ::
  "world \<Rightarrow> dbms \<Rightarrow> Message \<Rightarrow> int \<Rightarrow> 'a DBServer_scheme \<Rightarrow> 'a DBServer_scheme res" where
  "HandleUserLogin w d msg fd s =
     (case msg_object msg of
        Some (B_LoginRequest body) \<Rightarrow>
          bindF (QueryUser w d (lq_username body) (lq_passwd body) (-1) s) (\<lambda>((ret, userid), s1).
            if ret = -1 then Inr s1
            else
              let token = (if ret = 1
                           then GenerateToken (os_random (w_os w) (db_clock s1)) (lq_username body)
                                  (lq_passwd body)
                           else 0);
                  s2 = (if ret = 1
                        then redis_cache w d (c_str (lq_username body))
                               [''set'', c_str (lq_username body), std_to_string token] s1
                        else s1)
              in DB_SendMsg w
                   (NewLoginResponseMessage (w_cfg w) (w_pb w) (ret \<noteq> 0)
                      (if ret = 1 then ''Login Success!'' else ''Passwd Error'') token userid
                      (m_userid (m_head msg)) (lq_username body)) fd s2)
      | _ \<Rightarrow> Inl NullDeref)"

definition HandleUserRegister ::
  "world \<Rightarrow> dbms \<Rightarrow> Message \<Rightarrow> int \<Rightarrow> 'a DBServer_scheme \<Rightarrow> 'a DBServer_scheme res" where
  "HandleUserRegister w d msg fd s =
     (case msg_object msg of
        Some (B_RegistRequest body) \<Rightarrow>
          bindF (IsExistUser d (rq_username body) s) (\<lambda>(exists, s1).
          bindF (if exists then Inr (False, s1)
                 else InsertUser d (rq_username body) (rq_passwd body) s1) (\<lambda>(ok, s2).
            DB_SendMsg w
              (NewRegisterResponseMessage (w_cfg w) (w_pb w) ok
                 (if ok then ''Register Success!'' else ''Register Failed, username is exist'')
                 (m_userid (m_head msg))) fd s2))
      | _ \<Rightarrow> Inl NullDeref)"

definition DB_dispatch ::
  "world \<Rightarrow> dbms \<Rightarrow> Message \<Rightarrow> int \<Rightarrow> 'a DBServer_scheme \<Rightarrow> 'a DBServer_scheme res" where
  "DB_dispatch w d msg fd s =
     (case bodytype_of (m_packageType (m_head msg)) of
        Some LoginRequest \<Rightarrow> HandleUserLogin w d msg fd s
      | Some RegistRequest \<Rightarrow> HandleUserRegister w d msg fd s
      | _ \<Rightarrow> Inr s)"

definition DBServer_OnMsgBodyAnalysised ::
  "world \<Rightarrow> dbms \<Rightarrow> 'a DBServer_scheme msg_handler" where
  "DBServer_OnMsgBodyAnalysised w d msg body len fd s =
     bindF (FuncServer_OnMsgBodyAnalysised w (virtual_close (ServerBase_CloseClientSocket w)) msg body
              len fd s)
       (\<lambda>(msg1, s1). DB_dispatch w d msg1 fd s1)"

definition DBServer_virtuals :: "world \<Rightarrow> dbms \<Rightarrow> 'a DBServer_scheme virtuals" where
  "DBServer_virtuals w d =
     (let close = virtual_close (ServerBase_CloseClientSocket w) in
      \<lparr>v_close = close,
       v_handler = DBServer_OnMsgBodyAnalysised w d,
       v_callback = (\<lambda>ty s. if ty = FuncServer_SendSelfInfoToCenter
                           then SendSelfInfoToCenter (w_retries w) w close Inr s else Inr s),
       v_on_start = FuncServer_OnListenerStart w close Inr\<rparr>)"

definition DBServer_main :: "nat \<Rightarrow> world \<Rightarrow> dbms \<Rightarrow> string \<Rightarrow> DBServer res" where
  "DBServer_main turns w d redis_password =
     bindF (ConnectToMysqlAndRedis d redis_password (DBServer_new (w_cfg w))) (\<lambda>(ok, s).
       if \<not> ok then Inr s
       else (case DATABASE_SERVER (w_cfg w) of (ip, port, name) \<Rightarrow>
               bindF (BootServer turns w (DBServer_virtuals w d) ip port name s) (\<lambda>(go, s'). Inr s')))"

end
