(* ===== verification/DB_Requests.thy ===== *)
theory DB_Requests
  imports DBServer
begin

text \<open>
  What a login and a registration come to. Sending the answer leaves the database connection
  alone (\<open>db_kept\<close>); a login is decided by the first row MySQL returns, because a Redis server
  answers \<open>hget\<close> with a string and never with the integer the cache test asks for
  (\<open>hget_strings\<close>), and each way MySQL's answer can be is one outcome (\<open>login_outcome\<close>); a registration sends the existence query and at most one insert, both built
  from escaped strings.
\<close>

section \<open>The network side\<close>

definition db_kept :: "'a DBServer_scheme \<Rightarrow> 'a DBServer_scheme \<Rightarrow> bool" where
  "db_kept s t \<longleftrightarrow> mysql_open t = mysql_open s \<and> redis_open t = redis_open s \<and>
     db_clock t = db_clock s \<and> db_log t = db_log s"

lemma db_kept_stable: "net_stable (\<lambda>s. True) db_kept"
  by (auto simp: net_stable_def db_kept_def net_do_def io_tick_def)

interpretation dbc: safe_closing "ServerBase_CloseClientSocket w :: 'a DBServer_scheme closer \<Rightarrow> 'a DBServer_scheme closer"
  "\<lambda>s. True" db_kept "net_config_ok (w_cfg w)"
proof
  fix c :: "'a DBServer_scheme closer" and fd s
  show "\<exists>s'. ServerBase_CloseClientSocket w c fd s = Inr s' \<and> db_kept s s'"
    if "net_config_ok (w_cfg w)" "good_below (close_rank fd s) (\<lambda>s. True) db_kept c"
    by (rule ServerBase_Close_good [OF that(1) db_kept_stable that(2) TrueI])
qed

lemma DB_SendMsg_good:
  assumes "net_config_ok (w_cfg w)"
  shows "\<exists>s'. DB_SendMsg w msg fd s = Inr s' \<and> db_kept s s'"
  unfolding DB_SendMsg_def
  using SendMsg_good [OF assms db_kept_stable dbc.virtual_close_good_below [OF assms] lessI TrueI, of msg fd s]
  by auto

section \<open>Statements\<close>

text \<open>The escaped string fits into the array of twice the length, with its terminator.\<close>

definition escape_fits :: "dbms \<Rightarrow> string \<Rightarrow> bool" where
  "escape_fits d x \<longleftrightarrow> length (my_escape d x) + 1 \<le> 2 * length x"

lemma SQL_Escape_fits:
  "mysql_open s \<Longrightarrow> SQL_Escape d x s = (if escape_fits d x then Inr (my_escape d x) else Inl OutOfBounds)"
  by (simp add: SQL_Escape_def escape_fits_def)

lemma SQL_Escape_empty: "mysql_open s \<Longrightarrow> SQL_Escape d '''' s = Inl OutOfBounds"
  by (simp add: SQL_Escape_def)

text \<open>The database part of a step: only the two libraries' clock and log move.\<close>

definition db_part :: "'a DBServer_scheme \<Rightarrow> db_event list \<Rightarrow> 'a DBServer_scheme \<Rightarrow> bool" where
  "db_part s es t \<longleftrightarrow> mysql_open t = mysql_open s \<and> redis_open t = redis_open s \<and>
     db_log t = db_log s @ es \<and> connections t = connections s \<and> net_log t = net_log s"

lemma db_part_trans: "db_part s es t \<Longrightarrow> db_part t fs u \<Longrightarrow> db_part s (es @ fs) u"
  by (simp add: db_part_def)

lemma db_part_refl [simp]: "db_part s [] s"
  by (simp add: db_part_def)

lemma db_part_do [simp]: "db_part s [e] (db_do e s)"
  by (simp add: db_part_def db_do_def)

lemma redis_cache_part: "\<exists>es. db_part s es (redis_cache w d key cmd s) \<and> (\<forall>e\<in>set es. \<exists>c. e = Redis c)"
proof (cases "rd_command d (db_clock s) cmd")
  case None
  then show ?thesis
    by (intro exI [of _ "[Redis cmd]"]) (simp add: redis_cache_def redisCommand_def)
next
  case (Some r)
  let ?e = "[''EXPIRE'', key, expire_seconds w (db_do (Redis cmd) s)]"
  have "db_part s ([Redis cmd] @ [Redis ?e]) (db_do (Redis ?e) (db_do (Redis cmd) s))"
    by (rule db_part_trans [OF db_part_do db_part_do])
  then show ?thesis
    using Some by (intro exI [of _ "[Redis cmd, Redis ?e]"]) (simp add: redis_cache_def redisCommand_def)
qed

section \<open>Registration\<close>

definition user_exists :: "dbms \<Rightarrow> string \<Rightarrow> nat \<Rightarrow> bool" where
  "user_exists d name n \<longleftrightarrow>
     my_query d n (sql_exists (my_escape d name)) \<and>
     (\<exists>row rows. my_store d n (sql_exists (my_escape d name)) = Some (row # rows))"

lemma IsExistUser_spec:
  assumes "mysql_open s" "escape_fits d name"
  shows "IsExistUser d name s =
     Inr (user_exists d name (db_clock s), db_do (Sql (sql_exists (my_escape d name))) s)"
  using assms
  by (simp add: IsExistUser_def SQL_Escape_fits mysql_query_def user_exists_def Let_def neq_Nil_conv
      split: option.split)

lemma InsertUser_spec:
  assumes "mysql_open s" "escape_fits d name" "escape_fits d passwd"
  shows "InsertUser d name passwd s =
     Inr (my_query d (db_clock s) (sql_insert (my_escape d name) (my_escape d passwd)),
          db_do (Sql (sql_insert (my_escape d name) (my_escape d passwd))) s)"
  using assms by (simp add: InsertUser_def SQL_Escape_fits mysql_query_def)

lemma HandleUserRegister_spec:
  assumes cfg: "net_config_ok (w_cfg w)" and b: "msg_object msg = Some (B_RegistRequest b)"
    and up: "mysql_open s" and esc: "escape_fits d (rq_username b)"
      "user_exists d (rq_username b) (db_clock s) \<or> escape_fits d (rq_passwd b)"
  defines "name \<equiv> my_escape d (rq_username b)" and "pass \<equiv> my_escape d (rq_passwd b)"
  defines "there \<equiv> user_exists d (rq_username b) (db_clock s)"
  defines "ok \<equiv> \<not> there \<and> my_query d (Suc (db_clock s)) (sql_insert name pass)"
  shows "\<exists>s1 s'. HandleUserRegister w d msg fd s = Inr s' \<and>
     DB_SendMsg w (NewRegisterResponseMessage (w_cfg w) (w_pb w) ok
        (if ok then ''Register Success!'' else ''Register Failed, username is exist'')
        (m_userid (m_head msg))) fd s1 = Inr s' \<and>
     db_log s' = db_log s @ Sql (sql_exists name) # (if there then [] else [Sql (sql_insert name pass)])"
proof -
  let ?s0 = "db_do (Sql (sql_exists name)) s"
  let ?s1 = "if there then ?s0 else db_do (Sql (sql_insert name pass)) ?s0"
  let ?m = "NewRegisterResponseMessage (w_cfg w) (w_pb w) ok
        (if ok then ''Register Success!'' else ''Register Failed, username is exist'') (m_userid (m_head msg))"
  have s0: "mysql_open ?s0" "db_clock ?s0 = Suc (db_clock s)" using up by (simp_all add: db_do_def)
  have ins: "(if there then Inr (False, ?s0) else InsertUser d (rq_username b) (rq_passwd b) ?s0) = Inr (ok, ?s1)"
    using InsertUser_spec [OF s0(1) esc(1)] esc(2) s0(2) by (auto simp: there_def ok_def name_def pass_def)
  obtain s' where s': "DB_SendMsg w ?m fd ?s1 = Inr s'" "db_kept ?s1 s'"
    using DB_SendMsg_good [OF cfg] by blast
  have "HandleUserRegister w d msg fd s = Inr s'"
    unfolding HandleUserRegister_def b option.case proto_body.case IsExistUser_spec [OF up esc(1)]
      there_def [symmetric] name_def [symmetric] bindF.simps prod.case ins
    by (rule s'(1))
  moreover have "db_log s' = db_log s @ Sql (sql_exists name) # (if there then [] else [Sql (sql_insert name pass)])"
    using s'(2) by (simp add: db_kept_def db_do_def)
  ultimately show ?thesis using s'(1) by blast
qed

section \<open>Login\<close>

text \<open>What Redis documents of \<open>hget\<close>: a string, nil or an error.\<close>

definition hget_strings :: "dbms \<Rightarrow> bool" where
  "hget_strings d \<longleftrightarrow> (\<forall>n key field u. rd_command d n [''hget'', key, field] \<noteq> Some (RedisInteger u))"

text \<open>What MySQL's answer to the query of a login comes to: a fault, no answer (\<open>None\<close>), or whether the
  login succeeds and with which user id.\<close>

definition login_outcome :: "dbms \<Rightarrow> nat \<Rightarrow> string \<Rightarrow> string \<Rightarrow> (bool \<times> int) option res" where
  "login_outcome d n name passwd =
     (let sql = sql_user (my_escape d name) in
      if \<not> escape_fits d name then Inl OutOfBounds
      else if \<not> my_query d n sql then Inr None
      else case my_store d n sql of
             None \<Rightarrow> Inr None
           | Some [] \<Rightarrow> Inr (Some (False, -1))
           | Some (row # rows) \<Rightarrow>
               (case row ! 1 of
                  None \<Rightarrow> Inl NullDeref
                | Some pwd \<Rightarrow>
                    if pwd \<noteq> passwd then Inr (Some (False, -1))
                    else case row ! 2 of
                           None \<Rightarrow> Inl NullDeref
                         | Some x \<Rightarrow> bindF (atoi x) (\<lambda>uid. Inr (Some (True, uid)))))"

text \<open>Every row of the query has the three columns asked for.\<close>

definition three_columns :: "dbms \<Rightarrow> bool" where
  "three_columns d \<longleftrightarrow> (\<forall>n name rows. my_store d n (sql_user name) = Some rows \<longrightarrow> (\<forall>row\<in>set rows. length row = 3))"

definition hget_pwd :: "string \<Rightarrow> db_event" where
  "hget_pwd name = Redis [''hget'', ''user'' @ c_str name, ''pwd'']"

definition hget_uid :: "string \<Rightarrow> db_event" where
  "hget_uid name = Redis [''hget'', ''user'' @ c_str name, ''uid'']"

text \<open>What a request has asked the two databases, and that it touched nothing else.\<close>

definition asked :: "'a DBServer_scheme \<Rightarrow> string \<Rightarrow> dbms \<Rightarrow> 'a DBServer_scheme \<Rightarrow> bool" where
  "asked s name d t \<longleftrightarrow>
     (\<exists>es. db_part s ([hget_pwd name, hget_uid name, Sql (sql_user (my_escape d name))] @ es) t \<and>
           (\<forall>e\<in>set es. \<exists>c. e = Redis c))"

lemma cache_miss:
  assumes "\<And>u. b \<noteq> Some (RedisInteger u)"
  shows "(case a of
       None \<Rightarrow> X
     | Some (RedisString p) \<Rightarrow> (case b of None \<Rightarrow> X | Some (RedisInteger u) \<Rightarrow> F p u | Some _ \<Rightarrow> X)
     | Some _ \<Rightarrow> X) = X"
  using assms by (auto split: option.split redis_reply.split)

lemma QueryUser_mysql:
  assumes hget: "hget_strings d" and cols: "three_columns d" and up: "mysql_open s"
  shows "case login_outcome d (db_clock s + 2) name passwd of
       Inl e \<Rightarrow> QueryUser w d name passwd (-1) s = Inl e
     | Inr r \<Rightarrow> \<exists>s'. asked s name d s' \<and> QueryUser w d name passwd (-1) s =
         Inr (case r of None \<Rightarrow> (-1, -1) | Some (ok, uid) \<Rightarrow> (if ok then 1 else 0, uid), s')"
proof -
  let ?key = "''user'' @ c_str name" and ?sql = "sql_user (my_escape d name)"
  let ?s2 = "db_do (hget_uid name) (db_do (hget_pwd name) s)"
  let ?s3 = "db_do (Sql ?sql) ?s2"
  let ?cache = "\<lambda>uid. redis_cache w d ?key [''hmset'', ?key, ''pwd'', CHR 0x22 # c_str passwd @ [CHR 0x22], ''uid'',
      (if uid < 0 then CHR ''-'' # to_string (- uid) else if uid = 0 then ''0'' else to_string uid)] ?s3"
  have clock: "db_clock ?s2 = db_clock s + 2" and open2: "mysql_open ?s2"
    using up by (simp_all add: db_do_def)
  have uid: "rd_command d n [''hget'', ?key, ''uid''] \<noteq> Some (RedisInteger u)" for n u
    using hget by (simp add: hget_strings_def)
  have part3: "db_part s [hget_pwd name, hget_uid name, Sql ?sql] ?s3"
    by (simp add: db_part_def db_do_def)
  then have asked3: "asked s name d ?s3" unfolding asked_def by (intro exI [of _ "[]"]) simp
  have asked_cache: "asked s name d (?cache u)" for u
    using redis_cache_part db_part_trans [OF part3] unfolding asked_def by blast
  have miss: "QueryUser w d name passwd (-1) s =
      (if \<not> escape_fits d name then Inl OutOfBounds
       else if \<not> my_query d (db_clock s + 2) ?sql then Inr ((-1, -1), ?s3)
       else case my_store d (db_clock s + 2) ?sql of
              None \<Rightarrow> Inr ((-1, -1), ?s3)
            | Some [] \<Rightarrow> Inr ((0, -1), ?s3)
            | Some (row # rows) \<Rightarrow>
                bindF (column row 1) (\<lambda>pwd.
                if pwd = passwd
                then bindF (column row 2) (\<lambda>id. bindF (atoi id) (\<lambda>uid. Inr ((1, uid), ?cache uid)))
                else Inr ((0, -1), ?s3)))"
    unfolding QueryUser_def redisCommand_def mysql_query_def Let_def prod.case cache_miss [OF uid]
      hget_pwd_def [symmetric] hget_uid_def [symmetric] clock
    using open2 by (simp add: SQL_Escape_fits)
  show ?thesis
  proof (cases "escape_fits d name \<and> my_query d (db_clock s + 2) ?sql")
    case False
    then show ?thesis using miss asked3 by (auto simp: login_outcome_def Let_def)
  next
    case True
    show ?thesis
    proof (cases "my_store d (db_clock s + 2) ?sql")
      case None
      then show ?thesis using miss asked3 True by (auto simp: login_outcome_def Let_def)
    next
      case (Some rows)
      show ?thesis
      proof (cases rows)
        case Nil
        then show ?thesis using miss asked3 True Some by (auto simp: login_outcome_def Let_def)
      next
        case (Cons row rest)
        have len: "length row = 3" using cols Some Cons by (auto simp: three_columns_def)
        have "case login_outcome d (db_clock s + 2) name passwd of
            Inl e \<Rightarrow> QueryUser w d name passwd (-1) s = Inl e
          | Inr r \<Rightarrow> \<exists>s'. s' \<in> {?s3} \<union> range ?cache \<and> QueryUser w d name passwd (-1) s =
              Inr (case r of None \<Rightarrow> (-1, -1) | Some (ok, uid) \<Rightarrow> (if ok then 1 else 0, uid), s')"
          using miss True Some Cons len
          by (cases "row ! 1"; cases "row ! 2"; cases "atoi (the (row ! 2))") (auto simp: login_outcome_def Let_def column_def)
        then show ?thesis using asked3 asked_cache by (fastforce split: sum.splits)
      qed
    qed
  qed
qed

lemma HandleUserLogin_spec:
  assumes cfg: "net_config_ok (w_cfg w)" and b: "msg_object msg = Some (B_LoginRequest b)"
    and hget: "hget_strings d" and cols: "three_columns d" and up: "mysql_open s"
  shows "case login_outcome d (db_clock s + 2) (lq_username b) (lq_passwd b) of
       Inl e \<Rightarrow> HandleUserLogin w d msg fd s = Inl e
     | Inr None \<Rightarrow> \<exists>s'. HandleUserLogin w d msg fd s = Inr s' \<and> net_log s' = net_log s
     | Inr (Some (ok, uid)) \<Rightarrow> \<exists>n s1 s' es. HandleUserLogin w d msg fd s = Inr s' \<and>
         DB_SendMsg w (NewLoginResponseMessage (w_cfg w) (w_pb w) ok
            (if ok then ''Login Success!'' else ''Passwd Error'')
            (if ok then GenerateToken (os_random (w_os w) n) (lq_username b) (lq_passwd b) else 0)
            uid (m_userid (m_head msg)) (lq_username b)) fd s1 = Inr s' \<and> connections s1 = connections s \<and>
         db_log s' = db_log s @ [hget_pwd (lq_username b), hget_uid (lq_username b),
            Sql (sql_user (my_escape d (lq_username b)))] @ es \<and> (\<forall>e\<in>set es. \<exists>c. e = Redis c)"
proof -
  let ?out = "login_outcome d (db_clock s + 2) (lq_username b) (lq_passwd b)"
  note query = QueryUser_mysql [OF hget cols up, of w "lq_username b" "lq_passwd b"]
  show ?thesis
  proof (cases ?out)
    case (Inl e)
    then show ?thesis using query by (simp add: HandleUserLogin_def b)
  next
    case (Inr r)
    then obtain s1 where s1: "asked s (lq_username b) d s1" "QueryUser w d (lq_username b) (lq_passwd b) (-1) s =
        Inr (case r of None \<Rightarrow> (-1, -1) | Some (ok, uid) \<Rightarrow> (if ok then 1 else 0, uid), s1)"
      using query by auto
    show ?thesis
    proof (cases r)
      case None
      then show ?thesis using Inr s1 by (auto simp: HandleUserLogin_def b asked_def db_part_def)
    next
      case (Some x)
      obtain ok uid where x: "x = (ok, uid)" by (cases x)
      let ?token = "if ok then GenerateToken (os_random (w_os w) (db_clock s1)) (lq_username b) (lq_passwd b) else 0"
      let ?cache = "redis_cache w d (c_str (lq_username b)) [''set'', c_str (lq_username b), std_to_string ?token] s1"
      let ?s2 = "if ok then ?cache else s1"
      let ?m = "NewLoginResponseMessage (w_cfg w) (w_pb w) ok (if ok then ''Login Success!'' else ''Passwd Error'')
          ?token uid (m_userid (m_head msg)) (lq_username b)"
      obtain fs where fs: "db_part s1 fs ?cache" "\<forall>e\<in>set fs. \<exists>c. e = Redis c"
        using redis_cache_part by blast
      have s2: "asked s (lq_username b) d ?s2"
        using s1(1) fs db_part_trans unfolding asked_def by (cases ok) (simp_all, fastforce)
      obtain s' where s': "DB_SendMsg w ?m fd ?s2 = Inr s'" "db_kept ?s2 s'"
        using DB_SendMsg_good [OF cfg] by blast
      have "HandleUserLogin w d msg fd s = Inr s'"
        using s'(1) unfolding HandleUserLogin_def b option.case proto_body.case s1(2) Some x
        by (cases ok) (simp_all add: Let_def)
      moreover obtain es where "db_part s ([hget_pwd (lq_username b), hget_uid (lq_username b),
            Sql (sql_user (my_escape d (lq_username b)))] @ es) ?s2" "\<forall>e\<in>set es. \<exists>c. e = Redis c"
        using s2 unfolding asked_def by blast
      ultimately have "\<exists>n s1 s' es. HandleUserLogin w d msg fd s = Inr s' \<and>
         DB_SendMsg w (NewLoginResponseMessage (w_cfg w) (w_pb w) ok
            (if ok then ''Login Success!'' else ''Passwd Error'')
            (if ok then GenerateToken (os_random (w_os w) n) (lq_username b) (lq_passwd b) else 0)
            uid (m_userid (m_head msg)) (lq_username b)) fd s1 = Inr s' \<and> connections s1 = connections s \<and>
         db_log s' = db_log s @ [hget_pwd (lq_username b), hget_uid (lq_username b),
            Sql (sql_user (my_escape d (lq_username b)))] @ es \<and> (\<forall>e\<in>set es. \<exists>c. e = Redis c)"
        using s' by (intro exI [of _ "db_clock s1"] exI [of _ ?s2] exI [of _ s'] exI [of _ es])
          (simp add: db_part_def db_kept_def)
      then show ?thesis using Inr Some x by simp
    qed
  qed
qed

text \<open>A name or password whose escaped text outgrows the array it is escaped into. An empty one is one
  byte too long.\<close>

lemma HandleUserRegister_overflow:
  assumes b: "msg_object msg = Some (B_RegistRequest b)" and up: "mysql_open s"
    and long: "\<not> escape_fits d (rq_username b) \<or>
      \<not> user_exists d (rq_username b) (db_clock s) \<and> \<not> escape_fits d (rq_passwd b)"
  shows "HandleUserRegister w d msg fd s = Inl OutOfBounds"
proof (cases "escape_fits d (rq_username b)")
  case True
  let ?s1 = "db_do (Sql (sql_exists (my_escape d (rq_username b)))) s"
  have "mysql_open ?s1" using up by (simp add: db_do_def)
  then have "InsertUser d (rq_username b) (rq_passwd b) ?s1 = Inl OutOfBounds"
    using True long by (simp add: InsertUser_def SQL_Escape_fits)
  then show ?thesis
    using IsExistUser_spec [OF up True] long True b by (simp add: HandleUserRegister_def)
qed (use b up in \<open>simp add: HandleUserRegister_def IsExistUser_def SQL_Escape_fits\<close>)

lemma escape_fits_empty: "\<not> escape_fits d ''''"
  by (simp add: escape_fits_def)

end
