(* ===== verification/DB_Run.thy ===== *)
theory DB_Run
  imports DB_Requests Event_Loop
begin

text \<open>
  The database server as a process: what it ever sends to MySQL and Redis. After the one \<open>AUTH\<close>
  command of its start the log is a sequence of complete traces, one for each request it served
  (\<open>db_main_traces\<close>), whatever the network and the two servers answered.
\<close>

section \<open>The trace of a request\<close>

text \<open>A lookup in vain in the cache, then at most one query by the escaped name, then the cache is
  filled.\<close>

definition login_trace :: "dbms \<Rightarrow> db_event list \<Rightarrow> bool" where
  "login_trace d es \<longleftrightarrow>
     (\<exists>name qs cs. es = hget_pwd name # hget_uid name # qs @ cs \<and>
        (qs = [] \<or> qs = [Sql (sql_user (my_escape d name))]) \<and> (\<forall>e\<in>set cs. \<exists>c. e = Redis c))"

text \<open>At most the question whether the escaped name exists, then at most one insertion, of that name.\<close>

definition register_trace :: "dbms \<Rightarrow> db_event list \<Rightarrow> bool" where
  "register_trace d es \<longleftrightarrow>
     (\<exists>name passwd. es \<in> {[], [Sql (sql_exists (my_escape d name))],
        [Sql (sql_exists (my_escape d name)), Sql (sql_insert (my_escape d name) (my_escape d passwd))]})"

definition request_trace :: "dbms \<Rightarrow> db_event list \<Rightarrow> bool" where
  "request_trace d es \<longleftrightarrow> login_trace d es \<or> register_trace d es"

lemma db_send_log:
  assumes "DB_SendMsg w msg fd s = Inr s'"
  shows "db_log s' = db_log s"
proof -
  have "relates db_kept (virtual_close (ServerBase_CloseClientSocket w) :: 'a DBServer_scheme closer)"
    by (rule virtual_close_relates) (rule ServerBase_Close_relates [OF db_kept_stable])
  from SendMsg_relates [OF db_kept_stable this] show ?thesis
    using assms by (fastforce simp: DB_SendMsg_def db_kept_def)
qed

lemma db_do_log [simp]: "db_log (db_do e s) = db_log s @ [e]"
  by (simp add: db_do_def)

lemma redis_cache_log: "\<exists>cs. db_log (redis_cache w d key cmd s) = db_log s @ cs \<and> (\<forall>e\<in>set cs. \<exists>c. e = Redis c)"
  using redis_cache_part [of s w d key cmd] by (auto simp: db_part_def)

lemma IsExistUser_log:
  assumes "IsExistUser d name s = Inr (there, s')"
  shows "(db_log s' = db_log s \<and> \<not> mysql_open s \<and> s' = s) \<or>
     db_log s' = db_log s @ [Sql (sql_exists (my_escape d name))]"
  using assms
  by (auto simp: IsExistUser_def SQL_Escape_def mysql_query_def Let_def split: if_splits option.splits)

lemma InsertUser_log:
  assumes "InsertUser d name passwd s = Inr (ok, s')"
  shows "(db_log s' = db_log s \<and> \<not> mysql_open s) \<or>
     db_log s' = db_log s @ [Sql (sql_insert (my_escape d name) (my_escape d passwd))]"
  using assms by (auto simp: InsertUser_def SQL_Escape_def mysql_query_def Let_def split: if_splits)

lemma IsExistUser_open: "IsExistUser d name s = Inr (there, s') \<Longrightarrow> mysql_open s' = mysql_open s"
  by (auto simp: IsExistUser_def SQL_Escape_def mysql_query_def db_do_def Let_def split: if_splits option.splits)

text \<open>A hit in the cache, or what is done without one.\<close>

lemma cache_cases:
  assumes "(case a of
       None \<Rightarrow> X
     | Some (RedisString p) \<Rightarrow> (case b of None \<Rightarrow> X | Some (RedisInteger u) \<Rightarrow> F p u | Some _ \<Rightarrow> X)
     | Some _ \<Rightarrow> X) = Inr z"
  shows "X = Inr z \<or> (\<exists>p u. F p u = Inr z)"
  using assms by (cases a; cases b) (auto split: redis_reply.splits)

lemma QueryUser_log:
  assumes "QueryUser w d name passwd uid s = Inr (r, s')"
  shows "\<exists>qs cs. db_log s' = db_log s @ hget_pwd name # hget_uid name # qs @ cs \<and>
     (qs = [] \<or> qs = [Sql (sql_user (my_escape d name))]) \<and> (\<forall>e\<in>set cs. \<exists>c. e = Redis c)"
proof -
  let ?key = "''user'' @ c_str name"
  let ?s2 = "db_do (hget_uid name) (db_do (hget_pwd name) s)"
  let ?q = "Sql (sql_user (my_escape d name))"
  have log2: "db_log ?s2 = db_log s @ [hget_pwd name, hget_uid name]" by simp
  consider "s' = ?s2" | "s' = db_do ?q ?s2" | cmd where "s' = redis_cache w d ?key cmd (db_do ?q ?s2)"
  proof -
    have s2: "?s2 = db_do (Redis [''hget'', ?key, ''uid'']) (db_do (Redis [''hget'', ?key, ''pwd'']) s)"
      by (simp add: hget_pwd_def hget_uid_def)
    note assms [unfolded QueryUser_def redisCommand_def mysql_query_def Let_def prod.case, THEN cache_cases,
        folded s2]
    then show thesis
      using that by (elim disjE exE) (auto simp: SQL_Escape_def split: if_splits option.splits list.splits)
  qed
  then show ?thesis
  proof cases
    case 1
    then show ?thesis by (intro exI [of _ "[]"]) simp
  next
    case 2
    then show ?thesis by (intro exI [of _ "[?q]"] exI [of _ "[]"]) simp
  next
    case 3
    then obtain cs where "db_log s' = db_log (db_do ?q ?s2) @ cs" "\<forall>e\<in>set cs. \<exists>c. e = Redis c"
      using redis_cache_log [of w d ?key cmd "db_do ?q ?s2"] by blast
    then show ?thesis by (intro exI [of _ "[?q]"] exI [of _ cs]) simp
  qed
qed

lemma HandleUserLogin_log:
  assumes "HandleUserLogin w d msg fd s = Inr s'"
  shows "\<exists>es. db_log s' = db_log s @ es \<and> login_trace d es"
proof -
  obtain b where b: "msg_object msg = Some (B_LoginRequest b)"
    using assms by (auto simp: HandleUserLogin_def split: option.splits proto_body.splits)
  obtain ret userid s1 where s1: "QueryUser w d (lq_username b) (lq_passwd b) (-1) s = Inr ((ret, userid), s1)"
    using assms b by (auto simp: HandleUserLogin_def)
  obtain qs cs where log1: "db_log s1 = db_log s @ hget_pwd (lq_username b) # hget_uid (lq_username b) # qs @ cs"
      "qs = [] \<or> qs = [Sql (sql_user (my_escape d (lq_username b)))]" "\<forall>e\<in>set cs. \<exists>c. e = Redis c"
    using QueryUser_log [OF s1] by blast
  have "\<exists>fs. db_log s' = db_log s1 @ fs \<and> (\<forall>e\<in>set fs. \<exists>c. e = Redis c)"
  proof (cases "ret = -1")
    case True
    then show ?thesis using assms b s1 by (simp add: HandleUserLogin_def)
  next
    case False
    then obtain m s2 where s2: "DB_SendMsg w m fd s2 = Inr s'"
        "s2 = s1 \<or> (\<exists>key cmd. s2 = redis_cache w d key cmd s1)"
      using assms b s1 by (auto simp: HandleUserLogin_def Let_def split: if_splits)
    have "\<exists>fs. db_log s2 = db_log s1 @ fs \<and> (\<forall>e\<in>set fs. \<exists>c. e = Redis c)"
      using s2(2) redis_cache_log by (elim disjE exE) auto
    then show ?thesis unfolding db_send_log [OF s2(1)] .
  qed
  then obtain fs where "db_log s' = db_log s1 @ fs" "\<forall>e\<in>set fs. \<exists>c. e = Redis c" by blast
  then show ?thesis
    using log1 unfolding login_trace_def
    by (intro exI [of _ "hget_pwd (lq_username b) # hget_uid (lq_username b) # qs @ cs @ fs"] conjI
        exI [of _ "lq_username b"] exI [of _ qs] exI [of _ "cs @ fs"]) auto
qed

lemma HandleUserRegister_log:
  assumes "HandleUserRegister w d msg fd s = Inr s'"
  shows "\<exists>es. db_log s' = db_log s @ es \<and> register_trace d es"
proof -
  obtain b where b: "msg_object msg = Some (B_RegistRequest b)"
    using assms by (auto simp: HandleUserRegister_def split: option.splits proto_body.splits)
  obtain there s1 ok s2 m where s1: "IsExistUser d (rq_username b) s = Inr (there, s1)"
    and s2: "(if there then Inr (False, s1) else InsertUser d (rq_username b) (rq_passwd b) s1) = Inr (ok, s2)"
    and s': "DB_SendMsg w m fd s2 = Inr s'"
    using assms b by (auto simp: HandleUserRegister_def Let_def)
  have "db_log s2 = db_log s1 \<or> mysql_open s1 \<and>
      db_log s2 = db_log s1 @ [Sql (sql_insert (my_escape d (rq_username b)) (my_escape d (rq_passwd b)))]"
    using s2 by (cases there) (auto simp: InsertUser_def SQL_Escape_def mysql_query_def split: if_splits)
  then have "\<exists>es. db_log s2 = db_log s @ es \<and> es \<in> {[], [Sql (sql_exists (my_escape d (rq_username b)))],
      [Sql (sql_exists (my_escape d (rq_username b))),
       Sql (sql_insert (my_escape d (rq_username b)) (my_escape d (rq_passwd b)))]}"
    using IsExistUser_log [OF s1] IsExistUser_open [OF s1] by auto
  then show ?thesis
    unfolding db_send_log [OF s'] register_trace_def by blast
qed

section \<open>The process\<close>

definition db_traced :: "dbms \<Rightarrow> string \<Rightarrow> 'a DBServer_scheme \<Rightarrow> bool" where
  "db_traced d redis_password s \<longleftrightarrow>
     (\<exists>ts. db_log s = Redis [''AUTH'', redis_password] # concat ts \<and> (\<forall>es\<in>set ts. request_trace d es))"

lemma db_traced_snoc:
  assumes "db_traced d pw s" "db_log s' = db_log s @ es" "request_trace d es"
  shows "db_traced d pw s'"
proof -
  obtain ts where "db_log s = Redis [''AUTH'', pw] # concat ts" "\<forall>es\<in>set ts. request_trace d es"
    using assms(1) by (auto simp: db_traced_def)
  then show ?thesis
    using assms(2,3) unfolding db_traced_def by (intro exI [of _ "ts @ [es]"]) auto
qed

lemma db_traced_frame: "func_frame (db_traced d pw)"
  unfolding func_frame_def
proof (intro allI impI)
  fix s t :: "'a DBServer_scheme"
  assume "FuncServer.more t = FuncServer.more s" and s: "db_traced d pw s"
  then have "db_log t = db_log s" by (cases s, cases t) simp
  then show "db_traced d pw t" using s by (simp add: db_traced_def)
qed

lemma db_close_keeps:
  "relates (keeping (db_traced d pw)) (virtual_close (ServerBase_CloseClientSocket w))"
  by (rule virtual_close_relates)
    (rule ServerBase_Close_relates [OF base_frame_stable [OF func_frame_base [OF db_traced_frame]]])

lemma DB_dispatch_cases:
  "DB_dispatch w d m fd s \<in> {Inr s, HandleUserLogin w d m fd s, HandleUserRegister w d m fd s}"
proof (cases "bodytype_of (m_packageType (m_head m))")
  case (Some ty)
  then show ?thesis by (cases ty) (simp_all add: DB_dispatch_def)
qed (simp add: DB_dispatch_def)

lemma db_handler_keeps:
  assumes "DBServer_OnMsgBodyAnalysised w d msg body len fd s = Inr s'"
  shows "keeping (db_traced d pw) s s'"
proof -
  obtain m s1 where s1: "FuncServer_OnMsgBodyAnalysised w (virtual_close (ServerBase_CloseClientSocket w))
      msg body len fd s = Inr (m, s1)" "DB_dispatch w d m fd s1 = Inr s'"
    using assms by (auto simp: DBServer_OnMsgBodyAnalysised_def)
  have "keeping (db_traced d pw) s s1"
    by (rule FuncServer_OnMsg_keeps [OF func_frame_keeps [OF db_traced_frame] db_close_keeps s1(1)])
  moreover consider "s' = s1" | "HandleUserLogin w d m fd s1 = Inr s'" | "HandleUserRegister w d m fd s1 = Inr s'"
    using s1(2) DB_dispatch_cases [of w d m fd s1] by auto
  then have "keeping (db_traced d pw) s1 s'"
  proof cases
    case 2
    then obtain es where "db_log s' = db_log s1 @ es" "request_trace d es"
      using HandleUserLogin_log [OF 2] unfolding request_trace_def by blast
    then show ?thesis using db_traced_snoc by blast
  next
    case 3
    then obtain es where "db_log s' = db_log s1 @ es" "request_trace d es"
      using HandleUserRegister_log [OF 3] unfolding request_trace_def by blast
    then show ?thesis using db_traced_snoc by blast
  qed simp
  ultimately show ?thesis by blast
qed

interpretation dr: server_invariant w "DBServer_virtuals w d" "db_traced d pw"
proof
  show "base_frame (db_traced d pw)" by (rule func_frame_base [OF db_traced_frame])
  show "relates (keeping (db_traced d pw)) (v_close (DBServer_virtuals w d))"
    by (simp add: DBServer_virtuals_def Let_def db_close_keeps)
  show "keeping (db_traced d pw) s s'" if "v_handler (DBServer_virtuals w d) msg body len fd s = Inr s'"
    for msg body len fd s s'
    using that unfolding DBServer_virtuals_def Let_def virtuals.simps by (rule db_handler_keeps)
  show "keeping (db_traced d pw) s s'" if "v_callback (DBServer_virtuals w d) ty s = Inr s'" for ty s s'
  proof (cases "ty = FuncServer_SendSelfInfoToCenter")
    case True
    then have "SendSelfInfoToCenter (w_retries w) w (virtual_close (ServerBase_CloseClientSocket w)) Inr s = Inr s'"
      using that by (simp add: DBServer_virtuals_def Let_def)
    then show ?thesis
      by (rule SendSelfInfoToCenter_keeps [OF func_frame_keeps [OF db_traced_frame] db_close_keeps, rotated]) simp
  qed (use that in \<open>simp add: DBServer_virtuals_def Let_def\<close>)
  show "keeping (db_traced d pw) s s'" if "v_on_start (DBServer_virtuals w d) s = Inr (ok, s')" for s ok s'
    using that unfolding DBServer_virtuals_def Let_def virtuals.simps
    by (rule FuncServer_OnListenerStart_keeps [OF func_frame_keeps [OF db_traced_frame] db_close_keeps, rotated]) simp
qed

lemma db_main_traces:
  assumes "DBServer_main turns w d redis_password = Inr s"
  shows "db_log s = [] \<or> db_traced d redis_password s"
proof -
  obtain ok s0 where s0: "ConnectToMysqlAndRedis d redis_password (DBServer_new (w_cfg w)) = Inr (ok, s0)"
    using assms by (auto simp: DBServer_main_def)
  have new: "db_log (DBServer_new (w_cfg w)) = []"
    by (simp add: DBServer_new_def DBServer.defs FuncServer.FuncServer.defs)
  have start: "db_log s0 = [] \<and> \<not> ok \<or> db_log s0 = [Redis [''AUTH'', redis_password]]"
    using s0 new by (auto simp: ConnectToMysqlAndRedis_def redisCommand_def Let_def
        split: if_splits option.splits redis_reply.splits)
  then have traced: "db_log s0 = [] \<and> \<not> ok \<or> db_traced d redis_password s0"
    by (auto simp: db_traced_def intro!: exI [of _ "[]"])
  show ?thesis
  proof (cases ok)
    case True
    obtain ip port name where addr: "DATABASE_SERVER (w_cfg w) = (ip, port, name)"
      by (cases "DATABASE_SERVER (w_cfg w)")
    obtain go where "BootServer turns w (DBServer_virtuals w d) ip port name s0 = Inr (go, s)"
      using assms s0 True addr by (auto simp: DBServer_main_def)
    then show ?thesis using dr.boot_keeps traced True by blast
  next
    case False
    then show ?thesis using assms s0 traced by (auto simp: DBServer_main_def)
  qed
qed

end
