(* ===== verification/LogicServer.thy ===== *)
theory LogicServer
  imports FuncServer
begin

text \<open>
  The game logic server: \<open>src/Header/Server/LogicServer.h\<close>, \<open>src/Source/LogicServer.cpp\<close>. It owns the
  rooms and knows which user is in which room and behind which gate.

  \<open>rooms\<close> maps ids to the rooms themselves. In the source it holds pointers, and \<open>rooms[id]\<close> on a
  missing id inserts a null one; every such use follows the pointer at once, which is the fault
  \<open>NullDeref\<close> here, or erases the entry again. A room operation runs under \<open>with_room\<close>: the
  packets it sends are delivered in order when it returns. Delivering them inside the operation
  instead gives the same state, since sending reads and writes only the network part of the
  server and rooms never read that part.
\<close>

record LogicServer = FuncServer +
  rooms :: "Room omap"
  roomid_pool :: oset
  roomid_using :: oset
  userid2roomid :: "int omap"
  user_gate :: "int omap"
  inGames :: "int set"
  userid2username :: "string omap"

definition LogicServer_new :: "Config \<Rightarrow> LogicServer" where
  "LogicServer_new cfg =
     (let s = FuncServer_new cfg LOGIC in
      FuncServer.FuncServer.extend
        (s\<lparr>m_callfuncList := m_callfuncList s @
           [Timer_Start (Timer_new (ONE_FRAME_MS cfg) LogicServer_Update)]\<rparr>)
        (LogicServer.fields [] [1..ROOM_POOL_SIZE cfg] [] [] [] {} []))"

section \<open>Connections\<close>

definition LogicServer_TryToConnect ::
  "world \<Rightarrow> 'a LogicServer_scheme closer \<Rightarrow> 'a LogicServer_scheme \<Rightarrow> 'a LogicServer_scheme res" where
  "LogicServer_TryToConnect w close s =
     (if db_server_client s = -1 then ApplyServerByType w close DATABASE s else Inr s)"

definition LogicServer_close_body ::
  "world \<Rightarrow> 'a LogicServer_scheme closer \<Rightarrow> 'a LogicServer_scheme closer" where
  "LogicServer_close_body w close fd s =
     bindF (ServerBase_CloseClientSocket w close fd s) (\<lambda>s1.
       if fd = db_server_client s1
       then LogicServer_TryToConnect w close (s1\<lparr>db_server_client := -1\<rparr>)
       else Inr s1)"

definition LogicServer_CloseClientSocket :: "world \<Rightarrow> 'a LogicServer_scheme closer" where
  "LogicServer_CloseClientSocket w = virtual_close (LogicServer_close_body w)"

definition LogicServer_OnConnectToCenterServer ::
  "world \<Rightarrow> 'a LogicServer_scheme \<Rightarrow> 'a LogicServer_scheme res" where
  "LogicServer_OnConnectToCenterServer w =
     LogicServer_TryToConnect w (LogicServer_CloseClientSocket w)"

definition LogicServer_SendMsg ::
  "world \<Rightarrow> Message \<Rightarrow> int \<Rightarrow> 'a LogicServer_scheme \<Rightarrow> (bool \<times> 'a LogicServer_scheme) res" where
  "LogicServer_SendMsg w = SendMsg w (LogicServer_CloseClientSocket w)"

definition SendToClient ::
  "world \<Rightarrow> BODYTYPE \<Rightarrow> proto_body \<Rightarrow> int \<Rightarrow> 'a LogicServer_scheme \<Rightarrow>
     (bool \<times> 'a LogicServer_scheme) res" where
  "SendToClient w ty b userid s =
     (case om_get (user_gate s) userid of
        None \<Rightarrow> Inr (False, s)
      | Some gate \<Rightarrow> LogicServer_SendMsg w (make_message (w_cfg w) (w_pb w) ty userid b) gate s)"

section \<open>Rooms\<close>

fun deliver :: "world \<Rightarrow> BODYTYPE \<times> proto_body \<times> int \<Rightarrow>
    'a LogicServer_scheme \<Rightarrow> 'a LogicServer_scheme res" where
  "deliver w (ty, b, userid) s = bindF (SendToClient w ty b userid s) (\<lambda>(ok, s'). Inr s')"

definition with_room ::
  "world \<Rightarrow> int \<Rightarrow> (Room \<Rightarrow> 'b \<times> Room) \<Rightarrow> 'a LogicServer_scheme \<Rightarrow>
     ('b \<times> 'a LogicServer_scheme) res" where
  "with_room w roomid f s =
     (case om_get (rooms s) roomid of
        None \<Rightarrow> Inl NullDeref
      | Some r \<Rightarrow>
          let (x, r') = f r in
          case room_fault r' of
            Some e \<Rightarrow> Inl e
          | None \<Rightarrow>
              bindF (foldF (deliver w) (outbox r')
                       (s\<lparr>rooms := om_upd roomid (r'\<lparr>outbox := []\<rparr>) (rooms s)\<rparr>))
                (\<lambda>s'. Inr (x, s')))"

definition in_room ::
  "world \<Rightarrow> int \<Rightarrow> (Room \<Rightarrow> Room) \<Rightarrow> 'a LogicServer_scheme \<Rightarrow> 'a LogicServer_scheme res" where
  "in_room w roomid f s = bindF (with_room w roomid (\<lambda>r. ((), f r)) s) (\<lambda>(u, s'). Inr s')"

definition GetUserName :: "int \<Rightarrow> 'a LogicServer_scheme \<Rightarrow> string \<times> 'a LogicServer_scheme" where
  "GetUserName userid s =
     (om_at '''' (userid2username s) userid,
      s\<lparr>userid2username := om_touch '''' userid (userid2username s)\<rparr>)"

definition CheckUserInRoom :: "int \<Rightarrow> 'a LogicServer_scheme \<Rightarrow> bool" where
  "CheckUserInRoom userid s =
     (case om_get (userid2roomid s) userid of
        None \<Rightarrow> False
      | Some roomid \<Rightarrow> om_has roomid (rooms s))"

definition RemoveUser :: "int \<Rightarrow> 'a LogicServer_scheme \<Rightarrow> 'a LogicServer_scheme" where
  "RemoveUser userid s =
     (if om_has userid (userid2roomid s)
      then s\<lparr>userid2roomid := om_del userid (userid2roomid s)\<rparr> else s)"

text \<open>With an empty pool the source reads through \<open>roomid_pool.rend()\<close>.\<close>

definition AddRoom ::
  "world \<Rightarrow> string \<Rightarrow> 'a LogicServer_scheme \<Rightarrow> (int \<times> 'a LogicServer_scheme) res" where
  "AddRoom w roomname s =
     (case roomid_pool s of
        [] \<Rightarrow> Inl EmptyContainer
      | roomid # _ \<Rightarrow>
          Inr (roomid,
               (io_tick s)\<lparr>roomid_pool := os_del roomid (roomid_pool s),
                 roomid_using := os_ins roomid (roomid_using s),
                 rooms := om_upd roomid
                   (Room_new roomid roomname (ROOM_SIZE (w_cfg w)) (os_random (w_os w) (io_clock s)))
                   (rooms s)\<rparr>))"

definition RemoveRoom :: "world \<Rightarrow> int \<Rightarrow> 'a LogicServer_scheme \<Rightarrow> 'a LogicServer_scheme res" where
  "RemoveRoom w roomid s =
     (if roomid \<notin> set (roomid_using s) then Inr s
      else
        let s1 = s\<lparr>roomid_using := os_del roomid (roomid_using s),
                   userid2roomid := filter (\<lambda>p. snd p \<noteq> roomid) (userid2roomid s)\<rparr>
        in bindF (if om_has roomid (rooms s1) then in_room w roomid Room_destroy s1 else Inr s1)
             (\<lambda>s2. Inr (s2\<lparr>rooms := om_del roomid (rooms s2),
                           roomid_pool := (if roomid \<le> DEFAULT_ROOM_COUNT (w_cfg w)
                                           then os_ins roomid (roomid_pool s2)
                                           else roomid_pool s2)\<rparr>)))"

definition RemovePlayerFromRoom ::
  "world \<Rightarrow> int \<Rightarrow> 'a LogicServer_scheme \<Rightarrow> 'a LogicServer_scheme res" where
  "RemovePlayerFromRoom w userid s =
     (case om_get (userid2roomid s) userid of
        None \<Rightarrow> Inr s
      | Some roomid \<Rightarrow>
          bindF (with_room w roomid
                   (\<lambda>r. let r' = Room_LeaveFromRoom userid r in (PlayerCount r', r'))
                   (s\<lparr>userid2roomid := om_del userid (userid2roomid s)\<rparr>))
            (\<lambda>(n, s1). if n = 0 then RemoveRoom w roomid s1 else Inr s1))"

text \<open>\<open>JoinRoom\<close> asks for the user's name exactly when it lets the user in.\<close>

definition AddPlayerToRoom ::
  "world \<Rightarrow> int \<Rightarrow> int \<Rightarrow> 'a LogicServer_scheme \<Rightarrow> 'a LogicServer_scheme res" where
  "AddPlayerToRoom w userid roomid s =
     bindF (with_room w roomid (Room_JoinRoom (fst (GetUserName userid s)) userid) s)
       (\<lambda>(ok, s1). Inr (if ok
          then (snd (GetUserName userid s1))\<lparr>userid2roomid := om_upd userid roomid (userid2roomid s1)\<rparr>
          else s1))"

definition MovePlayerToRoom ::
  "world \<Rightarrow> int \<Rightarrow> int \<Rightarrow> 'a LogicServer_scheme \<Rightarrow> 'a LogicServer_scheme res" where
  "MovePlayerToRoom w userid roomid s =
     bindF (RemovePlayerFromRoom w userid s) (AddPlayerToRoom w userid roomid)"

text \<open>One frame for every room, in the order of their ids.\<close>

definition Update_rooms ::
  "world \<Rightarrow> 'a LogicServer_scheme \<Rightarrow> 'a LogicServer_scheme res" where
  "Update_rooms w s =
     foldF (\<lambda>roomid s.
              bindF (with_room w roomid (Room_Tick (w_cfg w)) s) (\<lambda>(ticked, s1).
                Inr (if ticked then s1\<lparr>inGames := insert roomid (inGames s1)\<rparr> else s1)))
       (om_keys (rooms s)) s"

section \<open>Requests\<close>

abbreviation sender :: "Message \<Rightarrow> int" where
  "sender msg \<equiv> m_userid (m_head msg)"

definition reply_to ::
  "world \<Rightarrow> Message \<Rightarrow> BODYTYPE \<Rightarrow> proto_body \<Rightarrow> 'a LogicServer_scheme \<Rightarrow> 'a LogicServer_scheme res" where
  "reply_to w msg ty b s = deliver w (ty, b, sender msg) s"

definition HandleJoinRoom ::
  "world \<Rightarrow> Message \<Rightarrow> 'a LogicServer_scheme \<Rightarrow> 'a LogicServer_scheme res" where
  "HandleJoinRoom w msg s =
     (case msg_object msg of
        Some (B_JoinRoom body) \<Rightarrow>
          if \<not> om_has (jr_roomid body) (rooms s)
          then reply_to w msg JoinRoom
                 (B_JoinRoom \<lparr>jr_roomid = -1, jr_result = txt_no_such_room, jr_type = RESPONSE,
                              jr_ret = False\<rparr>) s
          else MovePlayerToRoom w (sender msg) (jr_roomid body) s
      | _ \<Rightarrow> Inr s)"

definition HandleLeaveRoom ::
  "world \<Rightarrow> Message \<Rightarrow> 'a LogicServer_scheme \<Rightarrow> 'a LogicServer_scheme res" where
  "HandleLeaveRoom w msg s =
     (case msg_object msg of
        Some (B_LeaveRoom body) \<Rightarrow>
          if \<not> om_has (lr_roomid body) (rooms s) \<or>
             om_get (userid2roomid s) (sender msg) \<noteq> Some (lr_roomid body)
          then reply_to w msg LeaveRoom
                 (B_LeaveRoom \<lparr>lr_roomid = lr_roomid body, lr_ret = False, lr_result = txt_not_here,
                               lr_type = RESPONSE\<rparr>) s
          else RemovePlayerFromRoom w (sender msg) s
      | _ \<Rightarrow> Inr s)"

definition HandleCreateRoom ::
  "world \<Rightarrow> Message \<Rightarrow> 'a LogicServer_scheme \<Rightarrow> 'a LogicServer_scheme res" where
  "HandleCreateRoom w msg s =
     (case msg_object msg of
        Some (B_CreateRoom body) \<Rightarrow>
          if om_has (sender msg) (userid2roomid s)
          then reply_to w msg CreateRoom
                 (B_CreateRoom \<lparr>cr_roomid = -1, cr_ret = False, cr_result = txt_already_in_room,
                    cr_roomname = ''Error'', cr_type = RESPONSE, cr_is_roomhost = False\<rparr>) s
          else bindF (AddRoom w (cr_roomname body) s) (\<lambda>(roomid, s1).
                 case om_get (rooms s1) roomid of
                   None \<Rightarrow> Inl NullDeref
                 | Some r \<Rightarrow>
                     bindF (reply_to w msg CreateRoom
                              (B_CreateRoom \<lparr>cr_roomid = roomid, cr_ret = True,
                                 cr_result = txt_created, cr_roomname = m_name r,
                                 cr_type = RESPONSE, cr_is_roomhost = True\<rparr>) s1)
                       (MovePlayerToRoom w (sender msg) roomid))
      | _ \<Rightarrow> Inr s)"

definition room_summary :: "int \<times> Room \<Rightarrow> RoomInfoMsg" where
  "room_summary it =
     \<lparr>ri_roomid = fst it, ri_people_count = PlayerCount (snd it), ri_roomname = m_name (snd it)\<rparr>"

definition HandleGetRoomList ::
  "world \<Rightarrow> Message \<Rightarrow> 'a LogicServer_scheme \<Rightarrow> 'a LogicServer_scheme res" where
  "HandleGetRoomList w msg s =
     reply_to w msg GetRoomList
       (B_GetRoomList \<lparr>gl_room_list = map room_summary (rooms s),
          gl_size = int (length (roomid_using s)), gl_ret = True, gl_type = RESPONSE\<rparr>) s"

text \<open>Five requests go to the sender's room when there is one: \<open>HandleJoinGame\<close>, \<open>HandleQuitGame\<close>
  and \<open>HandleRoomChangeRole\<close> test it step by step, the other ones through \<open>CheckUserInRoom\<close>.\<close>

definition HandleJoinGame ::
  "world \<Rightarrow> Message \<Rightarrow> 'a LogicServer_scheme \<Rightarrow> 'a LogicServer_scheme res" where
  "HandleJoinGame w msg s =
     (case om_get (userid2roomid s) (sender msg) of
        None \<Rightarrow> Inr s
      | Some roomid \<Rightarrow>
          if \<not> om_has roomid (rooms s) then Inr s
          else in_room w roomid (NotifyUserJoinGame (sender msg)) s)"

definition HandleQuitGame ::
  "world \<Rightarrow> Message \<Rightarrow> 'a LogicServer_scheme \<Rightarrow> 'a LogicServer_scheme res" where
  "HandleQuitGame w msg s =
     (case om_get (userid2roomid s) (sender msg) of
        None \<Rightarrow> Inr s
      | Some roomid \<Rightarrow>
          if \<not> om_has roomid (rooms s) then Inr s
          else in_room w roomid (Room_LeaveFromGame (sender msg)) s)"

definition HandleRoomChangeRole ::
  "world \<Rightarrow> Message \<Rightarrow> 'a LogicServer_scheme \<Rightarrow> 'a LogicServer_scheme res" where
  "HandleRoomChangeRole w msg s =
     (case om_get (userid2roomid s) (sender msg) of
        None \<Rightarrow> Inr s
      | Some roomid \<Rightarrow>
          if \<not> om_has roomid (rooms s) then Inr s
          else in_room w roomid (Room_UserInfoChange msg) s)"

definition HandleStartGame ::
  "world \<Rightarrow> Message \<Rightarrow> 'a LogicServer_scheme \<Rightarrow> 'a LogicServer_scheme res" where
  "HandleStartGame w msg s =
     (if \<not> CheckUserInRoom (sender msg) s then Inr s
      else in_room w (om_at 0 (userid2roomid s) (sender msg)) (Room_StartGame (sender msg)) s)"

definition HandleEndGame ::
  "world \<Rightarrow> Message \<Rightarrow> 'a LogicServer_scheme \<Rightarrow> 'a LogicServer_scheme res" where
  "HandleEndGame w msg s =
     (if \<not> CheckUserInRoom (sender msg) s then Inr s
      else in_room w (om_at 0 (userid2roomid s) (sender msg)) Room_EndGame s)"

definition HandleUserOperate ::
  "world \<Rightarrow> Message \<Rightarrow> 'a LogicServer_scheme \<Rightarrow> 'a LogicServer_scheme res" where
  "HandleUserOperate w msg s =
     (if \<not> CheckUserInRoom (sender msg) s then Inr s
      else in_room w (om_at 0 (userid2roomid s) (sender msg)) (Room_OnUserOperate msg) s)"

definition HandleReconnect ::
  "world \<Rightarrow> int \<Rightarrow> 'a LogicServer_scheme \<Rightarrow> 'a LogicServer_scheme res" where
  "HandleReconnect w userid s =
     (case om_get (userid2roomid s) userid of
        None \<Rightarrow> Inr s
      | Some roomid \<Rightarrow>
          if \<not> om_has roomid (rooms s) then Inr s
          else in_room w roomid (Room_Reconnect userid) s)"

text \<open>The login answer that passes through, and the user state messages of the gates.\<close>

definition HandleLoginResponse ::
  "world \<Rightarrow> Message \<Rightarrow> 'a LogicServer_scheme \<Rightarrow> 'a LogicServer_scheme res" where
  "HandleLoginResponse w msg s =
     (case msg_object msg of
        Some (B_LoginResponse body) \<Rightarrow>
          let userid = lp_userid body;
              s1 = s\<lparr>userid2username := om_upd userid (lp_username body) (userid2username s)\<rparr>
          in (case om_get (userid2roomid s1) userid of
                None \<Rightarrow> Inr s1
              | Some roomid \<Rightarrow>
                  (case om_get (rooms s1) roomid of
                     None \<Rightarrow> Inr s1
                   | Some r \<Rightarrow> if m_gameStarted r then HandleReconnect w userid s1 else Inr s1))
      | _ \<Rightarrow> Inr s)"

definition LogicServer_HandleUserInfo ::
  "world \<Rightarrow> Message \<Rightarrow> 'a LogicServer_scheme \<Rightarrow> 'a LogicServer_scheme res" where
  "LogicServer_HandleUserInfo w msg s =
     (case msg_object msg of
        Some (B_UserInfo body) \<Rightarrow>
          if us_opt body = User_Logout then
            (case om_get (userid2roomid s) (us_userid body) of
               None \<Rightarrow> Inr s
             | Some roomid \<Rightarrow>
                 bindF (with_room w roomid
                          (\<lambda>r. let r' = SetUserOffline (us_userid body) r in (CheckRoomDead r', r')) s)
                   (\<lambda>(dead, s1). if dead then RemoveRoom w roomid s1 else Inr s1))
          else Inr s
      | _ \<Rightarrow> Inl NullDeref)"

definition LogicServer_dispatch ::
  "world \<Rightarrow> Message \<Rightarrow> 'a LogicServer_scheme \<Rightarrow> 'a LogicServer_scheme res" where
  "LogicServer_dispatch w msg s =
     (case bodytype_of (m_packageType (m_head msg)) of
        Some LoginResponse \<Rightarrow> HandleLoginResponse w msg s
      | Some JoinRoom \<Rightarrow> HandleJoinRoom w msg s
      | Some LeaveRoom \<Rightarrow> HandleLeaveRoom w msg s
      | Some CreateRoom \<Rightarrow> HandleCreateRoom w msg s
      | Some GetRoomList \<Rightarrow> HandleGetRoomList w msg s
      | Some JoinGame \<Rightarrow> HandleJoinGame w msg s
      | Some QuitGame \<Rightarrow> HandleQuitGame w msg s
      | Some ChangeRole \<Rightarrow> HandleRoomChangeRole w msg s
      | Some StartGame \<Rightarrow> HandleStartGame w msg s
      | Some EndGame \<Rightarrow> HandleEndGame w msg s
      | Some UserOperate \<Rightarrow> HandleUserOperate w msg s
      | Some UserInfo \<Rightarrow> LogicServer_HandleUserInfo w msg s
      | _ \<Rightarrow> Inr s)"

definition LogicServer_OnMsgBodyAnalysised ::
  "world \<Rightarrow> 'a LogicServer_scheme msg_handler" where
  "LogicServer_OnMsgBodyAnalysised w msg body len fd s =
     bindF (FuncServer_OnMsgBodyAnalysised w (LogicServer_CloseClientSocket w) msg body len fd s)
       (\<lambda>(msg1, s1).
          LogicServer_dispatch w msg1
            (s1\<lparr>user_gate := om_upd (sender msg1) fd (user_gate s1)\<rparr>))"

section \<open>The process\<close>

fun LogicServer_callback ::
  "world \<Rightarrow> CallbackType \<Rightarrow> 'a LogicServer_scheme \<Rightarrow> 'a LogicServer_scheme res" where
  "LogicServer_callback w LogicServer_Update s = Update_rooms w s"
| "LogicServer_callback w FuncServer_TryToConnectAvailabeServer s =
     LogicServer_TryToConnect w (LogicServer_CloseClientSocket w) s"
| "LogicServer_callback w FuncServer_SendSelfInfoToCenter s =
     SendSelfInfoToCenter (w_retries w) w (LogicServer_CloseClientSocket w)
       (LogicServer_OnConnectToCenterServer w) s"
| "LogicServer_callback w _ s = Inr s"

definition LogicServer_virtuals :: "world \<Rightarrow> 'a LogicServer_scheme virtuals" where
  "LogicServer_virtuals w =
     \<lparr>v_close = LogicServer_CloseClientSocket w,
      v_handler = LogicServer_OnMsgBodyAnalysised w,
      v_callback = LogicServer_callback w,
      v_on_start = FuncServer_OnListenerStart w (LogicServer_CloseClientSocket w)
                     (LogicServer_OnConnectToCenterServer w)\<rparr>"

definition LogicServer_BootServer ::
  "nat \<Rightarrow> world \<Rightarrow> string \<times> int \<times> string \<Rightarrow> 'a LogicServer_scheme \<Rightarrow> 'a LogicServer_scheme res" where
  "LogicServer_BootServer turns w addr s =
     (case addr of (ip, port, name) \<Rightarrow>
        bindF (BootServer turns w (LogicServer_virtuals w) ip port name s) (\<lambda>(go, s'). Inr s'))"

definition LogicServer_main :: "nat \<Rightarrow> world \<Rightarrow> LogicServer res" where
  "LogicServer_main turns w =
     foldF (LogicServer_BootServer turns w) (LOGIC_SERVERS (w_cfg w)) (LogicServer_new (w_cfg w))"

end
