(* ===== verification/Logic_Net.thy ===== *)
theory Logic_Net
  imports LogicServer
begin

text \<open>
  The network side of the logic server. Sending, closing and reconnecting leave the game state
  alone (\<open>same_game\<close>) and always return: the recursion of the virtual \<open>CloseClientSocket\<close> through
  \<open>SendMsg\<close> ends, and no packet the server builds is cut short. \<open>sends\<close> packages what that
  means for the handlers: delivering packets is the identity on the game state.
\<close>

definition same_game :: "'a LogicServer_scheme \<Rightarrow> 'a LogicServer_scheme \<Rightarrow> bool" where
  "same_game s t \<longleftrightarrow>
     rooms t = rooms s \<and> roomid_pool t = roomid_pool s \<and> roomid_using t = roomid_using s \<and>
     userid2roomid t = userid2roomid s \<and> user_gate t = user_gate s \<and> inGames t = inGames s \<and>
     userid2username t = userid2username s \<and> user_fd_record t = user_fd_record s \<and>
     server_type t = server_type s \<and> listen_fd t = listen_fd s"

lemma same_game_refl [simp]: "same_game s s"
  by (simp add: same_game_def)

lemma same_game_trans: "same_game s t \<Longrightarrow> same_game t u \<Longrightarrow> same_game s u"
  by (simp add: same_game_def)

lemma same_game_stable: "net_stable (\<lambda>s. True) same_game"
  by (auto simp: net_stable_def same_game_def net_do_def io_tick_def)

lemma LogicServer_TryToConnect_agree:
  "agree_below k c c' \<Longrightarrow> 2 * length (connections s) < k \<Longrightarrow>
     LogicServer_TryToConnect w c s = LogicServer_TryToConnect w c' s"
  by (simp add: LogicServer_TryToConnect_def ApplyServerByType_agree [of k c c'])

lemma LogicServer_TryToConnect_shrinks:
  "shrinking c \<Longrightarrow> LogicServer_TryToConnect w c s = Inr s' \<Longrightarrow>
     length (connections s') \<le> length (connections s)"
  by (auto simp: LogicServer_TryToConnect_def split: if_splits dest!: ApplyServerByType_shrinks)

lemma LogicServer_TryToConnect_good:
  assumes "net_config_ok (w_cfg w)" "net_stable I R" "good_below k I R c"
    "2 * length (connections s) < k" "I s"
  shows "\<exists>s'. LogicServer_TryToConnect w c s = Inr s' \<and> R s s'"
  using ApplyServerByType_good [OF assms] net_stableD(1) [OF assms(2)]
  by (simp add: LogicServer_TryToConnect_def)

lemma rank_after_close:
  assumes "shrinking c" "ServerBase_CloseClientSocket w c fd s = Inr s1"
  shows "2 * length (connections s1) < close_rank fd s"
  using ServerBase_Close_shrinks [OF assms] by (auto simp: close_rank_def)

lemma LogicServer_close_local:
  assumes c: "shrinking c" and ag: "agree_below (close_rank fd s) c c'"
  shows "LogicServer_close_body w c fd s = LogicServer_close_body w c' fd s"
proof (cases "ServerBase_CloseClientSocket w c fd s")
  case (Inr s1)
  have "LogicServer_TryToConnect w c (s1\<lparr>db_server_client := -1\<rparr>) =
      LogicServer_TryToConnect w c' (s1\<lparr>db_server_client := -1\<rparr>)"
    using rank_after_close [OF c Inr] by (intro LogicServer_TryToConnect_agree [OF ag]) simp
  then show ?thesis
    using Inr ServerBase_Close_agree [OF ag, of w] by (simp add: LogicServer_close_body_def)
qed (use ServerBase_Close_agree [OF ag, of w] in \<open>simp add: LogicServer_close_body_def\<close>)

lemma LogicServer_close_shrinks:
  assumes "shrinking c"
  shows "shrinking (LogicServer_close_body w c)"
  unfolding shrinking_def LogicServer_close_body_def
  by (auto split: if_splits dest!: LogicServer_TryToConnect_shrinks [OF assms]
      ServerBase_Close_shrinks [OF assms])

lemma LogicServer_close_good:
  assumes cfg: "net_config_ok (w_cfg w)" and c: "shrinking c"
    and good: "good_below (close_rank fd s) (\<lambda>s. True) same_game c"
  shows "\<exists>s'. LogicServer_close_body w c fd s = Inr s' \<and> same_game s s'"
proof -
  obtain s1 where s1: "ServerBase_CloseClientSocket w c fd s = Inr s1" "same_game s s1"
    using ServerBase_Close_good [OF cfg same_game_stable good TrueI] by blast
  let ?s = "s1\<lparr>db_server_client := -1\<rparr>"
  have "2 * length (connections ?s) < close_rank fd s"
    using rank_after_close [OF c s1(1)] by simp
  then obtain s2 where "LogicServer_TryToConnect w c ?s = Inr s2" "same_game ?s s2"
    using LogicServer_TryToConnect_good [OF cfg same_game_stable good, of ?s] by auto
  moreover from this have "same_game s s2"
    using s1(2) by (simp add: same_game_def)
  ultimately show ?thesis
    using s1 by (simp add: LogicServer_close_body_def)
qed

interpretation lc: safe_closing "LogicServer_close_body w" "\<lambda>s. True" same_game "net_config_ok (w_cfg w)"
proof
  fix c c' :: "'a LogicServer_scheme closer" and fd s
  show "LogicServer_close_body w c fd s = LogicServer_close_body w c' fd s"
    if "shrinking c" "agree_below (close_rank fd s) c c'"
    using that by (rule LogicServer_close_local)
  show "shrinking (LogicServer_close_body w c)" if "shrinking c"
    using that by (rule LogicServer_close_shrinks)
  show "\<exists>s'. LogicServer_close_body w c fd s = Inr s' \<and> same_game s s'"
    if "net_config_ok (w_cfg w)" "shrinking c" "good_below (close_rank fd s) (\<lambda>s. True) same_game c"
    using that by (rule LogicServer_close_good)
qed

section \<open>Delivering packets\<close>

lemma LogicServer_SendMsg_good:
  assumes "net_config_ok (w_cfg w)"
  shows "\<exists>ok s'. LogicServer_SendMsg w msg fd s = Inr (ok, s') \<and> same_game s s'"
  unfolding LogicServer_SendMsg_def LogicServer_CloseClientSocket_def
  by (rule SendMsg_good [OF assms same_game_stable lc.virtual_close_good_below [OF assms] lessI TrueI])

lemma deliver_good:
  assumes "net_config_ok (w_cfg w)"
  shows "\<exists>s'. deliver w m s = Inr s' \<and> same_game s s'"
proof (cases m)
  case (fields ty b u)
  show ?thesis
  proof (cases "om_get (user_gate s) u")
    case None
    then show ?thesis by (simp add: fields SendToClient_def)
  next
    case (Some gate)
    then show ?thesis
      using LogicServer_SendMsg_good [OF assms, of "make_message (w_cfg w) (w_pb w) ty u b" gate s]
      by (auto simp: fields SendToClient_def)
  qed
qed

lemma deliver_all_good:
  assumes "net_config_ok (w_cfg w)"
  shows "\<exists>s'. foldF (deliver w) ms s = Inr s' \<and> same_game s s'"
proof (induction ms arbitrary: s)
  case (Cons m ms)
  obtain s1 where "deliver w m s = Inr s1" "same_game s s1"
    using deliver_good [OF assms] by blast
  moreover obtain s2 where "foldF (deliver w) ms s1 = Inr s2" "same_game s1 s2"
    using Cons.IH by blast
  ultimately show ?case
    by (auto intro: same_game_trans)
qed simp

text \<open>The two shapes every handler is made of.\<close>

lemma reply_to_good:
  assumes "net_config_ok (w_cfg w)"
  shows "\<exists>s'. reply_to w msg ty b s = Inr s' \<and> same_game s s'"
  unfolding reply_to_def by (rule deliver_good [OF assms])

lemma with_room_good:
  assumes cfg: "net_config_ok (w_cfg w)" and r: "om_get (rooms s) roomid = Some r"
    and f: "f r = (x, r')" "room_fault r' = None"
  shows "\<exists>s'. with_room w roomid f s = Inr (x, s') \<and>
     same_game (s\<lparr>rooms := om_upd roomid (r'\<lparr>outbox := []\<rparr>) (rooms s)\<rparr>) s'"
proof -
  obtain s' where "foldF (deliver w) (outbox r')
      (s\<lparr>rooms := om_upd roomid (r'\<lparr>outbox := []\<rparr>) (rooms s)\<rparr>) = Inr s'"
    "same_game (s\<lparr>rooms := om_upd roomid (r'\<lparr>outbox := []\<rparr>) (rooms s)\<rparr>) s'"
    using deliver_all_good [OF cfg] by blast
  with r f show ?thesis
    by (simp add: with_room_def)
qed

lemma in_room_good:
  assumes "net_config_ok (w_cfg w)" "om_get (rooms s) roomid = Some r" "room_fault (f r) = None"
  shows "\<exists>s'. in_room w roomid f s = Inr s' \<and>
     same_game (s\<lparr>rooms := om_upd roomid ((f r)\<lparr>outbox := []\<rparr>) (rooms s)\<rparr>) s'"
  using with_room_good [OF assms(1,2), of "\<lambda>r. ((), f r)" "()" "f r"] assms(3)
  by (auto simp: in_room_def)

end
