(* ===== verification/Logic_Inv.thy ===== *)
theory Logic_Inv
  imports Logic_Net
begin

text \<open>
  The invariant of the logic server's game state and what the room service does to it.

  \<open>logic_wf\<close>: the room ids in use are exactly the rooms, the free ones are the rest of
  \<open>1..ROOM_POOL_SIZE\<close>, every room satisfies the room invariant and has members, and
  \<open>userid2roomid\<close> is exactly the membership of the rooms, so that nobody is in two rooms. Between
  the creation of a room and the entry of its creator the room is empty: \<open>logic_wf0 E\<close> allows
  that for the rooms in \<open>E\<close>.

  The abstract view of the service is the partial map from users to rooms
  (\<open>om_get (userid2roomid s)\<close>); the lemmas below say what every operation does to it.
\<close>

definition room_at :: "Config \<Rightarrow> int \<Rightarrow> Room \<Rightarrow> bool" where
  "room_at cfg rid r \<longleftrightarrow> room_inv cfg r \<and> outbox r = [] \<and> m_id r = rid \<and> m_size r = ROOM_SIZE cfg"

definition logic_wf0 :: "Config \<Rightarrow> int set \<Rightarrow> 'a LogicServer_scheme \<Rightarrow> bool" where
  "logic_wf0 cfg E s \<longleftrightarrow>
     om_wf (rooms s) \<and> om_wf (userid2roomid s) \<and> os_wf (roomid_pool s) \<and> os_wf (roomid_using s) \<and>
     set (roomid_using s) = dom (om_get (rooms s)) \<and>
     set (roomid_pool s) \<union> set (roomid_using s) = {1..ROOM_POOL_SIZE cfg} \<and>
     set (roomid_pool s) \<inter> set (roomid_using s) = {} \<and>
     (\<forall>rid r. om_get (rooms s) rid = Some r \<longrightarrow> room_at cfg rid r) \<and>
     (\<forall>rid r. om_get (rooms s) rid = Some r \<longrightarrow> userid2userpid r = [] \<longrightarrow> rid \<in> E) \<and>
     (\<forall>rid r u. om_get (rooms s) rid = Some r \<longrightarrow>
        om_has u (userid2userpid r) = (om_get (userid2roomid s) u = Some rid)) \<and>
     (\<forall>u rid. om_get (userid2roomid s) u = Some rid \<longrightarrow> om_has rid (rooms s))"

abbreviation logic_wf :: "Config \<Rightarrow> 'a LogicServer_scheme \<Rightarrow> bool" where
  "logic_wf cfg \<equiv> logic_wf0 cfg {}"

lemma logic_wf0_cong:
  "rooms t = rooms s \<Longrightarrow> roomid_pool t = roomid_pool s \<Longrightarrow> roomid_using t = roomid_using s \<Longrightarrow>
     userid2roomid t = userid2roomid s \<Longrightarrow> logic_wf0 cfg E t = logic_wf0 cfg E s"
  by (simp add: logic_wf0_def)

lemma logic_wf0_same: "same_game s t \<Longrightarrow> logic_wf0 cfg E t = logic_wf0 cfg E s"
  by (rule logic_wf0_cong) (simp_all add: same_game_def)

lemma logic_wf0D:
  assumes "logic_wf0 cfg E s"
  shows "om_wf (rooms s)" "om_wf (userid2roomid s)" "os_wf (roomid_pool s)" "os_wf (roomid_using s)"
    "set (roomid_using s) = dom (om_get (rooms s))"
    "set (roomid_pool s) \<union> set (roomid_using s) = {1..ROOM_POOL_SIZE cfg}"
    "set (roomid_pool s) \<inter> set (roomid_using s) = {}"
    "om_get (rooms s) rid = Some r \<Longrightarrow> room_at cfg rid r"
    "om_get (rooms s) rid = Some r \<Longrightarrow> userid2userpid r = [] \<Longrightarrow> rid \<in> E"
    "om_get (rooms s) rid = Some r \<Longrightarrow>
       om_has u (userid2userpid r) = (om_get (userid2roomid s) u = Some rid)"
    "om_get (userid2roomid s) u = Some rid \<Longrightarrow> om_has rid (rooms s)"
  using assms unfolding logic_wf0_def by blast+

lemma logic_wf0I:
  assumes "om_wf (rooms s)" "om_wf (userid2roomid s)" "os_wf (roomid_pool s)" "os_wf (roomid_using s)"
    "set (roomid_using s) = dom (om_get (rooms s))"
    "set (roomid_pool s) \<union> set (roomid_using s) = {1..ROOM_POOL_SIZE cfg}"
    "set (roomid_pool s) \<inter> set (roomid_using s) = {}"
    "\<And>rid r. om_get (rooms s) rid = Some r \<Longrightarrow> room_at cfg rid r"
    "\<And>rid r. om_get (rooms s) rid = Some r \<Longrightarrow> userid2userpid r = [] \<Longrightarrow> rid \<in> E"
    "\<And>rid r u. om_get (rooms s) rid = Some r \<Longrightarrow>
       om_has u (userid2userpid r) = (om_get (userid2roomid s) u = Some rid)"
    "\<And>u rid. om_get (userid2roomid s) u = Some rid \<Longrightarrow> om_has rid (rooms s)"
  shows "logic_wf0 cfg E s"
  unfolding logic_wf0_def by (intro conjI allI impI assms)

lemma room_at_wf: "room_at cfg rid r \<Longrightarrow> room_wf r" "room_at cfg rid r \<Longrightarrow> room_inv cfg r"
  "room_at cfg rid r \<Longrightarrow> m_size r = ROOM_SIZE cfg" "room_at cfg rid r \<Longrightarrow> m_id r = rid"
  by (simp_all add: room_at_def room_inv_def)

lemma room_inv_outbox [simp]: "room_inv cfg (r\<lparr>outbox := ob\<rparr>) = room_inv cfg r"
  by (simp add: room_inv_def game_on_def frames_ok_def)

lemma room_at_clear: "room_inv cfg r \<Longrightarrow> m_id r = rid \<Longrightarrow> m_size r = ROOM_SIZE cfg \<Longrightarrow>
    room_at cfg rid (r\<lparr>outbox := []\<rparr>)"
  by (simp add: room_at_def)

text \<open>A room changes, and with it the rooms its old and new members are in.\<close>

lemma logic_wf0_change:
  assumes wf: "logic_wf0 cfg E s" and r: "om_get (rooms s) rid = Some r"
    and r': "room_at cfg rid r'"
    and t: "rooms t = om_upd rid r' (rooms s)" "roomid_pool t = roomid_pool s"
      "roomid_using t = roomid_using s" "om_wf (userid2roomid t)"
    and mem: "\<And>u. om_has u (userid2userpid r') = (om_get (userid2roomid t) u = Some rid)"
    and others: "\<And>u id. id \<noteq> rid \<Longrightarrow>
      (om_get (userid2roomid t) u = Some id) = (om_get (userid2roomid s) u = Some id)"
    and E: "userid2userpid r' = [] \<Longrightarrow> rid \<in> E'" "E - {rid} \<subseteq> E'"
  shows "logic_wf0 cfg E' t"
proof (rule logic_wf0I)
  note D = logic_wf0D [OF wf]
  have dom: "dom ((om_get (rooms s))(rid \<mapsto> r')) = dom (om_get (rooms s))"
    using r by auto
  show "om_wf (rooms t)" "om_wf (userid2roomid t)" using D(1) t by simp_all
  show "os_wf (roomid_pool t)" "os_wf (roomid_using t)" using D(3,4) t by simp_all
  show "set (roomid_using t) = dom (om_get (rooms t))" using D(5) dom t by simp
  show "set (roomid_pool t) \<union> set (roomid_using t) = {1..ROOM_POOL_SIZE cfg}" using D(6) t by simp
  show "set (roomid_pool t) \<inter> set (roomid_using t) = {}" using D(7) t by simp
next
  fix rid' r1 u
  assume "om_get (rooms t) rid' = Some r1"
  then consider "rid' = rid" "r1 = r'" | "rid' \<noteq> rid" "om_get (rooms s) rid' = Some r1"
    using t(1) by (auto split: if_splits)
  note cases = this
  show "room_at cfg rid' r1"
    using cases logic_wf0D(8) [OF wf] r' by cases auto
  show "rid' \<in> E'" if "userid2userpid r1 = []"
    using cases logic_wf0D(9) [OF wf] that E by cases auto
  show "om_has u (userid2userpid r1) = (om_get (userid2roomid t) u = Some rid')"
    using cases logic_wf0D(10) [OF wf, of rid' r1 u] mem others [of rid' u] by cases auto
next
  fix u id
  assume "om_get (userid2roomid t) u = Some id"
  then show "om_has id (rooms t)"
    using others [of id u] logic_wf0D(11) [OF wf, of u id] t(1) by (cases "id = rid") auto
qed

lemma logic_wf0_update:
  assumes wf: "logic_wf0 cfg E s" and r: "om_get (rooms s) rid = Some r"
    and r': "room_at cfg rid r'" "om_keys (userid2userpid r') = om_keys (userid2userpid r)"
  shows "logic_wf0 cfg E (s\<lparr>rooms := om_upd rid r' (rooms s)\<rparr>)"
proof (rule logic_wf0_change [OF wf r r'(1)])
  have has: "om_has u (userid2userpid r') = om_has u (userid2userpid r)" for u
    using r'(2) by (rule om_has_cong)
  show "om_has u (userid2userpid r') =
      (om_get (userid2roomid (s\<lparr>rooms := om_upd rid r' (rooms s)\<rparr>)) u = Some rid)" for u
    using logic_wf0D(10) [OF wf r] has by simp
  show "userid2userpid r' = [] \<Longrightarrow> rid \<in> E"
    using logic_wf0D(9) [OF wf r] r'(2) by (metis om_keys_Nil_iff)
qed (use logic_wf0D(2) [OF wf] in auto)

lemma in_room_keeps:
  assumes cfg: "net_config_ok (w_cfg w)" and wf: "logic_wf0 (w_cfg w) E s"
    and r: "om_get (rooms s) rid = Some r"
    and f: "room_inv (w_cfg w) (f r)" "m_id (f r) = rid" "m_size (f r) = m_size r"
      "om_keys (userid2userpid (f r)) = om_keys (userid2userpid r)"
  shows "\<exists>s'. in_room w rid f s = Inr s' \<and> logic_wf0 (w_cfg w) E s' \<and>
     userid2roomid s' = userid2roomid s"
proof -
  let ?s = "s\<lparr>rooms := om_upd rid ((f r)\<lparr>outbox := []\<rparr>) (rooms s)\<rparr>"
  have "room_fault (f r) = None"
    using f(1) by (simp add: room_inv_def room_wfD)
  then obtain s' where s': "in_room w rid f s = Inr s'" "same_game ?s s'"
    using in_room_good [OF cfg r] by blast
  have "logic_wf0 (w_cfg w) E ?s"
    using logic_wf0D(8) [OF wf r] f
    by (intro logic_wf0_update [OF wf r] room_at_clear) (simp_all add: room_at_wf)
  then have "logic_wf0 (w_cfg w) E s'"
    by (simp only: logic_wf0_same [OF s'(2)])
  with s' show ?thesis
    by (simp add: same_game_def)
qed

section \<open>Rooms come and go\<close>

lemma om_del_upd [simp]: "om_del k (om_upd k v m) = om_del k m"
  by (induction k v m rule: om_upd.induct) (auto simp: om_del_def)

lemma om_wf_filter [simp]: "om_wf m \<Longrightarrow> om_wf (filter P m)"
  by (simp add: om_wf_def sorted_wrt_map sorted_wrt_filter)

lemma om_get_filter_value:
  "om_wf m \<Longrightarrow> om_get (filter (\<lambda>p. snd p \<noteq> x) m) k = (if om_get m k = Some x then None else om_get m k)"
proof (induction m)
  case (Cons e m)
  have "om_wf m" and "fst e \<notin> fst ` set m"
    using Cons.prems by (auto simp: om_wf_def)
  then have "om_get m (fst e) = None"
    by (simp add: map_of_eq_None_iff)
  with Cons.IH [OF \<open>om_wf m\<close>] show ?case
    by (cases e) auto
qed simp

lemma RemoveRoom_spec:
  assumes cfg: "net_config_ok (w_cfg w)" "ROOM_POOL_SIZE (w_cfg w) \<le> DEFAULT_ROOM_COUNT (w_cfg w)"
    and wf: "logic_wf0 (w_cfg w) E s" and rid: "om_get (rooms s) rid = Some r"
  shows "\<exists>s'. RemoveRoom w rid s = Inr s' \<and> logic_wf0 (w_cfg w) (E - {rid}) s' \<and>
     rooms s' = om_del rid (rooms s) \<and>
     userid2roomid s' = filter (\<lambda>p. snd p \<noteq> rid) (userid2roomid s)"
proof -
  note D = logic_wf0D [OF wf]
  let ?s1 = "s\<lparr>roomid_using := os_del rid (roomid_using s),
               userid2roomid := filter (\<lambda>p. snd p \<noteq> rid) (userid2roomid s)\<rparr>"
  have using_rid: "rid \<in> set (roomid_using s)" "rid \<le> ROOM_POOL_SIZE (w_cfg w)" "1 \<le> rid"
    using D(5,6) rid by (auto simp: set_eq_iff)
  have at: "room_at (w_cfg w) rid r" using logic_wf0D(8) [OF wf rid] .
  then have "room_fault (Room_destroy r) = None"
    using Room_destroy_spec [of r] by (simp add: room_at_def room_inv_def room_wfD)
  then obtain s2 where s2: "in_room w rid Room_destroy ?s1 = Inr s2"
    "same_game (?s1\<lparr>rooms := om_upd rid ((Room_destroy r)\<lparr>outbox := []\<rparr>) (rooms ?s1)\<rparr>) s2"
    using in_room_good [OF cfg(1), of ?s1 rid r Room_destroy] rid by auto
  let ?t = "s2\<lparr>rooms := om_del rid (rooms s2), roomid_pool := os_ins rid (roomid_pool s2)\<rparr>"
  have run: "RemoveRoom w rid s = Inr ?t"
    using s2 using_rid rid cfg(2) by (simp add: RemoveRoom_def om_has_def)
  have t: "rooms ?t = om_del rid (rooms s)" "roomid_pool ?t = os_ins rid (roomid_pool s)"
      "roomid_using ?t = os_del rid (roomid_using s)"
      "userid2roomid ?t = filter (\<lambda>p. snd p \<noteq> rid) (userid2roomid s)"
    using s2(2) by (simp_all add: same_game_def)
  have get: "om_get (userid2roomid ?t) u =
      (if om_get (userid2roomid s) u = Some rid then None else om_get (userid2roomid s) u)" for u
    unfolding t using D(2) by (rule om_get_filter_value)
  have "logic_wf0 (w_cfg w) (E - {rid}) ?t"
  proof (rule logic_wf0I)
    show "om_wf (rooms ?t)" "om_wf (userid2roomid ?t)" unfolding t using D(1,2) by simp_all
    show "os_wf (roomid_pool ?t)" "os_wf (roomid_using ?t)" unfolding t using D(3,4) by simp_all
    show "set (roomid_using ?t) = dom (om_get (rooms ?t))" unfolding t using D(5) by simp
    show "set (roomid_pool ?t) \<union> set (roomid_using ?t) = {1..ROOM_POOL_SIZE (w_cfg w)}"
      unfolding t using D(6) using_rid by auto
    show "set (roomid_pool ?t) \<inter> set (roomid_using ?t) = {}" unfolding t using D(7) by auto
  next
    fix id r1 u
    assume "om_get (rooms ?t) id = Some r1"
    then have id: "id \<noteq> rid" "om_get (rooms s) id = Some r1"
      unfolding t by (auto split: if_splits)
    show "room_at (w_cfg w) id r1" using logic_wf0D(8) [OF wf id(2)] .
    show "userid2userpid r1 = [] \<Longrightarrow> id \<in> E - {rid}" using logic_wf0D(9) [OF wf id(2)] id by auto
    show "om_has u (userid2userpid r1) = (om_get (userid2roomid ?t) u = Some id)"
      unfolding get using logic_wf0D(10) [OF wf id(2), of u] id by auto
  next
    fix u id
    assume "om_get (userid2roomid ?t) u = Some id"
    then show "om_has id (rooms ?t)"
      using get [of u] logic_wf0D(11) [OF wf, of u id] t(1) by (auto split: if_splits)
  qed
  with run t show ?thesis by blast
qed

text \<open>What the configuration has to give the room service.\<close>

definition logic_config_ok :: "Config \<Rightarrow> bool" where
  "logic_config_ok cfg \<longleftrightarrow> net_config_ok cfg \<and> room_config_ok cfg"

lemma logic_config_okD:
  assumes "logic_config_ok cfg"
  shows "net_config_ok cfg" "0 < ROOM_SIZE cfg" "ROOM_POOL_SIZE cfg \<le> DEFAULT_ROOM_COUNT cfg"
  using assms by (simp_all add: logic_config_ok_def room_config_ok_def)

lemma room_members_at:
  assumes "logic_wf0 cfg E s" "om_get (rooms s) rid = Some r"
  shows "om_has u (userid2userpid r) \<longleftrightarrow> om_get (userid2roomid s) u = Some rid"
  using logic_wf0D(10) [OF assms] .

lemma logic_wf0_nonempty:
  assumes wf: "logic_wf0 cfg {rid} s"
    and ne: "\<And>r. om_get (rooms s) rid = Some r \<Longrightarrow> userid2userpid r \<noteq> []"
  shows "logic_wf cfg s"
proof (rule logic_wf0I)
  show "id \<in> {}" if "om_get (rooms s) id = Some r" "userid2userpid r = []" for id r
    using logic_wf0D(9) [OF wf that] that ne by auto
qed (use logic_wf0D [OF wf] in \<open>assumption | blast\<close>)+

text \<open>Leaving: the user is in no room afterwards, nobody else moved, and the room is gone exactly
  when it has become empty.\<close>

lemma RemovePlayerFromRoom_spec:
  assumes cfg: "logic_config_ok (w_cfg w)" and wf: "logic_wf (w_cfg w) s"
  shows "\<exists>s'. RemovePlayerFromRoom w u s = Inr s' \<and> logic_wf (w_cfg w) s' \<and>
     om_get (userid2roomid s') = (om_get (userid2roomid s))(u := None) \<and>
     (\<forall>rid. om_has rid (rooms s') \<longleftrightarrow> om_has rid (rooms s) \<and>
        \<not> (om_get (userid2roomid s) u = Some rid \<and> (\<forall>v. om_get (userid2roomid s) v = Some rid \<longrightarrow> v = u))) \<and>
     (\<forall>rid. om_get (userid2roomid s) u \<noteq> Some rid \<longrightarrow> om_get (rooms s') rid = om_get (rooms s) rid)"
proof (cases "om_get (userid2roomid s) u")
  case None
  then show ?thesis using wf by (auto simp: RemovePlayerFromRoom_def)
next
  case (Some rid)
  note D = logic_wf0D [OF wf] and cfg' = logic_config_okD [OF cfg]
  obtain r where r: "om_get (rooms s) rid = Some r"
    using D(11) [OF Some] by (auto elim: om_hasE)
  define r' where "r' = Room_LeaveFromRoom u r"
  let ?s0 = "s\<lparr>userid2roomid := om_del u (userid2roomid s)\<rparr>"
  have at: "room_at (w_cfg w) rid r" by (rule D(8) [OF r])
  have inv: "room_inv (w_cfg w) r'"
    using room_step_safe [of "w_cfg w" r "EvLeaveFromRoom u"] at by (simp add: room_at_def r'_def)
  have mem: "userid2userpid r' = om_del u (userid2userpid r)" "m_size r' = m_size r" "m_id r' = m_id r"
    using LeaveFromRoom_spec [OF room_at_wf(1) [OF at], of u] by (simp_all add: r'_def)
  have fault: "room_fault r' = None" using inv by (simp add: room_inv_def room_wfD)
  let ?f = "\<lambda>r. let r' = Room_LeaveFromRoom u r in (PlayerCount r', r')"
  have f: "?f r = (PlayerCount r', r')"
    by (simp add: r'_def Let_def)
  have "om_get (rooms ?s0) rid = Some r" using r by simp
  from with_room_good [OF cfg'(1) this, of ?f "PlayerCount r'" r', OF f fault] obtain s1 where
    s1: "with_room w rid ?f ?s0 = Inr (PlayerCount r', s1)"
    and same: "same_game (?s0\<lparr>rooms := om_upd rid (r'\<lparr>outbox := []\<rparr>) (rooms ?s0)\<rparr>) s1"
    by blast
  have t: "rooms s1 = om_upd rid (r'\<lparr>outbox := []\<rparr>) (rooms s)" "roomid_pool s1 = roomid_pool s"
      "roomid_using s1 = roomid_using s" "userid2roomid s1 = om_del u (userid2roomid s)"
    using same by (simp_all add: same_game_def)
  have wf1: "logic_wf0 (w_cfg w) {rid} s1"
  proof (rule logic_wf0_change [OF wf r _ t(1-3)])
    show "room_at (w_cfg w) rid (r'\<lparr>outbox := []\<rparr>)"
      using inv mem at by (intro room_at_clear) (simp_all add: room_at_wf)
    show "om_wf (userid2roomid s1)" unfolding t using D(2) by simp
    show "om_has v (userid2userpid (r'\<lparr>outbox := []\<rparr>)) = (om_get (userid2roomid s1) v = Some rid)" for v
      unfolding t using room_members_at [OF wf r, of v] mem(1) by simp
    show "(om_get (userid2roomid s1) v = Some id) = (om_get (userid2roomid s) v = Some id)"
      if "id \<noteq> rid" for id v
      unfolding t using that Some by simp
  qed auto
  have empty: "userid2userpid r' = [] \<longleftrightarrow> (\<forall>v. om_get (userid2roomid s) v = Some rid \<longrightarrow> v = u)"
    unfolding mem om_eq_Nil_iff using room_members_at [OF wf r] by auto
  have others: "om_has id (rooms s1) = om_has id (rooms s)" for id
    unfolding t using r by (auto simp: om_has_def)
  show ?thesis
  proof (cases "userid2userpid r' = []")
    case False
    then have "logic_wf (w_cfg w) s1"
      using t(1) by (intro logic_wf0_nonempty [OF wf1]) auto
    moreover have "RemovePlayerFromRoom w u s = Inr s1"
      using Some s1 False by (simp add: RemovePlayerFromRoom_def PlayerCount_def)
    ultimately show ?thesis
      using False empty others Some t(1,4) by (intro exI [of _ s1]) auto
  next
    case True
    have r1: "om_get (rooms s1) rid = Some (r'\<lparr>outbox := []\<rparr>)" by (simp add: t)
    from RemoveRoom_spec [OF cfg'(1,3) wf1 r1] obtain s2 where
      s2: "RemoveRoom w rid s1 = Inr s2" "logic_wf (w_cfg w) s2" "rooms s2 = om_del rid (rooms s1)"
        "userid2roomid s2 = filter (\<lambda>p. snd p \<noteq> rid) (userid2roomid s1)"
      by auto
    have "RemovePlayerFromRoom w u s = Inr s2"
      using Some s1 True s2(1) by (simp add: RemovePlayerFromRoom_def PlayerCount_def)
    moreover have "om_get (userid2roomid s2) v = ((om_get (userid2roomid s))(u := None)) v" for v
      using s2(4) om_get_filter_value [of "userid2roomid s1" rid v] D(2) t(4) empty True by auto
    then have "om_get (userid2roomid s2) = (om_get (userid2roomid s))(u := None)"
      by (rule ext)
    moreover have "om_has id (rooms s2) \<longleftrightarrow> om_has id (rooms s) \<and>
        \<not> (om_get (userid2roomid s) u = Some id \<and>
            (\<forall>v. om_get (userid2roomid s) v = Some id \<longrightarrow> v = u))" for id
    proof -
      have "om_has id (rooms s2) \<longleftrightarrow> om_has id (rooms s) \<and> id \<noteq> rid"
        by (auto simp: s2(3) others)
      moreover have "om_get (userid2roomid s) u = Some id \<longleftrightarrow> id = rid"
        using Some by auto
      ultimately show ?thesis
        using empty True by blast
    qed
    moreover have "om_get (rooms s2) id = om_get (rooms s) id"
      if "om_get (userid2roomid s) u \<noteq> Some id" for id
      using that Some by (simp add: s2(3) t(1))
    ultimately show ?thesis
      using s2(2) by blast
  qed
qed

text \<open>Entering: the room lets the user in unless a game is running there or it is full.\<close>

definition joinable :: "Room \<Rightarrow> bool" where
  "joinable r \<longleftrightarrow> \<not> m_gameStarted r \<and> \<not> IsFull r"

lemma GetUserName_fields [simp]:
  "rooms (snd (GetUserName u s)) = rooms s"
  "roomid_pool (snd (GetUserName u s)) = roomid_pool s"
  "roomid_using (snd (GetUserName u s)) = roomid_using s"
  "userid2roomid (snd (GetUserName u s)) = userid2roomid s"
  by (simp_all add: GetUserName_def)

lemma AddPlayerToRoom_spec:
  assumes cfg: "logic_config_ok (w_cfg w)" and wf: "logic_wf0 (w_cfg w) E s"
    and r: "om_get (rooms s) rid = Some r" and u: "om_get (userid2roomid s) u = None"
  shows "\<exists>s'. AddPlayerToRoom w u rid s = Inr s' \<and>
     logic_wf0 (w_cfg w) (if joinable r then E - {rid} else E) s' \<and>
     om_get (userid2roomid s') =
       (if joinable r then (om_get (userid2roomid s))(u \<mapsto> rid) else om_get (userid2roomid s)) \<and>
     (\<forall>id. om_has id (rooms s') = om_has id (rooms s))"
proof -
  note D = logic_wf0D [OF wf] and cfg' = logic_config_okD [OF cfg]
  have at: "room_at (w_cfg w) rid r" by (rule D(8) [OF r])
  have rwf: "room_wf r" "0 \<le> m_size r" using at by (simp_all add: room_at_def room_inv_def)
  let ?name = "fst (GetUserName u s)"
  obtain ok r' where j: "Room_JoinRoom ?name u r = (ok, r')" by fastforce
  have inv: "room_inv (w_cfg w) r'"
    using room_step_safe [of "w_cfg w" r "EvJoinRoom ?name u"] at j by (simp add: room_at_def)
  have notin: "\<not> om_has u (userid2userpid r)"
    using room_members_at [OF wf r, of u] u by simp
  note J = JoinRoom_spec [OF rwf j]
  have ok: "ok \<longleftrightarrow> joinable r" using J notin by (simp add: joinable_def)
  have at': "room_at (w_cfg w) rid (r'\<lparr>outbox := []\<rparr>)"
    using inv J at by (intro room_at_clear) (simp_all add: room_at_wf)
  have fault: "room_fault r' = None" using inv by (simp add: room_inv_def room_wfD)
  obtain s1 where s1: "with_room w rid (Room_JoinRoom ?name u) s = Inr (ok, s1)"
      "same_game (s\<lparr>rooms := om_upd rid (r'\<lparr>outbox := []\<rparr>) (rooms s)\<rparr>) s1"
    using with_room_good [OF cfg'(1) r, of "Room_JoinRoom ?name u" ok r', OF j fault] by blast
  let ?t = "if ok then (snd (GetUserName u s1))\<lparr>userid2roomid := om_upd u rid (userid2roomid s1)\<rparr> else s1"
  have run: "AddPlayerToRoom w u rid s = Inr ?t"
    using s1 by (simp add: AddPlayerToRoom_def)
  have t: "rooms ?t = om_upd rid (r'\<lparr>outbox := []\<rparr>) (rooms s)" "roomid_pool ?t = roomid_pool s"
      "roomid_using ?t = roomid_using s"
      "userid2roomid ?t = (if ok then om_upd u rid (userid2roomid s) else userid2roomid s)"
    using s1(2) by (simp_all add: same_game_def)
  have "logic_wf0 (w_cfg w) (if joinable r then E - {rid} else E) ?t"
  proof (rule logic_wf0_change [OF wf r at' t(1-3)])
    show "om_wf (userid2roomid ?t)" unfolding t using D(2) by simp
    show "om_has v (userid2userpid (r'\<lparr>outbox := []\<rparr>)) = (om_get (userid2roomid ?t) v = Some rid)" for v
      unfolding t using room_members_at [OF wf r, of v] J by simp
    show "(om_get (userid2roomid ?t) v = Some id) = (om_get (userid2roomid s) v = Some id)"
      if "id \<noteq> rid" for id v
      unfolding t using that u by simp
    have "userid2userpid r' = (if joinable r then om_upd u (hd (userpid_pool r)) (userid2userpid r)
        else userid2userpid r)"
      using J ok by simp
    then show "userid2userpid (r'\<lparr>outbox := []\<rparr>) = [] \<Longrightarrow> rid \<in> (if joinable r then E - {rid} else E)"
      using D(9) [OF r] by (cases "joinable r") simp_all
  qed auto
  moreover have "om_get (userid2roomid ?t) = (if joinable r
      then (om_get (userid2roomid s))(u \<mapsto> rid) else om_get (userid2roomid s))"
    by (simp only: t(4)) (simp add: ok)
  moreover have "om_has id (rooms ?t) = om_has id (rooms s)" for id
    unfolding t using r by (auto simp: om_has_def)
  ultimately show ?thesis
    using run by blast
qed

text \<open>A new room: the least free id, with nobody in it.\<close>

lemma AddRoom_spec:
  assumes cfg: "logic_config_ok (w_cfg w)" and wf: "logic_wf (w_cfg w) s" and pool: "roomid_pool s \<noteq> []"
  shows "\<exists>rid s' r. AddRoom w name s = Inr (rid, s') \<and> logic_wf0 (w_cfg w) {rid} s' \<and>
     rid = Min (set (roomid_pool s)) \<and> \<not> om_has rid (rooms s) \<and>
     om_get (rooms s') = (om_get (rooms s))(rid \<mapsto> r) \<and> userid2userpid r = [] \<and> joinable r \<and>
     m_name r = name \<and> userid2roomid s' = userid2roomid s \<and> user_gate s' = user_gate s"
proof -
  note D = logic_wf0D [OF wf] and cfg' = logic_config_okD [OF cfg]
  obtain rid ps where p: "roomid_pool s = rid # ps" using pool by (cases "roomid_pool s") auto
  have least: "rid = Min (set (roomid_pool s))"
    using D(3) p by (intro Min_eqI [symmetric]) (auto simp: less_imp_le)
  let ?r = "Room_new rid name (ROOM_SIZE (w_cfg w)) (os_random (w_os w) (io_clock s))"
  let ?t = "(io_tick s)\<lparr>roomid_pool := os_del rid (roomid_pool s),
     roomid_using := os_ins rid (roomid_using s), rooms := om_upd rid ?r (rooms s)\<rparr>"
  have t: "rooms ?t = om_upd rid ?r (rooms s)" "roomid_pool ?t = os_del rid (roomid_pool s)"
      "roomid_using ?t = os_ins rid (roomid_using s)" "userid2roomid ?t = userid2roomid s"
      "user_gate ?t = user_gate s"
    by (simp_all add: io_tick_def)
  have rid: "rid \<in> set (roomid_pool s)" "rid \<notin> set (roomid_using s)" "om_get (rooms s) rid = None"
    using p D(5,7) by auto
  have r: "room_at (w_cfg w) rid ?r" "userid2userpid ?r = []" "joinable ?r"
    using Room_new_inv [of "ROOM_SIZE (w_cfg w)"] cfg'(2)
    by (simp_all add: room_at_def Room_new_def joinable_def IsFull_def PlayerCount_def)
  have out: "om_get (userid2roomid s) u \<noteq> Some rid" for u
    using D(11) [of u rid] rid(3) by (auto simp: om_has_def)
  have "logic_wf0 (w_cfg w) {rid} ?t"
  proof (rule logic_wf0I)
    show "om_wf (rooms ?t)" "om_wf (userid2roomid ?t)" unfolding t using D(1,2) by simp_all
    show "os_wf (roomid_pool ?t)" "os_wf (roomid_using ?t)" unfolding t using D(3,4) by simp_all
    show "set (roomid_using ?t) = dom (om_get (rooms ?t))" unfolding t using D(5) by simp
    show "set (roomid_pool ?t) \<union> set (roomid_using ?t) = {1..ROOM_POOL_SIZE (w_cfg w)}"
      unfolding t using D(6) rid by auto
    show "set (roomid_pool ?t) \<inter> set (roomid_using ?t) = {}" unfolding t using D(7) by auto
  next
    fix id r1 u
    assume "om_get (rooms ?t) id = Some r1"
    then consider "id = rid" "r1 = ?r" | "id \<noteq> rid" "om_get (rooms s) id = Some r1"
      unfolding t by (auto split: if_splits)
    note cases = this
    show "room_at (w_cfg w) id r1" using cases D(8) r by cases auto
    show "userid2userpid r1 = [] \<Longrightarrow> id \<in> {rid}" using cases D(9) by cases auto
    show "om_has u (userid2userpid r1) = (om_get (userid2roomid ?t) u = Some id)"
      unfolding t using cases logic_wf0D(10) [OF wf, of id r1 u] r(2) out by cases auto
  next
    fix u id
    assume "om_get (userid2roomid ?t) u = Some id"
    then show "om_has id (rooms ?t)" unfolding t using D(11) by simp
  qed
  moreover have "AddRoom w name s = Inr (rid, ?t)" by (simp add: AddRoom_def p)
  moreover have "om_get (rooms ?t) = (om_get (rooms s))(rid \<mapsto> ?r)" by (simp add: t)
  moreover have "m_name ?r = name" by (simp add: Room_new_def)
  ultimately show ?thesis
    using least rid(3) r t(4,5) unfolding om_has_def by blast
qed

end
