(* ===== verification/Logic_Handlers.thy ===== *)
theory Logic_Handlers
  imports Logic_Inv
begin

text \<open>
  The requests of the logic server, one specification each: in a well-formed state the handler
  returns, leaves a well-formed state and moves nobody but the users it says. The three ways
  out of that are guards here and stated as theorems of their own: creating a room when no id
  is free, joining the room one is alone in, and packets whose body is not of the class their
  type announces, which the base class cannot produce.
\<close>

section \<open>Requests inside a room\<close>

text \<open>The calls the handlers make that change no membership: not joining and leaving, and none of those
  only the room itself makes.\<close>

fun moves :: "room_event \<Rightarrow> bool" where
  "moves (EvJoinRoom name u) = True"
| "moves (EvLeave u) = True"
| "moves (EvLeaveFromRoom u) = True"
| "moves (EvResize n) = True"
| "moves EvKickFromGame = True"
| "moves EvKickFromRoom = True"
| "moves (EvChangeHost u) = True"
| "moves (EvInfo u) = True"
| "moves EvInfoToAll = True"
| "moves (EvNotifyStartTo u) = True"
| "moves EvNotifyStart = True"
| "moves EvNotifyEnd = True"
| "moves (EvNotifyQuitGame u) = True"
| "moves _ = False"

lemma room_apply_stays:
  assumes inv: "room_inv cfg r" and ok: "room_ok r e" and e: "\<not> moves e"
  shows "m_id (room_apply cfg e r) = m_id r \<and> m_size (room_apply cfg e r) = m_size r \<and>
     userid2userpid (room_apply cfg e r) = userid2userpid r"
proof -
  have wf: "room_wf r" using inv by (simp add: room_inv_def)
  show ?thesis
  proof (cases e)
    case (EvLeaveFromGame u)
    then show ?thesis using LeaveFromGame_spec [OF wf, of u] by (simp add: game_frame_def)
  next
    case EvEndGame
    then show ?thesis using EndGame_spec [OF wf] by (simp add: game_frame_def)
  next
    case (EvChangeRole m)
    have "\<exists>q. msg_object m = Some (B_ChangeRole q)" if "om_has (sender m) (userid2userpid r)"
      using ok that EvChangeRole by (auto split: option.splits proto_body.splits)
    from UserInfoChange_spec [OF wf this] show ?thesis using EvChangeRole by simp
  next
    case (EvOnline u)
    then show ?thesis by (simp add: SetUserOnline_def)
  qed (use e wf JoinGame_spec [OF wf] Reconnect_spec [OF wf] OnUserOperate_spec [OF wf]
      StartGame_spec [OF wf] SetUserOffline_spec [OF wf] Tick_spec [OF wf] ok
      NotifyUserJoinGame_spec [OF wf] in simp_all)
qed

lemma room_event_handled:
  assumes cfg: "logic_config_ok (w_cfg w)" and wf: "logic_wf0 (w_cfg w) E s"
    and r: "om_get (rooms s) rid = Some r" and e: "room_ok r e" "\<not> moves e"
  shows "\<exists>s'. in_room w rid (room_apply (w_cfg w) e) s = Inr s' \<and> logic_wf0 (w_cfg w) E s' \<and>
     userid2roomid s' = userid2roomid s"
proof -
  have at: "room_at (w_cfg w) rid r" by (rule logic_wf0D(8) [OF wf r])
  then have inv: "room_inv (w_cfg w) r" by (simp add: room_at_def)
  have "room_inv (w_cfg w) (room_apply (w_cfg w) e r)"
    by (rule room_step_safe [OF inv e(1)])
  then show ?thesis
    using room_apply_stays [OF inv e] at
    by (intro in_room_keeps [OF logic_config_okD(1) [OF cfg] wf r]) (simp_all add: room_at_def)
qed

text \<open>The handled result every such request has.\<close>

definition quiet :: "world \<Rightarrow> 'a LogicServer_scheme \<Rightarrow> 'a LogicServer_scheme res \<Rightarrow> bool" where
  "quiet w s x \<longleftrightarrow> (\<exists>s'. x = Inr s' \<and> logic_wf (w_cfg w) s' \<and> userid2roomid s' = userid2roomid s)"

lemma quiet_same [simp]: "logic_wf (w_cfg w) s \<Longrightarrow> quiet w s (Inr s)"
  by (simp add: quiet_def)

lemma quietD: "quiet w s x \<Longrightarrow> \<exists>s'. x = Inr s' \<and> logic_wf (w_cfg w) s' \<and>
    om_get (userid2roomid s') = om_get (userid2roomid s)"
  by (auto simp: quiet_def)

lemma quiet_event:
  assumes "logic_config_ok (w_cfg w)" "logic_wf (w_cfg w) s" "om_get (rooms s) rid = Some r"
    "room_ok r e" "\<not> moves e" "room_apply (w_cfg w) e = f"
  shows "quiet w s (in_room w rid f s)"
  using room_event_handled [OF assms(1-5)] unfolding quiet_def assms(6) .

lemma quiet_reply:
  assumes "logic_config_ok (w_cfg w)" "logic_wf (w_cfg w) s"
  shows "quiet w s (reply_to w msg ty b s)"
proof -
  obtain s' where s': "reply_to w msg ty b s = Inr s'" "same_game s s'"
    using reply_to_good [OF logic_config_okD(1) [OF assms(1)]] by blast
  then have "logic_wf (w_cfg w) s'"
    using assms(2) by (simp only: logic_wf0_same [OF s'(2)])
  with s' show ?thesis by (simp add: quiet_def same_game_def)
qed

lemma member_room:
  assumes "logic_wf0 cfg E s" "om_get (userid2roomid s) u = Some rid"
  obtains r where "om_get (rooms s) rid = Some r" "om_has u (userid2userpid r)"
proof -
  obtain r where r: "om_get (rooms s) rid = Some r"
    using logic_wf0D(11) [OF assms] by (auto elim: om_hasE)
  moreover have "om_has u (userid2userpid r)"
    using room_members_at [OF assms(1) r] assms(2) by simp
  ultimately show thesis using that by blast
qed

lemma CheckUserInRoom_wf:
  "logic_wf0 cfg E s \<Longrightarrow> CheckUserInRoom u s \<longleftrightarrow> om_has u (userid2roomid s)"
  using logic_wf0D(11) [of cfg E s u] by (auto simp: CheckUserInRoom_def om_has_def split: option.split)

lemma HandleJoinGame_quiet:
  assumes "logic_config_ok (w_cfg w)" "logic_wf (w_cfg w) s"
  shows "quiet w s (HandleJoinGame w msg s)"
  using assms quiet_event [OF assms, of _ _ "EvNotifyJoinGame (sender msg)"]
  by (auto simp: HandleJoinGame_def om_has_def fun_eq_iff split: option.split)

lemma HandleQuitGame_quiet:
  assumes "logic_config_ok (w_cfg w)" "logic_wf (w_cfg w) s"
  shows "quiet w s (HandleQuitGame w msg s)"
  using assms quiet_event [OF assms, of _ _ "EvLeaveFromGame (sender msg)"]
  by (auto simp: HandleQuitGame_def om_has_def fun_eq_iff split: option.split)

lemma HandleReconnect_quiet:
  assumes "logic_config_ok (w_cfg w)" "logic_wf (w_cfg w) s"
  shows "quiet w s (HandleReconnect w u s)"
  using assms quiet_event [OF assms, of _ _ "EvReconnect u"]
  by (auto simp: HandleReconnect_def om_has_def fun_eq_iff split: option.split)

lemma HandleRoomChangeRole_quiet:
  assumes "logic_config_ok (w_cfg w)" "logic_wf (w_cfg w) s"
    and "msg_object msg = Some (B_ChangeRole q)"
  shows "quiet w s (HandleRoomChangeRole w msg s)"
  using assms quiet_event [OF assms(1,2), of _ _ "EvChangeRole msg"]
  by (auto simp: HandleRoomChangeRole_def om_has_def fun_eq_iff split: option.split)

lemma HandleStartGame_quiet:
  assumes cfg: "logic_config_ok (w_cfg w)" and wf: "logic_wf (w_cfg w) s"
  shows "quiet w s (HandleStartGame w msg s)"
proof (cases "om_get (userid2roomid s) (sender msg)")
  case None
  then show ?thesis using wf by (simp add: HandleStartGame_def CheckUserInRoom_def)
next
  case (Some rid)
  obtain r where r: "om_get (rooms s) rid = Some r" "om_has (sender msg) (userid2userpid r)"
    using member_room [OF wf Some] .
  have "quiet w s (in_room w rid (Room_StartGame (sender msg)) s)"
    using r by (intro quiet_event [OF cfg wf r(1), of "EvStartGame (sender msg)"]) (auto simp: fun_eq_iff)
  then show ?thesis
    using Some r by (simp add: HandleStartGame_def CheckUserInRoom_def om_has_def)
qed

lemma HandleEndGame_quiet:
  assumes "logic_config_ok (w_cfg w)" "logic_wf (w_cfg w) s"
  shows "quiet w s (HandleEndGame w msg s)"
  using assms quiet_event [OF assms, of _ _ EvEndGame]
  by (auto simp: HandleEndGame_def CheckUserInRoom_def om_has_def fun_eq_iff split: option.splits)

lemma HandleUserOperate_quiet:
  assumes "logic_config_ok (w_cfg w)" "logic_wf (w_cfg w) s"
  shows "quiet w s (HandleUserOperate w msg s)"
  using assms quiet_event [OF assms, of _ _ "EvOperate msg"]
  by (auto simp: HandleUserOperate_def CheckUserInRoom_def om_has_def fun_eq_iff split: option.splits)

lemma HandleGetRoomList_quiet:
  "logic_config_ok (w_cfg w) \<Longrightarrow> logic_wf (w_cfg w) s \<Longrightarrow> quiet w s (HandleGetRoomList w msg s)"
  unfolding HandleGetRoomList_def by (rule quiet_reply)

lemma HandleLoginResponse_quiet:
  assumes "logic_config_ok (w_cfg w)" "logic_wf (w_cfg w) s"
  shows "quiet w s (HandleLoginResponse w msg s)"
proof (cases "\<exists>body. msg_object msg = Some (B_LoginResponse body)")
  case False
  then show ?thesis
    using assms by (auto simp: HandleLoginResponse_def split: option.split proto_body.split)
next
  case True
  then obtain body where body: "msg_object msg = Some (B_LoginResponse body)" ..
  let ?s = "s\<lparr>userid2username := om_upd (lp_userid body) (lp_username body) (userid2username s)\<rparr>"
  have "logic_wf (w_cfg w) ?s \<longleftrightarrow> logic_wf (w_cfg w) s"
    by (rule logic_wf0_cong) simp_all
  with assms(2) have "logic_wf (w_cfg w) ?s" by simp
  then have "quiet w ?s (HandleReconnect w (lp_userid body) ?s)" "quiet w ?s (Inr ?s)"
    using HandleReconnect_quiet [OF assms(1)] by auto
  then show ?thesis
    using body by (auto simp: HandleLoginResponse_def quiet_def Let_def split: option.splits)
qed

section \<open>Moving between rooms\<close>

text \<open>The user is alone in the room.\<close>

definition alone_in :: "'a LogicServer_scheme \<Rightarrow> int \<Rightarrow> int \<Rightarrow> bool" where
  "alone_in s u rid \<longleftrightarrow> om_get (userid2roomid s) u = Some rid \<and>
     (\<forall>v. om_get (userid2roomid s) v = Some rid \<longrightarrow> v = u)"

lemma MovePlayerToRoom_spec:
  assumes cfg: "logic_config_ok (w_cfg w)" and wf: "logic_wf (w_cfg w) s"
    and r: "om_get (rooms s) rid = Some r" and alone: "\<not> alone_in s u rid"
  shows "\<exists>s' joined. MovePlayerToRoom w u rid s = Inr s' \<and> logic_wf (w_cfg w) s' \<and>
     om_get (userid2roomid s') =
       (if joined then (om_get (userid2roomid s))(u \<mapsto> rid) else (om_get (userid2roomid s))(u := None)) \<and>
     (om_get (userid2roomid s) u \<noteq> Some rid \<longrightarrow> joined = joinable r)"
proof -
  obtain s1 where s1: "RemovePlayerFromRoom w u s = Inr s1" "logic_wf (w_cfg w) s1"
      "om_get (userid2roomid s1) = (om_get (userid2roomid s))(u := None)"
    and has: "om_has rid (rooms s1) \<longleftrightarrow> om_has rid (rooms s) \<and> \<not> alone_in s u rid"
    and other: "om_get (userid2roomid s) u \<noteq> Some rid \<Longrightarrow> om_get (rooms s1) rid = om_get (rooms s) rid"
    using RemovePlayerFromRoom_spec [OF cfg wf, of u] unfolding alone_in_def by blast
  obtain r1 where r1: "om_get (rooms s1) rid = Some r1"
    using has alone r by (auto simp: om_has_def)
  have "om_get (userid2roomid s1) u = None" using s1(3) by simp
  from AddPlayerToRoom_spec [OF cfg s1(2) r1 this] obtain s2 where
    s2: "AddPlayerToRoom w u rid s1 = Inr s2" "logic_wf (w_cfg w) s2"
      "om_get (userid2roomid s2) = (if joinable r1 then (om_get (userid2roomid s1))(u \<mapsto> rid)
         else om_get (userid2roomid s1))"
    by (auto split: if_splits)
  have "om_get (userid2roomid s) u \<noteq> Some rid \<longrightarrow> joinable r1 = joinable r"
    using other r r1 by auto
  then show ?thesis
    using s1(1,3) s2 by (intro exI [of _ s2] exI [of _ "joinable r1"]) (auto simp: MovePlayerToRoom_def)
qed

text \<open>Joining the room one is alone in: leaving it first deletes it.\<close>

lemma MovePlayerToRoom_alone:
  assumes cfg: "logic_config_ok (w_cfg w)" and wf: "logic_wf (w_cfg w) s" and alone: "alone_in s u rid"
  shows "MovePlayerToRoom w u rid s = Inl NullDeref"
proof -
  obtain s1 where s1: "RemovePlayerFromRoom w u s = Inr s1"
    and "om_has rid (rooms s1) \<longleftrightarrow> om_has rid (rooms s) \<and> \<not> alone_in s u rid"
    using RemovePlayerFromRoom_spec [OF cfg wf, of u] unfolding alone_in_def by blast
  then have "om_get (rooms s1) rid = None"
    using alone by (simp add: om_has_def)
  with s1 show ?thesis
    by (simp add: MovePlayerToRoom_def AddPlayerToRoom_def with_room_def)
qed

section \<open>The requests that move users\<close>

text \<open>The abstract view: who is in which room.\<close>

abbreviation room_of :: "'a LogicServer_scheme \<Rightarrow> int \<Rightarrow> int option" where
  "room_of s \<equiv> om_get (userid2roomid s)"

lemma HandleJoinRoom_spec:
  assumes cfg: "logic_config_ok (w_cfg w)" and wf: "logic_wf (w_cfg w) s"
    and b: "msg_object msg = Some (B_JoinRoom body)"
    and alone: "\<not> alone_in s (sender msg) (jr_roomid body)"
  shows "\<exists>s'. HandleJoinRoom w msg s = Inr s' \<and> logic_wf (w_cfg w) s' \<and>
     (room_of s' = room_of s \<or> room_of s' = (room_of s)(sender msg := None) \<or>
      room_of s' = (room_of s)(sender msg \<mapsto> jr_roomid body))"
proof (cases "om_get (rooms s) (jr_roomid body)")
  case None
  then show ?thesis
    using quietD [of w s "HandleJoinRoom w msg s"] quiet_reply [OF cfg wf] b
    by (auto simp: HandleJoinRoom_def om_has_def)
next
  case (Some r)
  from MovePlayerToRoom_spec [OF cfg wf Some alone] show ?thesis
    using b Some by (auto simp: HandleJoinRoom_def om_has_def split: if_splits)
qed

lemma HandleLeaveRoom_spec:
  assumes cfg: "logic_config_ok (w_cfg w)" and wf: "logic_wf (w_cfg w) s"
    and b: "msg_object msg = Some (B_LeaveRoom body)"
  shows "\<exists>s'. HandleLeaveRoom w msg s = Inr s' \<and> logic_wf (w_cfg w) s' \<and>
     room_of s' = (if room_of s (sender msg) = Some (lr_roomid body)
                   then (room_of s)(sender msg := None) else room_of s)"
proof (cases "room_of s (sender msg) = Some (lr_roomid body)")
  case False
  then show ?thesis
    using quietD [of w s "HandleLeaveRoom w msg s"] quiet_reply [OF cfg wf] b
    by (simp add: HandleLeaveRoom_def)
next
  case True
  then have "om_has (lr_roomid body) (rooms s)"
    using logic_wf0D(11) [OF wf] by simp
  with True b RemovePlayerFromRoom_spec [OF cfg wf, of "sender msg"] show ?thesis
    by (auto simp: HandleLeaveRoom_def)
qed

lemma HandleCreateRoom_spec:
  assumes cfg: "logic_config_ok (w_cfg w)" and wf: "logic_wf (w_cfg w) s"
    and b: "msg_object msg = Some (B_CreateRoom body)"
    and pool: "roomid_pool s \<noteq> [] \<or> om_has (sender msg) (userid2roomid s)"
  shows "\<exists>s'. HandleCreateRoom w msg s = Inr s' \<and> logic_wf (w_cfg w) s' \<and>
     room_of s' = (if room_of s (sender msg) = None
                   then (room_of s)(sender msg \<mapsto> Min (set (roomid_pool s))) else room_of s)"
proof (cases "room_of s (sender msg)")
  case (Some rid)
  then show ?thesis
    using quietD [of w s "HandleCreateRoom w msg s"] quiet_reply [OF cfg wf] b
    by (simp add: HandleCreateRoom_def om_has_def)
next
  case None
  then have "roomid_pool s \<noteq> []" using pool by (simp add: om_has_def)
  from AddRoom_spec [OF cfg wf this, of "cr_roomname body"] obtain rid s1 r where
    s1: "AddRoom w (cr_roomname body) s = Inr (rid, s1)" "logic_wf0 (w_cfg w) {rid} s1"
      "rid = Min (set (roomid_pool s))" "om_get (rooms s1) rid = Some r" "joinable r"
      "userid2roomid s1 = userid2roomid s"
    by auto
  let ?reply = "B_CreateRoom \<lparr>cr_roomid = rid, cr_ret = True, cr_result = txt_created,
    cr_roomname = m_name r, cr_type = RESPONSE, cr_is_roomhost = True\<rparr>"
  obtain s2 where s2: "reply_to w msg CreateRoom ?reply s1 = Inr s2" "same_game s1 s2"
    using reply_to_good [OF logic_config_okD(1) [OF cfg]] by blast
  have wf2: "logic_wf0 (w_cfg w) {rid} s2"
    using s1(2) by (simp only: logic_wf0_same [OF s2(2)])
  have s2': "om_get (rooms s2) rid = Some r" "userid2roomid s2 = userid2roomid s"
    using s1 s2(2) by (simp_all add: same_game_def)
  then have "room_of s2 (sender msg) = None" using None by simp
  from AddPlayerToRoom_spec [OF cfg wf2 s2'(1) this] obtain s3 where
    "AddPlayerToRoom w (sender msg) rid s2 = Inr s3" "logic_wf (w_cfg w) s3"
    "room_of s3 = (room_of s2)(sender msg \<mapsto> rid)"
    using s1(5) by auto
  moreover have "RemovePlayerFromRoom w (sender msg) s2 = Inr s2"
    using None s2'(2) by (simp add: RemovePlayerFromRoom_def)
  ultimately show ?thesis
    using None b s1(1,3,4) s2(1) s2'(2)
    by (auto simp: HandleCreateRoom_def om_has_def MovePlayerToRoom_def)
qed

lemma HandleCreateRoom_exhausted:
  "msg_object msg = Some (B_CreateRoom body) \<Longrightarrow> roomid_pool s = [] \<Longrightarrow>
     \<not> om_has (sender msg) (userid2roomid s) \<Longrightarrow> HandleCreateRoom w msg s = Inl EmptyContainer"
  by (simp add: HandleCreateRoom_def AddRoom_def)

text \<open>A gate reports a lost client: the user leaves the running game but stays in the room; when
  the room then counts as dead, everybody in it is out of any room.\<close>

definition kills_room :: "'a LogicServer_scheme \<Rightarrow> UserInfoMsg \<Rightarrow> bool" where
  "kills_room s body \<longleftrightarrow> us_opt body = User_Logout \<and>
     (case om_get (userid2roomid s) (us_userid body) of
        None \<Rightarrow> False
      | Some rid \<Rightarrow> (case om_get (rooms s) rid of
          None \<Rightarrow> False | Some r \<Rightarrow> CheckRoomDead (SetUserOffline (us_userid body) r)))"

lemma Logout_spec:
  assumes cfg: "logic_config_ok (w_cfg w)" and wf: "logic_wf (w_cfg w) s"
    and b: "msg_object msg = Some (B_UserInfo body)"
  shows "\<exists>s'. LogicServer_HandleUserInfo w msg s = Inr s' \<and> logic_wf (w_cfg w) s' \<and>
     room_of s' = (if kills_room s body
       then (\<lambda>v. if room_of s v = room_of s (us_userid body) then None else room_of s v)
       else room_of s)"
proof (cases "us_opt body = User_Logout")
  case False
  then show ?thesis using wf b by (auto simp: LogicServer_HandleUserInfo_def kills_room_def split: UserInfo_Operation.split)
next
  case True
  note cfg' = logic_config_okD [OF cfg]
  show ?thesis
  proof (cases "room_of s (us_userid body)")
    case None
    then show ?thesis using wf b by (auto simp: LogicServer_HandleUserInfo_def kills_room_def)
  next
    case (Some rid)
    obtain r where r: "om_get (rooms s) rid = Some r"
      using member_room [OF wf Some] .
    let ?r = "SetUserOffline (us_userid body) r"
    let ?f = "\<lambda>r. let r' = SetUserOffline (us_userid body) r in (CheckRoomDead r', r')"
    have at: "room_at (w_cfg w) rid r" by (rule logic_wf0D(8) [OF wf r])
    then have inv: "room_inv (w_cfg w) r" by (simp add: room_at_def)
    have inv': "room_inv (w_cfg w) ?r"
      using room_step_safe [OF inv, of "EvOffline (us_userid body)"] by simp
    have stay: "m_id ?r = rid" "m_size ?r = ROOM_SIZE (w_cfg w)" "userid2userpid ?r = userid2userpid r"
      using room_apply_stays [OF inv, of "EvOffline (us_userid body)"] at by (simp_all add: room_at_def)
    have "room_fault ?r = None" using inv' by (simp add: room_inv_def room_wfD)
    moreover have "?f r = (CheckRoomDead ?r, ?r)" by (simp add: Let_def)
    ultimately obtain s1 where s1: "with_room w rid ?f s = Inr (CheckRoomDead ?r, s1)"
      "same_game (s\<lparr>rooms := om_upd rid (?r\<lparr>outbox := []\<rparr>) (rooms s)\<rparr>) s1"
      using with_room_good [OF cfg'(1) r, of ?f "CheckRoomDead ?r" ?r] by blast
    have "logic_wf (w_cfg w) (s\<lparr>rooms := om_upd rid (?r\<lparr>outbox := []\<rparr>) (rooms s)\<rparr>)"
      using inv' stay by (intro logic_wf0_update [OF wf r] room_at_clear) simp_all
    then have wf1: "logic_wf (w_cfg w) s1"
      by (simp only: logic_wf0_same [OF s1(2)])
    have t: "userid2roomid s1 = userid2roomid s" "om_get (rooms s1) rid = Some (?r\<lparr>outbox := []\<rparr>)"
      using s1(2) by (simp_all add: same_game_def)
    have run: "LogicServer_HandleUserInfo w msg s =
        (if CheckRoomDead ?r then RemoveRoom w rid s1 else Inr s1)"
      using b True Some s1(1) by (simp add: LogicServer_HandleUserInfo_def)
    have kills: "kills_room s body = CheckRoomDead ?r"
      using True Some r by (simp add: kills_room_def)
    show ?thesis
    proof (cases "CheckRoomDead ?r")
      case False
      then show ?thesis using run wf1 t(1) kills by simp
    next
      case True
      from RemoveRoom_spec [OF cfg'(1,3) wf1 t(2)] obtain s2 where
        s2: "RemoveRoom w rid s1 = Inr s2" "logic_wf (w_cfg w) s2"
          "userid2roomid s2 = filter (\<lambda>p. snd p \<noteq> rid) (userid2roomid s1)"
        by auto
      have "room_of s2 = (\<lambda>v. if room_of s v = Some rid then None else room_of s v)"
        using logic_wf0D(2) [OF wf] by (simp add: s2(3) t(1) om_get_filter_value fun_eq_iff)
      with s2 True run Some kills show ?thesis by auto
    qed
  qed
qed

end
