(* ===== verification/Logic_Machine.thy ===== *)
theory Logic_Machine
  imports Logic_Handlers
begin

text \<open>
  What the logic server does with one frame tick and with one packet: it is handled and keeps the
  invariant, but for a frame counter at its last value (\<open>update_ok\<close>) and the two requests that run
  into undefined behaviour (\<open>request_ok\<close>).
\<close>

section \<open>A frame for every room\<close>

definition tick_room :: "world \<Rightarrow> int \<Rightarrow> 'a LogicServer_scheme \<Rightarrow> 'a LogicServer_scheme res" where
  "tick_room w rid s =
     bindF (with_room w rid (Room_Tick (w_cfg w)) s) (\<lambda>(ticked, s1).
       Inr (if ticked then s1\<lparr>inGames := insert rid (inGames s1)\<rparr> else s1))"

lemma Update_rooms_fold: "Update_rooms w s = foldF (tick_room w) (om_keys (rooms s)) s"
proof -
  have eq: "tick_room w = (\<lambda>roomid s.
      bindF (with_room w roomid (Room_Tick (w_cfg w)) s) (\<lambda>(ticked, s1).
        Inr (if ticked then s1\<lparr>inGames := insert roomid (inGames s1)\<rparr> else s1)))"
    by (intro ext) (simp add: tick_room_def)
  show ?thesis unfolding Update_rooms_def eq by (rule refl)
qed

definition ticked :: "Config \<Rightarrow> Room \<Rightarrow> Room" where
  "ticked cfg r = (snd (Room_Tick cfg r))\<lparr>outbox := []\<rparr>"

lemma tick_room_spec:
  assumes cfg: "logic_config_ok (w_cfg w)" and wf: "logic_wf (w_cfg w) s"
    and r: "om_get (rooms s) rid = Some r" and on: "ticks_on r"
  shows "\<exists>s'. tick_room w rid s = Inr s' \<and> logic_wf (w_cfg w) s' \<and>
     userid2roomid s' = userid2roomid s \<and> om_get (rooms s') = (om_get (rooms s))(rid \<mapsto> ticked (w_cfg w) r) \<and>
     inGames s' = (if m_gameStarted r then insert rid (inGames s) else inGames s)"
proof -
  have at: "room_at (w_cfg w) rid r" by (rule logic_wf0D(8) [OF wf r])
  then have inv: "room_inv (w_cfg w) r" by (simp add: room_at_def)
  let ?r = "snd (Room_Tick (w_cfg w) r)"
  have inv': "room_inv (w_cfg w) ?r" using room_step_safe [OF inv, of EvTick] on by simp
  have stay: "m_id ?r = rid" "m_size ?r = ROOM_SIZE (w_cfg w)" "userid2userpid ?r = userid2userpid r"
    using room_apply_stays [OF inv, of EvTick] at on by (simp_all add: room_at_def)
  have "fst (Room_Tick (w_cfg w) r) = m_gameStarted r"
    using Tick_spec [OF room_at_wf(1) [OF at] on] by simp
  then have f: "Room_Tick (w_cfg w) r = (m_gameStarted r, ?r)"
    by (simp add: prod_eq_iff)
  have "room_fault ?r = None" using inv' by (simp add: room_inv_def room_wfD)
  then obtain s1 where s1: "with_room w rid (Room_Tick (w_cfg w)) s = Inr (m_gameStarted r, s1)"
    "same_game (s\<lparr>rooms := om_upd rid (ticked (w_cfg w) r) (rooms s)\<rparr>) s1"
    using with_room_good [OF logic_config_okD(1) [OF cfg] r, of "Room_Tick (w_cfg w)" "m_gameStarted r" ?r] f
    unfolding ticked_def by blast
  have "logic_wf (w_cfg w) (s\<lparr>rooms := om_upd rid (ticked (w_cfg w) r) (rooms s)\<rparr>)"
    unfolding ticked_def
    using inv' stay by (intro logic_wf0_update [OF wf r] room_at_clear) simp_all
  then have wf1: "logic_wf (w_cfg w) s1"
    by (simp only: logic_wf0_same [OF s1(2)])
  have wf2: "logic_wf (w_cfg w) (s1\<lparr>inGames := g\<rparr>) = logic_wf (w_cfg w) s1" for g
    by (rule logic_wf0_cong) simp_all
  show ?thesis
    using s1 wf1 wf2 by (auto simp: tick_room_def same_game_def)
qed

lemma tick_rooms_spec:
  assumes cfg: "logic_config_ok (w_cfg w)"
  shows "logic_wf (w_cfg w) s \<Longrightarrow> distinct ks \<Longrightarrow> set ks \<subseteq> dom (om_get (rooms s)) \<Longrightarrow>
     (\<And>k r. k \<in> set ks \<Longrightarrow> om_get (rooms s) k = Some r \<Longrightarrow> ticks_on r) \<Longrightarrow> \<exists>s'. foldF (tick_room w) ks s = Inr s' \<and> logic_wf (w_cfg w) s' \<and>
       userid2roomid s' = userid2roomid s \<and>
       om_get (rooms s') = (\<lambda>rid. if rid \<in> set ks then map_option (ticked (w_cfg w)) (om_get (rooms s) rid)
                                  else om_get (rooms s) rid)"
proof (induction ks arbitrary: s)
  case (Cons k ks)
  obtain r where r: "om_get (rooms s) k = Some r" using Cons.prems(3) by auto
  have on: "ticks_on r" by (rule Cons.prems(4) [OF _ r]) simp
  from tick_room_spec [OF cfg Cons.prems(1) r on] obtain s1 where
    s1: "tick_room w k s = Inr s1" "logic_wf (w_cfg w) s1" "userid2roomid s1 = userid2roomid s"
      "om_get (rooms s1) = (om_get (rooms s))(k \<mapsto> ticked (w_cfg w) r)"
    by blast
  have "set ks \<subseteq> dom (om_get (rooms s1))" using Cons.prems(3) s1(4) by auto
  moreover have "ticks_on r'" if "k' \<in> set ks" "om_get (rooms s1) k' = Some r'" for k' r'
    using that Cons.prems(2) s1(4) by (intro Cons.prems(4) [of k']) (auto split: if_splits)
  ultimately obtain s2 where
    "foldF (tick_room w) ks s1 = Inr s2" "logic_wf (w_cfg w) s2" "userid2roomid s2 = userid2roomid s1"
      "om_get (rooms s2) = (\<lambda>rid. if rid \<in> set ks then map_option (ticked (w_cfg w)) (om_get (rooms s1) rid)
                                  else om_get (rooms s1) rid)"
    using Cons.IH [OF s1(2)] Cons.prems(2) by auto
  with s1 r Cons.prems(2) show ?case
    by (auto simp: fun_eq_iff)
qed simp

text \<open>Every running game has a frame number left.\<close>

definition update_ok :: "'a LogicServer_scheme \<Rightarrow> bool" where
  "update_ok s \<longleftrightarrow> (\<forall>p\<in>set (rooms s). ticks_on (snd p))"

lemma update_okD: "update_ok s \<Longrightarrow> om_get (rooms s) rid = Some r \<Longrightarrow> ticks_on r"
  unfolding update_ok_def using map_of_SomeD by fastforce

lemma Update_rooms_spec:
  assumes cfg: "logic_config_ok (w_cfg w)" and wf: "logic_wf (w_cfg w) s" and on: "update_ok s"
  shows "\<exists>s'. Update_rooms w s = Inr s' \<and> logic_wf (w_cfg w) s' \<and> userid2roomid s' = userid2roomid s \<and>
     om_get (rooms s') = (\<lambda>rid. map_option (ticked (w_cfg w)) (om_get (rooms s) rid))"
proof -
  have "distinct (om_keys (rooms s))"
    using logic_wf0D(1) [OF wf] by (simp add: om_keys_def om_wf_distinct)
  moreover have "(\<lambda>rid. if rid \<in> set (om_keys (rooms s)) then map_option (ticked (w_cfg w)) (om_get (rooms s) rid)
      else om_get (rooms s) rid) = (\<lambda>rid. map_option (ticked (w_cfg w)) (om_get (rooms s) rid))"
  proof (rule ext)
    fix rid
    show "(if rid \<in> set (om_keys (rooms s)) then map_option (ticked (w_cfg w)) (om_get (rooms s) rid)
      else om_get (rooms s) rid) = map_option (ticked (w_cfg w)) (om_get (rooms s) rid)"
      by (cases "om_get (rooms s) rid") auto
  qed
  ultimately show ?thesis
    using tick_rooms_spec [OF cfg wf, of "om_keys (rooms s)"] update_okD [OF on] by (simp add: Update_rooms_fold)
qed

text \<open>A frame that was ticked did not overflow, so the invariant holds of what the ticks leave in any
  case.\<close>

lemma tick_room_ran:
  assumes r: "om_get (rooms s) rid = Some r" and run: "tick_room w rid s = Inr s'"
  shows "ticks_on r"
proof (rule ccontr)
  assume "\<not> ticks_on r"
  then have "Room_Tick (w_cfg w) r = (True, room_crash SignedOverflow r)"
    by (intro Room_Tick_overflow) (auto simp: ticks_on_def)
  with r run show False
    by (auto simp: tick_room_def with_room_def room_crash_def split: option.splits)
qed

lemma tick_rooms_keep:
  assumes cfg: "logic_config_ok (w_cfg w)"
  shows "logic_wf (w_cfg w) s \<Longrightarrow> set ks \<subseteq> dom (om_get (rooms s)) \<Longrightarrow> foldF (tick_room w) ks s = Inr s' \<Longrightarrow>
     logic_wf (w_cfg w) s'"
proof (induction ks arbitrary: s)
  case (Cons k ks)
  obtain r where r: "om_get (rooms s) k = Some r" using Cons.prems(2) by auto
  obtain s1 where s1: "tick_room w k s = Inr s1" "foldF (tick_room w) ks s1 = Inr s'"
    using Cons.prems(3) by auto
  have "logic_wf (w_cfg w) s1" "om_get (rooms s1) = (om_get (rooms s))(k \<mapsto> ticked (w_cfg w) r)"
    using tick_room_spec [OF cfg Cons.prems(1) r tick_room_ran [OF r s1(1)]] s1(1) by auto
  moreover from this(2) have "set ks \<subseteq> dom (om_get (rooms s1))" using Cons.prems(2) by auto
  ultimately show ?case using Cons.IH [OF _ _ s1(2)] by blast
qed simp

lemma Update_rooms_keep:
  "logic_config_ok (w_cfg w) \<Longrightarrow> logic_wf (w_cfg w) s \<Longrightarrow> Update_rooms w s = Inr s' \<Longrightarrow> logic_wf (w_cfg w) s'"
  using tick_rooms_keep [of w s "om_keys (rooms s)" s'] by (simp add: Update_rooms_fold)

section \<open>Requests\<close>

definition request_ok :: "Message \<Rightarrow> 'a LogicServer_scheme \<Rightarrow> bool" where
  "request_ok msg s \<longleftrightarrow>
     (case msg_object msg of
        Some (B_CreateRoom q) \<Rightarrow> roomid_pool s \<noteq> [] \<or> om_has (sender msg) (userid2roomid s)
      | Some (B_JoinRoom q) \<Rightarrow> \<not> alone_in s (sender msg) (jr_roomid q)
      | _ \<Rightarrow> True)"

lemma quiet_wf: "quiet w s x \<Longrightarrow> \<exists>s'. x = Inr s' \<and> logic_wf (w_cfg w) s'"
  by (auto simp: quiet_def)

lemma LogicServer_dispatch_safe:
  assumes cfg: "logic_config_ok (w_cfg w)" and wf: "logic_wf (w_cfg w) s"
    and typed: "msg_typed msg" and ok: "request_ok msg s"
  shows "\<exists>s'. LogicServer_dispatch w msg s = Inr s' \<and> logic_wf (w_cfg w) s'"
proof (cases "bodytype_of (m_packageType (m_head msg))")
  case None
  then show ?thesis using wf by (simp add: LogicServer_dispatch_def)
next
  case (Some ty)
  note cls = msg_typed_class [OF typed bodytype_code_of [OF Some, symmetric]]
  note quiets = HandleLoginResponse_quiet [OF cfg wf] HandleGetRoomList_quiet [OF cfg wf]
    HandleJoinGame_quiet [OF cfg wf] HandleQuitGame_quiet [OF cfg wf] HandleStartGame_quiet [OF cfg wf]
    HandleEndGame_quiet [OF cfg wf] HandleUserOperate_quiet [OF cfg wf]
  consider "ty = ChangeRole" | "ty = JoinRoom" | "ty = LeaveRoom" | "ty = CreateRoom" | "ty = UserInfo"
    | "ty \<notin> {ChangeRole, JoinRoom, LeaveRoom, CreateRoom, UserInfo}"
    by blast
  then show ?thesis
  proof cases
    case 1
    then obtain q where "msg_object msg = Some (B_ChangeRole q)"
      using cls by (auto simp: body_class_eqs)
    from quiet_wf [OF HandleRoomChangeRole_quiet [OF cfg wf this]] show ?thesis
      using Some 1 by (simp add: LogicServer_dispatch_def)
  next
    case 2
    then obtain q where q: "msg_object msg = Some (B_JoinRoom q)"
      using cls by (auto simp: body_class_eqs)
    then have "\<not> alone_in s (sender msg) (jr_roomid q)" using ok by (simp add: request_ok_def)
    from HandleJoinRoom_spec [OF cfg wf q this] have "\<exists>s'. HandleJoinRoom w msg s = Inr s' \<and> logic_wf (w_cfg w) s'"
      by blast
    then show ?thesis
      using Some 2 by (simp add: LogicServer_dispatch_def)
  next
    case 3
    then obtain q where "msg_object msg = Some (B_LeaveRoom q)"
      using cls by (auto simp: body_class_eqs)
    from HandleLeaveRoom_spec [OF cfg wf this] have "\<exists>s'. HandleLeaveRoom w msg s = Inr s' \<and> logic_wf (w_cfg w) s'"
      by blast
    then show ?thesis
      using Some 3 by (simp add: LogicServer_dispatch_def)
  next
    case 4
    then obtain q where q: "msg_object msg = Some (B_CreateRoom q)"
      using cls by (auto simp: body_class_eqs)
    then have "roomid_pool s \<noteq> [] \<or> om_has (sender msg) (userid2roomid s)"
      using ok by (simp add: request_ok_def)
    from HandleCreateRoom_spec [OF cfg wf q this] have "\<exists>s'. HandleCreateRoom w msg s = Inr s' \<and> logic_wf (w_cfg w) s'"
      by blast
    then show ?thesis
      using Some 4 by (simp add: LogicServer_dispatch_def)
  next
    case 5
    then obtain q where "msg_object msg = Some (B_UserInfo q)"
      using cls by (auto simp: body_class_eqs)
    from Logout_spec [OF cfg wf this] have "\<exists>s'. LogicServer_HandleUserInfo w msg s = Inr s' \<and> logic_wf (w_cfg w) s'"
      by blast
    then show ?thesis
      using Some 5 by (simp add: LogicServer_dispatch_def)
  next
    case 6
    then show ?thesis
      using Some wf quiets [THEN quiet_wf]
      by (cases ty) (simp_all add: LogicServer_dispatch_def)
  qed
qed

text \<open>The base part of every message: it may connect to a server, and keeps the game state.\<close>

definition same_rooms :: "'a LogicServer_scheme \<Rightarrow> 'a LogicServer_scheme \<Rightarrow> bool" where
  "same_rooms s t \<longleftrightarrow> rooms t = rooms s \<and> roomid_pool t = roomid_pool s \<and>
     roomid_using t = roomid_using s \<and> userid2roomid t = userid2roomid s"

lemma logic_wf0_same_rooms: "same_rooms s t \<Longrightarrow> logic_wf0 cfg E t = logic_wf0 cfg E s"
  by (rule logic_wf0_cong) (simp_all add: same_rooms_def)

lemma same_rooms_stable: "conn_stable (\<lambda>s. True) same_rooms"
  by (auto simp: conn_stable_def net_stable_def same_rooms_def net_do_def io_tick_def)

lemma LogicServer_close_good_rooms:
  assumes cfg: "net_config_ok (w_cfg w)"
  shows "good_below k (\<lambda>s. True) same_rooms (LogicServer_CloseClientSocket w)"
proof -
  have "\<exists>s'. LogicServer_CloseClientSocket w fd s = Inr s' \<and> same_rooms s s'"
    for fd and s :: "'a LogicServer_scheme"
    using lc.virtual_close_good [OF cfg, of fd s]
    by (auto simp: LogicServer_CloseClientSocket_def same_game_def same_rooms_def)
  then show ?thesis by (simp add: good_below_def)
qed

lemma FuncServer_OnMsg_safe:
  assumes cfg: "net_config_ok (w_cfg w)" and pb: "pb_keeps_class (w_pb w)"
    and len: "length body < 2 ^ 31"
  shows "\<exists>m' s'. FuncServer_OnMsgBodyAnalysised w (LogicServer_CloseClientSocket w) m body
       (word_of_nat (length body)) fd s = Inr (m', s') \<and>
     m_head m' = m_head m \<and> msg_typed m' \<and> same_rooms s s' \<and>
     ServerBase_OnMsgBodyAnalysised w m body (word_of_nat (length body)) = Inr m'"
proof -
  obtain m' where m': "ServerBase_OnMsgBodyAnalysised w m body (word_of_nat (length body)) = Inr m'"
      "m_head m' = m_head m" "msg_typed m'"
    using ServerBase_OnMsg_typed [OF pb refl len] by blast
  have ty: "bodytype_of (bodytype_code b) = Some b" for b by simp
  have refl_rooms: "same_rooms s s" by (simp add: same_rooms_def)
  consider "m_packageType (m_head m') = bodytype_code ServerInfo"
    | "m_packageType (m_head m') = bodytype_code UserInfo"
    | "m_packageType (m_head m') \<noteq> bodytype_code ServerInfo"
      "m_packageType (m_head m') \<noteq> bodytype_code UserInfo"
    by blast
  then show ?thesis
  proof cases
    case 1
    from msg_typed_class [OF m'(3) this] obtain q where q: "msg_object m' = Some (B_ServerInfo q)"
      by (auto simp: body_class_eqs)
    from FuncServer_HandleServerInfo_good [OF cfg same_rooms_stable LogicServer_close_good_rooms [OF cfg] q TrueI]
    show ?thesis
      using m' 1 by (auto simp: FuncServer_OnMsgBodyAnalysised_def)
  next
    case 2
    from msg_typed_class [OF m'(3) this] obtain q where q: "msg_object m' = Some (B_UserInfo q)"
      by (auto simp: body_class_eqs)
    then show ?thesis
      using m' 2 refl_rooms
      by (auto simp: FuncServer_OnMsgBodyAnalysised_def FuncServer_HandleUserInfo_def same_rooms_def
          split: UserInfo_Operation.split)
  next
    case 3
    then show ?thesis
      using m' refl_rooms by (auto simp: FuncServer_OnMsgBodyAnalysised_def)
  qed
qed

definition logic_world_ok :: "world \<Rightarrow> bool" where
  "logic_world_ok w \<longleftrightarrow> logic_config_ok (w_cfg w) \<and> pb_keeps_class (w_pb w)"

text \<open>A packet the server can serve, in the state it finds: its body, of fewer than 2^31 bytes, is read
  within them, and the request is neither of the two.\<close>

definition packet_served :: "world \<Rightarrow> 'a LogicServer_scheme \<Rightarrow> raw_packet \<Rightarrow> bool" where
  "packet_served w s p \<longleftrightarrow> length (snd p) < 2 ^ 31 \<and>
     (case ServerBase_OnMsgBodyAnalysised w \<lparr>m_head = fst p, m_body = None\<rparr> (snd p)
             (word_of_nat (length (snd p))) of
        Inl e \<Rightarrow> False
      | Inr m \<Rightarrow> request_ok m s)"

lemma logic_packet_safe:
  assumes w: "logic_world_ok w" and wf: "logic_wf (w_cfg w) s"
    and ok: "packet_served w s (h, body)"
  shows "\<exists>s'. on_packet (LogicServer_OnMsgBodyAnalysised w) fd (h, body) s = Inr s' \<and> logic_wf (w_cfg w) s'"
proof -
  have cfg: "logic_config_ok (w_cfg w)" and pb: "pb_keeps_class (w_pb w)"
    using w by (simp_all add: logic_world_ok_def)
  let ?m = "\<lparr>m_head = h, m_body = None\<rparr>"
  obtain m' s1 where s1: "FuncServer_OnMsgBodyAnalysised w (LogicServer_CloseClientSocket w) ?m body
       (word_of_nat (length body)) fd s = Inr (m', s1)"
    and m': "msg_typed m'" "ServerBase_OnMsgBodyAnalysised w ?m body (word_of_nat (length body)) = Inr m'"
    and same: "same_rooms s s1"
    using FuncServer_OnMsg_safe [OF logic_config_okD(1) [OF cfg] pb, of body ?m fd s] ok by (auto simp: packet_served_def)
  let ?s = "s1\<lparr>user_gate := om_upd (sender m') fd (user_gate s1)\<rparr>"
  have same': "same_rooms s ?s" using same by (simp add: same_rooms_def)
  have "logic_wf (w_cfg w) ?s"
    using wf by (simp only: logic_wf0_same_rooms [OF same'])
  moreover have "request_ok m' ?s"
    using ok m'(2) same' by (simp add: packet_served_def request_ok_def alone_in_def same_rooms_def
        split: option.splits proto_body.splits)
  ultimately show ?thesis
    using LogicServer_dispatch_safe [OF cfg _ m'(1)] s1
    by (simp add: on_packet_def LogicServer_OnMsgBodyAnalysised_def)
qed

text \<open>The initial state.\<close>

lemma LogicServer_new_wf: "logic_wf cfg (LogicServer_new cfg)"
proof -
  have "sorted_wrt (<) [1..n]" for n :: int by simp
  then show ?thesis
    by (simp add: logic_wf0_def LogicServer_new_def FuncServer_new_def Let_def LogicServer.defs
        FuncServer.defs ServerBase.defs)
qed

text \<open>The rooms, their ids and their members spelled out.\<close>

lemma logic_wf_rooms:
  assumes wf: "logic_wf cfg s"
  shows "(\<forall>rid r. om_get (rooms s) rid = Some r \<longrightarrow> userid2userpid r \<noteq> [] \<and> m_id r = rid \<and>
       PlayerCount r \<le> ROOM_SIZE cfg \<and>
       (\<forall>u. om_has u (userid2userpid r) \<longleftrightarrow> om_get (userid2roomid s) u = Some rid)) \<and>
     (\<forall>u rid. om_get (userid2roomid s) u = Some rid \<longrightarrow> om_has rid (rooms s)) \<and>
     set (roomid_pool s) \<union> dom (om_get (rooms s)) = {1..ROOM_POOL_SIZE cfg} \<and>
     set (roomid_pool s) \<inter> dom (om_get (rooms s)) = {}"
proof -
  have room: "userid2userpid r \<noteq> []" "m_id r = rid" "PlayerCount r \<le> ROOM_SIZE cfg"
    if "om_get (rooms s) rid = Some r" for rid r
    using logic_wf0D(8,9) [OF wf that] room_wf_size [of r] by (auto simp: room_at_def room_inv_def)
  show ?thesis
    using room room_members_at [OF wf] logic_wf0D(5-7,11) [OF wf] by auto
qed

end
