(* ===== verification/Logic_Run.thy ===== *)
theory Logic_Run
  imports Logic_Machine Event_Loop
begin

text \<open>
  The logic server as a process: whatever the network delivers, its event loop keeps the rooms,
  the room ids and the users consistent (\<open>logic_main_wf\<close>).
\<close>

section \<open>Whatever the network does\<close>

lemma request_of_type:
  assumes "msg_typed msg" "bodytype_of (m_packageType (m_head msg)) = Some ty" "msg_object msg = Some b"
  shows "body_class b = (if ty = ChaseFrame then body_class (B_GameReplay new_GameReplay) else ty)"
proof -
  have proto: "body_prototype t = Some p \<Longrightarrow>
      body_class p = (if t = ChaseFrame then body_class (B_GameReplay new_GameReplay) else t)" for t p
    by (cases t) auto
  show ?thesis
    using assms proto [of ty] by (auto simp: msg_typed_def CreateMessageBody_def split: option.splits)
qed

text \<open>The two requests that are not served end in a fault, so what is served keeps the invariant.\<close>

lemma LogicServer_dispatch_keeps:
  assumes cfg: "logic_config_ok (w_cfg w)" and wf: "logic_wf (w_cfg w) s"
    and typed: "msg_typed msg" and run: "LogicServer_dispatch w msg s = Inr s'"
  shows "logic_wf (w_cfg w) s'"
proof (cases "request_ok msg s")
  case True
  then show ?thesis using LogicServer_dispatch_safe [OF cfg wf typed] run by auto
next
  case False
  then obtain b where b: "msg_object msg = Some b"
    by (auto simp: request_ok_def split: option.splits)
  obtain ty where ty: "bodytype_of (m_packageType (m_head msg)) = Some ty"
    using typed b by (fastforce simp: msg_typed_def CreateMessageBody_def split: option.splits)
  note cls = request_of_type [OF typed ty b]
  consider q where "b = B_CreateRoom q" "roomid_pool s = []" "\<not> om_has (sender msg) (userid2roomid s)"
    | q where "b = B_JoinRoom q" "alone_in s (sender msg) (jr_roomid q)"
    using False b by (auto simp: request_ok_def split: proto_body.splits)
  then show ?thesis
  proof cases
    case 1
    then have "LogicServer_dispatch w msg s = Inl EmptyContainer"
      using HandleCreateRoom_exhausted [of msg q s w] b ty cls
      by (simp add: LogicServer_dispatch_def split: if_splits)
    then show ?thesis using run by simp
  next
    case 2
    then have "om_has (jr_roomid q) (rooms s)"
      using logic_wf0D(11) [OF wf] by (auto simp: alone_in_def)
    then have "LogicServer_dispatch w msg s = Inl NullDeref"
      using MovePlayerToRoom_alone [OF cfg wf 2(2)] b 2 ty cls
      by (simp add: LogicServer_dispatch_def HandleJoinRoom_def split: if_splits)
    then show ?thesis using run by simp
  qed
qed

definition logic_inv :: "world \<Rightarrow> 'a LogicServer_scheme \<Rightarrow> bool" where
  "logic_inv w s \<longleftrightarrow> logic_world_ok w \<longrightarrow> logic_wf (w_cfg w) s"

lemma logic_inv_frame: "func_frame (logic_inv w)"
  unfolding func_frame_def
proof (intro allI impI)
  fix s t :: "'a LogicServer_scheme"
  assume more: "FuncServer.more t = FuncServer.more s" and s: "logic_inv w s"
  have "logic_wf (w_cfg w) t = logic_wf (w_cfg w) s"
    using more by (intro logic_wf0_cong) (cases s, cases t, simp)+
  then show "logic_inv w t" using s by (simp add: logic_inv_def)
qed

lemma logic_inv_rooms: "same_rooms s t \<Longrightarrow> keeping (logic_inv w) s t"
  using logic_wf0_same_rooms [of s t] by (simp add: logic_inv_def)

lemma logic_close_keeps: "relates (keeping (logic_inv w)) (LogicServer_CloseClientSocket w)"
proof (cases "logic_world_ok w")
  case True
  then have net: "net_config_ok (w_cfg w)" by (simp add: logic_world_ok_def logic_config_ok_def)
  have "same_rooms s s'" if "LogicServer_CloseClientSocket w fd s = Inr s'" for fd and s s' :: "'a LogicServer_scheme"
    using LogicServer_close_good_rooms [OF net, of "Suc (close_rank fd s)"] that
    unfolding good_below_def by (metis Inr_inject lessI)
  then show ?thesis unfolding relates_def using logic_inv_rooms by blast
qed (simp add: relates_def logic_inv_def)

lemma logic_try_keeps:
  assumes "LogicServer_TryToConnect w (LogicServer_CloseClientSocket w) s = Inr s'"
  shows "keeping (logic_inv w) s s'"
proof (cases "db_server_client s = -1")
  case True
  with assms have "ApplyServerByType w (LogicServer_CloseClientSocket w) DATABASE s = Inr s'"
    by (simp add: LogicServer_TryToConnect_def)
  then show ?thesis by (rule func_keeps_send(3) [OF func_frame_keeps [OF logic_inv_frame] logic_close_keeps])
qed (use assms in \<open>simp add: LogicServer_TryToConnect_def\<close>)

lemma logic_on_center_keeps:
  "LogicServer_OnConnectToCenterServer w s = Inr s' \<Longrightarrow> keeping (logic_inv w) s s'"
  unfolding LogicServer_OnConnectToCenterServer_def by (rule logic_try_keeps)

lemma logic_handler_keeps:
  assumes run: "LogicServer_OnMsgBodyAnalysised w msg body len fd s = Inr s'"
  shows "keeping (logic_inv w) s s'"
proof
  assume s: "logic_inv w s"
  obtain m s1 where s1: "FuncServer_OnMsgBodyAnalysised w (LogicServer_CloseClientSocket w) msg body len fd s = Inr (m, s1)"
    and run': "LogicServer_dispatch w m (s1\<lparr>user_gate := om_upd (sender m) fd (user_gate s1)\<rparr>) = Inr s'"
    using run by (auto simp: LogicServer_OnMsgBodyAnalysised_def)
  have base: "ServerBase_OnMsgBodyAnalysised w msg body len = Inr m"
    using s1 by (auto simp: FuncServer_OnMsgBodyAnalysised_def)
  let ?s = "s1\<lparr>user_gate := om_upd (sender m) fd (user_gate s1)\<rparr>"
  have "logic_inv w s1"
    using FuncServer_OnMsg_keeps [OF func_frame_keeps [OF logic_inv_frame] logic_close_keeps s1] s by blast
  moreover have "logic_wf (w_cfg w) ?s = logic_wf (w_cfg w) s1"
    by (rule logic_wf0_cong) simp_all
  ultimately have "logic_inv w ?s" by (simp add: logic_inv_def)
  then show "logic_inv w s'"
    using LogicServer_dispatch_keeps [OF _ _ ServerBase_OnMsg_class(2) [OF _ base] run']
    by (auto simp: logic_inv_def logic_world_ok_def)
qed

lemma logic_callback_keeps:
  assumes run: "LogicServer_callback w ty s = Inr s'"
  shows "keeping (logic_inv w) s s'"
proof -
  consider "Update_rooms w s = Inr s'"
    | "LogicServer_TryToConnect w (LogicServer_CloseClientSocket w) s = Inr s'"
    | "SendSelfInfoToCenter (w_retries w) w (LogicServer_CloseClientSocket w)
         (LogicServer_OnConnectToCenterServer w) s = Inr s'"
    | "s' = s"
    using run by (cases ty) auto
  then show ?thesis
  proof cases
    case 1
    then show ?thesis using Update_rooms_keep [of w s s'] by (auto simp: logic_inv_def logic_world_ok_def)
  next
    case 2
    then show ?thesis by (rule logic_try_keeps)
  next
    case 3
    then show ?thesis
      by (rule SendSelfInfoToCenter_keeps [OF func_frame_keeps [OF logic_inv_frame] logic_close_keeps logic_on_center_keeps, rotated])
  qed simp
qed

interpretation lr: server_invariant w "LogicServer_virtuals w" "logic_inv w"
proof
  show "base_frame (logic_inv w)" by (rule func_frame_base [OF logic_inv_frame])
  show "relates (keeping (logic_inv w)) (v_close (LogicServer_virtuals w))"
    by (simp add: LogicServer_virtuals_def logic_close_keeps)
  show "keeping (logic_inv w) s s'" if "v_handler (LogicServer_virtuals w) msg body len fd s = Inr s'"
    for msg body len fd s s'
    using that by (simp only: LogicServer_virtuals_def virtuals.simps) (rule logic_handler_keeps)
  show "keeping (logic_inv w) s s'" if "v_callback (LogicServer_virtuals w) ty s = Inr s'" for ty s s'
    using that by (simp only: LogicServer_virtuals_def virtuals.simps) (rule logic_callback_keeps)
  show "keeping (logic_inv w) s s'" if "v_on_start (LogicServer_virtuals w) s = Inr (ok, s')" for s ok s'
    using that unfolding LogicServer_virtuals_def virtuals.simps
    by (rule FuncServer_OnListenerStart_keeps [OF func_frame_keeps [OF logic_inv_frame] logic_close_keeps logic_on_center_keeps, rotated])
qed

lemma logic_main_wf:
  assumes w: "logic_world_ok w" and run: "LogicServer_main turns w = Inr s"
  shows "logic_wf (w_cfg w) s"
proof -
  have "keeping (logic_inv w) (LogicServer_new (w_cfg w)) s"
    using run unfolding LogicServer_main_def
  proof (rule foldF_keeps)
    fix addr and t t' :: LogicServer
    assume "LogicServer_BootServer turns w addr t = Inr t'"
    then obtain ip port name go where
      "BootServer turns w (LogicServer_virtuals w) ip port name t = Inr (go, t')"
      by (cases addr) (auto simp: LogicServer_BootServer_def)
    then show "keeping (logic_inv w) t t'" using lr.boot_keeps by blast
  qed
  then show ?thesis using w LogicServer_new_wf by (simp add: logic_inv_def)
qed

end
