(* ===== verification/DB_Properties.thy ===== *)
theory DB_Properties
  imports DB_Requests Example_World
begin

text \<open>
  What the database server promises, with applications to a database that holds one user.
\<close>

definition one_user :: dbms where
  "one_user = \<lparr>my_connect = True, my_escape = (\<lambda>x. x), my_query = (\<lambda>n q. True),
     my_store = (\<lambda>n q. Some (if q = sql_user ''ann'' then [[Some ''ann'', Some ''secret'', Some ''42'']] else [])),
     rd_connect = True, rd_command = (\<lambda>n cmd. Some RedisOther)\<rparr>"

definition db :: DBServer where
  "db = (DBServer_new example_cfg)\<lparr>mysql_open := True, redis_open := True\<rparr>"

lemma db_fields [simp]: "mysql_open db" "db_clock db = 0" "db_log db = []"
  by (simp_all add: db_def DBServer_new_def FuncServer_new_def ServerBase_new_def DBServer.DBServer.defs
      FuncServer.FuncServer.defs ServerBase.ServerBase.defs)

lemma one_user_fields [simp]:
  "my_escape one_user x = x" "my_query one_user n q" "hget_strings one_user"
  "my_store one_user n q = Some (if q = sql_user ''ann'' then [[Some ''ann'', Some ''secret'', Some ''42'']] else [])"
  "three_columns one_user" "rd_command one_user n cmd = Some RedisOther"
  by (simp_all add: one_user_def hget_strings_def three_columns_def)

definition db_ask :: "proto_body \<Rightarrow> Message" where
  "db_ask b = \<lparr>m_head = \<lparr>m_packageSize = 12, m_packageType = bodytype_code (body_class b), m_userid = 7\<rparr>,
     m_body = Some (Some b)\<rparr>"

lemma db_ask_fields [simp]: "msg_object (db_ask b) = Some b" "m_userid (m_head (db_ask b)) = 7"
  by (simp_all add: db_ask_def msg_object_def)

text \<open>C35: a login is decided by MySQL alone: the cache in Redis is asked and never used, since \<open>HGET\<close>
  does not answer with an integer. On an open connection to MySQL, with rows of the three columns
  that are asked for, every login of a name comes to one of these outcomes (\<open>login_outcome\<close>): a name
  whose escaped text outgrows its array overflows it; when the query fails or has no result there
  is no answer; with no row, or another password in the first row, the answer is a refusal, with -1
  for the user; with the same password it is a success with the row's user id and a token; a row
  with NULL for the password or, when it is read, the id makes the server follow a null pointer,
  and an id that is no \<open>int\<close> is undefined.\<close>

theorem login_decided_by_mysql:
  assumes "net_config_ok (w_cfg w)" "msg_object msg = Some (B_LoginRequest b)" "mysql_open s"
    and "\<forall>n key field u. rd_command d n [''hget'', key, field] \<noteq> Some (RedisInteger u)"
    and "\<forall>n name rows. my_store d n (sql_user name) = Some rows \<longrightarrow> (\<forall>row\<in>set rows. length row = 3)"
  shows "case login_outcome d (db_clock s + 2) (lq_username b) (lq_passwd b) of
       Inl e \<Rightarrow> HandleUserLogin w d msg fd s = Inl e
     | Inr None \<Rightarrow> \<exists>s'. HandleUserLogin w d msg fd s = Inr s' \<and> net_log s' = net_log s
     | Inr (Some (ok, uid)) \<Rightarrow> \<exists>n s1 s' es. HandleUserLogin w d msg fd s = Inr s' \<and>
         DB_SendMsg w (NewLoginResponseMessage (w_cfg w) (w_pb w) ok
            (if ok then ''Login Success!'' else ''Passwd Error'')
            (if ok then GenerateToken (os_random (w_os w) n) (lq_username b) (lq_passwd b) else 0)
            uid (m_userid (m_head msg)) (lq_username b)) fd s1 = Inr s' \<and> connections s1 = connections s \<and>
         db_log s' = db_log s @ [hget_pwd (lq_username b), hget_uid (lq_username b),
            Sql (sql_user (my_escape d (lq_username b)))] @ es \<and> (\<forall>e\<in>set es. \<exists>c. e = Redis c)"
proof -
  have hget: "hget_strings d" and cols: "three_columns d"
    using assms(4,5) by (simp_all add: hget_strings_def three_columns_def)
  show ?thesis by (rule HandleUserLogin_spec [OF assms(1,2) hget cols assms(3)])
qed

definition ann_login :: "string \<Rightarrow> LoginRequestMsg" where
  "ann_login passwd = \<lparr>lq_username = ''ann'', lq_passwd = passwd\<rparr>"

theorem login_decided_by_mysql_witness:
  "\<exists>n s1 s'. HandleUserLogin example_world one_user (db_ask (B_LoginRequest (ann_login ''secret''))) 7 db = Inr s' \<and>
     DB_SendMsg example_world (NewLoginResponseMessage example_cfg example_pb True ''Login Success!''
        (GenerateToken (os_random example_os n) ''ann'' ''secret'') 42 7 ''ann'') 7 s1 = Inr s'"
proof -
  have "atoi ''42'' = Inr 42" by code_simp
  moreover have "escape_fits one_user ''ann''" by (simp add: escape_fits_def)
  ultimately show ?thesis
    using login_decided_by_mysql [of example_world "db_ask (B_LoginRequest (ann_login ''secret''))"
        "ann_login ''secret''" db one_user 7]
      one_user_fields(5) [unfolded three_columns_def]
    by (auto simp: login_outcome_def ann_login_def Let_def three_columns_def)
qed

text \<open>C36: on an open connection to MySQL, a registration asks it once whether the escaped name exists
  and, if not, inserts the escaped name and password; it succeeds exactly when the insertion does.
  A query that fails counts as a name that does not exist. A name whose escaped text outgrows its
  array, and for a new name such a password, overflow it instead; the empty string is one.\<close>

theorem registration_statements:
  assumes "net_config_ok (w_cfg w)" "msg_object msg = Some (B_RegistRequest b)" "mysql_open s"
    and "name = my_escape d (rq_username b)" "pass = my_escape d (rq_passwd b)"
    and "there = (my_query d (db_clock s) (sql_exists name) \<and>
           (\<exists>row rows. my_store d (db_clock s) (sql_exists name) = Some (row # rows)))"
    and "ok = (\<not> there \<and> my_query d (Suc (db_clock s)) (sql_insert name pass))"
  shows "(if \<not> escape_fits d (rq_username b) \<or> \<not> there \<and> \<not> escape_fits d (rq_passwd b)
      then HandleUserRegister w d msg fd s = Inl OutOfBounds
      else \<exists>s1 s'. HandleUserRegister w d msg fd s = Inr s' \<and>
        DB_SendMsg w (NewRegisterResponseMessage (w_cfg w) (w_pb w) ok
           (if ok then ''Register Success!'' else ''Register Failed, username is exist'')
           (m_userid (m_head msg))) fd s1 = Inr s' \<and>
        db_log s' = db_log s @ Sql (sql_exists name) # (if there then [] else [Sql (sql_insert name pass)])) \<and>
     \<not> escape_fits d ''''"
proof -
  have there: "there = user_exists d (rq_username b) (db_clock s)"
    unfolding assms(6,4) user_exists_def ..
  show ?thesis
    using HandleUserRegister_spec [OF assms(1-3), of d fd] HandleUserRegister_overflow [OF assms(2,3), of d w fd]
      escape_fits_empty [of d]
    unfolding assms(7) there assms(4,5) by auto
qed

theorem registration_statements_witness:
  "\<exists>s'. HandleUserRegister example_world one_user (db_ask (B_RegistRequest \<lparr>rq_username = ''bob'', rq_passwd = ''pw''\<rparr>)) 7 db = Inr s' \<and>
     db_log s' = [Sql (sql_exists ''bob''), Sql (sql_insert ''bob'' ''pw'')]"
proof -
  let ?b = "\<lparr>rq_username = ''bob'', rq_passwd = ''pw''\<rparr>"
  have fits: "escape_fits one_user ''bob''" "escape_fits one_user ''pw''" by (simp_all add: escape_fits_def)
  have other: "sql_exists ''bob'' \<noteq> sql_user ''ann''" by (simp add: sql_exists_def sql_user_def)
  show ?thesis
    using registration_statements [of example_world "db_ask (B_RegistRequest ?b)" ?b db, OF _ _ _ refl refl refl refl, of one_user 7]
      fits other by auto
qed

text \<open>A registration with an empty name, or a login with one, writes the terminator of the escaped
  name past the end of the array it is escaped into.\<close>

theorem empty_name_overflows:
  assumes "mysql_open s"
    and "msg_object msg = Some (B_RegistRequest b)" "rq_username b = ''''"
  shows "HandleUserRegister w d msg fd s = Inl OutOfBounds"
  using HandleUserRegister_overflow [OF assms(2,1)] assms(3) escape_fits_empty by simp

theorem empty_name_overflows_witness:
  "HandleUserRegister example_world one_user (db_ask (B_RegistRequest new_RegistRequest)) 7 db = Inl OutOfBounds"
  by (rule empty_name_overflows [where b = new_RegistRequest]) (simp_all add: new_RegistRequest_def)

end
