(* ===== verification/Logic_Calm.thy ===== *)
theory Logic_Calm
  imports Logic_Machine Calm_Net
begin

text \<open>
  What a handler of the logic server does outside the rooms and users: it sends. A relation of
  states that ignores the server's own members and holds across every send holds across every
  handler (\<open>logic_steps\<close>). Two of them are: while every send is taken, no request makes the server
  close or open a connection (\<open>net_same\<close>); and whatever fails, the receive buffers of the
  connections stay well-formed (\<open>bufs_ok\<close>).
\<close>

locale logic_steps =
  fixes w :: world and R :: "'a LogicServer_scheme \<Rightarrow> 'a LogicServer_scheme \<Rightarrow> bool"
  assumes own: "ServerBase.ServerBase.truncate t = ServerBase.ServerBase.truncate s \<Longrightarrow> R s t"
    and trans: "R s t \<Longrightarrow> R t u \<Longrightarrow> R s u"
    and ticked: "R s (io_tick s)"
    and sent: "SendMsg w (LogicServer_CloseClientSocket w) msg fd s = Inr (ok, s') \<Longrightarrow> R s s'"
begin

lemma refl: "R s s"
  by (rule own) simp

lemma own_first: "R s' t \<Longrightarrow> ServerBase.ServerBase.truncate s' = ServerBase.ServerBase.truncate s \<Longrightarrow> R s t"
  by (blast intro: own trans)

lemma own_last: "R s t \<Longrightarrow> ServerBase.ServerBase.truncate t' = ServerBase.ServerBase.truncate t \<Longrightarrow> R s t'"
  by (blast intro: own trans)

lemma fold_steps: "foldF f xs s = Inr s' \<Longrightarrow> (\<And>x t t'. f x t = Inr t' \<Longrightarrow> R t t') \<Longrightarrow> R s s'"
proof (induction xs arbitrary: s)
  case (Cons x xs)
  then obtain s1 where "f x s = Inr s1" "foldF f xs s1 = Inr s'" by auto
  with Cons show ?case by (blast intro: trans)
qed (simp add: refl)

lemma delivered: "deliver w m s = Inr s' \<Longrightarrow> R s s'"
  by (cases m) (auto simp: SendToClient_def LogicServer_SendMsg_def refl dest: sent split: option.splits)

lemma with_room_steps:
  assumes run: "with_room w rid f s = Inr (x, s')"
  shows "R s s'"
proof -
  obtain r' where r': "foldF (deliver w) (outbox r') (s\<lparr>rooms := om_upd rid (r'\<lparr>outbox := []\<rparr>) (rooms s)\<rparr>) = Inr s'"
    using run by (auto simp: with_room_def split: option.splits prod.splits)
  have "R (s\<lparr>rooms := om_upd rid (r'\<lparr>outbox := []\<rparr>) (rooms s)\<rparr>) s'"
    using r' delivered by (rule fold_steps)
  then show ?thesis by (rule own_first) (simp add: ServerBase.ServerBase.truncate_def)
qed

lemma in_room_steps: "in_room w rid f s = Inr s' \<Longrightarrow> R s s'"
  by (auto simp: in_room_def dest: with_room_steps)

lemma reply_to_steps: "reply_to w msg ty b s = Inr s' \<Longrightarrow> R s s'"
  unfolding reply_to_def by (rule delivered)

lemma RemoveRoom_steps:
  assumes run: "RemoveRoom w rid s = Inr s'"
  shows "R s s'"
proof (cases "rid \<in> set (roomid_using s)")
  case True
  let ?s = "s\<lparr>roomid_using := os_del rid (roomid_using s), userid2roomid := filter (\<lambda>p. snd p \<noteq> rid) (userid2roomid s)\<rparr>"
  obtain s2 where s2: "(if om_has rid (rooms ?s) then in_room w rid Room_destroy ?s else Inr ?s) = Inr s2"
    and s': "ServerBase.ServerBase.truncate s' = ServerBase.ServerBase.truncate s2"
    using run True by (auto simp: RemoveRoom_def Let_def ServerBase.ServerBase.truncate_def)
  have "R ?s s2" using s2 in_room_steps by (auto simp: refl split: if_splits)
  then have "R ?s s'" using s' by (rule own_last)
  then show ?thesis by (rule own_first) (simp add: ServerBase.ServerBase.truncate_def)
qed (use run in \<open>simp add: RemoveRoom_def refl\<close>)

lemma with_room_then_steps:
  assumes run: "bindF (with_room w rid f s) (\<lambda>(x, s1). if P x then RemoveRoom w rid s1 else Inr s1) = Inr s'"
  shows "R s s'"
proof -
  obtain x s1 where s1: "with_room w rid f s = Inr (x, s1)" "(if P x then RemoveRoom w rid s1 else Inr s1) = Inr s'"
    using run by auto
  have "R s1 s'" using s1(2) RemoveRoom_steps by (auto simp: refl split: if_splits)
  with with_room_steps [OF s1(1)] show ?thesis by (rule trans)
qed

lemma RemovePlayerFromRoom_steps:
  assumes run: "RemovePlayerFromRoom w u s = Inr s'"
  shows "R s s'"
proof (cases "om_get (userid2roomid s) u")
  case (Some rid)
  let ?s = "s\<lparr>userid2roomid := om_del u (userid2roomid s)\<rparr>"
  have "R ?s s'"
    by (rule with_room_then_steps [where P = "\<lambda>n. n = 0"]) (use run Some in \<open>simp add: RemovePlayerFromRoom_def\<close>)
  then show ?thesis by (rule own_first) (simp add: ServerBase.ServerBase.truncate_def)
qed (use run in \<open>simp add: RemovePlayerFromRoom_def refl\<close>)

lemma AddPlayerToRoom_steps:
  assumes run: "AddPlayerToRoom w u rid s = Inr s'"
  shows "R s s'"
proof -
  obtain p where p: "with_room w rid (Room_JoinRoom (fst (GetUserName u s)) u) s = Inr p"
    "(case p of (ok, s1) \<Rightarrow> Inr (if ok
          then (snd (GetUserName u s1))\<lparr>userid2roomid := om_upd u rid (userid2roomid s1)\<rparr>
          else s1)) = (Inr s' :: 'a LogicServer_scheme res)"
    using run unfolding AddPlayerToRoom_def bindF_eq_Inr by (elim exE conjE)
  obtain ok s1 where s1: "p = (ok, s1)" by (cases p)
  have "ServerBase.ServerBase.truncate s' = ServerBase.ServerBase.truncate s1"
    using p(2) by (cases ok) (auto simp: s1 GetUserName_def ServerBase.ServerBase.truncate_def)
  with with_room_steps [OF p(1) [unfolded s1]] show ?thesis by (rule own_last)
qed

lemma MovePlayerToRoom_steps:
  assumes run: "MovePlayerToRoom w u rid s = Inr s'"
  shows "R s s'"
proof -
  obtain s1 where "RemovePlayerFromRoom w u s = Inr s1" "AddPlayerToRoom w u rid s1 = Inr s'"
    using run by (auto simp: MovePlayerToRoom_def)
  with RemovePlayerFromRoom_steps AddPlayerToRoom_steps show ?thesis
    by (blast intro: trans)
qed

lemma HandleCreateRoom_steps:
  assumes run: "HandleCreateRoom w msg s = Inr s'"
  shows "R s s'"
proof (cases "\<exists>body. msg_object msg = Some (B_CreateRoom body) \<and> \<not> om_has (sender msg) (userid2roomid s)")
  case True
  then obtain body where b: "msg_object msg = Some (B_CreateRoom body)" "\<not> om_has (sender msg) (userid2roomid s)"
    by blast
  obtain rid s1 where s1: "AddRoom w (cr_roomname body) s = Inr (rid, s1)"
    and rest: "(case om_get (rooms s1) rid of
                   None \<Rightarrow> Inl NullDeref
                 | Some r \<Rightarrow>
                     bindF (reply_to w msg CreateRoom
                              (B_CreateRoom \<lparr>cr_roomid = rid, cr_ret = True, cr_result = txt_created,
                                 cr_roomname = m_name r, cr_type = RESPONSE, cr_is_roomhost = True\<rparr>) s1)
                       (MovePlayerToRoom w (sender msg) rid)) = Inr s'"
    using run b by (auto simp: HandleCreateRoom_def)
  have "ServerBase.ServerBase.truncate s1 = ServerBase.ServerBase.truncate (io_tick s)"
    using s1 by (auto simp: AddRoom_def ServerBase.ServerBase.truncate_def io_tick_def split: list.splits)
  then have "R s s1" by (rule own_last [OF ticked])
  moreover have "R s1 s'"
    using rest reply_to_steps MovePlayerToRoom_steps trans
    by (auto split: option.splits) blast
  ultimately show ?thesis by (rule trans)
next
  case False
  then show ?thesis
    using run reply_to_steps by (auto simp: HandleCreateRoom_def refl split: option.splits proto_body.splits)
qed

lemma HandleLoginResponse_steps:
  assumes run: "HandleLoginResponse w msg s = Inr s'"
  shows "R s s'"
proof (cases "\<exists>body. msg_object msg = Some (B_LoginResponse body)")
  case True
  then obtain body where b: "msg_object msg = Some (B_LoginResponse body)" by blast
  let ?s = "s\<lparr>userid2username := om_upd (lp_userid body) (lp_username body) (userid2username s)\<rparr>"
  have "s' = ?s \<or> HandleReconnect w (lp_userid body) ?s = Inr s'"
    using run b by (auto simp: HandleLoginResponse_def Let_def split: option.splits if_splits)
  then have "R ?s s'"
    using in_room_steps by (auto simp: HandleReconnect_def refl split: option.splits if_splits)
  then show ?thesis by (rule own_first) (simp add: ServerBase.ServerBase.truncate_def)
qed (use run in \<open>auto simp: HandleLoginResponse_def refl split: option.splits proto_body.splits\<close>)

lemma LogicServer_HandleUserInfo_steps:
  assumes run: "LogicServer_HandleUserInfo w msg s = Inr s'"
  shows "R s s'"
proof -
  obtain body where b: "msg_object msg = Some (B_UserInfo body)"
    using run by (auto simp: LogicServer_HandleUserInfo_def split: option.splits proto_body.splits)
  show ?thesis
  proof (cases "us_opt body = User_Logout \<and> om_get (userid2roomid s) (us_userid body) \<noteq> None")
    case True
    then obtain rid where "om_get (userid2roomid s) (us_userid body) = Some rid" by blast
    with run True b have "bindF (with_room w rid
        (\<lambda>r. let r' = SetUserOffline (us_userid body) r in (CheckRoomDead r', r')) s)
          (\<lambda>(dead, s1). if dead then RemoveRoom w rid s1 else Inr s1) = Inr s'"
      by (simp add: LogicServer_HandleUserInfo_def del: bindF_eq_Inr)
    then show ?thesis by (rule with_room_then_steps [where P = "\<lambda>dead. dead"])
  next
    case False
    then show ?thesis using run b by (auto simp: LogicServer_HandleUserInfo_def refl split: if_splits)
  qed
qed

lemma room_handlers_steps:
  "HandleJoinRoom w msg s = Inr s' \<Longrightarrow> R s s'" "HandleLeaveRoom w msg s = Inr s' \<Longrightarrow> R s s'"
  "HandleGetRoomList w msg s = Inr s' \<Longrightarrow> R s s'" "HandleJoinGame w msg s = Inr s' \<Longrightarrow> R s s'"
  "HandleQuitGame w msg s = Inr s' \<Longrightarrow> R s s'" "HandleRoomChangeRole w msg s = Inr s' \<Longrightarrow> R s s'"
  "HandleStartGame w msg s = Inr s' \<Longrightarrow> R s s'" "HandleEndGame w msg s = Inr s' \<Longrightarrow> R s s'"
  "HandleUserOperate w msg s = Inr s' \<Longrightarrow> R s s'"
  using reply_to_steps in_room_steps MovePlayerToRoom_steps RemovePlayerFromRoom_steps
  by (auto simp: HandleJoinRoom_def HandleLeaveRoom_def HandleGetRoomList_def HandleJoinGame_def HandleQuitGame_def
      HandleRoomChangeRole_def HandleStartGame_def HandleEndGame_def HandleUserOperate_def refl
      split: option.splits proto_body.splits if_splits)

lemma dispatch_steps:
  assumes run: "LogicServer_dispatch w msg s = Inr s'"
  shows "R s s'"
proof (cases "bodytype_of (m_packageType (m_head msg))")
  case (Some ty)
  then show ?thesis
    using run room_handlers_steps HandleCreateRoom_steps HandleLoginResponse_steps LogicServer_HandleUserInfo_steps refl
    by (cases ty) (simp_all add: LogicServer_dispatch_def)
qed (use run in \<open>simp add: LogicServer_dispatch_def refl\<close>)

lemma Update_steps:
  assumes run: "Update_rooms w s = Inr s'"
  shows "R s s'"
proof -
  have one: "R t t'" if run: "tick_room w rid t = Inr t'" for rid t t'
  proof -
    obtain b t1 where t1: "with_room w rid (Room_Tick (w_cfg w)) t = Inr (b, t1)"
      and "t' = (if b then t1\<lparr>inGames := insert rid (inGames t1)\<rparr> else t1)"
      using run by (auto simp: tick_room_def)
    then show ?thesis
      by (intro own_last [OF with_room_steps [OF t1]]) (auto simp: ServerBase.ServerBase.truncate_def)
  qed
  show ?thesis
    using run one unfolding Update_rooms_fold by (rule fold_steps)
qed

end

section \<open>While every send is taken\<close>

lemma net_same_own: "ServerBase.ServerBase.truncate t = ServerBase.ServerBase.truncate s \<Longrightarrow> net_same s t"
  by (simp add: net_same_def ServerBase.ServerBase.truncate_def)

interpretation ls: logic_steps w "\<lambda>s t. sends_ok w \<longrightarrow> net_same s t"
proof
  show "sends_ok w \<longrightarrow> net_same s t"
    if "ServerBase.ServerBase.truncate t = ServerBase.ServerBase.truncate s" for s t :: "'a LogicServer_scheme"
    using net_same_own [OF that] by simp
qed (auto intro: net_same_trans SendMsg_same(1))

lemma LogicServer_dispatch_same: "sends_ok w \<Longrightarrow> LogicServer_dispatch w msg s = Inr s' \<Longrightarrow> net_same s s'"
  using ls.dispatch_steps by blast

end
