(* ===== verification/Logic_Events.thy ===== *)
theory Logic_Events
  imports Logic_Calm Logic_Run Receive
begin

text \<open>
  The logic server as a machine of everything its event loop calls: a connection with data, a
  connection to accept, a lost connection, and the three timers, in any order; and, by itself, a
  packet for its handler. What a turn of the loop does is a sequence of these events.

  \<open>logic_ok\<close> excludes what runs into undefined behaviour: the two requests of \<open>request_ok\<close>; data that
  are not whole packets, and a handler that closes the connection it works for (\<open>data_ok\<close>); a frame
  counter at its last value (\<open>update_ok\<close>); and a registration with the center server while the
  count of connections is negative, or whose message is not taken, so that the server, without an
  end in sight, connects again (\<open>registers_ok\<close>). Every other event is handled and keeps the
  invariant.
\<close>

section \<open>Receive buffers\<close>

lemma logic_close_bufs: "relates (keeping (bufs_ok w)) (LogicServer_CloseClientSocket w)"
  unfolding LogicServer_CloseClientSocket_def
proof (rule virtual_close_relates)
  fix c :: "'a LogicServer_scheme closer"
  assume c: "relates (keeping (bufs_ok w)) c"
  show "relates (keeping (bufs_ok w)) (LogicServer_close_body w c)"
    unfolding relates_def
  proof (intro allI impI)
    fix fd and s s' :: "'a LogicServer_scheme"
    assume "LogicServer_close_body w c fd s = Inr s'" and s: "bufs_ok w s"
    then obtain s1 where s1: "ServerBase_CloseClientSocket w c fd s = Inr s1"
      and run: "s' = s1 \<or> s' = s1\<lparr>db_server_client := -1\<rparr> \<or>
        ApplyServerByType w c DATABASE (s1\<lparr>db_server_client := -1\<rparr>) = Inr s'"
      by (auto simp: LogicServer_close_body_def LogicServer_TryToConnect_def split: if_splits)
    have b1: "bufs_ok w s1"
      using relatesD [OF base_keeps_close [OF base_keeps_bufs c] s1] s by blast
    have b2: "bufs_ok w (s1\<lparr>db_server_client := -1\<rparr>)"
      using b1 bufs_ok_conns [of "s1\<lparr>db_server_client := -1\<rparr>" s1 w] by simp
    show "bufs_ok w s'"
      using run b1 b2 func_keeps_send(3) [OF func_keeps_bufs c, of DATABASE "s1\<lparr>db_server_client := -1\<rparr>" s'] by blast
  qed
qed

interpretation lb: logic_steps w "keeping (bufs_ok w)"
proof
  fix s t u :: "'a LogicServer_scheme" and msg fd ok
  show "keeping (bufs_ok w) s t" if "ServerBase.ServerBase.truncate t = ServerBase.ServerBase.truncate s"
    using that bufs_ok_conns [of t s w] by (simp add: ServerBase.ServerBase.truncate_def)
  show "keeping (bufs_ok w) s (io_tick s)" using bufs_ok_conns [of "io_tick s" s w] by simp
  show "keeping (bufs_ok w) s t" if "SendMsg w (LogicServer_CloseClientSocket w) msg fd s = Inr (ok, t)"
    using that by (rule base_keeps_send(1) [OF base_keeps_bufs logic_close_bufs])
qed simp

lemma logic_handler_bufs:
  assumes run: "LogicServer_OnMsgBodyAnalysised w msg body len fd s = Inr s'"
  shows "keeping (bufs_ok w) s s'"
proof -
  obtain m s1 where s1: "FuncServer_OnMsgBodyAnalysised w (LogicServer_CloseClientSocket w) msg body len fd s = Inr (m, s1)"
    and run': "LogicServer_dispatch w m (s1\<lparr>user_gate := om_upd (sender m) fd (user_gate s1)\<rparr>) = Inr s'"
    using run by (auto simp: LogicServer_OnMsgBodyAnalysised_def)
  have "keeping (bufs_ok w) (s1\<lparr>user_gate := om_upd (sender m) fd (user_gate s1)\<rparr>) s'"
    by (rule lb.dispatch_steps [OF run'])
  moreover have "keeping (bufs_ok w) s s1"
    by (rule FuncServer_OnMsg_keeps [OF func_keeps_bufs logic_close_bufs s1])
  ultimately show ?thesis
    using bufs_ok_conns [of "s1\<lparr>user_gate := om_upd (sender m) fd (user_gate s1)\<rparr>" s1 w] by simp
qed

lemma logic_try_bufs:
  "LogicServer_TryToConnect w (LogicServer_CloseClientSocket w) s = Inr s' \<Longrightarrow> keeping (bufs_ok w) s s'"
  using func_keeps_send(3) [OF func_keeps_bufs logic_close_bufs]
  by (auto simp: LogicServer_TryToConnect_def split: if_splits)

lemma logic_callback_bufs:
  assumes run: "LogicServer_callback w ty s = Inr s'"
  shows "keeping (bufs_ok w) s s'"
proof -
  consider "Update_rooms w s = Inr s'"
    | "LogicServer_TryToConnect w (LogicServer_CloseClientSocket w) s = Inr s'"
    | "SendSelfInfoToCenter (w_retries w) w (LogicServer_CloseClientSocket w)
         (LogicServer_OnConnectToCenterServer w) s = Inr s'"
    | "s' = s"
    using run by (cases ty) auto
  then show ?thesis
  proof cases
    case 1
    then show ?thesis by (rule lb.Update_steps)
  next
    case 2
    then show ?thesis by (rule logic_try_bufs)
  next
    case 3
    then show ?thesis
      by (rule SendSelfInfoToCenter_keeps [OF func_keeps_bufs logic_close_bufs, rotated])
        (unfold LogicServer_OnConnectToCenterServer_def, rule logic_try_bufs)
  qed simp
qed

section \<open>Registering with the center server\<close>

text \<open>What the server tells the center of itself.\<close>

definition registration :: "world \<Rightarrow> 'a ServerBase_scheme \<Rightarrow> SERVER_FREE_LEVEL \<Rightarrow> Message" where
  "registration w s level = NewServerInfoMessage (w_cfg w) (w_pb w) (listen_ip s) (listen_port s) (listen_name s)
     (server_type_code (server_type s)) Op_Register (free_level_code level)"

text \<open>The count of connections has a level, the message of that level fits a buffer, and sends are
  taken for as long as the call lasts, which is three system calls before the last send.\<close>

definition registers_ok :: "world \<Rightarrow> 'a ServerBase_scheme \<Rightarrow> bool" where
  "registers_ok w s \<longleftrightarrow> 2 \<le> w_retries w \<and>
     (case DynamicCalcServerFreeLevel (conns_count s) of
        Inl e \<Rightarrow> False
      | Inr level \<Rightarrow> m_packageSize (m_head (registration w s level)) \<le> MAX_BUFFER_SIZE (w_cfg w)) \<and>
     (\<forall>n\<in>{io_clock s..io_clock s + 3}. \<forall>fd b. os_send (w_os w) n fd b)"

lemma registration_size:
  "m_packageSize (m_head (registration w s level)) = Message_length (w_cfg w) (w_pb w) (m_body (registration w s level))"
  by (simp add: registration_def NewServerInfoMessage_def make_message_def)

lemma SendSelfInfo_returns:
  assumes cfg: "net_config_ok (w_cfg w)" and ok: "registers_ok w s"
    and on: "\<And>t. \<exists>t'. on_center t = Inr t'"
  shows "\<exists>s'. SendSelfInfoToCenter (w_retries w) w c on_center s = Inr s'"
proof -
  obtain level where level: "DynamicCalcServerFreeLevel (conns_count s) = Inr level"
    and size: "m_packageSize (m_head (registration w s level)) \<le> MAX_BUFFER_SIZE (w_cfg w)"
    using ok by (auto simp: registers_ok_def split: sum.splits)
  have sends: "os_send (w_os w) n fd b" if "io_clock s \<le> n" "n \<le> io_clock s + 3" for n fd b
    using ok that by (simp add: registers_ok_def)
  obtain k where k: "w_retries w = Suc (Suc k)"
    using ok unfolding registers_ok_def by (metis add_2_eq_Suc le_Suc_ex)
  have once: "SendSelfInfoToCenter (Suc n) w c on_center t = Inr (net_do (Sent (center_server_client t)
        (packet_bytes (w_pb w) (registration w s level))) t)"
    if "om_has (center_server_client t) (connections t)" "conns_count t = conns_count s"
      "registration w t level = registration w s level"
      "io_clock s \<le> io_clock t" "io_clock t \<le> io_clock s + 3" for n and t :: "'a FuncServer_scheme"
  proof -
    have "SendMsg w c (registration w t level) (center_server_client t) t = Inr (True, net_do (Sent (center_server_client t)
        (packet_bytes (w_pb w) (registration w s level))) t)"
      using SendMsg_taken [OF cfg that(1) registration_size [of w t level]] size sends [OF that(4,5)] unfolding that(3) by blast
    then show ?thesis
      by (simp only: SendSelfInfoToCenter.simps registration_def [symmetric] that(2) level bindF.simps prod.case if_True)
  qed
  show ?thesis
  proof (cases "om_has (center_server_client s) (connections s)")
    case True
    show ?thesis unfolding k using once [OF True refl refl] by fastforce
  next
    case False
    obtain ip port name where addr: "CENTER_SERVER (w_cfg w) = (ip, port, name)"
      by (cases "CENTER_SERVER (w_cfg w)")
    obtain ok' fd s2 where s2: "ConnectToOtherServer w ip port s = (ok', fd, s2)"
      by (cases "ConnectToOtherServer w ip port s")
    let ?s3 = "s2\<lparr>center_server_client := fd\<rparr>"
    let ?s5 = "new_connection w fd (io_tick ?s3)"
    have same: "conns_count ?s5 = conns_count s" "registration w ?s5 level = registration w s level"
        "io_clock s \<le> io_clock ?s5" "io_clock ?s5 \<le> io_clock s + 3" "om_has (center_server_client ?s5) (connections ?s5)"
      using s2 by (auto simp: ConnectToOtherServer_def registration_def fun_eq_iff new_connection_def io_tick_def
          split: option.splits if_splits)
    have "SendSelfInfoToCenter (Suc k) w c on_center ?s5 = Inr (net_do (Sent (center_server_client ?s5)
        (packet_bytes (w_pb w) (registration w s level))) ?s5)"
      by (rule once [OF same(5,1,2,3,4)])
    then obtain s6 where s6: "SendSelfInfoToCenter (Suc k) w c on_center ?s5 = Inr s6" by blast
    have lost: "SendMsg w c m (center_server_client s) s = Inr (False, s)" for m
      using False by (simp add: SendMsg_def)
    have fd: "center_server_client (io_tick ?s3) = fd" by (simp add: io_tick_def)
    show ?thesis
      unfolding k SendSelfInfoToCenter.simps(2) [of "Suc k"] level bindF.simps lost prod.case if_False addr Let_def s2
      using s6 on [of s6] by (simp del: SendSelfInfoToCenter.simps add: AddEventToEpoll_def fd)
  qed
qed

section \<open>The machine\<close>

text \<open>A packet with its body bytes from a connection, by itself; a connection with data, with the packets
  the data are; a readable listening socket; a connection that is lost; the timers of the frames,
  of the connection to the database server and of the registration.\<close>

datatype logic_event =
    LgPacket MessageHead "byte list" int
  | LgReceive int "raw_packet list"
  | LgListener
  | LgClose int
  | LgUpdate
  | LgTryConnect
  | LgRegister

fun logic_step :: "world \<Rightarrow> logic_event \<Rightarrow> LogicServer \<Rightarrow> LogicServer res" where
  "logic_step w (LgPacket h body fd) s = on_packet (LogicServer_OnMsgBodyAnalysised w) fd (h, body) s"
| "logic_step w (LgReceive fd ps) s =
     HandleConnEvent w (LogicServer_CloseClientSocket w) (LogicServer_OnMsgBodyAnalysised w) fd s"
| "logic_step w LgListener s = HandleListenerEvent w (LogicServer_CloseClientSocket w) (listen_fd s) s"
| "logic_step w (LgClose fd) s = LogicServer_CloseClientSocket w fd s"
| "logic_step w LgUpdate s = LogicServer_callback w LogicServer_Update s"
| "logic_step w LgTryConnect s = LogicServer_callback w FuncServer_TryToConnectAvailabeServer s"
| "logic_step w LgRegister s = LogicServer_callback w FuncServer_SendSelfInfoToCenter s"

fun logic_ok :: "world \<Rightarrow> LogicServer \<Rightarrow> logic_event \<Rightarrow> bool" where
  "logic_ok w s (LgPacket h body fd) = packet_served w s (h, body)"
| "logic_ok w s (LgReceive fd ps) = data_ok w (packet_served w) (LogicServer_OnMsgBodyAnalysised w) fd ps s"
| "logic_ok w s LgUpdate = update_ok s"
| "logic_ok w s LgRegister = registers_ok w s"
| "logic_ok w s _ = True"

definition logic_state :: "world \<Rightarrow> 'a LogicServer_scheme \<Rightarrow> bool" where
  "logic_state w s \<longleftrightarrow> logic_wf (w_cfg w) s \<and> bufs_ok w s"

lemma logic_packet_state:
  assumes "logic_world_ok w" "logic_state w s" "packet_served w s p"
  shows "\<exists>s'. on_packet (LogicServer_OnMsgBodyAnalysised w) fd p s = Inr s' \<and> logic_state w s'"
proof -
  obtain s' where s': "on_packet (LogicServer_OnMsgBodyAnalysised w) fd p s = Inr s'" "logic_wf (w_cfg w) s'"
    using logic_packet_safe [OF assms(1), of s "fst p" "snd p" fd] assms(2,3) by (auto simp: logic_state_def)
  moreover have "bufs_ok w s'"
    using logic_handler_bufs [OF s'(1) [unfolded on_packet_def]] assms(2) by (simp add: logic_state_def)
  ultimately show ?thesis by (simp add: logic_state_def)
qed

lemma logic_state_same:
  "same_rooms s t \<Longrightarrow> keeping (bufs_ok w) s t \<Longrightarrow> logic_state w s \<Longrightarrow> logic_state w t"
  using logic_wf0_same_rooms [of s t] by (simp add: logic_state_def)

lemma logic_close_state:
  assumes "logic_world_ok w" "logic_state w s"
  shows "\<exists>s'. LogicServer_CloseClientSocket w fd s = Inr s' \<and> logic_state w s'"
proof -
  have "net_config_ok (w_cfg w)" using assms(1) by (simp add: logic_world_ok_def logic_config_ok_def)
  from LogicServer_close_good_rooms [OF this, of "Suc (close_rank fd s)"] obtain s' where
    s': "LogicServer_CloseClientSocket w fd s = Inr s'" "same_rooms s s'"
    unfolding good_below_def by blast
  then show ?thesis using logic_state_same [OF s'(2) relatesD [OF logic_close_bufs s'(1)] assms(2)] by blast
qed

interpretation lrx: receiver w "LogicServer_CloseClientSocket w" "LogicServer_OnMsgBodyAnalysised w"
  "packet_served w" "logic_state w" "logic_world_ok w"
proof
  fix s :: "'a LogicServer_scheme" and rb fd i p
  show "net_config_ok (w_cfg w)" if "logic_world_ok w"
    using that by (simp add: logic_world_ok_def logic_config_ok_def)
  show "reads_exactly (LogicServer_OnMsgBodyAnalysised w :: 'a LogicServer_scheme msg_handler)"
    unfolding reads_exactly_def
    by (simp add: LogicServer_OnMsgBodyAnalysised_def FuncServer_OnMsgBodyAnalysised_def base_handler_exact)
  show "bufs_ok w s" if "logic_state w s" using that by (simp add: logic_state_def)
  show "logic_state w (io_tick s)" if "logic_state w s"
    by (rule logic_state_same [OF _ _ that], simp add: same_rooms_def io_tick_def)
      (simp add: bufs_ok_conns [of "io_tick s" s])
  show "logic_state w (set_buffer fd i rb s)" if "logic_state w s" "rb_wf (w_cfg w) rb"
    by (rule logic_state_same [OF _ _ that(1)], simp add: same_rooms_def set_buffer_def)
      (simp add: bufs_ok_set that(2))
  show "\<exists>s'. LogicServer_CloseClientSocket w fd s = Inr s' \<and> logic_state w s'" if "logic_world_ok w" "logic_state w s"
    using that by (rule logic_close_state)
  show "\<exists>s'. on_packet (LogicServer_OnMsgBodyAnalysised w) fd p s = Inr s' \<and> logic_state w s'"
    if "logic_world_ok w" "logic_state w s" "packet_served w s p"
    using that by (rule logic_packet_state)
qed

lemma logic_listener_state:
  assumes w: "logic_world_ok w" and s: "logic_state w s"
  shows "\<exists>s'. HandleListenerEvent w (LogicServer_CloseClientSocket w) fd s = Inr s' \<and> logic_state w s'"
proof -
  have net: "net_config_ok (w_cfg w)" using w by (simp add: logic_world_ok_def logic_config_ok_def)
  have "\<exists>s'. HandleListenerEvent w (LogicServer_CloseClientSocket w) fd s = Inr s'"
  proof (cases "fd = listen_fd s \<and> os_accept (w_os w) (io_clock s) \<noteq> None")
    case True
    then obtain x where x: "os_accept (w_os w) (io_clock s) = Some x" by blast
    obtain s1 where s1: "SendConnsChange w (LogicServer_CloseClientSocket w) (TransformType (server_type s))
        (listen_ip s) (listen_port s) 1 (io_tick s) = Inr s1"
      using SendConnsChange_good [OF net conn_stableD(1) [OF same_rooms_stable] LogicServer_close_good_rooms [OF net] lessI TrueI]
      by blast
    obtain s2 where "LogicServer_CloseClientSocket w x (io_tick s1) = Inr s2"
      using LogicServer_close_good_rooms [OF net, of "Suc (close_rank x (io_tick s1))"] unfolding good_below_def by blast
    then show ?thesis
      using True x s1 by (simp add: HandleListenerEvent_def AddEventToEpoll_def)
  qed (auto simp: HandleListenerEvent_def)
  then obtain s' where s': "HandleListenerEvent w (LogicServer_CloseClientSocket w) fd s = Inr s'" by blast
  moreover have "bufs_ok w s'"
    using base_keeps_listener [OF base_keeps_bufs logic_close_bufs s'] s by (simp add: logic_state_def)
  moreover have "logic_inv w s'"
    using lr.listener_keeps [of w fd s s'] s' s by (simp add: LogicServer_virtuals_def logic_inv_def logic_state_def)
  ultimately show ?thesis using w by (simp add: logic_state_def logic_inv_def)
qed

lemma logic_callback_state:
  assumes w: "logic_world_ok w" and s: "logic_state w s"
    and ok: "ty = LogicServer_Update \<Longrightarrow> update_ok s" "ty = FuncServer_SendSelfInfoToCenter \<Longrightarrow> registers_ok w s"
  shows "\<exists>s'. LogicServer_callback w ty s = Inr s' \<and> logic_state w s'"
proof -
  have cfg: "logic_config_ok (w_cfg w)" and net: "net_config_ok (w_cfg w)"
    using w by (simp_all add: logic_world_ok_def logic_config_ok_def)
  have reconnect: "\<exists>t'. LogicServer_TryToConnect w (LogicServer_CloseClientSocket w) t = Inr t'" for t :: "'a LogicServer_scheme"
    using LogicServer_TryToConnect_good [OF net conn_stableD(1) [OF same_rooms_stable] LogicServer_close_good_rooms [OF net] lessI TrueI]
    by blast
  have "\<exists>s'. LogicServer_callback w ty s = Inr s'"
  proof (cases ty)
    case LogicServer_Update
    then show ?thesis using Update_rooms_spec [OF cfg _ ok(1)] s by (auto simp: logic_state_def)
  next
    case FuncServer_SendSelfInfoToCenter
    then show ?thesis
      using SendSelfInfo_returns [OF net ok(2)] reconnect by (auto simp: LogicServer_OnConnectToCenterServer_def)
  qed (use reconnect in auto)
  then obtain s' where s': "LogicServer_callback w ty s = Inr s'" by blast
  have "logic_state w s'"
    using logic_callback_bufs [OF s'] logic_callback_keeps [OF s'] s w by (simp add: logic_state_def logic_inv_def)
  with s' show ?thesis by blast
qed

lemma logic_step_safe:
  assumes w: "logic_world_ok w" and s: "logic_state w s" and ok: "logic_ok w s e"
  shows "\<exists>s'. logic_step w e s = Inr s' \<and> logic_state w s'"
proof (cases e)
  case (LgPacket h body fd)
  then show ?thesis using logic_packet_state [OF w s] ok by simp
next
  case (LgReceive fd ps)
  then show ?thesis using lrx.conn_event_returns [OF w s] ok by simp
next
  case LgListener
  then show ?thesis using logic_listener_state [OF w s] by simp
next
  case (LgClose fd)
  then show ?thesis using logic_close_state [OF w s] by simp
next
  case LgUpdate
  then show ?thesis using logic_callback_state [OF w s, of LogicServer_Update] ok by simp
next
  case LgTryConnect
  then show ?thesis using logic_callback_state [OF w s, of FuncServer_TryToConnectAvailabeServer] by simp
next
  case LgRegister
  then show ?thesis using logic_callback_state [OF w s, of FuncServer_SendSelfInfoToCenter] ok by simp
qed

definition logic_start :: "world \<Rightarrow> LogicServer \<Rightarrow> bool" where
  "logic_start w s \<longleftrightarrow> logic_world_ok w \<and> s = LogicServer_new (w_cfg w)"

definition logic_state_ok :: "world \<Rightarrow> LogicServer \<Rightarrow> bool" where
  "logic_state_ok w s \<longleftrightarrow> logic_world_ok w \<and> logic_state w s"

lemma LogicServer_new_state: "logic_state w (LogicServer_new (w_cfg w))"
proof -
  have "connections (LogicServer_new (w_cfg w)) = []"
    by (simp add: LogicServer_new_def FuncServer_new_def ServerBase_new_def Let_def LogicServer.defs
        FuncServer.FuncServer.defs ServerBase.ServerBase.defs)
  then show ?thesis by (simp add: logic_state_def LogicServer_new_wf bufs_ok_def)
qed

interpretation lm: total_machine "logic_start w" "logic_step w" "logic_state_ok w" "logic_ok w"
proof
  show "logic_state_ok w s" if "logic_start w s" for s
    using that by (simp add: logic_start_def logic_state_ok_def LogicServer_new_state)
  show "logic_state_ok w s'" if "logic_state_ok w s" "logic_ok w s e" "logic_step w e s = Inr s'"
    for s e s'
    using that logic_step_safe [of w s e] by (auto simp: logic_state_ok_def)
  show "\<exists>s'. logic_step w e s = Inr s'" if "logic_state_ok w s" "logic_ok w s e" for s e
    using that logic_step_safe [of w s e] by (auto simp: logic_state_ok_def)
qed

text \<open>Whatever events come, excluded or not: as long as the server runs, its rooms stay consistent.\<close>

lemma logic_step_keeps:
  assumes "logic_step w e s = Inr s'"
  shows "keeping (logic_inv w) s s'"
proof (cases e)
  case (LgPacket h body fd)
  then show ?thesis using assms logic_handler_keeps by (simp add: on_packet_def)
next
  case (LgReceive fd ps)
  then show ?thesis using assms lr.conn_event_keeps [of w fd s s'] by (simp add: LogicServer_virtuals_def)
next
  case LgListener
  then show ?thesis using assms lr.listener_keeps [of w "listen_fd s" s s'] by (simp add: LogicServer_virtuals_def)
next
  case (LgClose fd)
  then show ?thesis using assms relatesD [OF logic_close_keeps] by simp
qed (use assms logic_callback_keeps [of w _ s s'] in \<open>simp_all del: LogicServer_callback.simps\<close>)

lemma logic_events_wf:
  assumes "logic_world_ok w" "foldF (logic_step w) es (LogicServer_new (w_cfg w)) = Inr s"
  shows "logic_wf (w_cfg w) s"
proof -
  have "keeping (logic_inv w) (LogicServer_new (w_cfg w)) s"
    using assms(2) logic_step_keeps by (rule foldF_keeps)
  then show ?thesis using assms(1) LogicServer_new_wf by (simp add: logic_inv_def)
qed

end
