(* ===== verification/Logic_Properties.thy ===== *)
theory Logic_Properties
  imports Logic_Events Example_World
begin

text \<open>
  What the game logic server promises, with applications to a town of two rooms: room 1, which 5
  and 6 fill and where a former member 9 is still recorded as offline, and room 2 with 7 alone.
\<close>

definition lobby :: "int \<Rightarrow> (int \<times> int) list \<Rightarrow> (int \<times> string) list \<Rightarrow> oset \<Rightarrow> oset \<Rightarrow> Room" where
  "lobby rid pids names pool off =
     \<lparr>m_id = rid, m_name = ''r'', cur_frame = new_Frame, frame_id = 0, m_size = 2, m_seed = 5,
      m_gameStarted = False, host_userid = fst (hd pids), userpid_pool = pool,
      userid2roleid = map (\<lambda>p. (fst p, 1)) pids, all_frames = [], userid2userpid = pids,
      in_game_id2pid = [], id2name = names, offline_userid = off, outbox = [], room_fault = None\<rparr>"

definition town :: LogicServer where
  "town = (LogicServer_new example_cfg)\<lparr>
     rooms := [(1, lobby 1 [(5, 1), (6, 2)] [(5, ''x''), (6, ''y'')] [] [9]), (2, lobby 2 [(7, 1)] [(7, ''w'')] [2] [])],
     roomid_pool := [], roomid_using := [1, 2], userid2roomid := [(5, 1), (6, 1), (7, 2)]\<rparr>"

lemma town_world_ok [simp]: "logic_world_ok example_world" "logic_config_ok example_cfg"
  "w_cfg w = example_cfg \<Longrightarrow> w_pb w = example_pb \<Longrightarrow> logic_world_ok w"
  by (simp_all add: logic_world_ok_def logic_config_ok_def)

lemma lobby_at:
  "room_at example_cfg 1 (lobby 1 [(5, 1), (6, 2)] [(5, ''x''), (6, ''y'')] [] [9])"
  "room_at example_cfg 2 (lobby 2 [(7, 1)] [(7, ''w'')] [2] [])"
proof -
  have holder: "\<exists>u. om_get [(5::int, 1), (6, 2)] u = Some p" if "1 \<le> p" "p \<le> 2" for p :: int
    using that by (intro exI [of _ "if p = 1 then 5 else (6::int)"]) auto
  show "room_at example_cfg 1 (lobby 1 [(5, 1), (6, 2)] [(5, ''x''), (6, ''y'')] [] [9])"
    unfolding room_at_def room_inv_def game_on_def frames_ok_def
    by (intro conjI room_wfI;
        use holder in \<open>auto simp: int32_def lobby_def om_wf_def om_keys_def om_has_def split: if_splits\<close>)
  show "room_at example_cfg 2 (lobby 2 [(7, 1)] [(7, ''w'')] [2] [])"
    unfolding room_at_def room_inv_def game_on_def frames_ok_def
    by (intro conjI room_wfI; auto simp: int32_def lobby_def om_wf_def om_keys_def om_has_def split: if_splits)
qed

lemma town_fields [simp]:
  "rooms town = [(1, lobby 1 [(5, 1), (6, 2)] [(5, ''x''), (6, ''y'')] [] [9]), (2, lobby 2 [(7, 1)] [(7, ''w'')] [2] [])]"
  "roomid_pool town = []" "roomid_using town = [1, 2]"
  "userid2roomid town = [(5, 1), (6, 1), (7, 2)]"
  by (simp_all add: town_def)

lemma town_wf: "logic_wf example_cfg town"
proof (rule logic_wf0I)
  show "set (roomid_pool town) \<union> set (roomid_using town) = {1..ROOM_POOL_SIZE example_cfg}"
    by auto
  fix rid r u
  assume "om_get (rooms town) rid = Some r"
  then show "room_at example_cfg rid r" "userid2userpid r = [] \<Longrightarrow> rid \<in> {}"
    "om_has u (userid2userpid r) = (om_get (userid2roomid town) u = Some rid)"
    using lobby_at by (auto simp: lobby_def om_has_def split: if_splits)
qed (auto simp: om_wf_def om_has_def split: if_splits)


section \<open>Every run\<close>


lemma LogicServer_new_fields [simp]:
  "connections (LogicServer_new cfg) = []" "listen_fd (LogicServer_new cfg) = -1"
  "center_server_client (LogicServer_new cfg) = -1" "conns_count (LogicServer_new cfg) = 0"
  "next_buf (LogicServer_new cfg) = 0" "rooms (LogicServer_new cfg) = []"
  "roomid_pool (LogicServer_new cfg) = [1..ROOM_POOL_SIZE cfg]" "userid2roomid (LogicServer_new cfg) = []"
  by (simp_all add: LogicServer_new_def FuncServer_new_def ServerBase_new_def LogicServer.defs
      FuncServer.FuncServer.defs ServerBase.ServerBase.defs Let_def)

definition room_request :: "BODYTYPE \<Rightarrow> int \<Rightarrow> MessageHead" where
  "room_request ty u = \<lparr>m_packageSize = 12, m_packageType = bodytype_code ty, m_userid = u\<rparr>"


lemma room_request_parsed:
  assumes "w_pb w = example_pb"
  shows "ServerBase_OnMsgBodyAnalysised w \<lparr>m_head = room_request CreateRoom 5, m_body = None\<rparr> [] 0 =
     Inr \<lparr>m_head = room_request CreateRoom 5, m_body = Some (Some (B_CreateRoom new_CreateRoom))\<rparr>"
proof -
  have "CreateMessageBody 7 = Some (B_CreateRoom new_CreateRoom)"
    using CreateMessageBody_code [of CreateRoom] by simp
  then show ?thesis by (intro parse_empty) (simp_all add: room_request_def assms example_pb_def)
qed

lemma room_request_served:
  "w_pb w = example_pb \<Longrightarrow> roomid_pool s \<noteq> [] \<Longrightarrow> packet_served w s (room_request CreateRoom 5, [])"
  by (simp add: packet_served_def room_request_parsed request_ok_def msg_object_def)

text \<open>A user creates a room, frames come, and a client connects and is lost.\<close>

definition morning :: "logic_event list" where
  "morning = [LgPacket (room_request CreateRoom 5) [] 7, LgUpdate, LgListener, LgClose 7, LgTryConnect]"

lemma morning_ok:
  "run_ok (logic_ok example_world) (logic_step example_world) morning (LogicServer_new example_cfg)"
proof -
  have "logic_ok example_world (LogicServer_new example_cfg) (LgPacket (room_request CreateRoom 5) [] 7)"
    using room_request_served [of example_world "LogicServer_new example_cfg"] by (simp add: upto.simps)
  moreover have "case logic_step example_world (LgPacket (room_request CreateRoom 5) [] 7) (LogicServer_new example_cfg) of
      Inl e \<Rightarrow> False | Inr s \<Rightarrow> update_ok s"
    by code_simp
  ultimately show ?thesis
    unfolding morning_def run_ok.simps by (auto split: sum.splits)
qed







text \<open>C2: in every reachable state of the logic server the table of users and the member lists of the
  rooms say the same, so nobody is in two rooms; no room is empty; and every room id from 1 to the
  size of the pool is either free or the id of a room.\<close>

theorem logic_rooms_consistent:
  assumes "logic_world_ok w" "foldF (logic_step w) es (LogicServer_new (w_cfg w)) = Inr s"
  shows "(\<forall>rid r. om_get (rooms s) rid = Some r \<longrightarrow> userid2userpid r \<noteq> [] \<and> m_id r = rid \<and>
       PlayerCount r \<le> ROOM_SIZE (w_cfg w) \<and>
       (\<forall>u. om_has u (userid2userpid r) \<longleftrightarrow> om_get (userid2roomid s) u = Some rid)) \<and>
     (\<forall>u rid. om_get (userid2roomid s) u = Some rid \<longrightarrow> om_has rid (rooms s)) \<and>
     set (roomid_pool s) \<union> dom (om_get (rooms s)) = {1..ROOM_POOL_SIZE (w_cfg w)} \<and>
     set (roomid_pool s) \<inter> dom (om_get (rooms s)) = {}"
  by (rule logic_wf_rooms) (rule logic_events_wf [OF assms])

lemma morning_runs:
  "\<exists>s. foldF (logic_step example_world) morning (LogicServer_new example_cfg) = Inr s"
  using lm.run_total [OF lm.init_inv, of example_world "LogicServer_new example_cfg" morning] morning_ok
  by (auto simp: logic_start_def)

theorem logic_rooms_consistent_witness:
  "\<exists>s. foldF (logic_step example_world) morning (LogicServer_new example_cfg) = Inr s \<and>
     set (roomid_pool s) \<union> dom (om_get (rooms s)) = {1..2} \<and>
     (\<forall>rid r. om_get (rooms s) rid = Some r \<longrightarrow> userid2userpid r \<noteq> [])"
proof -
  obtain s where s: "foldF (logic_step example_world) morning (LogicServer_new example_cfg) = Inr s"
    using morning_runs by blast
  then show ?thesis
    using logic_rooms_consistent [of example_world morning s] by auto
qed

section \<open>The requests\<close>

text \<open>C8: a request to join a room that does not exist moves nobody. For another room than the one the
  user is in, the user leaves the room it is in and then enters the new one if no game runs there
  and it is not full; otherwise the user is in no room at all.\<close>

theorem join_request_effect:
  assumes "logic_config_ok (w_cfg w)" "logic_wf (w_cfg w) s"
    and "msg_object msg = Some (B_JoinRoom body)"
    and "om_get (userid2roomid s) (sender msg) \<noteq> Some (jr_roomid body)"
  shows "\<exists>s'. HandleJoinRoom w msg s = Inr s' \<and> logic_wf (w_cfg w) s' \<and>
     om_get (userid2roomid s') =
       (case om_get (rooms s) (jr_roomid body) of
          None \<Rightarrow> om_get (userid2roomid s)
        | Some r \<Rightarrow> if joinable r then (om_get (userid2roomid s))(sender msg \<mapsto> jr_roomid body)
                    else (om_get (userid2roomid s))(sender msg := None))"
proof (cases "om_get (rooms s) (jr_roomid body)")
  case None
  then show ?thesis
    using quietD [of w s "HandleJoinRoom w msg s"] quiet_reply [OF assms(1,2)] assms(3)
    by (auto simp: HandleJoinRoom_def om_has_def)
next
  case (Some r)
  have "\<not> alone_in s (sender msg) (jr_roomid body)"
    using assms(4) by (simp add: alone_in_def)
  from MovePlayerToRoom_spec [OF assms(1,2) Some this] show ?thesis
    using assms(3,4) Some by (auto simp: HandleJoinRoom_def om_has_def split: if_splits)
qed

definition ask :: "int \<Rightarrow> proto_body \<Rightarrow> Message" where
  "ask u b = \<lparr>m_head = \<lparr>m_packageSize = 12, m_packageType = bodytype_code (body_class b), m_userid = u\<rparr>,
     m_body = Some (Some b)\<rparr>"

lemma ask_fields [simp]: "sender (ask u b) = u" "msg_object (ask u b) = Some b"
  by (simp_all add: ask_def msg_object_def)

lemma lobby_joinable [simp]:
  "joinable (lobby rid pids names pool off) \<longleftrightarrow> length pids < 2"
  by (auto simp: joinable_def lobby_def IsFull_def PlayerCount_def)

lemma town_without_7: "(om_get (userid2roomid town))(7 := None) = [5 \<mapsto> 1, 6 \<mapsto> 1]"
  by (rule ext) simp

text \<open>7 asks for the full room and has lost its own.\<close>

theorem join_request_effect_witness:
  "\<exists>s'. HandleJoinRoom example_world (ask 7 (B_JoinRoom (new_JoinRoom\<lparr>jr_roomid := 1\<rparr>))) town = Inr s' \<and>
     om_get (userid2roomid s') = [5 \<mapsto> 1, 6 \<mapsto> 1]"
proof -
  let ?b = "new_JoinRoom\<lparr>jr_roomid := 1\<rparr>"
  have no: "\<not> joinable (lobby 1 [(5, 1), (6, 2)] [(5, ''x''), (6, ''y'')] [] [9])" by simp
  have "\<exists>s'. HandleJoinRoom example_world (ask 7 (B_JoinRoom ?b)) town = Inr s' \<and>
     om_get (userid2roomid s') = (om_get (userid2roomid town))(7 := None)"
    using join_request_effect [of example_world town "ask 7 (B_JoinRoom ?b)" ?b] town_wf no by auto
  then show ?thesis unfolding town_without_7 .
qed

text \<open>C39: a user who asks for the room he is alone in is taken out of it first; that deletes the room,
  and entering it then follows a null pointer.\<close>

theorem join_own_room_faults:
  assumes "logic_config_ok (w_cfg w)" "logic_wf (w_cfg w) s"
    and "msg_object msg = Some (B_JoinRoom body)"
    and "om_get (userid2roomid s) (sender msg) = Some (jr_roomid body)"
    and "\<forall>v. om_get (userid2roomid s) v = Some (jr_roomid body) \<longrightarrow> v = sender msg"
  shows "HandleJoinRoom w msg s = Inl NullDeref"
proof -
  have "alone_in s (sender msg) (jr_roomid body)"
    using assms(4,5) unfolding alone_in_def by blast
  moreover have "om_has (jr_roomid body) (rooms s)"
    using logic_wf0D(11) [OF assms(2,4)] .
  ultimately show ?thesis
    using MovePlayerToRoom_alone [OF assms(1,2)] assms(3) by (simp add: HandleJoinRoom_def)
qed

theorem join_own_room_faults_witness:
  "HandleJoinRoom example_world (ask 7 (B_JoinRoom (new_JoinRoom\<lparr>jr_roomid := 2\<rparr>))) town = Inl NullDeref"
proof -
  let ?b = "new_JoinRoom\<lparr>jr_roomid := 2\<rparr>"
  have alone: "v = 7" if "om_get (userid2roomid town) v = Some 2" for v
    using that by (simp split: if_splits)
  show ?thesis
    by (rule join_own_room_faults [where body = ?b]) (use town_wf alone in simp_all)
qed

text \<open>A request to leave a room is obeyed exactly when the user is in that room: the user is then
  in no room, and nobody else has moved; otherwise nobody moves.\<close>

theorem leave_request_effect:
  assumes "logic_config_ok (w_cfg w)" "logic_wf (w_cfg w) s"
    and "msg_object msg = Some (B_LeaveRoom body)"
  shows "\<exists>s'. HandleLeaveRoom w msg s = Inr s' \<and> logic_wf (w_cfg w) s' \<and>
     om_get (userid2roomid s') =
       (if om_get (userid2roomid s) (sender msg) = Some (lr_roomid body)
        then (om_get (userid2roomid s))(sender msg := None) else om_get (userid2roomid s))"
  using HandleLeaveRoom_spec [OF assms] .

theorem leave_request_effect_witness:
  "\<exists>s'. HandleLeaveRoom example_world (ask 7 (B_LeaveRoom (new_LeaveRoom\<lparr>lr_roomid := 2\<rparr>))) town = Inr s' \<and>
     logic_wf example_cfg s' \<and> om_get (userid2roomid s') = [5 \<mapsto> 1, 6 \<mapsto> 1]"
proof -
  let ?b = "new_LeaveRoom\<lparr>lr_roomid := 2\<rparr>"
  have "\<exists>s'. HandleLeaveRoom example_world (ask 7 (B_LeaveRoom ?b)) town = Inr s' \<and>
     logic_wf example_cfg s' \<and> om_get (userid2roomid s') = (om_get (userid2roomid town))(7 := None)"
    using leave_request_effect [of example_world town "ask 7 (B_LeaveRoom ?b)" ?b] town_wf by auto
  then show ?thesis unfolding town_without_7 .
qed


text \<open>A request to create a room is refused to a user who is in one; otherwise the user is alone in
  a new room with the least free id, and when no id is free the server reads past the end of the
  pool.\<close>

theorem create_request_effect:
  assumes "logic_config_ok (w_cfg w)" "logic_wf (w_cfg w) s"
    and "msg_object msg = Some (B_CreateRoom body)"
  shows "case om_get (userid2roomid s) (sender msg) of
       Some rid \<Rightarrow> \<exists>s'. HandleCreateRoom w msg s = Inr s' \<and> userid2roomid s' = userid2roomid s
     | None \<Rightarrow>
         if roomid_pool s = [] then HandleCreateRoom w msg s = Inl EmptyContainer
         else \<exists>s'. HandleCreateRoom w msg s = Inr s' \<and> logic_wf (w_cfg w) s' \<and>
           om_get (userid2roomid s') = (om_get (userid2roomid s))(sender msg \<mapsto> Min (set (roomid_pool s)))"
proof (cases "om_get (userid2roomid s) (sender msg)")
  case None
  then show ?thesis
    using HandleCreateRoom_spec [OF assms] HandleCreateRoom_exhausted [OF assms(3), of s w]
    by (auto simp: om_has_def)
next
  case (Some rid)
  then have "quiet w s (HandleCreateRoom w msg s)"
    using quiet_reply [OF assms(1,2)] assms(3) by (simp add: HandleCreateRoom_def om_has_def)
  then show ?thesis
    using Some by (auto simp: quiet_def)
qed

theorem create_request_effect_witness:
  "HandleCreateRoom example_world (ask 8 (B_CreateRoom new_CreateRoom)) town = Inl EmptyContainer"
  using create_request_effect [of example_world town "ask 8 (B_CreateRoom new_CreateRoom)" new_CreateRoom] town_wf
  by simp

text \<open>C32: when a gate reports that a user has logged out, the users of its room keep their room unless
  the users the room has recorded as offline, the new one included, are as many as its members;
  then the room is deleted and all of them are out of it. The record of offline users is not
  cleared when a user leaves the room, so a member who is online can lose the room this way.\<close>

theorem logout_effect:
  assumes "logic_config_ok (w_cfg w)" "logic_wf (w_cfg w) s"
    and "msg_object msg = Some (B_UserInfo body)" "us_opt body = User_Logout"
    and "om_get (userid2roomid s) (us_userid body) = Some rid" "om_get (rooms s) rid = Some r"
  shows "\<exists>s'. LogicServer_HandleUserInfo w msg s = Inr s' \<and> logic_wf (w_cfg w) s' \<and>
     om_get (userid2roomid s') =
       (if length (offline_userid (SetUserOffline (us_userid body) r)) = length (userid2userpid r)
        then (\<lambda>v. if om_get (userid2roomid s) v = Some rid then None else om_get (userid2roomid s) v)
        else om_get (userid2roomid s))"
proof -
  have at: "room_at (w_cfg w) rid r" by (rule logic_wf0D(8) [OF assms(2,6)])
  then have "userid2userpid (SetUserOffline (us_userid body) r) = userid2userpid r"
    using room_apply_stays [of "w_cfg w" r "EvOffline (us_userid body)"] by (simp add: room_at_def)
  then have kills: "kills_room s body \<longleftrightarrow>
      length (offline_userid (SetUserOffline (us_userid body) r)) = length (userid2userpid r)"
    using assms(4-6) by (simp add: kills_room_def CheckRoomDead_def)
  show ?thesis
    using Logout_spec [OF assms(1-3)] unfolding kills assms(5) .
qed

text \<open>5 logs out; 9, long gone, still counts as offline, and 6 loses the room.\<close>

lemma town_logout:
  "length (offline_userid (SetUserOffline 5 (lobby 1 [(5, 1), (6, 2)] [(5, ''x''), (6, ''y'')] [] [9]))) = 2"
  by (simp add: SetUserOffline_def lobby_def om_has_def Room_LeaveFromGame.simps)

theorem logout_effect_witness:
  "\<exists>s'. LogicServer_HandleUserInfo example_world (ask 0 (B_UserInfo (new_UserInfo\<lparr>us_userid := 5, us_opt := User_Logout\<rparr>)))
       town = Inr s' \<and> om_get (userid2roomid s') 6 = None \<and> om_get (userid2roomid s') 7 = Some 2"
proof -
  let ?b = "new_UserInfo\<lparr>us_userid := 5, us_opt := User_Logout\<rparr>"
  let ?r = "lobby 1 [(5, 1), (6, 2)] [(5, ''x''), (6, ''y'')] [] [9]"
  obtain s' where "LogicServer_HandleUserInfo example_world (ask 0 (B_UserInfo ?b)) town = Inr s'"
    "om_get (userid2roomid s') = (\<lambda>v. if om_get (userid2roomid town) v = Some 1 then None
        else om_get (userid2roomid town) v)"
    using logout_effect [of example_world town "ask 0 (B_UserInfo ?b)" ?b 1 ?r] town_wf town_logout
    by (auto simp: lobby_def)
  then show ?thesis by simp
qed

section \<open>Frames and connections\<close>

text \<open>A frame timer ticks every room exactly once and changes nothing else about the rooms or who is
  in them, while no running game is at its last frame.\<close>

theorem update_ticks_every_room:
  assumes "logic_config_ok (w_cfg w)" "logic_wf (w_cfg w) s" "update_ok s"
  shows "\<exists>s'. LogicServer_callback w LogicServer_Update s = Inr s' \<and> logic_wf (w_cfg w) s' \<and>
     userid2roomid s' = userid2roomid s \<and>
     om_get (rooms s') = (\<lambda>rid. map_option (\<lambda>r. (snd (Room_Tick (w_cfg w) r))\<lparr>outbox := []\<rparr>) (om_get (rooms s) rid))"
  using Update_rooms_spec [OF assms] by (simp add: ticked_def [abs_def])

lemma town_ticks: "update_ok town"
  by (simp add: update_ok_def ticks_on_def lobby_def)

theorem update_ticks_every_room_witness:
  "\<exists>s'. LogicServer_callback example_world LogicServer_Update town = Inr s' \<and>
     om_get (rooms s') 2 = Some (lobby 2 [(7, 1)] [(7, ''w'')] [2] [])"
proof -
  have "snd (Room_Tick cfg (lobby rid pids names pool off)) = lobby rid pids names pool off"
    "(lobby rid pids names pool off)\<lparr>outbox := []\<rparr> = lobby rid pids names pool off" for cfg rid pids names pool off
    by (simp_all add: Room_Tick_def lobby_def)
  then show ?thesis
    using update_ticks_every_room [of example_world town] town_wf town_ticks by auto
qed

text \<open>Closing a connection of the logic server returns, although sending the news of it can close
  further connections, and leaves rooms, users and gates alone; and it does what the method's body
  says with the method itself as the one it calls.\<close>

theorem logic_close_returns:
  assumes "net_config_ok (w_cfg w)"
  shows "\<exists>s'. LogicServer_CloseClientSocket w fd s = Inr s' \<and>
     LogicServer_close_body w (LogicServer_CloseClientSocket w) fd s = Inr s' \<and>
     rooms s' = rooms s \<and> roomid_pool s' = roomid_pool s \<and> userid2roomid s' = userid2roomid s \<and>
     user_gate s' = user_gate s \<and> userid2username s' = userid2username s"
proof -
  obtain s' where "LogicServer_CloseClientSocket w fd s = Inr s'" "same_game s s'"
    using lc.virtual_close_good [OF assms TrueI] unfolding LogicServer_CloseClientSocket_def by blast
  then show ?thesis
    using lc.virtual_close_eq [of w fd s] unfolding LogicServer_CloseClientSocket_def
    by (auto simp: same_game_def)
qed

text \<open>With nobody listening: every send fails and closes its connection in turn.\<close>

definition deaf_world :: world where
  "deaf_world = example_world\<lparr>w_os := example_os\<lparr>os_send := (\<lambda>n fd bs. False)\<rparr>\<rparr>"

theorem logic_close_returns_witness:
  "\<exists>s'. LogicServer_CloseClientSocket deaf_world 7
       (town\<lparr>connections := [(7, 0, RingBuffer_new example_cfg), (9, 1, RingBuffer_new example_cfg)],
             center_server_client := 9, db_server_client := 7\<rparr>) = Inr s' \<and> rooms s' = rooms town"
  using logic_close_returns [of deaf_world 7 "town\<lparr>connections := [(7, 0, RingBuffer_new example_cfg),
      (9, 1, RingBuffer_new example_cfg)], center_server_client := 9, db_server_client := 7\<rparr>"]
  by (auto simp: deaf_world_def)

end
