(* ===== verification/Run_Properties.thy ===== *)
theory Run_Properties
  imports Center_Run DB_Run Logic_Run DB_Properties Logic_Properties
begin

text \<open>
  Properties of whole processes, from \<open>main\<close> on, with applications to a center server that a
  client asks for a server.
\<close>

section \<open>A center server with a client\<close>

definition ask_head :: MessageHead where
  "ask_head = \<lparr>m_packageSize = 12, m_packageType = bodytype_code ServerInfo, m_userid = 0\<rparr>"

definition wanted :: ServerInfoMsg where
  "wanted = new_ServerInfo\<lparr>sv_opt := Op_RequstAssgin, sv_server_type := 3\<rparr>"

text \<open>A client connects in the first turn and asks for a logic server in each of the following; of a
  server, the protocol carries the port.\<close>

definition busy_world :: world where
  "busy_world = example_world\<lparr>
     w_pb := \<lparr>pb_enc = (\<lambda>b. case b of B_ServerInfo q \<Rightarrow> IntToByte (sv_port q) | _ \<Rightarrow> []), pb_dec = (\<lambda>p bs. (True, if body_class p = ServerInfo then B_ServerInfo wanted else p))\<rparr>,
     w_os := example_os\<lparr>os_accept := (\<lambda>n. if n < 10 then Some 7 else None),
       os_epoll_wait := (\<lambda>n. Some (if n < 10 then [(9, True, False, False)] else [(7, True, False, False)])),
       os_recv := (\<lambda>n fd. ([wire [(ask_head, [])]], WouldBlock))\<rparr>\<rparr>"

lemma busy_fields [simp]:
  "w_cfg busy_world = example_cfg" "os_send (w_os busy_world) n fd b"
  "os_accept (w_os busy_world) n = (if n < 10 then Some 7 else None)"
  "os_epoll_wait (w_os busy_world) n = Some (if n < 10 then [(9, True, False, False)] else [(7, True, False, False)])"
  "os_recv (w_os busy_world) n fd = ([wire [(ask_head, [])]], WouldBlock)"
  by (simp_all add: busy_world_def)

lemma busy_pb: "pb_enc (w_pb busy_world) (B_ServerInfo q) = IntToByte (sv_port q)"
  "pb_dec (w_pb busy_world) p bs = (True, if body_class p = ServerInfo then B_ServerInfo wanted else p)"
  by (simp_all add: busy_world_def)

lemma ask_packet_ok: "packet_ok example_cfg (ask_head, [])"
  by (simp add: packet_ok_def ask_head_def head_ok_def int32_def CheckHeaderIsValid_def)

lemma busy_calm: "calm busy_world"
proof -
  have "length (wire [(ask_head, [])]) = 12" by (simp add: wire_def)
  then show ?thesis
    using ask_packet_ok unfolding calm_def by (auto simp: sends_ok_def intro!: exI [of _ "[(ask_head, [])]"])
qed

lemma busy_world_ok: "center_world_ok busy_world"
  by (auto simp: center_world_ok_def pb_keeps_class_def busy_pb)

lemma busy_requests: "requests busy_world (ask_head, []) wanted"
proof -
  have "CreateMessageBody (m_packageType ask_head) = Some (B_ServerInfo new_ServerInfo)"
    using CreateMessageBody_code [of ServerInfo] by (simp add: ask_head_def)
  from parse_empty [OF this, of busy_world] show ?thesis
    by (auto simp: requests_def ask_head_def wanted_def busy_pb msg_object_def)
qed

lemma busy_first_turn:
  "\<exists>s. CenterServer_main 1 busy_world = Inr (True, s) \<and> om_has 7 (connections s) \<and> listen_fd s = 9 \<and>
     io_clock s = 10"
  unfolding CenterServer_main_def CenterServer_virtuals_def
  by (simp add: BootServer_def StartListener_def busy_world_def example_os_def example_cfg_def server_turn_def io_tick_def
      CreateEpoll_def AddEventToEpoll_def CenterServer_new_def ServerBase_new_def CenterServer.CenterServer.defs
      ServerBase.ServerBase.defs Let_def epoll_event_def HandleListenerEvent_def SendConnsChange_def TransformType_def
      new_connection_def FireEvent_def om_has_def)

section \<open>The center server\<close>

text \<open>C15: the center server as a process, whatever the network delivers and whichever calls fail: as long
  as it runs, each group lists, without repetition, exactly the registered servers of its type,
  every registered server is still allocated, and no two connections share one.\<close>

theorem center_main_exact:
  assumes "net_config_ok (w_cfg w)" "pb_keeps_class (w_pb w)" "CenterServer_main turns w = Inr (go, s)"
  shows "distinct (gateServerGroup s @ logicServerGroup s @ dbServerGroup s) \<and>
     (\<forall>p. p \<in> set (gateServerGroup s @ logicServerGroup s @ dbServerGroup s) \<longleftrightarrow>
        (\<exists>fd i. om_get (MachineRecord s) fd = Some p \<and> om_get (infos s) p = Some i \<and>
           (si_type i = server_type_code GATE \<and> p \<in> set (gateServerGroup s) \<or>
            si_type i = server_type_code LOGIC \<and> p \<in> set (logicServerGroup s) \<or>
            si_type i = server_type_code DATABASE \<and> p \<in> set (dbServerGroup s)))) \<and>
     (\<forall>fd p. om_get (MachineRecord s) fd = Some p \<longrightarrow> om_has p (infos s) \<and>
        (\<forall>fd'. om_get (MachineRecord s) fd' = Some p \<longrightarrow> fd' = fd))"
proof -
  have "center_wf s"
    using assms by (intro center_boot_wf) (simp_all add: center_world_ok_def)
  then show ?thesis by (rule center_wf_groups)
qed

theorem center_main_exact_witness:
  "\<exists>go s. CenterServer_main 5 busy_world = Inr (go, s) \<and>
     distinct (gateServerGroup s @ logicServerGroup s @ dbServerGroup s)"
proof -
  obtain go s where "CenterServer_main 5 busy_world = Inr (go, s)"
    using center_main_idle [OF busy_calm busy_world_ok] by blast
  then show ?thesis
    using center_main_exact [of busy_world 5 go s] busy_world_ok by (simp add: center_world_ok_def)
qed

text \<open>C17: the center server never hangs and never stops on a fault, on a calm network (every send is
  taken, every connection delivers whole packets that fit its buffer): however many turns are
  asked for, it serves them, or ends because it could not start or \<open>epoll_wait\<close> failed.\<close>

theorem center_serves:
  assumes "calm w" "pb_keeps_class (w_pb w)"
  shows "\<exists>go s. CenterServer_main turns w = Inr (go, s) \<and>
     (go \<longrightarrow> (\<exists>s'. CenterServer_main (Suc turns) w =
        Inr (os_epoll_wait (w_os w) (io_clock s) \<noteq> None, s')))"
proof -
  have ok: "center_world_ok w" using assms calmD(1) by (simp add: center_world_ok_def)
  obtain go s where s: "CenterServer_main turns w = Inr (go, s)" "go \<longrightarrow> center_idle w s"
    using center_main_idle [OF assms(1) ok] by blast
  have "\<exists>s'. CenterServer_main (Suc turns) w = Inr (os_epoll_wait (w_os w) (io_clock s) \<noteq> None, s')" if up: go
  proof -
    obtain s1 where s1: "server_turn w (CenterServer_virtuals w) s = Inr (os_epoll_wait (w_os w) (io_clock s) \<noteq> None, s1)"
      using center_turn_idle [OF assms(1) ok, of s] s(2) up by blast
    have "CenterServer_main (Suc turns) w = server_loop 1 w (CenterServer_virtuals w) s"
      using center_main_more [of turns w s 1] s(1) up by simp
    then show ?thesis using s1 by (cases "os_epoll_wait (w_os w) (io_clock s)") simp_all
  qed
  then show ?thesis using s(1) by blast
qed

theorem center_serves_witness:
  "\<exists>go s. CenterServer_main 8 busy_world = Inr (go, s)"
  using center_serves [of busy_world 8] busy_calm busy_world_ok by (auto simp: center_world_ok_def)

text \<open>C16: a request for a server is answered in the turn it arrives in. When a center server that runs on
  a calm network (every send is taken, every connection delivers whole packets that fit its buffer)
  is told by \<open>epoll_wait\<close> that an open connection has data, and the data contain such a request,
  anywhere among other packets and with any other events in the same turn, the earlier ones for
  other connections, and \<open>accept\<close> does not return the number of the connection, then the turn ends
  with the server the center assigns, in the state of its registry at that moment, sent to the
  client, although the connection may be closed right after it; only an answer that outgrows a
  buffer is dropped instead. (An answer when no server of the type is up has an unset port and
  type, which are arbitrary numbers here.)\<close>

theorem center_answers:
  assumes "calm w" "pb_keeps_class (w_pb w)"
    and "CenterServer_main turns w = Inr (True, s)"
    and "os_epoll_wait (w_os w) (io_clock s) = Some (pre @ (fd, True, err, hup) # post)"
    and "fd \<notin> fst ` set pre" "fd \<noteq> listen_fd s" "om_has fd (connections s)"
    and "\<forall>n\<ge>io_clock s. os_accept (w_os w) n \<noteq> Some fd"
    and "\<forall>n\<ge>io_clock s. asks w fd q n"
  shows "\<exists>s' s1 i rb before p after t m es. CenterServer_main (Suc turns) w = Inr (True, s') \<and>
     foldF (epoll_event w (CenterServer_virtuals w)) pre (io_tick s) = Inr s1 \<and>
     concat (fst (os_recv (w_os w) (io_clock s1) fd)) = wire (before @ p # after) \<and> requests w p q \<and>
     foldF (on_packet (CenterServer_OnMsgBodyAnalysised w) fd) before (set_buffer fd i rb (io_tick s1)) = Inr t \<and>
     AssignServer w (sv_server_type q) t = Inr m \<and>
     (let reply = NewServerInfoMessage (w_cfg w) (w_pb w) (si_ip m) (si_port m) (si_name m) (si_type m) Op_Connect (si_level m)
      in net_log s' = net_log t @
           (if m_packageSize (m_head reply) \<le> MAX_BUFFER_SIZE (w_cfg w) then [Sent fd (packet_bytes (w_pb w) reply)] else []) @ es)"
proof -
  have ok: "center_world_ok w" using assms(1,2) calmD(1) by (simp add: center_world_ok_def)
  have idle: "center_idle w s" using center_main_idle [OF assms(1) ok, of turns] assms(3) by auto
  have "fd \<notin> accepted w (io_clock s)" using assms(8) by (auto simp: accepted_def)
  then obtain s' where s': "server_turn w (CenterServer_virtuals w) s = Inr (True, s')"
      "answered w fd q (\<lambda>t. \<exists>s1. foldF (epoll_event w (CenterServer_virtuals w)) pre (io_tick s) = Inr s1 \<and>
         asking w fd q s1 t) s'"
    using turn_answered [OF assms(1) ok idle assms(4,5) _ assms(6,7), of q] assms(9) by blast
  have "CenterServer_main (Suc turns) w = Inr (True, s')"
    using center_main_more [OF assms(3), of 1] s'(1) by simp
  then show ?thesis
    using s'(2) unfolding answered_def sent_reply_def fits_buffer_def reply_of_def asking_def serving_def Let_def by blast
qed

theorem center_answers_witness:
  "\<exists>s (t :: CenterServer) m es. CenterServer_main 2 busy_world = Inr (True, s) \<and> AssignServer busy_world 3 t = Inr m \<and>
     net_log s = net_log t @ Sent 7 (packet_bytes (w_pb busy_world)
       (NewServerInfoMessage example_cfg (w_pb busy_world) (si_ip m) (si_port m) (si_name m) (si_type m) Op_Connect (si_level m))) # es"
proof -
  obtain s where s: "CenterServer_main 1 busy_world = Inr (True, s)" "om_has 7 (connections s)" "listen_fd s = 9"
      "io_clock s = 10"
    using busy_first_turn by blast
  have "asks busy_world 7 wanted n" for n
    using ask_packet_ok busy_requests unfolding asks_def
    by (intro exI [of _ "[wire [(ask_head, [])]]"] exI [of _ "[(ask_head, [])]"] exI [of _ "(ask_head, [])"]) simp
  moreover have "Message_length example_cfg (w_pb busy_world) (Some (Some (B_ServerInfo b))) = 16" for b
    by (simp add: Message_length_def MessageBody_length_def busy_pb)
  ultimately show ?thesis
    using center_answers [of busy_world 1 s "[]" 7 False False "[]" wanted] s busy_calm busy_world_ok
    by (auto simp: center_world_ok_def wanted_def numeral_2_eq_2 NewServerInfoMessage_def make_message_def
        simp del: foldF.simps)
qed

section \<open>The database server\<close>

text \<open>C18: what the database server ever sends to MySQL and Redis, whatever the network and those two
  answer: after the one \<open>AUTH\<close> of its start, for each login the two cache lookups, at most one query
  for the escaped name and then only cache updates, for each registration at most the question
  whether the escaped name exists and then at most one insertion of that name. So no statement
  ever carries a name or a password that was not escaped.\<close>

theorem db_main_statements:
  assumes "DBServer_main turns w d redis_password = Inr s"
  shows "(db_log s = [] \<or> (\<exists>ts. db_log s = Redis [''AUTH'', redis_password] # concat ts \<and>
        (\<forall>es\<in>set ts. login_trace d es \<or> register_trace d es))) \<and>
     (\<forall>q. Sql q \<in> set (db_log s) \<longrightarrow>
        (\<exists>name passwd. q \<in> {sql_user (my_escape d name), sql_exists (my_escape d name),
           sql_insert (my_escape d name) (my_escape d passwd)}))"
proof -
  have traces: "db_log s = [] \<or> (\<exists>ts. db_log s = Redis [''AUTH'', redis_password] # concat ts \<and>
      (\<forall>es\<in>set ts. login_trace d es \<or> register_trace d es))"
    using db_main_traces [OF assms] by (simp add: db_traced_def request_trace_def)
  have one: "\<exists>name passwd. q \<in> {sql_user (my_escape d name), sql_exists (my_escape d name),
      sql_insert (my_escape d name) (my_escape d passwd)}"
    if "login_trace d es \<or> register_trace d es" "Sql q \<in> set es" for es q
    using that
    by (auto simp: login_trace_def register_trace_def hget_pwd_def hget_uid_def;
        use insertCI in \<open>blast\<close>)
  show ?thesis using traces one by fastforce
qed

text \<open>A database server that comes up while the center server is down.\<close>

definition alone_world :: world where
  "alone_world = example_world\<lparr>
     w_cfg := example_cfg\<lparr>LOGIC_SERVERS := [(''127.0.0.1'', 6001, ''logic'')]\<rparr>,
     w_os := example_os\<lparr>os_connect := (\<lambda>n ip p. False), os_time := (\<lambda>n. 0)\<rparr>\<rparr>"

lemma db_alone_runs:
  "\<exists>s. DBServer_main 1 alone_world one_user ''pw'' = Inr s \<and> db_log s = [Redis [''AUTH'', ''pw'']] \<and>
     length (m_callfuncList s) = 2"
  unfolding DBServer_main_def DBServer_virtuals_def
  by (simp add: BootServer_def StartListener_def alone_world_def example_world_def example_os_def example_cfg_def one_user_def
      server_turn_def io_tick_def CreateEpoll_def AddEventToEpoll_def DBServer_new_def FuncServer_new_def ServerBase_new_def
      DBServer.DBServer.defs FuncServer.FuncServer.defs ServerBase.ServerBase.defs Let_def ConnectToMysqlAndRedis_def
      redisCommand_def db_do_def FuncServer_OnListenerStart_def SendSelfInfoToCenter.simps DynamicCalcServerFreeLevel_def
      SendMsg_def ConnectToOtherServer_def om_has_def FireEvent_def Timer_Tick_def Timer_due_def Timer_new_def Timer_SetOnce_def
      Timer_Start_def Timer_Stop_def getCurrentTime_def eval_nat_numeral upt_rec)

theorem db_main_statements_witness:
  "\<exists>s ts. DBServer_main 1 alone_world one_user ''pw'' = Inr s \<and>
     db_log s = Redis [''AUTH'', ''pw''] # concat ts \<and> (\<forall>es\<in>set ts. login_trace one_user es \<or> register_trace one_user es)"
proof -
  obtain s where s: "DBServer_main 1 alone_world one_user ''pw'' = Inr s" "db_log s = [Redis [''AUTH'', ''pw'']]"
    using db_alone_runs by blast
  then show ?thesis using db_main_statements [OF s(1)] by auto
qed

section \<open>The logic server\<close>

text \<open>C14: the logic server as a process, whatever the network delivers and whichever calls fail: as long as
  it runs, the table of users and the member lists of the rooms say the same, so nobody is in two
  rooms; no room is empty; and every room id from 1 to the size of the pool is either free or the
  id of a room.\<close>

theorem logic_main_consistent:
  assumes "logic_config_ok (w_cfg w)" "pb_keeps_class (w_pb w)" "LogicServer_main turns w = Inr s"
  shows "(\<forall>rid r. om_get (rooms s) rid = Some r \<longrightarrow> userid2userpid r \<noteq> [] \<and> m_id r = rid \<and>
       PlayerCount r \<le> ROOM_SIZE (w_cfg w) \<and>
       (\<forall>u. om_has u (userid2userpid r) \<longleftrightarrow> om_get (userid2roomid s) u = Some rid)) \<and>
     (\<forall>u rid. om_get (userid2roomid s) u = Some rid \<longrightarrow> om_has rid (rooms s)) \<and>
     set (roomid_pool s) \<union> dom (om_get (rooms s)) = {1..ROOM_POOL_SIZE (w_cfg w)} \<and>
     set (roomid_pool s) \<inter> dom (om_get (rooms s)) = {}"
proof -
  have "logic_wf (w_cfg w) s"
    using assms by (intro logic_main_wf) (simp_all add: logic_world_ok_def)
  then show ?thesis by (rule logic_wf_rooms)
qed

lemma alone_world_ok: "logic_config_ok (w_cfg alone_world)" "pb_keeps_class (w_pb alone_world)"
  using town_world_ok(2)
  by (simp_all add: alone_world_def logic_config_ok_def net_config_ok_def room_config_ok_def)

lemma logic_alone_runs:
  "\<exists>s. LogicServer_main 1 alone_world = Inr s"
  unfolding LogicServer_main_def LogicServer_virtuals_def LogicServer_BootServer_def
  by (simp add: BootServer_def StartListener_def alone_world_def example_world_def example_os_def example_cfg_def 
      server_turn_def io_tick_def CreateEpoll_def AddEventToEpoll_def LogicServer_new_def FuncServer_new_def ServerBase_new_def
      LogicServer.LogicServer.defs FuncServer.FuncServer.defs ServerBase.ServerBase.defs Let_def 
      FuncServer_OnListenerStart_def SendSelfInfoToCenter.simps DynamicCalcServerFreeLevel_def
      SendMsg_def ConnectToOtherServer_def om_has_def FireEvent_def Timer_Tick_def Timer_due_def Timer_new_def Timer_SetOnce_def
      Timer_Start_def Timer_Stop_def getCurrentTime_def eval_nat_numeral upt_rec Update_rooms_fold)

theorem logic_main_consistent_witness:
  "\<exists>s. LogicServer_main 1 alone_world = Inr s \<and>
     set (roomid_pool s) \<union> dom (om_get (rooms s)) = {1..2} \<and> set (roomid_pool s) \<inter> dom (om_get (rooms s)) = {}"
proof -
  obtain s where "LogicServer_main 1 alone_world = Inr s" using logic_alone_runs by blast
  then show ?thesis using logic_main_consistent [OF alone_world_ok] by (auto simp: alone_world_def)
qed

end
