(* ===== verification/Relay.thy ===== *)
theory Relay
  imports Gate_Messages Logic_Calm
begin

text \<open>
  A client's request on its way through the gate to the logic server: the bytes the gate writes
  are the ones the logic server reads, and what its dispatch gets is the client's message in the
  name of the user its connection is bound to.
\<close>

section \<open>At the gate\<close>

text \<open>The requests the gate passes on to the logic server.\<close>

definition relayed :: "Message \<Rightarrow> bool" where
  "relayed msg \<longleftrightarrow>
     (\<exists>ty. bodytype_of (m_packageType (m_head msg)) = Some ty \<and>
        (ty \<in> {ChangeRole, JoinGame, QuitGame, UserOperate, StartGame} \<or>
         ty = JoinRoom \<and> (\<exists>b. msg_object msg = Some (B_JoinRoom b) \<and> jr_type b = REQUEST) \<or>
         ty = LeaveRoom \<and> (\<exists>b. msg_object msg = Some (B_LeaveRoom b) \<and> lr_type b = REQUEST) \<or>
         ty = CreateRoom \<and> (\<exists>b. msg_object msg = Some (B_CreateRoom b) \<and> cr_type b = REQUEST) \<or>
         ty = GetRoomList \<and> (\<exists>b. msg_object msg = Some (B_GetRoomList b) \<and> gl_type b = REQUEST)))"

lemma set_userid_fields [simp]:
  "m_packageType (m_head (set_userid u msg)) = m_packageType (m_head msg)"
  "m_packageSize (m_head (set_userid u msg)) = m_packageSize (m_head msg)"
  "m_userid (m_head (set_userid u msg)) = u" "m_body (set_userid u msg) = m_body msg"
  "msg_object (set_userid u msg) = msg_object msg"
  by (simp_all add: set_userid_def msg_object_def)

lemma relayed_dispatch:
  assumes "relayed msg" "\<not> is_server_fd fd s"
  shows "Gate_dispatch w (set_userid u msg) fd s = to_logic w (set_userid u msg) s"
  using assms by (auto simp: relayed_def Gate_dispatch_def by_type_def is_server_fd_def)

lemma relayed_not_server:
  assumes "relayed msg"
  shows "m_packageType (m_head msg) \<noteq> bodytype_code ServerInfo" "m_packageType (m_head msg) \<noteq> bodytype_code UserInfo"
proof -
  obtain ty where ty: "bodytype_of (m_packageType (m_head msg)) = Some ty" "ty \<noteq> ServerInfo" "ty \<noteq> UserInfo"
    using assms by (auto simp: relayed_def)
  show "m_packageType (m_head msg) \<noteq> bodytype_code ServerInfo"
    using ty bodytype_of_code [of ServerInfo] by (metis option.inject)
  show "m_packageType (m_head msg) \<noteq> bodytype_code UserInfo"
    using ty bodytype_of_code [of UserInfo] by (metis option.inject)
qed

lemma gate_relays:
  assumes w: "sends_ok w" and base: "ServerBase_OnMsgBodyAnalysised w m body len = Inr msg"
    and msg: "relayed msg" and test: "\<not> PRESSURE_TEST (w_cfg w)"
    and fd: "\<not> is_server_fd fd s" "om_get (fd_user_record s) fd = Some u" "fst (CheckMessageValid msg fd s)"
    and logic: "om_has (logic_server_client s) (connections s)"
    and size: "m_packageSize (m_head msg) = Message_length (w_cfg w) (w_pb w) (m_body msg)"
      "m_packageSize (m_head msg) \<le> MAX_BUFFER_SIZE (w_cfg w)"
  shows "\<exists>s'. GateServer_OnMsgBodyAnalysised w m body len fd s = Inr s' \<and>
     net_log s' = net_log s @ [Sent (logic_server_client s) (packet_bytes (w_pb w) (set_userid u msg))]"
proof -
  let ?t = "snd (CheckMessageValid msg fd s)"
  have t: "connections ?t = connections s" "net_log ?t = net_log s" "logic_server_client ?t = logic_server_client s"
    "fd_user_record ?t = fd_user_record s" "\<not> is_server_fd fd ?t"
    using fd(1) by (auto simp: CheckMessageValid_def Let_def is_server_fd_def)
  have user: "trusted_userid fd msg ?t = set_userid u msg"
    using fd(2) t(4) by (simp add: trusted_userid_def)
  have "GateServer_OnMsgBodyAnalysised w m body len fd s = to_logic w (set_userid u msg) ?t"
    using Gate_handler_plain [OF base relayed_not_server [OF msg] test, of fd s] fd(3) user
      relayed_dispatch [OF msg t(5)] by simp
  moreover have "SendMsg w (GateServer_CloseClientSocket w) (set_userid u msg) (logic_server_client s) ?t =
      Inr (True, net_do (Sent (logic_server_client s) (packet_bytes (w_pb w) (set_userid u msg))) ?t)"
    using size logic t(1) by (intro SendMsg_sent [OF w]) simp_all
  ultimately show ?thesis
    using t(2,3) by (simp add: to_logic_def Gate_SendMsg_def net_do_def io_tick_def)
qed

section \<open>At the logic server\<close>

lemma parse_recovers:
  assumes "CreateMessageBody (m_packageType h) = Some p" "pb_recovers (w_pb w) p b"
    and "length (pb_enc (w_pb w) b) < 2 ^ 31"
  shows "ServerBase_OnMsgBodyAnalysised w \<lparr>m_head = h, m_body = None\<rparr> (pb_enc (w_pb w) b)
      (word_of_nat (length (pb_enc (w_pb w) b))) = Inr \<lparr>m_head = h, m_body = Some (Some b)\<rparr>"
proof -
  have "sint (word_of_nat (length (pb_enc (w_pb w) b)) :: u32) = int (length (pb_enc (w_pb w) b))"
    using assms(3) sint_word_of_int_u32 [of "int (length (pb_enc (w_pb w) b))"] by (simp add: int32_def)
  then show ?thesis
    using assms(1,2) by (simp add: ServerBase_OnMsgBodyAnalysised_def MessageBody_ParseFromArray_def pb_recovers_def)
qed

lemma logic_handler_plain:
  assumes "ServerBase_OnMsgBodyAnalysised w m body len = Inr msg"
    and "m_packageType (m_head msg) \<noteq> bodytype_code ServerInfo" "m_packageType (m_head msg) \<noteq> bodytype_code UserInfo"
  shows "LogicServer_OnMsgBodyAnalysised w m body len fd s =
     LogicServer_dispatch w msg (s\<lparr>user_gate := om_upd (sender msg) fd (user_gate s)\<rparr>)"
  using assms by (simp add: LogicServer_OnMsgBodyAnalysised_def FuncServer_OnMsgBodyAnalysised_def)

lemma FuncServer_handler_exact:
  assumes "length body < 2 ^ 31"
  shows "FuncServer_OnMsgBodyAnalysised w c m (body @ rest) (word_of_nat (length body)) fd s =
     FuncServer_OnMsgBodyAnalysised w c m body (word_of_nat (length body)) fd s"
  by (simp add: FuncServer_OnMsgBodyAnalysised_def base_handler_exact [OF assms])

lemma logic_handler_exact: "reads_exactly (LogicServer_OnMsgBodyAnalysised w)"
  by (simp add: reads_exactly_def LogicServer_OnMsgBodyAnalysised_def FuncServer_handler_exact)

text \<open>The state a packet of a receive event is served in.\<close>

definition in_event :: "int \<Rightarrow> int \<Rightarrow> nat \<Rightarrow> RingBuffer \<Rightarrow> 'a LogicServer_scheme \<Rightarrow> 'a LogicServer_scheme" where
  "in_event u fd i rb s = (set_buffer fd i rb (io_tick s))\<lparr>user_gate := om_upd u fd (user_gate s)\<rparr>"

lemma in_event_rooms:
  "rooms (in_event u fd i rb s) = rooms s" "roomid_pool (in_event u fd i rb s) = roomid_pool s"
  "userid2roomid (in_event u fd i rb s) = userid2roomid s" "logic_wf cfg (in_event u fd i rb s) = logic_wf cfg s"
  by (simp_all add: in_event_def set_buffer_def io_tick_def)
    (rule logic_wf0_cong, simp_all)

text \<open>A packet that arrives alone, in whatever pieces.\<close>

lemma logic_event_dispatch:
  assumes w: "sends_ok w" and conn: "om_get (connections s) fd = Some (i, rb)" "rb_wf (w_cfg w) rb" "rb_view (w_cfg w) rb = []"
    and recv: "os_recv (w_os w) (io_clock s) fd = (chunks, WouldBlock)" "concat chunks = raw_bytes p"
    and p: "packet_ok (w_cfg w) p"
    and parse: "ServerBase_OnMsgBodyAnalysised w \<lparr>m_head = fst p, m_body = None\<rparr> (snd p) (word_of_nat (length (snd p))) = Inr msg"
    and plain: "m_packageType (m_head msg) \<noteq> bodytype_code ServerInfo" "m_packageType (m_head msg) \<noteq> bodytype_code UserInfo"
    and total: "\<And>rb1. \<exists>s'. LogicServer_dispatch w msg (in_event (sender msg) fd i rb1 s) = Inr s'"
  shows "\<exists>rb1 s' rb''. LogicServer_dispatch w msg (in_event (sender msg) fd i rb1 s) = Inr s' \<and>
     HandleConnEvent w (LogicServer_CloseClientSocket w) (LogicServer_OnMsgBodyAnalysised w) fd s =
       Inr (set_buffer fd i rb'' s')"
proof -
  note cfg = sends_okD(1) [OF w]
  have serve: "on_packet (LogicServer_OnMsgBodyAnalysised w) fd p (set_buffer fd i rb1 (io_tick s)) =
      LogicServer_dispatch w msg (in_event (sender msg) fd i rb1 s)" for rb1
    unfolding on_packet_def logic_handler_plain [OF parse plain]
    by (simp add: in_event_def set_buffer_def io_tick_def)
  let ?Q = "\<lambda>s'. \<exists>rb1. LogicServer_dispatch w msg (in_event (sender msg) fd i rb1 s) = Inr s'"
  have small: "length (concat chunks) \<le> nat (MAX_BUFFER_SIZE (w_cfg w))" "nat (MAX_BUFFER_SIZE (w_cfg w)) < 2 ^ 32"
    using packet_ok_length [OF cfg p] recv(2) cfg p
    by (auto simp: net_config_ok_def raw_bytes_def packet_ok_def CheckHeaderIsValid_def split: if_splits)
  have "length c \<le> length (concat chunks)" if "c \<in> set chunks" for c
    using that by (induction chunks) auto
  then have chunks: "\<forall>c\<in>set chunks. length c < 2 ^ 32" using small by fastforce
  have run: "\<exists>s' rb'. foldF (on_packet (LogicServer_OnMsgBodyAnalysised w) fd) [p] (set_buffer fd i rb1 (io_tick s)) = Inr s' \<and>
      conn_at fd i rb' s' \<and> rb_wf (w_cfg w) rb' \<and> ?Q s'" if "rb_wf (w_cfg w) rb1" for rb1
  proof -
    obtain s' where s': "LogicServer_dispatch w msg (in_event (sender msg) fd i rb1 s) = Inr s'" using total by blast
    have "net_same (in_event (sender msg) fd i rb1 s) s'" by (rule LogicServer_dispatch_same [OF w s'])
    then have "conn_at fd i rb1 s'" by (simp add: conn_at_def net_same_def in_event_def set_buffer_def)
    then show ?thesis using s' that by (auto simp: serve)
  qed
  have "\<exists>s' rb''. HandleConnEvent w (LogicServer_CloseClientSocket w) (LogicServer_OnMsgBodyAnalysised w) fd s =
      Inr (set_buffer fd i rb'' s') \<and> ?Q s' \<and> rb_wf (w_cfg w) rb'' \<and> rb_view (w_cfg w) rb'' = []"
    by (rule HandleConnEvent_packets [OF cfg logic_handler_exact conn(1,2) recv(1) chunks, of "[p]"])
      (use run conn(3) small recv(2) p in \<open>auto simp: wire_def\<close>)
  then show ?thesis by blast
qed

section \<open>The way back\<close>

lemma logic_delivers:
  assumes w: "sends_ok w" and gate: "om_get (user_gate s) u = Some fd" "om_has fd (connections s)"
    and size: "12 + int (length (pb_enc (w_pb w) b)) \<le> MAX_BUFFER_SIZE (w_cfg w)"
  shows "deliver w (ty, b, u) s =
     Inr (net_do (Sent fd (packet_bytes (w_pb w) (make_message (w_cfg w) (w_pb w) ty u b))) s)"
proof -
  have "SendMsg w (LogicServer_CloseClientSocket w) (make_message (w_cfg w) (w_pb w) ty u b) fd s =
      Inr (True, net_do (Sent fd (packet_bytes (w_pb w) (make_message (w_cfg w) (w_pb w) ty u b))) s)"
    using size by (intro SendMsg_sent [OF w gate(2)])
      (simp_all add: make_message_def Message_length_bytes [OF sends_okD(1) [OF w]] body_bytes_def)
  then show ?thesis using gate(1) by (simp add: SendToClient_def LogicServer_SendMsg_def)
qed

text \<open>The messages the gate hands to the user they name.\<close>

definition returned :: "Message \<Rightarrow> bool" where
  "returned msg \<longleftrightarrow>
     (\<exists>ty. bodytype_of (m_packageType (m_head msg)) = Some ty \<and>
        (ty \<in> {NotifyRoomInfo, Frame, Reconnect, ChaseFrame, StartGame} \<or>
         ty = JoinRoom \<and> (\<exists>b. msg_object msg = Some (B_JoinRoom b) \<and> jr_type b = RESPONSE) \<or>
         ty = LeaveRoom \<and> (\<exists>b. msg_object msg = Some (B_LeaveRoom b) \<and> lr_type b = RESPONSE) \<or>
         ty = CreateRoom \<and> (\<exists>b. msg_object msg = Some (B_CreateRoom b) \<and> cr_type b = RESPONSE) \<or>
         ty = GetRoomList \<and> (\<exists>b. msg_object msg = Some (B_GetRoomList b) \<and> gl_type b = RESPONSE)))"

lemma returned_dispatch:
  assumes "returned msg" "fd = logic_server_client s"
  shows "Gate_dispatch w msg fd s = to_user w msg s"
  using assms by (auto simp: returned_def Gate_dispatch_def by_type_def)

lemma returned_not_server:
  assumes "returned msg"
  shows "m_packageType (m_head msg) \<noteq> bodytype_code ServerInfo" "m_packageType (m_head msg) \<noteq> bodytype_code UserInfo"
proof -
  obtain ty where ty: "bodytype_of (m_packageType (m_head msg)) = Some ty" "ty \<noteq> ServerInfo" "ty \<noteq> UserInfo"
    using assms by (auto simp: returned_def)
  show "m_packageType (m_head msg) \<noteq> bodytype_code ServerInfo"
    using ty bodytype_of_code [of ServerInfo] by (metis option.inject)
  show "m_packageType (m_head msg) \<noteq> bodytype_code UserInfo"
    using ty bodytype_of_code [of UserInfo] by (metis option.inject)
qed

lemma gate_returns:
  assumes w: "sends_ok w" and base: "ServerBase_OnMsgBodyAnalysised w m body len = Inr msg"
    and msg: "returned msg" and fd: "fd = logic_server_client s" "om_get (fd_user_record s) fd = None"
    and user: "om_get (user_fd_record s) (m_userid (m_head msg)) = Some cfd" "om_has cfd (connections s)"
    and size: "m_packageSize (m_head msg) = Message_length (w_cfg w) (w_pb w) (m_body msg)"
      "m_packageSize (m_head msg) \<le> MAX_BUFFER_SIZE (w_cfg w)"
  shows "\<exists>s'. GateServer_OnMsgBodyAnalysised w m body len fd s = Inr s' \<and>
     net_log s' = net_log s @ [Sent cfd (packet_bytes (w_pb w) msg)]"
proof -
  have valid: "CheckMessageValid msg fd s = (True, s)"
    using fd(1) by (simp add: CheckMessageValid_def is_server_fd_def Let_def)
  have func: "FuncServer_OnMsgBodyAnalysised w (GateServer_CloseClientSocket w) m body len fd s = Inr (msg, s)"
    using base returned_not_server [OF msg] by (simp add: FuncServer_OnMsgBodyAnalysised_def)
  have run: "GateServer_OnMsgBodyAnalysised w m body len fd s = to_user w msg s"
    using func valid fd returned_dispatch [OF msg fd(1)]
    by (simp add: GateServer_OnMsgBodyAnalysised_def trusted_userid_def)
  have "SendMsg w (GateServer_CloseClientSocket w) msg cfd s = Inr (True, net_do (Sent cfd (packet_bytes (w_pb w) msg)) s)"
    using size user(2) by (intro SendMsg_sent [OF w]) simp_all
  then have "to_user w msg s = Inr (net_do (Sent cfd (packet_bytes (w_pb w) msg)) s)"
    using user(1) by (simp add: to_user_def Gate_SendMsg_def Let_def om_at_def om_has_def)
  then show ?thesis using run by (simp add: net_do_def io_tick_def)
qed

end
