(* ===== verification/Relay_Properties.thy ===== *)
theory Relay_Properties
  imports Relay Gate_Properties Logic_Properties
begin

text \<open>
  What a client's request comes to at the logic server, across both servers and the wire.
\<close>











end
