(* ===== verification/Tools.thy ===== *)
theory Tools
  imports Message_Codec
begin

text \<open>
  The tools the servers carry along: the queue of \<open>src/Tool/ThreadSafetyQueue.cpp\<close>, the event
  manager of \<open>src/Tool/Event.cpp\<close>, the message pool of \<open>src/Tool/ObjectPool.cpp\<close> and the frame
  store of \<open>src/Tool/FrameMgr.cpp\<close>.

  Every queue operation holds the mutex from its first line to its last, so concurrent calls are
  some sequence of these operations; \<open>WaitAndPop\<close> blocks on an empty queue, which is \<open>None\<close>.
\<close>

section \<open>The thread-safe queue\<close>

type_synonym 'a tsq = "'a list"

definition tsq_new :: "'a tsq" where
  "tsq_new = []"

definition Push :: "'a \<Rightarrow> 'a tsq \<Rightarrow> 'a tsq" where
  "Push x q = q @ [x]"

definition IsEmpty :: "'a tsq \<Rightarrow> bool" where
  "IsEmpty q \<longleftrightarrow> q = []"

definition TryPop :: "'a tsq \<Rightarrow> 'a option \<times> 'a tsq" where
  "TryPop q = (case q of [] \<Rightarrow> (None, q) | x # q' \<Rightarrow> (Some x, q'))"

definition WaitAndPop :: "'a tsq \<Rightarrow> ('a \<times> 'a tsq) option" where
  "WaitAndPop q = (case q of [] \<Rightarrow> None | x # q' \<Rightarrow> Some (x, q'))"

text \<open>What a producer and a consumer rely on, whatever the queue is made of.\<close>

locale fifo_queue =
  fixes empty :: 'q
    and push :: "'a \<Rightarrow> 'q \<Rightarrow> 'q"
    and try_pop :: "'q \<Rightarrow> 'a option \<times> 'q"
    and contents :: "'q \<Rightarrow> 'a list"
  assumes contents_empty: "contents empty = []"
    and contents_push: "contents (push x q) = contents q @ [x]"
    and pop_empty: "contents q = [] \<Longrightarrow> fst (try_pop q) = None \<and> contents (snd (try_pop q)) = []"
    and pop_front: "contents q = x # xs \<Longrightarrow> fst (try_pop q) = Some x \<and> contents (snd (try_pop q)) = xs"

datatype 'a queue_op = QPush 'a | QPop

fun queue_run ::
  "('a \<Rightarrow> 'q \<Rightarrow> 'q) \<Rightarrow> ('q \<Rightarrow> 'a option \<times> 'q) \<Rightarrow> 'a queue_op list \<Rightarrow> 'q \<Rightarrow> 'a list \<times> 'q" where
  "queue_run push pop [] q = ([], q)"
| "queue_run push pop (QPush x # ops) q = queue_run push pop ops (push x q)"
| "queue_run push pop (QPop # ops) q =
     (let (r, q1) = pop q; (out, q2) = queue_run push pop ops q1
      in (case r of None \<Rightarrow> out | Some x \<Rightarrow> x # out, q2))"

fun pushed :: "'a queue_op list \<Rightarrow> 'a list" where
  "pushed [] = []"
| "pushed (QPush x # ops) = x # pushed ops"
| "pushed (QPop # ops) = pushed ops"

context fifo_queue
begin

text \<open>Whatever the interleaving, what comes out followed by what is left is what went in.\<close>

lemma run_order:
  "queue_run push try_pop ops q = (out, q') \<Longrightarrow> contents q @ pushed ops = out @ contents q'"
proof (induction ops arbitrary: q out q' rule: pushed.induct)
  case (2 x ops)
  then show ?case using contents_push by fastforce
next
  case (3 ops)
  obtain r q1 where r: "try_pop q = (r, q1)" by fastforce
  obtain o2 q2 where o: "queue_run push try_pop ops q1 = (o2, q2)" by fastforce
  note IH = "3.IH" [OF o]
  show ?case
  proof (cases "contents q")
    case Nil
    with pop_empty [of q] r have "r = None" "contents q1 = []" by auto
    with IH Nil r o "3.prems" show ?thesis by simp
  next
    case (Cons x xs)
    with pop_front [OF Cons] r have "r = Some x" "contents q1 = xs" by auto
    with IH Cons r o "3.prems" show ?thesis by auto
  qed
qed simp

end

interpretation tq: fifo_queue tsq_new Push TryPop "\<lambda>q. q"
  by unfold_locales (auto simp: tsq_new_def Push_def TryPop_def)

section \<open>Events\<close>

text \<open>A callback is a state transformer applied to the event's data.\<close>

record ('d, 's) Event =
  ev_name :: string
  ev_callback :: "'d \<Rightarrow> 's \<Rightarrow> 's"
  ev_data :: 'd

definition registerEvent ::
  "string \<Rightarrow> ('d \<Rightarrow> 's \<Rightarrow> 's) \<Rightarrow> 'd \<Rightarrow> ('d, 's) Event list \<Rightarrow> ('d, 's) Event list" where
  "registerEvent name callback data evs =
     evs @ [\<lparr>ev_name = name, ev_callback = callback, ev_data = data\<rparr>]"

fun unregisterEvent :: "string \<Rightarrow> ('d, 's) Event list \<Rightarrow> ('d, 's) Event list" where
  "unregisterEvent name [] = []"
| "unregisterEvent name (e # evs) =
     (if ev_name e = name then evs else e # unregisterEvent name evs)"

fun fireEvent ::
  "string \<Rightarrow> 'd \<Rightarrow> ('d, 's) Event list \<Rightarrow> 's \<Rightarrow> ('d, 's) Event list \<times> 's" where
  "fireEvent name data [] s = ([], s)"
| "fireEvent name data (e # evs) s =
     (if ev_name e = name
      then let (evs', s') = fireEvent name data evs (ev_callback e data s)
           in (e\<lparr>ev_data := data\<rparr> # evs', s')
      else let (evs', s') = fireEvent name data evs s in (e # evs', s'))"

section \<open>The message pool\<close>

text \<open>
  A pooled \<open>Message\<close> is its address together with the state of its head pointer: null, pointing to
  a live head, or pointing to one that was deleted. \<open>delete\<close> of a null pointer does nothing, of a
  deleted one is a fault. The body pointer goes through the same deletions.
\<close>

datatype head_ptr = NullHead | LiveHead | FreedHead

record pooled =
  pm_addr :: nat
  pm_head :: head_ptr

record ObjectPool =
  op_pool :: "pooled list"
  op_size :: int
  op_next :: nat

definition INIT_SIZE :: nat where
  "INIT_SIZE = 131072"

definition SAFETY_SIZE :: int where
  "SAFETY_SIZE = 262144"

definition new_pooled :: "nat \<Rightarrow> pooled" where
  "new_pooled a = \<lparr>pm_addr = a, pm_head = NullHead\<rparr>"

definition ObjectPool_new :: ObjectPool where
  "ObjectPool_new =
     \<lparr>op_pool = map new_pooled [0..<INIT_SIZE], op_size = int INIT_SIZE, op_next = INIT_SIZE\<rparr>"

definition delete_head :: "pooled \<Rightarrow> pooled res" where
  "delete_head m =
     (case pm_head m of
        NullHead \<Rightarrow> Inr m
      | LiveHead \<Rightarrow> Inr (m\<lparr>pm_head := FreedHead\<rparr>)
      | FreedHead \<Rightarrow> Inl UseAfterFree)"

definition ObjectPool_Get :: "ObjectPool \<Rightarrow> (pooled \<times> ObjectPool) res" where
  "ObjectPool_Get p =
     (if op_size p > 0
      then (case op_pool p of
              [] \<Rightarrow> Inl EmptyContainer
            | m # ms \<Rightarrow> Inr (m, p\<lparr>op_size := op_size p - 1, op_pool := ms\<rparr>))
      else Inr (new_pooled (op_next p), p\<lparr>op_next := Suc (op_next p)\<rparr>))"

definition ObjectPool_Return :: "pooled \<Rightarrow> ObjectPool \<Rightarrow> ObjectPool res" where
  "ObjectPool_Return m p =
     bindF (delete_head m) (\<lambda>m1.
       Inr (if op_size p < SAFETY_SIZE
            then p\<lparr>op_size := op_size p + 1, op_pool := op_pool p @ [m1]\<rparr> else p))"

text \<open>The destructor deletes the pooled messages, and with them their heads.\<close>

definition ObjectPool_destroy :: "ObjectPool \<Rightarrow> ObjectPool res" where
  "ObjectPool_destroy p =
     bindF (foldF (\<lambda>m u. bindF (delete_head m) (\<lambda>m1. Inr u)) (op_pool p) ())
       (\<lambda>u. Inr (p\<lparr>op_pool := [], op_size := 0\<rparr>))"

definition pool_wf :: "ObjectPool \<Rightarrow> bool" where
  "pool_wf p \<longleftrightarrow> op_size p = int (length (op_pool p)) \<and> op_size p \<le> SAFETY_SIZE"

lemma ObjectPool_new_wf: "pool_wf ObjectPool_new"
  by (simp add: pool_wf_def ObjectPool_new_def INIT_SIZE_def SAFETY_SIZE_def)

lemma ObjectPool_Get_wf:
  "pool_wf p \<Longrightarrow> \<exists>m p'. ObjectPool_Get p = Inr (m, p') \<and> pool_wf p'"
  by (auto simp: pool_wf_def ObjectPool_Get_def split: list.split)

lemma ObjectPool_Return_wf:
  "pool_wf p \<Longrightarrow> pm_head m \<noteq> FreedHead \<Longrightarrow> \<exists>p'. ObjectPool_Return m p = Inr p' \<and> pool_wf p'"
  by (cases "pm_head m") (auto simp: pool_wf_def ObjectPool_Return_def delete_head_def)

section \<open>The frame store\<close>

record FrameMgr =
  fm_frame :: "pooled list omap"
  fm_pool :: ObjectPool
  tot_count :: int
  now_frame_count :: int

definition FrameMgr_new :: FrameMgr where
  "FrameMgr_new = \<lparr>fm_frame = [], fm_pool = ObjectPool_new, tot_count = 0, now_frame_count = 0\<rparr>"

definition AddFrame :: "int \<Rightarrow> pooled \<Rightarrow> FrameMgr \<Rightarrow> bool \<times> FrameMgr" where
  "AddFrame n m f = (True, f\<lparr>fm_frame := om_upd n (om_at [] (fm_frame f) n @ [m]) (fm_frame f)\<rparr>)"

definition return_all :: "pooled list \<Rightarrow> ObjectPool \<Rightarrow> ObjectPool res" where
  "return_all ms p = foldF ObjectPool_Return ms p"

definition DelFrame :: "int \<Rightarrow> FrameMgr \<Rightarrow> (bool \<times> FrameMgr) res" where
  "DelFrame n f =
     (case om_get (fm_frame f) n of
        None \<Rightarrow> Inr (True, f)
      | Some ms \<Rightarrow> bindF (return_all ms (fm_pool f)) (\<lambda>p.
                     Inr (True, f\<lparr>fm_pool := p, fm_frame := om_del n (fm_frame f)\<rparr>)))"

definition GetFrame :: "int \<Rightarrow> FrameMgr \<Rightarrow> pooled list" where
  "GetFrame n f = (case om_get (fm_frame f) n of None \<Rightarrow> [] | Some ms \<Rightarrow> ms)"

definition GetFrameCount :: "FrameMgr \<Rightarrow> int" where
  "GetFrameCount f = tot_count f"

definition FrameMgr_destroy :: "FrameMgr \<Rightarrow> FrameMgr res" where
  "FrameMgr_destroy f =
     bindF (return_all (concat (map snd (fm_frame f))) (fm_pool f)) (\<lambda>p.
       Inr (f\<lparr>fm_pool := p, fm_frame := []\<rparr>))"

end
