(* ===== verification/Tool_Properties.thy ===== *)
theory Tool_Properties
  imports Tools Encryption DBServer Example_World
begin

text \<open>
  What the tools promise: the token hash, decimal numbers, the queue and the message pool.
\<close>

section \<open>Tokens\<close>

text \<open>A token is a polynomial in the character codes with an even radix, modulo \<open>2^32\<close>, so its terms
  vanish from the 32nd power on. With a name of 32 characters or more the password does not enter
  the token at all.\<close>

theorem token_ignores_password:
  assumes "32 \<le> length username"
  shows "GenerateToken rng username passwd = rng * (of_nat (length username) * hash_poly (take 32 username))"
proof -
  have "hash_poly username = hash_poly (take 32 username)"
    using hash_poly_prefix [of "take 32 username" "drop 32 username"] assms by simp
  then show ?thesis
    using assms by (simp add: GenerateToken_def hash_loop_poly radix_power_zero power_add mult_ac)
qed

theorem token_ignores_password_witness:
  "GenerateToken 7 (replicate 32 CHR ''a'') ''secret'' = GenerateToken 7 (replicate 32 CHR ''a'') ''guess''"
  using token_ignores_password [of "replicate 32 CHR ''a''" 7 "''secret''"]
    token_ignores_password [of "replicate 32 CHR ''a''" 7 "''guess''"] by simp

section \<open>Decimal numbers\<close>

lemma c_div_mod_pos: "0 \<le> x \<Longrightarrow> c_div x 10 = x div 10" "0 \<le> x \<Longrightarrow> c_mod x 10 = x mod 10"
  by (auto simp: c_div_def c_mod_def minus_mult_div_eq_mod sgn_if)

lemma to_string_loop_append:
  "0 \<le> x \<Longrightarrow> to_string_loop x ret = ret @ to_string_loop x []"
proof (induction "nat x" arbitrary: x ret rule: less_induct)
  case less
  show ?case
  proof (cases "x = 0")
    case False
    let ?c = "[char_of (nat (x mod 10 + 48))]"
    have smaller: "nat (x div 10) < nat x" "0 \<le> x div 10" using False less.prems by auto
    have step: "to_string_loop x r = to_string_loop (x div 10) (r @ ?c)" for r
      using False less.prems by (subst to_string_loop.simps) (simp add: c_div_mod_pos)
    show ?thesis
      using step less.hyps [OF smaller, of "ret @ ?c"] less.hyps [OF smaller, of ?c] by simp
  qed (simp add: to_string_loop.simps)
qed

lemma to_string_step:
  assumes "0 < x"
  shows "to_string x = to_string (x div 10) @ [char_of (nat (x mod 10 + 48))]"
proof -
  have "to_string_loop x [] = to_string_loop (x div 10) [char_of (nat (x mod 10 + 48))]"
    using assms by (subst to_string_loop.simps) (simp add: c_div_mod_pos)
  also have "\<dots> = [char_of (nat (x mod 10 + 48))] @ to_string_loop (x div 10) []"
    using assms by (intro to_string_loop_append) auto
  finally show ?thesis by (simp add: to_string_def)
qed

lemma atoi_digits_append:
  "list_all is_digit cs \<Longrightarrow> is_digit c \<Longrightarrow>
     atoi_digits (cs @ [c]) n = 10 * atoi_digits cs n + (of_char c - 48)"
  by (induction cs arbitrary: n) auto

lemma digit_char:
  "is_digit (char_of (nat (x mod 10 + 48)))" "of_char (char_of (nat (x mod 10 + 48))) - 48 = x mod 10"
proof -
  have m: "0 \<le> x mod 10" "x mod 10 < 10" by auto
  then have "(of_char (char_of (nat (x mod 10 + 48))) :: int) = x mod 10 + 48"
    by (subst of_nat_of_char [symmetric]) simp
  then show "is_digit (char_of (nat (x mod 10 + 48)))" "of_char (char_of (nat (x mod 10 + 48))) - 48 = x mod 10"
    using m by (auto simp: is_digit_def)
qed

lemma to_string_digits:
  "0 \<le> x \<Longrightarrow> list_all is_digit (to_string x) \<and> atoi_digits (to_string x) 0 = x"
proof (induction "nat x" arbitrary: x rule: less_induct)
  case less
  show ?case
  proof (cases "x = 0")
    case True
    then show ?thesis by (simp add: to_string_def to_string_loop.simps)
  next
    case False
    then have "nat (x div 10) < nat x" "0 \<le> x div 10" "0 < x" using less.prems by auto
    with less.hyps [of "x div 10"] show ?thesis
      by (simp add: to_string_step atoi_digits_append digit_char)
  qed
qed

text \<open>The decimal text of a positive \<open>int\<close> is read back as that number by \<open>atoi\<close>; the text of 0
  is empty.\<close>

theorem decimal_roundtrip:
  assumes "0 < n" "int32 n"
  shows "atoi (to_string n) = Inr n \<and> to_string 0 = ''''"
proof -
  have digits: "list_all is_digit (to_string n)" "atoi_digits (to_string n) 0 = n"
    using to_string_digits [of n] assms(1) by auto
  have "to_string n \<noteq> []" by (simp add: to_string_step [OF assms(1)])
  then obtain c cs where c: "to_string n = c # cs" by (cases "to_string n") auto
  then have "is_digit c" using digits(1) by simp
  then have "c \<notin> set [CHR 0x20, CHR 0x09, CHR 0x0A, CHR 0x0B, CHR 0x0C, CHR 0x0D]" "c \<noteq> CHR ''-''" "c \<noteq> CHR ''+''"
    by (auto simp: is_digit_def)
  then show ?thesis
    using c digits(2) assms(2) by (simp add: atoi_def to_string_def to_string_loop.simps)
qed

theorem decimal_roundtrip_witness: "atoi (to_string 4096) = Inr 4096"
  using decimal_roundtrip [of 4096] by (simp add: int32_def)

section \<open>Queue, pool and configuration\<close>

text \<open>However producers and a consumer take turns at the queue, what comes out is a prefix of what
  went in, in the same order, and the rest is still in the queue.\<close>

theorem queue_keeps_order:
  assumes "queue_run Push TryPop ops q = (out, q')"
  shows "q @ pushed ops = out @ q'"
  using tq.run_order [OF assms] .

theorem queue_keeps_order_witness:
  "tsq_new @ pushed [QPush (1::nat), QPop, QPop, QPush 2] = [1] @ [2]"
  by (rule queue_keeps_order) (simp add: tsq_new_def Push_def TryPop_def)

lemma delete_freed:
  "\<exists>m\<in>set ms. pm_head m = FreedHead \<Longrightarrow>
     foldF (\<lambda>m u. bindF (delete_head m) (\<lambda>m1. Inr u)) ms () = Inl UseAfterFree"
proof (induction ms)
  case (Cons m ms)
  then show ?case by (cases "pm_head m") (auto simp: delete_head_def)
qed simp

text \<open>A message that is returned to the pool with a head keeps the pointer to the head that was
  deleted with it: returning it again without giving it a new one, or destroying the pool, deletes
  that head a second time.\<close>

theorem pool_deletes_twice:
  assumes "pool_wf p" "op_size p < SAFETY_SIZE" "pm_head m = LiveHead"
  shows "\<exists>p'. ObjectPool_Return m p = Inr p' \<and> pool_wf p' \<and>
     ObjectPool_Return (last (op_pool p')) p' = Inl UseAfterFree \<and> ObjectPool_destroy p' = Inl UseAfterFree"
proof -
  let ?p = "p\<lparr>op_size := op_size p + 1, op_pool := op_pool p @ [m\<lparr>pm_head := FreedHead\<rparr>]\<rparr>"
  have "ObjectPool_Return m p = Inr ?p"
    using assms(2,3) by (simp add: ObjectPool_Return_def delete_head_def)
  moreover have "pool_wf ?p" using assms(1,2) by (simp add: pool_wf_def)
  moreover have "ObjectPool_destroy ?p = Inl UseAfterFree"
    using delete_freed [of "op_pool ?p"] by (simp add: ObjectPool_destroy_def)
  ultimately show ?thesis
    by (intro exI [of _ ?p]) (simp add: ObjectPool_Return_def delete_head_def)
qed

theorem pool_deletes_twice_witness:
  "\<exists>p'. ObjectPool_Return \<lparr>pm_addr = 9, pm_head = LiveHead\<rparr> \<lparr>op_pool = [], op_size = 0, op_next = 10\<rparr> = Inr p' \<and>
     ObjectPool_destroy p' = Inl UseAfterFree"
  using pool_deletes_twice [of "\<lparr>op_pool = [], op_size = 0, op_next = 10\<rparr>" "\<lparr>pm_addr = 9, pm_head = LiveHead\<rparr>"]
  by (auto simp: pool_wf_def SAFETY_SIZE_def)

end
