(* ===== verification/Send_Queue.thy ===== *)
theory Send_Queue
  imports Tools
begin

text \<open>
  The queue of \<open>src/Tool/ThreadSafetyQueue.cpp\<close> between threads: a step relation over the mutex and the
  condition variable \<open>not_empty_cv_\<close>. A step is what a thread does while it holds the mutex, so steps
  do not overlap; a thread in \<open>WaitAndPop\<close> that finds the queue empty goes to sleep, and one that was
  notified has yet to get the mutex back, and then tests the queue again. Which sleeper \<open>notify_one\<close> wakes is
  not determined, a thread may wake up for no reason, and any thread may overtake it.
\<close>

record 'a send_queue =
  queue :: "'a tsq"
  asleep :: "nat set"
  woken :: "nat set"
  sent :: "'a list"
  taken :: "(nat \<times> 'a) list"

definition idle_queue :: "'a send_queue" where
  "idle_queue = \<lparr>queue = tsq_new, asleep = {}, woken = {}, sent = [], taken = []\<rparr>"

definition put :: "'a \<Rightarrow> 'a send_queue \<Rightarrow> 'a send_queue" where
  "put x s = s\<lparr>queue := Push x (queue s), sent := sent s @ [x]\<rparr>"

definition hand_over :: "nat \<Rightarrow> 'a \<Rightarrow> 'a tsq \<Rightarrow> 'a send_queue \<Rightarrow> 'a send_queue" where
  "hand_over t x q s = s\<lparr>queue := q, taken := taken s @ [(t, x)]\<rparr>"

inductive queue_step :: "'a send_queue \<Rightarrow> 'a send_queue \<Rightarrow> bool" where
  push_wakes: "t \<in> asleep s \<Longrightarrow>
     queue_step s ((put x s)\<lparr>asleep := asleep s - {t}, woken := insert t (woken s)\<rparr>)"
| push_alone: "asleep s = {} \<Longrightarrow> queue_step s (put x s)"
| try_pop: "t \<notin> asleep s \<union> woken s \<Longrightarrow> TryPop (queue s) = (Some x, q) \<Longrightarrow> queue_step s (hand_over t x q s)"
| try_pop_empty: "TryPop (queue s) = (None, q) \<Longrightarrow> queue_step s (s\<lparr>queue := q\<rparr>)"
| pop_at_once: "t \<notin> asleep s \<union> woken s \<Longrightarrow> WaitAndPop (queue s) = Some (x, q) \<Longrightarrow> queue_step s (hand_over t x q s)"
| go_to_sleep: "t \<notin> asleep s \<union> woken s \<Longrightarrow> WaitAndPop (queue s) = None \<Longrightarrow>
     queue_step s (s\<lparr>asleep := insert t (asleep s)\<rparr>)"
| wake_and_pop: "t \<in> woken s \<Longrightarrow> WaitAndPop (queue s) = Some (x, q) \<Longrightarrow>
     queue_step s ((hand_over t x q s)\<lparr>woken := woken s - {t}\<rparr>)"
| wake_in_vain: "t \<in> woken s \<Longrightarrow> WaitAndPop (queue s) = None \<Longrightarrow>
     queue_step s (s\<lparr>asleep := insert t (asleep s), woken := woken s - {t}\<rparr>)"
| wake_spuriously: "t \<in> asleep s \<Longrightarrow>
     queue_step s (s\<lparr>asleep := asleep s - {t}, woken := insert t (woken s)\<rparr>)"

inductive_cases queue_stepE: "queue_step s s'"

abbreviation queue_reachable :: "'a send_queue \<Rightarrow> bool" where
  "queue_reachable \<equiv> queue_step\<^sup>*\<^sup>* idle_queue"

section \<open>The invariant\<close>

text \<open>As long as somebody sleeps, there are at least as many threads awake as items in the queue.\<close>

definition queue_inv :: "'a send_queue \<Rightarrow> bool" where
  "queue_inv s \<longleftrightarrow> map snd (taken s) @ queue s = sent s \<and> asleep s \<inter> woken s = {} \<and> finite (woken s) \<and>
     (asleep s \<noteq> {} \<longrightarrow> length (queue s) \<le> card (woken s))"

lemma pops [simp]:
  "TryPop q = (Some x, q') \<longleftrightarrow> q = x # q'" "TryPop q = (None, q') \<longleftrightarrow> q = [] \<and> q' = []"
  "WaitAndPop q = Some (x, q') \<longleftrightarrow> q = x # q'" "WaitAndPop q = None \<longleftrightarrow> q = []"
  by (auto simp: TryPop_def WaitAndPop_def split: list.splits)

lemmas queue_ops = put_def hand_over_def Push_def

lemma queue_inv_step: "queue_step s s' \<Longrightarrow> queue_inv s \<Longrightarrow> queue_inv s'"
proof (induction rule: queue_step.induct)
  case (push_wakes t s x)
  have "t \<notin> woken s" using push_wakes by (auto simp: queue_inv_def)
  then show ?case using push_wakes by (auto simp: queue_inv_def queue_ops)
next
  case (wake_and_pop t s x q)
  then show ?case by (auto simp: queue_inv_def queue_ops card_Diff_singleton)
next
  case (wake_spuriously t s)
  have "t \<notin> woken s" using wake_spuriously by (auto simp: queue_inv_def)
  then show ?case using wake_spuriously by (auto simp: queue_inv_def)
qed (auto simp: queue_inv_def queue_ops)

lemma queue_inv_reachable: "queue_reachable s \<Longrightarrow> queue_inv s"
proof (induction rule: rtranclp_induct)
  case base
  show ?case by (simp add: queue_inv_def idle_queue_def tsq_new_def)
qed (rule queue_inv_step)

section \<open>Nobody sleeps beside a full queue\<close>

text \<open>Steps of threads that are awake in \<open>WaitAndPop\<close>.\<close>

inductive woken_step :: "'a send_queue \<Rightarrow> 'a send_queue \<Rightarrow> bool" where
  "t \<in> woken s \<Longrightarrow> WaitAndPop (queue s) = Some (x, q) \<Longrightarrow>
     woken_step s ((hand_over t x q s)\<lparr>woken := woken s - {t}\<rparr>)"

lemma woken_step_is_step: "woken_step s s' \<Longrightarrow> queue_step s s'"
  by (induction rule: woken_step.induct) (rule wake_and_pop)

lemma awake_drain:
  "length (queue s) \<le> card (woken s) \<Longrightarrow> finite (woken s) \<Longrightarrow>
     \<exists>s'. woken_step\<^sup>*\<^sup>* s s' \<and> queue s' = [] \<and> asleep s' = asleep s \<and>
       map snd (taken s') = map snd (taken s) @ queue s"
proof (induction "queue s" arbitrary: s)
  case Nil
  then show ?case by (intro exI [of _ s]) simp
next
  case (Cons x q)
  then obtain t where t: "t \<in> woken s" by (cases "woken s = {}") auto
  let ?s = "(hand_over t x q s)\<lparr>woken := woken s - {t}\<rparr>"
  have step: "woken_step s ?s" by (rule woken_step.intros) (use t Cons.hyps(2) in simp_all)
  have "length (queue ?s) \<le> card (woken ?s)" "finite (woken ?s)" "q = queue ?s"
    using Cons.prems Cons.hyps(2) [symmetric] t by (simp_all add: queue_ops card_Diff_singleton)
  then obtain s' where s': "woken_step\<^sup>*\<^sup>* ?s s'" "queue s' = []" "asleep s' = asleep ?s"
      "map snd (taken s') = map snd (taken ?s) @ queue ?s"
    using Cons.hyps(1) by blast
  have "woken_step\<^sup>*\<^sup>* s s'" using step s'(1) by (rule converse_rtranclp_into_rtranclp)
  then show ?case using s' Cons.hyps(2) [symmetric] by (intro exI [of _ s']) (simp add: queue_ops)
qed

section \<open>Properties\<close>

text \<open>However threads push, poll, wait, are woken or overtake each other, what has been taken out of the queue,
  in the order in which it was taken, followed by what is still in it, is what was put in.\<close>

theorem queue_is_fifo:
  assumes "queue_step\<^sup>*\<^sup>* idle_queue s"
  shows "map snd (taken s) @ queue s = sent s"
  using queue_inv_reachable [OF assms] by (simp add: queue_inv_def)

text \<open>Threads 1 and 2 wait, then 7 is pushed.\<close>

definition two_wait :: "nat send_queue" where
  "two_wait = \<lparr>queue = [7], asleep = {2}, woken = {1}, sent = [7], taken = []\<rparr>"

lemma two_wait_reachable: "queue_step\<^sup>*\<^sup>* idle_queue two_wait"
proof -
  let ?s0 = "idle_queue :: nat send_queue"
  let ?s1 = "?s0\<lparr>asleep := insert 1 (asleep ?s0)\<rparr>"
  let ?s2 = "?s1\<lparr>asleep := insert 2 (asleep ?s1)\<rparr>"
  have "queue_step ?s0 ?s1" by (rule go_to_sleep) (simp_all add: idle_queue_def tsq_new_def)
  moreover have "queue_step ?s1 ?s2" by (rule go_to_sleep) (simp_all add: idle_queue_def tsq_new_def)
  moreover have "queue_step ?s2 ((put 7 ?s2)\<lparr>asleep := asleep ?s2 - {1}, woken := insert 1 (woken ?s2)\<rparr>)"
    by (rule push_wakes) simp
  moreover have "(put 7 ?s2)\<lparr>asleep := asleep ?s2 - {1}, woken := insert 1 (woken ?s2)\<rparr> = two_wait"
    by (auto simp: put_def Push_def two_wait_def idle_queue_def tsq_new_def)
  ultimately show ?thesis by (metis (no_types, lifting) converse_rtranclp_into_rtranclp rtranclp.rtrancl_refl)
qed

theorem queue_is_fifo_witness: "map snd (taken two_wait) @ queue two_wait = [7]"
  using queue_is_fifo [OF two_wait_reachable] by (simp add: two_wait_def)

text \<open>C37: no wake-up is lost. In every reachable state in which a thread still sleeps in \<open>WaitAndPop\<close>, the
  threads that have been woken and not yet run are enough to take everything out of the queue, in
  the order it was sent, by their own steps alone; so a thread never sleeps on beside an item that nobody
  is about to take.\<close>

theorem queue_wakes_enough:
  assumes "queue_step\<^sup>*\<^sup>* idle_queue s" "asleep s \<noteq> {}"
  shows "\<exists>s'. woken_step\<^sup>*\<^sup>* s s' \<and> queue_step\<^sup>*\<^sup>* idle_queue s' \<and> queue s' = [] \<and> asleep s' = asleep s \<and>
     map snd (taken s') = sent s"
proof -
  obtain s' where s': "woken_step\<^sup>*\<^sup>* s s'" "queue s' = []" "asleep s' = asleep s"
      "map snd (taken s') = map snd (taken s) @ queue s"
    using awake_drain [of s] queue_inv_reachable [OF assms(1)] assms(2) by (auto simp: queue_inv_def)
  have "queue_step\<^sup>*\<^sup>* s s'"
    using s'(1) woken_step_is_step by (metis mono_rtranclp)
  then show ?thesis
    using s' assms(1) queue_inv_reachable [OF assms(1)] by (auto simp: queue_inv_def)
qed

theorem queue_wakes_enough_witness:
  "\<exists>s'. woken_step\<^sup>*\<^sup>* two_wait s' \<and> queue s' = [] \<and> asleep s' = {2} \<and> map snd (taken s') = [7]"
  using queue_wakes_enough [OF two_wait_reachable] by (auto simp: two_wait_def)

end
