(* ===== verification/Local_Address.thy ===== *)
theory Local_Address
  imports Prelude "HOL-Library.Char_ord"
begin

text \<open>
  How a server learns the addresses of its machine: \<open>IpInfos\<close> of \<open>src/Tool/WIP.cpp\<close>, and the test at the start of
  \<open>BootServer\<close>. The two shell commands are the argument \<open>shell\<close>: for the n-th command run, \<open>None\<close> when
  \<open>popen\<close> fails, and otherwise what the command prints and whether \<open>pclose\<close> succeeds (the exit status of
  the command is not looked at). The model of the servers takes the two answers as given (\<open>os_local_ips\<close>);
  \<open>local_ips\<close> is how they come about.
\<close>

type_synonym shell = "nat \<Rightarrow> string \<Rightarrow> (string \<times> bool) option"

record IpInfos =
  WIP :: string
  NIP :: string
  commands :: nat

definition IpInfos_new :: IpInfos where
  "IpInfos_new = \<lparr>WIP = '''', NIP = '''', commands = 0\<rparr>"

section \<open>The code\<close>

text \<open>\<open>fgets\<close>: at most \<open>n\<close> characters, up to a newline.\<close>

fun fgets :: "nat \<Rightarrow> string \<Rightarrow> string \<times> string" where
  "fgets 0 inp = ([], inp)"
| "fgets (Suc n) [] = ([], [])"
| "fgets (Suc n) (c # inp) =
     (if c = CHR 0x0A then ([c], inp) else let (line, rest) = fgets n inp in (c # line, rest))"

lemma fgets_split: "fgets n inp = (line, rest) \<Longrightarrow> inp = line @ rest"
  by (induction n inp arbitrary: line rest rule: fgets.induct) (auto split: if_splits prod.splits)

lemma fgets_shorter: "inp \<noteq> [] \<Longrightarrow> 0 < n \<Longrightarrow> length (snd (fgets n inp)) < length inp"
  using fgets_split [of "n - 1" "tl inp"] by (cases inp; cases n) (auto split: prod.splits)

text \<open>Each line goes through a C string.\<close>

function read_lines :: "string \<Rightarrow> string" where
  "read_lines inp =
     (if inp = [] then [] else let (line, rest) = fgets 10239 inp in c_str line @ read_lines rest)"
  by pat_completeness auto

termination read_lines
proof (relation "measure length", goal_cases)
  case (2 inp p line rest)
  then show ?case using fgets_shorter [of inp 10239] by (cases "fgets 10239 inp") simp
qed simp

declare read_lines.simps [simp del]

definition System :: "shell \<Rightarrow> string \<Rightarrow> string \<Rightarrow> IpInfos \<Rightarrow> (int \<times> string) \<times> IpInfos" where
  "System sh cmd output s =
     (let s1 = s\<lparr>commands := Suc (commands s)\<rparr> in
      case sh (commands s) cmd of
        None \<Rightarrow> ((-2, output), s1)
      | Some (inp, closed) \<Rightarrow> ((if closed then 0 else -3, output @ read_lines inp), s1))"

text \<open>What is behind the last digit goes.\<close>

definition trim_address :: "string \<Rightarrow> string" where
  "trim_address result = rev (dropWhile (\<lambda>c. c < CHR ''0'' \<or> CHR ''9'' < c) (rev result))"

definition GetWIP :: "shell \<Rightarrow> IpInfos \<Rightarrow> string \<times> IpInfos" where
  "GetWIP sh s =
     (if WIP s \<noteq> '''' then (WIP s, s)
      else let ((ret, out), s1) = System sh ''curl -s icanhazip.com'' '''' s; result = trim_address out in
        if ret = 0 then (result, s1\<lparr>WIP := result\<rparr>) else (''ERROR'', s1))"

definition GetNIP :: "shell \<Rightarrow> IpInfos \<Rightarrow> string \<times> IpInfos" where
  "GetNIP sh s =
     (if NIP s \<noteq> '''' then (NIP s, s)
      else let ((ret, out), s1) = System sh ''hostname -I'' '''' s; result = trim_address out in
        if ret = 0 then (result, s1\<lparr>NIP := result\<rparr>) else (''ERROR'', s1))"

text \<open>The test of \<open>BootServer\<close>; the second command is run only when the first address is another one.\<close>

definition address_matches :: "shell \<Rightarrow> string \<Rightarrow> IpInfos \<Rightarrow> bool \<times> IpInfos" where
  "address_matches sh ip s =
     (let (nip, s1) = GetNIP sh s in
      if nip = ip then (True, s1) else let (wip, s2) = GetWIP sh s1 in (wip = ip, s2))"

definition local_ips :: "shell \<Rightarrow> IpInfos \<Rightarrow> string \<times> string" where
  "local_ips sh s = (let (nip, s1) = GetNIP sh s in (nip, fst (GetWIP sh s1)))"

section \<open>What comes of it\<close>

lemma read_lines_clean: "CHR 0x00 \<notin> set inp \<Longrightarrow> read_lines inp = inp"
proof (induction inp rule: read_lines.induct)
  case (1 inp)
  obtain line rest where f: "fgets 10239 inp = (line, rest)" by (cases "fgets 10239 inp")
  then have t: "inp = line @ rest" by (rule fgets_split)
  show ?case
  proof (cases "inp = []")
    case False
    then have "read_lines rest = rest" using 1 f t by auto
    moreover have "read_lines inp = c_str line @ read_lines rest"
      using False f by (subst read_lines.simps) simp
    ultimately show ?thesis using 1(2) t by (simp add: c_str_clean)
  qed (simp add: read_lines.simps)
qed

lemma trim_address_tail:
  assumes "a \<noteq> []" "CHR ''0'' \<le> last a" "last a \<le> CHR ''9''" "\<forall>c\<in>set t. c < CHR ''0'' \<or> CHR ''9'' < c"
  shows "trim_address (a @ t) = a"
proof -
  obtain b c where "a = b @ [c]" using assms(1) by (metis append_butlast_last_id)
  then have "dropWhile (\<lambda>c. c < CHR ''0'' \<or> CHR ''9'' < c) (rev t @ rev a) = rev a"
    using assms(2-4) by (subst dropWhile_append2) auto
  then show ?thesis by (simp add: trim_address_def)
qed

text \<open>The address of \<open>hostname -I\<close> on a machine with the addresses \<open>addrs\<close>: each is followed by a blank, and the
  line by a newline.\<close>

definition hostname_text :: "string list \<Rightarrow> string" where
  "hostname_text addrs = concat (map (\<lambda>a. a @ '' '') addrs) @ [CHR 0x0A]"

definition address :: "string \<Rightarrow> bool" where
  "address a \<longleftrightarrow> a \<noteq> [] \<and> CHR ''0'' \<le> last a \<and> last a \<le> CHR ''9'' \<and> CHR '' '' \<notin> set a \<and> CHR 0x00 \<notin> set a"

fun join_addresses :: "string list \<Rightarrow> string" where
  "join_addresses [] = []"
| "join_addresses [a] = a"
| "join_addresses (a # b # as) = a @ '' '' @ join_addresses (b # as)"

lemma hostname_trim:
  assumes "addrs \<noteq> []" "\<forall>a\<in>set addrs. address a"
  shows "trim_address (read_lines (hostname_text addrs)) = join_addresses addrs"
proof -
  have eq: "hostname_text as = join_addresses as @ [CHR '' '', CHR 0x0A]" if "as \<noteq> []" for as
    using that by (induction as rule: join_addresses.induct) (simp_all add: hostname_text_def)
  have last: "join_addresses as \<noteq> [] \<and> CHR ''0'' \<le> last (join_addresses as) \<and> last (join_addresses as) \<le> CHR ''9''"
    if "as \<noteq> []" "\<forall>a\<in>set as. address a" for as
    using that by (induction as rule: join_addresses.induct) (simp_all add: address_def)
  have clean: "CHR 0x00 \<notin> set (join_addresses as)" if "\<forall>a\<in>set as. address a" for as
    using that by (induction as rule: join_addresses.induct) (simp_all add: address_def)
  have "read_lines (hostname_text addrs) = join_addresses addrs @ [CHR '' '', CHR 0x0A]"
    using clean [OF assms(2)] by (simp add: eq [OF assms(1)] read_lines_clean)
  then show ?thesis
    using last [OF assms] by (simp add: trim_address_tail less_char_def)
qed

lemma join_addresses_blank: "2 \<le> length addrs \<Longrightarrow> CHR '' '' \<in> set (join_addresses addrs)"
  by (cases addrs rule: join_addresses.cases) simp_all

text \<open>A server starts under the one address of its machine, without asking the network for another; but
  on a machine with two addresses or more it starts under none of them, since all of them
  together are taken for the address: only the public address the network reports is left.\<close>

theorem one_address_only:
  assumes "addrs \<noteq> []" "\<forall>a\<in>set addrs. address a" "sh 0 ''hostname -I'' = Some (hostname_text addrs, True)"
    and "sh 1 ''curl -s icanhazip.com'' = Some (public @ [CHR 0x0A], True)" "address public" "ip \<in> set addrs"
  shows "address_matches sh ip IpInfos_new =
     (if length addrs = 1 then (True, \<lparr>WIP = '''', NIP = ip, commands = 1\<rparr>)
      else (public = ip, \<lparr>WIP = public, NIP = join_addresses addrs, commands = 2\<rparr>))"
proof -
  have nip: "GetNIP sh IpInfos_new = (join_addresses addrs, \<lparr>WIP = '''', NIP = join_addresses addrs, commands = 1\<rparr>)"
    using assms(3) hostname_trim [OF assms(1,2)] by (simp add: GetNIP_def System_def IpInfos_new_def Let_def)
  have "trim_address (read_lines (public @ [CHR 0x0A])) = public"
    using assms(5) trim_address_tail [of public "[CHR 0x0A]"] by (simp add: address_def read_lines_clean less_char_def)
  then have wip: "GetWIP sh \<lparr>WIP = '''', NIP = join_addresses addrs, commands = 1\<rparr> =
      (public, \<lparr>WIP = public, NIP = join_addresses addrs, commands = 2\<rparr>)"
    using assms(4) by (simp add: GetWIP_def System_def Let_def)
  show ?thesis
  proof (cases "length addrs = 1")
    case True
    then have "addrs = [ip]" using assms(6) by (cases addrs) auto
    then show ?thesis using nip by (simp add: address_matches_def)
  next
    case False
    then have "2 \<le> length addrs" using assms(1) by (cases addrs rule: join_addresses.cases) simp_all
    then have "CHR '' '' \<in> set (join_addresses addrs)" by (rule join_addresses_blank)
    then have "join_addresses addrs \<noteq> ip" using assms(2,6) by (auto simp: address_def)
    then show ?thesis using nip wip False by (simp add: address_matches_def)
  qed
qed

definition two_homes :: shell where
  "two_homes n cmd = (if n = 0 then Some (hostname_text [''10.0.0.4'', ''172.17.0.1''], True) else Some (''8.8.4.4'' @ [CHR 0x0A], True))"

theorem one_address_only_witness:
  "fst (address_matches two_homes ''10.0.0.4'' IpInfos_new) = False"
  using one_address_only [of "[''10.0.0.4'', ''172.17.0.1'']" two_homes "''8.8.4.4''" "''10.0.0.4''"]
  by (simp add: two_homes_def address_def less_eq_char_def)

text \<open>An address that was found is not asked for again, and one that could not be found is: a failing command leaves
  nothing behind.\<close>

lemma address_kept:
  "GetNIP sh s = (ip, s1) \<Longrightarrow> ip \<noteq> '''' \<Longrightarrow> NIP s1 \<noteq> '''' \<Longrightarrow> GetNIP sh' s1 = (ip, s1)"
  "GetWIP sh s = (ip, s1) \<Longrightarrow> ip \<noteq> '''' \<Longrightarrow> WIP s1 \<noteq> '''' \<Longrightarrow> GetWIP sh' s1 = (ip, s1)"
  by (auto simp: GetNIP_def GetWIP_def System_def Let_def split: if_splits option.splits prod.splits)

end
