(* ===== verification/Json_Value.thy ===== *)
theory Json_Value
  imports Prelude "HOL-Library.List_Lexorder" "HOL-Library.Char_ord"
begin

text \<open>
  The values of the JSON library the configuration is read with (\<open>src/Header/Json/value.h\<close>,
  \<open>src/Tool/lib_json/json_value.cpp\<close>). Both arrays and objects are a \<open>std::map\<close>: of indices,
  where an index may be missing, and of member names, in the order of \<open>strcmp\<close>. A member
  name ends at the first NUL (\<open>c_str\<close>).

  The type \<open>'d\<close> stands for \<open>double\<close>; what the library needs of it (conversions, comparisons, the
  formats of \<open>sscanf\<close> and \<open>sprintf\<close>) is the record \<open>floats\<close>. A violated \<open>JSON_ASSERT\<close> is the error
  \<open>JsonAssert\<close>, a thrown \<open>std::runtime_error\<close> is \<open>JsonRuntimeError\<close>; undefined behaviour of the parser is
  passed on as \<open>JsonFault\<close>. Comments attached to values
  are not kept here, since nothing in the program reads them; theories \<open>Json_Make\<close>, \<open>Json_Comments\<close> and
  \<open>Json_Comment_Writer\<close> are about them.
\<close>

section \<open>Values\<close>

record 'd floats =
  fl_scan :: "string \<Rightarrow> 'd option"
  fl_print :: "'d \<Rightarrow> string"
  fl_of_int :: "int \<Rightarrow> 'd"
  fl_trunc :: "'d \<Rightarrow> int"
  fl_le :: "'d \<Rightarrow> 'd \<Rightarrow> bool"
  fl_lt :: "'d \<Rightarrow> 'd \<Rightarrow> bool"
  fl_eq :: "'d \<Rightarrow> 'd \<Rightarrow> bool"

datatype ValueType =
    nullType | intType | uintType | realType | stringType | booleanType | arrayType | objectType

primrec value_type_code :: "ValueType \<Rightarrow> int" where
  "value_type_code nullType = 0"
| "value_type_code intType = 1"
| "value_type_code uintType = 2"
| "value_type_code realType = 3"
| "value_type_code stringType = 4"
| "value_type_code booleanType = 5"
| "value_type_code arrayType = 6"
| "value_type_code objectType = 7"

datatype 'd JsonValue =
    nullValue
  | intValue int
  | uintValue int
  | realValue 'd
  | stringValue string
  | booleanValue bool
  | arrayValue "(int \<times> 'd JsonValue) list"
  | objectValue "(string \<times> 'd JsonValue) list"

fun json_type :: "'d JsonValue \<Rightarrow> ValueType" where
  "json_type nullValue = nullType"
| "json_type (intValue n) = intType"
| "json_type (uintValue n) = uintType"
| "json_type (realValue d) = realType"
| "json_type (stringValue s) = stringType"
| "json_type (booleanValue b) = booleanType"
| "json_type (arrayValue m) = arrayType"
| "json_type (objectValue m) = objectType"

definition minInt :: int where "minInt = - (2 ^ 31)"
definition maxInt :: int where "maxInt = 2 ^ 31 - 1"
definition maxUInt :: int where "maxUInt = 2 ^ 32 - 1"

lemmas json_int_defs = minInt_def maxInt_def maxUInt_def

datatype json_error = JsonAssert | JsonRuntimeError | JsonFault fault

type_synonym 'a json = "json_error + 'a"

fun json_bind :: "'a json \<Rightarrow> ('a \<Rightarrow> 'b json) \<Rightarrow> 'b json" where
  "json_bind (Inl e) f = Inl e"
| "json_bind (Inr x) f = f x"

lemma json_bind_Inr [simp]: "json_bind m f = Inr y \<longleftrightarrow> (\<exists>x. m = Inr x \<and> f x = Inr y)"
  by (cases m) auto

text \<open>The range of every number and the order of every map, at every depth.\<close>

fun json_wf :: "'d JsonValue \<Rightarrow> bool" where
  "json_wf (intValue n) \<longleftrightarrow> minInt \<le> n \<and> n \<le> maxInt"
| "json_wf (uintValue n) \<longleftrightarrow> 0 \<le> n \<and> n \<le> maxUInt"
| "json_wf (stringValue s) \<longleftrightarrow> CHR 0x00 \<notin> set s"
| "json_wf (arrayValue m) \<longleftrightarrow> om_wf m \<and> (\<forall>e\<in>set m. 0 \<le> fst e \<and> json_wf (snd e))"
| "json_wf (objectValue m) \<longleftrightarrow> om_wf m \<and> (\<forall>e\<in>set m. CHR 0x00 \<notin> set (fst e) \<and> json_wf (snd e))"
| "json_wf _ \<longleftrightarrow> True"

section \<open>Tests and conversions\<close>

definition isNull :: "'d JsonValue \<Rightarrow> bool" where "isNull v \<longleftrightarrow> json_type v = nullType"
definition isBool :: "'d JsonValue \<Rightarrow> bool" where "isBool v \<longleftrightarrow> json_type v = booleanType"
definition isInt :: "'d JsonValue \<Rightarrow> bool" where "isInt v \<longleftrightarrow> json_type v = intType"
definition isUInt :: "'d JsonValue \<Rightarrow> bool" where "isUInt v \<longleftrightarrow> json_type v = uintType"
definition isIntegral :: "'d JsonValue \<Rightarrow> bool" where
  "isIntegral v \<longleftrightarrow> json_type v = intType \<or> json_type v = uintType \<or> json_type v = booleanType"
definition isDouble :: "'d JsonValue \<Rightarrow> bool" where "isDouble v \<longleftrightarrow> json_type v = realType"
definition isNumeric :: "'d JsonValue \<Rightarrow> bool" where "isNumeric v \<longleftrightarrow> isIntegral v \<or> isDouble v"
definition isString :: "'d JsonValue \<Rightarrow> bool" where "isString v \<longleftrightarrow> json_type v = stringType"
definition isArray :: "'d JsonValue \<Rightarrow> bool" where
  "isArray v \<longleftrightarrow> json_type v = nullType \<or> json_type v = arrayType"
definition isObject :: "'d JsonValue \<Rightarrow> bool" where
  "isObject v \<longleftrightarrow> json_type v = nullType \<or> json_type v = objectType"

definition fl_between :: "'d floats \<Rightarrow> int \<Rightarrow> int \<Rightarrow> 'd \<Rightarrow> bool" where
  "fl_between fl lo hi d \<longleftrightarrow> fl_le fl (fl_of_int fl lo) d \<and> fl_le fl d (fl_of_int fl hi)"

fun asCString :: "'d JsonValue \<Rightarrow> string json" where
  "asCString (stringValue s) = Inr s"
| "asCString _ = Inl JsonAssert"

fun asString :: "'d JsonValue \<Rightarrow> string json" where
  "asString nullValue = Inr ''''"
| "asString (stringValue s) = Inr s"
| "asString (booleanValue b) = Inr (if b then ''true'' else ''false'')"
| "asString _ = Inl JsonRuntimeError"

fun asInt :: "'d floats \<Rightarrow> 'd JsonValue \<Rightarrow> int json" where
  "asInt fl nullValue = Inr 0"
| "asInt fl (intValue n) = Inr n"
| "asInt fl (uintValue n) = (if n < maxInt then Inr n else Inl JsonRuntimeError)"
| "asInt fl (realValue d) =
     (if fl_between fl minInt maxInt d then Inr (fl_trunc fl d) else Inl JsonRuntimeError)"
| "asInt fl (booleanValue b) = Inr (if b then 1 else 0)"
| "asInt fl _ = Inl JsonRuntimeError"

fun asUInt :: "'d floats \<Rightarrow> 'd JsonValue \<Rightarrow> int json" where
  "asUInt fl nullValue = Inr 0"
| "asUInt fl (intValue n) = (if n \<ge> 0 then Inr n else Inl JsonRuntimeError)"
| "asUInt fl (uintValue n) = Inr n"
| "asUInt fl (realValue d) =
     (if fl_between fl 0 maxUInt d then Inr (fl_trunc fl d) else Inl JsonRuntimeError)"
| "asUInt fl (booleanValue b) = Inr (if b then 1 else 0)"
| "asUInt fl _ = Inl JsonRuntimeError"

fun asDouble :: "'d floats \<Rightarrow> 'd JsonValue \<Rightarrow> 'd json" where
  "asDouble fl nullValue = Inr (fl_of_int fl 0)"
| "asDouble fl (intValue n) = Inr (fl_of_int fl n)"
| "asDouble fl (uintValue n) = Inr (fl_of_int fl n)"
| "asDouble fl (realValue d) = Inr d"
| "asDouble fl (booleanValue b) = Inr (fl_of_int fl (if b then 1 else 0))"
| "asDouble fl _ = Inl JsonRuntimeError"

fun asBool :: "'d floats \<Rightarrow> 'd JsonValue \<Rightarrow> bool json" where
  "asBool fl nullValue = Inr False"
| "asBool fl (intValue n) = Inr (n \<noteq> 0)"
| "asBool fl (uintValue n) = Inr (n \<noteq> 0)"
| "asBool fl (realValue d) = Inr (\<not> fl_eq fl d (fl_of_int fl 0))"
| "asBool fl (booleanValue b) = Inr b"
| "asBool fl (stringValue s) = Inr (s \<noteq> '''')"
| "asBool fl (arrayValue m) = Inr (m \<noteq> [])"
| "asBool fl (objectValue m) = Inr (m \<noteq> [])"

fun isConvertibleTo :: "'d floats \<Rightarrow> 'd JsonValue \<Rightarrow> ValueType \<Rightarrow> bool" where
  "isConvertibleTo fl nullValue other = True"
| "isConvertibleTo fl (intValue n) other =
     (other = nullType \<and> n = 0 \<or> other = intType \<or> other = uintType \<and> n \<ge> 0 \<or>
      other = realType \<or> other = stringType \<or> other = booleanType)"
| "isConvertibleTo fl (uintValue n) other =
     (other = nullType \<and> n = 0 \<or> other = intType \<and> n \<le> maxInt \<or> other = uintType \<or>
      other = realType \<or> other = stringType \<or> other = booleanType)"
| "isConvertibleTo fl (realValue d) other =
     (other = nullType \<and> fl_eq fl d (fl_of_int fl 0) \<or>
      other = intType \<and> fl_between fl minInt maxInt d \<or>
      other = uintType \<and> fl_between fl 0 maxUInt d \<or>
      other = realType \<or> other = stringType \<or> other = booleanType)"
| "isConvertibleTo fl (booleanValue b) other =
     (other = nullType \<and> \<not> b \<or> other = intType \<or> other = uintType \<or> other = realType \<or>
      other = stringType \<or> other = booleanType)"
| "isConvertibleTo fl (stringValue s) other = (other = stringType \<or> other = nullType \<and> s = '''')"
| "isConvertibleTo fl (arrayValue m) other = (other = arrayType \<or> other = nullType \<and> m = [])"
| "isConvertibleTo fl (objectValue m) other = (other = objectType \<or> other = nullType \<and> m = [])"

section \<open>Arrays and objects\<close>

fun json_size :: "'d JsonValue \<Rightarrow> int" where
  "json_size (arrayValue m) = (if m = [] then 0 else fst (last m) + 1)"
| "json_size (objectValue m) = int (length m)"
| "json_size _ = 0"

definition json_empty :: "'d JsonValue \<Rightarrow> bool" where
  "json_empty v \<longleftrightarrow> (isNull v \<or> isArray v \<or> isObject v) \<and> json_size v = 0"

fun json_clear :: "'d JsonValue \<Rightarrow> 'd JsonValue json" where
  "json_clear nullValue = Inr nullValue"
| "json_clear (arrayValue m) = Inr (arrayValue [])"
| "json_clear (objectValue m) = Inr (objectValue [])"
| "json_clear _ = Inl JsonAssert"

text \<open>The two accesses by index: the one through a reference inserts a missing element (the
  value it leaves is \<open>json_index_touch\<close>, and assigning through it is \<open>json_index_put\<close>), the
  constant one yields null.\<close>

fun json_index_touch :: "int \<Rightarrow> 'd JsonValue \<Rightarrow> 'd JsonValue json" where
  "json_index_touch i nullValue = Inr (arrayValue [(i, nullValue)])"
| "json_index_touch i (arrayValue m) = Inr (arrayValue (om_touch nullValue i m))"
| "json_index_touch i _ = Inl JsonAssert"

fun json_index_put :: "int \<Rightarrow> 'd JsonValue \<Rightarrow> 'd JsonValue \<Rightarrow> 'd JsonValue json" where
  "json_index_put i x nullValue = Inr (arrayValue [(i, x)])"
| "json_index_put i x (arrayValue m) = Inr (arrayValue (om_upd i x m))"
| "json_index_put i x _ = Inl JsonAssert"

fun json_index :: "'d JsonValue \<Rightarrow> int \<Rightarrow> 'd JsonValue json" where
  "json_index nullValue i = Inr nullValue"
| "json_index (arrayValue m) i = Inr (om_at nullValue m i)"
| "json_index _ i = Inl JsonAssert"

text \<open>\<open>get\<close> recognises a missing element by the address of the shared null.\<close>

fun json_get_index :: "'d JsonValue \<Rightarrow> int \<Rightarrow> 'd JsonValue \<Rightarrow> 'd JsonValue json" where
  "json_get_index nullValue i dflt = Inr dflt"
| "json_get_index (arrayValue m) i dflt = Inr (om_at dflt m i)"
| "json_get_index _ i dflt = Inl JsonAssert"

definition isValidIndex :: "'d JsonValue \<Rightarrow> int \<Rightarrow> bool" where
  "isValidIndex v i \<longleftrightarrow> i < json_size v"

definition json_append :: "'d JsonValue \<Rightarrow> 'd JsonValue \<Rightarrow> 'd JsonValue json" where
  "json_append v x = json_index_put (json_size v) x v"

fun json_resize :: "int \<Rightarrow> 'd JsonValue \<Rightarrow> 'd JsonValue json" where
  "json_resize n nullValue = (if n = 0 then Inr (arrayValue []) else json_index_touch (n - 1) (arrayValue []))"
| "json_resize n (arrayValue m) =
     (if n = 0 then json_clear (arrayValue m)
      else if n > json_size (arrayValue m) then json_index_touch (n - 1) (arrayValue m)
      else let m' = fold om_del [n..json_size (arrayValue m) - 1] m in
           if json_size (arrayValue m') = n then Inr (arrayValue m') else Inl JsonAssert)"
| "json_resize n _ = Inl JsonAssert"

text \<open>The same two accesses by member name.\<close>

fun resolveReference :: "string \<Rightarrow> 'd JsonValue \<Rightarrow> 'd JsonValue json" where
  "resolveReference key nullValue = Inr (objectValue [(c_str key, nullValue)])"
| "resolveReference key (objectValue m) = Inr (objectValue (om_touch nullValue (c_str key) m))"
| "resolveReference key _ = Inl JsonAssert"

fun json_put :: "string \<Rightarrow> 'd JsonValue \<Rightarrow> 'd JsonValue \<Rightarrow> 'd JsonValue json" where
  "json_put key x nullValue = Inr (objectValue [(c_str key, x)])"
| "json_put key x (objectValue m) = Inr (objectValue (om_upd (c_str key) x m))"
| "json_put key x _ = Inl JsonAssert"

fun json_member :: "'d JsonValue \<Rightarrow> string \<Rightarrow> 'd JsonValue json" where
  "json_member nullValue key = Inr nullValue"
| "json_member (objectValue m) key = Inr (om_at nullValue m (c_str key))"
| "json_member _ key = Inl JsonAssert"

fun json_get :: "'d JsonValue \<Rightarrow> string \<Rightarrow> 'd JsonValue \<Rightarrow> 'd JsonValue json" where
  "json_get nullValue key dflt = Inr dflt"
| "json_get (objectValue m) key dflt = Inr (om_at dflt m (c_str key))"
| "json_get _ key dflt = Inl JsonAssert"

fun isMember :: "'d JsonValue \<Rightarrow> string \<Rightarrow> bool json" where
  "isMember nullValue key = Inr False"
| "isMember (objectValue m) key = Inr (om_has (c_str key) m)"
| "isMember _ key = Inl JsonAssert"

fun removeMember :: "string \<Rightarrow> 'd JsonValue \<Rightarrow> ('d JsonValue \<times> 'd JsonValue) json" where
  "removeMember key nullValue = Inr (nullValue, nullValue)"
| "removeMember key (objectValue m) =
     Inr (om_at nullValue m (c_str key), objectValue (om_del (c_str key) m))"
| "removeMember key _ = Inl JsonAssert"

fun getMemberNames :: "'d JsonValue \<Rightarrow> string list json" where
  "getMemberNames nullValue = Inr []"
| "getMemberNames (objectValue m) = Inr (om_keys m)"
| "getMemberNames _ = Inl JsonAssert"

section \<open>Comparison\<close>

text \<open>Equality and order of values; of two maps of the same size, the entries are compared one by
  one as pairs.\<close>

fun json_eq :: "'d floats \<Rightarrow> 'd JsonValue \<Rightarrow> 'd JsonValue \<Rightarrow> bool"
  and elements_eq :: "'d floats \<Rightarrow> (int \<times> 'd JsonValue) list \<Rightarrow> (int \<times> 'd JsonValue) list \<Rightarrow> bool"
  and members_eq :: "'d floats \<Rightarrow> (string \<times> 'd JsonValue) list \<Rightarrow> (string \<times> 'd JsonValue) list \<Rightarrow> bool"
where
  "json_eq fl nullValue w = (json_type w = nullType)"
| "json_eq fl (intValue a) w = (case w of intValue b \<Rightarrow> a = b | _ \<Rightarrow> False)"
| "json_eq fl (uintValue a) w = (case w of uintValue b \<Rightarrow> a = b | _ \<Rightarrow> False)"
| "json_eq fl (realValue a) w = (case w of realValue b \<Rightarrow> fl_eq fl a b | _ \<Rightarrow> False)"
| "json_eq fl (stringValue a) w = (case w of stringValue b \<Rightarrow> a = b | _ \<Rightarrow> False)"
| "json_eq fl (booleanValue a) w = (case w of booleanValue b \<Rightarrow> a = b | _ \<Rightarrow> False)"
| "json_eq fl (arrayValue m) w =
     (case w of arrayValue n \<Rightarrow> length m = length n \<and> elements_eq fl m n | _ \<Rightarrow> False)"
| "json_eq fl (objectValue m) w =
     (case w of objectValue n \<Rightarrow> length m = length n \<and> members_eq fl m n | _ \<Rightarrow> False)"
| "elements_eq fl [] n = (n = [])"
| "elements_eq fl ((i, x) # m) n =
     (case n of [] \<Rightarrow> False | (j, y) # n' \<Rightarrow> i = j \<and> json_eq fl x y \<and> elements_eq fl m n')"
| "members_eq fl [] n = (n = [])"
| "members_eq fl ((k, x) # m) n =
     (case n of [] \<Rightarrow> False | (l, y) # n' \<Rightarrow> k = l \<and> json_eq fl x y \<and> members_eq fl m n')"

definition type_less :: "'d JsonValue \<Rightarrow> 'd JsonValue \<Rightarrow> bool" where
  "type_less v w \<longleftrightarrow> value_type_code (json_type v) < value_type_code (json_type w)"

function json_less :: "'d floats \<Rightarrow> 'd JsonValue \<Rightarrow> 'd JsonValue \<Rightarrow> bool"
  and elements_less :: "'d floats \<Rightarrow> (int \<times> 'd JsonValue) list \<Rightarrow> (int \<times> 'd JsonValue) list \<Rightarrow> bool"
  and members_less :: "'d floats \<Rightarrow> (string \<times> 'd JsonValue) list \<Rightarrow> (string \<times> 'd JsonValue) list \<Rightarrow> bool"
where
  "json_less fl nullValue w = type_less nullValue w"
| "json_less fl (intValue a) w = (case w of intValue b \<Rightarrow> a < b | _ \<Rightarrow> type_less (intValue a) w)"
| "json_less fl (uintValue a) w = (case w of uintValue b \<Rightarrow> a < b | _ \<Rightarrow> type_less (uintValue a) w)"
| "json_less fl (realValue a) w =
     (case w of realValue b \<Rightarrow> fl_lt fl a b | _ \<Rightarrow> type_less (realValue a) w)"
| "json_less fl (stringValue a) w =
     (case w of stringValue b \<Rightarrow> a < b | _ \<Rightarrow> type_less (stringValue a) w)"
| "json_less fl (booleanValue a) w =
     (case w of booleanValue b \<Rightarrow> a < b | _ \<Rightarrow> type_less (booleanValue a) w)"
| "json_less fl (arrayValue m) w =
     (case w of
        arrayValue n \<Rightarrow>
          (if length m \<noteq> length n then length m < length n else elements_less fl m n)
      | _ \<Rightarrow> type_less (arrayValue m) w)"
| "json_less fl (objectValue m) w =
     (case w of
        objectValue n \<Rightarrow>
          (if length m \<noteq> length n then length m < length n else members_less fl m n)
      | _ \<Rightarrow> type_less (objectValue m) w)"
| "elements_less fl [] n = (n \<noteq> [])"
| "elements_less fl ((i, x) # m) n =
     (case n of
        [] \<Rightarrow> False
      | (j, y) # n' \<Rightarrow>
          (if i < j \<or> \<not> j < i \<and> json_less fl x y then True
           else if j < i \<or> \<not> i < j \<and> json_less fl y x then False
           else elements_less fl m n'))"
| "members_less fl [] n = (n \<noteq> [])"
| "members_less fl ((k, x) # m) n =
     (case n of
        [] \<Rightarrow> False
      | (l, y) # n' \<Rightarrow>
          (if k < l \<or> \<not> l < k \<and> json_less fl x y then True
           else if l < k \<or> \<not> k < l \<and> json_less fl y x then False
           else members_less fl m n'))"
  by pat_completeness auto

termination json_less
  by (relation "measure (\<lambda>p. case p of
        Inl (fl, v, w) \<Rightarrow> size v + size w
      | Inr (Inl (fl, m, n)) \<Rightarrow>
          size_list (size_prod (\<lambda>x. 0) size) m + size_list (size_prod (\<lambda>x. 0) size) n
      | Inr (Inr (fl, m, n)) \<Rightarrow>
          size_list (size_prod (\<lambda>x. 0) size) m + size_list (size_prod (\<lambda>x. 0) size) n)")
    auto

end
