(* ===== verification/Json_Tokens.thy ===== *)
theory Json_Tokens
  imports Json_Value "HOL-Library.Word"
begin

unbundle bit_operations_syntax

text \<open>
  The scanner of the JSON parser: \<open>src/Header/Json/reader.h\<close>, \<open>src/Tool/lib_json/json_reader.cpp\<close>.

  A location in the document is the text from there to its end, so \<open>current_ == end_\<close> is the empty
  text, and reading at the end of the document yields its terminating NUL. The functions take the
  text in front of \<open>current_\<close> and return what is left of it. Comments are skipped and not
  collected.
\<close>

section \<open>Tokens\<close>

datatype TokenType =
    tokenEndOfStream | tokenObjectBegin | tokenObjectEnd | tokenArrayBegin | tokenArrayEnd
  | tokenString | tokenNumber | tokenTrue | tokenFalse | tokenNull | tokenArraySeparator
  | tokenMemberSeparator | tokenComment | tokenError

record Token =
  tk_type :: TokenType
  tk_start :: string
  tk_end :: string

definition token_text :: "Token \<Rightarrow> string" where
  "token_text t = take (length (tk_start t) - length (tk_end t)) (tk_start t)"

abbreviation (input) quote_char :: char where "quote_char \<equiv> CHR 0x22"
abbreviation (input) backslash :: char where "backslash \<equiv> CHR 0x5C"

fun getNextChar :: "string \<Rightarrow> char \<times> string" where
  "getNextChar [] = (CHR 0x00, [])"
| "getNextChar (c # s) = (c, s)"

definition peek_char :: "string \<Rightarrow> char" where
  "peek_char s = fst (getNextChar s)"

definition is_space :: "char \<Rightarrow> bool" where
  "is_space c \<longleftrightarrow> c = CHR '' '' \<or> c = CHR 0x09 \<or> c = CHR 0x0D \<or> c = CHR 0x0A"

definition skipSpaces :: "string \<Rightarrow> string" where
  "skipSpaces s = dropWhile is_space s"

definition match_text :: "string \<Rightarrow> string \<Rightarrow> bool \<times> string" where
  "match_text pattern s =
     (if length s < length pattern then (False, s)
      else if take (length pattern) s \<noteq> pattern then (False, s)
      else (True, drop (length pattern) s))"

fun c_comment_loop :: "string \<Rightarrow> string" where
  "c_comment_loop [] = []"
| "c_comment_loop (c # s) = (if c = CHR ''*'' \<and> peek_char s = CHR ''/'' then s else c_comment_loop s)"

definition readCStyleComment :: "string \<Rightarrow> bool \<times> string" where
  "readCStyleComment s = (let (c, s1) = getNextChar (c_comment_loop s) in (c = CHR ''/'', s1))"

fun readCppStyleComment :: "string \<Rightarrow> string" where
  "readCppStyleComment [] = []"
| "readCppStyleComment (c # s) = (if c = CHR 0x0D \<or> c = CHR 0x0A then s else readCppStyleComment s)"

definition readComment :: "string \<Rightarrow> bool \<times> string" where
  "readComment s =
     (let (c, s1) = getNextChar s
      in if c = CHR ''*'' then readCStyleComment s1
         else if c = CHR ''/'' then (True, readCppStyleComment s1)
         else (False, s1))"

definition is_digit :: "char \<Rightarrow> bool" where
  "is_digit c \<longleftrightarrow> CHR ''0'' \<le> c \<and> c \<le> CHR ''9''"

definition readNumber :: "string \<Rightarrow> string" where
  "readNumber s = dropWhile (\<lambda>c. is_digit c \<or> c \<in> set ''.eE+-'') s"

fun readString :: "string \<Rightarrow> bool \<times> string" where
  "readString [] = (False, [])"
| "readString (c # s) =
     (if c = backslash then readString (drop 1 s)
      else if c = quote_char then (True, s)
      else readString s)"

text \<open>\<open>scan_token\<close> is the switch over the first character: the type, and whether the rest of the
  token is well-formed.\<close>

definition scan_token :: "char \<Rightarrow> string \<Rightarrow> TokenType \<times> bool \<times> string" where
  "scan_token c s =
     (if c = CHR 0x7B then (tokenObjectBegin, True, s)
      else if c = CHR 0x7D then (tokenObjectEnd, True, s)
      else if c = CHR ''['' then (tokenArrayBegin, True, s)
      else if c = CHR '']'' then (tokenArrayEnd, True, s)
      else if c = quote_char then (tokenString, readString s)
      else if c = CHR ''/'' then (tokenComment, readComment s)
      else if is_digit c \<or> c = CHR ''-'' then (tokenNumber, True, readNumber s)
      else if c = CHR ''t'' then (tokenTrue, match_text ''rue'' s)
      else if c = CHR ''f'' then (tokenFalse, match_text ''alse'' s)
      else if c = CHR ''n'' then (tokenNull, match_text ''ull'' s)
      else if c = CHR '','' then (tokenArraySeparator, True, s)
      else if c = CHR '':'' then (tokenMemberSeparator, True, s)
      else if c = CHR 0x00 then (tokenEndOfStream, True, s)
      else (tokenError, False, s))"

definition readToken :: "string \<Rightarrow> Token \<times> string" where
  "readToken s =
     (let s0 = skipSpaces s;
          (c, s1) = getNextChar s0;
          (type, ok, s2) = scan_token c s1
      in (\<lparr>tk_type = (if ok then type else tokenError), tk_start = s0, tk_end = s2\<rparr>, s2))"

subsection \<open>Every token but the end of the stream takes something off the text\<close>

lemma skipSpaces_shorter: "length (skipSpaces s) \<le> length s"
  by (simp add: skipSpaces_def length_dropWhile_le)

lemma getNextChar_shorter: "length (snd (getNextChar s)) \<le> length s"
  by (cases s) auto

lemma c_comment_loop_shorter: "length (c_comment_loop s) \<le> length s"
  by (induction s) auto

lemma readCppStyleComment_shorter: "length (readCppStyleComment s) \<le> length s"
  by (induction s) auto

lemma readCStyleComment_shorter: "length (snd (readCStyleComment s)) \<le> length s"
  using getNextChar_shorter [of "c_comment_loop s"] c_comment_loop_shorter [of s]
  by (simp add: readCStyleComment_def split_beta Let_def)

lemma readComment_shorter: "length (snd (readComment s)) \<le> length s"
  using getNextChar_shorter [of s] readCStyleComment_shorter [of "snd (getNextChar s)"]
    readCppStyleComment_shorter [of "snd (getNextChar s)"]
  by (auto simp add: readComment_def split_beta Let_def)

lemma readString_shorter: "length (snd (readString s)) \<le> length s"
proof (induction s rule: readString.induct)
  case (2 c s)
  then show ?case by (cases "c = CHR 0x5C"; cases "c = CHR 0x22") auto
qed simp

lemma match_text_shorter: "length (snd (match_text p s)) \<le> length s"
  by (simp add: match_text_def)

lemma readNumber_shorter: "length (readNumber s) \<le> length s"
  by (simp add: readNumber_def length_dropWhile_le)

lemma scan_token_shorter: "length (snd (snd (scan_token c s))) \<le> length s"
  unfolding scan_token_def
  by (simp add: readString_shorter readComment_shorter match_text_shorter readNumber_shorter
      split del: if_split split: if_split)

lemma readToken_snd: "snd (readToken s) =
     snd (snd (scan_token (fst (getNextChar (skipSpaces s))) (snd (getNextChar (skipSpaces s)))))"
  by (simp add: readToken_def Let_def split_beta)

lemma readToken_shorter: "readToken s = (t, s') \<Longrightarrow> length s' \<le> length s"
  using readToken_snd [of s] scan_token_shorter skipSpaces_shorter [of s]
    getNextChar_shorter [of "skipSpaces s"]
  by (metis (no_types) le_trans snd_conv)

lemma readToken_consumes:
  assumes "readToken s = (t, s')" "tk_type t \<noteq> tokenEndOfStream"
  shows "length s' < length s"
proof (cases "skipSpaces s")
  case Nil
  then show ?thesis using assms by (auto simp: readToken_def scan_token_def is_digit_def)
next
  case (Cons c s1)
  then have "s' = snd (snd (scan_token c s1))"
    using readToken_snd [of s] assms(1) by simp
  then show ?thesis
    using scan_token_shorter [of c s1] skipSpaces_shorter [of s] Cons by simp
qed

section \<open>Skipping tokens\<close>

function next_token :: "string \<Rightarrow> Token \<times> string" where
  "next_token s =
     (let (t, s1) = readToken s in if tk_type t = tokenComment then next_token s1 else (t, s1))"
  by pat_completeness auto

termination next_token
  by (relation "measure length") (auto intro!: readToken_consumes [OF sym])

function skip_until :: "TokenType \<Rightarrow> string \<Rightarrow> string" where
  "skip_until type s =
     (let (t, s1) = readToken s
      in if tk_type t = type \<or> tk_type t = tokenEndOfStream then s1 else skip_until type s1)"
  by pat_completeness auto

termination skip_until
  by (relation "measure (\<lambda>(type, s). length s)") (auto intro!: readToken_consumes [OF sym])

declare next_token.simps [simp del] skip_until.simps [simp del]

record Features =
  allowComments :: bool
  strictRoot :: bool

definition Features_all :: Features where
  "Features_all = \<lparr>allowComments = True, strictRoot = False\<rparr>"

definition Features_strictMode :: Features where
  "Features_strictMode = Features_all\<lparr>allowComments := False, strictRoot := True\<rparr>"

definition skipCommentTokens :: "Features \<Rightarrow> string \<Rightarrow> Token \<times> string" where
  "skipCommentTokens ft s = (if allowComments ft then next_token s else readToken s)"

lemma next_token_shorter: "next_token s = (t, s') \<Longrightarrow> length s' \<le> length s"
proof (induction s rule: next_token.induct)
  case (1 s)
  then show ?case
    by (subst (asm) (2) next_token.simps) (fastforce split: prod.splits if_splits dest: readToken_shorter)
qed

lemma next_token_consumes:
  "next_token s = (t, s') \<Longrightarrow> tk_type t \<noteq> tokenEndOfStream \<Longrightarrow> length s' < length s"
proof (induction s rule: next_token.induct)
  case (1 s)
  then show ?case
    by (subst (asm) (2) next_token.simps)
      (fastforce split: prod.splits if_splits dest: readToken_consumes readToken_shorter)
qed

lemma next_token_no_comment: "next_token s = (t, s') \<Longrightarrow> tk_type t \<noteq> tokenComment"
proof (induction s rule: next_token.induct)
  case (1 s)
  then show ?case
    by (subst (asm) (2) next_token.simps) (auto split: prod.splits if_splits)
qed

lemma skip_until_shorter: "length (skip_until ty s) \<le> length s"
proof (induction ty s rule: skip_until.induct)
  case (1 ty s)
  then show ?case
    by (subst skip_until.simps) (fastforce split: prod.splits dest: readToken_shorter)
qed

lemma skipCommentTokens_consumes:
  "skipCommentTokens ft s = (t, s') \<Longrightarrow> tk_type t \<noteq> tokenEndOfStream \<Longrightarrow> length s' < length s"
  by (auto simp: skipCommentTokens_def split: if_splits dest: next_token_consumes readToken_consumes)

lemma skipCommentTokens_shorter: "skipCommentTokens ft s = (t, s') \<Longrightarrow> length s' \<le> length s"
  by (auto simp: skipCommentTokens_def split: if_splits dest: next_token_shorter readToken_shorter)

end
