(* ===== verification/Json_Reader.thy ===== *)
theory Json_Reader
  imports Json_Tokens
begin

text \<open>
  The parser itself (\<open>src/Tool/lib_json/json_reader.cpp\<close>, class \<open>Reader\<close>): decoding of numbers and
  strings, the recursive descent over objects and arrays, recovery from errors and the error
  report. The value a function reads into (the top of \<open>nodes_\<close>) is an argument and comes back
  changed. The descent carries fuel; \<open>parse\<close> gives it enough for every document.
\<close>

section \<open>Numbers\<close>

type_synonym uint = "32 word"

definition digit_value :: "char \<Rightarrow> uint" where
  "digit_value c = of_nat (of_char c) - of_nat (of_char (CHR ''0''))"

text \<open>The number of a digit string: \<open>None\<close> when a character is no digit, \<open>Some None\<close> when the value so
  far reaches the threshold while digits are left.\<close>

fun number_loop :: "uint \<Rightarrow> uint \<Rightarrow> string \<Rightarrow> uint option option" where
  "number_loop threshold value [] = Some (Some value)"
| "number_loop threshold value (c # s) =
     (if \<not> is_digit c then None
      else if value \<ge> threshold then Some None
      else number_loop threshold (value * 10 + digit_value c) s)"

definition not_a_number :: "string \<Rightarrow> string" where
  "not_a_number s = [CHR 0x27] @ s @ [CHR 0x27] @ '' is not a number.''"

text \<open>\<open>decodeDouble\<close> copies up to 32 characters into a buffer of 32 and terminates it.\<close>

definition decodeDouble :: "'d floats \<Rightarrow> string \<Rightarrow> (string + 'd JsonValue) res" where
  "decodeDouble fl text =
     (if length text = 32 then Inl OutOfBounds
      else Inr (case fl_scan fl text of None \<Rightarrow> Inl (not_a_number text) | Some d \<Rightarrow> Inr (realValue d)))"

definition looks_like_double :: "string \<Rightarrow> bool" where
  "looks_like_double text \<longleftrightarrow> (\<exists>c\<in>set text. c \<in> set ''.eE+'') \<or> CHR ''-'' \<in> set (tl text)"

definition decodeNumber :: "'d floats \<Rightarrow> Token \<Rightarrow> (string + 'd JsonValue) res" where
  "decodeNumber fl token =
     (let text = token_text token in
      if looks_like_double text then decodeDouble fl text
      else
        let isNegative = (peek_char text = CHR ''-'');
            threshold = (if isNegative then word_of_int (- minInt) else word_of_int maxUInt) div 10
        in case number_loop threshold 0 (if isNegative then tl text else text) of
             None \<Rightarrow> Inr (Inl (not_a_number text))
           | Some None \<Rightarrow> decodeDouble fl text
           | Some (Some value) \<Rightarrow>
               Inr (Inr (if isNegative then intValue (- sint value)
                         else if value \<le> word_of_int maxInt then intValue (sint value)
                         else uintValue (uint value))))"

section \<open>Strings\<close>

definition byte_char :: "uint \<Rightarrow> char" where
  "byte_char w = char_of (unat w)"

definition codePointToUTF8 :: "uint \<Rightarrow> string" where
  "codePointToUTF8 cp =
     (if cp \<le> 0x7F then [byte_char cp]
      else if cp \<le> 0x7FF then
        [byte_char (0xC0 OR (0x1F AND drop_bit 6 cp)), byte_char (0x80 OR (0x3F AND cp))]
      else if cp \<le> 0xFFFF then
        [byte_char (0xE0 OR (0xF AND drop_bit 12 cp)), byte_char (0x80 OR (0x3F AND drop_bit 6 cp)),
         byte_char (0x80 OR (0x3F AND cp))]
      else if cp \<le> 0x10FFFF then
        [byte_char (0xF0 OR (0x7 AND drop_bit 18 cp)), byte_char (0x80 OR (0x3F AND drop_bit 12 cp)),
         byte_char (0x80 OR (0x3F AND drop_bit 6 cp)), byte_char (0x80 OR (0x3F AND cp))]
      else [])"

text \<open>An error of the decoder: its message, and the text left where it happened.\<close>

type_synonym 'a decoded = "(string \<times> string) + 'a"

definition hex_value :: "char \<Rightarrow> uint option" where
  "hex_value c =
     (if is_digit c then Some (digit_value c)
      else if CHR ''a'' \<le> c \<and> c \<le> CHR ''f'' then Some (of_nat (of_char c) - of_nat (of_char CHR ''a'') + 10)
      else if CHR ''A'' \<le> c \<and> c \<le> CHR ''F'' then Some (of_nat (of_char c) - of_nat (of_char CHR ''A'') + 10)
      else None)"

fun hex_loop :: "nat \<Rightarrow> uint \<Rightarrow> string \<Rightarrow> (uint \<times> string) decoded" where
  "hex_loop 0 unicode s = Inr (unicode, s)"
| "hex_loop (Suc n) unicode s =
     (let (c, s1) = getNextChar s in
      case hex_value c of
        None \<Rightarrow> Inl (''Bad unicode escape sequence in string: hexadecimal digit expected.'', s1)
      | Some d \<Rightarrow> hex_loop n (unicode * 16 + d) s1)"

definition decodeUnicodeEscapeSequence :: "string \<Rightarrow> (uint \<times> string) decoded" where
  "decodeUnicodeEscapeSequence s =
     (if length s < 4
      then Inl (''Bad unicode escape sequence in string: four digits expected.'', s)
      else hex_loop 4 0 s)"

definition decodeUnicodeCodePoint :: "string \<Rightarrow> (uint \<times> string) decoded" where
  "decodeUnicodeCodePoint s =
     (case decodeUnicodeEscapeSequence s of
        Inl e \<Rightarrow> Inl e
      | Inr (unicode, s1) \<Rightarrow>
          if unicode \<ge> 0xD800 \<and> unicode \<le> 0xDBFF then
            if length s1 < 6
            then Inl (''additional six characters expected to parse unicode surrogate pair.'', s1)
            else if peek_char s1 = CHR 0x5C \<and> peek_char (drop 1 s1) = CHR ''u'' then
              (case decodeUnicodeEscapeSequence (drop 2 s1) of
                 Inl e \<Rightarrow> Inl e
               | Inr (surrogatePair, s2) \<Rightarrow>
                   Inr (0x10000 + push_bit 10 (unicode AND 0x3FF) + (surrogatePair AND 0x3FF), s2))
            else Inl (''expecting another '' @ [CHR 0x5C] @
                      ''u token to begin the second half of a unicode surrogate pair'',
                    drop (if peek_char s1 = CHR 0x5C then 2 else 1) s1)
          else Inr (unicode, s1))"

lemma hex_loop_shorter: "hex_loop n u s = Inr (v, s') \<Longrightarrow> length s' \<le> length s"
proof (induction n u s rule: hex_loop.induct)
  case (2 n u s)
  then show ?case
    by (cases s) (force split: option.splits)+
qed simp

lemma decodeUnicodeEscapeSequence_shorter:
  "decodeUnicodeEscapeSequence s = Inr (v, s') \<Longrightarrow> length s' \<le> length s"
  by (auto simp: decodeUnicodeEscapeSequence_def split: if_splits dest: hex_loop_shorter)

lemma decodeUnicodeCodePoint_shorter:
  "decodeUnicodeCodePoint s = Inr (v, s') \<Longrightarrow> length s' \<le> length s"
  by (fastforce simp: decodeUnicodeCodePoint_def split: sum.splits if_splits
      dest: decodeUnicodeEscapeSequence_shorter)

definition simple_escape :: "char \<Rightarrow> char option" where
  "simple_escape c =
     (if c = CHR 0x22 then Some (CHR 0x22)
      else if c = CHR ''/'' then Some (CHR ''/'')
      else if c = CHR 0x5C then Some (CHR 0x5C)
      else if c = CHR ''b'' then Some (CHR 0x08)
      else if c = CHR ''f'' then Some (CHR 0x0C)
      else if c = CHR ''n'' then Some (CHR 0x0A)
      else if c = CHR ''r'' then Some (CHR 0x0D)
      else if c = CHR ''t'' then Some (CHR 0x09)
      else None)"

text \<open>What is between the quotes, decoded.\<close>

function (sequential) decode_body :: "string \<Rightarrow> string decoded" where
  "decode_body [] = Inr []"
| "decode_body (c # s) =
     (if c = CHR 0x22 then Inr []
      else if c = CHR 0x5C then
        (case s of
           [] \<Rightarrow> Inl (''Empty escape sequence in string'', [])
         | e # s1 \<Rightarrow>
             (case simple_escape e of
                Some d \<Rightarrow> map_sum id ((#) d) (decode_body s1)
              | None \<Rightarrow>
                  if e = CHR ''u'' then
                    (case decodeUnicodeCodePoint s1 of
                       Inl err \<Rightarrow> Inl err
                     | Inr (cp, s2) \<Rightarrow> map_sum id ((@) (codePointToUTF8 cp)) (decode_body s2))
                  else Inl (''Bad escape sequence in string'', s1)))
      else map_sum id ((#) c) (decode_body s))"
  by pat_completeness auto

termination decode_body
  by (relation "measure length") (auto dest: decodeUnicodeCodePoint_shorter)

definition decodeString :: "Token \<Rightarrow> string decoded" where
  "decodeString token =
     (case decode_body (butlast (tl (token_text token))) of
        Inl (msg, s) \<Rightarrow> Inl (msg, s @ drop (length (token_text token) - 1) (token_text token) @ tk_end token)
      | Inr decoded \<Rightarrow> Inr decoded)"

section \<open>The parser\<close>

record ErrorInfo =
  er_token :: Token
  er_message :: string
  er_extra :: "string option"

record Reader =
  rd_current :: string
  rd_errors :: "ErrorInfo list"

definition addError :: "string \<Rightarrow> Token \<Rightarrow> string option \<Rightarrow> Reader \<Rightarrow> Reader" where
  "addError message token extra r =
     r\<lparr>rd_errors := rd_errors r @ [\<lparr>er_token = token, er_message = message, er_extra = extra\<rparr>]\<rparr>"

definition recoverFromError :: "TokenType \<Rightarrow> Reader \<Rightarrow> Reader" where
  "recoverFromError skipUntilToken r = r\<lparr>rd_current := skip_until skipUntilToken (rd_current r)\<rparr>"

definition addErrorAndRecover :: "string \<Rightarrow> Token \<Rightarrow> TokenType \<Rightarrow> Reader \<Rightarrow> Reader" where
  "addErrorAndRecover message token skipUntilToken r =
     recoverFromError skipUntilToken (addError message token None r)"

definition missing_member :: string where
  "missing_member = ''Missing '' @ [CHR 0x27, CHR 0x7D, CHR 0x27] @ '' or object member name''"
definition missing_colon :: string where
  "missing_colon = ''Missing '' @ [CHR 0x27] @ '':'' @ [CHR 0x27] @ '' after object member name''"
definition missing_comma :: string where
  "missing_comma = ''Missing '' @ [CHR 0x27] @ '','' @ [CHR 0x27] @ '' or '' @ [CHR 0x27, CHR 0x7D, CHR 0x27] @
     '' in object declaration''"

text \<open>
  The three functions of the descent, each as its body over the functions it calls, and then tied
  together. \<open>readObject\<close> and \<open>readArray\<close> are the loops of the functions of these names: what they
  carry round the loop is the last name read, or the next index, and the map built so far.
\<close>

type_synonym 'v rd = "(bool \<times> 'v \<times> Reader) res"

definition value_body ::
  "(string \<Rightarrow> (string \<times> 'd JsonValue) list \<Rightarrow> Reader \<Rightarrow> (string \<times> 'd JsonValue) list rd) \<Rightarrow>
   (int \<Rightarrow> (int \<times> 'd JsonValue) list \<Rightarrow> Reader \<Rightarrow> (int \<times> 'd JsonValue) list rd) \<Rightarrow>
   'd floats \<Rightarrow> Features \<Rightarrow> 'd JsonValue \<Rightarrow> Reader \<Rightarrow> 'd JsonValue rd" where
  "value_body object_loop array_loop fl ft v r =
     (let (token, s) = skipCommentTokens ft (rd_current r); r1 = r\<lparr>rd_current := s\<rparr> in
      case tk_type token of
        tokenObjectBegin \<Rightarrow>
          bindF (object_loop [] [] r1) (\<lambda>(ok, m, r2). Inr (ok, objectValue m, r2))
      | tokenArrayBegin \<Rightarrow>
          (let s1 = skipSpaces s in
           if peek_char s1 = CHR '']''
           then Inr (True, arrayValue [], r1\<lparr>rd_current := snd (readToken s1)\<rparr>)
           else bindF (array_loop 0 [] (r1\<lparr>rd_current := s1\<rparr>))
                  (\<lambda>(ok, m, r2). Inr (ok, arrayValue m, r2)))
      | tokenNumber \<Rightarrow>
          bindF (decodeNumber fl token) (\<lambda>d. case d of
              Inl message \<Rightarrow> Inr (False, v, addError message token None r1)
            | Inr x \<Rightarrow> Inr (True, x, r1))
      | tokenString \<Rightarrow>
          (case decodeString token of
             Inl (message, extra) \<Rightarrow> Inr (False, v, addError message token (Some extra) r1)
           | Inr decoded \<Rightarrow> Inr (True, stringValue (c_str decoded), r1))
      | tokenTrue \<Rightarrow> Inr (True, booleanValue True, r1)
      | tokenFalse \<Rightarrow> Inr (True, booleanValue False, r1)
      | tokenNull \<Rightarrow> Inr (True, nullValue, r1)
      | _ \<Rightarrow> Inr (False, v,
               addError ''Syntax error: value, object or array expected.'' token None r1))"

definition after_member ::
  "(string \<Rightarrow> (string \<times> 'd JsonValue) list \<Rightarrow> Reader \<Rightarrow> (string \<times> 'd JsonValue) list rd) \<Rightarrow>
   string \<Rightarrow> (string \<times> 'd JsonValue) list \<Rightarrow> Reader \<Rightarrow> (string \<times> 'd JsonValue) list rd" where
  "after_member object_loop name m r =
     (let (comma, s) = readToken (rd_current r); r1 = r\<lparr>rd_current := s\<rparr> in
      if tk_type comma \<notin> {tokenObjectEnd, tokenArraySeparator, tokenComment}
      then Inr (False, m, addErrorAndRecover missing_comma comma tokenObjectEnd r1)
      else
        let (comma1, s1) = (if tk_type comma = tokenComment then next_token s else (comma, s));
            r2 = r1\<lparr>rd_current := s1\<rparr>
        in if tk_type comma1 = tokenObjectEnd then Inr (True, m, r2) else object_loop name m r2)"

definition object_body ::
  "('d JsonValue \<Rightarrow> Reader \<Rightarrow> 'd JsonValue rd) \<Rightarrow>
   (string \<Rightarrow> (string \<times> 'd JsonValue) list \<Rightarrow> Reader \<Rightarrow> (string \<times> 'd JsonValue) list rd) \<Rightarrow>
   string \<Rightarrow> (string \<times> 'd JsonValue) list \<Rightarrow> Reader \<Rightarrow> (string \<times> 'd JsonValue) list rd" where
  "object_body read_value object_loop name m r =
     (let (tokenName, s) = next_token (rd_current r); r1 = r\<lparr>rd_current := s\<rparr> in
      if tk_type tokenName = tokenObjectEnd \<and> name = [] then Inr (True, m, r1)
      else if tk_type tokenName \<noteq> tokenString
      then Inr (False, m, addErrorAndRecover missing_member tokenName tokenObjectEnd r1)
      else case decodeString tokenName of
        Inl (message, extra) \<Rightarrow>
          Inr (False, m, recoverFromError tokenObjectEnd (addError message tokenName (Some extra) r1))
      | Inr name1 \<Rightarrow>
          (let (colon, s2) = readToken s; r2 = r1\<lparr>rd_current := s2\<rparr> in
           if tk_type colon \<noteq> tokenMemberSeparator
           then Inr (False, m, addErrorAndRecover missing_colon colon tokenObjectEnd r2)
           else
             bindF (read_value (om_at nullValue m (c_str name1)) r2) (\<lambda>(ok, v, r3).
             let m1 = om_upd (c_str name1) v m in
             if ok then after_member object_loop name1 m1 r3
             else Inr (False, m1, recoverFromError tokenObjectEnd r3))))"

definition array_body ::
  "('d JsonValue \<Rightarrow> Reader \<Rightarrow> 'd JsonValue rd) \<Rightarrow>
   (int \<Rightarrow> (int \<times> 'd JsonValue) list \<Rightarrow> Reader \<Rightarrow> (int \<times> 'd JsonValue) list rd) \<Rightarrow>
   int \<Rightarrow> (int \<times> 'd JsonValue) list \<Rightarrow> Reader \<Rightarrow> (int \<times> 'd JsonValue) list rd" where
  "array_body read_value array_loop index m r =
     bindF (read_value (om_at nullValue m index) r) (\<lambda>(ok, v, r1).
     let m1 = om_upd index v m in
     if \<not> ok then Inr (False, m1, recoverFromError tokenArrayEnd r1)
     else
       let (token, s) = next_token (rd_current r1); r2 = r1\<lparr>rd_current := s\<rparr> in
       if tk_type token = tokenArrayEnd then Inr (True, m1, r2)
       else array_loop (index + 1) m1 r2)"

fun readValue :: "nat \<Rightarrow> 'd floats \<Rightarrow> Features \<Rightarrow> 'd JsonValue \<Rightarrow> Reader \<Rightarrow> 'd JsonValue rd"
  and readObject ::
    "nat \<Rightarrow> 'd floats \<Rightarrow> Features \<Rightarrow> string \<Rightarrow> (string \<times> 'd JsonValue) list \<Rightarrow> Reader \<Rightarrow>
       (string \<times> 'd JsonValue) list rd"
  and readArray ::
    "nat \<Rightarrow> 'd floats \<Rightarrow> Features \<Rightarrow> int \<Rightarrow> (int \<times> 'd JsonValue) list \<Rightarrow> Reader \<Rightarrow>
       (int \<times> 'd JsonValue) list rd"
where
  "readValue 0 fl ft v r = Inl NonTermination"
| "readValue (Suc n) fl ft v r = value_body (readObject n fl ft) (readArray n fl ft) fl ft v r"
| "readObject 0 fl ft name m r = Inl NonTermination"
| "readObject (Suc n) fl ft name m r = object_body (readValue n fl ft) (readObject n fl ft) name m r"
| "readArray 0 fl ft index m r = Inl NonTermination"
| "readArray (Suc n) fl ft index m r = array_body (readValue n fl ft) (readArray n fl ft) index m r"

text \<open>What \<open>parse\<close> does after the root value: one more token is read and ignored.\<close>

definition parse_end :: "Features \<Rightarrow> string \<Rightarrow> bool \<times> 'd JsonValue \<times> Reader \<Rightarrow> 'd JsonValue rd" where
  "parse_end ft document = (\<lambda>(successful, root, r).
     let (token, s) = skipCommentTokens ft (rd_current r); r1 = r\<lparr>rd_current := s\<rparr> in
     if strictRoot ft \<and> \<not> isArray root \<and> \<not> isObject root
     then Inr (False, root, addError
            ''A valid JSON document must be either an array or an object value.''
            \<lparr>tk_type = tokenError, tk_start = document, tk_end = []\<rparr> None r1)
     else Inr (successful, root, r1))"

definition parse :: "'d floats \<Rightarrow> Features \<Rightarrow> string \<Rightarrow> 'd JsonValue \<Rightarrow> 'd JsonValue rd" where
  "parse fl ft document root =
     bindF (readValue (2 * length document + 1) fl ft root \<lparr>rd_current = document, rd_errors = []\<rparr>)
       (parse_end ft document)"

text \<open>The stream overload reads the document up to the character \<open>(char)EOF\<close>.\<close>

definition parse_stream ::
  "'d floats \<Rightarrow> Features \<Rightarrow> string \<Rightarrow> 'd JsonValue \<Rightarrow> 'd JsonValue rd" where
  "parse_stream fl ft sin root = parse fl ft (takeWhile (\<lambda>c. c \<noteq> CHR 0xFF) sin) root"

section \<open>The error report\<close>

text \<open>\<open>location_loop\<close> walks \<open>k\<close> characters down the document (a return that is followed by a newline
  takes one more) and keeps the line and the start of the last line, as a distance from the begin.\<close>

fun location_loop :: "int \<Rightarrow> int \<Rightarrow> string \<Rightarrow> int \<Rightarrow> int \<Rightarrow> int \<times> int" where
  "location_loop location pos [] line lastLineStart = (line, lastLineStart)"
| "location_loop location pos (c # s) line lastLineStart =
     (if pos \<ge> location then (line, lastLineStart)
      else if c = CHR 0x0D then
        if peek_char s = CHR 0x0A
        then location_loop location (pos + 2) (drop 1 s) (line + 1) (pos + 2)
        else location_loop location (pos + 1) s (line + 1) (pos + 1)
      else if c = CHR 0x0A then location_loop location (pos + 1) s (line + 1) (pos + 1)
      else location_loop location (pos + 1) s line lastLineStart)"

definition getLocationLineAndColumn :: "string \<Rightarrow> string \<Rightarrow> int \<times> int" where
  "getLocationLineAndColumn document location =
     (let pos = int (length document) - int (length location);
          (line, lastLineStart) = location_loop pos 0 document 0 0
      in (line + 1, pos - lastLineStart + 1))"

end
