(* ===== verification/Config_Files.thy ===== *)
theory Config_Files
  imports Config Json_Reader
begin

text \<open>
  How the constants are read: \<open>ReadINI\<close>, \<open>ReadNet\<close>, \<open>ReadRoom\<close>, \<open>ReadServer\<close> of \<open>src/Tool/ConstPool.cpp\<close>.
  A file is \<open>None\<close> when it cannot be opened and its bytes otherwise. The code uses the
  \<open>operator[]\<close> that inserts a missing member as null; the value it yields is that of the constant
  one (\<open>json_member\<close>), and what it leaves in the value read from the file is not looked at again.
\<close>

definition getInt :: "'d floats \<Rightarrow> 'd JsonValue \<Rightarrow> string \<Rightarrow> int json" where
  "getInt fl root key = json_bind (json_member root key) (asInt fl)"

definition getBool :: "'d floats \<Rightarrow> 'd JsonValue \<Rightarrow> string \<Rightarrow> bool json" where
  "getBool fl root key = json_bind (json_member root key) (asBool fl)"

definition getString :: "'d JsonValue \<Rightarrow> string \<Rightarrow> string json" where
  "getString root key = json_bind (json_member root key) asString"

lemmas json_get_defs = getInt_def getBool_def getString_def

section \<open>Loading\<close>

type_synonym json_file = "string option"

text \<open>The shape all four readers share: fail when the file is not there, leave the record
  alone when it does not parse, and otherwise set the fields.\<close>

definition read_file ::
  "'d floats \<Rightarrow> ('d JsonValue \<Rightarrow> Config \<Rightarrow> Config json) \<Rightarrow> json_file \<Rightarrow> Config \<Rightarrow> (bool \<times> Config) json"
where
  "read_file fl fill file cfg =
     (case file of
        None \<Rightarrow> Inr (False, cfg)
      | Some text \<Rightarrow>
          (case parse_stream fl Features_all text nullValue of
             Inl f \<Rightarrow> Inl (JsonFault f)
           | Inr (ok, root, reader) \<Rightarrow>
               if ok then json_bind (fill root cfg) (\<lambda>cfg'. Inr (True, cfg')) else Inr (True, cfg)))"

definition fill_ini :: "'d floats \<Rightarrow> 'd JsonValue \<Rightarrow> Config \<Rightarrow> Config json" where
  "fill_ini fl root cfg =
     json_bind (getBool fl root ''Support_Chase_Frame'') (\<lambda>v1.
     json_bind (getBool fl root ''Debug_Out'') (\<lambda>v2.
     json_bind (getBool fl root ''Pressure_Test'') (\<lambda>v3.
     json_bind (getInt fl root ''Epoll_Wait_Time'') (\<lambda>v4.
     json_bind (getInt fl root ''Epoll_Listen_Number'') (\<lambda>v5.
     json_bind (getInt fl root ''One_Frame_Ms'') (\<lambda>v6.
     json_bind (getInt fl root ''Check_All_Client_DropOut_Time'') (\<lambda>v7.
     json_bind (getInt fl root ''Try_Connect_Server_Time'') (\<lambda>v8.
     json_bind (getInt fl root ''Check_HeartBeat_Time'') (\<lambda>v9.
     json_bind (getInt fl root ''Try_Send_CenterServer_Time'') (\<lambda>v10.
     json_bind (getString root ''LOCAL_IP'') (\<lambda>v11.
     json_bind (getInt fl root ''Server_Free_Count'') (\<lambda>v12.
     json_bind (getInt fl root ''Server_Common_Count'') (\<lambda>v13.
     json_bind (getInt fl root ''Server_Busy_Count'') (\<lambda>v14.
     Inr (cfg\<lparr>IS_CHASE_FRAME := v1, DEBUG := v2, PRESSURE_TEST := v3,
              EPOLL_WAIT_TIME := v4, MAX_CLIENTS := v5, ONE_FRAME_MS := v6,
              CHECK_ALL_CLIENT_CONN := v7, TRY_CONNECT_SERVER_TIME := v8,
              MAX_HEARTBEAT_DIFF := v9, SEND_CENTERSERVER_TIME := v10, LOCAL_IP := v11,
              SERVER_FREE_COUNT := v12, SERVER_COMMON_COUNT := v13,
              SERVER_BUSY_COUNT := v14\<rparr>)))))))))))))))"

definition ReadINI :: "'d floats \<Rightarrow> json_file \<Rightarrow> Config \<Rightarrow> (bool \<times> Config) json" where
  "ReadINI fl = read_file fl (fill_ini fl)"

definition fill_net :: "'d floats \<Rightarrow> 'd JsonValue \<Rightarrow> Config \<Rightarrow> Config json" where
  "fill_net fl root cfg =
     json_bind (getInt fl root ''Head_Size'') (\<lambda>v1.
     json_bind (getInt fl root ''Head_Size_S'') (\<lambda>v2.
     json_bind (getInt fl root ''Tmp_Buffer_Size'') (\<lambda>v3.
     json_bind (getInt fl root ''Max_Buffer_Size'') (\<lambda>v4.
     Inr (cfg\<lparr>HEAD_SIZE := v1, HEAD_SIZE_S := v2, TMP_BUFFER_SIZE := v3,
              MAX_BUFFER_SIZE := v4\<rparr>)))))"

definition ReadNet :: "'d floats \<Rightarrow> json_file \<Rightarrow> Config \<Rightarrow> (bool \<times> Config) json" where
  "ReadNet fl = read_file fl (fill_net fl)"

definition fill_room :: "'d floats \<Rightarrow> 'd JsonValue \<Rightarrow> Config \<Rightarrow> Config json" where
  "fill_room fl root cfg =
     json_bind (getInt fl root ''Room_Size'') (\<lambda>v1.
     json_bind (getInt fl root ''Default_Room_Count'') (\<lambda>v2.
     json_bind (getInt fl root ''Room_Pool_Size'') (\<lambda>v3.
     Inr (cfg\<lparr>ROOM_SIZE := v1, DEFAULT_ROOM_COUNT := v2, ROOM_POOL_SIZE := v3\<rparr>))))"

definition ReadRoom :: "'d floats \<Rightarrow> json_file \<Rightarrow> Config \<Rightarrow> (bool \<times> Config) json" where
  "ReadRoom fl = read_file fl (fill_room fl)"

definition server_keys :: "string list" where
  "server_keys = [''ID_1'', ''ID_2'', ''ID_3'', ''ID_4'', ''ID_5'', ''ID_6'', ''ID_7'', ''ID_8'']"

definition read_server :: "'d floats \<Rightarrow> 'd JsonValue \<Rightarrow> (string \<times> int \<times> string) json" where
  "read_server fl v =
     json_bind (getString v ''NAME'') (\<lambda>name.
     json_bind (getString v ''IP'') (\<lambda>ip.
     json_bind (getInt fl v ''PORT'') (\<lambda>port. Inr (ip, port, name))))"

fun read_servers :: "'d floats \<Rightarrow> 'd JsonValue \<Rightarrow> string list \<Rightarrow> (string \<times> int \<times> string) list json" where
  "read_servers fl grp [] = Inr []"
| "read_servers fl grp (k # ks) =
     json_bind (json_bind (json_member grp k) (read_server fl)) (\<lambda>s.
     json_bind (read_servers fl grp ks) (\<lambda>ss. Inr (s # ss)))"

definition fill_server :: "'d floats \<Rightarrow> 'd JsonValue \<Rightarrow> Config \<Rightarrow> Config json" where
  "fill_server fl root cfg =
     json_bind (json_bind (json_member root ''GATE_SERVER'') (\<lambda>g. read_servers fl g server_keys))
       (\<lambda>gates.
     json_bind (json_bind (json_member root ''LOGIC_SERVER'') (\<lambda>g. read_servers fl g server_keys))
       (\<lambda>logics.
     json_bind (json_bind (json_member root ''DB_SERVER'') (read_server fl)) (\<lambda>db.
     json_bind (json_bind (json_member root ''CENTER_SERVER'') (read_server fl)) (\<lambda>center.
     Inr (cfg\<lparr>GATE_SERVERS := gates, LOGIC_SERVERS := logics, DATABASE_SERVER := db,
              CENTER_SERVER := center\<rparr>)))))"

definition ReadServer :: "'d floats \<Rightarrow> json_file \<Rightarrow> Config \<Rightarrow> (bool \<times> Config) json" where
  "ReadServer fl = read_file fl (fill_server fl)"

text \<open>The constructor runs the four readers in this order and only reports a missing file.\<close>

definition ConstPool ::
  "'d floats \<Rightarrow> json_file \<Rightarrow> json_file \<Rightarrow> json_file \<Rightarrow> json_file \<Rightarrow> Config \<Rightarrow> Config json" where
  "ConstPool fl ini net room server cfg =
     json_bind (ReadINI fl ini cfg) (\<lambda>(_, c1).
     json_bind (ReadNet fl net c1) (\<lambda>(_, c2).
     json_bind (ReadRoom fl room c2) (\<lambda>(_, c3).
     json_bind (ReadServer fl server c3) (\<lambda>(_, c4). Inr c4))))"

section \<open>The shipped files\<close>

text \<open>Three of the four files under \<open>src/ini\<close>, line by line.\<close>

fun join_lines :: "string list \<Rightarrow> string" where
  "join_lines [] = []"
| "join_lines [x] = x"
| "join_lines (x # y # ys) = x @ CHR 0x0A # join_lines (y # ys)"

definition Net_text :: string where \<open>
  Net_text = join_lines
     [''{'', ''    "Head_Size" : 12,'', ''    "Head_Size_S" : 4,'',
      ''    "Tmp_Buffer_Size" : 1024,'', ''    "Max_Buffer_Size" : 1048576'', ''}'']\<close>

definition Room_text :: string where \<open>
  Room_text = join_lines
     [''{'', ''    "Room_Size" : 10,'', ''    "Default_Room_Count" : 5000,'',
      ''    "Room_Pool_Size" : 5000'', ''}'']\<close>

definition ini_text :: string where \<open>
  ini_text = join_lines
     [''{'', ''    "Support_Chase_Frame" : true,'', ''    "Debug_Out" : false,'',
      ''    "Pressure_Test" : false,'', ''    '', ''    "Epoll_Wait_Time" : 5,'',
      ''    "Epoll_Listen_Number" : 3072,'', [], ''    "One_Frame_Ms" : 66,'', [],
      ''    "Check_All_Client_DropOut_Time" : 500,'', ''    "Try_Connect_Server_Time" : 1000,'',
      ''    "Check_HeartBeat_Time" : 4000,'', ''    "Try_Send_CenterServer_Time" : 5000,'', [],
      ''    "LOCAL_IP" : "127.0.0.1",'', [], ''    "Server_Free_Count" : 10,'',
      ''    "Server_Common_Count" : 250,'', ''    "Server_Busy_Count" : 1145'', [], ''}'']\<close>

end
