(* ===== verification/Json_Writer.thy ===== *)
theory Json_Writer
  imports Json_Value "HOL-Library.Word"
begin

text \<open>
  The writers of the JSON library: \<open>src/Header/Json/writer.h\<close>, \<open>src/Tool/lib_json/json_writer.cpp\<close>.
  \<open>FastWriter\<close> puts a value on one line; \<open>StyledWriter\<close> indents, and puts an array of scalars on one
  line when it is short. Values carry no comments here, so the functions that write comments
  have nothing to do and are left out; \<open>Json_Comment_Writer\<close> has them.
\<close>

section \<open>Texts of scalars\<close>

definition isControlCharacter :: "char \<Rightarrow> bool" where
  "isControlCharacter c \<longleftrightarrow> CHR 0x00 < c \<and> c \<le> CHR 0x1F"

definition digit_char :: "nat \<Rightarrow> char" where
  "digit_char d = char_of (48 + d)"

fun uintToString :: "nat \<Rightarrow> string" where
  "uintToString n = (if n < 10 then [digit_char n] else uintToString (n div 10) @ [digit_char (n mod 10)])"

declare uintToString.simps [simp del]

text \<open>The negation of the least integer wraps around to itself, and as an unsigned number it is right.\<close>

definition valueToString_Int :: "int \<Rightarrow> string" where
  "valueToString_Int value =
     (if value < 0 then CHR ''-'' # uintToString (unat (- word_of_int value :: 32 word))
      else uintToString (unat (word_of_int value :: 32 word)))"

definition valueToString_UInt :: "int \<Rightarrow> string" where
  "valueToString_UInt value = uintToString (unat (word_of_int value :: 32 word))"

text \<open>Trailing zeroes of the fraction go, but for one; a text with an exponent stays as it is. The
  text is walked from its end.\<close>

definition trim_zeroes :: "string \<Rightarrow> string" where
  "trim_zeroes buffer =
     (if buffer = [] \<or> last buffer \<noteq> CHR ''0'' then buffer
      else
        let kept = rev (dropWhile (\<lambda>c. c = CHR ''0'') (rev buffer));
            before = dropWhile (\<lambda>c. CHR ''0'' \<le> c \<and> c \<le> CHR ''9'') (rev kept)
        in case before of
             [] \<Rightarrow> buffer
           | c # _ \<Rightarrow> if c = CHR ''.'' then take (length kept + 1) buffer else buffer)"

definition valueToString_double :: "'d floats \<Rightarrow> 'd \<Rightarrow> string" where
  "valueToString_double fl value = trim_zeroes (fl_print fl value)"

definition valueToString_bool :: "bool \<Rightarrow> string" where
  "valueToString_bool value = (if value then ''true'' else ''false'')"

definition hex_digit_char :: "nat \<Rightarrow> char" where
  "hex_digit_char d = (if d < 10 then char_of (48 + d) else char_of (55 + d))"

definition escape_char :: "char \<Rightarrow> string" where
  "escape_char c =
     (if c = CHR 0x22 then [CHR 0x5C, CHR 0x22]
      else if c = CHR 0x5C then [CHR 0x5C, CHR 0x5C]
      else if c = CHR 0x08 then [CHR 0x5C, CHR ''b'']
      else if c = CHR 0x0C then [CHR 0x5C, CHR ''f'']
      else if c = CHR 0x0A then [CHR 0x5C, CHR ''n'']
      else if c = CHR 0x0D then [CHR 0x5C, CHR ''r'']
      else if c = CHR 0x09 then [CHR 0x5C, CHR ''t'']
      else if isControlCharacter c then
        let n = of_char c :: nat in
        [CHR 0x5C, CHR ''u'', hex_digit_char (n div 4096 mod 16), hex_digit_char (n div 256 mod 16),
         hex_digit_char (n div 16 mod 16), hex_digit_char (n mod 16)]
      else [c])"

definition valueToQuotedString :: "string \<Rightarrow> string" where
  "valueToQuotedString value =
     (if (\<forall>c\<in>set value. c \<notin> {CHR 0x22, CHR 0x5C, CHR 0x08, CHR 0x0C, CHR 0x0A, CHR 0x0D, CHR 0x09}) \<and>
         (\<forall>c\<in>set value. \<not> isControlCharacter c)
      then CHR 0x22 # value @ [CHR 0x22]
      else CHR 0x22 # concat (map escape_char value) @ [CHR 0x22])"

fun join_text :: "string \<Rightarrow> string list \<Rightarrow> string" where
  "join_text sep [] = []"
| "join_text sep [x] = x"
| "join_text sep (x # y # ys) = x @ sep @ join_text sep (y # ys)"

section \<open>FastWriter\<close>

text \<open>The elements of an array by index, the missing ones null.\<close>

definition fill_gaps :: "(int \<times> string) list \<Rightarrow> string list" where
  "fill_gaps ws = map (om_at ''null'' ws) [0..(if ws = [] then -1 else fst (last ws))]"

lemma size_entry: "e \<in> set m \<Longrightarrow> size (snd e) < Suc (size_list (size_prod (\<lambda>x. 0) size) m)"
  by (induction m) (auto simp: prod.size_gen(1) split: prod.splits)

function writeValue :: "'d floats \<Rightarrow> bool \<Rightarrow> 'd JsonValue \<Rightarrow> string" where
  "writeValue fl yaml nullValue = ''null''"
| "writeValue fl yaml (intValue n) = valueToString_Int n"
| "writeValue fl yaml (uintValue n) = valueToString_UInt n"
| "writeValue fl yaml (realValue d) = valueToString_double fl d"
| "writeValue fl yaml (stringValue s) = valueToQuotedString s"
| "writeValue fl yaml (booleanValue b) = valueToString_bool b"
| "writeValue fl yaml (arrayValue m) =
     ''['' @ join_text '','' (fill_gaps (map (\<lambda>e. (fst e, writeValue fl yaml (snd e))) m)) @ '']''"
| "writeValue fl yaml (objectValue m) =
     [CHR 0x7B] @
     join_text '','' (map (\<lambda>e. valueToQuotedString (fst e) @ (if yaml then '': '' else '':'') @
                                writeValue fl yaml (snd e)) m) @ [CHR 0x7D]"
  by pat_completeness auto

termination writeValue
  by (relation "measure (\<lambda>(fl, yaml, v). size v)") (auto intro: size_entry)

definition FastWriter_write :: "'d floats \<Rightarrow> bool \<Rightarrow> 'd JsonValue \<Rightarrow> string" where
  "FastWriter_write fl yaml root = writeValue fl yaml root @ [CHR 0x0A]"

section \<open>StyledWriter\<close>

text \<open>The state of a writer: the document so far (for the stream writer, what it has put on the
  stream), the indentation and what one step of it is, and, while \<open>addChildValues\<close> is set, the texts
  collected instead of being written. The two classes have the same members, and \<open>sw_stream\<close> tells them
  apart; \<open>indentSize_\<close> of the first is as many blanks.\<close>

record Styled =
  sw_document :: string
  sw_indent :: string
  sw_children :: "string list"
  sw_add :: bool
  sw_unit :: string
  sw_stream :: bool

definition rightMargin :: int where "rightMargin = 74"
definition indentSize :: nat where "indentSize = 3"

definition pushValue :: "string \<Rightarrow> Styled \<Rightarrow> Styled" where
  "pushValue value st =
     (if sw_add st then st\<lparr>sw_children := sw_children st @ [value]\<rparr>
      else st\<lparr>sw_document := sw_document st @ value\<rparr>)"

definition writeIndent :: "Styled \<Rightarrow> Styled" where
  "writeIndent st =
     (let doc = sw_document st in
      if sw_stream st then st\<lparr>sw_document := doc @ CHR 0x0A # sw_indent st\<rparr>
      else if doc \<noteq> [] \<and> last doc = CHR '' '' then st
      else let doc1 = (if doc \<noteq> [] \<and> last doc \<noteq> CHR 0x0A then doc @ [CHR 0x0A] else doc)
           in st\<lparr>sw_document := doc1 @ sw_indent st\<rparr>)"

definition writeWithIndent :: "string \<Rightarrow> Styled \<Rightarrow> Styled" where
  "writeWithIndent value st = (let st1 = writeIndent st in st1\<lparr>sw_document := sw_document st1 @ value\<rparr>)"

definition sw_in :: "Styled \<Rightarrow> Styled" where
  "sw_in st = st\<lparr>sw_indent := sw_indent st @ sw_unit st\<rparr>"

definition sw_out :: "Styled \<Rightarrow> Styled" where
  "sw_out st = st\<lparr>sw_indent := take (length (sw_indent st) - length (sw_unit st)) (sw_indent st)\<rparr>"

definition write_text :: "string \<Rightarrow> Styled \<Rightarrow> Styled" where
  "write_text t st = st\<lparr>sw_document := sw_document st @ t\<rparr>"

text \<open>The elements of an array by index, as the constant \<open>operator[]\<close> yields them.\<close>

definition array_elements :: "(int \<times> 'd JsonValue) list \<Rightarrow> 'd JsonValue list" where
  "array_elements m = map (om_at nullValue m) [0..json_size (arrayValue m) - 1]"

definition has_children :: "'d JsonValue \<Rightarrow> bool" where
  "has_children v \<longleftrightarrow> (isArray v \<or> isObject v) \<and> json_size v > 0"

lemma size_om_at:
  assumes "m \<noteq> []"
  shows "size (om_at nullValue m i) < Suc (size_list (size_prod (\<lambda>x. 0) size) m)"
proof (cases "map_of m i")
  case None
  then show ?thesis using assms by (cases m) (simp_all add: om_at_def)
next
  case (Some v)
  then have "(i, v) \<in> set m" by (rule map_of_SomeD)
  then show ?thesis using size_entry [of "(i, v)" m] Some by (simp add: om_at_def)
qed

text \<open>
  \<open>writeArrayValue\<close> and \<open>isMultineArray\<close>: a long array, or one with a non-empty array or object in it,
  goes on several lines. Otherwise the elements, which are written by \<open>pushValue\<close> alone, are
  collected, and the array goes on several lines only when they are too long together. The
  collected texts are then used whichever way it goes.
\<close>

definition collect :: "('d JsonValue \<Rightarrow> Styled \<Rightarrow> Styled) \<Rightarrow> 'd JsonValue list \<Rightarrow> Styled \<Rightarrow> Styled" where
  "collect write_value vs st = (fold write_value vs (st\<lparr>sw_add := True\<rparr>))\<lparr>sw_add := False\<rparr>"

definition isMultineArray ::
  "('d JsonValue \<Rightarrow> Styled \<Rightarrow> Styled) \<Rightarrow> 'd JsonValue list \<Rightarrow> Styled \<Rightarrow> bool \<times> Styled" where
  "isMultineArray write_value vs st =
     (let st0 = st\<lparr>sw_children := []\<rparr> in
      if int (length vs) * 3 \<ge> rightMargin \<or> (\<exists>v\<in>set vs. has_children v) then (True, st0)
      else let st1 = collect write_value vs st0
           in (4 + (int (length vs) - 1) * 2 + (\<Sum>t\<leftarrow>take (length vs) (sw_children st1). int (length t))
                 \<ge> rightMargin, st1))"

fun write_lines :: "(Styled \<Rightarrow> Styled) list \<Rightarrow> Styled \<Rightarrow> Styled" where
  "write_lines [] st = st"
| "write_lines [f] st = f st"
| "write_lines (f # g # fs) st = write_lines (g # fs) (write_text '','' (f st))"

definition writeArrayValue ::
  "('d JsonValue \<Rightarrow> Styled \<Rightarrow> Styled) \<Rightarrow> 'd JsonValue list \<Rightarrow> Styled \<Rightarrow> Styled" where
  "writeArrayValue write_value vs st =
     (if vs = [] then pushValue ''[]'' st
      else
        let (multi, st1) = isMultineArray write_value vs st in
        if multi then
          let st2 = sw_in (writeWithIndent ''['' st1);
              lines = (if sw_children st2 \<noteq> [] then map writeWithIndent (sw_children st2)
                       else map (\<lambda>v st. write_value v (writeIndent st)) vs)
          in writeWithIndent '']'' (sw_out (write_lines lines st2))
        else write_text (''[ '' @ join_text '', '' (sw_children st1) @ '' ]'') st1)"

lemma isMultineArray_cong:
  assumes "\<And>v s. v \<in> set vs \<Longrightarrow> f v s = g v s"
  shows "isMultineArray f vs st = isMultineArray g vs st"
proof -
  have "collect f vs s = collect g vs s" for s
    unfolding collect_def using assms by (intro arg_cong [where f = "sw_add_update _"] fold_cong) auto
  then show ?thesis by (simp add: isMultineArray_def Let_def)
qed

lemma writeArrayValue_cong [fundef_cong]:
  assumes "vs = vs'" "st = st'" "\<And>v s. v \<in> set vs' \<Longrightarrow> f v s = g v s"
  shows "writeArrayValue f vs st = writeArrayValue g vs' st'"
proof -
  have "isMultineArray f vs' st' = isMultineArray g vs' st'"
    using assms(3) by (rule isMultineArray_cong)
  moreover have "map (\<lambda>v st. f v (writeIndent st)) vs' = map (\<lambda>v st. g v (writeIndent st)) vs'"
    using assms(3) by auto
  ultimately show ?thesis unfolding assms(1,2) writeArrayValue_def by (simp only:)
qed

function styled_value :: "'d floats \<Rightarrow> 'd JsonValue \<Rightarrow> Styled \<Rightarrow> Styled" where
  "styled_value fl nullValue st = pushValue ''null'' st"
| "styled_value fl (intValue n) st = pushValue (valueToString_Int n) st"
| "styled_value fl (uintValue n) st = pushValue (valueToString_UInt n) st"
| "styled_value fl (realValue d) st = pushValue (valueToString_double fl d) st"
| "styled_value fl (stringValue s) st = pushValue (valueToQuotedString s) st"
| "styled_value fl (booleanValue b) st = pushValue (valueToString_bool b) st"
| "styled_value fl (arrayValue m) st = writeArrayValue (styled_value fl) (array_elements m) st"
| "styled_value fl (objectValue m) st =
     (if m = [] then pushValue [CHR 0x7B, CHR 0x7D] st
      else writeWithIndent [CHR 0x7D] (sw_out (write_lines
             (map (\<lambda>e st. styled_value fl (snd e)
                     (write_text '' : '' (writeWithIndent (valueToQuotedString (fst e)) st))) m)
             (sw_in (writeWithIndent [CHR 0x7B] st)))))"
  by pat_completeness auto

termination styled_value
proof (relation "measure (\<lambda>(fl, v, st). size v)", goal_cases)
  case (2 fl m st v s)
  then obtain i where "v = om_at nullValue m i" "m \<noteq> []" by (cases m) (auto simp: array_elements_def)
  then show ?case using size_om_at [of m i] by simp
qed (auto intro: size_entry)

definition StyledWriter_write :: "'d floats \<Rightarrow> 'd JsonValue \<Rightarrow> string" where
  "StyledWriter_write fl root =
     sw_document (styled_value fl root \<lparr>sw_document = [], sw_indent = [], sw_children = [], sw_add = False,
       sw_unit = replicate indentSize (CHR '' ''), sw_stream = False\<rparr>) @ [CHR 0x0A]"

section \<open>StyledStreamWriter\<close>

text \<open>The methods of the second class, which are those of the first but for \<open>writeIndent\<close>: it does not look at
  what is on the stream already.\<close>

definition stream_pushValue :: "string \<Rightarrow> Styled \<Rightarrow> Styled" where
  "stream_pushValue value st =
     (if sw_add st then st\<lparr>sw_children := sw_children st @ [value]\<rparr>
      else st\<lparr>sw_document := sw_document st @ value\<rparr>)"

definition stream_writeIndent :: "Styled \<Rightarrow> Styled" where
  "stream_writeIndent st = st\<lparr>sw_document := sw_document st @ CHR 0x0A # sw_indent st\<rparr>"

definition stream_writeWithIndent :: "string \<Rightarrow> Styled \<Rightarrow> Styled" where
  "stream_writeWithIndent value st =
     (let st1 = stream_writeIndent st in st1\<lparr>sw_document := sw_document st1 @ value\<rparr>)"

definition stream_indent :: "Styled \<Rightarrow> Styled" where
  "stream_indent st = st\<lparr>sw_indent := sw_indent st @ sw_unit st\<rparr>"

definition stream_unindent :: "Styled \<Rightarrow> Styled" where
  "stream_unindent st = st\<lparr>sw_indent := take (length (sw_indent st) - length (sw_unit st)) (sw_indent st)\<rparr>"

definition stream_isMultineArray ::
  "('d JsonValue \<Rightarrow> Styled \<Rightarrow> Styled) \<Rightarrow> 'd JsonValue list \<Rightarrow> Styled \<Rightarrow> bool \<times> Styled" where
  "stream_isMultineArray write_value vs st =
     (let st0 = st\<lparr>sw_children := []\<rparr> in
      if int (length vs) * 3 \<ge> rightMargin \<or> (\<exists>v\<in>set vs. has_children v) then (True, st0)
      else let st1 = collect write_value vs st0
           in (4 + (int (length vs) - 1) * 2 + (\<Sum>t\<leftarrow>take (length vs) (sw_children st1). int (length t))
                 \<ge> rightMargin, st1))"

definition stream_writeArrayValue ::
  "('d JsonValue \<Rightarrow> Styled \<Rightarrow> Styled) \<Rightarrow> 'd JsonValue list \<Rightarrow> Styled \<Rightarrow> Styled" where
  "stream_writeArrayValue write_value vs st =
     (if vs = [] then stream_pushValue ''[]'' st
      else
        let (multi, st1) = stream_isMultineArray write_value vs st in
        if multi then
          let st2 = stream_indent (stream_writeWithIndent ''['' st1);
              lines = (if sw_children st2 \<noteq> [] then map stream_writeWithIndent (sw_children st2)
                       else map (\<lambda>v st. write_value v (stream_writeIndent st)) vs)
          in stream_writeWithIndent '']'' (stream_unindent (write_lines lines st2))
        else write_text (''[ '' @ join_text '', '' (sw_children st1) @ '' ]'') st1)"

lemma stream_isMultineArray_eq: "stream_isMultineArray = isMultineArray"
  by (simp add: fun_eq_iff stream_isMultineArray_def isMultineArray_def)

lemma stream_writeArrayValue_cong [fundef_cong]:
  assumes "vs = vs'" "st = st'" "\<And>v s. v \<in> set vs' \<Longrightarrow> f v s = g v s"
  shows "stream_writeArrayValue f vs st = stream_writeArrayValue g vs' st'"
proof -
  have "isMultineArray f vs' st' = isMultineArray g vs' st'"
    using assms(3) by (rule isMultineArray_cong)
  moreover have "map (\<lambda>v st. f v (stream_writeIndent st)) vs' = map (\<lambda>v st. g v (stream_writeIndent st)) vs'"
    using assms(3) by auto
  ultimately show ?thesis unfolding assms(1,2) stream_writeArrayValue_def stream_isMultineArray_eq by (simp only:)
qed

function stream_value :: "'d floats \<Rightarrow> 'd JsonValue \<Rightarrow> Styled \<Rightarrow> Styled" where
  "stream_value fl nullValue st = stream_pushValue ''null'' st"
| "stream_value fl (intValue n) st = stream_pushValue (valueToString_Int n) st"
| "stream_value fl (uintValue n) st = stream_pushValue (valueToString_UInt n) st"
| "stream_value fl (realValue d) st = stream_pushValue (valueToString_double fl d) st"
| "stream_value fl (stringValue s) st = stream_pushValue (valueToQuotedString s) st"
| "stream_value fl (booleanValue b) st = stream_pushValue (valueToString_bool b) st"
| "stream_value fl (arrayValue m) st = stream_writeArrayValue (stream_value fl) (array_elements m) st"
| "stream_value fl (objectValue m) st =
     (if m = [] then stream_pushValue [CHR 0x7B, CHR 0x7D] st
      else stream_writeWithIndent [CHR 0x7D] (stream_unindent (write_lines
             (map (\<lambda>e st. stream_value fl (snd e)
                     (write_text '' : '' (stream_writeWithIndent (valueToQuotedString (fst e)) st))) m)
             (stream_indent (stream_writeWithIndent [CHR 0x7B] st)))))"
  by pat_completeness auto

termination stream_value
proof (relation "measure (\<lambda>(fl, v, st). size v)", goal_cases)
  case (2 fl m st v s)
  then obtain i where "v = om_at nullValue m i" "m \<noteq> []" by (cases m) (auto simp: array_elements_def)
  then show ?case using size_om_at [of m i] by simp
qed (auto intro: size_entry)

definition StyledStreamWriter_write :: "'d floats \<Rightarrow> string \<Rightarrow> 'd JsonValue \<Rightarrow> string" where
  "StyledStreamWriter_write fl indentation root =
     sw_document (stream_value fl root \<lparr>sw_document = [], sw_indent = [], sw_children = [], sw_add = False,
       sw_unit = indentation, sw_stream = True\<rparr>) @ [CHR 0x0A]"

text \<open>\<open>operator<<\<close> indents with tabs.\<close>

definition json_print :: "'d floats \<Rightarrow> 'd JsonValue \<Rightarrow> string" where
  "json_print fl root = StyledStreamWriter_write fl [CHR 0x09] root"

end
