(* ===== verification/Helpers.thy ===== *)
theory Helpers
  imports DBServer Config_Files Json_Writer
begin

text \<open>
  The two programs under \<open>src/Tool/Helper\<close>, which stand beside the servers: \<open>SqlHelper.cpp\<close>, which tries out MySQL
  and Redis, and \<open>JsonHelper.cpp\<close>, which prints a part of a configuration file. The client libraries are the
  argument \<open>dbms\<close> of theory \<open>DBServer\<close>; what is sent to them is kept in a log, and what the programs print
  is a result.
\<close>

section \<open>MySQL\<close>

record MysqlInst =
  my_handle :: bool
  my_calls :: nat
  my_log :: "string list"

definition MysqlInst_new :: "dbms \<Rightarrow> MysqlInst" where
  "MysqlInst_new d = \<lparr>my_handle = True, my_calls = 0, my_log = []\<rparr>"

definition inst_query :: "dbms \<Rightarrow> string \<Rightarrow> MysqlInst \<Rightarrow> bool \<times> MysqlInst" where
  "inst_query d sql s =
     (my_query d (my_calls s) (c_str sql),
      s\<lparr>my_calls := Suc (my_calls s), my_log := my_log s @ [c_str sql]\<rparr>)"

text \<open>The loop over the map: the flag says whether something has been appended before.\<close>

fun insert_loop :: "bool \<Rightarrow> string \<Rightarrow> string list \<Rightarrow> string" where
  "insert_loop first sql [] = sql"
| "insert_loop first sql (x # xs) =
     (if \<not> first then insert_loop True (sql @ x) xs else insert_loop first (sql @ '', '' @ x) xs)"

text \<open>\<open>objs\<close> is a map, in the order of its keys. The name of the table is overwritten.\<close>

definition insert_statement :: "string \<Rightarrow> (string \<times> string) list \<Rightarrow> string" where
  "insert_statement tablename0 objs =
     (let tablename = ''user'';
          sql1 = insert_loop False (''insert into '' @ tablename @ '' ('') (map fst objs);
          sql2 = insert_loop False (sql1 @ '') VALUES ('') (map (\<lambda>e. quote @ snd e @ quote) objs)
      in sql2 @ '')'')"

definition MysqlInst_Insert :: "dbms \<Rightarrow> string \<Rightarrow> (string \<times> string) list \<Rightarrow> MysqlInst \<Rightarrow> bool \<times> MysqlInst" where
  "MysqlInst_Insert d tablename objs s = inst_query d (insert_statement tablename objs) s"

text \<open>The first column of the first row; no test for a result without rows.\<close>

definition first_column :: "string option list list \<Rightarrow> string res" where
  "first_column rows = (case rows of [] \<Rightarrow> Inl NullDeref | row # _ \<Rightarrow> column row 0)"

definition MysqlInst_test :: "dbms \<Rightarrow> string \<Rightarrow> MysqlInst \<Rightarrow> (string \<times> MysqlInst) res" where
  "MysqlInst_test d username s =
     (let sql = ''select passwd from user where username = '' @ quote @ username @ quote;
          (ok, s1) = inst_query d sql s
      in if \<not> ok then Inr (''Error'', s1)
         else case my_store d (my_calls s) (c_str sql) of
                None \<Rightarrow> Inr (''Error'', s1)
              | Some rows \<Rightarrow> bindF (first_column rows) (\<lambda>c. Inr (c, s1)))"

definition getRow :: "dbms \<Rightarrow> string \<Rightarrow> MysqlInst \<Rightarrow> (int \<times> MysqlInst) res" where
  "getRow d tablename s =
     (let sql = ''SELECT COUNT(*) FROM '' @ tablename; (ok, s1) = inst_query d sql s in
      if \<not> ok then Inr (-1, s1)
      else case my_store d (my_calls s) (c_str sql) of
             None \<Rightarrow> Inr (-1, s1)
           | Some rows \<Rightarrow> bindF (first_column rows) (\<lambda>c. bindF (atoi c) (\<lambda>n. Inr (n, s1))))"

definition SqlHelper_main :: "dbms \<Rightarrow> ((int \<times> string) \<times> MysqlInst) res" where
  "SqlHelper_main d =
     bindF (getRow d ''user'' (MysqlInst_new d)) (\<lambda>(rows, s1).
     bindF (MysqlInst_test d ''123'' s1) (\<lambda>(passwd, s2). Inr ((rows, passwd), s2)))"

section \<open>Redis\<close>

record RedisInst =
  rd_handle :: bool
  rd_calls :: nat
  rd_log :: "string list list"

definition inst_command :: "dbms \<Rightarrow> string list \<Rightarrow> RedisInst \<Rightarrow> redis_reply option \<times> RedisInst" where
  "inst_command d args s =
     (rd_command d (rd_calls s) args, s\<lparr>rd_calls := Suc (rd_calls s), rd_log := rd_log s @ [args]\<rparr>)"

text \<open>The reply to \<open>AUTH\<close> is followed without a test.\<close>

definition RedisInst_new :: "dbms \<Rightarrow> string \<Rightarrow> RedisInst res" where
  "RedisInst_new d redis_password =
     (let s = \<lparr>rd_handle = True, rd_calls = 0, rd_log = []\<rparr> in
      if \<not> rd_connect d then Inr s
      else let (reply, s1) = inst_command d [''AUTH'', redis_password] s in
        case reply of None \<Rightarrow> Inl NullDeref | Some r \<Rightarrow> Inr s1)"

definition RedisInst_Insert :: "dbms \<Rightarrow> string \<Rightarrow> string \<Rightarrow> int \<Rightarrow> RedisInst \<Rightarrow> RedisInst" where
  "RedisInst_Insert d key value ttl s =
     (let (reply, s1) = inst_command d [''set'', c_str key, c_str value] s in
      case reply of
        None \<Rightarrow> s1
      | Some r \<Rightarrow> snd (inst_command d [''EXPIRE'', c_str key, decimal ttl] s1))"

section \<open>JSON\<close>

text \<open>What \<open>ReadJson\<close> prints of a file: the members of \<open>CENTER_SERVER\<close>, each after its name, in the notation of
  \<open>operator<<\<close>.\<close>

fun print_members :: "'d floats \<Rightarrow> 'd JsonValue \<Rightarrow> string list \<Rightarrow> string json" where
  "print_members fl v [] = Inr ''''"
| "print_members fl v (k # ks) =
     json_bind (json_member v k) (\<lambda>x.
     json_bind (print_members fl v ks) (\<lambda>out. Inr (k @ '':'' @ json_print fl x @ CHR 0x0A # out)))"

definition ReadJson :: "'d floats \<Rightarrow> json_file \<Rightarrow> string json" where
  "ReadJson fl file =
     (case file of
        None \<Rightarrow> Inr (''Error opening'' @ [CHR 0x0A])
      | Some input \<Rightarrow>
          (case parse_stream fl Features_all input nullValue of
             Inl f \<Rightarrow> Inl (JsonFault f)
           | Inr (ok, root, reader) \<Rightarrow>
               if \<not> ok then Inr ''''
               else
                 json_bind (resolveReference ''CENTER_SERVER'' root) (\<lambda>root1.
                 json_bind (json_member root1 ''CENTER_SERVER'') (\<lambda>center.
                 json_bind (getMemberNames center) (\<lambda>keys.
                   if int (length keys) < json_size center then Inl (JsonFault OutOfBounds)
                   else print_members fl center (take (nat (json_size center)) keys))))))"

section \<open>What the statements are\<close>

lemma insert_loop_join: "insert_loop True sql xs = sql @ concat (map (\<lambda>x. '', '' @ x) xs)"
  by (induction xs arbitrary: sql) simp_all

lemma insert_loop_text: "insert_loop False sql xs = sql @ join_text '', '' xs"
proof -
  have join: "x @ concat (map (\<lambda>x. '', '' @ x) xs) = join_text '', '' (x # xs)" for x xs
  proof (induction xs arbitrary: x)
    case (Cons y ys)
    have "x @ concat (map (\<lambda>x. '', '' @ x) (y # ys)) = x @ '', '' @ (y @ concat (map (\<lambda>x. '', '' @ x) ys))" by simp
    also have "\<dots> = x @ '', '' @ join_text '', '' (y # ys)" by (simp only: Cons.IH)
    finally show ?case by simp
  qed simp
  show ?thesis
  proof (cases xs)
    case (Cons y ys)
    show ?thesis unfolding Cons by (simp add: insert_loop_join join [symmetric])
  qed simp
qed

text \<open>The statement \<open>Insert\<close> sends is always about the table \<open>user\<close>, whichever table it is asked for; names and
  values are put between commas in the order of the names, the values in quotation marks but not escaped,
  so that two different rows can give one statement.\<close>

theorem insert_statement_text:
  "my_log (snd (MysqlInst_Insert d tablename objs s)) = my_log s @ [c_str (''insert into user ('' @
       join_text '', '' (map fst objs) @ '') VALUES ('' @ join_text '', '' (map (\<lambda>e. quote @ snd e @ quote) objs) @ '')'')] \<and>
   insert_statement t1 [(a, x), (b, y)] = insert_statement t2 [(a @ '', '' @ b, x @ quote @ '', '' @ quote @ y)]"
  by (simp add: MysqlInst_Insert_def inst_query_def insert_statement_def insert_loop_text)

text \<open>Every key inserted without a time to live gets one of -1 seconds.\<close>

lemma redis_insert_default:
  assumes "rd_command d (rd_calls s) [''set'', c_str key, c_str value] \<noteq> None"
  shows "rd_log (RedisInst_Insert d key value (-1) s) =
     rd_log s @ [[''set'', c_str key, c_str value], [''EXPIRE'', c_str key, ''-1'']]"
proof -
  have "std_to_string 1 = ''1''" by code_simp
  then show ?thesis using assms by (auto simp: RedisInst_Insert_def inst_command_def decimal_def)
qed

text \<open>An object is printed whole: the names and the members are as many.\<close>

lemma ReadJson_object:
  assumes "parse_stream fl Features_all input nullValue = Inr (True, root, r)" "root = objectValue ms"
    and "om_get ms ''CENTER_SERVER'' = Some (objectValue cs)" "\<forall>k\<in>set (om_keys cs). CHR 0x00 \<notin> set k" "distinct (om_keys cs)"
  shows "ReadJson fl (Some input) = Inr (concat (map (\<lambda>e. fst e @ '':'' @ json_print fl (snd e) @ [CHR 0x0A]) cs))"
proof -
  have print: "print_members fl (objectValue cs) (map fst es) =
      Inr (concat (map (\<lambda>e. fst e @ '':'' @ json_print fl (snd e) @ [CHR 0x0A]) es))" if "set es \<subseteq> set cs" for es
    using that
  proof (induction es)
    case (Cons e es)
    then have e: "e \<in> set cs" by simp
    have "c_str (fst e) = fst e" using assms(4) e by (force simp: om_keys_def intro!: c_str_clean)
    moreover have "om_at nullValue cs (fst e) = snd e"
      using assms(5) e by (intro om_at_Some map_of_is_SomeI) (simp_all add: om_keys_def)
    ultimately show ?case using Cons by simp
  qed simp
  have "c_str ''CENTER_SERVER'' = ''CENTER_SERVER''" by (simp add: c_str_def)
  then show ?thesis
    using assms(1-3) print [of cs] by (simp add: ReadJson_def om_has_def om_at_def om_keys_def)
qed

end
