(* ===== verification/Shutdown.thy ===== *)
theory Shutdown
  imports FuncServer Example_World
begin

text \<open>
  The end of a server object: the destructors of \<open>src/Source/ServerBase.cpp\<close> and \<open>src/Tool/EpollMgr.cpp\<close>. Those of the
  derived servers are empty, but for the database server, which closes its clients' handles. A destructor calls the virtual
  methods of its own class, so \<open>~ServerBase\<close> runs \<open>ServerBase::CloseServer\<close> for every kind of server, and
  \<open>FuncServer::CloseServer\<close> is called from nowhere.
\<close>

definition EpollMgr_delete :: "'a ServerBase_scheme \<Rightarrow> 'a ServerBase_scheme" where
  "EpollMgr_delete s = os_close (epoll_fd s) s"

definition ServerBase_delete :: "'a ServerBase_scheme \<Rightarrow> 'a ServerBase_scheme" where
  "ServerBase_delete s = ServerBase_CloseServer (EpollMgr_delete s)"

lemma net_log_close [simp]: "net_log (os_close fd s) = net_log s @ [OsClosed fd]"
  by (simp add: os_close_def net_do_def io_tick_def)

lemma fields_close [simp]: "listen_fd (os_close fd s) = listen_fd s" "epoll_fd (os_close fd s) = epoll_fd s"
  by (simp_all add: os_close_def net_do_def io_tick_def)

lemma ServerBase_delete_log:
  "listen_fd s > 0 \<Longrightarrow> net_log (ServerBase_delete s) = net_log s @ [OsClosed (epoll_fd s), OsClosed (listen_fd s)]"
  by (simp add: ServerBase_delete_def EpollMgr_delete_def ServerBase_CloseServer_def)

text \<open>When the loop ends it closes the epoll instance, and when a server does not get so far \<open>BootServer\<close> closes the
  listening socket.\<close>

lemma server_loop_closes:
  "server_loop n w v s = Inr (False, s') \<Longrightarrow> \<exists>t. s' = os_close (epoll_fd t) t"
proof (induction n arbitrary: s)
  case (Suc n)
  then obtain go s1 where "server_turn w v s = Inr (go, s1)"
    "(if go then server_loop n w v s1 else Inr (False, os_close (epoll_fd s1) s1)) = Inr (False, s')" by auto
  then show ?case using Suc.IH [of s1] by (cases go) auto
qed simp

text \<open>A server that ends closes a descriptor that its destructor closes once more, the epoll instance or the listening
  socket: whatever has got that number in between is closed with it.\<close>

theorem closed_twice:
  assumes "BootServer turns w v ip port name s = Inr (False, s')"
    and "fst (os_local_ips (w_os w) (io_clock s)) = ip \<or> snd (os_local_ips (w_os w) (io_clock s)) = ip" "listen_fd s' > 0"
  shows "\<exists>before fd. net_log s' = before @ [OsClosed fd] \<and> (fd = epoll_fd s' \<or> fd = listen_fd s') \<and>
     net_log (ServerBase_delete s') = net_log s' @ [OsClosed (epoll_fd s'), OsClosed (listen_fd s')]"
proof -
  have "\<exists>t. s' = os_close (epoll_fd t) t \<or> s' = os_close (listen_fd t) t"
  proof -
    obtain r s1 where s1: "StartListener w port (io_tick s) = (r, s1)" by (cases "StartListener w port (io_tick s)")
    let ?s2 = "s1\<lparr>listen_ip := ip, listen_port := port, listen_name := name\<rparr>"
    obtain e s3 where s3: "CreateEpoll w ?s2 = (e, s3)" by (cases "CreateEpoll w ?s2")
    obtain a s4 where s4: "AddEventToEpoll w (listen_fd s3) s3 = (a, s4)" by (cases "AddEventToEpoll w (listen_fd s3) s3")
    show ?thesis
      using assms(1,2) by (auto simp: BootServer_def s1 s3 s4 Let_def split: prod.splits if_splits dest!: server_loop_closes)
  qed
  then obtain t where "s' = os_close (epoll_fd t) t \<or> s' = os_close (listen_fd t) t" by blast
  then have "\<exists>before fd. net_log s' = before @ [OsClosed fd] \<and> (fd = epoll_fd s' \<or> fd = listen_fd s')" by auto
  then show ?thesis using ServerBase_delete_log [OF assms(3)] by blast
qed

text \<open>A machine on which the port is taken.\<close>

definition taken_world :: world where
  "taken_world = example_world\<lparr>w_os := example_os\<lparr>os_bind := (\<lambda>n port. False)\<rparr>\<rparr>"

theorem closed_twice_witness:
  "\<forall>v :: unit ServerBase_scheme virtuals. \<exists>s' before fd.
     BootServer 1 taken_world v (fst (os_local_ips example_os 0)) 80 '''' (ServerBase_new GATE) = Inr (False, s') \<and>
     net_log s' = before @ [OsClosed fd]"
proof
  fix v :: "unit ServerBase_scheme virtuals"
  obtain s' where s': "BootServer 1 taken_world v (fst (os_local_ips example_os 0)) 80 '''' (ServerBase_new GATE) = Inr (False, s')"
    "listen_fd s' > 0"
    by (simp add: BootServer_def taken_world_def StartListener_def ServerBase_new_def io_tick_def example_os_def os_close_def net_do_def Let_def)
  have "fst (os_local_ips (w_os taken_world) (io_clock (ServerBase_new GATE))) = fst (os_local_ips example_os 0)"
    by (simp add: taken_world_def ServerBase_new_def)
  from closed_twice [OF s'(1) _ s'(2)] this s'(1)
  show "\<exists>s' before fd. BootServer 1 taken_world v (fst (os_local_ips example_os 0)) 80 '''' (ServerBase_new GATE) = Inr (False, s') \<and>
     net_log s' = before @ [OsClosed fd]" by blast
qed

end
