(* ===== verification/Json_Roundtrip.thy ===== *)
theory Json_Roundtrip
  imports Json_Reader Json_Writer
begin

text \<open>
  What \<open>FastWriter\<close> writes, \<open>Reader\<close> reads back. \<open>plain\<close> says for which values: no floating-point
  numbers, integers that the reader does not take for floating-point ones, arrays without gaps,
  and no NUL in a text. The proof goes up from the digits and the escapes of a string to the
  loops over elements and members.
\<close>

fun plain :: "'d JsonValue \<Rightarrow> bool" where
  "plain (intValue n) \<longleftrightarrow> -2147483639 \<le> n \<and> n \<le> maxInt"
| "plain (uintValue n) \<longleftrightarrow> maxInt < n \<and> n \<le> 4294967289"
| "plain (realValue d) \<longleftrightarrow> False"
| "plain (stringValue s) \<longleftrightarrow> CHR 0x00 \<notin> set s"
| "plain (arrayValue m) \<longleftrightarrow> map fst m = [0..int (length m) - 1] \<and> (\<forall>e\<in>set m. plain (snd e))"
| "plain (objectValue m) \<longleftrightarrow> om_wf m \<and> (\<forall>e\<in>set m. CHR 0x00 \<notin> set (fst e) \<and> plain (snd e))"
| "plain _ \<longleftrightarrow> True"

section \<open>Numbers\<close>

lemma digit_chars: "d < 10 \<Longrightarrow> is_digit (digit_char d)" "d < 10 \<Longrightarrow> digit_value (digit_char d) = of_nat d"
proof -
  have "list_all (\<lambda>d. is_digit (digit_char d) \<and> digit_value (digit_char d) = of_nat d) [0..<10]" by code_simp
  then show "d < 10 \<Longrightarrow> is_digit (digit_char d)" "d < 10 \<Longrightarrow> digit_value (digit_char d) = of_nat d"
    by (simp_all add: list_all_iff)
qed

lemma unat_small: "n < 2 ^ 32 \<Longrightarrow> unat (of_nat n :: uint) = n"
  by (simp add: unat_of_nat)

lemma uintToString_digits: "\<forall>c\<in>set (uintToString n). is_digit c"
proof (induction n rule: uintToString.induct)
  case (1 n)
  then show ?case by (subst uintToString.simps) (auto simp: digit_chars)
qed

lemma uintToString_not_Nil [simp]: "uintToString n \<noteq> []"
  by (subst uintToString.simps) simp

lemma unat_bound: "unat (w :: uint) < 2 ^ 32"
  using unsigned_less [of w] by simp

lemma number_loop_append:
  "number_loop thr v (s @ t) =
     (case number_loop thr v s of Some (Some u) \<Rightarrow> number_loop thr u t | x \<Rightarrow> x)"
  by (induction thr v s rule: number_loop.induct) auto

lemma number_loop_uintToString:
  "n div 10 < unat thr \<Longrightarrow> number_loop thr 0 (uintToString n) = Some (Some (of_nat n))"
proof (induction n rule: uintToString.induct)
  case (1 n)
  have thr: "0 < thr" using "1.prems" by (simp add: word_less_nat_alt)
  show ?case
  proof (cases "n < 10")
    case True
    then show ?thesis using thr by (subst uintToString.simps) (simp add: digit_chars)
  next
    case False
    have "n div 10 div 10 < unat thr" using "1.prems" by simp
    then have IH: "number_loop thr 0 (uintToString (n div 10)) = Some (Some (of_nat (n div 10)))"
      using "1.IH" False by simp
    have "n div 10 < 2 ^ 32" using "1.prems" unat_bound [of thr] by simp
    then have "unat (of_nat (n div 10) :: uint) = n div 10" by (rule unat_small)
    then have less: "\<not> thr \<le> of_nat (n div 10)" using "1.prems" by (simp add: word_le_nat_alt)
    have "of_nat (n div 10) * 10 + of_nat (n mod 10) = (of_nat (n div 10 * 10 + n mod 10) :: uint)"
      by (simp only: of_nat_add of_nat_mult of_nat_numeral)
    then have "of_nat (n div 10) * 10 + of_nat (n mod 10) = (of_nat n :: uint)" by simp
    then show ?thesis
      using False less IH by (subst uintToString.simps) (simp add: number_loop_append digit_chars)
  qed
qed

definition ends_number :: "string \<Rightarrow> bool" where
  "ends_number s \<longleftrightarrow> s = [] \<or> \<not> (is_digit (hd s) \<or> hd s \<in> set ''.eE+-'')"

lemma readNumber_digits:
  assumes "\<forall>c\<in>set s. is_digit c" "ends_number rest"
  shows "readNumber (s @ rest) = rest"
proof -
  have "dropWhile (\<lambda>c. is_digit c \<or> c \<in> set ''.eE+-'') (s @ rest) =
      dropWhile (\<lambda>c. is_digit c \<or> c \<in> set ''.eE+-'') rest"
    using assms(1) by (intro dropWhile_append2) auto
  also have "\<dots> = rest"
    using assms(2) by (cases rest) (auto simp: ends_number_def)
  finally show ?thesis by (simp add: readNumber_def)
qed

section \<open>Tokens\<close>

lemma digit_no_space: "is_digit c \<Longrightarrow> \<not> is_space c"
  by (auto simp: is_digit_def is_space_def less_eq_char_def)

lemma skipSpaces_Cons: "\<not> is_space c \<Longrightarrow> skipSpaces (c # s) = c # s"
  by (simp add: skipSpaces_def)

lemma readToken_Cons:
  "\<not> is_space c \<Longrightarrow> readToken (c # s) =
     (case scan_token c s of (type, ok, s2) \<Rightarrow>
        (\<lparr>tk_type = (if ok then type else tokenError), tk_start = c # s, tk_end = s2\<rparr>, s2))"
  by (simp add: readToken_def skipSpaces_Cons)

lemma next_token_simple: "readToken s = (t, s1) \<Longrightarrow> tk_type t \<noteq> tokenComment \<Longrightarrow> next_token s = (t, s1)"
  by (subst next_token.simps) simp

lemma skipCommentTokens_simple:
  "readToken s = (t, s1) \<Longrightarrow> tk_type t \<noteq> tokenComment \<Longrightarrow> skipCommentTokens ft s = (t, s1)"
  by (simp add: skipCommentTokens_def next_token_simple)

lemma token_text_of: "tk_start t = s @ tk_end t \<Longrightarrow> token_text t = s"
  by (simp add: token_text_def)

section \<open>Strings\<close>

lemma valueToQuotedString_escapes:
  "valueToQuotedString s = CHR 0x22 # concat (map escape_char s) @ [CHR 0x22]"
proof -
  have "concat (map escape_char s) = s"
    if "\<forall>c\<in>set s. c \<notin> {CHR 0x22, CHR 0x5C, CHR 0x08, CHR 0x0C, CHR 0x0A, CHR 0x0D, CHR 0x09} \<and>
          \<not> isControlCharacter c"
    using that by (induction s) (auto simp: escape_char_def)
  then show ?thesis unfolding valueToQuotedString_def by auto
qed

lemma hex_digit_chars:
  assumes "d < 16"
  shows "hex_value (hex_digit_char d) = Some (of_nat d)" "hex_digit_char d \<noteq> CHR 0x22" "hex_digit_char d \<noteq> CHR 0x5C"
proof -
  have "list_all (\<lambda>d. hex_value (hex_digit_char d) = Some (of_nat d) \<and> hex_digit_char d \<noteq> CHR 0x22 \<and>
      hex_digit_char d \<noteq> CHR 0x5C) [0..<16]" by code_simp
  then show "hex_value (hex_digit_char d) = Some (of_nat d)" "hex_digit_char d \<noteq> CHR 0x22" "hex_digit_char d \<noteq> CHR 0x5C"
    using assms by (simp_all add: list_all_iff)
qed

lemma escape_control:
  assumes "isControlCharacter c" "c \<notin> {CHR 0x08, CHR 0x0C, CHR 0x0A, CHR 0x0D, CHR 0x09}"
  obtains a b where "escape_char c = [CHR 0x5C, CHR ''u'', CHR ''0'', CHR ''0'', hex_digit_char a, hex_digit_char b]"
    "a < 2" "b < 16" "c = char_of (16 * a + b)"
proof -
  define n where "n = (of_char c :: nat)"
  have lt: "n < 32"
    using assms(1) by (simp add: isControlCharacter_def less_eq_char_def n_def)
  then have d: "n div 4096 mod 16 = 0" "n div 256 mod 16 = 0" "n div 16 mod 16 = n div 16" by simp_all
  have "hex_digit_char 0 = CHR ''0''" by code_simp
  moreover have "c \<noteq> CHR 0x22" "c \<noteq> CHR 0x5C"
    using assms(1) by (auto simp: isControlCharacter_def less_eq_char_def)
  ultimately have "escape_char c =
      [CHR 0x5C, CHR ''u'', CHR ''0'', CHR ''0'', hex_digit_char (n div 16), hex_digit_char (n mod 16)]"
    using assms by (simp add: escape_char_def Let_def d flip: n_def)
  moreover have "c = char_of (16 * (n div 16) + n mod 16)" by (simp add: n_def)
  ultimately show ?thesis using lt that [of "n div 16" "n mod 16"] by simp
qed

lemma decode_control:
  assumes "a < 2" "b < 16" "n = 16 * a + b"
  shows "decodeUnicodeCodePoint (CHR ''0'' # CHR ''0'' # hex_digit_char a # hex_digit_char b # s) = Inr (of_nat n, s)"
    and "codePointToUTF8 (of_nat n) = [char_of n]"
proof -
  have z: "hex_value CHR ''0'' = Some 0" by code_simp
  have lt: "n < 32" using assms by simp
  then have un: "unat (of_nat n :: uint) = n" by (intro unat_small) simp
  have "(of_nat a :: uint) * 16 + of_nat b = of_nat n" using assms(3) by simp
  moreover have "\<not> (0xD800 :: uint) \<le> of_nat n" using un lt by (simp add: word_le_nat_alt)
  moreover have "hex_loop 4 0 (CHR ''0'' # CHR ''0'' # hex_digit_char a # hex_digit_char b # s) =
      Inr (of_nat a * 16 + of_nat b, s)"
    using assms hex_digit_chars(1) [of a] hex_digit_chars(1) [of b]
    by (simp add: z eval_nat_numeral)
  ultimately show "decodeUnicodeCodePoint (CHR ''0'' # CHR ''0'' # hex_digit_char a # hex_digit_char b # s) =
     Inr (of_nat n, s)"
    by (simp add: decodeUnicodeCodePoint_def decodeUnicodeEscapeSequence_def)
  show "codePointToUTF8 (of_nat n) = [char_of n]"
    using un lt by (simp add: codePointToUTF8_def byte_char_def word_le_nat_alt)
qed

lemma escape_char_cases:
  obtains (self) "escape_char c = [c]" "c \<noteq> CHR 0x22" "c \<noteq> CHR 0x5C"
  | (simple) e where "escape_char c = [CHR 0x5C, e]" "simple_escape e = Some c"
  | (hex) a b where "escape_char c = [CHR 0x5C, CHR ''u'', CHR ''0'', CHR ''0'', hex_digit_char a, hex_digit_char b]"
      "a < 2" "b < 16" "c = char_of (16 * a + b)"
proof (cases "c \<in> {CHR 0x22, CHR 0x5C, CHR 0x08, CHR 0x0C, CHR 0x0A, CHR 0x0D, CHR 0x09}")
  case True
  then have "\<exists>e. escape_char c = [CHR 0x5C, e] \<and> simple_escape e = Some c"
    by (elim insertE emptyE) (simp_all add: escape_char_def simple_escape_def)
  then show ?thesis using simple by blast
next
  case False
  then show ?thesis
  proof (cases "isControlCharacter c")
    case True
    have "c \<notin> {CHR 0x08, CHR 0x0C, CHR 0x0A, CHR 0x0D, CHR 0x09}" using False by simp
    then show ?thesis by (rule escape_control [OF True]) (rule hex)
  next
    case no: False
    then show ?thesis using False self by (auto simp: escape_char_def)
  qed
qed

lemma readString_escape: "readString (escape_char c @ s) = readString s"
proof (cases c rule: escape_char_cases)
  case (hex a b)
  then have "a < 16" by simp
  then show ?thesis using hex hex_digit_chars(2,3) [of a] hex_digit_chars(2,3) [of b] by simp
qed auto

lemma readString_escapes: "readString (concat (map escape_char s) @ CHR 0x22 # rest) = (True, rest)"
  by (induction s) (simp_all add: readString_escape)

lemma decode_body_escape: "decode_body (escape_char c @ s) = map_sum id ((#) c) (decode_body s)"
proof (cases c rule: escape_char_cases)
  case (hex a b)
  obtain n where n: "n = 16 * a + b" by blast
  have "simple_escape CHR ''u'' = None" by (simp add: simple_escape_def)
  moreover have "(@) [char_of n] = (#) (char_of n)" by (rule ext) simp
  ultimately show ?thesis
    unfolding hex(1) using decode_control [OF hex(2,3) n] by (simp add: hex(4) flip: n)
qed auto

lemma decode_body_escapes: "decode_body (concat (map escape_char s)) = Inr s"
  by (induction s) (simp_all add: decode_body_escape)

lemma string_token:
  "readToken (valueToQuotedString s @ rest) =
     (\<lparr>tk_type = tokenString, tk_start = valueToQuotedString s @ rest, tk_end = rest\<rparr>, rest)"
  by (simp add: valueToQuotedString_escapes readToken_Cons is_space_def scan_token_def readString_escapes)

lemma decodeString_token:
  "decodeString \<lparr>tk_type = tokenString, tk_start = valueToQuotedString s @ rest, tk_end = rest\<rparr> = Inr s"
proof -
  have "token_text \<lparr>tk_type = tokenString, tk_start = valueToQuotedString s @ rest, tk_end = rest\<rparr> = valueToQuotedString s"
    by (rule token_text_of) simp
  then show ?thesis
    by (simp add: decodeString_def valueToQuotedString_escapes decode_body_escapes)
qed

section \<open>Values\<close>

definition reads :: "'d floats \<Rightarrow> Features \<Rightarrow> 'd JsonValue \<Rightarrow> string \<Rightarrow> bool" where
  "reads fl ft v text \<longleftrightarrow>
     (\<forall>n rest v0 es. 2 * length text + 1 \<le> n \<longrightarrow> ends_number rest \<longrightarrow>
        readValue n fl ft v0 \<lparr>rd_current = text @ rest, rd_errors = es\<rparr> =
        Inr (True, v, \<lparr>rd_current = rest, rd_errors = es\<rparr>))"

lemma readsD:
  "reads fl ft v text \<Longrightarrow> 2 * length text + 1 \<le> n \<Longrightarrow> ends_number rest \<Longrightarrow>
     readValue n fl ft v0 \<lparr>rd_current = text @ rest, rd_errors = es\<rparr> =
     Inr (True, v, \<lparr>rd_current = rest, rd_errors = es\<rparr>)"
  by (simp add: reads_def)

text \<open>A value that is one token.\<close>

lemma readsI:
  assumes "\<And>rest. ends_number rest \<Longrightarrow> \<exists>t. readToken (text @ rest) = (t, rest) \<and> tk_type t \<noteq> tokenComment \<and>
     (\<forall>obj arr v0 es. value_body obj arr fl ft v0 \<lparr>rd_current = text @ rest, rd_errors = es\<rparr> =
        Inr (True, v, \<lparr>rd_current = rest, rd_errors = es\<rparr>))"
  shows "reads fl ft v text"
  unfolding reads_def
proof (intro allI impI)
  fix n rest v0 es
  assume n: "2 * length text + 1 \<le> n" and rest: "ends_number rest"
  then obtain k where "n = Suc k" by (cases n) auto
  moreover have "\<forall>obj arr v0 es. value_body obj arr fl ft v0 \<lparr>rd_current = text @ rest, rd_errors = es\<rparr> =
      Inr (True, v, \<lparr>rd_current = rest, rd_errors = es\<rparr>)"
    using assms [OF rest] by blast
  ultimately show "readValue n fl ft v0 \<lparr>rd_current = text @ rest, rd_errors = es\<rparr> =
      Inr (True, v, \<lparr>rd_current = rest, rd_errors = es\<rparr>)" by simp
qed

lemma readToken_words:
  "readToken (''null'' @ rest) = (\<lparr>tk_type = tokenNull, tk_start = ''null'' @ rest, tk_end = rest\<rparr>, rest)"
  "readToken (''true'' @ rest) = (\<lparr>tk_type = tokenTrue, tk_start = ''true'' @ rest, tk_end = rest\<rparr>, rest)"
  "readToken (''false'' @ rest) = (\<lparr>tk_type = tokenFalse, tk_start = ''false'' @ rest, tk_end = rest\<rparr>, rest)"
  by (simp_all add: readToken_Cons is_space_def scan_token_def is_digit_def match_text_def less_eq_char_def)

lemma reads_words:
  "reads fl ft nullValue ''null''" "reads fl ft (booleanValue b) (valueToString_bool b)"
proof -
  show "reads fl ft nullValue ''null''"
    using readToken_words(1) skipCommentTokens_simple [OF readToken_words(1), of _ ft]
    by (intro readsI) (auto simp: value_body_def)
  show "reads fl ft (booleanValue b) (valueToString_bool b)"
    using readToken_words(2,3) skipCommentTokens_simple [OF readToken_words(2), of _ ft]
      skipCommentTokens_simple [OF readToken_words(3), of _ ft]
    by (intro readsI; cases b) (auto simp: value_body_def valueToString_bool_def)
qed

lemma reads_string:
  assumes "CHR 0x00 \<notin> set s"
  shows "reads fl ft (stringValue s) (valueToQuotedString s)"
  using string_token [of s] skipCommentTokens_simple [OF string_token, of s _ ft] assms
  by (intro readsI) (auto simp: value_body_def decodeString_token c_str_clean)

subsection \<open>Integers\<close>

lemma number_token:
  assumes "text = uintToString n \<or> text = CHR ''-'' # uintToString n" "ends_number rest"
  shows "readToken (text @ rest) = (\<lparr>tk_type = tokenNumber, tk_start = text @ rest, tk_end = rest\<rparr>, rest)"
proof -
  obtain c ds where cds: "uintToString n = c # ds" by (cases "uintToString n") auto
  then have d: "is_digit c" "\<forall>c\<in>set ds. is_digit c" using uintToString_digits [of n] by auto
  have num: "readNumber (ds @ rest) = rest" "readNumber (c # ds @ rest) = rest"
    using readNumber_digits [of ds rest] readNumber_digits [of "c # ds" rest] d assms(2) by simp_all
  have scan: "scan_token c s = (tokenNumber, True, readNumber s)" if "is_digit c" for c s
    using that by (auto simp: scan_token_def is_digit_def less_eq_char_def)
  have minus: "scan_token (CHR ''-'') s = (tokenNumber, True, readNumber s)" "\<not> is_space (CHR ''-'')" for s
    by (simp_all add: scan_token_def is_digit_def is_space_def)
  show ?thesis
    using assms(1) d num digit_no_space [OF d(1)]
    by (auto simp: cds readToken_Cons scan minus)
qed

lemma not_double:
  assumes "text = uintToString n \<or> text = CHR ''-'' # uintToString n"
  shows "\<not> looks_like_double text"
proof -
  have "CHR ''.'' \<notin> set (uintToString n)" "CHR ''e'' \<notin> set (uintToString n)" "CHR ''E'' \<notin> set (uintToString n)"
    "CHR ''+'' \<notin> set (uintToString n)" "CHR ''-'' \<notin> set (uintToString n)"
    using uintToString_digits [of n] by (auto simp: is_digit_def less_eq_char_def)
  moreover from this(5) have "CHR ''-'' \<notin> set (tl (uintToString n))" by (cases "uintToString n") auto
  ultimately show ?thesis using assms by (auto simp: looks_like_double_def)
qed

lemma peek_digits: "peek_char (uintToString n) \<noteq> CHR ''-''"
  using uintToString_digits [of n]
  by (cases "uintToString n") (auto simp: peek_char_def is_digit_def less_eq_char_def)

lemma decode_digits:
  assumes "n \<le> 4294967289"
  shows "decodeNumber fl \<lparr>tk_type = tokenNumber, tk_start = uintToString n @ rest, tk_end = rest\<rparr> =
     Inr (Inr (if int n \<le> maxInt then intValue (int n) else uintValue (int n)))"
proof -
  have t: "token_text \<lparr>tk_type = tokenNumber, tk_start = uintToString n @ rest, tk_end = rest\<rparr> = uintToString n"
    by (rule token_text_of) simp
  have thr: "(word_of_int maxUInt div 10 :: uint) = 429496729" by (simp add: maxUInt_def)
  have "number_loop 429496729 0 (uintToString n) = Some (Some (of_nat n))"
    using assms by (intro number_loop_uintToString) simp
  moreover have "unat (of_nat n :: uint) = n" using assms by (intro unat_small) simp
  moreover from this have "(of_nat n :: uint) \<le> word_of_int maxInt \<longleftrightarrow> int n \<le> maxInt"
    by (simp add: word_le_nat_alt maxInt_def)
  moreover have "int n \<le> maxInt \<Longrightarrow> sint (of_nat n :: uint) = int n"
    by (simp add: maxInt_def sint_uint uint_nat signed_take_bit_int_eq_self unat_of_nat)
  ultimately show ?thesis
    using peek_digits [of n] not_double [of "uintToString n" n]
    by (simp add: decodeNumber_def t thr uint_nat Let_def)
qed

lemma decode_negative:
  assumes "n \<le> 2147483639"
  shows "decodeNumber fl \<lparr>tk_type = tokenNumber, tk_start = CHR ''-'' # uintToString n @ rest, tk_end = rest\<rparr> =
     Inr (Inr (intValue (- int n)))"
proof -
  have t: "token_text \<lparr>tk_type = tokenNumber, tk_start = CHR ''-'' # uintToString n @ rest, tk_end = rest\<rparr> =
      CHR ''-'' # uintToString n"
    by (rule token_text_of) simp
  have thr: "(- word_of_int minInt div 10 :: uint) = 214748364" by (simp add: minInt_def)
  have "number_loop 214748364 0 (uintToString n) = Some (Some (of_nat n))"
    using assms by (intro number_loop_uintToString) simp
  moreover have "sint (of_nat n :: uint) = int n"
    using assms by (simp add: sint_uint uint_nat signed_take_bit_int_eq_self unat_of_nat)
  moreover have "peek_char (CHR ''-'' # uintToString n) = CHR ''-''" by (simp add: peek_char_def)
  ultimately show ?thesis
    using not_double [of "CHR ''-'' # uintToString n" n]
    by (simp add: decodeNumber_def t thr Let_def)
qed

lemma reads_number:
  assumes "text = uintToString n \<or> text = CHR ''-'' # uintToString n"
    and "\<And>rest. decodeNumber fl \<lparr>tk_type = tokenNumber, tk_start = text @ rest, tk_end = rest\<rparr> = Inr (Inr v)"
  shows "reads fl ft v text"
  using number_token [OF assms(1)] skipCommentTokens_simple [OF number_token [OF assms(1)], of _ ft] assms(2)
  by (intro readsI) (auto simp: value_body_def)

lemma reads_int:
  assumes "-2147483639 \<le> n" "n \<le> maxInt"
  shows "reads fl ft (intValue n) (valueToString_Int n)"
proof (cases "n < 0")
  case True
  obtain k where k: "n = - int k" "k \<le> 2147483639"
    using True assms(1) by (intro that [of "nat (- n)"]) auto
  then have "unat (- word_of_int n :: uint) = k" by (simp add: unat_small)
  then show ?thesis
    using True k by (auto simp: valueToString_Int_def intro!: reads_number decode_negative)
next
  case False
  then obtain k where k: "n = int k" by (intro that [of "nat n"]) auto
  then have "unat (word_of_int n :: uint) = k" using assms(2) by (simp add: unat_small maxInt_def)
  then show ?thesis
    using False k assms(2) decode_digits [of k fl]
    by (auto simp: valueToString_Int_def maxInt_def intro!: reads_number)
qed

lemma reads_uint:
  assumes "maxInt < n" "n \<le> 4294967289"
  shows "reads fl ft (uintValue n) (valueToString_UInt n)"
proof -
  obtain k where k: "n = int k" using assms(1) by (intro that [of "nat n"]) (auto simp: maxInt_def)
  then have "unat (word_of_int n :: uint) = k" using assms(2) by (simp add: unat_small)
  then show ?thesis
    using k assms decode_digits [of k fl]
    by (auto simp: valueToString_UInt_def intro!: reads_number)
qed

subsection \<open>Arrays and objects\<close>

lemma om_upd_last: "\<forall>k\<in>fst ` set m. k < i \<Longrightarrow> om_upd i v m = m @ [(i, v)]"
  by (induction i v m rule: om_upd.induct) auto

lemma punctuation:
  "next_token (CHR '']'' # s) = (\<lparr>tk_type = tokenArrayEnd, tk_start = CHR '']'' # s, tk_end = s\<rparr>, s)"
  "next_token (CHR 0x7D # s) = (\<lparr>tk_type = tokenObjectEnd, tk_start = CHR 0x7D # s, tk_end = s\<rparr>, s)"
  "next_token (CHR '','' # s) = (\<lparr>tk_type = tokenArraySeparator, tk_start = CHR '','' # s, tk_end = s\<rparr>, s)"
  "readToken (CHR 0x7D # s) = (\<lparr>tk_type = tokenObjectEnd, tk_start = CHR 0x7D # s, tk_end = s\<rparr>, s)"
  "readToken (CHR '','' # s) = (\<lparr>tk_type = tokenArraySeparator, tk_start = CHR '','' # s, tk_end = s\<rparr>, s)"
  "readToken (CHR '':'' # s) = (\<lparr>tk_type = tokenMemberSeparator, tk_start = CHR '':'' # s, tk_end = s\<rparr>, s)"
  "readToken (CHR '']'' # s) = (\<lparr>tk_type = tokenArrayEnd, tk_start = CHR '']'' # s, tk_end = s\<rparr>, s)"
proof -
  show t: "readToken (CHR 0x7D # s) = (\<lparr>tk_type = tokenObjectEnd, tk_start = CHR 0x7D # s, tk_end = s\<rparr>, s)"
    "readToken (CHR '','' # s) = (\<lparr>tk_type = tokenArraySeparator, tk_start = CHR '','' # s, tk_end = s\<rparr>, s)"
    "readToken (CHR '']'' # s) = (\<lparr>tk_type = tokenArrayEnd, tk_start = CHR '']'' # s, tk_end = s\<rparr>, s)"
    "readToken (CHR '':'' # s) = (\<lparr>tk_type = tokenMemberSeparator, tk_start = CHR '':'' # s, tk_end = s\<rparr>, s)"
    by (simp_all add: readToken_Cons is_space_def scan_token_def is_digit_def less_eq_char_def)
  show "next_token (CHR '']'' # s) = (\<lparr>tk_type = tokenArrayEnd, tk_start = CHR '']'' # s, tk_end = s\<rparr>, s)"
    "next_token (CHR 0x7D # s) = (\<lparr>tk_type = tokenObjectEnd, tk_start = CHR 0x7D # s, tk_end = s\<rparr>, s)"
    "next_token (CHR '','' # s) = (\<lparr>tk_type = tokenArraySeparator, tk_start = CHR '','' # s, tk_end = s\<rparr>, s)"
    using t by (simp_all add: next_token_simple)
qed

lemma ends_number_punctuation:
  "ends_number (CHR '','' # s)" "ends_number (CHR '']'' # s)" "ends_number (CHR 0x7D # s)" "ends_number [CHR 0x0A]"
  by (simp_all add: ends_number_def is_digit_def less_eq_char_def)

text \<open>White space between the tokens makes no difference.\<close>

definition blank :: "string \<Rightarrow> bool" where
  "blank s \<longleftrightarrow> list_all is_space s"

lemma blank_simps [simp]: "blank []" "blank (c # s) \<longleftrightarrow> is_space c \<and> blank s" "blank (s @ t) \<longleftrightarrow> blank s \<and> blank t"
  by (simp_all add: blank_def)

lemma blank_skip: "blank s \<Longrightarrow> skipSpaces (s @ t) = skipSpaces t"
  by (induction s) (simp_all add: skipSpaces_def)

lemma blank_token:
  assumes "blank s"
  shows "readToken (s @ t) = readToken t" "next_token (s @ t) = next_token t"
    "skipCommentTokens ft (s @ t) = skipCommentTokens ft t"
proof -
  show r: "readToken (s @ t) = readToken t" by (simp add: readToken_def blank_skip [OF assms])
  show n: "next_token (s @ t) = next_token t" by (subst (1 2) next_token.simps) (simp add: r)
  show "skipCommentTokens ft (s @ t) = skipCommentTokens ft t" by (simp add: skipCommentTokens_def r n)
qed

lemma ends_number_blank: "blank s \<Longrightarrow> ends_number t \<Longrightarrow> ends_number (s @ t)"
  by (cases s) (auto simp: ends_number_def is_space_def is_digit_def less_eq_char_def)

lemma reads_blank:
  assumes "reads fl ft v t" "blank s"
  shows "reads fl ft v (s @ t)"
  unfolding reads_def
proof (intro allI impI)
  fix n rest v0 es
  assume n: "2 * length (s @ t) + 1 \<le> n" "ends_number rest"
  then have "readValue n fl ft v0 \<lparr>rd_current = t @ rest, rd_errors = es\<rparr> = Inr (True, v, \<lparr>rd_current = rest, rd_errors = es\<rparr>)"
    by (intro readsD [OF assms(1)]) simp_all
  then show "readValue n fl ft v0 \<lparr>rd_current = (s @ t) @ rest, rd_errors = es\<rparr> =
      Inr (True, v, \<lparr>rd_current = rest, rd_errors = es\<rparr>)"
    using n(1) by (cases n) (simp_all add: value_body_def blank_token [OF assms(2)])
qed

text \<open>The loops, on elements and members that come each with its text.\<close>

lemma readArray_texts:
  assumes "ps \<noteq> []" "\<forall>p\<in>set ps. reads fl ft (snd (fst p)) (snd p)"
    and "map (fst \<circ> fst) ps = [i..i + int (length ps) - 1]" "\<forall>k\<in>fst ` set m. k < i" "blank s"
    and "2 * length (join_text '','' (map snd ps)) + 2 \<le> n"
  shows "readArray n fl ft i m \<lparr>rd_current = join_text '','' (map snd ps) @ s @ CHR '']'' # rest, rd_errors = es\<rparr> =
    Inr (True, m @ map fst ps, \<lparr>rd_current = rest, rd_errors = es\<rparr>)"
  using assms
proof (induction ps arbitrary: n i m)
  case (Cons p ps)
  obtain k where n: "n = Suc k" using Cons.prems(6) by (cases n) auto
  have p: "reads fl ft (snd (fst p)) (snd p)" "fst (fst p) = i"
    using Cons.prems(2,3) by (simp_all add: upto_rec1)
  have upd: "om_upd i (snd (fst p)) m = m @ [fst p]"
    using om_upd_last [OF Cons.prems(4)] p(2) by (metis prod.collapse)
  note ends = ends_number_blank [OF Cons.prems(5) ends_number_punctuation(2)]
  show ?case
  proof (cases "ps = []")
    case True
    then show ?thesis
      using Cons.prems(6) n upd readsD [OF p(1) _ ends, of k]
      by (simp add: array_body_def blank_token [OF Cons.prems(5)] punctuation Let_def)
  next
    case False
    let ?tl = "join_text '','' (map snd ps)"
    have doc: "join_text '','' (map snd (p # ps)) = snd p @ CHR '','' # ?tl" using False by (cases ps) simp_all
    have val: "readValue k fl ft (om_at nullValue m i)
        \<lparr>rd_current = snd p @ CHR '','' # ?tl @ s @ CHR '']'' # rest, rd_errors = es\<rparr> =
      Inr (True, snd (fst p), \<lparr>rd_current = CHR '','' # ?tl @ s @ CHR '']'' # rest, rd_errors = es\<rparr>)"
      using Cons.prems(6) n unfolding doc by (intro readsD [OF p(1) _ ends_number_punctuation(1)]) simp
    have "readArray k fl ft (i + 1) (m @ [fst p]) \<lparr>rd_current = ?tl @ s @ CHR '']'' # rest, rd_errors = es\<rparr> =
      Inr (True, (m @ [fst p]) @ map fst ps, \<lparr>rd_current = rest, rd_errors = es\<rparr>)"
    proof (rule Cons.IH [OF False])
      show "\<forall>p\<in>set ps. reads fl ft (snd (fst p)) (snd p)" using Cons.prems(2) by simp
      show "map (fst \<circ> fst) ps = [i + 1..i + 1 + int (length ps) - 1]"
        using Cons.prems(3) by (simp add: upto_rec1 algebra_simps comp_def)
      have "k < i + 1" if "k \<in> fst ` set m" for k using bspec [OF Cons.prems(4) that] by simp
      then show "\<forall>k\<in>fst ` set (m @ [fst p]). k < i + 1" using p(2) by auto
      show "2 * length ?tl + 2 \<le> k" using Cons.prems(6) n unfolding doc by simp
    qed (rule Cons.prems(5))
    then show ?thesis unfolding doc n using val upd by (simp add: array_body_def punctuation Let_def)
  qed
qed simp

text \<open>\<open>t\<close> is a text of a member: its name, a colon and a text of its value, with white space anywhere between.\<close>

definition member_of :: "('d JsonValue \<Rightarrow> string \<Rightarrow> bool) \<Rightarrow> string \<times> 'd JsonValue \<Rightarrow> string \<Rightarrow> bool" where
  "member_of R e t \<longleftrightarrow> (\<exists>s1 s2 u. blank s1 \<and> blank s2 \<and> R (snd e) u \<and>
     t = s1 @ valueToQuotedString (fst e) @ s2 @ CHR '':'' # u)"

lemma member_of_mono [mono]: "(\<And>v t. R v t \<longrightarrow> S v t) \<Longrightarrow> member_of R e t \<longrightarrow> member_of S e t"
  unfolding member_of_def by blast

lemma readObject_member:
  assumes "member_of (reads fl ft) e t" "CHR 0x00 \<notin> set (fst e)" "\<forall>k\<in>fst ` set m. k < fst e"
    and "2 * length t + 1 \<le> Suc k" "ends_number follow"
  shows "readObject (Suc k) fl ft name m \<lparr>rd_current = t @ follow, rd_errors = es\<rparr> =
     after_member (readObject k fl ft) (fst e) (m @ [e]) \<lparr>rd_current = follow, rd_errors = es\<rparr>"
proof -
  obtain s1 s2 u where t: "blank s1" "blank s2" "reads fl ft (snd e) u"
      "t = s1 @ valueToQuotedString (fst e) @ s2 @ CHR '':'' # u"
    using assms(1) by (auto simp: member_of_def)
  define doc where "doc = valueToQuotedString (fst e) @ s2 @ CHR '':'' # u @ follow"
  have upd: "om_upd (fst e) (snd e) m = m @ [e]" using om_upd_last [OF assms(3)] by simp
  have "2 * length u + 1 \<le> k" using assms(4) t(4) by simp
  from readsD [OF t(3) this assms(5)] have val: "readValue k fl ft v0 \<lparr>rd_current = u @ follow, rd_errors = es\<rparr> =
      Inr (True, snd e, \<lparr>rd_current = follow, rd_errors = es\<rparr>)" for v0 .
  have "next_token (t @ follow) = (\<lparr>tk_type = tokenString, tk_start = doc, tk_end = s2 @ CHR '':'' # u @ follow\<rparr>,
      s2 @ CHR '':'' # u @ follow)"
    using string_token [of "fst e"] next_token_simple [OF string_token, of "fst e"]
    by (simp add: t(4) blank_token [OF t(1)] doc_def)
  moreover have "decodeString \<lparr>tk_type = tokenString, tk_start = doc, tk_end = s2 @ CHR '':'' # u @ follow\<rparr> = Inr (fst e)"
    unfolding doc_def by (rule decodeString_token)
  ultimately show ?thesis
    using val upd c_str_clean [OF assms(2)]
    by (simp add: object_body_def blank_token [OF t(2)] punctuation Let_def)
qed

lemma readObject_texts:
  assumes "ps \<noteq> []" "\<forall>p\<in>set ps. member_of (reads fl ft) (fst p) (snd p) \<and> CHR 0x00 \<notin> set (fst (fst p))"
    and "om_wf (m @ map fst ps)" "blank s" "2 * length (join_text '','' (map snd ps)) + 1 \<le> n"
  shows "readObject n fl ft name m \<lparr>rd_current = join_text '','' (map snd ps) @ s @ CHR 0x7D # rest, rd_errors = es\<rparr> =
    Inr (True, m @ map fst ps, \<lparr>rd_current = rest, rd_errors = es\<rparr>)"
  using assms
proof (induction ps arbitrary: n name m)
  case (Cons p ps)
  obtain k where n: "n = Suc k" using Cons.prems(5) by (cases n) auto
  have p: "member_of (reads fl ft) (fst p) (snd p)" "CHR 0x00 \<notin> set (fst (fst p))"
    using Cons.prems(2) by simp_all
  have less: "\<forall>k\<in>fst ` set m. k < fst (fst p)"
    using Cons.prems(3) by (auto simp: om_wf_def sorted_wrt_append)
  show ?case
  proof (cases "ps = []")
    case True
    show ?thesis
      using readObject_member [OF p less, of k "s @ CHR 0x7D # rest" name es] Cons.prems(5) True n
        ends_number_blank [OF Cons.prems(4) ends_number_punctuation(3)]
      by (simp add: after_member_def blank_token [OF Cons.prems(4)] punctuation Let_def del: readObject.simps)
  next
    case False
    let ?tl = "join_text '','' (map snd ps)"
    have doc: "join_text '','' (map snd (p # ps)) = snd p @ CHR '','' # ?tl" using False by (cases ps) simp_all
    have "readObject k fl ft (fst (fst p)) (m @ [fst p]) \<lparr>rd_current = ?tl @ s @ CHR 0x7D # rest, rd_errors = es\<rparr> =
      Inr (True, (m @ [fst p]) @ map fst ps, \<lparr>rd_current = rest, rd_errors = es\<rparr>)"
    proof (rule Cons.IH [OF False])
      show "2 * length ?tl + 1 \<le> k" using Cons.prems(5) n unfolding doc by simp
    qed (use Cons.prems in simp_all)
    moreover have "readObject n fl ft name m \<lparr>rd_current = snd p @ CHR '','' # ?tl @ s @ CHR 0x7D # rest, rd_errors = es\<rparr> =
        after_member (readObject k fl ft) (fst (fst p)) (m @ [fst p])
          \<lparr>rd_current = CHR '','' # ?tl @ s @ CHR 0x7D # rest, rd_errors = es\<rparr>"
      unfolding n by (rule readObject_member [OF p less _ ends_number_punctuation(1)]) (use Cons.prems(5) n doc in simp)
    ultimately show ?thesis
      unfolding doc by (simp add: after_member_def punctuation Let_def del: readObject.simps)
  qed
qed simp

subsection \<open>Every plain value\<close>

lemma map_of_consecutive:
  "map fst m = [i..i + int (length m) - 1] \<Longrightarrow> map (om_at d m) [i..i + int (length m) - 1] = map snd m"
proof (induction m arbitrary: i)
  case (Cons e m)
  have e: "fst e = i" and m: "map fst m = [i + 1..i + 1 + int (length m) - 1]"
    using Cons.prems by (simp_all add: upto_rec1 algebra_simps)
  have "map (om_at d (e # m)) [i + 1..i + 1 + int (length m) - 1] = map (om_at d m) [i + 1..i + 1 + int (length m) - 1]"
    using e by (cases e) (auto simp: om_at_def)
  also have "\<dots> = map snd m" by (rule Cons.IH [OF m])
  finally have "map (om_at d (e # m)) [i + 1..i + int (length m)] = map snd m" by (simp add: algebra_simps)
  moreover have "om_at d (e # m) i = snd e" using e by (cases e) (simp add: om_at_def)
  moreover have "[i..i + int (length (e # m)) - 1] = i # [i + 1..i + int (length m)]"
    by (simp add: upto_rec1)
  ultimately show ?case by (simp only: list.map)
qed simp

lemma fill_gaps_dense:
  assumes "map fst m = [0..int (length m) - 1]"
  shows "fill_gaps (map (\<lambda>e. (fst e, W (snd e))) m) = map (\<lambda>e. W (snd e)) m"
proof (cases "m = []")
  case False
  let ?ws = "map (\<lambda>e. (fst e, W (snd e))) m"
  have keys: "map fst ?ws = [0..0 + int (length ?ws) - 1]" using assms by (simp add: comp_def)
  have "fst (last m) = last (map fst m)" using False by (simp add: last_map)
  also have "\<dots> = int (length m) - 1"
    unfolding assms using False by (subst last_conv_nth) (auto simp: nth_upto of_nat_diff Suc_leI)
  finally have "fill_gaps ?ws = map (om_at ''null'' ?ws) [0..0 + int (length ?ws) - 1]"
    using False by (simp add: fill_gaps_def last_map)
  then show ?thesis using map_of_consecutive [OF keys, of "''null''"] by (simp add: comp_def)
qed (simp add: fill_gaps_def)

lemma readArray_skip:
  "readArray k fl ft i m \<lparr>rd_current = skipSpaces t, rd_errors = es\<rparr> = readArray k fl ft i m \<lparr>rd_current = t, rd_errors = es\<rparr>"
proof -
  have "skipSpaces (skipSpaces t) = skipSpaces t" by (simp add: skipSpaces_def dropWhile_idem)
  then have "readToken (skipSpaces t) = readToken t" by (simp add: readToken_def)
  moreover from this have "next_token (skipSpaces t) = next_token t" by (subst (1 2) next_token.simps) simp
  ultimately have "skipCommentTokens ft (skipSpaces t) = skipCommentTokens ft t" by (simp add: skipCommentTokens_def)
  then have "readValue j fl ft v \<lparr>rd_current = skipSpaces t, rd_errors = es\<rparr> = readValue j fl ft v \<lparr>rd_current = t, rd_errors = es\<rparr>" for j v
    by (cases j) (simp_all add: value_body_def)
  then show ?thesis by (cases k) (simp_all add: array_body_def)
qed

text \<open>
  The texts of a value: the writer's own for a scalar, and for an array or object the texts of what is in it
  between brackets and commas, with white space before any token.
\<close>

inductive spaced :: "'d floats \<Rightarrow> 'd JsonValue \<Rightarrow> string \<Rightarrow> bool" for fl where
  spaced_scalar: "json_type v \<notin> {arrayType, objectType} \<Longrightarrow> spaced fl v (writeValue fl yaml v)"
| spaced_blank: "spaced fl v t \<Longrightarrow> blank s \<Longrightarrow> spaced fl v (s @ t)"
| spaced_array: "list_all2 (\<lambda>e t. spaced fl (snd e) t) m ts \<Longrightarrow> blank s \<Longrightarrow>
     spaced fl (arrayValue m) (''['' @ join_text '','' ts @ s @ '']'')"
| spaced_object: "list_all2 (\<lambda>e t. member_of (spaced fl) e t) m ts \<Longrightarrow> blank s \<Longrightarrow>
     spaced fl (objectValue m) ([CHR 0x7B] @ join_text '','' ts @ s @ [CHR 0x7D])"

text \<open>What is in front of the first element is not a closing bracket, which is what \<open>readValue\<close> looks for.\<close>

definition starts_value :: "string \<Rightarrow> bool" where
  "starts_value t \<longleftrightarrow> (\<exists>c u. skipSpaces t = c # u \<and> c \<noteq> CHR '']'')"

lemma starts_digits: "starts_value (uintToString n @ t)"
  using uintToString_digits [of n] digit_no_space
  by (cases "uintToString n") (auto simp: starts_value_def skipSpaces_Cons is_digit_def less_eq_char_def)

lemma starts_spaced: "spaced fl v t \<Longrightarrow> plain v \<Longrightarrow> starts_value (t @ u)"
proof (induction arbitrary: u rule: spaced.induct)
  case (spaced_scalar v yaml)
  then show ?case
    by (cases v) (auto simp: starts_digits valueToString_Int_def valueToString_UInt_def valueToString_bool_def
        valueToQuotedString_escapes starts_value_def [of "_ # _"] is_space_def skipSpaces_Cons)
qed (auto simp: starts_value_def blank_skip skipSpaces_Cons is_space_def)

lemma starts_join: "ts \<noteq> [] \<Longrightarrow> (\<And>u. starts_value (hd ts @ u)) \<Longrightarrow> starts_value (join_text sep ts @ u)"
  by (cases "(sep, ts)" rule: join_text.cases) simp_all

lemma reads_array:
  assumes "map fst m = [0..int (length m) - 1]" "list_all2 (\<lambda>e t. reads fl ft (snd e) t \<and> (\<forall>u. starts_value (t @ u))) m ts"
    and "blank s"
  shows "reads fl ft (arrayValue m) (''['' @ join_text '','' ts @ s @ '']'')"
  unfolding reads_def
proof (intro allI impI)
  fix n rest v0 es
  let ?join = "join_text '','' ts" and ?ps = "zip m ts"
  assume len: "2 * length (''['' @ ?join @ s @ '']'') + 1 \<le> n"
  then obtain k where n: "n = Suc k" by (cases n) auto
  have ps: "map fst ?ps = m" "map snd ?ps = ts" "length ts = length m"
    "\<forall>p\<in>set ?ps. reads fl ft (snd (fst p)) (snd p)"
    using assms(2) by (auto simp: list_all2_iff)
  have starts: "\<forall>t\<in>set ts. \<forall>u. starts_value (t @ u)"
    using assms(2) by (auto simp: list_all2_conv_all_nth in_set_conv_nth)
  have "readToken (CHR ''['' # s) = (\<lparr>tk_type = tokenArrayBegin, tk_start = CHR ''['' # s, tk_end = s\<rparr>, s)" for s
    by (simp add: readToken_Cons is_space_def scan_token_def)
  note tok = this skipCommentTokens_simple [OF this, of _ ft]
  show "readValue n fl ft v0 \<lparr>rd_current = (''['' @ ?join @ s @ '']'') @ rest, rd_errors = es\<rparr> =
      Inr (True, arrayValue m, \<lparr>rd_current = rest, rd_errors = es\<rparr>)"
  proof (cases "m = []")
    case True
    have "skipSpaces (s @ CHR '']'' # rest) = CHR '']'' # rest"
      by (simp add: blank_skip [OF assms(3)] skipSpaces_Cons is_space_def)
    then show ?thesis using True ps(3) by (simp add: n value_body_def tok punctuation peek_char_def Let_def)
  next
    case False
    let ?text = "?join @ s @ CHR '']'' # rest"
    have "ts \<noteq> []" "hd ts \<in> set ts" using False ps(3) by (cases ts; simp)+
    then have "starts_value ?text" using starts by (intro starts_join) auto
    then have peek: "peek_char (skipSpaces ?text) \<noteq> CHR '']''" by (auto simp: starts_value_def peek_char_def)
    have "readArray k fl ft 0 [] \<lparr>rd_current = ?text, rd_errors = es\<rparr> =
        Inr (True, [] @ map fst ?ps, \<lparr>rd_current = rest, rd_errors = es\<rparr>)"
    proof -
      have "readArray k fl ft 0 [] \<lparr>rd_current = join_text '','' (map snd ?ps) @ s @ CHR '']'' # rest, rd_errors = es\<rparr> =
          Inr (True, [] @ map fst ?ps, \<lparr>rd_current = rest, rd_errors = es\<rparr>)"
      proof (rule readArray_texts)
        show "map (fst \<circ> fst) ?ps = [0..0 + int (length ?ps) - 1]"
          using assms(1) ps(1,3) by (simp flip: map_map)
      qed (use False assms(3) len n ps in auto)
      then show ?thesis by (simp only: ps(2))
    qed
    moreover have "readArray k fl ft 0 [] \<lparr>rd_current = skipSpaces ?text, rd_errors = es\<rparr> =
        readArray k fl ft 0 [] \<lparr>rd_current = ?text, rd_errors = es\<rparr>"
      by (rule readArray_skip)
    ultimately show ?thesis using peek ps(1) by (simp add: n value_body_def tok Let_def)
  qed
qed

lemma reads_object:
  assumes "om_wf m" "list_all2 (\<lambda>e t. member_of (reads fl ft) e t \<and> CHR 0x00 \<notin> set (fst e)) m ts" "blank s"
  shows "reads fl ft (objectValue m) ([CHR 0x7B] @ join_text '','' ts @ s @ [CHR 0x7D])"
  unfolding reads_def
proof (intro allI impI)
  fix n rest v0 es
  let ?join = "join_text '','' ts" and ?ps = "zip m ts"
  assume len: "2 * length ([CHR 0x7B] @ ?join @ s @ [CHR 0x7D]) + 1 \<le> n"
  then obtain k j where n: "n = Suc k" "k = Suc j" by (cases n; cases "n - 1") auto
  have ps: "map fst ?ps = m" "map snd ?ps = ts" "length ts = length m"
    "\<forall>p\<in>set ?ps. member_of (reads fl ft) (fst p) (snd p) \<and> CHR 0x00 \<notin> set (fst (fst p))"
    using assms(2) by (auto simp: list_all2_iff)
  have "readToken (CHR 0x7B # s) = (\<lparr>tk_type = tokenObjectBegin, tk_start = CHR 0x7B # s, tk_end = s\<rparr>, s)" for s
    by (simp add: readToken_Cons is_space_def scan_token_def)
  note tok = this skipCommentTokens_simple [OF this, of _ ft]
  have "readObject k fl ft [] [] \<lparr>rd_current = ?join @ s @ CHR 0x7D # rest, rd_errors = es\<rparr> =
      Inr (True, [] @ map fst ?ps, \<lparr>rd_current = rest, rd_errors = es\<rparr>)"
  proof (cases "m = []")
    case True
    then show ?thesis using ps(3) by (simp add: n object_body_def blank_token [OF assms(3)] punctuation Let_def)
  next
    case False
    have "readObject k fl ft [] [] \<lparr>rd_current = join_text '','' (map snd ?ps) @ s @ CHR 0x7D # rest, rd_errors = es\<rparr> =
        Inr (True, [] @ map fst ?ps, \<lparr>rd_current = rest, rd_errors = es\<rparr>)"
      by (rule readObject_texts) (use False assms(1,3) len n ps in auto)
    then show ?thesis by (simp only: ps(2))
  qed
  then show "readValue n fl ft v0 \<lparr>rd_current = ([CHR 0x7B] @ ?join @ s @ [CHR 0x7D]) @ rest, rd_errors = es\<rparr> =
      Inr (True, objectValue m, \<lparr>rd_current = rest, rd_errors = es\<rparr>)"
    using ps(1) by (simp add: n(1) value_body_def tok Let_def del: readObject.simps)
qed

lemma reads_scalar: "plain v \<Longrightarrow> json_type v \<notin> {arrayType, objectType} \<Longrightarrow> reads fl ft v (writeValue fl yaml v)"
  by (cases v) (simp_all add: reads_words reads_string reads_int reads_uint)

lemma reads_spaced: "spaced fl v t \<Longrightarrow> plain v \<Longrightarrow> reads fl ft v t"
proof (induction rule: spaced.induct)
  case (spaced_array m ts s)
  then show ?case
    by (intro reads_array) (auto simp: starts_spaced elim!: list.rel_mono_strong)
next
  case (spaced_object m ts s)
  then show ?case
    by (intro reads_object) (auto simp: member_of_def elim!: list.rel_mono_strong)
qed (auto simp: reads_scalar reads_blank)

lemma spaced_writeValue: "plain v \<Longrightarrow> spaced fl v (writeValue fl yaml v)"
proof (induction v)
  case (arrayValue m)
  have "list_all2 (\<lambda>e t. spaced fl (snd e) t) m (map (\<lambda>e. writeValue fl yaml (snd e)) m)"
    using arrayValue by (auto simp: list.rel_map intro!: list.rel_refl_strong)
  from spaced_array [OF this, of "[]"] show ?case
    using arrayValue.prems by (simp add: fill_gaps_dense)
next
  case (objectValue m)
  let ?t = "\<lambda>e. valueToQuotedString (fst e) @ (if yaml then '': '' else '':'') @ writeValue fl yaml (snd e)"
  have "member_of (spaced fl) e (?t e)" if "e \<in> set m" for e
  proof -
    have "spaced fl (snd e) ((if yaml then '' '' else []) @ writeValue fl yaml (snd e))"
      using objectValue that by (intro spaced_blank; cases e) (auto simp: is_space_def)
    then show ?thesis
      unfolding member_of_def
      by (intro exI [of _ "[]"] exI [of _ "(if yaml then '' '' else []) @ writeValue fl yaml (snd e)"]) simp
  qed
  then have "list_all2 (\<lambda>e t. member_of (spaced fl) e t) m (map ?t m)"
    by (auto simp: list.rel_map intro!: list.rel_refl_strong)
  from spaced_object [OF this, of "[]"] show ?case by simp
qed (rule spaced_scalar, simp)+

lemma reads_writeValue: "plain v \<Longrightarrow> reads fl ft v (writeValue fl yaml v)"
  by (rule reads_spaced [OF spaced_writeValue])

lemma parse_end_space:
  assumes "\<not> strictRoot ft" "skipSpaces s = []"
  shows "parse_end ft document (True, v, \<lparr>rd_current = s, rd_errors = es\<rparr>) =
     Inr (True, v, \<lparr>rd_current = [], rd_errors = es\<rparr>)"
proof -
  have "readToken s = (\<lparr>tk_type = tokenEndOfStream, tk_start = [], tk_end = []\<rparr>, [])"
    using assms(2) by (simp add: readToken_def scan_token_def is_digit_def less_eq_char_def)
  from skipCommentTokens_simple [OF this, of ft] show ?thesis
    using assms(1) by (simp add: parse_end_def)
qed

lemma parse_end_newline:
  "\<not> strictRoot ft \<Longrightarrow> parse_end ft document (True, v, \<lparr>rd_current = [CHR 0x0A], rd_errors = es\<rparr>) =
     Inr (True, v, \<lparr>rd_current = [], rd_errors = es\<rparr>)"
  by (rule parse_end_space) (simp_all add: skipSpaces_def is_space_def)

lemma parse_end_empty:
  "\<not> strictRoot ft \<Longrightarrow> parse_end ft document (True, v, \<lparr>rd_current = [], rd_errors = es\<rparr>) =
     Inr (True, v, \<lparr>rd_current = [], rd_errors = es\<rparr>)"
  by (rule parse_end_space) (simp_all add: skipSpaces_def)

end
