(* ===== verification/Json_Total.thy ===== *)
theory Json_Total
  imports Json_Reader
begin

text \<open>
  The parser returns on every document: each turn of its descent takes something off the text, so
  the fuel \<open>parse\<close> starts with is never used up. Its only fault is the terminator written past
  the end of the buffer a number of 32 characters fills.
\<close>

lemma decodeNumber_cases:
  "(\<exists>d. decodeNumber fl t = Inr d) \<or> decodeNumber fl t = Inl OutOfBounds"
  unfolding decodeNumber_def decodeDouble_def Let_def by (simp split: option.split)

lemma addError_current [simp]: "rd_current (addError msg t e r) = rd_current r"
  by (simp add: addError_def)

lemma recover_shorter: "length (rd_current (recoverFromError ty r)) \<le> length (rd_current r)"
  by (simp add: recoverFromError_def skip_until_shorter)

lemma addErrorAndRecover_shorter:
  "length (rd_current (addErrorAndRecover msg t ty r)) \<le> length (rd_current r)"
  using recover_shorter [of ty "addError msg t None r"] by (simp add: addErrorAndRecover_def)

text \<open>\<open>returns k x\<close>: the function returned, with at most \<open>k\<close> characters left, or less than \<open>k\<close> when
  it succeeded; or it ran into the buffer overflow.\<close>

definition returns :: "nat \<Rightarrow> 'v rd \<Rightarrow> bool" where
  "returns k x \<longleftrightarrow> x = Inl OutOfBounds \<or>
     (\<exists>ok v r. x = Inr (ok, v, r) \<and> length (rd_current r) \<le> k \<and> (ok \<longrightarrow> length (rd_current r) < k))"

lemma returns_ok: "length (rd_current r) < k \<Longrightarrow> returns k (Inr (ok, v, r))"
  by (auto simp: returns_def)

lemma returns_failed: "length (rd_current r) \<le> k \<Longrightarrow> returns k (Inr (False, v, r))"
  by (auto simp: returns_def)

lemma returns_mono: "returns k x \<Longrightarrow> k \<le> k' \<Longrightarrow> returns k' x"
  by (fastforce simp: returns_def)

lemma returns_bind:
  assumes "returns k x" "\<And>ok v r. length (rd_current r) \<le> k \<Longrightarrow> (ok \<Longrightarrow> length (rd_current r) < k) \<Longrightarrow>
     returns k' (f (ok, v, r))"
  shows "returns k' (bindF x f)"
  using assms(1) unfolding returns_def [of k]
proof (elim disjE exE conjE)
  assume "x = Inl OutOfBounds"
  then show ?thesis by (simp add: returns_def)
next
  fix ok v r
  assume "x = Inr (ok, v, r)" "length (rd_current r) \<le> k" "ok \<longrightarrow> length (rd_current r) < k"
  then show ?thesis using assms(2) [of r ok v] by simp
qed

lemma value_body_returns:
  assumes obj: "\<And>r. length (rd_current r) < k \<Longrightarrow> returns (length (rd_current r)) (object_loop [] [] r)"
    and arr: "\<And>r. length (rd_current r) < k \<Longrightarrow> returns (length (rd_current r)) (array_loop 0 [] r)"
    and k: "k = length (rd_current r)"
  shows "returns k (value_body object_loop array_loop fl ft v r)"
proof -
  obtain t s where ts: "skipCommentTokens ft (rd_current r) = (t, s)" by (cases "skipCommentTokens ft (rd_current r)")
  have le: "length s \<le> k" using skipCommentTokens_shorter [OF ts] k by simp
  have less: "tk_type t \<noteq> tokenEndOfStream \<Longrightarrow> length s < k"
    using skipCommentTokens_consumes [OF ts] k by simp
  have sp: "length (skipSpaces s) \<le> length s" by (rule skipSpaces_shorter)
  have tok: "length (snd (readToken (skipSpaces s))) \<le> length (skipSpaces s)"
    using readToken_shorter [of "skipSpaces s"] by (metis prod.collapse)
  have failed: "returns k (Inr (False, v, addError msg t e (r\<lparr>rd_current := s\<rparr>)))" for msg e
    using le by (simp add: returns_failed)
  show ?thesis
  proof (cases "tk_type t")
    case tokenObjectBegin
    have "returns (length s) (object_loop [] [] (r\<lparr>rd_current := s\<rparr>))"
      using obj [of "r\<lparr>rd_current := s\<rparr>"] less tokenObjectBegin by simp
    then have "returns k (bindF (object_loop [] [] (r\<lparr>rd_current := s\<rparr>)) (\<lambda>(ok, m, r2). Inr (ok, objectValue m, r2)))"
      by (rule returns_bind) (use less tokenObjectBegin in \<open>simp add: returns_ok\<close>)
    then show ?thesis by (simp add: value_body_def ts tokenObjectBegin Let_def)
  next
    case tokenArrayBegin
    have "returns (length (skipSpaces s)) (array_loop 0 [] (r\<lparr>rd_current := skipSpaces s\<rparr>))"
      using arr [of "r\<lparr>rd_current := skipSpaces s\<rparr>"] less tokenArrayBegin sp by simp
    then have "returns k (bindF (array_loop 0 [] (r\<lparr>rd_current := skipSpaces s\<rparr>)) (\<lambda>(ok, m, r2). Inr (ok, arrayValue m, r2)))"
      by (rule returns_bind) (use less tokenArrayBegin sp in \<open>simp add: returns_ok\<close>)
    then show ?thesis
      using less sp tok by (simp add: value_body_def ts tokenArrayBegin Let_def returns_ok)
  next
    case tokenNumber
    then show ?thesis
      using less failed decodeNumber_cases [of fl t]
      by (auto simp: value_body_def ts tokenNumber Let_def returns_ok split: sum.split) (simp add: returns_def)
  next
    case tokenString
    then show ?thesis
      using less failed by (auto simp: value_body_def ts tokenString Let_def returns_ok split: sum.split)
  qed (use less failed in \<open>simp_all add: value_body_def ts Let_def returns_ok\<close>)
qed

lemma after_member_returns:
  assumes obj: "\<And>r. length (rd_current r) < k \<Longrightarrow> returns (length (rd_current r)) (object_loop name m r)"
    and k: "k = length (rd_current r)"
  shows "returns k (after_member object_loop name m r)"
proof -
  obtain c s where cs: "readToken (rd_current r) = (c, s)" by (cases "readToken (rd_current r)")
  have le: "length s \<le> k" using readToken_shorter [OF cs] k by simp
  have less: "tk_type c \<noteq> tokenEndOfStream \<Longrightarrow> length s < k" using readToken_consumes [OF cs] k by simp
  obtain c1 s1 where cs1: "next_token s = (c1, s1)" by (cases "next_token s")
  have le1: "length s1 \<le> length s" by (rule next_token_shorter [OF cs1])
  show ?thesis
  proof (cases "tk_type c \<in> {tokenObjectEnd, tokenArraySeparator, tokenComment}")
    case False
    then show ?thesis
      using le addErrorAndRecover_shorter [of missing_comma c tokenObjectEnd "r\<lparr>rd_current := s\<rparr>"]
      by (simp add: after_member_def cs Let_def returns_failed)
  next
    case True
    then have "length s < k" using less by auto
    then show ?thesis
      using True le1 returns_mono [OF obj [of "r\<lparr>rd_current := s\<rparr>"], of k]
        returns_mono [OF obj [of "r\<lparr>rd_current := s1\<rparr>"], of k]
      by (auto simp: after_member_def cs cs1 Let_def returns_ok)
  qed
qed

lemma object_body_returns:
  assumes val: "\<And>v r. length (rd_current r) < k \<Longrightarrow> returns (length (rd_current r)) (read_value v r)"
    and obj: "\<And>name m r. length (rd_current r) < k \<Longrightarrow> returns (length (rd_current r)) (object_loop name m r)"
    and k: "k = length (rd_current r)"
  shows "returns k (object_body read_value object_loop name m r)"
proof -
  obtain t s where ts: "next_token (rd_current r) = (t, s)" by (cases "next_token (rd_current r)")
  have le: "length s \<le> k" using next_token_shorter [OF ts] k by simp
  have less: "tk_type t \<noteq> tokenEndOfStream \<Longrightarrow> length s < k" using next_token_consumes [OF ts] k by simp
  obtain c s2 where cs: "readToken s = (c, s2)" by (cases "readToken s")
  have le2: "length s2 \<le> length s" by (rule readToken_shorter [OF cs])
  have failed: "returns k (Inr (False, m, addErrorAndRecover msg t' tokenObjectEnd (r\<lparr>rd_current := s'\<rparr>)))"
    if "length s' \<le> k" for msg t' s'
    using that addErrorAndRecover_shorter [of msg t' tokenObjectEnd "r\<lparr>rd_current := s'\<rparr>"]
    by (simp add: returns_failed)
  show ?thesis
  proof (cases "tk_type t = tokenString")
    case False
    then show ?thesis
      using less failed [OF le] by (auto simp: object_body_def ts Let_def returns_ok)
  next
    case True
    then have str: "length s < k" using less by simp
    show ?thesis
    proof (cases "decodeString t")
      case (Inl e)
      then show ?thesis
        using True le recover_shorter [of tokenObjectEnd "addError (fst e) t (Some (snd e)) (r\<lparr>rd_current := s\<rparr>)"]
        by (cases e) (simp add: object_body_def ts Let_def returns_failed)
    next
      case (Inr name1)
      have rest: "returns k (let m1 = om_upd (c_str name1) v m in
             if ok then after_member object_loop name1 m1 r3
             else Inr (False, m1, recoverFromError tokenObjectEnd r3))"
        if "length (rd_current r3) \<le> length s2" for ok v r3
      proof (cases ok)
        case False
        then show ?thesis
          using that le2 str recover_shorter [of tokenObjectEnd r3] by (simp add: returns_failed)
      next
        case True
        have "length (rd_current r3) \<le> k" using that le2 str by simp
        moreover have "returns (length (rd_current r3)) (after_member object_loop name1 (om_upd (c_str name1) v m) r3)"
          using \<open>length (rd_current r3) \<le> k\<close> by (intro after_member_returns [OF _ refl] obj) simp
        ultimately show ?thesis using True by (simp add: returns_mono)
      qed
      have "returns (length s2) (read_value (om_at nullValue m (c_str name1)) (r\<lparr>rd_current := s2\<rparr>))"
        using val [of "r\<lparr>rd_current := s2\<rparr>"] le2 str by simp
      then have "returns k (bindF (read_value (om_at nullValue m (c_str name1)) (r\<lparr>rd_current := s2\<rparr>))
            (\<lambda>(ok, v, r3). let m1 = om_upd (c_str name1) v m in
             if ok then after_member object_loop name1 m1 r3
             else Inr (False, m1, recoverFromError tokenObjectEnd r3)))"
        by (rule returns_bind) (simp only: prod.case, rule rest)
      then show ?thesis
        using True failed [of s2] le2 str by (simp add: object_body_def ts cs Inr Let_def)
    qed
  qed
qed

lemma array_body_returns:
  assumes val: "returns k (read_value (om_at nullValue m index) r)"
    and arr: "\<And>i m r. length (rd_current r) < k \<Longrightarrow> returns (length (rd_current r)) (array_loop i m r)"
  shows "returns k (array_body read_value array_loop index m r)"
  unfolding array_body_def
proof (rule returns_bind [OF val])
  fix ok v and r1 :: Reader
  assume le: "length (rd_current r1) \<le> k" and less: "ok \<Longrightarrow> length (rd_current r1) < k"
  obtain t s where ts: "next_token (rd_current r1) = (t, s)" by (cases "next_token (rd_current r1)")
  have "length s \<le> length (rd_current r1)" by (rule next_token_shorter [OF ts])
  then show "returns k (case (ok, v, r1) of (ok, v, r1) \<Rightarrow>
     let m1 = om_upd index v m in
     if \<not> ok then Inr (False, m1, recoverFromError tokenArrayEnd r1)
     else
       let (token, s) = next_token (rd_current r1); r2 = r1\<lparr>rd_current := s\<rparr> in
       if tk_type token = tokenArrayEnd then Inr (True, m1, r2)
       else array_loop (index + 1) m1 r2)"
    using le less recover_shorter [of tokenArrayEnd r1] arr [of "r1\<lparr>rd_current := s\<rparr>" "index + 1" "om_upd index v m"]
    by (auto simp: ts Let_def returns_ok returns_failed intro: returns_mono)
qed

lemma reader_returns_fuel:
  "2 * length (rd_current r) + 1 \<le> n \<Longrightarrow> returns (length (rd_current r)) (readValue n fl ft v r)"
  "2 * length (rd_current r) + 1 \<le> n \<Longrightarrow> returns (length (rd_current r)) (readObject n fl ft name m r)"
  "2 * length (rd_current r) + 2 \<le> n \<Longrightarrow> returns (length (rd_current r)) (readArray n fl ft index e r)"
proof (induction n arbitrary: r v name m index e)
  case (Suc n)
  {
    case 1
    then show ?case
      by (simp only: readValue.simps) (rule value_body_returns; (rule Suc.IH)?; simp)
  next
    case 2
    then show ?case
      by (simp only: readObject.simps) (rule object_body_returns; (rule Suc.IH)?; simp)
  next
    case 3
    then show ?case
      by (simp only: readArray.simps) (rule array_body_returns; rule Suc.IH; simp)
  }
qed simp_all

lemma parse_end_returns: "\<exists>y. parse_end ft document z = Inr y"
  by (cases z, cases "skipCommentTokens ft (rd_current (snd (snd z)))") (auto simp: parse_end_def Let_def)

end
