(* ===== verification/Json_Properties.thy ===== *)
theory Json_Properties
  imports Json_Roundtrip Json_Total Config_Files Example_World
begin

text \<open>
  What the JSON library promises the configuration reader, where it is more lenient or more
  fragile than it looks, and what the shipped files are read as.
\<close>

text \<open>Floating-point numbers for the examples: only whether a number is zero is kept.\<close>

definition zero_or_not :: "bool floats" where
  "zero_or_not = \<lparr>fl_scan = (\<lambda>s. Some (\<exists>c\<in>set s. c \<in> set ''123456789'')), fl_print = (\<lambda>d. if d then ''1.0'' else ''0.0''),
     fl_of_int = (\<lambda>n. n \<noteq> 0), fl_trunc = (\<lambda>d. if d then 1 else 0), fl_le = (\<lambda>a b. a \<longrightarrow> b),
     fl_lt = (\<lambda>a b. \<not> a \<and> b), fl_eq = (=)\<rparr>"

text \<open>C22: a value without floating-point numbers, gaps in its arrays or NUL characters, whose integers
  keep clear of the ends of their ranges, is written by \<open>FastWriter\<close>, with or without the YAML
  spacing, as a document that \<open>Reader\<close> reads as that value, without an error and to its end.\<close>

theorem json_roundtrip:
  assumes "plain v" "\<not> strictRoot ft"
  shows "parse fl ft (FastWriter_write fl yaml v) root = Inr (True, v, \<lparr>rd_current = [], rd_errors = []\<rparr>)"
proof -
  let ?text = "writeValue fl yaml v"
  have "readValue (2 * length (?text @ [CHR 0x0A]) + 1) fl ft root \<lparr>rd_current = ?text @ [CHR 0x0A], rd_errors = []\<rparr> =
      Inr (True, v, \<lparr>rd_current = [CHR 0x0A], rd_errors = []\<rparr>)"
    by (rule readsD [OF reads_writeValue [OF assms(1)] _ ends_number_punctuation(4)]) simp
  then show ?thesis
    using assms(2) unfolding parse_def FastWriter_write_def by (simp add: parse_end_newline del: readValue.simps)
qed

definition sample :: "'d JsonValue" where
  "sample = objectValue [(''a'', arrayValue [(0, intValue (-12)), (1, stringValue [CHR 0x22, CHR 0x0A, CHR 0x01]),
     (2, uintValue 4000000000)]), (''b'', objectValue [])]"

theorem json_roundtrip_witness:
  "parse zero_or_not Features_all (FastWriter_write zero_or_not True sample) nullValue =
     Inr (True, sample, \<lparr>rd_current = [], rd_errors = []\<rparr>)"
proof -
  have "plain (sample :: bool JsonValue)"
    by (simp add: sample_def om_wf_def maxInt_def upto_rec1)
  then show ?thesis by (rule json_roundtrip) (simp add: Features_all_def)
qed


text \<open>A document that is a number of exactly 32 characters with a fraction or an exponent fills the
  buffer of 32 characters, and its terminator is written past the end.\<close>

theorem number_buffer_overflow:
  assumes "length doc = 32" "is_digit (hd doc)" "\<forall>c\<in>set doc. is_digit c \<or> c \<in> set ''.eE+-''"
    and "\<exists>c\<in>set doc. c \<in> set ''.eE+''"
  shows "parse fl ft doc root = Inl OutOfBounds"
proof -
  obtain c s where cs: "doc = c # s" using assms(1) by (cases doc) auto
  have "readNumber s = []" using assms(3) by (simp add: readNumber_def cs)
  moreover have "scan_token c s = (tokenNumber, True, readNumber s)"
    using assms(2) by (auto simp: cs scan_token_def is_digit_def less_eq_char_def)
  ultimately have "readToken doc = (\<lparr>tk_type = tokenNumber, tk_start = doc, tk_end = []\<rparr>, [])"
    using assms(2) digit_no_space by (simp add: cs readToken_Cons)
  note skipCommentTokens_simple [OF this, of ft]
  moreover have "token_text \<lparr>tk_type = tokenNumber, tk_start = doc, tk_end = []\<rparr> = doc"
    by (rule token_text_of) simp
  moreover have "looks_like_double doc" using assms(4) by (simp add: looks_like_double_def)
  then have "decodeNumber fl \<lparr>tk_type = tokenNumber, tk_start = doc, tk_end = []\<rparr> = Inl OutOfBounds"
    using assms(1) calculation by (simp add: decodeNumber_def decodeDouble_def Let_def)
  ultimately show ?thesis by (simp add: parse_def value_body_def Let_def)
qed

theorem number_buffer_overflow_witness:
  "parse zero_or_not Features_all ''0.000000000000000000000000000001'' nullValue = Inl OutOfBounds"
  by (rule number_buffer_overflow) (simp_all add: is_digit_def less_eq_char_def)

lemma number_loop_too_big:
  assumes "thr < 429496730" "0 < thr"
  shows "unat thr \<le> n div 10 \<Longrightarrow> number_loop thr 0 (uintToString n) = Some None"
proof (induction n rule: uintToString.induct)
  case (1 n)
  have thr: "unat thr < 429496730" "0 < unat thr" using assms by (simp_all add: word_less_nat_alt)
  then have ten: "\<not> n < 10" using "1.prems" by auto
  show ?case
  proof (cases "unat thr \<le> n div 10 div 10")
    case True
    then show ?thesis using "1.IH" ten by (subst uintToString.simps) (simp add: number_loop_append)
  next
    case False
    then have "number_loop thr 0 (uintToString (n div 10)) = Some (Some (of_nat (n div 10)))"
      by (intro number_loop_uintToString) simp
    moreover have "unat (of_nat (n div 10) :: uint) = n div 10" using False thr by (intro unat_small) simp
    then have "thr \<le> of_nat (n div 10)" using "1.prems" by (simp add: word_le_nat_alt)
    ultimately show ?thesis
      using ten by (subst uintToString.simps) (simp add: number_loop_append digit_chars)
  qed
qed

lemma uintToString_length: "n < 10 ^ Suc k \<Longrightarrow> length (uintToString n) \<le> Suc k"
proof (induction k arbitrary: n)
  case 0
  then show ?case by (subst uintToString.simps) simp
next
  case (Suc k)
  then have "n div 10 < 10 ^ Suc k" by (simp add: less_mult_imp_div_less)
  then show ?case using Suc.IH [of "n div 10"] by (subst uintToString.simps) simp
qed

text \<open>The nine least integers are written as integers but read back as floating-point numbers: the
  reader gives up on an integer one digit before it would overflow.\<close>

theorem least_ints_read_as_real:
  assumes "minInt \<le> n" "n \<le> -2147483640" "\<not> strictRoot ft"
    and "fl_scan fl (valueToString_Int n) = Some d"
  shows "parse fl ft (FastWriter_write fl yaml (intValue n)) root =
     Inr (True, realValue d, \<lparr>rd_current = [], rd_errors = []\<rparr>)"
proof -
  obtain k where k: "n = - int k" "2147483640 \<le> k" "k \<le> 2147483648"
    using assms(1,2) by (intro that [of "nat (- n)"]) (auto simp: minInt_def)
  let ?text = "CHR ''-'' # uintToString k"
  have printed: "valueToString_Int n = ?text" using k by (simp add: valueToString_Int_def unat_small)
  have num: "number_loop 214748364 0 (uintToString k) = Some None"
    using k(2) by (intro number_loop_too_big) simp_all
  have "length (uintToString k) \<le> 10"
    using uintToString_length [of k 9] k(3) by simp
  then have dec: "decodeNumber fl \<lparr>tk_type = tokenNumber, tk_start = ?text @ rest, tk_end = rest\<rparr> = Inr (Inr (realValue d))"
    for rest
    using num not_double [of ?text k] token_text_of [of _ ?text] assms(4)
    by (simp add: decodeNumber_def decodeDouble_def printed minInt_def peek_char_def Let_def)
  have "reads fl ft (realValue d) ?text" by (rule reads_number [OF disjI2 [OF refl]]) (rule dec)
  then have "readValue (2 * length (?text @ [CHR 0x0A]) + 1) fl ft root \<lparr>rd_current = ?text @ [CHR 0x0A], rd_errors = []\<rparr> =
      Inr (True, realValue d, \<lparr>rd_current = [CHR 0x0A], rd_errors = []\<rparr>)"
    by (rule readsD [OF _ _ ends_number_punctuation(4)]) simp
  then show ?thesis
    using parse_end_newline [OF assms(3), of "?text @ [CHR 0x0A]"]
    by (simp add: parse_def FastWriter_write_def printed del: readValue.simps)
qed

theorem least_ints_read_as_real_witness:
  "\<exists>d. parse zero_or_not Features_all (FastWriter_write zero_or_not False (intValue minInt)) nullValue =
     Inr (True, realValue d, \<lparr>rd_current = [], rd_errors = []\<rparr>)"
proof -
  have "minInt \<le> minInt" "minInt \<le> -2147483640" "\<not> strictRoot Features_all"
    by (simp_all add: minInt_def Features_all_def)
  moreover have "fl_scan zero_or_not (valueToString_Int minInt) =
      Some (\<exists>c\<in>set (valueToString_Int minInt). c \<in> set ''123456789'')"
    by (simp add: zero_or_not_def)
  ultimately show ?thesis by (intro exI) (rule least_ints_read_as_real)
qed

text \<open>Between two elements of an array the reader accepts any token that is not the end of the
  array: a closing brace or a colon does for a comma.\<close>

theorem array_separator_ignored:
  assumes "plain v" "plain w" "\<not> strictRoot ft"
    and "sep \<in> {CHR '','', CHR '':'', CHR 0x7D}"
  shows "parse fl ft (''['' @ writeValue fl yaml v @ [sep] @ writeValue fl yaml w @ '']'') root =
     Inr (True, arrayValue [(0, v), (1, w)], \<lparr>rd_current = [], rd_errors = []\<rparr>)"
proof -
  let ?v = "writeValue fl yaml v" and ?w = "writeValue fl yaml w"
  let ?doc = "''['' @ ?v @ [sep] @ ?w @ '']''"
  let ?rest = "?v @ sep # ?w @ '']''"
  obtain k where k: "2 * length ?doc = Suc k" "2 * length ?v + 2 * length ?w + 4 < k" by simp
  have tok: "readToken (CHR ''['' # s) = (\<lparr>tk_type = tokenArrayBegin, tk_start = CHR ''['' # s, tk_end = s\<rparr>, s)" for s
    by (simp add: readToken_Cons is_space_def scan_token_def)
  have start: "peek_char (skipSpaces ?rest) \<noteq> CHR '']''"
    using starts_spaced [OF spaced_writeValue [OF assms(1)] assms(1), of fl yaml "sep # ?w @ '']''"]
    by (auto simp: starts_value_def peek_char_def)
  have "ends_number (sep # ?w @ '']'')"
    using assms(4) by (auto simp: ends_number_def is_digit_def less_eq_char_def)
  then have val: "readValue k fl ft v0 \<lparr>rd_current = ?rest, rd_errors = []\<rparr> =
      Inr (True, v, \<lparr>rd_current = sep # ?w @ '']'', rd_errors = []\<rparr>)" for v0
    using k by (intro readsD [OF reads_writeValue [OF assms(1)]]) simp_all
  have sep: "snd (next_token (sep # s)) = s" "tk_type (fst (next_token (sep # s))) \<noteq> tokenArrayEnd" for s
    using assms(4) next_token_simple [OF punctuation(6)] by (auto simp: punctuation)
  have "readArray k fl ft 1 [(0, v)] \<lparr>rd_current = ?w @ CHR '']'' # [], rd_errors = []\<rparr> =
      Inr (True, [(0, v)] @ [(1, w)], \<lparr>rd_current = [], rd_errors = []\<rparr>)"
    using readArray_texts [of "[((1, w), ?w)]" fl ft 1 "[(0, v)]" "[]" k "[]" "[]"]
      reads_writeValue [OF assms(2)] k by (simp add: upto_rec1)
  then have "readArray (Suc k) fl ft 0 [] \<lparr>rd_current = ?rest, rd_errors = []\<rparr> =
      Inr (True, [(0, v), (1, w)], \<lparr>rd_current = [], rd_errors = []\<rparr>)"
    using val sep [of "?w @ '']''"] by (simp add: array_body_def split_beta Let_def)
  then have "readArray (Suc k) fl ft 0 [] \<lparr>rd_current = skipSpaces ?rest, rd_errors = []\<rparr> =
      Inr (True, [(0, v), (1, w)], \<lparr>rd_current = [], rd_errors = []\<rparr>)"
    by (simp only: readArray_skip)
  then show ?thesis
    using k(1) start skipCommentTokens_simple [OF tok, of _ ft] parse_end_empty [OF assms(3)]
    by (simp add: parse_def value_body_def Let_def del: readArray.simps)
qed

theorem array_separator_ignored_witness:
  "parse zero_or_not Features_all [CHR ''['', CHR ''t'', CHR ''r'', CHR ''u'', CHR ''e'', CHR 0x7D, CHR ''7'', CHR '']''] nullValue =
     Inr (True, arrayValue [(0, booleanValue True), (1, intValue 7)], \<lparr>rd_current = [], rd_errors = []\<rparr>)"
proof -
  have "plain (booleanValue True :: bool JsonValue)" "plain (intValue 7 :: bool JsonValue)" "\<not> strictRoot Features_all"
    "CHR 0x7D \<in> {CHR '','', CHR '':'', CHR 0x7D}"
    by (simp_all add: maxInt_def Features_all_def)
  moreover have seven: "valueToString_Int 7 = ''7''" by code_simp
  ultimately show ?thesis
    using array_separator_ignored [of "booleanValue True" "intValue 7" Features_all "CHR 0x7D" zero_or_not True nullValue]
    by (simp add: valueToString_bool_def seven)
qed

section \<open>The shipped files\<close>

text \<open>What the parser makes of three of the four files.\<close>

definition Net_json :: "'d JsonValue" where
  "Net_json =
     objectValue [(''Head_Size'', intValue 12), (''Head_Size_S'', intValue 4),
     (''Max_Buffer_Size'', intValue 1048576), (''Tmp_Buffer_Size'', intValue 1024)]"

definition Room_json :: "'d JsonValue" where
  "Room_json =
     objectValue [(''Default_Room_Count'', intValue 5000), (''Room_Pool_Size'', intValue 5000),
     (''Room_Size'', intValue 10)]"

definition ini_json :: "'d JsonValue" where
  "ini_json =
     objectValue [(''Check_All_Client_DropOut_Time'', intValue 500), (''Check_HeartBeat_Time'',
     intValue 4000), (''Debug_Out'', booleanValue False), (''Epoll_Listen_Number'', intValue
     3072), (''Epoll_Wait_Time'', intValue 5), (''LOCAL_IP'', stringValue ''127.0.0.1''),
     (''One_Frame_Ms'', intValue 66), (''Pressure_Test'', booleanValue False),
     (''Server_Busy_Count'', intValue 1145), (''Server_Common_Count'', intValue 250),
     (''Server_Free_Count'', intValue 10), (''Support_Chase_Frame'', booleanValue True),
     (''Try_Connect_Server_Time'', intValue 1000), (''Try_Send_CenterServer_Time'', intValue
     5000)]"

lemma Net_text_parses:
  "parse_stream (fl :: 'd::equal floats) Features_all Net_text nullValue = Inr (True, Net_json, \<lparr>rd_current = [], rd_errors = []\<rparr>)"
  by code_simp

lemma Room_text_parses:
  "parse_stream (fl :: 'd::equal floats) Features_all Room_text nullValue = Inr (True, Room_json, \<lparr>rd_current = [], rd_errors = []\<rparr>)"
  by code_simp

lemma ini_text_parses:
  "parse_stream (fl :: 'd::equal floats) Features_all ini_text nullValue = Inr (True, ini_json, \<lparr>rd_current = [], rd_errors = []\<rparr>)"
  by code_simp

text \<open>C40: the shipped \<open>ini.json\<close>, \<open>Net.json\<close> and \<open>Room.json\<close>, read from their text, give the constants
  the network code and the rooms are proved correct for, whatever the record held before and
  whatever \<open>Server.json\<close> holds, as long as reading that one does not throw.\<close>

theorem shipped_config_ok:
  assumes "ConstPool (fl :: 'd::equal floats) (Some ini_text) (Some Net_text) (Some Room_text) server cfg0 = Inr cfg"
  shows "net_config_ok cfg \<and> room_config_ok cfg \<and> ROOM_SIZE cfg = 10 \<and> \<not> PRESSURE_TEST cfg \<and> IS_CHASE_FRAME cfg"
proof -
  let ?c1 = "cfg0\<lparr>IS_CHASE_FRAME := True, DEBUG := False, PRESSURE_TEST := False, EPOLL_WAIT_TIME := 5,
      MAX_CLIENTS := 3072, ONE_FRAME_MS := 66, CHECK_ALL_CLIENT_CONN := 500, TRY_CONNECT_SERVER_TIME := 1000,
      MAX_HEARTBEAT_DIFF := 4000, SEND_CENTERSERVER_TIME := 5000, LOCAL_IP := ''127.0.0.1'',
      SERVER_FREE_COUNT := 10, SERVER_COMMON_COUNT := 250, SERVER_BUSY_COUNT := 1145\<rparr>"
  have 1: "ReadINI fl (Some ini_text) cfg0 = Inr (True, ?c1)"
    by (simp add: ReadINI_def read_file_def ini_text_parses fill_ini_def ini_json_def json_get_defs om_at_def c_str_def)
  show ?thesis
    using assms unfolding ConstPool_def 1
    by (auto simp: ReadNet_def ReadRoom_def ReadServer_def read_file_def Net_text_parses Room_text_parses fill_net_def
        fill_room_def fill_server_def Net_json_def Room_json_def json_get_defs net_config_ok_def room_config_ok_def
        om_at_def c_str_def split: option.splits sum.splits if_splits)
qed

theorem shipped_config_ok_witness:
  "\<exists>cfg. ConstPool zero_or_not (Some ini_text) (Some Net_text) (Some Room_text) None
       example_cfg = Inr cfg \<and> ROOM_SIZE cfg = 10"
proof -
  obtain cfg where "ConstPool zero_or_not (Some ini_text) (Some Net_text) (Some Room_text) None
      example_cfg = Inr cfg"
    by (auto simp: ConstPool_def ReadINI_def ReadNet_def ReadRoom_def ReadServer_def read_file_def ini_text_parses
        Net_text_parses Room_text_parses fill_ini_def fill_net_def fill_room_def ini_json_def Net_json_def Room_json_def
        json_get_defs om_at_def c_str_def)
  then show ?thesis using shipped_config_ok [of zero_or_not None _ cfg] by blast
qed

end
