(* ===== verification/Json_Order.thy ===== *)
theory Json_Order
  imports Json_Value
begin

text \<open>
  The comparison operators of JSON values agree: of \<open>v < w\<close>, \<open>v == w\<close> and \<open>w < v\<close> exactly one holds,
  provided it does for the floating-point numbers in them (there is no NaN among them).
\<close>

definition one_of :: "bool \<Rightarrow> bool \<Rightarrow> bool \<Rightarrow> bool" where
  "one_of a b c \<longleftrightarrow> (a \<and> \<not> b \<and> \<not> c) \<or> (\<not> a \<and> b \<and> \<not> c) \<or> (\<not> a \<and> \<not> b \<and> c)"

definition fl_ordered :: "'d floats \<Rightarrow> bool" where
  "fl_ordered fl \<longleftrightarrow> (\<forall>a b. one_of (fl_lt fl a b) (fl_eq fl a b) (fl_lt fl b a))"


lemma order_cases:
  fixes i j :: "'k::linorder"
  obtains "i < j" "\<not> j < i" "i \<noteq> j" "j \<noteq> i" | "j < i" "\<not> i < j" "i \<noteq> j" "j \<noteq> i" | "i = j"
  using less_linear [of i j] less_asym [of i j] by blast

lemma json_trichotomy:
  "fl_ordered fl \<Longrightarrow> one_of (json_less fl v w) (json_eq fl v w) (json_less fl w v)"
  "fl_ordered fl \<Longrightarrow> one_of (elements_less fl m n) (elements_eq fl m n) (elements_less fl n m)"
  "fl_ordered fl \<Longrightarrow> one_of (members_less fl m' n') (members_eq fl m' n') (members_less fl n' m')"
proof (induction fl v w and fl m n and fl m' n' rule: json_less_elements_less_members_less.induct)
  case (1 fl w)
  then show ?case by (cases w) (simp_all add: one_of_def type_less_def)
next
  case (2 fl a w)
  then show ?case by (cases w) (auto simp: one_of_def type_less_def)
next
  case (3 fl a w)
  then show ?case by (cases w) (auto simp: one_of_def type_less_def)
next
  case (4 fl a w)
  then show ?case by (cases w) (simp_all add: fl_ordered_def, simp_all add: one_of_def type_less_def)
next
  case (5 fl a w)
  then show ?case by (cases w) (auto simp: one_of_def type_less_def)
next
  case (6 fl a w)
  then show ?case by (cases w) (auto simp: one_of_def type_less_def)
next
  case (7 fl m w)
  show ?case
  proof (cases w)
    case (arrayValue n)
    then show ?thesis using 7 by (cases "length m = length n") (auto simp: one_of_def)
  qed (simp_all add: one_of_def type_less_def)
next
  case (8 fl m w)
  show ?case
  proof (cases w)
    case (objectValue n)
    then show ?thesis using 8 by (cases "length m = length n") (auto simp: one_of_def)
  qed (simp_all add: one_of_def type_less_def)
next
  case (9 fl n)
  then show ?case by (cases n; cases "hd n") (simp_all add: one_of_def)
next
  case (11 fl n)
  then show ?case by (cases n; cases "hd n") (simp_all add: one_of_def)
next
  case (10 fl i x m n)
  show ?case
  proof (cases n)
    case (Cons e n')
    obtain j y where e: "e = (j, y)" by (cases e)
    note IH = 10(1) [OF Cons e [symmetric] "10.prems"] 10(3) [OF Cons e [symmetric] _ _ "10.prems"]
    show ?thesis
      using IH unfolding Cons e by (cases i j rule: order_cases) (simp_all add: one_of_def, blast)
  qed (simp add: one_of_def)
next
  case (12 fl i x m n)
  show ?case
  proof (cases n)
    case (Cons e n')
    obtain j y where e: "e = (j, y)" by (cases e)
    note IH = 12(1) [OF Cons e [symmetric] "12.prems"] 12(3) [OF Cons e [symmetric] _ _ "12.prems"]
    show ?thesis
      using IH unfolding Cons e by (cases i j rule: order_cases) (simp_all add: one_of_def, blast)
  qed (simp add: one_of_def)
qed

end
