(* ===== verification/Json_Styled.thy ===== *)
theory Json_Styled
  imports Json_Roundtrip
begin

text \<open>
  What the two indenting writers put out is a text of the value in the sense of \<open>spaced\<close>, so the reader
  reads it as that value. The second class is the same function as the first on its own writers.
\<close>

section \<open>The stream writer\<close>

definition same_writer :: "(Styled \<Rightarrow> Styled) \<Rightarrow> (Styled \<Rightarrow> Styled) \<Rightarrow> bool" where
  "same_writer f g \<longleftrightarrow> (\<forall>st. sw_stream st \<longrightarrow> f st = g st \<and> sw_stream (g st))"

lemma stream_methods:
  "stream_pushValue = pushValue" "stream_indent = sw_in" "stream_unindent = sw_out"
  "same_writer stream_writeIndent writeIndent" "same_writer (stream_writeWithIndent t) (writeWithIndent t)"
  by (simp_all add: fun_eq_iff same_writer_def stream_pushValue_def pushValue_def stream_indent_def sw_in_def
      stream_unindent_def sw_out_def stream_writeIndent_def writeIndent_def stream_writeWithIndent_def
      writeWithIndent_def Let_def)

lemma same_writerD: "same_writer f g \<Longrightarrow> sw_stream st \<Longrightarrow> f st = g st" "same_writer f g \<Longrightarrow> sw_stream st \<Longrightarrow> sw_stream (g st)"
  by (simp_all add: same_writer_def)

lemma keeps_stream [simp]:
  "sw_stream (pushValue t st) = sw_stream st" "sw_stream (write_text t st) = sw_stream st"
  "sw_stream (sw_in st) = sw_stream st" "sw_stream (sw_out st) = sw_stream st"
  "sw_stream (writeIndent st) = sw_stream st" "sw_stream (writeWithIndent t st) = sw_stream st"
  by (simp_all add: pushValue_def write_text_def sw_in_def sw_out_def writeIndent_def writeWithIndent_def Let_def)

lemma same_lines:
  "list_all2 same_writer fs gs \<Longrightarrow> same_writer (write_lines fs) (write_lines gs)"
proof (induction fs gs rule: list_all2_induct)
  case (Cons f fs g gs)
  have "write_lines (f # fs) st = write_lines (g # gs) st \<and> sw_stream (write_lines (g # gs) st)" if "sw_stream st" for st
  proof (cases fs)
    case Nil
    then show ?thesis using Cons that by (auto simp: same_writer_def)
  next
    case fs: (Cons f1 fs1)
    then obtain g1 gs1 where gs: "gs = g1 # gs1" using Cons.hyps(2) by (cases gs) auto
    have "sw_stream (write_text '','' (g st))" "f st = g st" using same_writerD [OF Cons.hyps(1) that] by simp_all
    then show ?thesis using Cons.IH by (simp add: fs gs same_writer_def)
  qed
  then show ?case by (simp add: same_writer_def)
qed (simp add: same_writer_def)

lemma same_collect:
  assumes "\<forall>v\<in>set vs. same_writer (f v) (g v)" "sw_stream st"
  shows "collect f vs st = collect g vs st \<and> sw_stream (collect g vs st)"
proof -
  have "fold f vs st = fold g vs st \<and> sw_stream (fold g vs st)" if "sw_stream st" for st
    using assms(1) that by (induction vs arbitrary: st) (simp_all add: same_writer_def)
  then show ?thesis using assms(2) by (simp add: collect_def)
qed

lemma same_array:
  assumes "\<forall>v\<in>set vs. same_writer (f v) (g v)"
  shows "same_writer (stream_writeArrayValue f vs) (writeArrayValue g vs)"
  unfolding same_writer_def
proof (intro allI impI)
  fix st :: Styled
  assume st: "sw_stream st"
  have multi: "isMultineArray f vs st = isMultineArray g vs st \<and> sw_stream (snd (isMultineArray g vs st))"
    using same_collect [OF assms, of "st\<lparr>sw_children := []\<rparr>"] st by (simp add: isMultineArray_def Let_def)
  have line: "same_writer (\<lambda>st. f v (stream_writeIndent st)) (\<lambda>st. g v (writeIndent st))" if "v \<in> set vs" for v
    using that assms stream_methods(4) by (simp add: same_writer_def)
  have lines: "same_writer (write_lines (if ts \<noteq> [] then map stream_writeWithIndent ts else map (\<lambda>v st. f v (stream_writeIndent st)) vs))
      (write_lines (if ts \<noteq> [] then map writeWithIndent ts else map (\<lambda>v st. g v (writeIndent st)) vs))" for ts
    by (rule same_lines) (auto simp: list.rel_map line stream_methods(5) intro!: list.rel_refl_strong)
  show "stream_writeArrayValue f vs st = writeArrayValue g vs st \<and> sw_stream (writeArrayValue g vs st)"
    using multi st same_writerD [OF lines] same_writerD [OF stream_methods(5)]
    by (simp add: stream_writeArrayValue_def writeArrayValue_def stream_isMultineArray_eq stream_methods(1,2,3)
        case_prod_beta Let_def)
qed

lemma stream_value_same: "same_writer (stream_value fl v) (styled_value fl v)"
proof (induction v)
  case (arrayValue m)
  have "same_writer (stream_value fl v) (styled_value fl v)" if "v \<in> set (array_elements m)" for v
    using that arrayValue by (auto simp: array_elements_def om_at_def same_writer_def pushValue_def stream_pushValue_def
        split: option.splits dest!: map_of_SomeD)
  then show ?case using same_array [of "array_elements m" "stream_value fl" "styled_value fl"]
    by (simp add: same_writer_def)
next
  case (objectValue m)
  let ?f = "\<lambda>e st. stream_value fl (snd e) (write_text '' : '' (stream_writeWithIndent (valueToQuotedString (fst e)) st))"
  let ?g = "\<lambda>e st. styled_value fl (snd e) (write_text '' : '' (writeWithIndent (valueToQuotedString (fst e)) st))"
  have "same_writer (?f e) (?g e)" if "e \<in> set m" for e
  proof -
    have "same_writer (stream_value fl (snd e)) (styled_value fl (snd e))"
      using that objectValue by - (cases e, auto)
    then show ?thesis using stream_methods(5) by (simp add: same_writer_def)
  qed
  then have "same_writer (write_lines (map ?f m)) (write_lines (map ?g m))"
    by (intro same_lines) (auto simp: list.rel_map intro!: list.rel_refl_strong)
  then show ?case
    using same_writerD [OF stream_methods(5)] by (simp add: same_writer_def stream_methods(1,2,3))
qed (simp_all add: same_writer_def pushValue_def stream_pushValue_def)

section \<open>What the writers put out\<close>

text \<open>A writer that is not collecting, with white space for its indentation.\<close>

definition writing :: "Styled \<Rightarrow> bool" where
  "writing st \<longleftrightarrow> \<not> sw_add st \<and> blank (sw_indent st) \<and> blank (sw_unit st)"

text \<open>A step of a writer that adds a text with the property \<open>P\<close> to the document.\<close>

definition lays :: "(string \<Rightarrow> bool) \<Rightarrow> Styled \<Rightarrow> Styled \<Rightarrow> bool" where
  "lays P st st' \<longleftrightarrow> (\<exists>t ch. P t \<and> st' = st\<lparr>sw_document := sw_document st @ t, sw_children := ch\<rparr>)"

lemma laysI: "P t \<Longrightarrow> st' = st\<lparr>sw_document := sw_document st @ t, sw_children := ch\<rparr> \<Longrightarrow> lays P st st'"
  by (auto simp: lays_def)

lemma laysE:
  assumes "lays P st st'"
  obtains t ch where "P t" "st' = st\<lparr>sw_document := sw_document st @ t, sw_children := ch\<rparr>"
  using assms by (auto simp: lays_def)

lemma writing_update [simp]: "writing (st\<lparr>sw_document := d, sw_children := ch\<rparr>) = writing st"
  "writing (st\<lparr>sw_document := d\<rparr>) = writing st" "writing (st\<lparr>sw_children := ch\<rparr>) = writing st"
  by (simp_all add: writing_def)

lemma writeIndent_lays:
  assumes "writing st"
  shows "\<exists>s. blank s \<and> writeIndent st = st\<lparr>sw_document := sw_document st @ s\<rparr>"
proof -
  consider "sw_stream st" | "\<not> sw_stream st" "sw_document st \<noteq> []" "last (sw_document st) = CHR '' ''"
    | "\<not> sw_stream st" "sw_document st \<noteq> []" "last (sw_document st) \<noteq> CHR '' ''" "last (sw_document st) \<noteq> CHR 0x0A"
    | "\<not> sw_stream st" "sw_document st = [] \<or> last (sw_document st) = CHR 0x0A"
    by blast
  then show ?thesis
  proof cases
    case 1
    then show ?thesis using assms
      by (intro exI [of _ "CHR 0x0A # sw_indent st"]) (simp add: writeIndent_def writing_def is_space_def)
  next
    case 2
    then show ?thesis by (intro exI [of _ "[]"]) (simp add: writeIndent_def)
  next
    case 3
    then show ?thesis using assms
      by (intro exI [of _ "CHR 0x0A # sw_indent st"]) (simp add: writeIndent_def writing_def is_space_def)
  next
    case 4
    then show ?thesis using assms
      by (intro exI [of _ "sw_indent st"]) (auto simp: writeIndent_def writing_def)
  qed
qed

lemma writeWithIndent_lays:
  assumes "writing st"
  shows "\<exists>s. blank s \<and> writeWithIndent t st = st\<lparr>sw_document := sw_document st @ s @ t\<rparr>"
proof -
  obtain s where "blank s" "writeIndent st = st\<lparr>sw_document := sw_document st @ s\<rparr>"
    using writeIndent_lays [OF assms] by blast
  then show ?thesis by (intro exI [of _ s]) (simp add: writeWithIndent_def)
qed

lemma write_lines_lays:
  assumes "list_all2 (\<lambda>f P. \<forall>st. writing st \<longrightarrow> lays P st (f st)) fs Ps" "fs \<noteq> []" "writing st"
  shows "lays (\<lambda>t. \<exists>ts. list_all2 (\<lambda>P u. P u) Ps ts \<and> t = join_text '','' ts) st (write_lines fs st)"
  using assms
proof (induction fs Ps arbitrary: st rule: list_all2_induct)
  case (Cons f fs P Ps)
  then obtain t ch where f: "P t" "f st = st\<lparr>sw_document := sw_document st @ t, sw_children := ch\<rparr>"
    by (blast elim: laysE)
  show ?case
  proof (cases fs)
    case Nil
    then have "Ps = []" using Cons.hyps(2) by simp
    then show ?thesis using f Nil by (intro laysI [where t = t and ch = ch]) (auto intro!: exI [of _ "[t]"])
  next
    case fs: (Cons f1 fs1)
    let ?st = "write_text '','' (f st)"
    have "writing ?st" using Cons.prems f(2) by (simp add: write_text_def)
    then have "lays (\<lambda>t. \<exists>ts. list_all2 (\<lambda>P u. P u) Ps ts \<and> t = join_text '','' ts) ?st (write_lines fs ?st)"
      using Cons.IH fs by simp
    then obtain ts ch1 where ts: "list_all2 (\<lambda>P u. P u) Ps ts"
        "write_lines fs ?st = ?st\<lparr>sw_document := sw_document ?st @ join_text '','' ts, sw_children := ch1\<rparr>"
      by (auto elim!: laysE)
    have "ts \<noteq> []" using ts(1) Cons.hyps(2) fs by auto
    then have "join_text '','' (t # ts) = t @ '','' @ join_text '','' ts" by (cases ts) simp_all
    then show ?thesis
      using f ts fs by (intro laysI [where t = "t @ '','' @ join_text '','' ts" and ch = ch1])
        (auto simp: write_text_def intro!: exI [of _ "t # ts"])
  qed
qed simp

text \<open>Opening, the lines one step further in, closing.\<close>

lemma block_lays:
  assumes fs: "list_all2 (\<lambda>f P. \<forall>st. writing st \<longrightarrow> lays P st (f st)) fs Ps" "fs \<noteq> []" and st: "writing st"
  shows "lays (\<lambda>t. \<exists>s1 ts s2. blank s1 \<and> blank s2 \<and> list_all2 (\<lambda>P u. P u) Ps ts \<and>
      t = s1 @ a @ join_text '','' ts @ s2 @ b) st
    (writeWithIndent b (sw_out (write_lines fs (sw_in (writeWithIndent a st)))))"
proof -
  obtain s1 where s1: "blank s1" "writeWithIndent a st = st\<lparr>sw_document := sw_document st @ s1 @ a\<rparr>"
    using writeWithIndent_lays [OF st] by blast
  let ?st1 = "sw_in (writeWithIndent a st)"
  have w: "writing ?st1" using st s1(2) by (simp add: sw_in_def writing_def)
  obtain ts ch where ts: "list_all2 (\<lambda>P u. P u) Ps ts"
      "write_lines fs ?st1 = ?st1\<lparr>sw_document := sw_document ?st1 @ join_text '','' ts, sw_children := ch\<rparr>"
    using write_lines_lays [OF fs w] by (auto elim: laysE)
  let ?st2 = "sw_out (write_lines fs ?st1)"
  have st2: "?st2 = st\<lparr>sw_document := sw_document st @ s1 @ a @ join_text '','' ts, sw_children := ch\<rparr>"
    unfolding ts(2) unfolding s1(2) by (simp add: sw_in_def sw_out_def)
  then have "writing ?st2" using st by simp
  then obtain s2 where "blank s2" "writeWithIndent b ?st2 = ?st2\<lparr>sw_document := sw_document ?st2 @ s2 @ b\<rparr>"
    using writeWithIndent_lays by blast
  then show ?thesis
    unfolding st2 using s1(1) ts(1)
    by (intro laysI [where t = "s1 @ a @ join_text '','' ts @ s2 @ b" and ch = ch]) auto
qed

lemma array_elements_plain:
  assumes "plain (arrayValue m)"
  shows "array_elements m = map snd m" "json_size (arrayValue m) = int (length m)"
proof -
  have keys: "map fst m = [0..0 + int (length m) - 1]" using assms by simp
  show size: "json_size (arrayValue m) = int (length m)"
  proof (cases "m = []")
    case False
    have "fst (last m) = last (map fst m)" using False by (simp add: last_map)
    also have "\<dots> = int (length m) - 1"
      unfolding keys using False by (subst last_conv_nth) (auto simp: nth_upto of_nat_diff Suc_leI)
    finally show ?thesis using False by simp
  qed simp
  show "array_elements m = map snd m"
    using map_of_consecutive [OF keys, of nullValue] unfolding array_elements_def size by simp
qed

lemma styled_scalar:
  "json_type v \<notin> {arrayType, objectType} \<Longrightarrow> styled_value fl v st = pushValue (writeValue fl False v) st"
  by (cases v) simp_all

lemma scalar_lays:
  assumes "json_type v \<notin> {arrayType, objectType}" "writing st"
  shows "lays (spaced fl v) st (styled_value fl v st)"
proof (rule laysI [where P = "spaced fl v" and ch = "sw_children st"])
  show "spaced fl v (writeValue fl False v)" using assms(1) by (rule spaced_scalar)
  show "styled_value fl v st = st\<lparr>sw_document := sw_document st @ writeValue fl False v, sw_children := sw_children st\<rparr>"
    using assms(2) by (cases st) (simp add: styled_scalar [OF assms(1)] pushValue_def writing_def)
qed

lemma writeWithIndent_children [simp]: "sw_children (writeWithIndent t st) = sw_children st"
  by (simp add: writeWithIndent_def writeIndent_def Let_def)

lemma text_lays:
  assumes "spaced fl v t" "writing st"
  shows "lays (spaced fl v) st (writeWithIndent t st)"
proof -
  obtain s where s: "blank s" "writeWithIndent t st = st\<lparr>sw_document := sw_document st @ s @ t\<rparr>"
    using writeWithIndent_lays [OF assms(2)] by blast
  show ?thesis
    unfolding s(2)
    by (rule laysI [where P = "spaced fl v" and ch = "sw_children st", OF spaced_blank [OF assms(1) s(1)]]) (cases st, simp)
qed

text \<open>What is collected has nothing in it.\<close>

lemma collected:
  assumes "sw_add st" "\<not> has_children v" "plain v"
  shows "\<exists>t. spaced fl v t \<and> styled_value fl v st = st\<lparr>sw_children := sw_children st @ [t]\<rparr>"
proof (cases v)
  case (arrayValue m)
  then have m: "m = []" "array_elements m = []"
    using assms(2,3) array_elements_plain [of m] by (simp_all add: has_children_def isArray_def)
  then show ?thesis
    using assms(1) arrayValue spaced_array [of fl "[]" "[]" "[]"]
    by (intro exI [of _ "''[]''"]) (simp add: writeArrayValue_def pushValue_def)
next
  case (objectValue m)
  then have "m = []" using assms(2) by (simp add: has_children_def isObject_def)
  then show ?thesis
    using assms(1) objectValue spaced_object [of fl "[]" "[]" "[]"]
    by (intro exI [of _ "[CHR 0x7B, CHR 0x7D]"]) (simp add: pushValue_def)
qed (use assms(1) styled_scalar [of v fl st] spaced_scalar [of v fl False] in \<open>auto simp: pushValue_def\<close>)

lemma collect_lays:
  assumes "\<forall>v\<in>set vs. \<not> has_children v \<and> plain v" "sw_children st = []" "\<not> sw_add st"
  shows "\<exists>ts. list_all2 (spaced fl) vs ts \<and> collect (styled_value fl) vs st = st\<lparr>sw_children := ts\<rparr>"
proof -
  have "\<exists>ts. list_all2 (spaced fl) vs ts \<and> fold (styled_value fl) vs st = st\<lparr>sw_children := sw_children st @ ts\<rparr>"
    if "sw_add st" for st
    using assms(1) that
  proof (induction vs arbitrary: st)
    case (Cons v vs)
    then obtain t where t: "spaced fl v t" "styled_value fl v st = st\<lparr>sw_children := sw_children st @ [t]\<rparr>"
      using collected [of st v fl] by auto
    then obtain ts where "list_all2 (spaced fl) vs ts"
        "fold (styled_value fl) vs (st\<lparr>sw_children := sw_children st @ [t]\<rparr>) = st\<lparr>sw_children := sw_children st @ t # ts\<rparr>"
      using Cons.IH [of "st\<lparr>sw_children := sw_children st @ [t]\<rparr>"] Cons.prems by auto
    then show ?case using t by (intro exI [of _ "t # ts"]) simp
  qed (intro exI [of _ "[]"], simp)
  from this [of "st\<lparr>sw_add := True\<rparr>"] show ?thesis
    using assms(2,3) by (auto simp: collect_def)
qed

lemma join_text_blank:
  "ts \<noteq> [] \<Longrightarrow> CHR '' '' # join_text '', '' ts = join_text '','' (map (Cons (CHR '' '')) ts)"
proof (induction ts)
  case (Cons t ts)
  then show ?case by (cases ts) simp_all
qed simp

lemma spaced_Cons: "spaced fl v t \<Longrightarrow> spaced fl v (CHR '' '' # t)"
  using spaced_blank [of fl v t "'' ''"] by (simp add: is_space_def)

text \<open>An array, given what the writer does to its elements.\<close>

lemma array_lays:
  assumes m: "plain (arrayValue m)" "m \<noteq> []" and st: "writing st"
    and IH: "\<And>e st. e \<in> set m \<Longrightarrow> writing st \<Longrightarrow> lays (spaced fl (snd e)) st (styled_value fl (snd e) st)"
  shows "lays (spaced fl (arrayValue m)) st (writeArrayValue (styled_value fl) (map snd m) st)"
proof -
  let ?vs = "map snd m" and ?st0 = "st\<lparr>sw_children := []\<rparr>"
  have lines: "lays (spaced fl (arrayValue m)) st0 (writeWithIndent '']'' (sw_out (write_lines fs (sw_in (writeWithIndent ''['' st0)))))"
    if all: "list_all2 (\<lambda>f e. \<forall>st. writing st \<longrightarrow> lays (spaced fl (snd e)) st (f st)) fs m" and w: "writing st0" for fs st0
  proof -
    have fs: "list_all2 (\<lambda>f P. \<forall>st. writing st \<longrightarrow> lays P st (f st)) fs (map (\<lambda>e. spaced fl (snd e)) m)" "fs \<noteq> []"
      using all m(2) by (auto simp: list.rel_map)
    obtain s1 ts s2 ch where t: "blank s1" "blank s2" "list_all2 (\<lambda>e. spaced fl (snd e)) m ts"
        "writeWithIndent '']'' (sw_out (write_lines fs (sw_in (writeWithIndent ''['' st0)))) =
          st0\<lparr>sw_document := sw_document st0 @ s1 @ ''['' @ join_text '','' ts @ s2 @ '']'', sw_children := ch\<rparr>"
      using block_lays [OF fs w, of "''[''" "'']''"] by (auto simp: list.rel_map elim!: laysE)
    show ?thesis
      unfolding t(4)
      by (rule laysI [where P = "spaced fl (arrayValue m)", OF spaced_blank [OF spaced_array [OF t(3,2)] t(1)]]) simp
  qed
  have fresh: "lays P st s'" if "lays P (st\<lparr>sw_children := ch\<rparr>) s'" for P ch s'
    using that by (auto simp: lays_def)
  consider "isMultineArray (styled_value fl) ?vs st = (True, ?st0)"
    | multi ts where "list_all2 (spaced fl) ?vs ts" "isMultineArray (styled_value fl) ?vs st = (multi, ?st0\<lparr>sw_children := ts\<rparr>)"
  proof (cases "int (length ?vs) * 3 \<ge> rightMargin \<or> (\<exists>v\<in>set ?vs. has_children v)")
    case True
    then show ?thesis by (intro that(1)) (simp add: isMultineArray_def Let_def)
  next
    case False
    then obtain ts where "list_all2 (spaced fl) ?vs ts" "collect (styled_value fl) ?vs ?st0 = ?st0\<lparr>sw_children := ts\<rparr>"
      using collect_lays [of ?vs ?st0 fl] m(1) st by (auto simp: writing_def)
    then show ?thesis using False by (intro that(2)) (auto simp: isMultineArray_def Let_def)
  qed
  then show ?thesis
  proof cases
    case 1
    let ?fs = "map (\<lambda>v st. styled_value fl v (writeIndent st)) ?vs"
    have "lays (spaced fl (snd e)) st (styled_value fl (snd e) (writeIndent st))" if e: "e \<in> set m" and w: "writing st" for e st
    proof -
      obtain s where s: "blank s" "writeIndent st = st\<lparr>sw_document := sw_document st @ s\<rparr>"
        using writeIndent_lays [OF w] by blast
      then obtain t ch where "spaced fl (snd e) t" "styled_value fl (snd e) (writeIndent st) =
          st\<lparr>sw_document := sw_document st @ s @ t, sw_children := ch\<rparr>"
        using IH [of e "writeIndent st"] e w by (auto elim: laysE)
      then show ?thesis using spaced_blank s(1) by (blast intro: laysI)
    qed
    then have "list_all2 (\<lambda>f e. \<forall>st. writing st \<longrightarrow> lays (spaced fl (snd e)) st (f st)) ?fs m"
      by (auto simp: list.rel_map intro!: list.rel_refl_strong)
    from lines [OF this, of ?st0] have "lays (spaced fl (arrayValue m)) st
        (writeWithIndent '']'' (sw_out (write_lines ?fs (sw_in (writeWithIndent ''['' ?st0)))))"
      using st by (intro fresh [of _ "[]"]) simp
    moreover have "sw_children (sw_in (writeWithIndent ''['' ?st0)) = []"
      using writeWithIndent_lays [of ?st0] st by (auto simp: sw_in_def)
    ultimately show ?thesis using 1 m(2) by (simp add: writeArrayValue_def)
  next
    case (2 multi ts)
    then have ts: "ts \<noteq> []" "list_all2 (\<lambda>e t. spaced fl (snd e) t) m ts" using m(2) by (auto simp: list.rel_map)
    let ?st1 = "?st0\<lparr>sw_children := ts\<rparr>"
    show ?thesis
    proof (cases multi)
      case True
      have "list_all2 (\<lambda>f e. \<forall>st. writing st \<longrightarrow> lays (spaced fl (snd e)) st (f st)) (map writeWithIndent ts) m"
        using ts(2) by (auto simp: list_all2_conv_all_nth text_lays)
      from lines [OF this, of ?st1] have "lays (spaced fl (arrayValue m)) st
          (writeWithIndent '']'' (sw_out (write_lines (map writeWithIndent ts) (sw_in (writeWithIndent ''['' ?st1)))))"
        using st by (intro fresh [of _ ts]) simp
      moreover have "sw_children (sw_in (writeWithIndent ''['' ?st1)) = ts"
        by (simp add: sw_in_def)
      ultimately show ?thesis using 2(2) m(2) True ts(1) by (simp add: writeArrayValue_def)
    next
      case False
      have "list_all2 (\<lambda>e t. spaced fl (snd e) t) m (map (Cons (CHR '' '')) ts)"
        using ts(2) by (auto simp: list_all2_conv_all_nth spaced_Cons)
      from spaced_array [OF this, of "'' ''"]
      have "spaced fl (arrayValue m) (''[ '' @ join_text '', '' ts @ '' ]'')"
        by (simp add: is_space_def flip: join_text_blank [OF ts(1)])
      then have "lays (spaced fl (arrayValue m)) st
          (st\<lparr>sw_document := sw_document st @ ''[ '' @ join_text '', '' ts @ '' ]'', sw_children := ts\<rparr>)"
        by (rule laysI [where P = "spaced fl (arrayValue m)"]) simp
      then show ?thesis
        using 2(2) m(2) False by (cases st) (simp add: writeArrayValue_def write_text_def)
    qed
  qed
qed

lemma styled_lays: "plain v \<Longrightarrow> writing st \<Longrightarrow> lays (spaced fl v) st (styled_value fl v st)"
proof (induction v arbitrary: st)
  case (arrayValue m)
  have IH: "lays (spaced fl (snd e)) st (styled_value fl (snd e) st)" if "e \<in> set m" "writing st" for e st
    using arrayValue.IH [of e "snd e" st] arrayValue.prems(1) that by - (cases e, auto)
  show ?case
  proof (cases "m = []")
    case True
    then show ?thesis
      using arrayValue.prems(2) spaced_array [of fl "[]" "[]" "[]"]
      by (intro laysI [where t = "''[]''" and ch = "sw_children st"])
        (simp_all add: array_elements_def writeArrayValue_def pushValue_def writing_def)
  next
    case False
    then show ?thesis
      using array_lays [OF arrayValue.prems(1) False arrayValue.prems(2) IH] array_elements_plain [OF arrayValue.prems(1)]
      by simp
  qed
next
  case (objectValue m)
  let ?f = "\<lambda>e st. styled_value fl (snd e) (write_text '' : '' (writeWithIndent (valueToQuotedString (fst e)) st))"
  have line: "lays (member_of (spaced fl) e) st (?f e st)" if e: "e \<in> set m" and w: "writing st" for e st
  proof -
    obtain s where s: "blank s" "writeWithIndent (valueToQuotedString (fst e)) st =
        st\<lparr>sw_document := sw_document st @ s @ valueToQuotedString (fst e)\<rparr>"
      using writeWithIndent_lays [OF w] by blast
    let ?st = "st\<lparr>sw_document := sw_document st @ s @ valueToQuotedString (fst e) @ '' : ''\<rparr>"
    have "lays (spaced fl (snd e)) ?st (styled_value fl (snd e) ?st)"
      using objectValue.IH [of e "snd e" ?st] objectValue.prems(1) e w by - (cases e, auto)
    then obtain t ch where t: "spaced fl (snd e) t" "?f e st =
        st\<lparr>sw_document := sw_document st @ s @ valueToQuotedString (fst e) @ '' '' @ CHR '':'' # CHR '' '' # t, sw_children := ch\<rparr>"
      by (auto simp: s(2) write_text_def elim!: laysE)
    have "member_of (spaced fl) e (s @ valueToQuotedString (fst e) @ '' '' @ CHR '':'' # CHR '' '' # t)"
      unfolding member_of_def using s(1) spaced_Cons [OF t(1)]
      by (intro exI [of _ s] exI [of _ "'' ''"] exI [of _ "CHR '' '' # t"]) (simp add: is_space_def)
    then show ?thesis using t(2) by (rule laysI)
  qed
  show ?case
  proof (cases "m = []")
    case True
    then show ?thesis
      using objectValue.prems(2) spaced_object [of fl "[]" "[]" "[]"]
      by (intro laysI [where t = "[CHR 0x7B, CHR 0x7D]" and ch = "sw_children st"])
        (simp_all add: pushValue_def writing_def)
  next
    case False
    have fs: "list_all2 (\<lambda>f P. \<forall>st. writing st \<longrightarrow> lays P st (f st)) (map ?f m) (map (member_of (spaced fl)) m)" "map ?f m \<noteq> []"
      using line False by (auto simp: list.rel_map intro!: list.rel_refl_strong)
    obtain s1 ts s2 ch where t: "blank s1" "blank s2" "list_all2 (\<lambda>e t. member_of (spaced fl) e t) m ts"
        "writeWithIndent [CHR 0x7D] (sw_out (write_lines (map ?f m) (sw_in (writeWithIndent [CHR 0x7B] st)))) =
          st\<lparr>sw_document := sw_document st @ s1 @ [CHR 0x7B] @ join_text '','' ts @ s2 @ [CHR 0x7D], sw_children := ch\<rparr>"
      using block_lays [OF fs objectValue.prems(2), of "[CHR 0x7B]" "[CHR 0x7D]"] by (auto simp: list.rel_map elim!: laysE)
    have "lays (spaced fl (objectValue m)) st
        (writeWithIndent [CHR 0x7D] (sw_out (write_lines (map ?f m) (sw_in (writeWithIndent [CHR 0x7B] st)))))"
      unfolding t(4)
      by (rule laysI [where P = "spaced fl (objectValue m)", OF spaced_blank [OF spaced_object [OF t(3,2)] t(1)]]) simp
    then show ?thesis using False by simp
  qed
qed (rule scalar_lays; simp)+

section \<open>Properties\<close>

text \<open>C24: a value without floating-point numbers, gaps in its arrays or NUL characters, whose integers keep
  clear of the ends of their ranges, is written by \<open>StyledWriter\<close>, and by \<open>StyledStreamWriter\<close> with any white space
  for one step of indentation, as a document that \<open>Reader\<close> reads as that value, without an error and to its end,
  however its arrays are broken into lines.\<close>

theorem styled_roundtrip:
  assumes "plain v" "\<not> strictRoot ft" "blank indentation"
  shows "parse fl ft (StyledWriter_write fl v) root = Inr (True, v, \<lparr>rd_current = [], rd_errors = []\<rparr>) \<and>
     parse fl ft (StyledStreamWriter_write fl indentation v) root = Inr (True, v, \<lparr>rd_current = [], rd_errors = []\<rparr>)"
proof -
  have read: "parse fl ft (t @ [CHR 0x0A]) root = Inr (True, v, \<lparr>rd_current = [], rd_errors = []\<rparr>)" if "spaced fl v t" for t
  proof -
    have "readValue (2 * length (t @ [CHR 0x0A]) + 1) fl ft root \<lparr>rd_current = t @ [CHR 0x0A], rd_errors = []\<rparr> =
        Inr (True, v, \<lparr>rd_current = [CHR 0x0A], rd_errors = []\<rparr>)"
      by (rule readsD [OF reads_spaced [OF that assms(1)] _ ends_number_punctuation(4)]) simp
    then show ?thesis using assms(2) unfolding parse_def by (simp add: parse_end_newline del: readValue.simps)
  qed
  have written: "spaced fl v (sw_document (styled_value fl v st))" if "writing st" "sw_document st = []" for st
    using styled_lays [OF assms(1) that(1), of fl] that(2) by (auto elim!: laysE)
  show ?thesis
    unfolding StyledWriter_write_def StyledStreamWriter_write_def
    using assms(3) same_writerD(1) [OF stream_value_same [of fl v]]
    by (intro conjI read) (simp_all add: written writing_def indentSize_def is_space_def eval_nat_numeral)
qed

text \<open>The reader takes back what was written with tabs; the sample has an array of scalars and an empty object.\<close>

definition styled_sample :: "'d JsonValue" where
  "styled_sample = objectValue [(''a'', arrayValue [(0, intValue (-12)), (1, stringValue [CHR 0x22, CHR 0x0A]),
     (2, arrayValue [(0, booleanValue True)])]), (''b'', objectValue [])]"

theorem styled_roundtrip_witness:
  "\<forall>fl :: bool floats. parse fl Features_all (StyledStreamWriter_write fl [CHR 0x09] styled_sample) nullValue =
     Inr (True, styled_sample, \<lparr>rd_current = [], rd_errors = []\<rparr>)"
proof
  fix fl :: "bool floats"
  have "plain (styled_sample :: bool JsonValue)" by (simp add: styled_sample_def om_wf_def maxInt_def upto_rec1)
  then show "parse fl Features_all (StyledStreamWriter_write fl [CHR 0x09] styled_sample) nullValue =
      Inr (True, styled_sample, \<lparr>rd_current = [], rd_errors = []\<rparr>)"
    using styled_roundtrip [of styled_sample Features_all "[CHR 0x09]" fl nullValue]
    by (simp add: Features_all_def is_space_def)
qed

end
