(* ===== verification/Json_Path.thy ===== *)
theory Json_Path
  imports Json_Writer
begin

text \<open>
  Paths into values: \<open>Path\<close> and \<open>PathArgument\<close> of \<open>src/Header/Json/value.h\<close> and
  \<open>src/Tool/lib_json/json_value.cpp\<close>. The reference \<open>make\<close> returns into its argument is a pair of
  functions: the value \<open>make\<close> leaves, and the one an assignment through the reference leaves.
\<close>

section \<open>Reading a path\<close>

datatype PathKind = NoneKind | IndexKind | KeyKind

datatype PathArgument = kindNone | kindIndex int | kindKey string

fun path_kind :: "PathArgument \<Rightarrow> PathKind" where
  "path_kind kindNone = NoneKind"
| "path_kind (kindIndex i) = IndexKind"
| "path_kind (kindKey k) = KeyKind"

text \<open>The iterator over the parameters is never moved, so it is always the first one that is taken;
  a parameter of another kind, or none, is skipped without a word.\<close>

definition addPathInArg :: "PathArgument list \<Rightarrow> PathKind \<Rightarrow> PathArgument list \<Rightarrow> PathArgument list" where
  "addPathInArg ins kind args =
     (case ins of [] \<Rightarrow> args | a # _ \<Rightarrow> if path_kind a \<noteq> kind then args else args @ [a])"

text \<open>The digits of an index, in an unsigned number of 32 bits.\<close>

fun path_index :: "string \<Rightarrow> int \<Rightarrow> int \<times> string" where
  "path_index [] index = (index, [])"
| "path_index (c # cs) index =
     (if CHR ''0'' \<le> c \<and> c \<le> CHR ''9''
      then path_index cs ((index * 10 + (int (of_char c) - 48)) mod 2 ^ 32)
      else (index, c # cs))"

text \<open>What ends a name: \<open>strchr\<close> also finds the NUL that ends its first argument.\<close>

definition ends_name :: "char \<Rightarrow> bool" where
  "ends_name c \<longleftrightarrow> c \<in> {CHR ''['', CHR ''.'', CHR 0x00}"

text \<open>
  The loop of \<open>makePath\<close> on the rest of the path. \<open>invalidPath\<close> does nothing, so whatever stands where the
  closing bracket should is consumed like it. A name may be empty: nothing is consumed then.
\<close>

fun makePath_loop ::
  "nat \<Rightarrow> PathArgument list \<Rightarrow> string \<Rightarrow> PathArgument list \<Rightarrow> PathArgument list json" where
  "makePath_loop 0 ins cs args = Inl (JsonFault NonTermination)"
| "makePath_loop (Suc n) ins [] args = Inr args"
| "makePath_loop (Suc n) ins (c # cs) args =
     (if c = CHR ''['' then
        let (args1, rest) =
              (if cs \<noteq> [] \<and> hd cs = CHR ''%'' then (addPathInArg ins IndexKind args, cs)
               else let (index, rest) = path_index cs 0 in (args @ [kindIndex index], rest))
        in makePath_loop n ins (drop 1 rest) args1
      else if c = CHR ''%'' then makePath_loop n ins cs (addPathInArg ins KeyKind args)
      else if c = CHR ''.'' then makePath_loop n ins cs args
      else makePath_loop n ins (dropWhile (\<lambda>c. \<not> ends_name c) (c # cs))
             (args @ [kindKey (takeWhile (\<lambda>c. \<not> ends_name c) (c # cs))]))"

definition makePath :: "string \<Rightarrow> PathArgument list \<Rightarrow> PathArgument list json" where
  "makePath path ins = makePath_loop (length path + 1) ins path []"

section \<open>Following a path\<close>

text \<open>\<open>resolve\<close>: the checks for a wrong type are empty, so the access decides.\<close>

fun path_resolve :: "PathArgument list \<Rightarrow> 'd JsonValue \<Rightarrow> 'd JsonValue json" where
  "path_resolve [] node = Inr node"
| "path_resolve (kindIndex i # args) node = json_bind (json_index node i) (path_resolve args)"
| "path_resolve (kindKey k # args) node = json_bind (json_member node k) (path_resolve args)"
| "path_resolve (kindNone # args) node = path_resolve args node"

text \<open>\<open>resolve\<close> with a default. An array is left with the default when the index is a valid one; a
  missing member is recognised by the address of the shared null.\<close>

fun path_resolve_default :: "PathArgument list \<Rightarrow> 'd JsonValue \<Rightarrow> 'd JsonValue \<Rightarrow> 'd JsonValue json" where
  "path_resolve_default [] node dflt = Inr node"
| "path_resolve_default (kindIndex i # args) node dflt =
     (if \<not> isArray node \<or> isValidIndex node i then Inr dflt
      else json_bind (json_index node i) (\<lambda>node1. path_resolve_default args node1 dflt))"
| "path_resolve_default (kindKey k # args) node dflt =
     (if \<not> isObject node then Inr dflt
      else json_bind (isMember node k) (\<lambda>there.
        if \<not> there then Inr dflt
        else json_bind (json_member node k) (\<lambda>node1. path_resolve_default args node1 dflt)))"
| "path_resolve_default (kindNone # args) node dflt = path_resolve_default args node dflt"

text \<open>\<open>make\<close>, and an assignment through the reference it returns.\<close>

fun path_make :: "PathArgument list \<Rightarrow> 'd JsonValue \<Rightarrow> 'd JsonValue json" where
  "path_make [] node = Inr node"
| "path_make (kindIndex i # args) node =
     json_bind (json_index_touch i node) (\<lambda>node1.
     json_bind (json_index node1 i) (\<lambda>child.
     json_bind (path_make args child) (\<lambda>child1. json_index_put i child1 node1)))"
| "path_make (kindKey k # args) node =
     json_bind (resolveReference k node) (\<lambda>node1.
     json_bind (json_member node1 k) (\<lambda>child.
     json_bind (path_make args child) (\<lambda>child1. json_put k child1 node1)))"
| "path_make (kindNone # args) node = path_make args node"

fun path_put :: "PathArgument list \<Rightarrow> 'd JsonValue \<Rightarrow> 'd JsonValue \<Rightarrow> 'd JsonValue json" where
  "path_put [] x node = Inr x"
| "path_put (kindIndex i # args) x node =
     json_bind (json_index_touch i node) (\<lambda>node1.
     json_bind (json_index node1 i) (\<lambda>child.
     json_bind (path_put args x child) (\<lambda>child1. json_index_put i child1 node1)))"
| "path_put (kindKey k # args) x node =
     json_bind (resolveReference k node) (\<lambda>node1.
     json_bind (json_member node1 k) (\<lambda>child.
     json_bind (path_put args x child) (\<lambda>child1. json_put k child1 node1)))"
| "path_put (kindNone # args) x node = path_put args x node"

section \<open>Reading a path ends, or never does\<close>

lemma path_index_length: "length (snd (path_index cs i)) \<le> length cs"
  by (induction cs i rule: path_index.induct) auto

lemma path_index_clean: "c \<notin> set cs \<Longrightarrow> c \<notin> set (snd (path_index cs i))"
  by (induction cs i rule: path_index.induct) auto

lemma path_index_range: "0 \<le> i \<Longrightarrow> i < 2 ^ 32 \<Longrightarrow> 0 \<le> fst (path_index cs i) \<and> fst (path_index cs i) < 2 ^ 32"
  by (induction cs i rule: path_index.induct) auto

text \<open>The next round of the loop gets a shorter rest, unless it starts with NUL.\<close>

definition path_rest :: "string \<Rightarrow> string" where
  "path_rest cs = (case cs of [] \<Rightarrow> []
     | c # cs \<Rightarrow> if c = CHR ''['' then drop 1 (if cs \<noteq> [] \<and> hd cs = CHR ''%'' then cs else snd (path_index cs 0))
         else if c \<in> {CHR ''%'', CHR ''.''} then cs
         else dropWhile (\<lambda>c. \<not> ends_name c) (c # cs))"

lemma makePath_loop_round:
  "\<exists>args'. makePath_loop (Suc n) ins (c # cs) args = makePath_loop n ins (path_rest (c # cs)) args'"
  by (auto simp: path_rest_def Let_def split: prod.splits)

lemma path_rest_shorter:
  assumes "CHR 0x00 \<notin> set (c # cs)"
  shows "length (path_rest (c # cs)) \<le> length cs" "CHR 0x00 \<notin> set (path_rest (c # cs))"
proof -
  consider (bracket) "c = CHR ''[''" | (sign) "c \<in> {CHR ''%'', CHR ''.''}" "c \<noteq> CHR ''[''"
    | (name) "c \<notin> {CHR ''['', CHR ''%'', CHR ''.''}" "\<not> ends_name c"
    using assms by (auto simp: ends_name_def)
  then have "length (path_rest (c # cs)) \<le> length cs \<and> CHR 0x00 \<notin> set (path_rest (c # cs))"
  proof cases
    case bracket
    let ?rest = "if cs \<noteq> [] \<and> hd cs = CHR ''%'' then cs else snd (path_index cs 0)"
    have "length ?rest \<le> length cs" "CHR 0x00 \<notin> set ?rest"
      using assms path_index_length [of cs 0] path_index_clean [of "CHR 0x00" cs 0] by simp_all
    moreover have "path_rest (c # cs) = drop 1 ?rest" by (simp add: path_rest_def bracket)
    ultimately show ?thesis by (auto dest: in_set_dropD)
  next
    case sign
    then show ?thesis using assms by (simp add: path_rest_def)
  next
    case name
    then have "path_rest (c # cs) = dropWhile (\<lambda>c. \<not> ends_name c) cs"
      by (auto simp: path_rest_def ends_name_def)
    then show ?thesis
      using assms length_dropWhile_le [of "\<lambda>c. \<not> ends_name c" cs] by (auto dest: set_dropWhileD)
  qed
  then show "length (path_rest (c # cs)) \<le> length cs" "CHR 0x00 \<notin> set (path_rest (c # cs))" by auto
qed

lemma makePath_loop_returns:
  "CHR 0x00 \<notin> set cs \<Longrightarrow> length cs < n \<Longrightarrow> \<exists>args'. makePath_loop n ins cs args = Inr args'"
proof (induction n arbitrary: cs args)
  case (Suc n)
  show ?case
  proof (cases cs)
    case (Cons c cs1)
    obtain args1 where "makePath_loop (Suc n) ins cs args = makePath_loop n ins (path_rest cs) args1"
      using makePath_loop_round [of n ins c cs1 args] Cons by blast
    then show ?thesis
      using Suc.IH [of "path_rest cs"] path_rest_shorter [of c cs1] Suc.prems Cons by fastforce
  qed simp
qed simp

lemma makePath_loop_stuck: "makePath_loop n ins (CHR 0x00 # cs) args = Inl (JsonFault NonTermination)"
  by (induction n arbitrary: args) (simp_all add: ends_name_def)

section \<open>Texts of paths\<close>

fun path_text :: "PathArgument list \<Rightarrow> string" where
  "path_text [] = []"
| "path_text (kindIndex i # args) = CHR ''['' # uintToString (nat i) @ CHR '']'' # path_text args"
| "path_text (kindKey k # args) = CHR ''.'' # k @ path_text args"
| "path_text (kindNone # args) = path_text args"

fun path_arg_ok :: "PathArgument \<Rightarrow> bool" where
  "path_arg_ok kindNone = False"
| "path_arg_ok (kindIndex i) \<longleftrightarrow> 0 \<le> i \<and> i < 2 ^ 32"
| "path_arg_ok (kindKey k) \<longleftrightarrow> k \<noteq> [] \<and> hd k \<noteq> CHR ''%'' \<and> (\<forall>c\<in>set k. \<not> ends_name c)"

lemma digit_char_value:
  "d < 10 \<Longrightarrow> CHR ''0'' \<le> digit_char d \<and> digit_char d \<le> CHR ''9'' \<and> int (of_char (digit_char d)) = 48 + int d"
proof -
  have "list_all (\<lambda>d. CHR ''0'' \<le> digit_char d \<and> digit_char d \<le> CHR ''9'' \<and> (of_char (digit_char d) :: nat) = 48 + d) [0..<10]"
    by code_simp
  then show ?thesis if "d < 10" using that by (auto simp: list_all_iff)
qed

lemma path_index_text: "n < 2 ^ 32 \<Longrightarrow> path_index (uintToString n @ rest) 0 = path_index rest (int n)"
proof (induction n arbitrary: rest rule: uintToString.induct)
  case (1 n)
  show ?case
  proof (cases "n < 10")
    case True
    then show ?thesis using digit_char_value [of n] by (subst uintToString.simps) simp
  next
    case False
    let ?d = "digit_char (n mod 10)"
    have "path_index (uintToString n @ rest) 0 = path_index (uintToString (n div 10) @ ?d # rest) 0"
      using False by (subst uintToString.simps) simp
    also have "\<dots> = path_index (?d # rest) (int (n div 10))"
      using 1 False by (intro "1.IH") simp_all
    also have "\<dots> = path_index rest ((int (n div 10) * 10 + int (n mod 10)) mod 2 ^ 32)"
      using digit_char_value [of "n mod 10"] by simp
    also have "int (n div 10) * 10 + int (n mod 10) = int n"
      by (metis div_mult_mod_eq of_nat_add of_nat_mult of_nat_numeral)
    finally show ?thesis using 1(2) by (simp add: of_nat_less_iff [symmetric] del: of_nat_less_iff)
  qed
qed

lemma uintToString_head: "\<exists>d ds. uintToString n = d # ds \<and> CHR ''0'' \<le> d \<and> d \<le> CHR ''9''"
proof (induction n rule: uintToString.induct)
  case (1 n)
  then show ?case
    using digit_char_value [of n] by (subst uintToString.simps) auto
qed

text \<open>After the text of a path comes the end, a dot or a bracket.\<close>

lemma path_text_start: "path_text args = [] \<or> (\<exists>c cs. path_text args = c # cs \<and> ends_name c \<and> c \<noteq> CHR 0x00)"
  by (induction args rule: path_text.induct) (auto simp: ends_name_def)

lemma makePath_key:
  assumes "path_arg_ok (kindKey k)" "rest = [] \<or> ends_name (hd rest)"
    and "makePath_loop n ins rest (args @ [kindKey k]) = Inr r"
  shows "makePath_loop (Suc (Suc n)) ins (CHR ''.'' # k @ rest) args = Inr r"
proof -
  obtain c cs where k: "k = c # cs" using assms(1) by (cases k) auto
  have "takeWhile (\<lambda>c. \<not> ends_name c) (k @ rest) = k" "dropWhile (\<lambda>c. \<not> ends_name c) (k @ rest) = rest"
    using assms(1,2) by (auto simp: takeWhile_append2 dropWhile_append2 takeWhile_eq_Nil_iff dropWhile_eq_self_iff)
  then have "makePath_loop (Suc n) ins (k @ rest) args = makePath_loop n ins rest (args @ [kindKey k])"
    using assms(1) k by (simp add: ends_name_def)
  then show ?thesis using assms(3) by simp
qed

lemma makePath_index:
  assumes "path_arg_ok (kindIndex i)" "makePath_loop n ins rest (args @ [kindIndex i]) = Inr r"
  shows "makePath_loop (Suc n) ins (CHR ''['' # uintToString (nat i) @ CHR '']'' # rest) args = Inr r"
proof -
  have i: "nat i < 2 ^ 32" "int (nat i) = i" using assms(1) by auto
  have "path_index (uintToString (nat i) @ CHR '']'' # rest) 0 = (i, CHR '']'' # rest)"
    using path_index_text [OF i(1), of "CHR '']'' # rest"] i(2) by (simp add: less_eq_char_def)
  moreover obtain d ds where "uintToString (nat i) = d # ds" "CHR ''0'' \<le> d"
    using uintToString_head by blast
  moreover from this have "d \<noteq> CHR ''%''" by (auto simp: less_eq_char_def)
  ultimately show ?thesis using assms(2) by simp
qed

lemma makePath_text:
  "\<forall>a\<in>set path. path_arg_ok a \<Longrightarrow> length (path_text path) < n \<Longrightarrow>
     makePath_loop n ins (path_text path) args = Inr (args @ path)"
proof (induction path arbitrary: args n)
  case Nil
  then show ?case by (cases n) simp_all
next
  case (Cons a path)
  show ?case
  proof (cases a)
    case (kindKey k)
    have "path_text path = [] \<or> ends_name (hd (path_text path))" using path_text_start [of path] by auto
    moreover have k: "k \<noteq> []" using Cons.prems(1) kindKey by simp
    moreover obtain m where m: "n = Suc (Suc m)" "length (path_text path) < m"
      using Cons.prems(2) k kindKey by (cases n; cases "n - 1"; cases k) auto
    ultimately show ?thesis
      using Cons kindKey makePath_key [of k "path_text path" m ins args] by simp
  next
    case (kindIndex i)
    then obtain m where "n = Suc m" "length (path_text path) < m" using Cons.prems(2) by (cases n) auto
    then show ?thesis using Cons kindIndex makePath_index [of i m ins "path_text path" args] by simp
  qed (use Cons.prems in simp)
qed

section \<open>Writing where a path leads\<close>

lemma index_put_get: "json_index_put i c v = Inr v' \<Longrightarrow> json_index v' i = Inr c"
  by (cases v) (auto simp: om_at_def)

lemma key_put_get: "json_put k c v = Inr v' \<Longrightarrow> json_member v' k = Inr c"
  by (cases v) (auto simp: om_at_def)

lemma path_put_resolve: "path_put args x v = Inr v' \<Longrightarrow> path_resolve args v' = Inr x"
proof (induction args x v arbitrary: v' rule: path_put.induct)
  case (2 i args x node)
  then show ?case by (auto dest!: index_put_get)
next
  case (3 k args x node)
  then show ?case by (auto dest!: key_put_get)
qed auto

text \<open>A path that starts elsewhere in the same array or object leads where it led before.\<close>

fun path_apart :: "PathArgument \<Rightarrow> PathArgument \<Rightarrow> bool" where
  "path_apart (kindIndex i) (kindIndex j) \<longleftrightarrow> i \<noteq> j"
| "path_apart (kindKey k) (kindKey l) \<longleftrightarrow> c_str k \<noteq> c_str l"
| "path_apart _ _ \<longleftrightarrow> False"

lemma index_put_other:
  "json_index_touch i v = Inr v1 \<Longrightarrow> json_index_put i c v1 = Inr v' \<Longrightarrow> i \<noteq> j \<Longrightarrow> json_index v' j = json_index v j"
  by (cases v) (auto simp: om_at_def om_touch_def)

lemma key_put_other:
  "resolveReference k v = Inr v1 \<Longrightarrow> json_put k c v1 = Inr v' \<Longrightarrow> c_str k \<noteq> c_str l \<Longrightarrow> json_member v' l = json_member v l"
  by (cases v) (auto simp: om_at_def om_touch_def)

lemma path_put_other:
  assumes "path_put (a # args) x v = Inr v'" "path_apart a b"
  shows "path_resolve (b # rest) v' = path_resolve (b # rest) v"
  using assms index_put_other key_put_other by (cases a; cases b) fastforce+

section \<open>Properties\<close>

text \<open>A path written down with a dot before each member name and each index in brackets is read back
  as the same steps, whatever parameters are given with it, when the names are not empty, do not
  start with a percent sign and contain no bracket, dot or NUL, and the indices fit 32 bits.\<close>

theorem path_text_roundtrip:
  assumes "\<forall>a\<in>set path. path_arg_ok a"
  shows "makePath (path_text path) ins = Inr path"
  using makePath_text [OF assms, of "length (path_text path) + 1" ins "[]"] by (simp add: makePath_def)

theorem path_text_roundtrip_witness:
  "makePath ''.rooms[12].id'' [] = Inr [kindKey ''rooms'', kindIndex 12, kindKey ''id'']"
proof -
  have "uintToString 12 = ''12''" by code_simp
  then have "path_text [kindKey ''rooms'', kindIndex 12, kindKey ''id''] = ''.rooms[12].id''" by simp
  moreover have "\<forall>a\<in>set [kindKey ''rooms'', kindIndex 12, kindKey ''id'']. path_arg_ok a"
    by (simp add: ends_name_def)
  ultimately show ?thesis by (metis path_text_roundtrip)
qed

text \<open>What is assigned through the reference \<open>make\<close> returns is what \<open>resolve\<close> then finds on the
  same path, although members and elements may have been created on the way; and a path that
  starts with another member or another index leads where it led before.\<close>

theorem path_write_read:
  assumes "path_put path x v = Inr v'"
  shows "path_resolve path v' = Inr x \<and>
     (\<forall>a args b rest. path = a # args \<longrightarrow> path_apart a b \<longrightarrow> path_resolve (b # rest) v' = path_resolve (b # rest) v)"
  using assms path_put_resolve path_put_other by blast

definition three_rooms :: "int JsonValue" where
  "three_rooms = objectValue [(''name'', stringValue ''x''), (''rooms'', nullValue)]"

theorem path_write_read_witness:
  "\<exists>v'. path_put [kindKey ''rooms'', kindIndex 2, kindKey ''id''] (intValue 7) three_rooms = Inr v' \<and>
     path_resolve [kindKey ''rooms'', kindIndex 2, kindKey ''id''] v' = Inr (intValue 7) \<and>
     path_resolve [kindKey ''name''] v' = Inr (stringValue ''x'')"
proof -
  let ?path = "[kindKey ''rooms'', kindIndex 2, kindKey ''id'']"
  have str: "c_str ''rooms'' = ''rooms''" "c_str ''name'' = ''name''" "c_str ''id'' = ''id''"
    by (simp_all add: c_str_def)
  then obtain v' where v': "path_put ?path (intValue 7) three_rooms = Inr v'"
    by (simp add: three_rooms_def om_touch_def om_has_def om_at_def)
  have "path_apart (kindKey ''rooms'') (kindKey ''name'')" by (simp add: str)
  then have "path_resolve [kindKey ''name''] v' = path_resolve [kindKey ''name''] three_rooms"
    using path_write_read [OF v'] by blast
  then show ?thesis
    using v' path_write_read [OF v'] str by (auto simp: three_rooms_def om_at_def)
qed

text \<open>Reading a path ends when there is no NUL in it. From a NUL where a name could start it goes on for
  ever, adding an empty member name in each round.\<close>

theorem path_reading_ends:
  "(CHR 0x00 \<notin> set path \<longrightarrow> (\<exists>args. makePath path ins = Inr args)) \<and>
   (\<forall>n. makePath_loop n ins (CHR 0x00 # rest) args = Inl (JsonFault NonTermination))"
  using makePath_loop_returns [of path "length path + 1" ins "[]"] makePath_loop_stuck
  by (auto simp: makePath_def)

theorem path_reading_ends_witness:
  "(\<exists>args. makePath ''.a]%[[b..'' [kindKey ''k''] = Inr args) \<and>
   makePath_loop 100 [] (CHR 0x00 # ''a'') [] = Inl (JsonFault NonTermination)"
  using path_reading_ends [of "''.a]%[[b..''" "[kindKey ''k'']"] path_reading_ends [of "[]" "[]" "''a''" "[]"] by simp

text \<open>\<open>resolve\<close> with a default tests the index the wrong way round: at an element that is there it
  returns the default, and beyond the end it goes on with null instead. At a member of an object
  it does what it should.\<close>

theorem path_default_inverted:
  assumes "v = arrayValue m" "isValidIndex v i" "\<not> isValidIndex v j" "om_get m j = None"
  shows "path_resolve [kindIndex i] v = Inr (om_at nullValue m i) \<and>
     path_resolve_default (kindIndex i # args) v dflt = Inr dflt \<and>
     path_resolve_default [kindIndex j] v dflt = Inr nullValue \<and>
     path_resolve_default [kindKey k] (objectValue ms) dflt = Inr (om_at dflt ms (c_str k))"
  using assms by (auto simp: isArray_def isObject_def om_at_def om_has_def split: option.splits)

theorem path_default_inverted_witness:
  "path_resolve_default [kindIndex 0] (arrayValue [(0, intValue 5)]) (intValue 9 :: int JsonValue) = Inr (intValue 9) \<and>
   path_resolve_default [kindIndex 1] (arrayValue [(0, intValue 5)]) (intValue 9 :: int JsonValue) = Inr nullValue"
proof -
  have "isValidIndex (arrayValue [(0, intValue 5)] :: int JsonValue) 0"
    "\<not> isValidIndex (arrayValue [(0, intValue 5)] :: int JsonValue) 1"
    "om_get [(0 :: int, intValue 5 :: int JsonValue)] 1 = None"
    by (simp_all add: isValidIndex_def)
  from path_default_inverted [OF refl this, of "[]" "intValue 9"] show ?thesis by blast
qed

text \<open>The parameters of a path: the index in \<open>[%]\<close> is taken, but the bracket after it becomes a member
  name, and the second parameter is never used.\<close>

theorem path_parameters_misread:
  "makePath ''.[%]'' (kindIndex i # ins) = Inr [kindIndex i, kindKey '']''] \<and>
   makePath ''.%.%'' (kindKey k # ins) = Inr [kindKey k, kindKey k]"
  by (simp add: makePath_def addPathInArg_def ends_name_def eval_nat_numeral)

end
