(* ===== verification/Json_Iter.thy ===== *)
theory Json_Iter
  imports Json_Value
begin

text \<open>
  Iterators over arrays and objects: \<open>src/Tool/lib_json/json_valueiterator.inl\<close>, with \<open>begin\<close> and \<open>end\<close> of
  \<open>src/Tool/lib_json/json_value.cpp\<close> and the operators of \<open>src/Header/Json/value.h\<close>. An iterator of \<open>std::map\<close> is a
  position in the entries of the value it belongs to, or none when it was default-constructed;
  going or looking beyond the ends, and comparing one that has no position, are faults.
\<close>

section \<open>The code\<close>

datatype CZKey = CZIndex int | CZName string

fun value_entries :: "'d JsonValue \<Rightarrow> (CZKey \<times> 'd JsonValue) list" where
  "value_entries (arrayValue m) = map (\<lambda>e. (CZIndex (fst e), snd e)) m"
| "value_entries (objectValue m) = map (\<lambda>e. (CZName (fst e), snd e)) m"
| "value_entries _ = []"

record ValueIterator =
  it_current :: "nat option"
  it_isNull :: bool

definition ValueIterator_new :: ValueIterator where
  "ValueIterator_new = \<lparr>it_current = None, it_isNull = True\<rparr>"

definition ValueIterator_at :: "nat \<Rightarrow> ValueIterator" where
  "ValueIterator_at i = \<lparr>it_current = Some i, it_isNull = False\<rparr>"

fun json_begin :: "'d JsonValue \<Rightarrow> ValueIterator" where
  "json_begin (arrayValue m) = ValueIterator_at 0"
| "json_begin (objectValue m) = ValueIterator_at 0"
| "json_begin _ = ValueIterator_new"

fun json_end :: "'d JsonValue \<Rightarrow> ValueIterator" where
  "json_end (arrayValue m) = ValueIterator_at (length m)"
| "json_end (objectValue m) = ValueIterator_at (length m)"
| "json_end _ = ValueIterator_new"

text \<open>The entry an iterator of the value \<open>v\<close> points to.\<close>

definition iter_entry :: "'d JsonValue \<Rightarrow> ValueIterator \<Rightarrow> (CZKey \<times> 'd JsonValue) res" where
  "iter_entry v it =
     (case it_current it of
        None \<Rightarrow> Inl NullDeref
      | Some i \<Rightarrow> if i < length (value_entries v) then Inr (value_entries v ! i) else Inl OutOfBounds)"

definition iter_deref :: "'d JsonValue \<Rightarrow> ValueIterator \<Rightarrow> 'd JsonValue res" where
  "iter_deref v it = bindF (iter_entry v it) (\<lambda>e. Inr (snd e))"

definition iter_increment :: "'d JsonValue \<Rightarrow> ValueIterator \<Rightarrow> ValueIterator res" where
  "iter_increment v it =
     (case it_current it of
        None \<Rightarrow> Inl NullDeref
      | Some i \<Rightarrow> if i < length (value_entries v) then Inr (it\<lparr>it_current := Some (Suc i)\<rparr>) else Inl OutOfBounds)"

definition iter_decrement :: "'d JsonValue \<Rightarrow> ValueIterator \<Rightarrow> ValueIterator res" where
  "iter_decrement v it =
     (case it_current it of
        None \<Rightarrow> Inl NullDeref
      | Some i \<Rightarrow> (case i of 0 \<Rightarrow> Inl OutOfBounds | Suc j \<Rightarrow> Inr (it\<lparr>it_current := Some j\<rparr>)))"

text \<open>The loop of \<open>computeDistance\<close>, from position \<open>i\<close> to \<open>j\<close> among \<open>n\<close> entries.\<close>

function distance_loop :: "nat \<Rightarrow> nat \<Rightarrow> nat \<Rightarrow> int \<Rightarrow> int res" where
  "distance_loop n i j myDistance =
     (if i = j then Inr myDistance
      else if i < n then distance_loop n (Suc i) j (myDistance + 1) else Inl OutOfBounds)"
  by pat_completeness auto

termination distance_loop
  by (relation "measure (\<lambda>(n, i, j, d). n - i)") auto

declare distance_loop.simps [simp del]

definition computeDistance :: "'d JsonValue \<Rightarrow> ValueIterator \<Rightarrow> ValueIterator \<Rightarrow> int res" where
  "computeDistance v it other =
     (if it_isNull it \<and> it_isNull other then Inr 0
      else case (it_current it, it_current other) of
             (Some i, Some j) \<Rightarrow> distance_loop (length (value_entries v)) i j 0
           | _ \<Rightarrow> Inl NullDeref)"

definition iter_minus :: "'d JsonValue \<Rightarrow> ValueIterator \<Rightarrow> ValueIterator \<Rightarrow> int res" where
  "iter_minus v it other = computeDistance v it other"

definition iter_isEqual :: "ValueIterator \<Rightarrow> ValueIterator \<Rightarrow> bool res" where
  "iter_isEqual it other =
     (if it_isNull it then Inr (it_isNull other)
      else case (it_current it, it_current other) of
             (Some i, Some j) \<Rightarrow> Inr (i = j)
           | _ \<Rightarrow> Inl NullDeref)"

text \<open>Assignment copies the position alone.\<close>

definition iter_copy :: "ValueIterator \<Rightarrow> ValueIterator \<Rightarrow> ValueIterator" where
  "iter_copy it other = it\<lparr>it_current := it_current other\<rparr>"

definition iter_assign :: "ValueIterator \<Rightarrow> ValueIterator \<Rightarrow> ValueIterator" where
  "iter_assign it other = iter_copy it other"

definition iter_key :: "'d JsonValue \<Rightarrow> ValueIterator \<Rightarrow> 'e JsonValue res" where
  "iter_key v it =
     bindF (iter_entry v it) (\<lambda>e. Inr (case fst e of CZIndex i \<Rightarrow> intValue i | CZName k \<Rightarrow> stringValue k))"

definition iter_index :: "'d JsonValue \<Rightarrow> ValueIterator \<Rightarrow> int res" where
  "iter_index v it =
     bindF (iter_entry v it) (\<lambda>e. Inr (case fst e of CZIndex i \<Rightarrow> i | CZName k \<Rightarrow> 2 ^ 32 - 1))"

definition iter_memberName :: "'d JsonValue \<Rightarrow> ValueIterator \<Rightarrow> string res" where
  "iter_memberName v it =
     bindF (iter_entry v it) (\<lambda>e. Inr (case fst e of CZIndex i \<Rightarrow> '''' | CZName k \<Rightarrow> k))"

section \<open>The loop the iterators are for\<close>

text \<open>\<open>for ( ; it != stop; ++it )\<close>, with what \<open>*it\<close> yields in each round; \<open>n\<close> bounds the tests.\<close>

fun iter_loop :: "nat \<Rightarrow> 'd JsonValue \<Rightarrow> ValueIterator \<Rightarrow> ValueIterator \<Rightarrow> 'd JsonValue list res" where
  "iter_loop 0 v it stop = Inl NonTermination"
| "iter_loop (Suc n) v it stop =
     bindF (iter_isEqual it stop) (\<lambda>done.
     if done then Inr []
     else bindF (iter_deref v it) (\<lambda>x.
          bindF (iter_increment v it) (\<lambda>it1.
          bindF (iter_loop n v it1 stop) (\<lambda>xs. Inr (x # xs)))))"

lemma entries_at [simp]:
  "length (value_entries v) = (case v of arrayValue m \<Rightarrow> length m | objectValue m \<Rightarrow> length m | _ \<Rightarrow> 0)"
  by (cases v) simp_all

lemmas iter_defs = iter_isEqual_def iter_deref_def iter_entry_def iter_increment_def ValueIterator_at_def

lemma iter_loop_from:
  assumes "i \<le> length (value_entries v)" "length (value_entries v) - i < n"
  shows "iter_loop n v (ValueIterator_at i) (ValueIterator_at (length (value_entries v))) =
     Inr (map snd (drop i (value_entries v)))"
  using assms
proof (induction n arbitrary: i)
  case (Suc n)
  let ?es = "value_entries v"
  show ?case
  proof (cases "i = length ?es")
    case False
    then have i: "i < length ?es" using Suc.prems(1) by simp
    have "iter_loop n v (ValueIterator_at (Suc i)) (ValueIterator_at (length ?es)) = Inr (map snd (drop (Suc i) ?es))"
      using Suc.prems i by (intro Suc.IH) auto
    then show ?thesis
      using i by (simp add: iter_defs Cons_nth_drop_Suc [symmetric] del: entries_at)
  qed (simp add: iter_defs del: entries_at)
qed simp

lemma distance_loop_up: "i \<le> j \<Longrightarrow> j \<le> n \<Longrightarrow> distance_loop n i j d = Inr (d + int (j - i))"
proof (induction n i j d rule: distance_loop.induct)
  case (1 n i j d)
  show ?case
  proof (cases "i = j")
    case False
    then show ?thesis using 1 by (subst distance_loop.simps) (auto simp: of_nat_diff)
  qed (simp add: distance_loop.simps)
qed

lemma distance_loop_down: "j < i \<Longrightarrow> distance_loop n i j d = Inl OutOfBounds"
proof (induction n i j d rule: distance_loop.induct)
  case (1 n i j d)
  then show ?case by (subst distance_loop.simps) auto
qed

lemma begin_end:
  "value_entries v \<noteq> [] \<Longrightarrow> json_begin v = ValueIterator_at 0 \<and> json_end v = ValueIterator_at (length (value_entries v))"
  by (cases v) simp_all

text \<open>The loop from \<open>begin\<close> to \<open>end\<close> visits every element of an array or member of an object, in the order of
  the indices or names, and nothing of another value, and the distance between the two is the number of
  what it visits; but \<open>end - begin\<close>, which is how \<open>operator-\<close> reads, walks off the end of everything that
  is not empty.\<close>

theorem iteration_complete:
  assumes "length (value_entries v) < n"
  shows "iter_loop n v (json_begin v) (json_end v) = Inr (map snd (value_entries v)) \<and>
     iter_minus v (json_begin v) (json_end v) = Inr (int (length (value_entries v))) \<and>
     (value_entries v \<noteq> [] \<longrightarrow> iter_minus v (json_end v) (json_begin v) = Inl OutOfBounds)"
proof (cases "value_entries v = []")
  case True
  then obtain k where "n = Suc k" using assms by (cases n) auto
  then show ?thesis
    using True by (cases v) (auto simp: iter_isEqual_def iter_minus_def computeDistance_def ValueIterator_at_def
        ValueIterator_new_def distance_loop.simps)
next
  case False
  let ?n = "length (value_entries v)"
  have "iter_minus v (json_begin v) (json_end v) = Inr (int ?n)"
    using begin_end [OF False] distance_loop_up [of 0 ?n ?n 0]
    by (simp add: iter_minus_def computeDistance_def ValueIterator_at_def del: entries_at)
  moreover have "iter_minus v (json_end v) (json_begin v) = Inl OutOfBounds"
    using begin_end [OF False] distance_loop_down [of 0 ?n ?n 0] False
    by (simp add: iter_minus_def computeDistance_def ValueIterator_at_def del: entries_at)
  ultimately show ?thesis
    using iter_loop_from [of 0 v n] assms begin_end [OF False] by simp
qed

theorem iteration_complete_witness:
  "iter_loop 3 (arrayValue [(0, intValue 4), (7, nullValue)]) (ValueIterator_at 0) (ValueIterator_at 2) =
     Inr [intValue 4, nullValue :: int JsonValue]"
  using iteration_complete [of "arrayValue [(0, intValue 4), (7, nullValue)] :: int JsonValue" 3] by (simp add: numeral_2_eq_2)

text \<open>An iterator that was declared first and assigned \<open>begin\<close> later still counts as the iterator of a null value,
  so it never equals \<open>end\<close>: the loop goes over everything and then beyond the end, for an empty array
  or object too.\<close>

theorem assigned_iterator_overruns:
  assumes "v = arrayValue m \<or> v = objectValue ms" "length (value_entries v) < n"
  shows "iter_loop n v (iter_assign ValueIterator_new (json_begin v)) (json_end v) = Inl OutOfBounds"
proof -
  have "iter_loop n v \<lparr>it_current = Some i, it_isNull = True\<rparr> (json_end v) = Inl OutOfBounds"
    if "i \<le> length (value_entries v)" "length (value_entries v) - i < n" for i
    using that
  proof (induction n arbitrary: i)
    case (Suc n)
    have never: "iter_isEqual \<lparr>it_current = Some i, it_isNull = True\<rparr> (json_end v) = Inr False"
      using assms(1) by (auto simp: iter_isEqual_def ValueIterator_at_def)
    show ?case
    proof (cases "i = length (value_entries v)")
      case True
      then show ?thesis using never by (simp add: iter_deref_def iter_entry_def del: entries_at)
    next
      case False
      then show ?thesis
        using never Suc by (simp add: iter_deref_def iter_entry_def iter_increment_def del: entries_at)
    qed
  qed simp
  moreover have "iter_assign ValueIterator_new (json_begin v) = \<lparr>it_current = Some 0, it_isNull = True\<rparr>"
    using assms(1) by (auto simp: iter_assign_def iter_copy_def ValueIterator_new_def ValueIterator_at_def)
  ultimately show ?thesis using assms(2) by simp
qed

theorem assigned_iterator_overruns_witness:
  "iter_loop 5 (arrayValue [(0, intValue 4)]) (iter_assign ValueIterator_new (ValueIterator_at 0)) (ValueIterator_at 1) =
     (Inl OutOfBounds :: int JsonValue list res)"
  using assigned_iterator_overruns [of "arrayValue [(0, intValue 4)]" "[(0, intValue 4)]" "[]" 5] by simp

end
