(* ===== verification/Json_Names.thy ===== *)
theory Json_Names
  imports Prelude
begin

text \<open>
  Who owns the text of a member name: \<open>Value::CZString\<close> of \<open>src/Tool/lib_json/json_value.cpp\<close>, the keys of
  arrays and objects. A key is an index, or points to a text that it has a copy of, borrows, or borrows until
  it is copied; the pointer's second use, \<open>cz_index\<close>, says which. The memory is the allocated blocks with
  their texts; freeing one that is not allocated, or reading it, is a fault.
\<close>

section \<open>The code\<close>

record memory =
  blocks :: "nat \<Rightarrow> string option"
  fresh :: nat

definition noDuplication :: int where "noDuplication = 0"
definition duplicate :: int where "duplicate = 1"
definition duplicateOnCopy :: int where "duplicateOnCopy = 2"

lemmas policies = noDuplication_def duplicate_def duplicateOnCopy_def

record CZString =
  cz_str :: "nat option"
  cz_index :: int

text \<open>\<open>strlen\<close> and \<open>memcpy\<close> into a new block.\<close>

definition makeMemberName :: "nat \<Rightarrow> memory \<Rightarrow> (nat \<times> memory) res" where
  "makeMemberName p h =
     (case blocks h p of
        None \<Rightarrow> Inl UseAfterFree
      | Some name \<Rightarrow> Inr (fresh h, \<lparr>blocks = (blocks h)(fresh h \<mapsto> c_str name), fresh = Suc (fresh h)\<rparr>))"

definition releaseMemberName :: "nat \<Rightarrow> memory \<Rightarrow> memory res" where
  "releaseMemberName p h =
     (if blocks h p = None then Inl UseAfterFree else Inr (h\<lparr>blocks := (blocks h)(p := None)\<rparr>))"

definition CZString_index :: "int \<Rightarrow> CZString" where
  "CZString_index index = \<lparr>cz_str = None, cz_index = index\<rparr>"

definition CZString_new :: "nat \<Rightarrow> int \<Rightarrow> memory \<Rightarrow> (CZString \<times> memory) res" where
  "CZString_new cstr allocate h =
     (if allocate = duplicate
      then bindF (makeMemberName cstr h) (\<lambda>(p, h1). Inr (\<lparr>cz_str = Some p, cz_index = allocate\<rparr>, h1))
      else Inr (\<lparr>cz_str = Some cstr, cz_index = allocate\<rparr>, h))"

definition CZString_copy :: "CZString \<Rightarrow> memory \<Rightarrow> (CZString \<times> memory) res" where
  "CZString_copy other h =
     (case cz_str other of
        None \<Rightarrow> Inr (\<lparr>cz_str = None, cz_index = cz_index other\<rparr>, h)
      | Some p \<Rightarrow>
          if cz_index other \<noteq> noDuplication
          then bindF (makeMemberName p h) (\<lambda>(q, h1). Inr (\<lparr>cz_str = Some q, cz_index = duplicate\<rparr>, h1))
          else Inr (\<lparr>cz_str = Some p, cz_index = noDuplication\<rparr>, h))"

definition CZString_destroy :: "CZString \<Rightarrow> memory \<Rightarrow> memory res" where
  "CZString_destroy z h =
     (case cz_str z of
        None \<Rightarrow> Inr h
      | Some p \<Rightarrow> if cz_index z = duplicate then releaseMemberName p h else Inr h)"

definition CZString_swap :: "CZString \<Rightarrow> CZString \<Rightarrow> CZString \<times> CZString" where
  "CZString_swap z other =
     (z\<lparr>cz_str := cz_str other, cz_index := cz_index other\<rparr>, other\<lparr>cz_str := cz_str z, cz_index := cz_index z\<rparr>)"

text \<open>A copy of the right-hand side, swapped in; what was there is destroyed with the temporary.\<close>

definition CZString_assign :: "CZString \<Rightarrow> CZString \<Rightarrow> memory \<Rightarrow> (CZString \<times> memory) res" where
  "CZString_assign z other h =
     bindF (CZString_copy other h) (\<lambda>(temp, h1).
       let (z1, temp1) = CZString_swap z temp in
       bindF (CZString_destroy temp1 h1) (\<lambda>h2. Inr (z1, h2)))"

definition CZString_text :: "CZString \<Rightarrow> memory \<Rightarrow> string res" where
  "CZString_text z h =
     (case cz_str z of
        None \<Rightarrow> Inl NullDeref
      | Some p \<Rightarrow> (case blocks h p of None \<Rightarrow> Inl UseAfterFree | Some name \<Rightarrow> Inr (c_str name)))"

definition isStaticString :: "CZString \<Rightarrow> bool" where
  "isStaticString z \<longleftrightarrow> cz_index z = noDuplication"

section \<open>A store of keys\<close>

text \<open>Programs that make, copy, assign and destroy keys. Texts that are not the keys' own are the blocks in
  \<open>outside\<close>; nobody frees them.\<close>

record key_store =
  mem :: memory
  keys :: "nat \<Rightarrow> CZString option"

datatype key_event =
    KIndex nat int
  | KNew nat nat int
  | KCopy nat nat
  | KAssign nat nat
  | KSwap nat nat
  | KDestroy nat

fun key_step :: "key_event \<Rightarrow> key_store \<Rightarrow> key_store res" where
  "key_step (KIndex x i) s = Inr (s\<lparr>keys := (keys s)(x \<mapsto> CZString_index i)\<rparr>)"
| "key_step (KNew x p policy) s =
     bindF (CZString_new p policy (mem s)) (\<lambda>(z, h). Inr \<lparr>mem = h, keys = (keys s)(x \<mapsto> z)\<rparr>)"
| "key_step (KCopy x y) s =
     (case keys s y of None \<Rightarrow> Inl NullDeref
      | Some other \<Rightarrow> bindF (CZString_copy other (mem s)) (\<lambda>(z, h). Inr \<lparr>mem = h, keys = (keys s)(x \<mapsto> z)\<rparr>))"
| "key_step (KAssign x y) s =
     (case (keys s x, keys s y) of
        (Some z, Some other) \<Rightarrow>
          bindF (CZString_assign z other (mem s)) (\<lambda>(z1, h). Inr \<lparr>mem = h, keys = (keys s)(x \<mapsto> z1)\<rparr>)
      | _ \<Rightarrow> Inl NullDeref)"
| "key_step (KSwap x y) s =
     (case (keys s x, keys s y) of
        (Some z, Some other) \<Rightarrow>
          (let (z1, other1) = CZString_swap z other in
           Inr (s\<lparr>keys := if x = y then keys s else (keys s)(x \<mapsto> z1, y \<mapsto> other1)\<rparr>))
      | _ \<Rightarrow> Inl NullDeref)"
| "key_step (KDestroy x) s =
     (case keys s x of None \<Rightarrow> Inl NullDeref
      | Some z \<Rightarrow> bindF (CZString_destroy z (mem s)) (\<lambda>h. Inr \<lparr>mem = h, keys = (keys s)(x := None)\<rparr>))"

text \<open>A name is free for a new key, one in use is there, and a new key is made from an outside text.\<close>

fun key_ok :: "nat set \<Rightarrow> key_store \<Rightarrow> key_event \<Rightarrow> bool" where
  "key_ok outside s (KIndex x i) \<longleftrightarrow> keys s x = None"
| "key_ok outside s (KNew x p policy) \<longleftrightarrow>
     keys s x = None \<and> p \<in> outside \<and> policy \<in> {noDuplication, duplicate, duplicateOnCopy}"
| "key_ok outside s (KCopy x y) \<longleftrightarrow> keys s x = None \<and> keys s y \<noteq> None"
| "key_ok outside s (KAssign x y) \<longleftrightarrow> keys s x \<noteq> None \<and> keys s y \<noteq> None"
| "key_ok outside s (KSwap x y) \<longleftrightarrow> keys s x \<noteq> None \<and> keys s y \<noteq> None"
| "key_ok outside s (KDestroy x) \<longleftrightarrow> keys s x \<noteq> None"

text \<open>The block a key has to free.\<close>

definition owned :: "CZString \<Rightarrow> nat option" where
  "owned z = (if cz_index z = duplicate then cz_str z else None)"

definition key_at :: "key_store \<Rightarrow> nat \<Rightarrow> nat option" where
  "key_at s x = (case keys s x of None \<Rightarrow> None | Some z \<Rightarrow> owned z)"

text \<open>Every block that is not outside belongs to exactly one key, and what a key borrows is outside.\<close>

definition owners_ok :: "nat set \<Rightarrow> memory \<Rightarrow> (nat \<Rightarrow> nat option) \<Rightarrow> bool" where
  "owners_ok outside h ow \<longleftrightarrow>
     dom (blocks h) = outside \<union> ran ow \<and> ran ow \<inter> outside = {} \<and> inj_on ow (dom ow) \<and> (\<forall>p\<in>dom (blocks h). p < fresh h)"

definition borrows_ok :: "nat set \<Rightarrow> CZString \<Rightarrow> bool" where
  "borrows_ok outside z \<longleftrightarrow> (\<forall>p. cz_str z = Some p \<longrightarrow> cz_index z \<noteq> duplicate \<longrightarrow> p \<in> outside)"

definition key_inv :: "nat set \<Rightarrow> key_store \<Rightarrow> bool" where
  "key_inv outside s \<longleftrightarrow> owners_ok outside (mem s) (key_at s) \<and> (\<forall>x z. keys s x = Some z \<longrightarrow> borrows_ok outside z)"

section \<open>Blocks and their owners\<close>

lemma owners_fresh: "owners_ok outside h ow \<Longrightarrow> fresh h \<notin> dom (blocks h) \<and> fresh h \<notin> outside \<and> fresh h \<notin> ran ow"
  by (auto simp: owners_ok_def)

lemma ran_update: "inj_on ow (dom ow) \<Longrightarrow> ran (ow(x := v)) = (ran ow - set_option (ow x)) \<union> set_option v"
  by (cases v) (auto simp: ran_def inj_on_def dom_def split: if_splits; metis option.inject)+

lemma inj_update:
  "inj_on ow (dom ow) \<Longrightarrow> v = None \<or> the v \<notin> ran ow \<Longrightarrow> inj_on (ow(x := v)) (dom (ow(x := v)))"
  by (cases v) (auto simp: inj_on_def ran_def dom_def)

lemma owners_alloc:
  assumes "owners_ok outside h ow" "ow x = None"
  shows "owners_ok outside \<lparr>blocks = (blocks h)(fresh h \<mapsto> t), fresh = Suc (fresh h)\<rparr> (ow(x \<mapsto> fresh h))"
proof -
  note ok = assms(1) [unfolded owners_ok_def]
  note f = owners_fresh [OF assms(1)]
  have "ran (ow(x \<mapsto> fresh h)) = insert (fresh h) (ran ow)" using ok assms(2) by (simp add: ran_update)
  moreover have "inj_on (ow(x \<mapsto> fresh h)) (dom (ow(x \<mapsto> fresh h)))" using ok f by (intro inj_update) auto
  ultimately show ?thesis using ok f unfolding owners_ok_def by (auto simp: less_Suc_eq)
qed

lemma owners_free:
  assumes "owners_ok outside h ow" "ow x = Some p"
  shows "owners_ok outside (h\<lparr>blocks := (blocks h)(p := None)\<rparr>) (ow(x := None))" "p \<in> dom (blocks h)"
proof -
  note ok = assms(1) [unfolded owners_ok_def]
  have p: "p \<in> ran ow" using assms(2) by (auto simp: ran_def)
  then show "p \<in> dom (blocks h)" using ok by auto
  have "ran (ow(x := None)) = ran ow - {p}" using ok assms(2) by (simp add: ran_update del: fun_upd_apply)
  moreover have "inj_on (ow(x := None)) (dom (ow(x := None)))" using ok by (intro inj_update) auto
  moreover have "outside - {p} = outside" using ok p by auto
  ultimately show "owners_ok outside (h\<lparr>blocks := (blocks h)(p := None)\<rparr>) (ow(x := None))"
    using ok unfolding owners_ok_def by (auto simp del: fun_upd_apply)
qed

lemma owners_swap:
  assumes "owners_ok outside h ow"
  shows "owners_ok outside h (ow(x := ow y, y := ow x))"
proof -
  let ?g = "id(x := y, y := x)" and ?ow = "ow(x := ow y, y := ow x)"
  have g: "?g (?g z) = z" "?ow z = ow (?g z)" for z by auto
  have "ran ?ow = ran ow"
  proof (intro equalityI subsetI)
    fix p assume "p \<in> ran ?ow"
    then show "p \<in> ran ow" unfolding ran_def g(2) by blast
  next
    fix p assume "p \<in> ran ow"
    then obtain z where "ow z = Some p" by (auto simp: ran_def)
    then have "?ow (?g z) = Some p" by (simp only: g)
    then show "p \<in> ran ?ow" by (rule ranI)
  qed
  moreover have "inj_on ?ow (dom ?ow)"
  proof (rule inj_onI)
    fix a b assume a: "a \<in> dom ?ow" "b \<in> dom ?ow" "?ow a = ?ow b"
    then have "?g a = ?g b"
      using assms unfolding owners_ok_def g(2) dom_def inj_on_def by blast
    then have "?g (?g a) = ?g (?g b)" by (rule arg_cong)
    then show "a = b" by (simp only: g(1))
  qed
  ultimately show ?thesis using assms unfolding owners_ok_def by simp
qed

lemma owners_replace:
  assumes "owners_ok outside h ow" "ow x = Some p"
  shows "owners_ok outside \<lparr>blocks = (blocks h)(fresh h \<mapsto> t, p := None), fresh = Suc (fresh h)\<rparr> (ow(x \<mapsto> fresh h))"
proof -
  note free = owners_free [OF assms]
  then have "p \<noteq> fresh h" using owners_fresh [OF assms(1)] by auto
  then show ?thesis using owners_alloc [OF free(1), of x t] by (simp add: fun_upd_twist)
qed

section \<open>What the operations of a key do\<close>

text \<open>A key made from a text that is there: it either has a new block of its own or borrows.\<close>

definition makes :: "nat set \<Rightarrow> memory \<Rightarrow> CZString \<Rightarrow> memory \<Rightarrow> bool" where
  "makes outside h z h1 \<longleftrightarrow> borrows_ok outside z \<and>
     (owned z = None \<and> h1 = h \<or>
      owned z = Some (fresh h) \<and> (\<exists>t. h1 = \<lparr>blocks = (blocks h)(fresh h \<mapsto> t), fresh = Suc (fresh h)\<rparr>))"

lemma makes_alloc:
  "makes outside h \<lparr>cz_str = Some (fresh h), cz_index = duplicate\<rparr>
     \<lparr>blocks = (blocks h)(fresh h \<mapsto> t), fresh = Suc (fresh h)\<rparr>"
  by (auto simp: makes_def borrows_ok_def owned_def)

lemma makes_borrow: "p \<in> outside \<Longrightarrow> policy \<noteq> duplicate \<Longrightarrow> makes outside h \<lparr>cz_str = Some p, cz_index = policy\<rparr> h"
  by (simp add: makes_def borrows_ok_def owned_def)

lemma new_makes:
  assumes "p \<in> outside" "p \<in> dom (blocks h)"
  shows "\<exists>z h1. CZString_new p policy h = Inr (z, h1) \<and> makes outside h z h1"
proof (cases "policy = duplicate")
  case True
  then show ?thesis using assms(2) makes_alloc by (auto simp: CZString_new_def makeMemberName_def simp del: fun_upd_apply)
next
  case False
  then show ?thesis using makes_borrow [OF assms(1)] by (simp add: CZString_new_def)
qed

lemma copy_makes:
  assumes "borrows_ok outside other" "outside \<subseteq> dom (blocks h)" "\<forall>p. owned other = Some p \<longrightarrow> p \<in> dom (blocks h)"
  shows "\<exists>z h1. CZString_copy other h = Inr (z, h1) \<and> makes outside h z h1"
proof (cases "cz_str other")
  case None
  then show ?thesis by (auto simp: CZString_copy_def makes_def borrows_ok_def owned_def)
next
  case (Some p)
  then have "p \<in> dom (blocks h)"
    using assms by (cases "cz_index other = duplicate") (auto simp: borrows_ok_def owned_def)
  then obtain name where name: "blocks h p = Some name" by auto
  show ?thesis
  proof (cases "cz_index other = noDuplication")
    case True
    then have "makes outside h \<lparr>cz_str = Some p, cz_index = noDuplication\<rparr> h"
      using assms(1) Some by (intro makes_borrow) (auto simp: borrows_ok_def policies)
    then show ?thesis using True Some by (auto simp: CZString_copy_def)
  next
    case False
    then show ?thesis using Some name makes_alloc [of outside h] by (auto simp: CZString_copy_def makeMemberName_def simp del: fun_upd_apply)
  qed
qed

lemma key_at_upd [simp]: "key_at (s\<lparr>keys := (keys s)(x := o1)\<rparr>) = (key_at s)(x := (case o1 of None \<Rightarrow> None | Some z \<Rightarrow> owned z))"
  "key_at \<lparr>mem = h, keys = (keys s)(x := o1)\<rparr> = (key_at s)(x := (case o1 of None \<Rightarrow> None | Some z \<Rightarrow> owned z))"
  by (auto simp: key_at_def fun_eq_iff)

lemma makes_inv:
  assumes "key_inv outside s" "key_at s x = None" "makes outside (mem s) z h"
  shows "key_inv outside \<lparr>mem = h, keys = (keys s)(x \<mapsto> z)\<rparr>"
proof -
  have same: "(key_at s)(x := None) = key_at s" using assms(2) by auto
  have "owners_ok outside h ((key_at s)(x := owned z))"
    using assms owners_alloc [of outside "mem s" "key_at s" x] same by (auto simp: makes_def key_inv_def)
  then show ?thesis using assms(1,3) by (auto simp: key_inv_def makes_def)
qed

lemma destroy_inv:
  assumes "key_inv outside s" "keys s x = Some z"
  shows "\<exists>h. CZString_destroy z (mem s) = Inr h \<and> key_inv outside \<lparr>mem = h, keys = (keys s)(x := None)\<rparr> \<and>
     (\<forall>y. owned z = None \<longrightarrow> h = mem s)"
proof (cases "owned z")
  case None
  then have "(key_at s)(x := None) = key_at s" using assms(2) by (auto simp: key_at_def fun_eq_iff)
  moreover have "CZString_destroy z (mem s) = Inr (mem s)" using None by (auto simp: owned_def CZString_destroy_def split: option.splits if_splits)
  ultimately show ?thesis using assms(1) by (auto simp: key_inv_def)
next
  case (Some p)
  have at: "key_at s x = Some p" using Some assms(2) by (simp add: key_at_def)
  have ok: "owners_ok outside (mem s) (key_at s)" using assms(1) by (simp add: key_inv_def)
  note free = owners_free [OF ok at]
  have "CZString_destroy z (mem s) = Inr ((mem s)\<lparr>blocks := (blocks (mem s))(p := None)\<rparr>)"
    using Some free(2) by (auto simp: owned_def CZString_destroy_def releaseMemberName_def split: if_splits)
  then show ?thesis using free(1) assms(1) Some by (auto simp: key_inv_def)
qed

lemma key_inv_there:
  assumes "key_inv outside s"
  shows "outside \<subseteq> dom (blocks (mem s))" "keys s x = Some z \<Longrightarrow> owned z = Some p \<Longrightarrow> p \<in> dom (blocks (mem s))"
proof -
  have ok: "dom (blocks (mem s)) = outside \<union> ran (key_at s)" using assms by (simp add: key_inv_def owners_ok_def)
  then show "outside \<subseteq> dom (blocks (mem s))" by auto
  assume "keys s x = Some z" "owned z = Some p"
  then have "key_at s x = Some p" by (simp add: key_at_def)
  then have "p \<in> ran (key_at s)" by (rule ranI)
  then show "p \<in> dom (blocks (mem s))" using ok by auto
qed

lemma swap_eq: "CZString_swap z other = (other, z)"
  by (cases z; cases other) (simp add: CZString_swap_def)

text \<open>Assigning is making a temporary copy under another name, swapping, and destroying the temporary.\<close>

lemma key_step_safe:
  assumes "key_inv outside s" "key_ok outside s e"
  shows "\<exists>s'. key_step e s = Inr s' \<and> key_inv outside s'"
proof (cases e)
  case (KIndex x i)
  have "makes outside (mem s) (CZString_index i) (mem s)"
    by (simp add: makes_def CZString_index_def borrows_ok_def owned_def)
  from makes_inv [OF assms(1) _ this, of x] show ?thesis
    using KIndex assms(2) by (cases s) (simp add: key_at_def)
next
  case (KNew x p policy)
  then obtain z h where "CZString_new p policy (mem s) = Inr (z, h)" "makes outside (mem s) z h"
    using new_makes [of p outside "mem s" policy] key_inv_there(1) [OF assms(1)] assms(2) by auto
  then show ?thesis using KNew assms makes_inv [of outside s x z h] by (simp add: key_at_def)
next
  case (KCopy x y)
  then obtain other where y: "keys s y = Some other" using assms(2) by auto
  then obtain z h where "CZString_copy other (mem s) = Inr (z, h)" "makes outside (mem s) z h"
    using copy_makes [of outside other "mem s"] key_inv_there [OF assms(1)] assms(1) by (auto simp: key_inv_def)
  then show ?thesis using KCopy y assms makes_inv [of outside s x z h] by (simp add: key_at_def)
next
  case (KDestroy x)
  then show ?thesis using assms destroy_inv [OF assms(1), of x] by auto
next
  case (KSwap x y)
  then obtain z other where z: "keys s x = Some z" "keys s y = Some other" using assms(2) by auto
  have "key_at (s\<lparr>keys := (keys s)(x \<mapsto> other, y \<mapsto> z)\<rparr>) = (key_at s)(x := key_at s y, y := key_at s x)"
    using z by (auto simp: key_at_def fun_eq_iff)
  then show ?thesis
    using KSwap z assms(1) owners_swap [of outside "mem s" "key_at s" x y]
    by (auto simp: key_inv_def swap_eq)
next
  case (KAssign x y)
  then obtain z other where z: "keys s x = Some z" "keys s y = Some other" using assms(2) by auto
  obtain temp h1 where t: "CZString_copy other (mem s) = Inr (temp, h1)" "makes outside (mem s) temp h1"
    using copy_makes [of outside other "mem s"] z key_inv_there [OF assms(1)] assms(1) by (auto simp: key_inv_def)
  have ok: "owners_ok outside (mem s) (key_at s)" "borrows_ok outside temp" using assms(1) t(2) by (auto simp: key_inv_def makes_def)
  have "\<exists>h2. CZString_destroy z h1 = Inr h2 \<and> owners_ok outside h2 ((key_at s)(x := owned temp))"
  proof (cases "owned z")
    case None
    then have "key_at s x = None" using z(1) by (simp add: key_at_def)
    then have "key_inv outside \<lparr>mem = h1, keys = (keys s)(x \<mapsto> temp)\<rparr>" by (rule makes_inv [OF assms(1) _ t(2)])
    moreover have "CZString_destroy z h1 = Inr h1" using None by (auto simp: owned_def CZString_destroy_def split: option.splits if_splits)
    ultimately show ?thesis by (simp add: key_inv_def)
  next
    case (Some p)
    then have at: "key_at s x = Some p" using z(1) by (simp add: key_at_def)
    have "p \<in> dom (blocks h1)" using owners_free(2) [OF ok(1) at] t(2) by (auto simp: makes_def)
    then have "CZString_destroy z h1 = Inr (h1\<lparr>blocks := (blocks h1)(p := None)\<rparr>)"
      using Some by (auto simp: owned_def CZString_destroy_def releaseMemberName_def split: if_splits)
    moreover have "owners_ok outside (h1\<lparr>blocks := (blocks h1)(p := None)\<rparr>) ((key_at s)(x := owned temp))"
      using t(2) owners_free(1) [OF ok(1) at] owners_replace [OF ok(1) at] by (auto simp: makes_def simp del: fun_upd_apply)
    ultimately show ?thesis by blast
  qed
  then obtain h2 where h2: "CZString_destroy z h1 = Inr h2" "owners_ok outside h2 ((key_at s)(x := owned temp))" by blast
  have "key_inv outside \<lparr>mem = h2, keys = (keys s)(x \<mapsto> temp)\<rparr>"
    using h2(2) assms(1) ok(2) by (auto simp: key_inv_def)
  then show ?thesis using KAssign z t(1) h2(1) by (simp add: CZString_assign_def swap_eq)
qed

section \<open>Properties\<close>

definition no_keys :: "nat set \<Rightarrow> key_store \<Rightarrow> bool" where
  "no_keys outside s \<longleftrightarrow> dom (blocks (mem s)) = outside \<and> (\<forall>p\<in>outside. p < fresh (mem s)) \<and> (\<forall>x. keys s x = None)"

interpretation kn: total_machine "no_keys outside" key_step "key_inv outside" "key_ok outside"
proof
  show "key_inv outside s" if "no_keys outside s" for s
    using that by (auto simp: no_keys_def key_inv_def owners_ok_def key_at_def ran_def dom_def)
  show "key_inv outside s'" if "key_inv outside s" "key_ok outside s e" "key_step e s = Inr s'" for s e s'
    using key_step_safe [OF that(1,2)] that(3) by simp
  show "\<exists>s'. key_step e s = Inr s'" if "key_inv outside s" "key_ok outside s e" for s e
    using key_step_safe [OF that] by blast
qed

text \<open>However member names are made, copied, assigned (to themselves too), swapped and destroyed, no text is
  freed twice, freed while another name still points to it, or read after it was freed; and when all names
  are gone, every block they allocated is free again and the texts they borrowed are still there.\<close>

theorem names_own_their_text:
  assumes "no_keys outside s" "run_ok (key_ok outside) key_step es s"
  shows "\<exists>s'. foldF key_step es s = Inr s' \<and>
     (\<forall>x z. keys s' x = Some z \<longrightarrow> cz_str z \<noteq> None \<longrightarrow> (\<exists>t. CZString_text z (mem s') = Inr t)) \<and>
     ((\<forall>x. keys s' x = None) \<longrightarrow> dom (blocks (mem s')) = outside)"
proof -
  obtain s' where s': "foldF key_step es s = Inr s'" "key_inv outside s'"
    using kn.run_total [OF kn.init_inv [OF assms(1)] assms(2)] by blast
  have "\<exists>t. CZString_text z (mem s') = Inr t" if z: "keys s' x = Some z" "cz_str z = Some p" for x z p
  proof -
    have "p \<in> dom (blocks (mem s'))"
    proof (cases "cz_index z = duplicate")
      case True
      then show ?thesis using key_inv_there(2) [OF s'(2) z(1)] z(2) by (simp add: owned_def)
    next
      case False
      then have "p \<in> outside" using s'(2) z unfolding key_inv_def borrows_ok_def by blast
      then show ?thesis using key_inv_there(1) [OF s'(2)] by blast
    qed
    then show ?thesis using z(2) by (auto simp: CZString_text_def)
  qed
  moreover have "dom (blocks (mem s')) = outside" if "\<forall>x. keys s' x = None"
    using s'(2) that by (simp add: key_inv_def owners_ok_def key_at_def ran_def)
  ultimately show ?thesis using s'(1) by blast
qed

definition one_text :: key_store where
  "one_text = \<lparr>mem = \<lparr>blocks = [0 \<mapsto> ''id''], fresh = 1\<rparr>, keys = (\<lambda>x. None)\<rparr>"

definition key_run :: "key_event list" where
  "key_run = [KNew 1 0 duplicateOnCopy, KCopy 2 1, KNew 3 0 noDuplication, KAssign 2 2, KAssign 3 2, KSwap 1 3, KDestroy 1,
     KDestroy 2, KDestroy 3]"

theorem names_own_their_text_witness:
  "\<exists>s'. foldF key_step key_run one_text = Inr s' \<and> dom (blocks (mem s')) = {0}"
proof -
  have init: "no_keys {0} one_text" by (auto simp: no_keys_def one_text_def)
  have "run_ok (key_ok {0}) key_step key_run one_text"
    by (simp add: key_run_def one_text_def CZString_new_def CZString_copy_def CZString_assign_def makeMemberName_def
        CZString_swap_def CZString_destroy_def releaseMemberName_def policies)
  from names_own_their_text [OF init this]
  obtain s' where s': "foldF key_step key_run one_text = Inr s'" "(\<forall>x. keys s' x = None) \<longrightarrow> dom (blocks (mem s')) = {0}"
    by blast
  moreover have "\<forall>x. keys s' x = None"
    using s'(1) by (auto simp: key_run_def one_text_def CZString_new_def CZString_copy_def CZString_assign_def makeMemberName_def
        CZString_swap_def CZString_destroy_def releaseMemberName_def policies)
  ultimately show ?thesis by blast
qed

end
