(* ===== verification/Json_Make.thy ===== *)
theory Json_Make
  imports Json_Value
begin

text \<open>
  Making, copying and assigning values, and the comments attached to them: the constructors, \<open>swap\<close>,
  \<open>operator=\<close> and the comment functions of \<open>src/Tool/lib_json/json_value.cpp\<close>. A value object is a value with the
  comments of its own; those of the values inside it are not kept.
\<close>

section \<open>Constructors\<close>

text \<open>A value of a type. The text of a string made this way is a null pointer, which the type of values does
  not have.\<close>

fun Value_of_type :: "'d floats \<Rightarrow> ValueType \<Rightarrow> 'd JsonValue option" where
  "Value_of_type fl nullType = Some nullValue"
| "Value_of_type fl intType = Some (intValue 0)"
| "Value_of_type fl uintType = Some (uintValue 0)"
| "Value_of_type fl realType = Some (realValue (fl_of_int fl 0))"
| "Value_of_type fl stringType = None"
| "Value_of_type fl arrayType = Some (arrayValue [])"
| "Value_of_type fl objectType = Some (objectValue [])"
| "Value_of_type fl booleanType = Some (booleanValue False)"

text \<open>A string from a range of characters: all of them are stored, and what is read ends at the first NUL.\<close>

definition Value_of_chars :: "string \<Rightarrow> 'd JsonValue" where
  "Value_of_chars value = stringValue (c_str value)"

text \<open>The copy constructor: the text up to its NUL, and the entries one by one with their names.\<close>

lemma size_entry_copy: "e \<in> set m \<Longrightarrow> size (snd e) < Suc (size_list (size_prod (\<lambda>x. 0) size) m)"
  by (induction m) (auto simp: prod.size_gen(1) split: prod.splits)

function json_copy :: "'d JsonValue \<Rightarrow> 'd JsonValue" where
  "json_copy nullValue = nullValue"
| "json_copy (intValue n) = intValue n"
| "json_copy (uintValue n) = uintValue n"
| "json_copy (realValue d) = realValue d"
| "json_copy (booleanValue b) = booleanValue b"
| "json_copy (stringValue s) = stringValue (c_str s)"
| "json_copy (arrayValue m) = arrayValue (map (\<lambda>e. (fst e, json_copy (snd e))) m)"
| "json_copy (objectValue m) = objectValue (map (\<lambda>e. (c_str (fst e), json_copy (snd e))) m)"
  by pat_completeness auto

termination json_copy
  by (relation "measure size") (auto intro: size_entry_copy)

section \<open>Comments\<close>

datatype CommentPlacement = commentBefore | commentAfterOnSameLine | commentAfter

record 'd ValueObject =
  vo_value :: "'d JsonValue"
  vo_comments :: "(CommentPlacement \<Rightarrow> string option) option"

definition ValueObject_new :: "'d JsonValue \<Rightarrow> 'd ValueObject" where
  "ValueObject_new v = \<lparr>vo_value = v, vo_comments = None\<rparr>"

text \<open>\<open>CommentInfo::setComment\<close>: the old text is released before the new one is looked at.\<close>

definition CommentInfo_setComment :: "string \<Rightarrow> string json" where
  "CommentInfo_setComment comment =
     (if c_str comment = '''' \<or> hd (c_str comment) = CHR ''/'' then Inr (c_str comment) else Inl JsonRuntimeError)"

definition setComment :: "string \<Rightarrow> CommentPlacement \<Rightarrow> 'd ValueObject \<Rightarrow> 'd ValueObject json" where
  "setComment comment placement obj =
     (let comments = (case vo_comments obj of None \<Rightarrow> (\<lambda>p. None) | Some cs \<Rightarrow> cs) in
      json_bind (CommentInfo_setComment comment) (\<lambda>t. Inr (obj\<lparr>vo_comments := Some (comments(placement \<mapsto> t))\<rparr>)))"

definition hasComment :: "CommentPlacement \<Rightarrow> 'd ValueObject \<Rightarrow> bool" where
  "hasComment placement obj = (case vo_comments obj of None \<Rightarrow> False | Some cs \<Rightarrow> cs placement \<noteq> None)"

definition getComment :: "CommentPlacement \<Rightarrow> 'd ValueObject \<Rightarrow> string" where
  "getComment placement obj =
     (case vo_comments obj of None \<Rightarrow> '''' | Some cs \<Rightarrow> (case cs placement of None \<Rightarrow> '''' | Some t \<Rightarrow> t))"

text \<open>The copy constructor copies the comments; each went through \<open>setComment\<close> before.\<close>

definition Value_copy :: "'d ValueObject \<Rightarrow> 'd ValueObject" where
  "Value_copy other =
     \<lparr>vo_value = json_copy (vo_value other),
      vo_comments = map_option (\<lambda>cs p. map_option c_str (cs p)) (vo_comments other)\<rparr>"

text \<open>\<open>swap\<close> exchanges the type, the value and the ownership flag, but not the comments.\<close>

definition Value_swap :: "'d ValueObject \<Rightarrow> 'd ValueObject \<Rightarrow> 'd ValueObject \<times> 'd ValueObject" where
  "Value_swap obj other = (obj\<lparr>vo_value := vo_value other\<rparr>, other\<lparr>vo_value := vo_value obj\<rparr>)"

definition Value_assign :: "'d ValueObject \<Rightarrow> 'd ValueObject \<Rightarrow> 'd ValueObject" where
  "Value_assign obj other = (let temp = Value_copy other in fst (Value_swap obj temp))"

section \<open>What copies keep\<close>

lemma json_copy_wf: "json_wf v \<Longrightarrow> json_copy v = v"
proof (induction v)
  case (stringValue s)
  then show ?case by (simp add: c_str_clean)
next
  case (arrayValue m)
  have "json_copy (snd e) = snd e" if "e \<in> set m" for e
    using arrayValue that by - (cases e, auto)
  then show ?case by (simp add: map_idI)
next
  case (objectValue m)
  have "json_copy (snd e) = snd e \<and> c_str (fst e) = fst e" if "e \<in> set m" for e
    using objectValue that by - (cases e, auto simp: c_str_clean)
  then show ?case by (simp add: map_idI)
qed simp_all

text \<open>A value that is assigned becomes a copy of the other, down to every element and member, but keeps its own
  comments: those of the other are copied into a temporary and thrown away with it, where the copy
  constructor keeps them.\<close>

theorem assignment_keeps_comments:
  assumes "json_wf (vo_value other)" "setComment t placement other = Inr other1"
  shows "vo_value (Value_assign obj other1) = vo_value other \<and>
     (\<forall>p. hasComment p (Value_assign obj other1) = hasComment p obj \<and> getComment p (Value_assign obj other1) = getComment p obj) \<and>
     vo_value (Value_copy other1) = vo_value other \<and> getComment placement (Value_copy other1) = c_str t"
proof -
  have v: "vo_value other1 = vo_value other" "getComment placement other1 = c_str t"
    "\<exists>cs. vo_comments other1 = Some cs \<and> cs placement = Some (c_str t)"
    using assms(2) by (auto simp: setComment_def CommentInfo_setComment_def getComment_def Let_def split: option.splits if_splits)
  then have "getComment placement (Value_copy other1) = c_str t"
    by (auto simp: getComment_def Value_copy_def c_str_def)
  then show ?thesis
    using v assms(1)
    by (auto simp: Value_assign_def Value_swap_def Value_copy_def hasComment_def getComment_def json_copy_wf Let_def)
qed

theorem assignment_keeps_comments_witness:
  "\<exists>obj. setComment ''// ten'' commentBefore (ValueObject_new (intValue 10 :: int JsonValue)) = Inr obj \<and>
     getComment commentBefore (Value_assign (ValueObject_new nullValue) obj) = ''''"
proof -
  obtain obj where obj: "setComment ''// ten'' commentBefore (ValueObject_new (intValue 10 :: int JsonValue)) = Inr obj"
    by (simp add: setComment_def CommentInfo_setComment_def ValueObject_new_def c_str_def)
  have "json_wf (vo_value (ValueObject_new (intValue 10 :: int JsonValue)))"
    by (simp add: ValueObject_new_def json_int_defs)
  from assignment_keeps_comments [OF this obj, of "ValueObject_new nullValue"] obj show ?thesis
    by (simp add: getComment_def ValueObject_new_def)
qed

end
