(* ===== verification/Json_Batch.thy ===== *)
theory Json_Batch
  imports Prelude
begin

text \<open>
  The allocator under the containers of the JSON library: \<open>BatchAllocator\<close> of
  \<open>src/Tool/lib_json/json_batchallocator.h\<close>. Memory comes in blocks, each a record that holds room for some
  objects; an address is a block and a position in it, counted in objects of the allocated type. A
  block's \<open>next_\<close> and the free list, which is threaded through the freed objects themselves, are links from
  addresses to addresses. The parameters are those of the template: \<open>k\<close> is \<open>objectPerAllocation\<close> and \<open>p\<close> is
  \<open>objectsPerPage\<close>.
\<close>

section \<open>The code\<close>

type_synonym address = "nat \<times> nat"

record BatchInfo =
  bt_next :: "nat option"
  bt_used :: nat
  bt_end :: nat
  bt_room :: nat

record BatchAllocator =
  ba_blocks :: "BatchInfo list"
  ba_batches :: "nat option"
  ba_currentBatch :: "nat option"
  ba_freeHead :: "address option"
  ba_links :: "address \<Rightarrow> address option"

text \<open>A new block has room for \<open>k\<close> objects in each of its \<open>p\<close> places, but ends after \<open>p\<close> objects.\<close>

definition allocateBatch :: "nat \<Rightarrow> nat \<Rightarrow> BatchInfo" where
  "allocateBatch k p = \<lparr>bt_next = None, bt_used = 0, bt_end = p, bt_room = k * p\<rparr>"

definition BatchAllocator_new :: "nat \<Rightarrow> BatchAllocator" where
  "BatchAllocator_new k =
     \<lparr>ba_blocks = [allocateBatch k 0], ba_batches = Some 0, ba_currentBatch = Some 0, ba_freeHead = None,
      ba_links = (\<lambda>a. None)\<rparr>"

text \<open>The search for a block with a free place; \<open>n\<close> bounds the number of blocks looked at.\<close>

fun find_batch :: "nat \<Rightarrow> BatchInfo list \<Rightarrow> nat option \<Rightarrow> nat option res" where
  "find_batch n bs None = Inr None"
| "find_batch 0 bs (Some b) = Inl NonTermination"
| "find_batch (Suc n) bs (Some b) =
     (if b < length bs
      then if bt_used (bs ! b) = bt_end (bs ! b) then find_batch n bs (bt_next (bs ! b)) else Inr (Some b)
      else Inl UseAfterFree)"

definition add_batch :: "nat \<Rightarrow> nat \<Rightarrow> BatchAllocator \<Rightarrow> BatchAllocator" where
  "add_batch k p s =
     s\<lparr>ba_blocks := ba_blocks s @ [(allocateBatch k p)\<lparr>bt_next := ba_batches s\<rparr>],
       ba_batches := Some (length (ba_blocks s)), ba_currentBatch := Some (length (ba_blocks s))\<rparr>"

definition take_place :: "nat \<Rightarrow> BatchAllocator \<Rightarrow> (address \<times> BatchAllocator) res" where
  "take_place k s =
     (case ba_currentBatch s of
        None \<Rightarrow> Inl NullDeref
      | Some b \<Rightarrow>
          if b < length (ba_blocks s)
          then (let info = ba_blocks s ! b in
                Inr ((b, bt_used info), s\<lparr>ba_blocks := (ba_blocks s)[b := info\<lparr>bt_used := bt_used info + k\<rparr>]\<rparr>))
          else Inl UseAfterFree)"

definition batch_allocate :: "nat \<Rightarrow> nat \<Rightarrow> BatchAllocator \<Rightarrow> (address \<times> BatchAllocator) res" where
  "batch_allocate k p s =
     (case ba_freeHead s of
        Some object \<Rightarrow> Inr (object, s\<lparr>ba_freeHead := ba_links s object\<rparr>)
      | None \<Rightarrow>
          bindF (find_batch (Suc (length (ba_blocks s))) (ba_blocks s) (ba_currentBatch s)) (\<lambda>found.
          take_place k (case found of None \<Rightarrow> add_batch k p s | Some b \<Rightarrow> s\<lparr>ba_currentBatch := Some b\<rparr>)))"

definition batch_release :: "address \<Rightarrow> BatchAllocator \<Rightarrow> BatchAllocator" where
  "batch_release object s =
     s\<lparr>ba_links := (ba_links s)(object := ba_freeHead s), ba_freeHead := Some object\<rparr>"

section \<open>Clients\<close>

text \<open>A client allocates, and releases what it holds.\<close>

record batch_state =
  allocator :: BatchAllocator
  held :: "address set"

datatype batch_event = Allocate | Release address

fun batch_step :: "nat \<Rightarrow> nat \<Rightarrow> batch_event \<Rightarrow> batch_state \<Rightarrow> batch_state res" where
  "batch_step k p Allocate s =
     bindF (batch_allocate k p (allocator s)) (\<lambda>(a, b). Inr \<lparr>allocator = b, held = insert a (held s)\<rparr>)"
| "batch_step k p (Release a) s =
     Inr \<lparr>allocator = batch_release a (allocator s), held = held s - {a}\<rparr>"

fun batch_ok :: "batch_state \<Rightarrow> batch_event \<Rightarrow> bool" where
  "batch_ok s Allocate = True"
| "batch_ok s (Release a) = (a \<in> held s)"

section \<open>The invariant\<close>

primrec chain :: "('a \<Rightarrow> 'a option) \<Rightarrow> 'a option \<Rightarrow> 'a list \<Rightarrow> bool" where
  "chain f h [] \<longleftrightarrow> h = None"
| "chain f h (x # xs) \<longleftrightarrow> h = Some x \<and> chain f (f x) xs"

lemma chain_upd: "x \<notin> set xs \<Longrightarrow> chain (f(x := y)) h xs = chain f h xs"
  by (induction xs arbitrary: h) auto

lemma chain_None [simp]: "chain f None xs \<longleftrightarrow> xs = []"
  by (cases xs) auto

definition batch_ok_at :: "nat \<Rightarrow> nat \<Rightarrow> BatchInfo \<Rightarrow> bool" where
  "batch_ok_at k i b \<longleftrightarrow>
     k dvd bt_used b \<and> k dvd bt_end b \<and> bt_used b \<le> bt_end b \<and> bt_end b \<le> bt_room b \<and>
     (\<forall>j. bt_next b = Some j \<longrightarrow> j < i)"

text \<open>The places that were ever handed out.\<close>

definition places :: "nat \<Rightarrow> BatchInfo list \<Rightarrow> address set" where
  "places k bs = {(i, n). i < length bs \<and> k dvd n \<and> n < bt_used (bs ! i)}"

definition batch_inv :: "nat \<Rightarrow> batch_state \<Rightarrow> bool" where
  "batch_inv k s \<longleftrightarrow>
     (let a = allocator s; bs = ba_blocks a in
      (\<forall>i<length bs. batch_ok_at k i (bs ! i)) \<and>
      (\<exists>b. ba_batches a = Some b \<and> b < length bs) \<and> (\<exists>b. ba_currentBatch a = Some b \<and> b < length bs) \<and>
      (\<exists>free. chain (ba_links a) (ba_freeHead a) free \<and> distinct free \<and> set free \<inter> held s = {} \<and>
         set free \<union> held s = places k bs))"

lemma find_batch_finds:
  assumes "\<forall>i<length bs. batch_ok_at k i (bs ! i)" "b < length bs" "b < n"
  shows "find_batch n bs (Some b) = Inr None \<or>
    (\<exists>c. find_batch n bs (Some b) = Inr (Some c) \<and> c < length bs \<and> bt_used (bs ! c) < bt_end (bs ! c))"
  using assms(2,3)
proof (induction n arbitrary: b)
  case (Suc n)
  have ok: "batch_ok_at k b (bs ! b)" using assms(1) Suc.prems(1) by blast
  show ?case
  proof (cases "bt_used (bs ! b) = bt_end (bs ! b)")
    case False
    then show ?thesis using Suc.prems ok by (auto simp: batch_ok_at_def)
  next
    case full: True
    show ?thesis
    proof (cases "bt_next (bs ! b)")
      case None
      then show ?thesis using full Suc.prems by simp
    next
      case (Some j)
      then have "j < b" using ok by (simp add: batch_ok_at_def)
      then show ?thesis using Suc.IH [of j] Suc.prems Some full by simp
    qed
  qed
qed simp

lemma places_take:
  assumes "b < length bs" "bt_used (bs ! b) = u" "k dvd u" "0 < k"
  shows "places k (bs[b := (bs ! b)\<lparr>bt_used := u + k\<rparr>]) = insert (b, u) (places k bs)"
proof -
  have "n < u + k \<longleftrightarrow> n < u \<or> n = u" if "k dvd n" for n
  proof -
    from that obtain i where "n = k * i" ..
    moreover from assms(3) obtain j where "u = k * j" ..
    moreover have "k * i < k * j + k \<longleftrightarrow> i < Suc j"
      using assms(4) mult_less_cancel1 [of k i "Suc j"] by (simp add: add.commute)
    ultimately show ?thesis using assms(4) by (auto simp: less_Suc_eq)
  qed
  note key = this
  show ?thesis
  proof (rule set_eqI)
    fix x
    show "x \<in> places k (bs[b := (bs ! b)\<lparr>bt_used := u + k\<rparr>]) \<longleftrightarrow> x \<in> insert (b, u) (places k bs)"
    proof (cases x)
      case (Pair i n)
      then show ?thesis
        using assms(1-3) key [of n] by (cases "i = b"; cases "k dvd n"; simp add: places_def; blast)
    qed
  qed
qed

lemma places_append: "bt_used b = 0 \<Longrightarrow> places k (bs @ [b]) = places k bs"
  by (auto simp: places_def nth_append less_Suc_eq)

text \<open>Taking the next place of a block that has one.\<close>

lemma take_place_keeps:
  assumes "0 < k" "batch_inv k \<lparr>allocator = a, held = h\<rparr>" "ba_freeHead a = None"
    and "ba_currentBatch a = Some b" "bt_used (ba_blocks a ! b) < bt_end (ba_blocks a ! b)"
  shows "\<exists>x a'. take_place k a = Inr (x, a') \<and> x \<notin> h \<and> batch_inv k \<lparr>allocator = a', held = insert x h\<rparr>"
proof -
  let ?bs = "ba_blocks a" and ?u = "bt_used (ba_blocks a ! b)"
  let ?bs' = "?bs[b := (?bs ! b)\<lparr>bt_used := ?u + k\<rparr>]"
  have b: "b < length ?bs" and ok: "\<forall>i<length ?bs. batch_ok_at k i (?bs ! i)" and h: "h = places k ?bs"
    using assms(2-4) by (auto simp: batch_inv_def Let_def)
  have dvd: "k dvd ?u" "k dvd bt_end (?bs ! b)" using ok b by (auto simp: batch_ok_at_def)
  then have "?u + k \<le> bt_end (?bs ! b)"
    using assms(5) by (metis dvd_imp_le dvd_diff_nat less_imp_le_nat zero_less_diff le_diff_conv2 add.commute)
  then have "batch_ok_at k b ((?bs ! b)\<lparr>bt_used := ?u + k\<rparr>)" using ok b dvd by (auto simp: batch_ok_at_def)
  then have "\<forall>i<length ?bs'. batch_ok_at k i (?bs' ! i)" using ok b by (auto simp: nth_list_update)
  then have "batch_inv k \<lparr>allocator = a\<lparr>ba_blocks := ?bs'\<rparr>, held = insert (b, ?u) h\<rparr>"
    using assms(2,3) places_take [OF b refl dvd(1) assms(1)] h b by (auto simp: batch_inv_def Let_def intro!: exI [of _ "[]"])
  moreover have "(b, ?u) \<notin> h" using h by (simp add: places_def)
  ultimately show ?thesis using assms(4) b by (simp add: take_place_def Let_def)
qed

lemma batch_allocate_keeps:
  assumes "0 < k" "0 < p" "k dvd p" "batch_inv k \<lparr>allocator = a, held = h\<rparr>"
  shows "\<exists>x a'. batch_allocate k p a = Inr (x, a') \<and> x \<notin> h \<and> batch_inv k \<lparr>allocator = a', held = insert x h\<rparr>"
proof (cases "ba_freeHead a")
  case (Some x)
  obtain free where free: "chain (ba_links a) (Some x) free" "distinct free" "set free \<inter> h = {}"
      "set free \<union> h = places k (ba_blocks a)"
    using assms(4) Some by (auto simp: batch_inv_def Let_def)
  then obtain rest where "free = x # rest" "chain (ba_links a) (ba_links a x) rest" by (cases free) auto
  then have "batch_inv k \<lparr>allocator = a\<lparr>ba_freeHead := ba_links a x\<rparr>, held = insert x h\<rparr>"
    using assms(4) free by (auto simp: batch_inv_def Let_def intro!: exI [of _ rest])
  moreover have "x \<notin> h" using free \<open>free = x # rest\<close> by auto
  ultimately show ?thesis using Some by (simp add: batch_allocate_def)
next
  case None
  let ?bs = "ba_blocks a" and ?new = "(allocateBatch k p)\<lparr>bt_next := ba_batches a\<rparr>"
  obtain b where b: "ba_currentBatch a = Some b" "b < length ?bs" and ok: "\<forall>i<length ?bs. batch_ok_at k i (?bs ! i)"
    using assms(4) by (auto simp: batch_inv_def Let_def)
  consider "find_batch (Suc (length ?bs)) ?bs (Some b) = Inr None"
    | c where "find_batch (Suc (length ?bs)) ?bs (Some b) = Inr (Some c)" "c < length ?bs" "bt_used (?bs ! c) < bt_end (?bs ! c)"
    using find_batch_finds [OF ok b(2), of "Suc (length ?bs)"] b(2) by auto
  then show ?thesis
  proof cases
    case 1
    have "batch_ok_at k (length ?bs) ?new"
      using assms by (auto simp: batch_ok_at_def allocateBatch_def batch_inv_def Let_def)
    then have "batch_inv k \<lparr>allocator = add_batch k p a, held = h\<rparr>"
      using assms(4) None places_append [of ?new k ?bs]
      by (auto simp: batch_inv_def Let_def add_batch_def allocateBatch_def nth_append less_Suc_eq)
    then show ?thesis
      using 1 b(1) None take_place_keeps [OF assms(1), of "add_batch k p a" h "length ?bs"] assms(2)
      by (simp add: batch_allocate_def add_batch_def allocateBatch_def)
  next
    case 2
    have "batch_inv k \<lparr>allocator = a\<lparr>ba_currentBatch := Some c\<rparr>, held = h\<rparr>"
      using assms(4) 2(2) by (auto simp: batch_inv_def Let_def)
    then show ?thesis
      using 2 b(1) None take_place_keeps [OF assms(1), of "a\<lparr>ba_currentBatch := Some c\<rparr>" h c]
      by (simp add: batch_allocate_def)
  qed
qed

lemma batch_release_keeps:
  assumes "batch_inv k \<lparr>allocator = a, held = h\<rparr>" "x \<in> h"
  shows "batch_inv k \<lparr>allocator = batch_release x a, held = h - {x}\<rparr>"
proof -
  obtain free where free: "chain (ba_links a) (ba_freeHead a) free" "distinct free" "set free \<inter> h = {}"
      "set free \<union> h = places k (ba_blocks a)"
    using assms(1) by (auto simp: batch_inv_def Let_def)
  then have "x \<notin> set free" using assms(2) by blast
  then have "chain ((ba_links a)(x := ba_freeHead a)) (Some x) (x # free)" "distinct (x # free)"
    using free by (auto simp: chain_upd)
  then show ?thesis
    using assms free by (auto simp: batch_inv_def Let_def batch_release_def intro!: exI [of _ "x # free"])
qed

lemma held_inside:
  assumes "batch_inv k s" "x \<in> held s"
  shows "fst x < length (ba_blocks (allocator s)) \<and> k dvd snd x \<and>
    snd x < bt_room (ba_blocks (allocator s) ! fst x)"
proof -
  have "x \<in> places k (ba_blocks (allocator s))" "\<forall>i<length (ba_blocks (allocator s)). batch_ok_at k i (ba_blocks (allocator s) ! i)"
    using assms by (auto simp: batch_inv_def Let_def)
  then show ?thesis by (cases x) (force simp: places_def batch_ok_at_def)
qed

definition batch_init :: "nat \<Rightarrow> batch_state \<Rightarrow> bool" where
  "batch_init k s \<longleftrightarrow> s = \<lparr>allocator = BatchAllocator_new k, held = {}\<rparr>"

lemma batch_step_keeps:
  assumes "0 < k" "0 < p" "k dvd p" "batch_inv k s" "batch_ok s e"
  shows "\<exists>s'. batch_step k p e s = Inr s' \<and> batch_inv k s'"
proof -
  obtain a h where s: "s = \<lparr>allocator = a, held = h\<rparr>" by (cases s)
  show ?thesis
  proof (cases e)
    case Allocate
    obtain x a' where "batch_allocate k p a = Inr (x, a')" "batch_inv k \<lparr>allocator = a', held = insert x h\<rparr>"
      using batch_allocate_keeps [OF assms(1-3), of a h] assms(4) s by blast
    then show ?thesis using Allocate s by simp
  next
    case (Release a)
    then show ?thesis using batch_release_keeps assms(4,5) s by simp
  qed
qed

text \<open>The allocators of the containers themselves and of the links have one object in each place.\<close>

interpretation single: total_machine "batch_init 1" "batch_step 1 255" "batch_inv 1" batch_ok
proof
  show "batch_inv 1 s" if "batch_init 1 s" for s
    using that by (auto simp: batch_init_def batch_inv_def BatchAllocator_new_def allocateBatch_def batch_ok_at_def
        places_def Let_def)
  show "batch_inv 1 s'" if "batch_inv 1 s" "batch_ok s e" "batch_step 1 255 e s = Inr s'" for s e s'
    using batch_step_keeps [OF _ _ _ that(1,2), of 255] that(3) by simp
  show "\<exists>s'. batch_step 1 255 e s = Inr s'" if "batch_inv 1 s" "batch_ok s e" for s e
    using batch_step_keeps [OF _ _ _ that, of 255] by simp blast
qed

section \<open>Properties\<close>

text \<open>As long as a client releases only what it holds, every allocation of a single object succeeds, no two
  objects that are held at a time are the same, and each lies inside its block.\<close>

theorem allocated_objects_distinct:
  assumes "run_ok batch_ok (batch_step 1 255) es \<lparr>allocator = BatchAllocator_new 1, held = {}\<rparr>"
  shows "\<exists>s. foldF (batch_step 1 255) es \<lparr>allocator = BatchAllocator_new 1, held = {}\<rparr> = Inr s \<and>
     (\<exists>x a. batch_step 1 255 Allocate s = Inr \<lparr>allocator = a, held = insert x (held s)\<rparr> \<and> x \<notin> held s \<and>
        snd x < bt_room (ba_blocks a ! fst x))"
proof -
  have "batch_init 1 \<lparr>allocator = BatchAllocator_new 1, held = {}\<rparr>" by (simp add: batch_init_def)
  from single.run_total [OF single.init_inv [OF this] assms]
  obtain s where s: "foldF (batch_step 1 255) es \<lparr>allocator = BatchAllocator_new 1, held = {}\<rparr> = Inr s" "batch_inv 1 s"
    by blast
  obtain x a where xa: "batch_allocate 1 255 (allocator s) = Inr (x, a)" "x \<notin> held s"
      "batch_inv 1 \<lparr>allocator = a, held = insert x (held s)\<rparr>"
    using batch_allocate_keeps [of 1 255 "allocator s" "held s"] s(2) by (cases s) force
  moreover have "batch_step 1 255 Allocate s = Inr \<lparr>allocator = a, held = insert x (held s)\<rparr>" using xa(1) by simp
  moreover have "snd x < bt_room (ba_blocks a ! fst x)" using held_inside [OF xa(3), of x] by simp
  ultimately show ?thesis using s(1) by blast
qed

theorem allocated_objects_distinct_witness:
  "\<exists>s x a. foldF (batch_step 1 255) [Allocate, Allocate, Release (1, 0), Allocate]
       \<lparr>allocator = BatchAllocator_new 1, held = {}\<rparr> = Inr s \<and> held s = {(1, 0), (1, 1)} \<and>
     batch_step 1 255 Allocate s = Inr \<lparr>allocator = a, held = insert x (held s)\<rparr> \<and> x \<notin> held s"
proof -
  let ?es = "[Allocate, Allocate, Release (1, 0), Allocate]"
  note defs = BatchAllocator_new_def allocateBatch_def batch_allocate_def add_batch_def take_place_def batch_release_def Let_def
  have ok: "run_ok batch_ok (batch_step 1 255) ?es \<lparr>allocator = BatchAllocator_new 1, held = {}\<rparr>"
    by (simp add: defs)
  from allocated_objects_distinct [OF this] obtain s where s:
    "foldF (batch_step 1 255) ?es \<lparr>allocator = BatchAllocator_new 1, held = {}\<rparr> = Inr s"
    "\<exists>x a. batch_step 1 255 Allocate s = Inr \<lparr>allocator = a, held = insert x (held s)\<rparr> \<and> x \<notin> held s"
    by blast
  moreover have "held s = {(1, 0), (1, 1)}" using s(1) by (auto simp: defs)
  ultimately show ?thesis by blast
qed

text \<open>With several objects in a place the end of a block is counted in places and the use in objects.\<close>

lemma allocations_in_a_row:
  assumes "0 < p" "\<not> k dvd p"
  shows "foldF (batch_step k p) (replicate (Suc n) Allocate) \<lparr>allocator = BatchAllocator_new k, held = {}\<rparr> =
     Inr \<lparr>allocator = \<lparr>ba_blocks = [allocateBatch k 0, \<lparr>bt_next = Some 0, bt_used = Suc n * k, bt_end = p, bt_room = k * p\<rparr>],
          ba_batches = Some 1, ba_currentBatch = Some 1, ba_freeHead = None, ba_links = (\<lambda>a. None)\<rparr>,
        held = {(1, j * k) |j. j \<le> n}\<rparr>"
proof (induction n)
  case 0
  then show ?case
    using assms by (simp add: BatchAllocator_new_def allocateBatch_def batch_allocate_def add_batch_def take_place_def)
next
  case (Suc n)
  have "Suc n * k \<noteq> p" using assms(2) by (metis dvd_triv_right)
  moreover have "{(1::nat, j * k) |j. j \<le> Suc n} = insert (1, Suc n * k) {(1, j * k) |j. j \<le> n}"
    unfolding le_Suc_eq by blast
  ultimately show ?case
    unfolding replicate_Suc [of "Suc n"] replicate_append_same [symmetric] foldF_append Suc
    by (simp add: batch_allocate_def take_place_def allocateBatch_def ac_simps)
qed

text \<open>An allocator that puts several objects into a place, and whose number of places is not a multiple of
  that, never notices that its block is full: after as many allocations as the block has room for,
  the next one is beyond its end. The pages of arrays are such places: 8 values in each of 255.\<close>

theorem pages_leave_the_block:
  assumes "0 < p" "\<not> k dvd p"
  shows "\<exists>s. foldF (batch_step k p) (replicate (Suc p) Allocate) \<lparr>allocator = BatchAllocator_new k, held = {}\<rparr> = Inr s \<and>
     (1, k * p) \<in> held s \<and> bt_room (ba_blocks (allocator s) ! 1) = k * p"
  using allocations_in_a_row [OF assms, of p] by (auto simp: mult.commute)

theorem pages_leave_the_block_witness:
  "\<exists>s. foldF (batch_step 8 255) (replicate 256 Allocate) \<lparr>allocator = BatchAllocator_new 8, held = {}\<rparr> = Inr s \<and>
     (1, 2040) \<in> held s \<and> bt_room (ba_blocks (allocator s) ! 1) = 2040"
  using pages_leave_the_block [of 255 8] by simp

end
