(* ===== verification/Json_Array.thy ===== *)
theory Json_Array
  imports Json_Make
begin

text \<open>
  The array the JSON library uses when \<open>JSON_VALUE_USE_INTERNAL_MAP\<close> is defined (the program does not):
  \<open>src/Tool/lib_json/json_internalarray.inl\<close>. The values lie in pages of eight, and \<open>pages_\<close> is an array of
  pointers to pages; a slot holds a constructed value or raw memory. Indices are unsigned 32-bit
  numbers, here naturals with the wrap-around written out. A thrown assertion is \<open>JsonRuntimeError\<close>, an access
  outside \<open>pages_\<close> or a page, or to raw memory, a fault. The allocator is taken to hand out fresh pages.
\<close>

section \<open>The code\<close>

definition wrap_uint :: "nat \<Rightarrow> nat" where
  "wrap_uint n = n mod 2 ^ 32"

definition itemsPerPage :: nat where
  "itemsPerPage = 8"

type_synonym 'd page = "'d JsonValue option list"

record 'd InternalArray =
  ia_pages :: "'d page option list"
  ia_size :: nat
  ia_pageCount :: nat

record ArrayIterator =
  ai_array :: bool
  ai_page :: int
  ai_item :: nat

text \<open>The page a pointer of \<open>pages_\<close> leads to; and reading and writing the slot at a place.\<close>

definition ia_page :: "'d InternalArray \<Rightarrow> int \<Rightarrow> 'd page json" where
  "ia_page a p =
     (if 0 \<le> p \<and> nat p < length (ia_pages a)
      then (case ia_pages a ! nat p of None \<Rightarrow> Inl (JsonFault NullDeref) | Some pg \<Rightarrow> Inr pg)
      else Inl (JsonFault OutOfBounds))"

definition ia_get :: "'d InternalArray \<Rightarrow> int \<Rightarrow> nat \<Rightarrow> 'd JsonValue json" where
  "ia_get a p i =
     json_bind (ia_page a p) (\<lambda>pg.
     if i < length pg
     then (case pg ! i of None \<Rightarrow> Inl (JsonFault UseAfterFree) | Some v \<Rightarrow> Inr v)
     else Inl (JsonFault OutOfBounds))"

definition ia_set :: "'d InternalArray \<Rightarrow> int \<Rightarrow> nat \<Rightarrow> 'd JsonValue option \<Rightarrow> 'd InternalArray json" where
  "ia_set a p i v =
     json_bind (ia_page a p) (\<lambda>pg.
     if i < length pg then Inr (a\<lparr>ia_pages := (ia_pages a)[nat p := Some (pg[i := v])]\<rparr>)
     else Inl (JsonFault OutOfBounds))"

definition InternalArray_new :: "'d InternalArray" where
  "InternalArray_new = \<lparr>ia_pages = [], ia_size = 0, ia_pageCount = 0\<rparr>"

subsection \<open>Iterators\<close>

definition ai_pos :: "ArrayIterator \<Rightarrow> int" where
  "ai_pos it = ai_page it * int itemsPerPage + int (ai_item it)"

definition ia_makeIterator :: "nat \<Rightarrow> ArrayIterator" where
  "ia_makeIterator index =
     \<lparr>ai_array = True, ai_page = int (index div itemsPerPage), ai_item = index mod itemsPerPage\<rparr>"

definition ia_makeBeginIterator :: ArrayIterator where
  "ia_makeBeginIterator = \<lparr>ai_array = True, ai_page = 0, ai_item = 0\<rparr>"

definition ia_makeEndIterator :: "'d InternalArray \<Rightarrow> ArrayIterator" where
  "ia_makeEndIterator a = ia_makeIterator (ia_size a)"

definition ia_equals :: "ArrayIterator \<Rightarrow> ArrayIterator \<Rightarrow> bool" where
  "ia_equals x other \<longleftrightarrow>
     ai_array x = ai_array other \<and> ai_item x = ai_item other \<and> ai_page x = ai_page other"

definition ia_increment :: "'d InternalArray \<Rightarrow> ArrayIterator \<Rightarrow> ArrayIterator json" where
  "ia_increment a it =
     (if ai_array it \<and> ai_pos it \<noteq> int (ia_size a)
      then (let it1 = it\<lparr>ai_item := wrap_uint (ai_item it + 1)\<rparr> in
            Inr (if ai_item it1 = itemsPerPage then it1\<lparr>ai_item := 0, ai_page := ai_page it + 1\<rparr> else it1))
      else Inl JsonRuntimeError)"

definition ia_decrement :: "'d InternalArray \<Rightarrow> ArrayIterator \<Rightarrow> ArrayIterator json" where
  "ia_decrement a it =
     (if ai_array it \<and> ai_page it = 0 \<and> ai_item it = 0
      then Inr (if ai_item it = 0 then it\<lparr>ai_item := itemsPerPage - 1, ai_page := ai_page it - 1\<rparr>
                else it\<lparr>ai_item := ai_item it - 1\<rparr>)
      else Inl JsonRuntimeError)"

text \<open>What \<open>dereference\<close> yields is the slot the iterator is at, which it checks to be below the size.\<close>

definition ia_dereference :: "'d InternalArray \<Rightarrow> ArrayIterator \<Rightarrow> (int \<times> nat) json" where
  "ia_dereference a it =
     (if ai_array it \<and> ai_pos it < int (ia_size a) then Inr (ai_page it, ai_item it) else Inl JsonRuntimeError)"

definition ia_indexOf :: "ArrayIterator \<Rightarrow> nat" where
  "ia_indexOf it = (if ai_array it then nat (ai_pos it mod 2 ^ 32) else 2 ^ 32 - 1)"

definition ia_distance :: "ArrayIterator \<Rightarrow> ArrayIterator \<Rightarrow> int" where
  "ia_distance x y = (let d = (int (ia_indexOf y) - int (ia_indexOf x)) mod 2 ^ 32 in if d < 2 ^ 31 then d else d - 2 ^ 32)"

text \<open>The loop over the slots from one iterator to another: constructing the default value in each, or
  destroying the value each holds.\<close>

definition construct_slot :: "'d InternalArray \<Rightarrow> int \<Rightarrow> nat \<Rightarrow> 'd InternalArray json" where
  "construct_slot a p i = ia_set a p i (Some nullValue)"

definition destroy_slot :: "'d InternalArray \<Rightarrow> int \<Rightarrow> nat \<Rightarrow> 'd InternalArray json" where
  "destroy_slot a p i = json_bind (ia_get a p i) (\<lambda>v. ia_set a p i None)"

fun slot_loop :: "nat \<Rightarrow> ('d InternalArray \<Rightarrow> int \<Rightarrow> nat \<Rightarrow> 'd InternalArray json) \<Rightarrow> ArrayIterator \<Rightarrow> ArrayIterator \<Rightarrow>
    'd InternalArray \<Rightarrow> 'd InternalArray json" where
  "slot_loop n body it itEnd a =
     (if ia_equals it itEnd then Inr a
      else case n of 0 \<Rightarrow> Inl (JsonFault NonTermination)
      | Suc m \<Rightarrow>
          json_bind (ia_dereference a it) (\<lambda>(p, i).
          json_bind (body a p i) (\<lambda>a1.
          json_bind (ia_increment a1 it) (\<lambda>it1. slot_loop m body it1 itEnd a1))))"

subsection \<open>Growing\<close>

definition reallocateArrayPageIndex :: "nat \<Rightarrow> 'd InternalArray \<Rightarrow> 'd InternalArray" where
  "reallocateArrayPageIndex minNewIndexCount a =
     (let n = wrap_uint (wrap_uint (ia_pageCount a * 3) div 2 + 1);
          newIndexCount = (if minNewIndexCount > n then minNewIndexCount else n) in
      a\<lparr>ia_pages := take newIndexCount (ia_pages a) @ replicate (newIndexCount - length (ia_pages a)) None,
        ia_pageCount := newIndexCount\<rparr>)"

fun allocate_pages :: "nat \<Rightarrow> nat \<Rightarrow> 'd InternalArray \<Rightarrow> 'd InternalArray json" where
  "allocate_pages 0 pageIndex a = Inr a"
| "allocate_pages (Suc n) pageIndex a =
     (if pageIndex < length (ia_pages a)
      then allocate_pages n (Suc pageIndex)
             (a\<lparr>ia_pages := (ia_pages a)[pageIndex := Some (replicate itemsPerPage None)]\<rparr>)
      else Inl (JsonFault OutOfBounds))"

definition grow_index :: "nat \<Rightarrow> 'd InternalArray \<Rightarrow> 'd InternalArray" where
  "grow_index index a =
     (if index \<ge> wrap_uint (ia_pageCount a * itemsPerPage)
      then reallocateArrayPageIndex (wrap_uint (index + 1) div itemsPerPage) a else a)"

definition grow_pages :: "nat \<Rightarrow> 'd InternalArray \<Rightarrow> 'd InternalArray json" where
  "grow_pages index a =
     (let size = ia_size a;
          nextPageIndex = (if size mod itemsPerPage \<noteq> 0
                           then wrap_uint (size - size mod itemsPerPage + itemsPerPage) else size) in
      if nextPageIndex \<le> index
      then allocate_pages ((index - nextPageIndex) div itemsPerPage + 1) (nextPageIndex div itemsPerPage) a
      else Inr a)"

definition makeIndexValid :: "nat \<Rightarrow> 'd InternalArray \<Rightarrow> 'd InternalArray json" where
  "makeIndexValid index a =
     json_bind (grow_pages index (grow_index index a)) (\<lambda>a1.
     let it = ia_makeIterator (ia_size a1); a2 = a1\<lparr>ia_size := wrap_uint (index + 1)\<rparr> in
     slot_loop (Suc index - ia_size a1) construct_slot it (ia_makeEndIterator a2) a2)"

text \<open>\<open>resolveReference\<close> yields a place; \<open>ia_put\<close> is an assignment to it.\<close>

definition ia_resolveReference :: "nat \<Rightarrow> 'd InternalArray \<Rightarrow> ((int \<times> nat) \<times> 'd InternalArray) json" where
  "ia_resolveReference index a =
     json_bind (if index \<ge> ia_size a then makeIndexValid index a else Inr a) (\<lambda>a1.
     Inr ((int (index div itemsPerPage), index mod itemsPerPage), a1))"

definition ia_put :: "nat \<Rightarrow> 'd JsonValue \<Rightarrow> 'd InternalArray \<Rightarrow> 'd InternalArray json" where
  "ia_put index v a =
     json_bind (ia_resolveReference index a) (\<lambda>((p, i), a1).
     json_bind (ia_get a1 p i) (\<lambda>old. ia_set a1 p i (Some v)))"

definition ia_find :: "nat \<Rightarrow> 'd InternalArray \<Rightarrow> 'd JsonValue option json" where
  "ia_find index a =
     (if index \<ge> ia_size a then Inr None
      else json_bind (ia_get a (int (index div itemsPerPage)) (index mod itemsPerPage)) (\<lambda>v. Inr (Some v)))"

subsection \<open>Copying, shrinking and destroying\<close>

text \<open>The loop of the copy constructor. \<open>value\<close> is set when a page is begun, and not moved on after that.\<close>

fun copy_loop :: "nat \<Rightarrow> nat \<Rightarrow> 'd InternalArray \<Rightarrow> ArrayIterator \<Rightarrow> int \<Rightarrow> 'd InternalArray \<Rightarrow> 'd InternalArray json" where
  "copy_loop n index other itOther value a =
     (if \<not> index < ia_size a then Inr a
      else case n of 0 \<Rightarrow> Inl (JsonFault NonTermination)
      | Suc m \<Rightarrow>
          (let value1 = (if index mod itemsPerPage = 0 then int (index div itemsPerPage) else value) in
           json_bind (if index mod itemsPerPage = 0 then allocate_pages 1 (index div itemsPerPage) a else Inr a) (\<lambda>a1.
           json_bind (ia_dereference other itOther) (\<lambda>(p, i).
           json_bind (ia_get other p i) (\<lambda>v.
           json_bind (ia_set a1 value1 0 (Some (json_copy v))) (\<lambda>a2.
           json_bind (ia_increment other itOther) (\<lambda>it1. copy_loop m (index + 1) other it1 value1 a2)))))))"

definition ia_copy :: "'d InternalArray \<Rightarrow> 'd InternalArray json" where
  "ia_copy other =
     (let a = reallocateArrayPageIndex (ia_size other div itemsPerPage) \<lparr>ia_pages = [], ia_size = ia_size other, ia_pageCount = 0\<rparr> in
      copy_loop (ia_size other) 0 other ia_makeBeginIterator 0 a)"

fun release_pages :: "nat \<Rightarrow> nat \<Rightarrow> 'd InternalArray \<Rightarrow> 'd InternalArray json" where
  "release_pages 0 pageIndex a = Inr a"
| "release_pages (Suc n) pageIndex a =
     json_bind (ia_page a (int pageIndex)) (\<lambda>pg.
     release_pages n (Suc pageIndex) (a\<lparr>ia_pages := (ia_pages a)[pageIndex := None]\<rparr>))"

text \<open>The destructor. What it leaves in \<open>ia_pages\<close> are the pages that nobody can release any more.\<close>

definition ia_destroy :: "'d InternalArray \<Rightarrow> 'd InternalArray json" where
  "ia_destroy a =
     json_bind (slot_loop (ia_size a) destroy_slot ia_makeBeginIterator (ia_makeEndIterator a) a) (\<lambda>a1.
     release_pages (ia_size a div itemsPerPage) 0 a1)"

definition ia_swap :: "'d InternalArray \<Rightarrow> 'd InternalArray \<Rightarrow> 'd InternalArray \<times> 'd InternalArray" where
  "ia_swap a other =
     (a\<lparr>ia_pages := ia_pages other, ia_size := ia_size other, ia_pageCount := ia_pageCount other\<rparr>,
      other\<lparr>ia_pages := ia_pages a, ia_size := ia_size a, ia_pageCount := ia_pageCount a\<rparr>)"

definition ia_assign :: "'d InternalArray \<Rightarrow> 'd InternalArray \<Rightarrow> 'd InternalArray json" where
  "ia_assign a other =
     json_bind (ia_copy other) (\<lambda>temp. let (a1, temp1) = ia_swap a temp in json_bind (ia_destroy temp1) (\<lambda>gone. Inr a1))"

definition ia_clear :: "'d InternalArray \<Rightarrow> 'd InternalArray json" where
  "ia_clear a = (let (a1, dummy) = ia_swap a InternalArray_new in json_bind (ia_destroy dummy) (\<lambda>gone. Inr a1))"

definition ia_resize :: "nat \<Rightarrow> 'd InternalArray \<Rightarrow> 'd InternalArray json" where
  "ia_resize newSize a =
     (if newSize = 0 then ia_clear a
      else if newSize < ia_size a
      then json_bind (slot_loop (ia_size a - newSize) destroy_slot (ia_makeIterator newSize) (ia_makeIterator (ia_size a)) a) (\<lambda>a1.
           let pageIndex = wrap_uint (newSize + itemsPerPage - 1) div itemsPerPage in
           json_bind (release_pages (ia_size a div itemsPerPage - pageIndex) pageIndex a1) (\<lambda>a2.
           Inr (a2\<lparr>ia_size := newSize\<rparr>)))
      else if newSize > ia_size a then json_bind (ia_resolveReference newSize a) (\<lambda>(ref, a1). Inr a1)
      else Inr a)"

text \<open>\<open>Value::compare\<close> has no body but this.\<close>

definition Value_compare :: "'d JsonValue \<Rightarrow> 'd JsonValue \<Rightarrow> int" where
  "Value_compare v other = 0"

fun compare_loop :: "nat \<Rightarrow> nat \<Rightarrow> 'd InternalArray \<Rightarrow> 'd InternalArray \<Rightarrow> int json" where
  "compare_loop 0 index a other = Inr 0"
| "compare_loop (Suc n) index a other =
     (let p = int (index div itemsPerPage); i = index mod itemsPerPage in
      json_bind (ia_get a p i) (\<lambda>v.
      json_bind (ia_get other p i) (\<lambda>w.
      if Value_compare v w \<noteq> 0 then Inr (Value_compare v w) else compare_loop n (Suc index) a other)))"

definition ia_compare :: "'d InternalArray \<Rightarrow> 'd InternalArray \<Rightarrow> int json" where
  "ia_compare a other =
     (let d = (int (ia_size a) - int (ia_size other)) mod 2 ^ 32; sizeDiff = (if d < 2 ^ 31 then d else d - 2 ^ 32) in
      if sizeDiff \<noteq> 0 then Inr sizeDiff else compare_loop (ia_size a) 0 a other)"

section \<open>Slots\<close>

definition slot :: "'d InternalArray \<Rightarrow> nat \<Rightarrow> 'd JsonValue option" where
  "slot a j = the (ia_pages a ! (j div 8)) ! (j mod 8)"

definition write_slot :: "nat \<Rightarrow> 'd JsonValue option \<Rightarrow> 'd InternalArray \<Rightarrow> 'd InternalArray" where
  "write_slot j v a =
     a\<lparr>ia_pages := (ia_pages a)[j div 8 := Some ((the (ia_pages a ! (j div 8)))[j mod 8 := v])]\<rparr>"

text \<open>The pages of the first \<open>n\<close> slots are there.\<close>

definition paged :: "nat \<Rightarrow> 'd InternalArray \<Rightarrow> bool" where
  "paged n a \<longleftrightarrow> length (ia_pages a) = ia_pageCount a \<and> (\<forall>pg. Some pg \<in> set (ia_pages a) \<longrightarrow> length pg = 8) \<and>
     (\<forall>j<n. j div 8 < ia_pageCount a \<and> ia_pages a ! (j div 8) \<noteq> None)"

lemma paged_at:
  assumes "paged n a" "j < n"
  obtains pg where "j div 8 < length (ia_pages a)" "ia_pages a ! (j div 8) = Some pg" "length pg = 8"
proof -
  from assms obtain pg where "j div 8 < length (ia_pages a)" "ia_pages a ! (j div 8) = Some pg"
    by (auto simp: paged_def)
  moreover from this have "length pg = 8" using assms(1) nth_mem unfolding paged_def by metis
  ultimately show thesis using that by blast
qed

lemma ia_page_at: "paged n a \<Longrightarrow> j < n \<Longrightarrow> ia_page a (int (j div 8)) = Inr (the (ia_pages a ! (j div 8)))"
  by (erule (1) paged_at) (simp add: ia_page_def)

lemma ia_get_slot:
  "paged n a \<Longrightarrow> j < n \<Longrightarrow> ia_get a (int (j div 8)) (j mod 8) =
     (case slot a j of None \<Rightarrow> Inl (JsonFault UseAfterFree) | Some v \<Rightarrow> Inr v)"
  by (erule (1) paged_at) (simp add: ia_get_def ia_page_def slot_def)

lemma ia_set_slot: "paged n a \<Longrightarrow> j < n \<Longrightarrow> ia_set a (int (j div 8)) (j mod 8) v = Inr (write_slot j v a)"
  by (erule (1) paged_at) (simp add: ia_set_def ia_page_def write_slot_def)

lemma write_slot_fields [simp]:
  "ia_size (write_slot j v a) = ia_size a" "ia_pageCount (write_slot j v a) = ia_pageCount a"
  by (simp_all add: write_slot_def)

lemma write_slot_paged:
  assumes "paged n a" "j < n"
  shows "paged n (write_slot j v a)"
proof -
  obtain pg where pg: "j div 8 < length (ia_pages a)" "ia_pages a ! (j div 8) = Some pg" "length pg = 8"
    using paged_at [OF assms] .
  let ?ps = "(ia_pages a)[j div 8 := Some (pg[j mod 8 := v])]"
  have "length q = 8" if "Some q \<in> set ?ps" for q
    using that pg(3) assms(1) set_update_subset_insert [of "ia_pages a" "j div 8" "Some (pg[j mod 8 := v])"]
    unfolding paged_def by auto
  moreover have "?ps ! (i div 8) \<noteq> None" if "i < n" for i
    using that pg(1) assms(1) by (cases "i div 8 = j div 8") (simp_all add: paged_def)
  ultimately show ?thesis using assms(1) pg(2) by (simp add: paged_def write_slot_def)
qed

lemma write_slot_None:
  assumes "paged n a" "j < n"
  shows "(ia_pages (write_slot j v a) ! q = None) = (ia_pages a ! q = None)"
  by (rule paged_at [OF assms]) (cases "q = j div 8"; simp add: write_slot_def)

lemma same_slot: "(i div 8 = j div 8 \<and> i mod 8 = j mod 8) \<longleftrightarrow> i = (j :: nat)"
  by (metis div_mult_mod_eq)

lemma slot_write:
  assumes "paged n a" "j < n" "i < n"
  shows "slot (write_slot j v a) i = (if i = j then v else slot a i)"
  using assms same_slot [of i j]
  by (elim paged_at) (auto simp: slot_def write_slot_def nth_list_update)

lemma int_slot: "int (j div 8) * 8 + int (j mod 8) = int j"
  by (metis div_mult_mod_eq of_nat_add of_nat_mult of_nat_numeral)

lemma makeIterator_simps [simp]:
  "ia_equals (ia_makeIterator i) (ia_makeIterator j) \<longleftrightarrow> i = j"
  "ai_pos (ia_makeIterator i) = int i" "ia_makeBeginIterator = ia_makeIterator 0" "ai_array (ia_makeIterator i)"
  using same_slot [of i j]
  by (auto simp: int_slot ia_equals_def ia_makeIterator_def ai_pos_def itemsPerPage_def ia_makeBeginIterator_def)

lemma dereference_at: "j < ia_size a \<Longrightarrow> ia_dereference a (ia_makeIterator j) = Inr (int (j div 8), j mod 8)"
  by (simp add: ia_dereference_def) (simp add: ia_makeIterator_def itemsPerPage_def)

lemma increment_at: "j \<noteq> ia_size a \<Longrightarrow> ia_increment a (ia_makeIterator j) = Inr (ia_makeIterator (Suc j))"
  by (simp add: ia_increment_def)
     (auto simp: ia_makeIterator_def itemsPerPage_def wrap_uint_def Let_def div_Suc mod_Suc)

text \<open>A loop that writes \<open>v\<close> to the slots from \<open>i\<close> to \<open>n\<close>.\<close>

definition filled :: "nat \<Rightarrow> nat \<Rightarrow> 'd JsonValue option \<Rightarrow> 'd InternalArray \<Rightarrow> 'd InternalArray \<Rightarrow> bool" where
  "filled i n v a a' \<longleftrightarrow> paged n a' \<and> ia_size a' = ia_size a \<and> ia_pageCount a' = ia_pageCount a \<and>
     (\<forall>j<n. slot a' j = (if i \<le> j then v else slot a j)) \<and>
     (\<forall>q. (ia_pages a' ! q = None) = (ia_pages a ! q = None))"

lemma slot_loop_fills:
  assumes "\<And>a j. paged n a \<Longrightarrow> j < n \<Longrightarrow> ok (slot a j) \<Longrightarrow> body a (int (j div 8)) (j mod 8) = Inr (write_slot j v a)"
    and "paged n a" "i \<le> n" "n \<le> ia_size a" "n \<le> i + m" "\<forall>j<n. i \<le> j \<longrightarrow> ok (slot a j)"
  shows "\<exists>a'. slot_loop m body (ia_makeIterator i) (ia_makeIterator n) a = Inr a' \<and> filled i n v a a'"
  using assms(2-6)
proof (induction m arbitrary: i a)
  case 0
  then show ?case by (auto simp: filled_def)
next
  case (Suc m)
  show ?case
  proof (cases "i = n")
    case True
    then show ?thesis using Suc.prems by (auto simp: filled_def)
  next
    case False
    then have i: "i < n" using Suc.prems by simp
    let ?a = "write_slot i v a"
    have "paged n ?a" "\<forall>j<n. Suc i \<le> j \<longrightarrow> ok (slot ?a j)"
      using Suc.prems i by (auto simp: write_slot_paged slot_write)
    then obtain a' where a': "slot_loop m body (ia_makeIterator (Suc i)) (ia_makeIterator n) ?a = Inr a'"
        "filled (Suc i) n v ?a a'"
      using Suc.IH [of ?a "Suc i"] Suc.prems i by auto
    have "filled i n v a a'"
      using a'(2) write_slot_None [OF Suc.prems(1) i] slot_write [OF Suc.prems(1) i]
      unfolding filled_def by auto
    then show ?thesis
      using a'(1) assms(1) [OF Suc.prems(1) i] Suc.prems i dereference_at [of i a] increment_at [of i ?a] by auto
  qed
qed

declare slot_loop.simps [simp del] copy_loop.simps [simp del]

section \<open>Growing\<close>

definition ia_wf :: "'d InternalArray \<Rightarrow> bool" where
  "ia_wf a \<longleftrightarrow> paged (ia_size a) a \<and> (\<forall>j<ia_size a. slot a j \<noteq> None) \<and> ia_pageCount a < 2 ^ 28"

definition ia_list :: "'d InternalArray \<Rightarrow> 'd JsonValue list" where
  "ia_list a = map (\<lambda>j. the (slot a j)) [0..<ia_size a]"

text \<open>The number of pointers \<open>pages_\<close> has room for when \<open>index\<close> is to be valid.\<close>

definition new_count :: "nat \<Rightarrow> nat \<Rightarrow> nat" where
  "new_count index c = (if index \<ge> c * 8 then max (c * 3 div 2 + 1) ((index + 1) div 8) else c)"

lemma wrap_small [simp]: "n < 2 ^ 32 \<Longrightarrow> wrap_uint n = n"
  by (simp add: wrap_uint_def)

lemma grow_index_spec:
  assumes "paged n a" "ia_pageCount a < 2 ^ 28" "index < 2 ^ 31"
  shows "paged n (grow_index index a) \<and> (\<forall>j<n. slot (grow_index index a) j = slot a j) \<and>
     ia_size (grow_index index a) = ia_size a \<and> ia_pageCount (grow_index index a) = new_count index (ia_pageCount a)"
proof -
  let ?c = "ia_pageCount a" and ?c' = "max (ia_pageCount a * 3 div 2 + 1) ((index + 1) div 8)"
  have grow: "grow_index index a =
     (if index \<ge> ?c * 8
      then a\<lparr>ia_pages := ia_pages a @ replicate (?c' - ?c) None, ia_pageCount := ?c'\<rparr> else a)"
    using assms
    by (auto simp: grow_index_def reallocateArrayPageIndex_def itemsPerPage_def Let_def paged_def max_def)
  have "(ia_pages a @ replicate k None) ! (j div 8) = ia_pages a ! (j div 8)" if "j < n" for j k
    by (rule paged_at [OF assms(1) that]) (simp only: nth_append if_True)
  then show ?thesis
    unfolding grow using assms(1) by (auto simp: paged_def slot_def new_count_def)
qed

lemma allocate_pages_spec:
  assumes "q + n \<le> length (ia_pages a)"
  shows "\<exists>a'. allocate_pages n q a = Inr a' \<and> ia_size a' = ia_size a \<and> ia_pageCount a' = ia_pageCount a \<and>
     length (ia_pages a') = length (ia_pages a) \<and>
     (\<forall>p. ia_pages a' ! p = (if q \<le> p \<and> p < q + n then Some (replicate 8 None) else ia_pages a ! p))"
  using assms
proof (induction n arbitrary: q a)
  case (Suc n)
  let ?a = "a\<lparr>ia_pages := (ia_pages a)[q := Some (replicate 8 None)]\<rparr>"
  obtain a' where a': "allocate_pages n (Suc q) ?a = Inr a'" "ia_size a' = ia_size a" "ia_pageCount a' = ia_pageCount a"
      "length (ia_pages a') = length (ia_pages a)"
      "\<And>p. ia_pages a' ! p = (if Suc q \<le> p \<and> p < Suc q + n then Some (replicate 8 None) else ia_pages ?a ! p)"
    using Suc.IH [of "Suc q" ?a] Suc.prems by auto
  have "ia_pages a' ! p = (if q \<le> p \<and> p < q + Suc n then Some (replicate 8 None) else ia_pages a ! p)" for p
    using a'(5) [of p] Suc.prems by (cases "p = q") auto
  then show ?case using a' Suc.prems by (simp add: itemsPerPage_def)
qed auto

lemma allocate_pages_fault: "length (ia_pages a) < q + n \<Longrightarrow> q \<le> length (ia_pages a) \<Longrightarrow> allocate_pages n q a = Inl (JsonFault OutOfBounds)"
  by (induction n arbitrary: q a) (auto simp: Suc_le_eq)

lemma ceil_page:
  fixes n :: nat
  assumes "n mod 8 \<noteq> 0"
  shows "n - n mod 8 + 8 = 8 * ((n + 7) div 8)"
proof -
  define q r where "q = n div 8" and "r = n mod 8"
  then have "n = 8 * q + r" "r < 8" "0 < r" using assms by simp_all
  then have "8 * (q + 1) \<le> n + 7" "n + 7 < 8 * Suc (q + 1)" by simp_all
  then have "(n + 7) div 8 = n div 8 + 1" unfolding q_def [symmetric] by (intro div_nat_eqI)
  then show ?thesis by (simp add: minus_mod_eq_mult_div)
qed

lemma pages_left: "8 * s \<le> i \<Longrightarrow> (i - 8 * s) div 8 + 1 = Suc (i div 8) - s" for i s :: nat
  by (auto simp: le_iff_add)

lemma grow_pages_eq:
  assumes "ia_size a \<le> index" "index < 2 ^ 31"
  shows "grow_pages index a =
     allocate_pages (Suc (index div 8) - (ia_size a + 7) div 8) ((ia_size a + 7) div 8) a"
proof -
  let ?n = "ia_size a" and ?s = "(ia_size a + 7) div 8"
  have next_page: "(if ?n mod 8 \<noteq> 0 then wrap_uint (?n - ?n mod 8 + 8) else ?n) = 8 * ?s"
  proof (cases "?n mod 8 = 0")
    case False
    have "8 * ?s \<le> ?n + 7" by simp
    then have "8 * ?s < 2 ^ 32" using assms by simp
    then show ?thesis using ceil_page [of ?n] False by simp
  next
    case True
    then obtain k where "?n = 8 * k" by (auto simp: mod_eq_0_iff_dvd elim: dvdE)
    moreover have "(8 * k + 7) div 8 = k" by (rule div_nat_eqI) auto
    ultimately show ?thesis by simp
  qed
  have left: "(index - 8 * ?s) div 8 + 1 = Suc (index div 8) - ?s" if "8 * ?s \<le> index"
    using that by (rule pages_left)
  have none: "Suc (index div 8) - ?s = 0" if "\<not> 8 * ?s \<le> index"
  proof -
    have "index div 8 < ?s" using that by (simp add: div_less_iff_less_mult)
    then show ?thesis by simp
  qed
  show ?thesis
    unfolding grow_pages_def Let_def itemsPerPage_def next_page
    using left none by (cases "8 * ?s \<le> index") (simp_all only: simp_thms if_True if_False allocate_pages.simps(1) nonzero_mult_div_cancel_left)
qed

lemma page_below: "q < (n + 7) div 8 \<Longrightarrow> 8 * q < n" for n q :: nat
  by (simp add: less_eq_Suc_le [of q] less_eq_div_iff_mult_less_eq)

lemma page_index_below: "j < n \<Longrightarrow> j div 8 < (n + 7) div 8" for n j :: nat
  by (simp add: div_less_iff_less_mult [of 8 j] ceil_page)

lemma paged_count:
  assumes "paged n a"
  shows "(n + 7) div 8 \<le> length (ia_pages a)"
proof (rule ccontr)
  assume "\<not> ?thesis"
  then have "8 * length (ia_pages a) < n" by (intro page_below) simp
  then show False by (rule paged_at [OF assms]) simp
qed

text \<open>Growing to an index succeeds when \<open>pages_\<close> gets room for its page.\<close>

lemma makeIndexValid_ok:
  assumes "ia_wf a" "ia_size a \<le> index" "index < 2 ^ 31" "index div 8 < new_count index (ia_pageCount a)"
  shows "\<exists>a'. makeIndexValid index a = Inr a' \<and> paged (Suc index) a' \<and> ia_size a' = Suc index \<and>
     ia_pageCount a' = new_count index (ia_pageCount a) \<and>
     (\<forall>j\<le>index. slot a' j = (if j < ia_size a then slot a j else Some nullValue))"
proof -
  let ?n = "ia_size a" and ?a1 = "grow_index index a" and ?s = "(ia_size a + 7) div 8"
  let ?k = "Suc (index div 8) - ?s"
  have a: "paged ?n a" "ia_pageCount a < 2 ^ 28" using assms(1) by (auto simp: ia_wf_def)
  note g = grow_index_spec [OF a assms(3)]
  have len: "length (ia_pages ?a1) = new_count index (ia_pageCount a)" using g by (auto simp: paged_def)
  have "?s \<le> length (ia_pages ?a1)" using g by (intro paged_count) simp
  then have "?s + ?k \<le> length (ia_pages ?a1)" using assms(4) len by simp
  from allocate_pages_spec [OF this] obtain a2 where a2: "allocate_pages ?k ?s ?a1 = Inr a2" "ia_size a2 = ?n"
      "ia_pageCount a2 = new_count index (ia_pageCount a)" "length (ia_pages a2) = length (ia_pages ?a1)"
      "\<And>p. ia_pages a2 ! p = (if ?s \<le> p \<and> p < ?s + ?k then Some (replicate 8 None) else ia_pages ?a1 ! p)"
    using g by auto
  let ?a2 = "a2\<lparr>ia_size := Suc index\<rparr>"
  have old: "ia_pages a2 ! (j div 8) = ia_pages ?a1 ! (j div 8)" if "j < ?n" for j
    using a2(5) [of "j div 8"] page_index_below [OF that] by simp
  have paged: "paged (Suc index) ?a2"
  proof -
    have "length pg = 8" if "Some pg \<in> set (ia_pages a2)" for pg
      using that g a2(4,5) unfolding in_set_conv_nth paged_def
      by (metis length_replicate nth_mem option.inject)
    moreover have "ia_pages a2 ! (j div 8) \<noteq> None" if "j \<le> index" for j
    proof (cases "j div 8 < ?s")
      case True
      then have "8 * (j div 8) < ?n" by (rule page_below)
      then show ?thesis using old [of "8 * (j div 8)"] g by (auto simp: paged_def dest!: spec [of _ "8 * (j div 8)"])
    next
      case False
      then show ?thesis using a2(5) [of "j div 8"] div_le_mono [OF that, of 8] by simp
    qed
    moreover have "j div 8 < new_count index (ia_pageCount a)" if "j \<le> index" for j
      using div_le_mono [OF that, of 8] assms(4) by simp
    ultimately show ?thesis using a2(3,4) len by (simp add: paged_def less_Suc_eq_le)
  qed
  obtain a' where a': "slot_loop (Suc index - ?n) construct_slot (ia_makeIterator ?n) (ia_makeIterator (Suc index)) ?a2 = Inr a'"
      "filled ?n (Suc index) (Some nullValue) ?a2 a'"
    using slot_loop_fills [of "Suc index" "\<lambda>v. True" construct_slot "Some nullValue" ?a2 ?n "Suc index - ?n"] paged assms(2)
    by (auto simp: construct_slot_def ia_set_slot)
  have "makeIndexValid index a = Inr a'"
    using a'(1) a2(1,2) assms(2,3) g grow_pages_eq [of ?a1 index]
    by (simp add: makeIndexValid_def Let_def ia_makeEndIterator_def)
  moreover have "slot ?a2 j = slot a j" if "j < ?n" for j
    using old [OF that] g that by (simp add: slot_def)
  ultimately show ?thesis
    using a'(2) a2(3) by (auto simp: filled_def less_Suc_eq_le)
qed

lemma makeIndexValid_fault:
  assumes "ia_wf a" "ia_size a \<le> index" "index < 2 ^ 31" "new_count index (ia_pageCount a) \<le> index div 8"
  shows "makeIndexValid index a = Inl (JsonFault OutOfBounds)"
proof -
  let ?s = "(ia_size a + 7) div 8"
  have a: "paged (ia_size a) a" "ia_pageCount a < 2 ^ 28" using assms(1) by (auto simp: ia_wf_def)
  note g = grow_index_spec [OF a assms(3)]
  have len: "length (ia_pages (grow_index index a)) = new_count index (ia_pageCount a)" using g by (auto simp: paged_def)
  have "?s \<le> new_count index (ia_pageCount a)" using g paged_count [of "ia_size a"] len by metis
  then have "allocate_pages (Suc (index div 8) - ?s) ?s (grow_index index a) = Inl (JsonFault OutOfBounds)"
    using assms(4) len by (intro allocate_pages_fault) auto
  then show ?thesis
    using g assms(2,3) grow_pages_eq [of "grow_index index a" index] by (simp add: makeIndexValid_def)
qed

lemma ia_wf_slot: "ia_wf a \<Longrightarrow> j < ia_size a \<Longrightarrow> slot a j = Some (ia_list a ! j)"
  by (auto simp: ia_wf_def ia_list_def)

lemma length_ia_list [simp]: "length (ia_list a) = ia_size a"
  by (simp add: ia_list_def)

lemma ia_find_nth: "ia_wf a \<Longrightarrow> ia_find i a = Inr (if i < ia_size a then Some (ia_list a ! i) else None)"
  using ia_get_slot [of "ia_size a" a i] ia_wf_slot [of a i]
  by (auto simp: ia_find_def itemsPerPage_def ia_wf_def)

text \<open>An assignment to an index that is there, or that is the next one.\<close>

lemma ia_set_list:
  assumes "ia_wf a" "i < ia_size a"
  shows "\<exists>a'. ia_set a (int (i div 8)) (i mod 8) (Some v) = Inr a' \<and> ia_wf a' \<and> ia_list a' = (ia_list a)[i := v] \<and>
     ia_pageCount a' = ia_pageCount a"
proof -
  have p: "paged (ia_size a) a" using assms(1) by (simp add: ia_wf_def)
  have "ia_wf (write_slot i (Some v) a)"
    using assms p by (auto simp: ia_wf_def write_slot_paged slot_write)
  moreover have "ia_list (write_slot i (Some v) a) = (ia_list a)[i := v]"
    using p assms(2) by (intro nth_equalityI) (auto simp: ia_list_def slot_write nth_list_update)
  ultimately show ?thesis using ia_set_slot [OF p assms(2)] by simp
qed

lemma ia_put_there:
  assumes "ia_wf a" "i < ia_size a"
  shows "\<exists>a'. ia_put i v a = Inr a' \<and> ia_wf a' \<and> ia_list a' = (ia_list a)[i := v] \<and> ia_pageCount a' = ia_pageCount a"
  using ia_set_list [OF assms, of v] ia_get_slot [of "ia_size a" a i] ia_wf_slot [OF assms] assms
  by (auto simp: ia_put_def ia_resolveReference_def itemsPerPage_def ia_wf_def)

lemma replicate_write_last: "(replicate (Suc n) x)[n := v] = replicate n x @ [v]"
  by (induction n) auto

lemma ia_put_beyond:
  assumes "ia_wf a" "ia_size a \<le> i" "i < 2 ^ 31" "new_count i (ia_pageCount a) < 2 ^ 28"
    and "i div 8 < new_count i (ia_pageCount a)"
  shows "\<exists>a'. ia_put i v a = Inr a' \<and> ia_wf a' \<and> ia_list a' = ia_list a @ replicate (i - ia_size a) nullValue @ [v] \<and>
     ia_pageCount a' = new_count i (ia_pageCount a)"
proof -
  let ?n = "ia_size a"
  obtain a1 where a1: "makeIndexValid i a = Inr a1" "paged (Suc i) a1" "ia_size a1 = Suc i"
      "ia_pageCount a1 = new_count i (ia_pageCount a)" "\<And>j. j \<le> i \<Longrightarrow> slot a1 j = (if j < ?n then slot a j else Some nullValue)"
    using makeIndexValid_ok [OF assms(1-3,5)] by auto
  have wf: "ia_wf a1" using a1(2-5) assms(1,4) by (auto simp: ia_wf_def less_Suc_eq_le)
  have grown: "ia_list a1 = ia_list a @ replicate (Suc i - ?n) nullValue"
    using a1(3,5) assms(2) by (intro nth_equalityI) (auto simp: ia_list_def nth_append less_Suc_eq_le)
  obtain a2 where a2: "ia_set a1 (int (i div 8)) (i mod 8) (Some v) = Inr a2" "ia_wf a2"
      "ia_list a2 = (ia_list a1)[i := v]" "ia_pageCount a2 = ia_pageCount a1"
    using ia_set_list [OF wf, of i v] a1(3) by auto
  have "(ia_list a1)[i := v] = ia_list a @ replicate (i - ?n) nullValue @ [v]"
    using assms(2) unfolding grown
    by (simp add: list_update_append Suc_diff_le replicate_write_last del: replicate_Suc)
  moreover have "\<exists>w. ia_get a1 (int (i div 8)) (i mod 8) = Inr w"
    using ia_get_slot [OF a1(2), of i] a1(5) [of i] ia_wf_slot [OF assms(1), of i] by auto
  ultimately show ?thesis
    using a1(1,4) a2 assms(2) by (auto simp: ia_put_def ia_resolveReference_def itemsPerPage_def)
qed

end
