(* ===== verification/Json_Array_Properties.thy ===== *)
theory Json_Array_Properties
  imports Json_Array
begin

text \<open>
  What the array of the JSON library does: it is a list as long as it is filled from the front
  (\<open>growing_list\<close>, which says what a client relies on); and what jumping ahead, resizing, copying and
  destroying come to.
\<close>

section \<open>An array as a list\<close>

text \<open>What a client relies on: writing to an index that is there or to the next one, and reading.\<close>

primrec put_each :: "(nat \<Rightarrow> 'v \<Rightarrow> 'a \<Rightarrow> 'a json) \<Rightarrow> (nat \<times> 'v) list \<Rightarrow> 'a \<Rightarrow> 'a json" where
  "put_each put [] a = Inr a"
| "put_each put (w # ws) a = json_bind (put (fst w) (snd w) a) (put_each put ws)"

primrec write_each :: "(nat \<times> 'v) list \<Rightarrow> 'v list \<Rightarrow> 'v list" where
  "write_each [] xs = xs"
| "write_each (w # ws) xs = write_each ws (if fst w < length xs then xs[fst w := snd w] else xs @ [snd w])"

primrec in_order :: "(nat \<times> 'v) list \<Rightarrow> nat \<Rightarrow> bool" where
  "in_order [] n \<longleftrightarrow> True"
| "in_order (w # ws) n \<longleftrightarrow> fst w \<le> n \<and> in_order ws (if fst w < n then n else Suc n)"

locale growing_list =
  fixes good :: "'a \<Rightarrow> bool" and view :: "'a \<Rightarrow> 'v list" and put :: "nat \<Rightarrow> 'v \<Rightarrow> 'a \<Rightarrow> 'a json"
    and limit :: nat
  assumes put_there: "good a \<Longrightarrow> i < length (view a) \<Longrightarrow> \<exists>a'. put i v a = Inr a' \<and> good a' \<and> view a' = (view a)[i := v]"
    and put_next: "good a \<Longrightarrow> length (view a) < limit \<Longrightarrow>
      \<exists>a'. put (length (view a)) v a = Inr a' \<and> good a' \<and> view a' = view a @ [v]"
begin

lemma put_each_writes:
  assumes "good a" "in_order ws (length (view a))" "length (view a) + length ws \<le> limit"
  shows "\<exists>a'. put_each put ws a = Inr a' \<and> good a' \<and> view a' = write_each ws (view a)"
  using assms
proof (induction ws arbitrary: a)
  case (Cons w ws)
  obtain a1 where a1: "put (fst w) (snd w) a = Inr a1" "good a1"
      "view a1 = (if fst w < length (view a) then (view a)[fst w := snd w] else view a @ [snd w])"
    using put_there [OF Cons.prems(1), of "fst w" "snd w"] put_next [OF Cons.prems(1), of "snd w"] Cons.prems(2,3)
    by (cases "fst w < length (view a)") (auto dest!: antisym)
  then show ?case
    using Cons.IH [of a1] Cons.prems(2,3) by (auto split: if_splits)
qed simp

end

definition ia_good :: "'d InternalArray \<Rightarrow> bool" where
  "ia_good a \<longleftrightarrow> ia_wf a \<and> 16 * ia_pageCount a \<le> 3 * ia_size a + 16"

lemma new_count_next:
  assumes "ia_good a" "ia_size a < 2 ^ 28"
  shows "ia_size a div 8 < new_count (ia_size a) (ia_pageCount a)" "new_count (ia_size a) (ia_pageCount a) < 2 ^ 28"
    "16 * new_count (ia_size a) (ia_pageCount a) \<le> 3 * Suc (ia_size a) + 16"
proof -
  let ?n = "ia_size a" and ?c = "ia_pageCount a"
  have "\<forall>j<?n. j div 8 < ?c" "16 * ?c \<le> 3 * ?n + 16" using assms(1) by (auto simp: ia_good_def ia_wf_def paged_def)
  then have c: "?n \<le> ?c * 8" "16 * ?c \<le> 3 * ?n + 16" by (auto simp: not_less [symmetric] dest!: spec [of _ "8 * ?c"])
  have "?n div 8 < new_count ?n ?c \<and> 16 * new_count ?n ?c \<le> 3 * Suc ?n + 16"
  proof (cases "?n = ?c * 8")
    case True
    then have "new_count ?n ?c = ?c * 3 div 2 + 1" by (simp add: new_count_def max_def)
    moreover have "c < c * 3 div 2 + 1 \<and> 16 * (c * 3 div 2) \<le> 24 * c" for c :: nat by presburger
    ultimately show ?thesis using True by simp
  next
    case False
    then show ?thesis using c by (simp add: new_count_def div_less_iff_less_mult)
  qed
  then show "?n div 8 < new_count ?n ?c" "new_count ?n ?c < 2 ^ 28" "16 * new_count ?n ?c \<le> 3 * Suc ?n + 16"
    using assms(2) by simp_all
qed

interpretation pages: growing_list ia_good ia_list ia_put "2 ^ 28"
proof
  show "\<exists>a'. ia_put i v a = Inr a' \<and> ia_good a' \<and> ia_list a' = (ia_list a)[i := v]"
    if good: "ia_good a" "i < length (ia_list a)" for a :: "'a InternalArray" and i v
  proof -
    obtain a' where a': "ia_put i v a = Inr a'" "ia_wf a'" "ia_list a' = (ia_list a)[i := v]" "ia_pageCount a' = ia_pageCount a"
      using ia_put_there [of a i v] good by (auto simp: ia_good_def)
    then have "ia_size a' = ia_size a" using length_ia_list [of a'] by simp
    then show ?thesis using a' good(1) by (auto simp: ia_good_def)
  qed
  show "\<exists>a'. ia_put (length (ia_list a)) v a = Inr a' \<and> ia_good a' \<and> ia_list a' = ia_list a @ [v]"
    if "ia_good a" "length (ia_list a) < 2 ^ 28" for a :: "'a InternalArray" and v
  proof -
    have n: "ia_size a < 2 ^ 28" "ia_wf a" using that by (auto simp: ia_good_def)
    note c = new_count_next [OF that(1) n(1)]
    obtain a' where a': "ia_put (ia_size a) v a = Inr a'" "ia_wf a'" "ia_list a' = ia_list a @ [v]"
        "ia_pageCount a' = new_count (ia_size a) (ia_pageCount a)"
      using ia_put_beyond [OF n(2) order_refl _ c(2,1), of v] n(1) by auto
    then have "ia_size a' = Suc (ia_size a)" using length_ia_list [of a'] by simp
    then show ?thesis using a' c(3) by (auto simp: ia_good_def)
  qed
qed

text \<open>An array that is filled from the front, each index at most the number of elements so far, is the list of
  what was written: nothing faults, and every element is found where it was put last.\<close>

theorem array_is_a_list:
  fixes ws :: "(nat \<times> 'd JsonValue) list"
  assumes "in_order ws 0" "length ws \<le> 2 ^ 28"
  shows "\<exists>a. put_each ia_put ws InternalArray_new = Inr a \<and> ia_size a = length (write_each ws []) \<and>
     (\<forall>i. ia_find i a = Inr (if i < length (write_each ws []) then Some (write_each ws [] ! i) else None))"
proof -
  have new: "ia_good (InternalArray_new :: 'd InternalArray)" "ia_list (InternalArray_new :: 'd InternalArray) = []"
    by (simp_all add: ia_good_def ia_wf_def paged_def InternalArray_new_def ia_list_def)
  then obtain a :: "'d InternalArray" where a: "put_each ia_put ws InternalArray_new = Inr a" "ia_good a"
      "ia_list a = write_each ws []"
    using pages.put_each_writes [of InternalArray_new ws] assms by auto
  then show ?thesis
    using ia_find_nth [of a] length_ia_list [of a] by (simp add: ia_good_def)
qed

theorem array_is_a_list_witness:
  "\<exists>a. put_each ia_put [(0, intValue 4), (1, intValue 5), (0, booleanValue True)] InternalArray_new = Inr a \<and>
     ia_find 0 a = Inr (Some (booleanValue True)) \<and> ia_find 1 a = Inr (Some (intValue 5 :: int JsonValue)) \<and> ia_find 2 a = Inr None"
proof -
  let ?ws = "[(0, intValue 4), (1, intValue 5), (0, booleanValue True)] :: (nat \<times> int JsonValue) list"
  have "in_order ?ws 0" "length ?ws \<le> 2 ^ 28" "write_each ?ws [] = [booleanValue True, intValue 5]" by simp_all
  with array_is_a_list [of ?ws] obtain a where "put_each ia_put ?ws InternalArray_new = Inr a"
    "\<forall>i. ia_find i a = Inr (if i < length [booleanValue True, intValue 5 :: int JsonValue] then Some ([booleanValue True, intValue 5] ! i) else None)"
    by metis
  then show ?thesis by (intro exI [of _ a]) simp
qed

text \<open>An assignment replaces an element, or appends it after as many null values as it takes; but when the
  index is more than a page beyond the end it can be that too few pages are added, because the
  number of pages needed is rounded down, and then a page pointer is written past the end of
  \<open>pages_\<close>.\<close>

theorem array_put_exact:
  assumes "ia_wf a" "i < 2 ^ 31" "new_count i (ia_pageCount a) < 2 ^ 28"
  shows "if i < ia_size a \<or> i div 8 < new_count i (ia_pageCount a)
     then \<exists>a'. ia_put i v a = Inr a' \<and> ia_wf a' \<and>
       ia_list a' = (if i < ia_size a then (ia_list a)[i := v] else ia_list a @ replicate (i - ia_size a) nullValue @ [v])
     else ia_put i v a = Inl (JsonFault OutOfBounds)"
proof (cases "i < ia_size a")
  case True
  then show ?thesis using ia_put_there [OF assms(1) True, of v] by auto
next
  case False
  then show ?thesis
    using ia_put_beyond [OF assms(1) _ assms(2,3), of v] makeIndexValid_fault [OF assms(1) _ assms(2)]
    by (auto simp: ia_put_def ia_resolveReference_def not_less)
qed

theorem array_put_exact_witness:
  "ia_put 8 (intValue 1 :: int JsonValue) InternalArray_new = Inl (JsonFault OutOfBounds)"
proof -
  have "ia_wf (InternalArray_new :: int InternalArray)"
    by (simp add: ia_wf_def paged_def InternalArray_new_def)
  from array_put_exact [OF this, of 8 "intValue 1"] show ?thesis
    by (simp add: InternalArray_new_def new_count_def)
qed

section \<open>Shrinking, destroying and copying\<close>

lemma slots_destroyed:
  assumes "ia_wf a" "i \<le> ia_size a"
  shows "\<exists>a'. slot_loop (ia_size a - i) destroy_slot (ia_makeIterator i) (ia_makeIterator (ia_size a)) a = Inr a' \<and>
     filled i (ia_size a) None a a'"
proof -
  have "destroy_slot a (int (j div 8)) (j mod 8) = Inr (write_slot j None a)"
    if "paged n a" "j < n" "slot a j \<noteq> None" for n j and a :: "'a InternalArray"
    using that by (auto simp: destroy_slot_def ia_get_slot ia_set_slot)
  then show ?thesis
    using assms by (intro slot_loop_fills [where ok = "\<lambda>v. v \<noteq> None"]) (auto simp: ia_wf_def)
qed

lemma release_pages_spec:
  assumes "q + n \<le> length (ia_pages a)" "\<forall>p. q \<le> p \<and> p < q + n \<longrightarrow> ia_pages a ! p \<noteq> None"
  shows "\<exists>a'. release_pages n q a = Inr a' \<and> ia_size a' = ia_size a \<and> ia_pageCount a' = ia_pageCount a \<and>
     length (ia_pages a') = length (ia_pages a) \<and>
     (\<forall>p. ia_pages a' ! p = (if q \<le> p \<and> p < q + n then None else ia_pages a ! p))"
  using assms
proof (induction n arbitrary: q a)
  case (Suc n)
  let ?a = "a\<lparr>ia_pages := (ia_pages a)[q := None]\<rparr>"
  have "\<forall>p. Suc q \<le> p \<and> p < Suc q + n \<longrightarrow> ia_pages ?a ! p \<noteq> None" using Suc.prems by auto
  then obtain a' where a': "release_pages n (Suc q) ?a = Inr a'" "ia_size a' = ia_size a" "ia_pageCount a' = ia_pageCount a"
      "length (ia_pages a') = length (ia_pages a)"
      "\<And>p. ia_pages a' ! p = (if Suc q \<le> p \<and> p < Suc q + n then None else ia_pages ?a ! p)"
    using Suc.IH [of "Suc q" ?a] Suc.prems by auto
  have "ia_pages a' ! p = (if q \<le> p \<and> p < q + Suc n then None else ia_pages a ! p)" for p
    using a'(5) [of p] Suc.prems by (cases "p = q") auto
  moreover have "\<exists>pg. ia_page a (int q) = Inr pg"
    using Suc.prems(1) spec [OF Suc.prems(2), of q] by (auto simp: ia_page_def)
  ultimately show ?case using a' by auto
qed auto

lemma filled_pages:
  assumes "filled i n v a a'" "ia_wf a" "n = ia_size a" "p < n div 8"
  shows "p < length (ia_pages a') \<and> ia_pages a' ! p \<noteq> None"
proof -
  have "8 * p < n" using assms(4) by (simp add: less_eq_Suc_le less_eq_div_iff_mult_less_eq)
  moreover have "paged n a'" using assms(1) by (simp add: filled_def)
  ultimately obtain pg where "p < length (ia_pages a')" "ia_pages a' ! p = Some pg" using paged_at [of n a' "8 * p"] by auto
  then show ?thesis by simp
qed

lemma ia_shrink:
  assumes "ia_wf a" "0 < n" "n < ia_size a" "n < 2 ^ 31"
  shows "\<exists>a'. ia_resize n a = Inr a' \<and> ia_wf a' \<and> ia_list a' = take n (ia_list a)"
proof -
  let ?s = "(n + 7) div 8" and ?k = "ia_size a div 8 - (n + 7) div 8"
  obtain a1 where a1: "slot_loop (ia_size a - n) destroy_slot (ia_makeIterator n) (ia_makeIterator (ia_size a)) a = Inr a1"
      "filled n (ia_size a) None a a1"
    using slots_destroyed [OF assms(1), of n] assms(3) by auto
  have wf: "paged (ia_size a) a1" "ia_size a1 = ia_size a" "ia_pageCount a1 = ia_pageCount a"
      "\<And>j. j < n \<Longrightarrow> slot a1 j = slot a j"
    using a1(2) assms(3) by (auto simp: filled_def)
  have "?s + ?k \<le> length (ia_pages a1)"
  proof -
    have "?s \<le> (ia_size a + 7) div 8" "ia_size a div 8 \<le> (ia_size a + 7) div 8"
      using assms(3) by (simp_all add: div_le_mono)
    then show ?thesis using paged_count [OF wf(1)] by simp
  qed
  moreover have "\<forall>p. ?s \<le> p \<and> p < ?s + ?k \<longrightarrow> ia_pages a1 ! p \<noteq> None"
    using filled_pages [OF a1(2) assms(1) refl] by auto
  ultimately obtain a2 where a2: "release_pages ?k ?s a1 = Inr a2" "ia_size a2 = ia_size a" "ia_pageCount a2 = ia_pageCount a"
      "length (ia_pages a2) = length (ia_pages a1)"
      "\<And>p. ia_pages a2 ! p = (if ?s \<le> p \<and> p < ?s + ?k then None else ia_pages a1 ! p)"
    using release_pages_spec [of ?s ?k a1] wf(2,3) by auto
  have same: "ia_pages a2 ! (j div 8) = ia_pages a1 ! (j div 8)" if "j < n" for j
    using a2(5) [of "j div 8"] page_index_below [OF that] by simp
  let ?a = "a2\<lparr>ia_size := n\<rparr>"
  have "length pg = 8" if "Some pg \<in> set (ia_pages a2)" for pg
    using that wf(1) a2(4,5) unfolding in_set_conv_nth paged_def by (metis nth_mem option.distinct(1))
  moreover have "j div 8 < ia_pageCount a \<and> ia_pages a2 ! (j div 8) \<noteq> None" if "j < n" for j
    using same [OF that] wf(1,3) that assms(3) by (auto simp: paged_def)
  ultimately have "paged n ?a" using wf(1,3) a2(3,4) by (auto simp: paged_def)
  moreover have slots: "slot ?a j = slot a j" if "j < n" for j
    using same [OF that] wf(4) [OF that] by (simp add: slot_def)
  ultimately have "ia_wf ?a" using assms(1,3) a2(3) by (auto simp: ia_wf_def)
  moreover have "ia_list ?a = take n (ia_list a)"
    using assms(3) slots by (intro nth_equalityI) (auto simp: ia_list_def)
  moreover have "ia_resize n a = Inr ?a"
    using assms(2-4) a1(1) a2(1) by (simp add: ia_resize_def itemsPerPage_def Let_def add.commute)
  ultimately show ?thesis by blast
qed

lemma array_destroy_spec:
  assumes "ia_wf a"
  shows "\<exists>rest. ia_destroy a = Inr rest \<and> (\<forall>j<ia_size a. j div 8 < ia_size a div 8 \<or> slot rest j = None) \<and>
     (\<forall>p<ia_pageCount a. ia_pages rest ! p = None \<longleftrightarrow> p < ia_size a div 8 \<or> ia_pages a ! p = None) \<and>
     (ia_size a mod 8 \<noteq> 0 \<longrightarrow> ia_pages rest ! (ia_size a div 8) \<noteq> None)"
proof -
  let ?n = "ia_size a"
  obtain a1 where a1: "slot_loop ?n destroy_slot (ia_makeIterator 0) (ia_makeIterator ?n) a = Inr a1" "filled 0 ?n None a a1"
    using slots_destroyed [OF assms, of 0] by auto
  have "length (ia_pages a1) = ia_pageCount a" using a1(2) by (simp add: filled_def paged_def)
  moreover have "0 + ?n div 8 \<le> length (ia_pages a1)"
    using filled_pages [OF a1(2) assms refl, of "?n div 8 - 1"] by (cases "?n div 8") auto
  ultimately obtain rest where rest: "release_pages (?n div 8) 0 a1 = Inr rest"
      "\<And>p. ia_pages rest ! p = (if p < ?n div 8 then None else ia_pages a1 ! p)"
    using release_pages_spec [of 0 "?n div 8" a1] filled_pages [OF a1(2) assms refl] by auto
  have pages: "ia_pages rest ! p = None \<longleftrightarrow> p < ?n div 8 \<or> ia_pages a ! p = None" for p
    using rest(2) [of p] a1(2) by (auto simp: filled_def)
  have leak: "ia_pages rest ! (?n div 8) \<noteq> None" if "?n mod 8 \<noteq> 0"
  proof -
    have "8 * (?n div 8) < ?n" using that by (metis mod_eq_0_iff_dvd dvd_triv_left times_div_less_eq_dividend nat_less_le)
    then have "ia_pages a ! (?n div 8) \<noteq> None" using assms paged_at [of ?n a "8 * (?n div 8)"] by (auto simp: ia_wf_def)
    then show ?thesis using pages by simp
  qed
  have slots: "j div 8 < ?n div 8 \<or> slot rest j = None" if "j < ?n" for j
    using rest(2) [of "j div 8"] a1(2) that by (auto simp: filled_def slot_def)
  have run: "ia_destroy a = Inr rest"
    using a1(1) rest(1) by (simp add: ia_destroy_def ia_makeEndIterator_def itemsPerPage_def)
  show ?thesis by (intro exI [of _ rest] conjI allI impI run slots pages leak)
qed

text \<open>The destructor destroys every element and releases the full pages; a last page that is not full stays
  allocated when nothing points to it any more.\<close>

theorem array_destroy_leaks:
  assumes "ia_wf a"
  shows "\<exists>rest. ia_destroy a = Inr rest \<and> (\<forall>j<ia_size a. j div 8 < ia_size a div 8 \<or> slot rest j = None) \<and>
     (\<forall>p<ia_pageCount a. ia_pages rest ! p = None \<longleftrightarrow> p < ia_size a div 8 \<or> ia_pages a ! p = None) \<and>
     (ia_size a mod 8 \<noteq> 0 \<longrightarrow> ia_pages rest ! (ia_size a div 8) \<noteq> None)"
  by (rule array_destroy_spec [OF assms])

theorem array_destroy_leaks_witness:
  "\<exists>a rest. ia_put 0 (intValue 4 :: int JsonValue) InternalArray_new = Inr a \<and> ia_destroy a = Inr rest \<and> ia_pages rest ! 0 \<noteq> None"
proof -
  have new: "ia_wf (InternalArray_new :: int InternalArray)" "ia_size (InternalArray_new :: int InternalArray) = 0"
    by (simp_all add: ia_wf_def paged_def InternalArray_new_def)
  obtain a where a: "ia_put 0 (intValue 4 :: int JsonValue) InternalArray_new = Inr a" "ia_wf a" "ia_list a = [intValue 4]"
    using ia_put_beyond [OF new(1), of 0 "intValue 4"] new(2)
    by (auto simp: new_count_def InternalArray_new_def ia_list_def)
  then have "ia_size a = 1" using length_ia_list [of a] by simp
  then show ?thesis using array_destroy_leaks [OF a(2)] a(1) by auto
qed

text \<open>Resizing to a smaller number keeps that many elements; resizing to a larger one ends with one element
  more than was asked for, because the size is passed on as the index to make valid.\<close>

theorem array_resize_exact:
  assumes "ia_wf a" "n < 2 ^ 31" "new_count n (ia_pageCount a) < 2 ^ 28" "n div 8 < new_count n (ia_pageCount a)"
  shows "\<exists>a'. ia_resize n a = Inr a' \<and> ia_wf a' \<and>
     ia_list a' = (if n \<le> ia_size a then take n (ia_list a) else ia_list a @ replicate (n + 1 - ia_size a) nullValue)"
proof -
  consider "n = 0" | "0 < n" "n < ia_size a" | "n = ia_size a" "0 < n" | "ia_size a < n" by linarith
  then show ?thesis
  proof cases
    case 1
    obtain rest where "ia_destroy a = Inr rest" using array_destroy_spec [OF assms(1)] by blast
    then have "ia_resize 0 a = Inr InternalArray_new"
      by (cases a) (simp add: ia_resize_def ia_clear_def ia_swap_def InternalArray_new_def)
    then show ?thesis using 1 by (simp add: ia_wf_def paged_def InternalArray_new_def ia_list_def)
  next
    case 2
    then show ?thesis using ia_shrink [OF assms(1)] assms(2) by auto
  next
    case 3
    then show ?thesis using assms(1) by (simp add: ia_resize_def)
  next
    case 4
    then obtain a1 where a1: "makeIndexValid n a = Inr a1" "paged (Suc n) a1" "ia_size a1 = Suc n"
        "ia_pageCount a1 = new_count n (ia_pageCount a)"
        "\<And>j. j \<le> n \<Longrightarrow> slot a1 j = (if j < ia_size a then slot a j else Some nullValue)"
      using makeIndexValid_ok [OF assms(1) _ assms(2,4)] by auto
    have "ia_list a1 = ia_list a @ replicate (Suc n - ia_size a) nullValue"
      using a1(3,5) 4 by (intro nth_equalityI) (auto simp: ia_list_def nth_append less_Suc_eq_le)
    moreover have "ia_wf a1" using a1(2-5) assms(1,3) by (auto simp: ia_wf_def less_Suc_eq_le)
    ultimately show ?thesis
      using 4 a1(1) by (simp add: ia_resize_def ia_resolveReference_def)
  qed
qed

theorem array_resize_exact_witness:
  "\<exists>a. ia_resize 2 (InternalArray_new :: int InternalArray) = Inr a \<and> ia_list a = [nullValue, nullValue, nullValue]"
proof -
  have "ia_wf (InternalArray_new :: int InternalArray)"
    by (simp add: ia_wf_def paged_def InternalArray_new_def)
  from array_resize_exact [OF this, of 2] obtain a where
    "ia_resize 2 (InternalArray_new :: int InternalArray) = Inr a" "ia_list a = replicate 3 nullValue"
    by (auto simp: InternalArray_new_def new_count_def ia_list_def)
  then show ?thesis by (simp add: numeral_3_eq_3)
qed

lemma json_bind_assoc: "json_bind (json_bind m f) g = json_bind m (\<lambda>x. json_bind (f x) g)"
  by (cases m) auto

text \<open>What the copy constructor has made after \<open>i\<close> rounds: in every page begun, the last element so far in the
  first slot.\<close>

definition copied :: "'d InternalArray \<Rightarrow> nat \<Rightarrow> nat \<Rightarrow> 'd InternalArray" where
  "copied other c i =
     \<lparr>ia_pages = map (\<lambda>p. if 8 * p < i then Some (Some (json_copy (ia_list other ! min (8 * p + 7) (i - 1))) # replicate 7 None)
        else None) [0..<c], ia_size = ia_size other, ia_pageCount = c\<rparr>"

lemma copied_fields [simp]: "ia_size (copied other c i) = ia_size other" "length (ia_pages (copied other c i)) = c"
  by (simp_all add: copied_def)

lemma copied_page: "p < c \<Longrightarrow> ia_pages (copied other c i) ! p =
   (if 8 * p < i then Some (Some (json_copy (ia_list other ! min (8 * p + 7) (i - 1))) # replicate 7 None) else None)"
  by (simp add: copied_def)

lemma new_page: "allocate_pages 1 q a = (if q < length (ia_pages a)
     then Inr (a\<lparr>ia_pages := (ia_pages a)[q := Some (replicate 8 None)]\<rparr>) else Inl (JsonFault OutOfBounds))"
  "(replicate 8 None)[0 := v] = v # replicate 7 None"
  by (simp_all add: itemsPerPage_def numeral_eq_Suc)

text \<open>One round: a page is begun at its first element, and the element goes to its first slot.\<close>

lemma copy_round:
  assumes "i div 8 < c"
  shows "json_bind (if i mod 8 = 0 then allocate_pages 1 (i div 8) (copied other c i) else Inr (copied other c i))
       (\<lambda>a1. ia_set a1 (int (i div 8)) 0 (Some (json_copy (ia_list other ! i)))) = Inr (copied other c (Suc i))"
proof -
  define q where "q = i div 8"
  have i: "i = 8 * q + i mod 8" "i mod 8 < 8" by (simp_all add: q_def)
  have same: "ia_pages (copied other c (Suc i)) ! p = ia_pages (copied other c i) ! p" if "p \<noteq> q" "p < c" for p
  proof (cases "p < q")
    case True
    then have "min (8 * p + 7) i = 8 * p + 7" "min (8 * p + 7) (i - 1) = 8 * p + 7" "8 * p < i" using i by simp_all
    then show ?thesis using that by (simp add: copied_page)
  next
    case False
    then have "\<not> 8 * p < Suc i" using that(1) i by simp
    then show ?thesis using that by (simp add: copied_page)
  qed
  have here: "ia_pages (copied other c (Suc i)) ! q = Some (Some (json_copy (ia_list other ! i)) # replicate 7 None)"
  proof -
    have "min (8 * q + 7) i = i" "8 * q < Suc i" using i by linarith+
    then show ?thesis using assms by (simp add: copied_page q_def [symmetric])
  qed
  have upd: "(copied other c i)\<lparr>ia_pages := (ia_pages (copied other c i))[q := Some (Some (json_copy (ia_list other ! i)) # replicate 7 None)]\<rparr> =
      copied other c (Suc i)"
  proof -
    have "(ia_pages (copied other c i))[q := Some (Some (json_copy (ia_list other ! i)) # replicate 7 None)] = ia_pages (copied other c (Suc i))"
      using same here assms q_def by (intro nth_equalityI) (auto simp: nth_list_update)
    then show ?thesis by (simp add: copied_def)
  qed
  show ?thesis
  proof (cases "i mod 8 = 0")
    case True
    then show ?thesis
      using upd assms by (simp add: q_def [symmetric] ia_set_def ia_page_def new_page del: One_nat_def)
  next
    case False
    then have "8 * q < i" using i by linarith
    then have "ia_pages (copied other c i) ! q = Some (Some (json_copy (ia_list other ! min (8 * q + 7) (i - 1))) # replicate 7 None)"
      using assms by (simp add: copied_page q_def)
    then show ?thesis
      using False upd assms by (simp add: q_def [symmetric] ia_set_def ia_page_def)
  qed
qed

lemma copy_loop_copies:
  fixes other :: "'d InternalArray"
  assumes "ia_wf other" "i \<le> ia_size other" "i mod 8 \<noteq> 0 \<longrightarrow> value = int (i div 8)" "i \<le> 8 * c"
  shows "copy_loop (ia_size other - i) i other (ia_makeIterator i) value (copied other c i) =
     (if ia_size other \<le> 8 * c then Inr (copied other c (ia_size other)) else Inl (JsonFault OutOfBounds))"
  using assms(2-4)
proof (induction "ia_size other - i" arbitrary: i "value")
  case 0
  then show ?case by (subst copy_loop.simps) simp
next
  case (Suc m)
  let ?n = "ia_size other"
  have i: "i < ?n" "m = ?n - Suc i" using Suc.hyps(2) by linarith+
  have fuel: "?n - i = Suc m" using Suc.hyps(2) by simp
  have ne: "i \<noteq> ?n" using i(1) by simp
  have elem: "ia_get other (int (i div 8)) (i mod 8) = Inr (ia_list other ! i)"
    using ia_get_slot [of ?n other i] ia_wf_slot [OF assms(1) i(1)] assms(1) i(1) by (simp add: ia_wf_def)
  have val: "(if i mod 8 = 0 then int (i div 8) else value) = int (i div 8)" using Suc.prems(2) by simp
  let ?first = "if i mod 8 = 0 then allocate_pages 1 (i div 8) (copied other c i) else Inr (copied other c i)"
  have step: "copy_loop (?n - i) i other (ia_makeIterator i) value (copied other c i) =
      json_bind (json_bind ?first (\<lambda>a1. ia_set a1 (int (i div 8)) 0 (Some (json_copy (ia_list other ! i)))))
        (copy_loop m (i + 1) other (ia_makeIterator (Suc i)) (int (i div 8)))"
    unfolding fuel using i(1) elem
    by (subst copy_loop.simps)
       (simp only: copied_fields itemsPerPage_def val dereference_at increment_at [OF ne] Let_def nat.case if_False not_True_eq_False
          json_bind.simps prod.case json_bind_assoc)
  show ?case
  proof (cases "i < 8 * c")
    case True
    then have "i div 8 < c" by (simp add: div_less_iff_less_mult mult.commute)
    note round = copy_round [OF this, of other]
    have "copy_loop (?n - i) i other (ia_makeIterator i) value (copied other c i) =
        copy_loop (?n - Suc i) (Suc i) other (ia_makeIterator (Suc i)) (int (i div 8)) (copied other c (Suc i))"
      unfolding step round i(2) by simp
    moreover have "Suc i mod 8 \<noteq> 0 \<longrightarrow> int (i div 8) = int (Suc i div 8)" by (simp add: div_Suc)
    ultimately show ?thesis using Suc.hyps(1) [OF i(2), of "int (i div 8)"] i(1) True by simp
  next
    case False
    then have "i = 8 * c" using Suc.prems(3) by simp
    then show ?thesis unfolding step using i(1) by simp
  qed
qed

text \<open>The copy of an array is not the array: all elements of a page are constructed one over the other in its first
  slot, and the other slots stay raw memory, so that only the last element of each page survives, and as
  its first; and when the array has more than one page and the last is not full, a page pointer is written
  past the end of \<open>pages_\<close>.\<close>

theorem array_copy_broken:
  assumes "ia_wf other"
  shows "if ia_size other < 8 \<or> ia_size other mod 8 = 0
     then \<exists>a. ia_copy other = Inr a \<and> ia_size a = ia_size other \<and>
       (\<forall>j<ia_size other. slot a j =
          (if j mod 8 = 0 then Some (json_copy (ia_list other ! min (j + 7) (ia_size other - 1))) else None))
     else ia_copy other = Inl (JsonFault OutOfBounds)"
proof -
  let ?n = "ia_size other" and ?c = "max 1 (ia_size other div 8)"
  have "?n < 2 ^ 31"
  proof -
    have "\<forall>j<?n. j div 8 < ia_pageCount other" "ia_pageCount other < 2 ^ 28" using assms by (auto simp: ia_wf_def paged_def)
    then show ?thesis by (cases "?n < 2 ^ 31") (auto dest!: spec [of _ "2 ^ 31 - 1"])
  qed
  then have "reallocateArrayPageIndex (?n div 8) \<lparr>ia_pages = [], ia_size = ?n, ia_pageCount = 0\<rparr> = copied other ?c 0"
    by (auto simp: reallocateArrayPageIndex_def copied_def max_def map_replicate_const Let_def)
  then have "ia_copy other = (if ?n \<le> 8 * ?c then Inr (copied other ?c ?n) else Inl (JsonFault OutOfBounds))"
    using copy_loop_copies [OF assms, of 0 0 ?c] by (simp add: ia_copy_def itemsPerPage_def Let_def)
  moreover have "?n \<le> 8 * ?c \<longleftrightarrow> ?n < 8 \<or> ?n mod 8 = 0"
    by (cases "?n < 8") (auto simp: max_def minus_mult_div_eq_mod [symmetric])
  moreover have "slot (copied other ?c ?n) j =
      (if j mod 8 = 0 then Some (json_copy (ia_list other ! min (j + 7) (?n - 1))) else None)"
    if "j < ?n" "?n \<le> 8 * ?c" for j
  proof -
    have "j div 8 < ?c" "8 * (j div 8) < ?n" using that by (auto simp: div_less_iff_less_mult mult.commute intro: le_less_trans)
    then show ?thesis
      by (cases "j mod 8") (auto simp: slot_def copied_page)
  qed
  ultimately show ?thesis by auto
qed

theorem array_copy_broken_witness:
  "\<exists>a b. put_each ia_put [(0, intValue 4 :: int JsonValue), (1, intValue 5)] InternalArray_new = Inr a \<and> ia_copy a = Inr b \<and>
     slot b 0 = Some (intValue 5) \<and> slot b 1 = None"
proof -
  have new: "ia_good (InternalArray_new :: int InternalArray)" "ia_list (InternalArray_new :: int InternalArray) = []"
    by (simp_all add: ia_good_def ia_wf_def paged_def InternalArray_new_def ia_list_def)
  obtain a where a: "put_each ia_put [(0, intValue 4 :: int JsonValue), (1, intValue 5)] InternalArray_new = Inr a" "ia_wf a"
      "ia_list a = [intValue 4, intValue 5]"
    using pages.put_each_writes [OF new(1), of "[(0, intValue 4), (1, intValue 5)]"] new(2) by (auto simp: ia_good_def)
  then have "ia_size a = 2" using length_ia_list [of a] by simp
  then show ?thesis using array_copy_broken [OF a(2)] a(1,3) by auto
qed

end
