(* ===== verification/Json_Map.thy ===== *)
theory Json_Map
  imports Json_Array
begin

text \<open>
  The hash map the JSON library uses for objects when \<open>JSON_VALUE_USE_INTERNAL_MAP\<close> is defined (the program does
  not): \<open>src/Tool/lib_json/json_internalmap.inl\<close>. A bucket is a chain of links of six items each. The links are
  addressed: the bucket links by their place in \<open>buckets_\<close>, the others, allocated one by one, by number. Memory
  is taken to be fresh when allocated; a member name is a text of its own, which the link owns.
\<close>

section \<open>The code\<close>

definition itemPerLink :: nat where
  "itemPerLink = 6"

datatype link_addr = BucketLink nat | PageLink nat

record 'd MapItem =
  mi_value :: "'d JsonValue"
  mi_used :: bool
  mi_static :: bool

record 'd ValueInternalLink =
  lk_items :: "'d MapItem list"
  lk_keys :: "string option list"
  lk_previous :: "link_addr option"
  lk_next :: "link_addr option"

record 'd InternalMap =
  im_links :: "link_addr \<Rightarrow> 'd ValueInternalLink option"
  im_fresh :: nat
  im_buckets :: bool
  im_tail :: "link_addr option"
  im_bucketsSize :: nat
  im_itemCount :: nat

definition MapItem_new :: "'d MapItem" where
  "MapItem_new = \<lparr>mi_value = nullValue, mi_used = False, mi_static = False\<rparr>"

definition ValueInternalLink_new :: "'d ValueInternalLink" where
  "ValueInternalLink_new =
     \<lparr>lk_items = replicate itemPerLink MapItem_new, lk_keys = replicate itemPerLink None, lk_previous = None, lk_next = None\<rparr>"

definition InternalMap_new :: "'d InternalMap" where
  "InternalMap_new =
     \<lparr>im_links = (\<lambda>a. None), im_fresh = 0, im_buckets = False, im_tail = None, im_bucketsSize = 0, im_itemCount = 0\<rparr>"

definition isItemAvailable :: "'d MapItem \<Rightarrow> bool" where
  "isItemAvailable x \<longleftrightarrow> \<not> mi_used x"

definition setItemUsed :: "bool \<Rightarrow> 'd MapItem \<Rightarrow> 'd MapItem" where
  "setItemUsed isUsed x = x\<lparr>mi_used := isUsed\<rparr>"

definition isMemberNameStatic :: "'d MapItem \<Rightarrow> bool" where
  "isMemberNameStatic x \<longleftrightarrow> \<not> mi_static x"

definition setMemberNameIsStatic :: "bool \<Rightarrow> 'd MapItem \<Rightarrow> 'd MapItem" where
  "setMemberNameIsStatic isStatic x = x\<lparr>mi_static := isStatic\<rparr>"

text \<open>Following a pointer to a link.\<close>

definition im_link :: "'d InternalMap \<Rightarrow> link_addr option \<Rightarrow> 'd ValueInternalLink json" where
  "im_link m p =
     (case p of
        None \<Rightarrow> Inl (JsonFault NullDeref)
      | Some a \<Rightarrow>
          (case im_links m a of
             Some lk \<Rightarrow> Inr lk
           | None \<Rightarrow> Inl (JsonFault (case a of BucketLink i \<Rightarrow> OutOfBounds | PageLink n \<Rightarrow> UseAfterFree))))"

definition set_link :: "link_addr \<Rightarrow> 'd ValueInternalLink \<Rightarrow> 'd InternalMap \<Rightarrow> 'd InternalMap" where
  "set_link a lk m = m\<lparr>im_links := (im_links m)(a \<mapsto> lk)\<rparr>"

definition im_item :: "'d InternalMap \<Rightarrow> link_addr \<Rightarrow> nat \<Rightarrow> 'd MapItem json" where
  "im_item m a i =
     json_bind (im_link m (Some a)) (\<lambda>lk. if i < length (lk_items lk) then Inr (lk_items lk ! i) else Inl (JsonFault OutOfBounds))"

definition set_item :: "link_addr \<Rightarrow> nat \<Rightarrow> 'd MapItem \<Rightarrow> 'd InternalMap \<Rightarrow> 'd InternalMap json" where
  "set_item a i x m =
     json_bind (im_link m (Some a)) (\<lambda>lk. Inr (set_link a (lk\<lparr>lk_items := (lk_items lk)[i := x]\<rparr>) m))"

text \<open>A \<open>char\<close> is signed.\<close>

definition char_value :: "char \<Rightarrow> int" where
  "char_value c = (let n = int (of_char c) in if n < 128 then n else n - 256)"

definition im_hash :: "string \<Rightarrow> nat" where
  "im_hash key = nat (foldl (\<lambda>hash c. (hash + char_value c * 37) mod 2 ^ 32) 0 (c_str key))"

subsection \<open>Looking for a name\<close>

text \<open>The loop over the items of a link, which ends at the first that is available or has the name.\<close>

datatype scan = Available nat | Found nat | Full

function scan_link :: "string \<Rightarrow> 'd ValueInternalLink \<Rightarrow> nat \<Rightarrow> scan json" where
  "scan_link key lk index =
     (if index < itemPerLink
      then if isItemAvailable (lk_items lk ! index) then Inr (Available index)
           else (case lk_keys lk ! index of
                   None \<Rightarrow> Inl (JsonFault NullDeref)
                 | Some k \<Rightarrow> if c_str key = c_str k then Inr (Found index) else scan_link key lk (Suc index))
      else Inr Full)"
  by pat_completeness auto

termination scan_link
  by (relation "measure (\<lambda>(key, lk, index). itemPerLink - index)") auto

declare scan_link.simps [simp del]

text \<open>The loop over the links of a bucket, the same in \<open>find\<close>, \<open>resolveReference\<close> and \<open>remove\<close>.\<close>

datatype seek = FreeItem link_addr nat | ItemOf link_addr nat | EndOfBucket

fun seek_loop :: "nat \<Rightarrow> string \<Rightarrow> link_addr option \<Rightarrow> 'd InternalMap \<Rightarrow> seek json" where
  "seek_loop n key None m = Inr EndOfBucket"
| "seek_loop 0 key (Some a) m = Inl (JsonFault NonTermination)"
| "seek_loop (Suc n) key (Some a) m =
     json_bind (im_link m (Some a)) (\<lambda>lk.
     json_bind (scan_link key lk 0) (\<lambda>r.
     case r of Available i \<Rightarrow> Inr (FreeItem a i) | Found i \<Rightarrow> Inr (ItemOf a i) | Full \<Rightarrow> seek_loop n key (lk_next lk) m))"

definition im_seek :: "string \<Rightarrow> 'd InternalMap \<Rightarrow> seek json" where
  "im_seek key m = seek_loop (im_fresh m + 1) key (Some (BucketLink (im_hash key mod im_bucketsSize m))) m"

definition im_find :: "string \<Rightarrow> 'd InternalMap \<Rightarrow> 'd JsonValue option json" where
  "im_find key m =
     (if im_bucketsSize m = 0 then Inr None
      else json_bind (im_seek key m) (\<lambda>r.
           case r of ItemOf a i \<Rightarrow> json_bind (im_item m a i) (\<lambda>x. Inr (Some (mi_value x))) | _ \<Rightarrow> Inr None))"

subsection \<open>Adding\<close>

definition im_reserve :: "nat \<Rightarrow> 'd InternalMap \<Rightarrow> 'd InternalMap" where
  "im_reserve newItemCount m =
     (if \<not> im_buckets m \<and> newItemCount > 0
      then (set_link (BucketLink 0) ValueInternalLink_new m)
             \<lparr>im_buckets := True, im_bucketsSize := 1, im_tail := Some (BucketLink 0)\<rparr>
      else m)"

definition im_reserveDelta :: "nat \<Rightarrow> 'd InternalMap \<Rightarrow> 'd InternalMap" where
  "im_reserveDelta growth m = im_reserve (wrap_uint (im_itemCount m + growth)) m"

text \<open>The variable that holds the last link of a bucket: \<open>tailLink_\<close>, or \<open>previous_\<close> of the next bucket.\<close>

definition getLastLinkInBucket :: "nat \<Rightarrow> 'd InternalMap \<Rightarrow> (link_addr option \<times> 'd InternalMap) json" where
  "getLastLinkInBucket bucketIndex m =
     (if bucketIndex = wrap_uint (im_bucketsSize m + (2 ^ 32 - 1)) then Inr (im_tail m, m)
      else json_bind (im_link m (Some (BucketLink (bucketIndex + 1)))) (\<lambda>lk.
           case lk_previous lk of
             Some a \<Rightarrow> Inr (Some a, m)
           | None \<Rightarrow>
               Inr (Some (BucketLink bucketIndex),
                    set_link (BucketLink (bucketIndex + 1)) (lk\<lparr>lk_previous := Some (BucketLink bucketIndex)\<rparr>) m)))"

definition setLastLinkInBucket :: "nat \<Rightarrow> link_addr \<Rightarrow> 'd InternalMap \<Rightarrow> 'd InternalMap json" where
  "setLastLinkInBucket bucketIndex a m =
     (if bucketIndex = wrap_uint (im_bucketsSize m + (2 ^ 32 - 1)) then Inr (m\<lparr>im_tail := Some a\<rparr>)
      else json_bind (im_link m (Some (BucketLink (bucketIndex + 1)))) (\<lambda>lk.
           Inr (set_link (BucketLink (bucketIndex + 1)) (lk\<lparr>lk_previous := Some a\<rparr>) m)))"

definition setNewItem :: "string \<Rightarrow> bool \<Rightarrow> link_addr \<Rightarrow> nat \<Rightarrow> 'd InternalMap \<Rightarrow> 'd InternalMap json" where
  "setNewItem key isStatic a index m =
     json_bind (im_link m (Some a)) (\<lambda>lk.
     let x = setMemberNameIsStatic isStatic (setItemUsed True (lk_items lk ! index)) in
     Inr ((set_link a (lk\<lparr>lk_items := (lk_items lk)[index := x], lk_keys := (lk_keys lk)[index := Some (c_str key)]\<rparr>) m)
            \<lparr>im_itemCount := wrap_uint (im_itemCount m + 1)\<rparr>))"

text \<open>The first available item of a link from an index on, or the number of items.\<close>

function first_available :: "'d ValueInternalLink \<Rightarrow> nat \<Rightarrow> nat" where
  "first_available lk index =
     (if index < itemPerLink \<and> \<not> isItemAvailable (lk_items lk ! index) then first_available lk (Suc index) else index)"
  by pat_completeness auto

termination first_available
  by (relation "measure (\<lambda>(lk, index). itemPerLink - index)") auto

declare first_available.simps [simp del]

definition unsafeAdd :: "string \<Rightarrow> bool \<Rightarrow> nat \<Rightarrow> 'd InternalMap \<Rightarrow> ((link_addr \<times> nat) \<times> 'd InternalMap) json" where
  "unsafeAdd key isStatic hashedKey m =
     (if \<not> im_bucketsSize m > 0 then Inl JsonRuntimeError
      else let bucketIndex = hashedKey mod im_bucketsSize m in
           json_bind (getLastLinkInBucket bucketIndex m) (\<lambda>(link, m1).
           json_bind (im_link m1 link) (\<lambda>lk.
           let a = the link; index = first_available lk 0 in
           if index = itemPerLink
           then (let newLink = PageLink (im_fresh m1);
                     m2 = (set_link newLink ValueInternalLink_new m1)\<lparr>im_fresh := im_fresh m1 + 1\<rparr> in
                 json_bind (im_link m2 link) (\<lambda>lk2.
                 json_bind (setLastLinkInBucket bucketIndex newLink (set_link a (lk2\<lparr>lk_next := Some newLink\<rparr>) m2)) (\<lambda>m3.
                 json_bind (setNewItem key isStatic newLink 0 m3) (\<lambda>m4. Inr ((newLink, 0), m4)))))
           else json_bind (setNewItem key isStatic a index m1) (\<lambda>m2. Inr ((a, index), m2)))))"

definition im_resolveReference :: "string \<Rightarrow> bool \<Rightarrow> 'd InternalMap \<Rightarrow> ((link_addr \<times> nat) \<times> 'd InternalMap) json" where
  "im_resolveReference key isStatic m =
     json_bind (if im_bucketsSize m = 0 then Inr EndOfBucket else im_seek key m) (\<lambda>r.
     case r of
       FreeItem a i \<Rightarrow> json_bind (setNewItem key isStatic a i m) (\<lambda>m1. Inr ((a, i), m1))
     | ItemOf a i \<Rightarrow> Inr ((a, i), m)
     | EndOfBucket \<Rightarrow> unsafeAdd key isStatic (im_hash key) (im_reserveDelta 1 m))"

text \<open>An assignment to the member of a name.\<close>

definition im_put :: "string \<Rightarrow> bool \<Rightarrow> 'd JsonValue \<Rightarrow> 'd InternalMap \<Rightarrow> 'd InternalMap json" where
  "im_put key isStatic v m =
     json_bind (im_resolveReference key isStatic m) (\<lambda>((a, i), m1).
     json_bind (im_item m1 a i) (\<lambda>x. set_item a i (x\<lparr>mi_value := v\<rparr>) m1))"

subsection \<open>Removing\<close>

text \<open>The number of items of the last link that are taken to be used; the search starts at the second.\<close>

definition last_item_index :: "'d ValueInternalLink \<Rightarrow> nat" where
  "last_item_index lk = first_available lk 1"

definition doActualRemove :: "link_addr \<Rightarrow> nat \<Rightarrow> nat \<Rightarrow> 'd InternalMap \<Rightarrow> 'd InternalMap json" where
  "doActualRemove link index bucketIndex m =
     json_bind (getLastLinkInBucket index m) (\<lambda>(lastLink, m1).
     json_bind (im_link m1 lastLink) (\<lambda>lk.
     let a = the lastLink; lastUsedIndex = last_item_index lk - 1 in
     json_bind (im_item m1 link index) (\<lambda>valueToDelete.
     json_bind (im_item m1 a lastUsedIndex) (\<lambda>valueToPreserve.
     json_bind (if (link, index) \<noteq> (a, lastUsedIndex)
                then json_bind (set_item link index (valueToDelete\<lparr>mi_value := mi_value valueToPreserve\<rparr>) m1)
                       (set_item a lastUsedIndex (valueToPreserve\<lparr>mi_value := mi_value valueToDelete\<rparr>))
                else Inr m1) (\<lambda>m2.
     json_bind (if lastUsedIndex = 0
                then (case lk_previous lk of
                        None \<Rightarrow> Inr m2
                      | Some previous \<Rightarrow>
                          let m3 = m2\<lparr>im_links := (im_links m2)(a := None)\<rparr> in
                          json_bind (im_link m3 (Some previous)) (\<lambda>lkp.
                          setLastLinkInBucket index previous (set_link previous (lkp\<lparr>lk_next := None\<rparr>) m3)))
                else json_bind (im_item m2 a lastUsedIndex) (\<lambda>x.
                     set_item a lastUsedIndex (setItemUsed False (x\<lparr>mi_value := nullValue\<rparr>)) m2)) (\<lambda>m4.
     Inr (m4\<lparr>im_itemCount := wrap_uint (im_itemCount m4 + (2 ^ 32 - 1))\<rparr>)))))))"

definition im_remove :: "string \<Rightarrow> 'd InternalMap \<Rightarrow> 'd InternalMap json" where
  "im_remove key m =
     (if im_bucketsSize m = 0 then Inr m
      else json_bind (im_seek key m) (\<lambda>r.
           case r of
             ItemOf a i \<Rightarrow> doActualRemove a i (im_hash key mod im_bucketsSize m) m
           | _ \<Rightarrow> Inr m))"

subsection \<open>Iterators\<close>

record MapIterator =
  mp_map :: bool
  mp_link :: "link_addr option"
  mp_item :: nat
  mp_bucket :: nat

definition im_makeBeginIterator :: "'d InternalMap \<Rightarrow> MapIterator" where
  "im_makeBeginIterator m =
     \<lparr>mp_map = True, mp_link = (if im_buckets m then Some (BucketLink 0) else None), mp_item = 0, mp_bucket = 0\<rparr>"

definition im_makeEndIterator :: "'d InternalMap \<Rightarrow> MapIterator" where
  "im_makeEndIterator m = \<lparr>mp_map = True, mp_link = None, mp_item = 0, mp_bucket = im_bucketsSize m\<rparr>"

definition im_equals :: "MapIterator \<Rightarrow> MapIterator \<Rightarrow> bool" where
  "im_equals x other \<longleftrightarrow> mp_map x = mp_map other \<and> mp_bucket x = mp_bucket other \<and> mp_link x = mp_link other \<and> mp_item x = mp_item other"

definition im_incrementBucket :: "'d InternalMap \<Rightarrow> MapIterator \<Rightarrow> MapIterator json" where
  "im_incrementBucket m it =
     (let b = wrap_uint (mp_bucket it + 1) in
      if \<not> b \<le> im_bucketsSize m then Inl JsonRuntimeError
      else Inr (it\<lparr>mp_bucket := b, mp_link := (if b = im_bucketsSize m then None else Some (BucketLink b)), mp_item := 0\<rparr>))"

definition im_increment :: "'d InternalMap \<Rightarrow> MapIterator \<Rightarrow> MapIterator json" where
  "im_increment m it =
     (if \<not> mp_map it then Inl JsonRuntimeError
      else let it1 = it\<lparr>mp_item := wrap_uint (mp_item it + 1)\<rparr> in
           if mp_item it1 = itemPerLink
           then (if mp_link it1 = None then Inl JsonRuntimeError
                 else json_bind (im_link m (mp_link it1)) (\<lambda>lk.
                      let it2 = it1\<lparr>mp_link := lk_next lk\<rparr> in
                      if mp_link it2 = None then im_incrementBucket m it2 else Inr it2))
           else json_bind (im_link m (mp_link it1)) (\<lambda>lk.
                if mp_item it1 < length (lk_items lk)
                then if isItemAvailable (lk_items lk ! mp_item it1) then im_incrementBucket m it1 else Inr it1
                else Inl (JsonFault OutOfBounds)))"

definition im_decrement :: "'d InternalMap \<Rightarrow> MapIterator \<Rightarrow> MapIterator json" where
  "im_decrement m it =
     (if mp_item it = 0
      then if \<not> mp_map it then Inl JsonRuntimeError
           else let first = (mp_link it = Some (BucketLink (mp_bucket it))) in
                if first \<and> \<not> mp_bucket it > 0 then Inl JsonRuntimeError
                else json_bind (im_link m (mp_link it)) (\<lambda>lk.
                     Inr (it\<lparr>mp_bucket := (if first then mp_bucket it - 1 else mp_bucket it), mp_link := lk_previous lk,
                            mp_item := itemPerLink - 1\<rparr>))
      else Inr it)"

definition im_key :: "'d InternalMap \<Rightarrow> MapIterator \<Rightarrow> (string \<times> bool) json" where
  "im_key m it =
     (if mp_link it = None then Inl JsonRuntimeError
      else json_bind (im_link m (mp_link it)) (\<lambda>lk.
           if mp_item it < length (lk_keys lk)
           then (case lk_keys lk ! mp_item it of
                   None \<Rightarrow> Inl (JsonFault NullDeref)
                 | Some k \<Rightarrow> Inr (k, isMemberNameStatic (lk_items lk ! mp_item it)))
           else Inl (JsonFault OutOfBounds)))"

definition im_value :: "'d InternalMap \<Rightarrow> MapIterator \<Rightarrow> 'd JsonValue json" where
  "im_value m it =
     (case mp_link it of None \<Rightarrow> Inl JsonRuntimeError
      | Some a \<Rightarrow> json_bind (im_item m a (mp_item it)) (\<lambda>x. Inr (mi_value x)))"

text \<open>\<open>distance\<close> counts nothing; \<open>n\<close> bounds the steps.\<close>

fun im_distance_loop :: "nat \<Rightarrow> 'd InternalMap \<Rightarrow> MapIterator \<Rightarrow> MapIterator \<Rightarrow> int \<Rightarrow> int json" where
  "im_distance_loop n m it y offset =
     (if im_equals it y then Inr offset
      else case n of 0 \<Rightarrow> Inl (JsonFault NonTermination)
           | Suc k \<Rightarrow> json_bind (im_increment m it) (\<lambda>it1. im_distance_loop k m it1 y offset))"

definition im_distance :: "nat \<Rightarrow> 'd InternalMap \<Rightarrow> MapIterator \<Rightarrow> MapIterator \<Rightarrow> int json" where
  "im_distance n m x y = im_distance_loop n m x y 0"

text \<open>A loop over the entries of a map, which the copy constructor and \<open>compare\<close> run with different bodies; a body
  says whether to return at once.\<close>

fun entry_loop :: "nat \<Rightarrow> (string \<times> bool \<Rightarrow> 'd JsonValue \<Rightarrow> 's \<Rightarrow> (bool \<times> 's) json) \<Rightarrow> 'd InternalMap \<Rightarrow> MapIterator \<Rightarrow>
    MapIterator \<Rightarrow> 's \<Rightarrow> 's json" where
  "entry_loop n body m it itEnd s =
     (if im_equals it itEnd then Inr s
      else case n of 0 \<Rightarrow> Inl (JsonFault NonTermination)
           | Suc k \<Rightarrow>
               json_bind (im_key m it) (\<lambda>ks.
               json_bind (im_value m it) (\<lambda>v.
               json_bind (body ks v s) (\<lambda>(stop, s1).
               if stop then Inr s1
               else json_bind (im_increment m it) (\<lambda>it1. entry_loop k body m it1 itEnd s1)))))"

definition copy_entry :: "string \<times> bool \<Rightarrow> 'd JsonValue \<Rightarrow> 'd InternalMap \<Rightarrow> (bool \<times> 'd InternalMap) json" where
  "copy_entry ks v m = json_bind (im_put (fst ks) (snd ks) (json_copy v) m) (\<lambda>m1. Inr (False, m1))"

definition im_copy :: "nat \<Rightarrow> 'd InternalMap \<Rightarrow> 'd InternalMap json" where
  "im_copy n other =
     entry_loop n copy_entry other (im_makeBeginIterator other) (im_makeEndIterator other)
       (im_reserve (im_itemCount other) InternalMap_new)"

definition compare_keys :: "'d InternalMap \<Rightarrow> string \<times> bool \<Rightarrow> 'd JsonValue \<Rightarrow> int \<Rightarrow> (bool \<times> int) json" where
  "compare_keys other ks v answer =
     json_bind (im_find (fst ks) other) (\<lambda>w. Inr (if w = None then (True, 1) else (False, 0)))"

definition compare_values :: "'d InternalMap \<Rightarrow> string \<times> bool \<Rightarrow> 'd JsonValue \<Rightarrow> int \<Rightarrow> (bool \<times> int) json" where
  "compare_values other ks v answer =
     json_bind (im_find (fst ks) other) (\<lambda>w.
     case w of None \<Rightarrow> Inl (JsonFault NullDeref) | Some w' \<Rightarrow> Inr (Value_compare v w' \<noteq> 0, Value_compare v w'))"

definition im_compare :: "nat \<Rightarrow> 'd InternalMap \<Rightarrow> 'd InternalMap \<Rightarrow> int json" where
  "im_compare n m other =
     (let d = (int (im_itemCount m) - int (im_itemCount other)) mod 2 ^ 32; sizeDiff = (if d < 2 ^ 31 then d else d - 2 ^ 32) in
      if sizeDiff \<noteq> 0 then Inr sizeDiff
      else json_bind (entry_loop n (compare_keys other) m (im_makeBeginIterator m) (im_makeEndIterator m) 0) (\<lambda>answer.
           if answer \<noteq> 0 then Inr answer
           else entry_loop n (compare_values other) m (im_makeBeginIterator m) (im_makeEndIterator m) 0))"

subsection \<open>Ending\<close>

text \<open>The destructor of a link frees the names it takes for its own; these are the names it leaves allocated.\<close>

function leaked_names :: "'d ValueInternalLink \<Rightarrow> nat \<Rightarrow> string list" where
  "leaked_names lk index =
     (if index < itemPerLink \<and> \<not> isItemAvailable (lk_items lk ! index)
      then (if \<not> isMemberNameStatic (lk_items lk ! index) then [] else case lk_keys lk ! index of None \<Rightarrow> [] | Some k \<Rightarrow> [k]) @
           leaked_names lk (Suc index)
      else [])"
  by pat_completeness auto

termination leaked_names
  by (relation "measure (\<lambda>(lk, index). itemPerLink - index)") auto

declare leaked_names.simps [simp del]

fun release_chain :: "nat \<Rightarrow> link_addr option \<Rightarrow> 'd InternalMap \<Rightarrow> string list json" where
  "release_chain n None m = Inr []"
| "release_chain 0 (Some a) m = Inl (JsonFault NonTermination)"
| "release_chain (Suc n) (Some a) m =
     json_bind (im_link m (Some a)) (\<lambda>lk.
     json_bind (release_chain n (lk_next lk) (m\<lparr>im_links := (im_links m)(a := None)\<rparr>)) (\<lambda>rest. Inr (leaked_names lk 0 @ rest)))"

fun destroy_buckets :: "nat \<Rightarrow> 'd InternalMap \<Rightarrow> string list json" where
  "destroy_buckets 0 m = Inr []"
| "destroy_buckets (Suc b) m =
     json_bind (im_link m (Some (BucketLink b))) (\<lambda>lk.
     json_bind (release_chain (im_fresh m) (lk_next lk) m) (\<lambda>names.
     json_bind (destroy_buckets b m) (\<lambda>rest. Inr (rest @ leaked_names lk 0 @ names))))"

definition im_destroy :: "'d InternalMap \<Rightarrow> string list json" where
  "im_destroy m = (if im_buckets m then destroy_buckets (im_bucketsSize m) m else Inr [])"

definition im_swap :: "'d InternalMap \<Rightarrow> 'd InternalMap \<Rightarrow> 'd InternalMap \<times> 'd InternalMap" where
  "im_swap m other = (other, m)"

definition im_clear :: "'d InternalMap \<Rightarrow> 'd InternalMap json" where
  "im_clear m = (let (m1, dummy) = im_swap m InternalMap_new in json_bind (im_destroy dummy) (\<lambda>names. Inr m1))"

definition im_assign :: "nat \<Rightarrow> 'd InternalMap \<Rightarrow> 'd InternalMap \<Rightarrow> 'd InternalMap json" where
  "im_assign n m other =
     json_bind (im_copy n other) (\<lambda>dummy.
     let (m1, dummy1) = im_swap m dummy in json_bind (im_destroy dummy1) (\<lambda>names. Inr m1))"

end
