(* ===== verification/Json_Map_Properties.thy ===== *)
theory Json_Map_Properties
  imports Json_Map "HOL-Library.AList"
begin

text \<open>
  What the hash map of the JSON library does. It only ever has one bucket, whose chain holds the entries in the
  order they came in (\<open>holds\<close>); as long as nothing is removed it is a map, with the laws a client relies on
  in \<open>growing_map\<close>. Removing a member is another matter.
\<close>

section \<open>The chain of the bucket\<close>

text \<open>The links in their order, and what the \<open>k\<close>-th holds of the entries \<open>es\<close>.\<close>

definition addr :: "nat \<Rightarrow> link_addr" where
  "addr k = (if k = 0 then BucketLink 0 else PageLink (k - 1))"

definition last_link :: "'e list \<Rightarrow> nat" where
  "last_link es = (length es - 1) div 6"

definition item_holds :: "(string \<times> 'd JsonValue) list \<Rightarrow> nat \<Rightarrow> 'd MapItem \<Rightarrow> string option \<Rightarrow> bool" where
  "item_holds es j x key \<longleftrightarrow>
     (if j < length es then mi_used x \<and> key = Some (fst (es ! j)) \<and> mi_value x = snd (es ! j)
      else \<not> mi_used x \<and> mi_value x = nullValue)"

definition link_holds :: "(string \<times> 'd JsonValue) list \<Rightarrow> nat \<Rightarrow> 'd ValueInternalLink \<Rightarrow> bool" where
  "link_holds es k lk \<longleftrightarrow>
     length (lk_items lk) = 6 \<and> length (lk_keys lk) = 6 \<and> lk_previous lk = None \<and>
     lk_next lk = (if k < last_link es then Some (addr (Suc k)) else None) \<and>
     (\<forall>i<6. item_holds es (6 * k + i) (lk_items lk ! i) (lk_keys lk ! i))"

definition holds :: "'d InternalMap \<Rightarrow> (string \<times> 'd JsonValue) list \<Rightarrow> bool" where
  "holds m es \<longleftrightarrow>
     es \<noteq> [] \<and> distinct (map fst es) \<and> (\<forall>e\<in>set es. c_str (fst e) = fst e) \<and>
     im_bucketsSize m = 1 \<and> im_buckets m \<and> (\<forall>n>0. im_links m (BucketLink n) = None) \<and> im_fresh m = last_link es \<and> im_tail m = Some (addr (last_link es)) \<and>
     (\<forall>k\<le>last_link es. \<exists>lk. im_links m (addr k) = Some lk \<and> link_holds es k lk)"

lemma addr_inj [simp]: "addr i = addr j \<longleftrightarrow> i = j"
  by (auto simp: addr_def)

lemma addr_bucket [simp]: "addr k = BucketLink n \<longleftrightarrow> k = 0 \<and> n = 0" "BucketLink n = addr k \<longleftrightarrow> k = 0 \<and> n = 0"
  by (auto simp: addr_def)

lemma im_link_addr: "im_links m a = Some lk \<Longrightarrow> im_link m (Some a) = Inr lk"
  by (simp add: im_link_def)

lemma last_link_below: "es \<noteq> [] \<Longrightarrow> k \<le> last_link es \<Longrightarrow> 6 * k < length es"
  by (cases es) (simp_all add: last_link_def less_eq_div_iff_mult_less_eq)

lemma length_in_links: "length es \<le> 6 * last_link es + 6"
proof -
  have "length es - 1 < 6 * Suc (last_link es)" using dividend_less_times_div [of 6 "length es - 1"] by (simp add: last_link_def)
  then show ?thesis by simp
qed

lemma item_holdsD:
  "item_holds es j x key \<Longrightarrow> j < length es \<Longrightarrow> mi_used x"
  "item_holds es j x key \<Longrightarrow> j < length es \<Longrightarrow> key = Some (fst (es ! j))"
  "item_holds es j x key \<Longrightarrow> j < length es \<Longrightarrow> mi_value x = snd (es ! j)"
  "item_holds es j x key \<Longrightarrow> \<not> j < length es \<Longrightarrow> \<not> mi_used x"
  by (auto simp: item_holds_def)

lemma link_holds_item: "link_holds es k lk \<Longrightarrow> i < 6 \<Longrightarrow> item_holds es (6 * k + i) (lk_items lk ! i) (lk_keys lk ! i)"
  by (simp add: link_holds_def)

lemma scan_link_step:
  assumes "link_holds es k lk" "i < 6" "\<forall>e\<in>set es. c_str (fst e) = fst e"
  shows "scan_link key lk i =
     (if 6 * k + i < length es
      then if c_str key = fst (es ! (6 * k + i)) then Inr (Found i) else scan_link key lk (Suc i)
      else Inr (Available i))"
proof -
  have "item_holds es (6 * k + i) (lk_items lk ! i) (lk_keys lk ! i)" by (rule link_holds_item [OF assms(1,2)])
  moreover have "c_str (fst (es ! (6 * k + i))) = fst (es ! (6 * k + i))" if "6 * k + i < length es"
    using assms(3) that by simp
  ultimately show ?thesis
    using assms(2) by (subst scan_link.simps) (auto simp: item_holds_def itemPerLink_def isItemAvailable_def)
qed

lemma scan_link_end: "scan_link key lk 6 = Inr Full"
  by (subst scan_link.simps) (simp add: itemPerLink_def)

text \<open>What the search of a link comes to, by where the name is.\<close>

lemma scan_found:
  assumes "link_holds es k lk" "\<forall>e\<in>set es. c_str (fst e) = fst e" "distinct (map fst es)"
    and "j < length es" "6 * k + i \<le> j" "j < 6 * k + 6" "fst (es ! j) = c_str key"
  shows "scan_link key lk i = Inr (Found (j - 6 * k))"
  using assms(5)
proof (induction "j - (6 * k + i)" arbitrary: i)
  case 0
  then have "j = 6 * k + i" "i < 6" using assms(6) by simp_all
  then show ?case using scan_link_step [OF assms(1) _ assms(2), of i key] assms(4,7) by simp
next
  case (Suc d)
  then have i: "6 * k + i < j" "i < 6" using assms(6) by simp_all
  then have "map fst es ! (6 * k + i) \<noteq> map fst es ! j"
    using assms(3,4) nth_eq_iff_index_eq [of "map fst es" "6 * k + i" j] by simp
  then have "fst (es ! (6 * k + i)) \<noteq> c_str key" using i assms(4,7) by simp
  then show ?case
    using scan_link_step [OF assms(1) i(2) assms(2), of key] Suc i(1) assms(4) by (auto simp: eq_commute)
qed

lemma scan_missing:
  assumes "link_holds es k lk" "\<forall>e\<in>set es. c_str (fst e) = fst e"
    and "\<And>j. 6 * k \<le> j \<Longrightarrow> j < 6 * k + 6 \<Longrightarrow> j < length es \<Longrightarrow> fst (es ! j) \<noteq> c_str key"
    and "i \<le> 6" "6 * k + i \<le> length es"
  shows "scan_link key lk i = Inr (if length es < 6 * k + 6 then Available (length es - 6 * k) else Full)"
  using assms(4,5)
proof (induction "6 - i" arbitrary: i)
  case 0
  then show ?case by (simp add: scan_link_end)
next
  case (Suc d)
  then have i: "i < 6" "d = 6 - Suc i" by simp_all
  show ?case
  proof (cases "6 * k + i = length es")
    case True
    then show ?thesis using scan_link_step [OF assms(1) i(1) assms(2), of key] i(1) by simp
  next
    case False
    then have "6 * k + i < length es" using Suc.prems by simp
    moreover from this have "c_str key \<noteq> fst (es ! (6 * k + i))" using assms(3) [of "6 * k + i"] i(1) by auto
    ultimately show ?thesis
      using scan_link_step [OF assms(1) i(1) assms(2), of key] Suc.hyps(1) [OF i(2)] i(1) by simp
  qed
qed

text \<open>And the search of the chain.\<close>

lemma seek_found:
  assumes "holds m es" "j < length es" "fst (es ! j) = c_str key" "6 * k \<le> j" "last_link es < k + n"
  shows "seek_loop n key (Some (addr k)) m = Inr (ItemOf (addr (j div 6)) (j mod 6))"
  using assms(4,5)
proof (induction n arbitrary: k)
  case 0
  then show ?case using assms(2) by (simp add: last_link_def)
next
  case (Suc n)
  note h = assms(1) [unfolded holds_def]
  have "j div 6 \<le> last_link es" "k \<le> j div 6"
    using assms(2) Suc.prems(1) by (auto simp: last_link_def less_eq_div_iff_mult_less_eq intro!: div_le_mono)
  then obtain lk where lk: "im_links m (addr k) = Some lk" "link_holds es k lk" using h by (meson le_trans)
  show ?case
  proof (cases "j < 6 * k + 6")
    case True
    then have "j div 6 = k" "j - 6 * k = j mod 6" using Suc.prems(1) by (auto simp: div_nat_eqI minus_mult_div_eq_mod [symmetric])
    then show ?thesis
      using scan_found [OF lk(2) _ _ assms(2) _ True assms(3), of 0] h Suc.prems(1) lk(1) by (simp add: im_link_addr)
  next
    case False
    have "fst (es ! i) \<noteq> c_str key" if "i < 6 * k + 6" "i < length es" for i
      using h that False assms(2,3) nth_eq_iff_index_eq [of "map fst es" i j] by auto
    then have "scan_link key lk 0 = Inr Full"
      using scan_missing [OF lk(2), of key 0] h False assms(2) by simp
    moreover have "k < last_link es" using False assms(2) by (auto simp: last_link_def less_eq_div_iff_mult_less_eq Suc_le_eq [symmetric])
    moreover have "seek_loop n key (Some (addr (Suc k))) m = Inr (ItemOf (addr (j div 6)) (j mod 6))"
      using Suc.IH [of "Suc k"] Suc.prems False by simp
    ultimately show ?thesis using lk by (simp add: im_link_addr link_holds_def)
  qed
qed

lemma seek_missing:
  assumes "holds m es" "c_str key \<notin> fst ` set es" "k \<le> last_link es" "last_link es < k + n"
  shows "seek_loop n key (Some (addr k)) m =
     Inr (if length es < 6 * last_link es + 6 then FreeItem (addr (last_link es)) (length es - 6 * last_link es) else EndOfBucket)"
  using assms(3,4)
proof (induction n arbitrary: k)
  case (Suc n)
  note h = assms(1) [unfolded holds_def]
  obtain lk where lk: "im_links m (addr k) = Some lk" "link_holds es k lk" using h Suc.prems(1) by blast
  have "fst (es ! i) \<noteq> c_str key" if "i < length es" for i
    using assms(2) that by (metis imageI nth_mem)
  moreover have "6 * k < length es" using Suc.prems(1) h by (intro last_link_below) auto
  ultimately have scan: "scan_link key lk 0 = Inr (if length es < 6 * k + 6 then Available (length es - 6 * k) else Full)"
    using scan_missing [OF lk(2), of key 0] h by simp
  show ?case
  proof (cases "k < last_link es")
    case True
    then have "6 * k + 6 \<le> length es" by (auto simp: last_link_def less_eq_div_iff_mult_less_eq Suc_le_eq [symmetric])
    then show ?thesis
      using lk scan True Suc.IH [of "Suc k"] Suc.prems by (simp add: im_link_addr link_holds_def)
  next
    case False
    then have "k = last_link es" using Suc.prems(1) by simp
    then show ?thesis using lk scan by (cases n) (auto simp: im_link_addr link_holds_def)
  qed
qed simp

lemma im_seek_holds:
  assumes "holds m es"
  shows "j < length es \<Longrightarrow> fst (es ! j) = c_str key \<Longrightarrow> im_seek key m = Inr (ItemOf (addr (j div 6)) (j mod 6))"
    and "c_str key \<notin> fst ` set es \<Longrightarrow> im_seek key m =
      Inr (if length es < 6 * last_link es + 6 then FreeItem (addr (last_link es)) (length es - 6 * last_link es) else EndOfBucket)"
proof -
  have start: "im_seek key m = seek_loop (last_link es + 1) key (Some (addr 0)) m"
    using assms by (simp only: im_seek_def holds_def addr_def) simp
  show "im_seek key m = Inr (ItemOf (addr (j div 6)) (j mod 6))" if "j < length es" "fst (es ! j) = c_str key"
    unfolding start using that by (intro seek_found [OF assms]) simp_all
  show "im_seek key m =
      Inr (if length es < 6 * last_link es + 6 then FreeItem (addr (last_link es)) (length es - 6 * last_link es) else EndOfBucket)"
    if "c_str key \<notin> fst ` set es"
    unfolding start using that by (intro seek_missing [OF assms]) simp_all
qed

section \<open>Reading and writing\<close>

lemma place: "i < 6 \<Longrightarrow> 6 * k + i = j \<longleftrightarrow> k = j div 6 \<and> i = j mod 6" for i j k :: nat
  by auto

lemma holds_link:
  assumes "holds m es" "j < length es"
  obtains lk where "im_links m (addr (j div 6)) = Some lk" "link_holds es (j div 6) lk"
proof -
  have "j div 6 \<le> last_link es" using assms(2) by (auto simp: last_link_def intro!: div_le_mono)
  then show thesis using assms(1) that unfolding holds_def by blast
qed

lemma holds_item:
  assumes "holds m es" "j < length es"
  shows "\<exists>x. im_item m (addr (j div 6)) (j mod 6) = Inr x \<and> mi_value x = snd (es ! j) \<and> mi_used x"
proof -
  obtain lk where lk: "im_links m (addr (j div 6)) = Some lk" "link_holds es (j div 6) lk" using holds_link [OF assms] .
  have "item_holds es j (lk_items lk ! (j mod 6)) (lk_keys lk ! (j mod 6))"
    using link_holds_item [OF lk(2), of "j mod 6"] by simp
  then show ?thesis
    using lk assms(2) by (auto simp: im_item_def im_link_addr link_holds_def item_holds_def)
qed

lemma map_of_entry: "distinct (map fst es) \<Longrightarrow> j < length es \<Longrightarrow> fst (es ! j) = k \<Longrightarrow> map_of es k = Some (snd (es ! j))"
  by (metis map_of_is_SomeI nth_mem prod.collapse)

lemma im_find_holds:
  assumes "holds m es"
  shows "im_find key m = Inr (map_of es (c_str key))"
proof (cases "c_str key \<in> fst ` set es")
  case True
  then obtain j where j: "j < length es" "fst (es ! j) = c_str key" by (metis imageE in_set_conv_nth)
  obtain x where "im_item m (addr (j div 6)) (j mod 6) = Inr x" "mi_value x = snd (es ! j)"
    using holds_item [OF assms j(1)] by blast
  moreover have "map_of es (c_str key) = Some (snd (es ! j))" using assms j by (intro map_of_entry) (auto simp: holds_def)
  ultimately show ?thesis
    using im_seek_holds(1) [OF assms j] assms by (simp add: im_find_def holds_def)
next
  case False
  then have "map_of es (c_str key) = None" by (simp add: map_of_eq_None_iff)
  then show ?thesis using im_seek_holds(2) [OF assms False] assms by (simp add: im_find_def holds_def)
qed

text \<open>Writing to an item of the map.\<close>

lemma holds_set_value:
  assumes "holds m es" "j < length es" "mi_used x"
  shows "\<exists>m'. set_item (addr (j div 6)) (j mod 6) (x\<lparr>mi_value := v\<rparr>) m = Inr m' \<and> holds m' (es[j := (fst (es ! j), v)]) \<and>
     im_itemCount m' = im_itemCount m"
proof -
  let ?es = "es[j := (fst (es ! j), v)]" and ?q = "j div 6" and ?r = "j mod 6"
  obtain lk where lk: "im_links m (addr ?q) = Some lk" "link_holds es ?q lk" using holds_link [OF assms(1,2)] .
  let ?lk = "lk\<lparr>lk_items := (lk_items lk)[?r := x\<lparr>mi_value := v\<rparr>]\<rparr>"
  have other: "item_holds ?es i y key = item_holds es i y key" if "i \<noteq> j" for i y key
    using that by (simp add: item_holds_def)
  have "item_holds ?es (6 * ?q + i) (lk_items ?lk ! i) (lk_keys ?lk ! i)" if "i < 6" for i
  proof (cases "i = ?r")
    case True
    then show ?thesis
      using link_holds_item [OF lk(2), of ?r] lk(2) assms(2,3) by (simp add: item_holds_def link_holds_def)
  next
    case False
    then have "6 * ?q + i \<noteq> j" using that place [of i ?q j] by simp
    then show ?thesis
      using False other link_holds_item [OF lk(2) that] by simp
  qed
  then have "link_holds ?es ?q ?lk" using lk(2) by (simp add: link_holds_def last_link_def)
  moreover have "link_holds ?es k lk'" if "link_holds es k lk'" "k \<noteq> ?q" for k lk'
    using that place [of _ k j] other by (auto simp: link_holds_def last_link_def)
  moreover have "map fst ?es = map fst es" using assms(2) by (metis fst_conv list_update_id map_update nth_map)
  moreover have "\<forall>e\<in>set ?es. c_str (fst e) = fst e"
  proof
    fix e
    assume "e \<in> set ?es"
    then have "e = (fst (es ! j), v) \<or> e \<in> set es" using set_update_subset_insert by fast
    then show "c_str (fst e) = fst e" using assms(1) nth_mem [OF assms(2)] by (auto simp: holds_def)
  qed
  ultimately have "holds (set_link (addr ?q) ?lk m) ?es"
    using assms(1) by (auto simp: holds_def set_link_def last_link_def)
  then show ?thesis using lk(1) by (simp add: set_item_def im_link_addr set_link_def)
qed

section \<open>Adding\<close>

lemma c_str_idem [simp]: "c_str (c_str s) = c_str s"
  by (rule c_str_clean) (auto simp: c_str_def dest: set_takeWhileD)

lemma last_link_append: "last_link (es @ [e]) = length es div 6"
  by (simp add: last_link_def)

lemma first_available_holds:
  assumes "link_holds es k lk" "i \<le> 6" "6 * k + i \<le> length es"
  shows "first_available lk i = min 6 (length es - 6 * k)"
  using assms(2,3)
proof (induction "6 - i" arbitrary: i)
  case 0
  then show ?case by (subst first_available.simps) (simp add: itemPerLink_def)
next
  case (Suc d)
  then have i: "i < 6" "d = 6 - Suc i" by simp_all
  note item = link_holds_item [OF assms(1) i(1)]
  show ?case
  proof (cases "6 * k + i = length es")
    case True
    then show ?thesis using item i(1)
      by (subst first_available.simps) (auto simp: item_holds_def isItemAvailable_def itemPerLink_def)
  next
    case False
    then have "6 * k + i < length es" using Suc.prems by simp
    then show ?thesis using item i(1) Suc.hyps(1) [OF i(2)]
      by (subst first_available.simps) (auto simp: item_holds_def isItemAvailable_def itemPerLink_def)
  qed
qed

text \<open>A link with a new item. The chain does not get longer.\<close>

lemma link_holds_new_item:
  assumes "link_holds es k lk" "6 * k + i = length es" "i < 6" "length es div 6 = last_link es"
  shows "link_holds (es @ [(key, nullValue)]) k
     (lk\<lparr>lk_items := (lk_items lk)[i := setMemberNameIsStatic st (setItemUsed True (lk_items lk ! i))],
        lk_keys := (lk_keys lk)[i := Some key]\<rparr>)"
proof -
  have "item_holds (es @ [(key, nullValue)]) (6 * k + n)
      ((lk_items lk)[i := setMemberNameIsStatic st (setItemUsed True (lk_items lk ! i))] ! n) ((lk_keys lk)[i := Some key] ! n)"
    if "n < 6" for n
    using link_holds_item [OF assms(1) that] assms(1-3) that
    by (cases "n = i")
       (auto simp: item_holds_def link_holds_def nth_append setMemberNameIsStatic_def setItemUsed_def)
  then show ?thesis using assms(1,4) by (simp add: link_holds_def last_link_append)
qed

lemma link_holds_older:
  assumes "link_holds es k lk" "6 * k + 6 \<le> length es" "k < length es div 6 \<longrightarrow> k < last_link es"
  shows "link_holds (es @ [e]) k lk"
proof -
  have "item_holds (es @ [e]) (6 * k + n) x key = item_holds es (6 * k + n) x key" if "n < 6" for n x key
    using assms(2) that by (auto simp: item_holds_def nth_append)
  moreover have "k < length es div 6" using assms(2) by (simp add: Suc_le_eq [symmetric] less_eq_div_iff_mult_less_eq)
  ultimately show ?thesis using assms(1,3) by (simp add: link_holds_def last_link_append)
qed

lemma holds_add_item:
  assumes "holds m es" "c_str key \<notin> fst ` set es" "length es < 6 * last_link es + 6"
  shows "\<exists>m'. setNewItem key st (addr (last_link es)) (length es - 6 * last_link es) m = Inr m' \<and>
     holds m' (es @ [(c_str key, nullValue)])"
proof -
  let ?l = "last_link es" and ?i = "length es - 6 * last_link es" and ?es = "es @ [(c_str key, nullValue)]"
  note h = assms(1) [unfolded holds_def]
  have below: "6 * ?l < length es" using h by (intro last_link_below) auto
  then have same: "length es div 6 = ?l" "6 * ?l + ?i = length es" "?i < 6" using assms(3) by (auto intro!: div_nat_eqI)
  obtain lk where lk: "im_links m (addr ?l) = Some lk" "link_holds es ?l lk" using h by blast
  let ?lk = "lk\<lparr>lk_items := (lk_items lk)[?i := setMemberNameIsStatic st (setItemUsed True (lk_items lk ! ?i))],
        lk_keys := (lk_keys lk)[?i := Some (c_str key)]\<rparr>"
  let ?m = "(set_link (addr ?l) ?lk m)\<lparr>im_itemCount := wrap_uint (im_itemCount m + 1)\<rparr>"
  have "\<exists>lk. im_links ?m (addr k) = Some lk \<and> link_holds ?es k lk" if k: "k \<le> ?l" for k
  proof (cases "k = ?l")
    case True
    then show ?thesis using link_holds_new_item [OF lk(2) same(2,3,1)] by (simp add: set_link_def)
  next
    case False
    then obtain lk' where lk': "im_links m (addr k) = Some lk'" "link_holds es k lk'" using h k by blast
    moreover have "6 * k + 6 \<le> length es" using below k False by linarith
    ultimately show ?thesis using link_holds_older [OF lk'(2)] k False by (simp add: set_link_def)
  qed
  then have "holds ?m ?es"
    using h assms(2) same(1) by (auto simp: holds_def set_link_def last_link_append)
  then show ?thesis using lk(1) by (simp add: setNewItem_def im_link_addr Let_def)
qed

lemma new_link [simp]:
  "lk_items ValueInternalLink_new = replicate 6 MapItem_new" "lk_keys ValueInternalLink_new = replicate 6 None"
  "lk_previous ValueInternalLink_new = None" "lk_next ValueInternalLink_new = None"
  "first_available ValueInternalLink_new 0 = 0"
  by (simp_all add: ValueInternalLink_new_def itemPerLink_def)
     (subst first_available.simps; simp add: isItemAvailable_def MapItem_new_def)

lemma new_link_holds:
  assumes "length es = 6 * k" "es \<noteq> [] \<longrightarrow> last_link es < k"
  shows "link_holds (es @ [(key, nullValue)]) k
     (ValueInternalLink_new\<lparr>lk_items := (replicate 6 MapItem_new)[0 := setMemberNameIsStatic st (setItemUsed True MapItem_new)],
        lk_keys := (replicate 6 None)[0 := Some key]\<rparr>)"
proof -
  have "item_holds (es @ [(key, nullValue)]) (6 * k + i)
      ((replicate 6 MapItem_new)[0 := setMemberNameIsStatic st (setItemUsed True MapItem_new)] ! i) ((replicate 6 None)[0 := Some key] ! i)"
    if "i < 6" for i
    using that assms(1)
    by (cases i) (auto simp: item_holds_def nth_append setMemberNameIsStatic_def setItemUsed_def MapItem_new_def)
  then show ?thesis using assms by (simp add: link_holds_def last_link_append)
qed

text \<open>A new link at the end of a chain that is full.\<close>

lemma holds_add_link:
  fixes m :: "'d InternalMap"
  assumes "holds m es" "c_str key \<notin> fst ` set es" "length es = 6 * last_link es + 6"
  shows "\<exists>m'. unsafeAdd key st hashed m = Inr ((addr (Suc (last_link es)), 0), m') \<and> holds m' (es @ [(c_str key, nullValue)])"
proof -
  let ?l = "last_link es" and ?es = "es @ [(c_str key, nullValue)]" and ?a = "PageLink (last_link es)"
  note h = assms(1) [unfolded holds_def]
  obtain lk where lk: "im_links m (addr ?l) = Some lk" "link_holds es ?l lk" using h by blast
  have full: "first_available lk 0 = 6" using first_available_holds [OF lk(2), of 0] assms(3) by simp
  let ?lk = "lk\<lparr>lk_next := Some ?a\<rparr>"
  let ?new = "ValueInternalLink_new\<lparr>lk_items := (replicate 6 MapItem_new)[0 := setMemberNameIsStatic st (setItemUsed True MapItem_new)],
      lk_keys := (replicate 6 None)[0 := Some (c_str key)]\<rparr> :: 'd ValueInternalLink"
  let ?m = "m\<lparr>im_links := (im_links m)(?a \<mapsto> ?new, addr ?l \<mapsto> ?lk), im_fresh := Suc ?l, im_tail := Some ?a,
      im_itemCount := wrap_uint (im_itemCount m + 1)\<rparr>"
  have ne: "addr k \<noteq> ?a" if "k \<le> ?l" for k using that by (auto simp: addr_def)
  have a: "addr (Suc ?l) = ?a" by (simp add: addr_def)
  have upd: "(im_links m)(?a \<mapsto> ValueInternalLink_new, addr ?l \<mapsto> ?lk, ?a \<mapsto> ?new) = (im_links m)(?a \<mapsto> ?new, addr ?l \<mapsto> ?lk)"
    using ne [of ?l] by (simp add: fun_upd_twist)
  have "unsafeAdd key st hashed m = Inr ((?a, 0), ?m)"
    using h lk(1) full ne [of ?l] upd
    by (simp add: unsafeAdd_def getLastLinkInBucket_def setLastLinkInBucket_def wrap_uint_def im_link_addr set_link_def
        setNewItem_def itemPerLink_def Let_def im_link_def)
  moreover have "holds ?m ?es"
  proof -
    have "\<exists>lk. im_links ?m (addr k) = Some lk \<and> link_holds ?es k lk" if k: "k \<le> Suc ?l" for k
    proof -
      consider "k = Suc ?l" | "k = ?l" | "k < ?l" using k by linarith
      then show ?thesis
      proof cases
        case 1
        have "link_holds ?es k ?new" using 1 assms(3) by (intro new_link_holds) auto
        then show ?thesis using 1 a ne [of ?l] by simp
      next
        case 2
        have "link_holds ?es ?l ?lk"
          using lk(2) a assms(3) by (auto simp: link_holds_def last_link_append item_holds_def nth_append)
        then show ?thesis using 2 by simp
      next
        case 3
        then obtain lk' where lk': "im_links m (addr k) = Some lk'" "link_holds es k lk'" using h by (meson less_imp_le)
        then have "link_holds ?es k lk'" using link_holds_older [OF lk'(2)] 3 assms(3) by simp
        then show ?thesis using lk'(1) 3 ne [of k] by simp
      qed
    qed
    then show ?thesis using h assms(2,3) a by (auto simp: holds_def last_link_append)
  qed
  ultimately show ?thesis using a by auto
qed

lemma holds_first:
  "\<exists>m'. unsafeAdd key st hashed (im_reserveDelta 1 InternalMap_new) = Inr ((addr 0, 0), m') \<and> holds m' [(c_str key, nullValue)]"
  using new_link_holds [of "[]" 0 "c_str key" st]
  by (simp add: unsafeAdd_def im_reserveDelta_def im_reserve_def InternalMap_new_def wrap_uint_def getLastLinkInBucket_def
      addr_def set_link_def setNewItem_def im_link_def itemPerLink_def Let_def holds_def last_link_def)

section \<open>Assignments\<close>

lemma update_at:
  "distinct (map fst es) \<Longrightarrow> j < length es \<Longrightarrow> fst (es ! j) = k \<Longrightarrow> AList.update k v es = es[j := (k, v)]"
proof (induction es arbitrary: j)
  case (Cons e es)
  then show ?case by (cases j) (auto simp: nth_mem)
qed simp

lemma update_new: "k \<notin> fst ` set es \<Longrightarrow> AList.update k v es = es @ [(k, v)]"
  by (induction es) auto

definition represents :: "'d InternalMap \<Rightarrow> (string \<times> 'd JsonValue) list \<Rightarrow> bool" where
  "represents m es \<longleftrightarrow> (if es = [] then m = InternalMap_new else holds m es)"

lemma reserve_holds: "holds m es \<Longrightarrow> im_reserveDelta n m = m"
  by (simp add: holds_def im_reserveDelta_def im_reserve_def)

text \<open>A name that is new comes last.\<close>

lemma resolve_new:
  assumes "represents m es" "c_str key \<notin> fst ` set es"
  shows "\<exists>m'. im_resolveReference key st m = Inr ((addr (length es div 6), length es mod 6), m') \<and> holds m' (es @ [(c_str key, nullValue)])"
proof (cases "es = []")
  case True
  then show ?thesis
    using assms(1) holds_first [of key st "im_hash key"] by (auto simp: represents_def im_resolveReference_def) (auto simp: InternalMap_new_def)
next
  case False
  then have h: "holds m es" using assms(1) by (simp add: represents_def)
  note seek = im_seek_holds(2) [OF h assms(2)]
  have below: "6 * last_link es < length es" "length es \<le> 6 * last_link es + 6"
    using last_link_below [OF False order_refl] length_in_links by simp_all
  show ?thesis
  proof (cases "length es < 6 * last_link es + 6")
    case True
    then have "length es div 6 = last_link es" using below by (intro div_nat_eqI) auto
    moreover from this have "length es mod 6 = length es - 6 * last_link es" by (simp add: minus_mult_div_eq_mod [symmetric])
    moreover obtain m' where "setNewItem key st (addr (last_link es)) (length es - 6 * last_link es) m = Inr m'"
        "holds m' (es @ [(c_str key, nullValue)])"
      using holds_add_item [OF h assms(2) True] by blast
    ultimately show ?thesis using seek True h by (simp add: im_resolveReference_def holds_def)
  next
    case False
    then have n: "length es = 6 * last_link es + 6" using below by simp
    then have "length es div 6 = Suc (last_link es)" "length es mod 6 = 0" by simp_all
    moreover obtain m' where "unsafeAdd key st (im_hash key) m = Inr ((addr (Suc (last_link es)), 0), m')"
        "holds m' (es @ [(c_str key, nullValue)])"
      using holds_add_link [OF h assms(2) n] by blast
    ultimately show ?thesis using seek False h by (simp add: im_resolveReference_def reserve_holds)
  qed
qed

lemma im_put_represents:
  assumes "represents m es"
  shows "\<exists>m'. im_put key st v m = Inr m' \<and> represents m' (AList.update (c_str key) v es)"
proof (cases "c_str key \<in> fst ` set es")
  case True
  then have h: "holds m es" using assms by (auto simp: represents_def split: if_splits)
  obtain j where j: "j < length es" "fst (es ! j) = c_str key" using True by (metis imageE in_set_conv_nth)
  have "im_resolveReference key st m = Inr ((addr (j div 6), j mod 6), m)"
    using im_seek_holds(1) [OF h j] h by (simp add: im_resolveReference_def holds_def)
  moreover obtain x where "im_item m (addr (j div 6)) (j mod 6) = Inr x" "mi_used x" using holds_item [OF h j(1)] by blast
  moreover obtain m' where "set_item (addr (j div 6)) (j mod 6) (x\<lparr>mi_value := v\<rparr>) m = Inr m'" "holds m' (es[j := (c_str key, v)])"
    using holds_set_value [OF h j(1) \<open>mi_used x\<close>, of v] j(2) by auto
  moreover have "AList.update (c_str key) v es = es[j := (c_str key, v)]" using h j by (intro update_at) (auto simp: holds_def)
  ultimately show ?thesis by (auto simp: im_put_def represents_def)
next
  case False
  let ?es = "es @ [(c_str key, nullValue)]"
  obtain m1 where m1: "im_resolveReference key st m = Inr ((addr (length es div 6), length es mod 6), m1)" "holds m1 ?es"
    using resolve_new [OF assms False] by blast
  obtain x where x: "im_item m1 (addr (length es div 6)) (length es mod 6) = Inr x" "mi_used x"
    using holds_item [OF m1(2), of "length es"] by auto
  obtain m' where "set_item (addr (length es div 6)) (length es mod 6) (x\<lparr>mi_value := v\<rparr>) m1 = Inr m'" "holds m' (es @ [(c_str key, v)])"
    using holds_set_value [OF m1(2) _ x(2), of "length es" v] by auto
  then show ?thesis using m1(1) x(1) update_new [OF False] by (auto simp: im_put_def represents_def)
qed

lemma im_find_represents: "represents m es \<Longrightarrow> im_find key m = Inr (map_of es (c_str key))"
  using im_find_holds [of m es key] by (auto simp: represents_def im_find_def InternalMap_new_def split: if_splits)

text \<open>What a client relies on: assignments to members, and lookups.\<close>

primrec put_members :: "(string \<Rightarrow> bool \<Rightarrow> 'v \<Rightarrow> 'm \<Rightarrow> 'm json) \<Rightarrow> (string \<times> bool \<times> 'v) list \<Rightarrow> 'm \<Rightarrow> 'm json" where
  "put_members put [] m = Inr m"
| "put_members put (w # ws) m = json_bind (put (fst w) (fst (snd w)) (snd (snd w)) m) (put_members put ws)"

definition write_members :: "(string \<times> bool \<times> 'v) list \<Rightarrow> (string \<rightharpoonup> 'v) \<Rightarrow> (string \<rightharpoonup> 'v)" where
  "write_members ws f = foldl (\<lambda>f w. f(c_str (fst w) \<mapsto> snd (snd w))) f ws"

locale growing_map =
  fixes rep :: "'m \<Rightarrow> (string \<rightharpoonup> 'v) \<Rightarrow> bool" and put :: "string \<Rightarrow> bool \<Rightarrow> 'v \<Rightarrow> 'm \<Rightarrow> 'm json"
    and get :: "string \<Rightarrow> 'm \<Rightarrow> 'v option json"
  assumes put_rep: "rep m f \<Longrightarrow> \<exists>m'. put key st v m = Inr m' \<and> rep m' (f(c_str key \<mapsto> v))"
    and get_rep: "rep m f \<Longrightarrow> get key m = Inr (f (c_str key))"
begin

lemma put_members_rep: "rep m f \<Longrightarrow> \<exists>m'. put_members put ws m = Inr m' \<and> rep m' (write_members ws f)"
proof (induction ws arbitrary: m f)
  case (Cons w ws)
  obtain m1 where "put (fst w) (fst (snd w)) (snd (snd w)) m = Inr m1" "rep m1 (f(c_str (fst w) \<mapsto> snd (snd w)))"
    using put_rep [OF Cons.prems] by blast
  then show ?case using Cons.IH [of m1] by (simp add: write_members_def)
qed (simp add: write_members_def)

lemma put_members_get:
  "rep m f \<Longrightarrow> \<exists>m'. put_members put ws m = Inr m' \<and> (\<forall>key. get key m' = Inr (write_members ws f (c_str key)))"
  using put_members_rep [of m f ws] get_rep by blast

end

interpretation links: growing_map "\<lambda>m f. \<exists>es. represents m es \<and> map_of es = f" im_put im_find
proof
  show "\<exists>m'. im_put key st v m = Inr m' \<and> (\<exists>es. represents m' es \<and> map_of es = f(c_str key \<mapsto> v))"
    if "\<exists>es. represents m es \<and> map_of es = f" for m :: "'a InternalMap" and f key st v
    using that im_put_represents [of m _ key st v] by (metis AList.update_conv')
  show "im_find key m = Inr (f (c_str key))" if "\<exists>es. represents m es \<and> map_of es = f" for m :: "'a InternalMap" and f key
    using that im_find_represents [of m] by auto
qed

text \<open>The same assignments to the \<open>std::map\<close> of an object.\<close>

definition tree_put :: "string \<Rightarrow> bool \<Rightarrow> 'd JsonValue \<Rightarrow> 'd JsonValue \<Rightarrow> 'd JsonValue json" where
  "tree_put key st v obj = json_put key v obj"

definition tree_find :: "string \<Rightarrow> 'd JsonValue \<Rightarrow> 'd JsonValue option json" where
  "tree_find key obj = (case obj of objectValue m \<Rightarrow> Inr (om_get m (c_str key)) | _ \<Rightarrow> Inl JsonAssert)"

interpretation tree: growing_map "\<lambda>obj f. \<exists>es. obj = objectValue es \<and> map_of es = f" tree_put tree_find
  by unfold_locales (auto simp: tree_put_def tree_find_def)

text \<open>C34: after the same assignments to members the hash map and the \<open>std::map\<close> the program is built with answer every
  lookup alike, whatever the names, their number and their hash values, and neither faults.\<close>

theorem hash_map_agrees:
  "\<exists>m es. put_members im_put ws InternalMap_new = Inr m \<and> put_members tree_put ws (objectValue []) = Inr (objectValue es) \<and>
     (\<forall>key dflt. im_find key m = Inr (om_get es (c_str key)) \<and>
        json_get (objectValue es) key dflt = Inr (case om_get es (c_str key) of None \<Rightarrow> dflt | Some v \<Rightarrow> v))"
proof -
  have "\<exists>es. represents InternalMap_new es \<and> map_of es = Map.empty" by (intro exI [of _ "[]"]) (simp add: represents_def)
  from links.put_members_get [OF this, of ws] obtain m where m: "put_members im_put ws InternalMap_new = Inr m"
    "\<And>key. im_find key m = Inr (write_members ws Map.empty (c_str key))" by blast
  have "\<exists>es. objectValue [] = objectValue es \<and> map_of es = Map.empty" by simp
  from tree.put_members_rep [OF this, of ws] obtain es where "put_members tree_put ws (objectValue []) = Inr (objectValue es)"
    "map_of es = write_members ws Map.empty" by auto
  then show ?thesis using m by (intro exI [of _ m] exI [of _ es]) (simp add: om_at_def)
qed

section \<open>Removing\<close>

lemma holds_itemCount: "holds (m\<lparr>im_itemCount := n\<rparr>) es = holds m es"
  by (simp add: holds_def)

text \<open>Making the last item available, when it is not alone in its link.\<close>

lemma holds_drop_last:
  assumes "holds m es" "(length es - 1) mod 6 \<noteq> 0" "\<not> mi_used y" "mi_value y = nullValue"
  shows "\<exists>m'. set_item (addr (last_link es)) ((length es - 1) mod 6) y m = Inr m' \<and> holds m' (butlast es)"
proof -
  let ?l = "last_link es" and ?r = "(length es - 1) mod 6"
  note h = assms(1) [unfolded holds_def]
  have n: "length es - 1 = 6 * ?l + ?r" "?r < 6" by (simp_all add: last_link_def)
  then have long: "1 < length es" using assms(2) by linarith
  have same: "last_link (butlast es) = ?l"
  proof -
    have "length es - 2 = 6 * ?l + (?r - 1)" using n assms(2) long by linarith
    then show ?thesis using n(2) by (simp add: last_link_def numeral_2_eq_2)
  qed
  obtain lk where lk: "im_links m (addr ?l) = Some lk" "link_holds es ?l lk" using h by blast
  let ?lk = "lk\<lparr>lk_items := (lk_items lk)[?r := y]\<rparr>"
  have short: "item_holds (butlast es) i x key = item_holds es i x key" if "i \<noteq> length es - 1" for i x key
    using that by (auto simp: item_holds_def nth_butlast)
  have "item_holds (butlast es) (6 * ?l + i) (lk_items ?lk ! i) (lk_keys ?lk ! i)" if "i < 6" for i
  proof (cases "i = ?r")
    case True
    have "length (lk_items lk) = 6" using lk(2) by (simp add: link_holds_def)
    then show ?thesis using True n assms(3,4) by (simp add: item_holds_def)
  next
    case False
    then show ?thesis using short [of "6 * ?l + i"] n(1) link_holds_item [OF lk(2) that] by simp
  qed
  then have "link_holds (butlast es) ?l ?lk" using lk(2) same by (simp add: link_holds_def)
  moreover have "link_holds (butlast es) k lk'" if k: "link_holds es k lk'" "k < ?l" for k lk'
  proof -
    have "6 * k + i \<noteq> length es - 1" if "i < 6" for i using that k(2) n(1) by linarith
    then show ?thesis using k short same by (simp add: link_holds_def)
  qed
  moreover have "butlast es \<noteq> []" using long by (cases es rule: rev_cases) auto
  moreover have "distinct (map fst (butlast es))" using h by (simp add: map_butlast distinct_butlast)
  moreover have "\<forall>e\<in>set (butlast es). c_str (fst e) = fst e" using h by (auto dest: in_set_butlastD)
  ultimately have "holds (set_link (addr ?l) ?lk m) (butlast es)"
    using h same unfolding holds_def set_link_def by (auto simp: le_less)
  then show ?thesis using lk(1) by (simp add: set_item_def im_link_addr)
qed

text \<open>Exchanging the values of two members.\<close>

definition exchanged :: "nat \<Rightarrow> (string \<times> 'd JsonValue) list \<Rightarrow> (string \<times> 'd JsonValue) list" where
  "exchanged j es =
     (let n = length es - 1 in es[j := (fst (es ! j), snd (es ! n)), n := (fst (es ! n), snd (es ! j))])"

lemma holds_exchanged:
  assumes "holds m es" "j < length es" "j \<noteq> length es - 1" "mi_used x" "mi_used y"
  shows "\<exists>m'. json_bind (set_item (addr (j div 6)) (j mod 6) (x\<lparr>mi_value := snd (es ! (length es - 1))\<rparr>) m)
       (set_item (addr ((length es - 1) div 6)) ((length es - 1) mod 6) (y\<lparr>mi_value := snd (es ! j)\<rparr>)) = Inr m' \<and>
     holds m' (exchanged j es)"
proof -
  let ?n = "length es - 1" and ?es = "es[j := (fst (es ! j), snd (es ! (length es - 1)))]"
  obtain m1 where m1: "set_item (addr (j div 6)) (j mod 6) (x\<lparr>mi_value := snd (es ! ?n)\<rparr>) m = Inr m1" "holds m1 ?es"
    using holds_set_value [OF assms(1,2,4)] by blast
  have "?n < length ?es" using assms(2) by simp
  from holds_set_value [OF m1(2) this assms(5), of "snd (es ! j)"] show ?thesis
    using m1(1) assms(3) by (auto simp: exchanged_def Let_def)
qed

lemma length_exchanged [simp]: "length (exchanged j es) = length es"
  by (simp add: exchanged_def Let_def)

lemma exchanged_nth:
  assumes "j < length es" "i < length es"
  shows "exchanged j es ! i =
     (if i = length es - 1 then (fst (es ! i), snd (es ! j)) else if i = j then (fst (es ! i), snd (es ! (length es - 1))) else es ! i)"
  using assms by (auto simp: exchanged_def Let_def nth_list_update)

text \<open>Removing the first item of a link leaves a chain with the values of that item and the last exchanged, and without
  the last when that is not alone.\<close>

lemma remove_first_item:
  assumes "holds m es" "j < length es" "fst (es ! j) = c_str key" "j mod 6 = 0"
  shows "\<exists>m'. im_remove key m = Inr m' \<and>
     holds m' (if (length es - 1) mod 6 = 0 then exchanged j es else butlast (exchanged j es))"
proof -
  let ?n = "length es - 1" and ?l = "last_link es" and ?r = "(length es - 1) mod 6"
  note h = assms(1) [unfolded holds_def]
  have l: "?l = ?n div 6" "6 * ?l + ?r = ?n" "?r < 6" by (simp_all add: last_link_def)
  have n: "?n < length es" using assms(2) by simp
  obtain lk where lk: "im_links m (addr ?l) = Some lk" "link_holds es ?l lk" using h by blast
  have "first_available lk 1 = min 6 (length es - 6 * ?l)"
    using l(2) n by (intro first_available_holds [OF lk(2)]) linarith+
  then have used: "last_item_index lk - 1 = ?r" using l n unfolding last_item_index_def by linarith
  obtain x where x: "im_item m (addr (j div 6)) (j mod 6) = Inr x" "mi_value x = snd (es ! j)" "mi_used x"
    using holds_item [OF assms(1,2)] by blast
  obtain y where y: "im_item m (addr ?l) ?r = Inr y" "mi_value y = snd (es ! ?n)" "mi_used y"
    using holds_item [OF assms(1) n] l(1) by auto
  have place: "(addr (j div 6), j mod 6) \<noteq> (addr ?l, ?r) \<longleftrightarrow> j \<noteq> ?n"
    using l(1) by (metis addr_inj div_mult_mod_eq prod.inject)
  let ?swap = "if (addr (j div 6), j mod 6) \<noteq> (addr ?l, ?r)
      then json_bind (set_item (addr (j div 6)) (j mod 6) (x\<lparr>mi_value := mi_value y\<rparr>) m) (set_item (addr ?l) ?r (y\<lparr>mi_value := mi_value x\<rparr>))
      else Inr m"
  obtain m2 where m2: "?swap = Inr m2" "holds m2 (exchanged j es)"
  proof (cases "j = ?n")
    case True
    then have "exchanged j es = es" using assms(2) by (intro nth_equalityI) (auto simp: exchanged_nth)
    then show thesis using that [of m] place True assms(1) by simp
  next
    case False
    from holds_exchanged [OF assms(1,2) False x(3) y(3)] show thesis
      using that place False x(2) y(2) l(1) by auto
  qed
  have run: "im_remove key m = json_bind (if ?r = 0 then Inr m2
      else json_bind (im_item m2 (addr ?l) ?r) (\<lambda>z. set_item (addr ?l) ?r (setItemUsed False (z\<lparr>mi_value := nullValue\<rparr>)) m2))
      (\<lambda>m4. Inr (m4\<lparr>im_itemCount := wrap_uint (im_itemCount m4 + (2 ^ 32 - 1))\<rparr>))"
  proof -
    have "getLastLinkInBucket (j mod 6) m = Inr (Some (addr ?l), m)"
      using h assms(4) by (simp add: getLastLinkInBucket_def wrap_uint_def)
    moreover have "lk_previous lk = None" using lk(2) by (simp add: link_holds_def)
    moreover have "(im_bucketsSize m = 0) = False" using h by simp
    moreover have "im_link m (Some (addr ?l)) = Inr lk" using lk(1) by (simp add: im_link_addr)
    moreover note im_seek_holds(1) [OF assms(1-3)] x(1) y(1) m2(1)
    ultimately show ?thesis
      by (simp only: im_remove_def doActualRemove_def json_bind.simps prod.case seek.case Let_def option.sel option.case used if_False)
  qed
  show ?thesis
  proof (cases "?r = 0")
    case True
    then show ?thesis using run m2(2) by (simp add: holds_itemCount)
  next
    case False
    obtain z where "im_item m2 (addr ?l) ?r = Inr z" using holds_item [OF m2(2), of ?n] n l(1) by auto
    moreover obtain m3 where "set_item (addr ?l) ?r (setItemUsed False (z\<lparr>mi_value := nullValue\<rparr>)) m2 = Inr m3"
        "holds m3 (butlast (exchanged j es))"
      using holds_drop_last [OF m2(2), of "setItemUsed False (z\<lparr>mi_value := nullValue\<rparr>)"] False
      by (auto simp: setItemUsed_def last_link_def)
    ultimately show ?thesis using run False by (simp add: holds_itemCount)
  qed
qed

lemma remove_later_item:
  assumes "holds m es" "j < length es" "fst (es ! j) = c_str key" "j mod 6 \<noteq> 0"
  shows "im_remove key m = Inl (JsonFault OutOfBounds)"
proof -
  note h = assms(1) [unfolded holds_def]
  have "getLastLinkInBucket (j mod 6) m = Inl (JsonFault OutOfBounds)"
    using h assms(4) by (simp add: getLastLinkInBucket_def wrap_uint_def im_link_def)
  moreover have "(im_bucketsSize m = 0) = False" using h by simp
  moreover note im_seek_holds(1) [OF assms(1-3)]
  ultimately show ?thesis
    by (simp only: im_remove_def doActualRemove_def json_bind.simps prod.case seek.case Let_def if_False)
qed

text \<open>Removing a member from the hash map does not remove it. When it is not the first item of its link the last link
  is looked up under the item's index and the code reads past the bucket array; when it is, the name is still there with the value
  of the last member, whose own name is gone, or, when the last is alone in its link, has the value of the removed one.\<close>

theorem removed_member_stays:
  assumes "holds m es" "j < length es" "fst (es ! j) = c_str key"
  shows "if j mod 6 \<noteq> 0 then im_remove key m = Inl (JsonFault OutOfBounds)
     else \<exists>m'. im_remove key m = Inr m' \<and> im_find key m' = Inr (Some (snd (last es))) \<and>
       im_find (fst (last es)) m' = Inr (if (length es - 1) mod 6 = 0 then Some (snd (es ! j)) else None)"
proof (cases "j mod 6 = 0")
  case False
  then show ?thesis using remove_later_item [OF assms] by simp
next
  case True
  let ?n = "length es - 1" and ?xs = "exchanged j es"
  let ?ys = "if ?n mod 6 = 0 then ?xs else butlast ?xs"
  note h = assms(1) [unfolded holds_def]
  have n: "?n < length es" "last es = es ! ?n" using h by (simp_all add: last_conv_nth)
  obtain m' where m': "im_remove key m = Inr m'" "holds m' ?ys" using remove_first_item [OF assms True] by blast
  have keys: "map fst ?xs = map fst es"
    using assms(2) by (intro nth_equalityI) (auto simp: exchanged_nth)
  have d: "distinct (map fst ?xs)" using h keys by simp
  have find: "im_find k m' = Inr (map_of ?ys (c_str k))" for k :: string
    using im_find_represents [of m' ?ys k] m'(2) by (auto simp: represents_def holds_def)
  have name: "c_str (fst (last es)) = fst (last es)" using h by simp
  have fits: "map_of ?ys (fst (es ! i)) = Some (snd (?xs ! i))" if "i < length ?ys" for i
  proof -
    have "?ys ! i = ?xs ! i" "fst (?xs ! i) = fst (es ! i)" "distinct (map fst ?ys)"
      using that d assms(2) by (auto simp: nth_butlast exchanged_nth map_butlast distinct_butlast split: if_splits)
    then show ?thesis by (metis map_of_eq_Some_iff nth_mem prod.collapse that)
  qed
  have "j < length ?ys"
  proof (cases "j = ?n")
    case True
    then show ?thesis using \<open>j mod 6 = 0\<close> n(1) by simp
  next
    case False
    then show ?thesis using assms(2) by auto
  qed
  then have "map_of ?ys (c_str key) = Some (snd (last es))"
    using fits [of j] assms(2,3) n by (auto simp: exchanged_nth)
  moreover have "map_of ?ys (fst (last es)) = (if ?n mod 6 = 0 then Some (snd (es ! j)) else None)"
  proof (cases "?n mod 6 = 0")
    case True
    then show ?thesis using fits [of ?n] assms(2) n by (simp add: exchanged_nth)
  next
    case False
    have "?xs \<noteq> []" using h length_exchanged [of j es] by (metis length_0_conv)
    then have "map fst ?xs = map fst (butlast ?xs) @ [fst (last es)]"
      using n assms(2) by (subst append_butlast_last_id [of ?xs, symmetric]) (simp_all add: last_conv_nth exchanged_nth del: append_butlast_last_id)
    then have "fst (last es) \<notin> fst ` set (butlast ?xs)" using d by auto
    then show ?thesis using False by (simp add: map_of_eq_None_iff)
  qed
  ultimately show ?thesis using True m'(1) find name by simp
qed

theorem removed_member_stays_witness:
  "\<exists>m :: unit InternalMap. im_remove ''b'' m = Inl (JsonFault OutOfBounds) \<and>
     (\<exists>m'. im_remove ''a'' m = Inr m' \<and> im_find ''a'' m' = Inr (Some (booleanValue False)) \<and> im_find ''b'' m' = Inr None)"
proof -
  have "represents (InternalMap_new :: unit InternalMap) []" by (simp add: represents_def)
  from im_put_represents [OF this, of "''a''" False "booleanValue True"] obtain m1 :: "unit InternalMap" where
    "represents m1 [(''a'', booleanValue True)]" by (auto simp: c_str_def)
  from im_put_represents [OF this, of "''b''" False "booleanValue False"] obtain m :: "unit InternalMap" where
    "represents m [(''a'', booleanValue True), (''b'', booleanValue False)]" by (auto simp: c_str_def)
  then have m: "holds m [(''a'', booleanValue True), (''b'', booleanValue False)]" by (simp add: represents_def)
  show ?thesis
    using removed_member_stays [OF m, of 1 "''b''"] removed_member_stays [OF m, of 0 "''a''"] by (auto simp: c_str_def)
qed

end
