(* ===== verification/Json_Errors.thy ===== *)
theory Json_Errors
  imports Json_Properties Encryption "HOL-Library.Sublist"
begin

text \<open>
  What the JSON reader says when a document is wrong: the end of \<open>src/Tool/lib_json/json_reader.cpp\<close>, where the errors are
  turned into a text, and the operator \<open>>>\<close>, which throws that text. The lemmas show that the parser fails exactly when
  it has recorded an error, that an error points into the document, and which line and column are reported.
\<close>

section \<open>The code\<close>

text \<open>The overload of \<open>getLocationLineAndColumn\<close> that prints.\<close>

definition location_text :: "string \<Rightarrow> string \<Rightarrow> string" where
  "location_text document location =
     (let (line, column) = getLocationLineAndColumn document location in ''Line '' @ decimal line @ '', Column '' @ decimal column)"

definition error_text :: "string \<Rightarrow> ErrorInfo \<Rightarrow> string" where
  "error_text document e =
     ''* '' @ location_text document (tk_start (er_token e)) @ [CHR 0x0A] @
     ''  '' @ er_message e @ [CHR 0x0A] @
     (case er_extra e of None \<Rightarrow> [] | Some extra \<Rightarrow> ''See '' @ location_text document extra @ '' for detail.'' @ [CHR 0x0A])"

definition getFormatedErrorMessages :: "string \<Rightarrow> ErrorInfo list \<Rightarrow> string" where
  "getFormatedErrorMessages document errors = foldl (\<lambda>formattedMessage e. formattedMessage @ error_text document e) [] errors"

text \<open>\<open>operator>>\<close>: the value, and the text of the exception if it throws. The reader's document is the text up to the
  character \<open>(char)EOF\<close>.\<close>

definition stream_extract :: "'d floats \<Rightarrow> string \<Rightarrow> 'd JsonValue \<Rightarrow> ('d JsonValue \<times> string option) res" where
  "stream_extract fl sin root =
     bindF (parse_stream fl Features_all sin root) (\<lambda>(ok, v, r).
     Inr (v, if ok then None else Some (getFormatedErrorMessages (takeWhile (\<lambda>c. c \<noteq> CHR 0xFF) sin) (rd_errors r))))"

section \<open>Lines and columns\<close>

text \<open>The lines of a text, which end at a newline, a return, or a return and a newline.\<close>

function text_lines :: "string \<Rightarrow> string list" where
  "text_lines [] = [[]]"
| "text_lines (c # s) =
     (if c = CHR 0x0D then [] # text_lines (if peek_char s = CHR 0x0A then drop 1 s else s)
      else if c = CHR 0x0A then [] # text_lines s
      else (c # hd (text_lines s)) # tl (text_lines s))"
  by pat_completeness auto

termination text_lines
  by (relation "measure length") auto

lemma text_lines_nonempty [simp]: "text_lines s \<noteq> []"
  by (cases s) auto

lemma single_line: "tl (text_lines s) = [] \<Longrightarrow> text_lines s = [s]"
proof (induction s rule: text_lines.induct)
  case (2 c s)
  then show ?case by (auto split: if_splits)
qed simp

text \<open>A place between a return and the newline after it.\<close>

definition between :: "string \<Rightarrow> string \<Rightarrow> bool" where
  "between pre loc \<longleftrightarrow> pre \<noteq> [] \<and> last pre = CHR 0x0D \<and> peek_char loc = CHR 0x0A"

lemma location_loop_past: "pos \<ge> location \<Longrightarrow> location_loop location pos s line start = (line, start)"
  by (cases s) auto

lemma peek_append: "peek_char (s @ t) = (if s = [] then peek_char t else peek_char s)"
  by (cases s) (simp_all add: peek_char_def)

lemma peek_newline: "peek_char s = CHR 0x0A \<longleftrightarrow> (\<exists>t. s = CHR 0x0A # t)"
  by (cases s) (auto simp: peek_char_def)

lemma location_loop_lines:
  "location_loop (pos + int (length pre)) pos (pre @ loc) line start =
     (line + int (length (text_lines pre)) - 1,
      if between pre loc then pos + int (length pre) + 1
      else if tl (text_lines pre) = [] then start
      else pos + int (length pre) - int (length (last (text_lines pre))))"
proof (induction pre arbitrary: pos line start rule: text_lines.induct)
  case 1
  then show ?case by (simp add: location_loop_past between_def)
next
  case (2 c s)
  let ?here = "pos + int (length (c # s))"
  have open_loop: "\<not> pos \<ge> ?here" by simp
  consider "c = CHR 0x0D" "s = []" | "c = CHR 0x0D" "s \<noteq> []" "peek_char s = CHR 0x0A"
    | "c = CHR 0x0D" "s \<noteq> []" "peek_char s \<noteq> CHR 0x0A" | "c = CHR 0x0A" | "c \<noteq> CHR 0x0D" "c \<noteq> CHR 0x0A" by blast
  then show ?case
  proof cases
    case 1
    then show ?thesis by (simp add: location_loop_past between_def peek_append)
  next
    case 2
    then obtain t where s: "s = CHR 0x0A # t" by (auto simp: peek_newline)
    have "location_loop ?here pos ((c # s) @ loc) line start = location_loop (pos + 2 + int (length t)) (pos + 2) (t @ loc) (line + 1) (pos + 2)"
      using 2 by (simp add: s peek_char_def algebra_simps)
    then show ?thesis
      using "2.IH"(1) [of "pos + 2" "line + 1" "pos + 2"] 2
      by (cases t rule: rev_cases) (auto simp: s peek_char_def between_def dest!: single_line)
  next
    case 3
    have "location_loop ?here pos ((c # s) @ loc) line start = location_loop (pos + 1 + int (length s)) (pos + 1) (s @ loc) (line + 1) (pos + 1)"
      using 3 by (simp add: peek_append algebra_simps)
    then show ?thesis
      using "2.IH"(1) [of "pos + 1" "line + 1" "pos + 1"] 3 by (auto simp: between_def dest!: single_line)
  next
    case 4
    have "location_loop ?here pos ((c # s) @ loc) line start = location_loop (pos + 1 + int (length s)) (pos + 1) (s @ loc) (line + 1) (pos + 1)"
      using 4 by (simp add: algebra_simps)
    then show ?thesis
      using "2.IH"(2) [of "pos + 1" "line + 1" "pos + 1"] 4 by (cases s) (auto simp: between_def dest!: single_line)
  next
    case 5
    have "location_loop ?here pos ((c # s) @ loc) line start = location_loop (pos + 1 + int (length s)) (pos + 1) (s @ loc) line start"
      using 5 by (simp add: algebra_simps)
    moreover have "text_lines s = hd (text_lines s) # tl (text_lines s)" by simp
    ultimately show ?thesis
      using "2.IH"(3) [of "pos + 1" line start] 5 by (cases s) (auto simp: between_def dest!: single_line)
  qed
qed

lemma error_location:
  "getLocationLineAndColumn (pre @ loc) loc =
     (int (length (text_lines pre)), if between pre loc then 0 else int (length (last (text_lines pre))) + 1)"
  using location_loop_lines [of 0 pre loc 0 0] single_line [of pre]
  by (auto simp: getLocationLineAndColumn_def Let_def split: prod.split)

section \<open>Tokens lie in the document\<close>

lemma skipSpaces_suffix: "suffix (skipSpaces s) s"
  by (simp add: skipSpaces_def suffix_dropWhile)

lemma getNextChar_suffix: "suffix (snd (getNextChar s)) s"
  by (cases s) (auto simp: suffix_ConsI)

lemma readCppStyleComment_suffix: "suffix (readCppStyleComment s) s"
  by (induction s) (auto simp: suffix_ConsI)

lemma readCStyleComment_suffix: "suffix (snd (readCStyleComment s)) s"
proof -
  have "suffix (c_comment_loop s) s" by (induction s) (auto simp: suffix_ConsI)
  then show ?thesis
    using suffix_order.trans [OF getNextChar_suffix] by (simp add: readCStyleComment_def split_beta Let_def)
qed

lemma readComment_suffix: "suffix (snd (readComment s)) s"
  using getNextChar_suffix [of s] suffix_order.trans [OF readCStyleComment_suffix [of "snd (getNextChar s)"]]
    suffix_order.trans [OF readCppStyleComment_suffix [of "snd (getNextChar s)"]]
  by (auto simp: readComment_def split_beta Let_def)

lemma readString_suffix: "suffix (snd (readString s)) s"
proof (induction s rule: readString.induct)
  case (2 c s)
  have "suffix (drop 1 s) (c # s)" by (rule suffix_order.trans [OF suffix_drop]) (simp add: suffix_ConsI)
  then show ?case using 2 by (auto simp: suffix_ConsI intro: suffix_order.trans)
qed simp

lemma scan_token_suffix: "suffix (snd (snd (scan_token c s))) s"
  by (simp add: scan_token_def readString_suffix readComment_suffix readNumber_def match_text_def suffix_dropWhile suffix_drop
      split del: if_split split: if_split)

text \<open>Where a token may start: a place of the document, not at a newline unless it is the first.\<close>

definition token_place :: "string \<Rightarrow> string \<Rightarrow> bool" where
  "token_place d s \<longleftrightarrow> suffix s d \<and> (s = d \<or> peek_char s \<noteq> CHR 0x0A)"

lemma skipSpaces_place: "suffix s d \<Longrightarrow> token_place d (skipSpaces s)"
  using suffix_order.trans [OF skipSpaces_suffix, of s d]
  by (simp add: token_place_def peek_newline skipSpaces_def dropWhile_eq_Cons_conv) (simp add: is_space_def)

lemma readToken_suffix:
  assumes "readToken s = (t, s')" "suffix s d"
  shows "suffix s' d" "token_place d (tk_start t)"
proof -
  have "tk_start t = skipSpaces s" using assms(1) by (auto simp: readToken_def Let_def split: prod.splits)
  then show "token_place d (tk_start t)" using skipSpaces_place [OF assms(2)] by simp
  have "suffix s' (skipSpaces s)"
    using readToken_snd [of s] assms(1) scan_token_suffix getNextChar_suffix by (metis snd_conv suffix_order.trans)
  then show "suffix s' d" using skipSpaces_suffix assms(2) by (blast intro: suffix_order.trans)
qed

lemma next_token_suffix:
  "next_token s = (t, s') \<Longrightarrow> suffix s d \<Longrightarrow> suffix s' d \<and> token_place d (tk_start t)"
proof (induction s rule: next_token.induct)
  case (1 s)
  obtain u s1 where u: "readToken s = (u, s1)" by (cases "readToken s")
  show ?case
    using 1 readToken_suffix [OF u 1(3)] by (subst (asm) (2) next_token.simps) (auto simp: u split: if_splits)
qed

lemma skip_until_suffix: "suffix s d \<Longrightarrow> suffix (skip_until ty s) d"
proof (induction ty s rule: skip_until.induct)
  case (1 ty s)
  obtain t s1 where t: "readToken s = (t, s1)" by (cases "readToken s")
  show ?case using 1 readToken_suffix [OF t 1(2)] by (subst skip_until.simps) (simp add: t)
qed

lemma skipCommentTokens_suffix:
  "skipCommentTokens ft s = (t, s') \<Longrightarrow> suffix s d \<Longrightarrow> suffix s' d \<and> token_place d (tk_start t)"
  using next_token_suffix readToken_suffix by (auto simp: skipCommentTokens_def split: if_splits)

section \<open>The parser fails exactly when it has recorded an error\<close>

text \<open>A reader at some place of the document that has recorded, over some errors it started with, errors in the
  document; \<open>ok\<close> says there are none.\<close>

definition recorded :: "string \<Rightarrow> ErrorInfo list \<Rightarrow> bool \<Rightarrow> Reader \<Rightarrow> bool" where
  "recorded d es ok r \<longleftrightarrow> suffix (rd_current r) d \<and>
     (\<exists>new. rd_errors r = es @ new \<and> (ok \<longleftrightarrow> new = []) \<and> (\<forall>e\<in>set new. token_place d (tk_start (er_token e))))"

definition reports :: "string \<Rightarrow> ErrorInfo list \<Rightarrow> 'v rd \<Rightarrow> bool" where
  "reports d es x \<longleftrightarrow> (\<forall>ok v r. x = Inr (ok, v, r) \<longrightarrow> recorded d es ok r)"

lemma reports_Inl [simp]: "reports d es (Inl e)"
  by (simp add: reports_def)

lemma reports_Inr [simp]: "reports d es (Inr (ok, v, r)) \<longleftrightarrow> recorded d es ok r"
  by (simp add: reports_def)

lemma reports_bind:
  assumes "reports d es x" "\<And>ok v r. recorded d es ok r \<Longrightarrow> reports d es (f (ok, v, r))"
  shows "reports d es (bindF x f)"
  using assms by (cases x) (auto simp: reports_def)

lemma recorded_move: "recorded d es ok r \<Longrightarrow> suffix s d \<Longrightarrow> recorded d es ok (r\<lparr>rd_current := s\<rparr>)"
  by (simp add: recorded_def)

lemma recorded_error: "recorded d es ok r \<Longrightarrow> token_place d (tk_start t) \<Longrightarrow> recorded d es False (addError msg t e r)"
  by (auto simp: recorded_def addError_def)

lemma recorded_recover: "recorded d es ok r \<Longrightarrow> recorded d es ok (recoverFromError ty r)"
  by (simp add: recoverFromError_def recorded_def skip_until_suffix)

lemma recorded_error_recover:
  "recorded d es ok r \<Longrightarrow> token_place d (tk_start t) \<Longrightarrow> recorded d es False (addErrorAndRecover msg t ty r)"
  by (simp add: addErrorAndRecover_def recorded_recover recorded_error)

lemmas recorded_intros = recorded_move recorded_error recorded_recover recorded_error_recover

lemma recorded_place: "recorded d es ok r \<Longrightarrow> suffix (rd_current r) d"
  by (simp add: recorded_def)

lemma value_body_reports:
  assumes "\<And>r. recorded d es True r \<Longrightarrow> reports d es (object_loop [] [] r)"
    and "\<And>r. recorded d es True r \<Longrightarrow> reports d es (array_loop 0 [] r)" and r: "recorded d es True r"
  shows "reports d es (value_body object_loop array_loop fl ft v r)"
proof -
  obtain t s where ts: "skipCommentTokens ft (rd_current r) = (t, s)" by (cases "skipCommentTokens ft (rd_current r)")
  have s: "suffix s d" "token_place d (tk_start t)" using skipCommentTokens_suffix [OF ts recorded_place [OF r]] by simp_all
  let ?r = "r\<lparr>rd_current := s\<rparr>"
  have here: "recorded d es True ?r" using r s(1) by (rule recorded_move)
  have sp: "suffix (skipSpaces s) d" using skipSpaces_suffix s(1) by (rule suffix_order.trans)
  have failed: "recorded d es False (addError msg t e ?r)" for msg e using here s(2) by (rule recorded_error)
  show ?thesis
  proof (cases "tk_type t")
    case tokenObjectBegin
    have "reports d es (bindF (object_loop [] [] ?r) (\<lambda>(ok, m, r2). Inr (ok, objectValue m, r2)))"
      by (rule reports_bind [OF assms(1) [OF here]]) simp
    then show ?thesis by (simp add: value_body_def ts tokenObjectBegin Let_def)
  next
    case tokenArrayBegin
    have r1: "recorded d es True (r\<lparr>rd_current := skipSpaces s\<rparr>)" using r sp by (rule recorded_move)
    have "reports d es (bindF (array_loop 0 [] (r\<lparr>rd_current := skipSpaces s\<rparr>)) (\<lambda>(ok, m, r2). Inr (ok, arrayValue m, r2)))"
      by (rule reports_bind [OF assms(2) [OF r1]]) simp
    moreover have "recorded d es True (r\<lparr>rd_current := snd (readToken (skipSpaces s))\<rparr>)"
      using r readToken_suffix(1) [OF prod.collapse [symmetric] sp] by (rule recorded_move)
    ultimately show ?thesis by (simp add: value_body_def ts tokenArrayBegin Let_def)
  next
    case tokenNumber
    then show ?thesis
      using here failed decodeNumber_cases [of fl t] by (auto simp: value_body_def ts Let_def split: sum.split)
  next
    case tokenString
    then show ?thesis using here failed by (auto simp: value_body_def ts Let_def split: sum.split)
  qed (use here failed in \<open>simp_all add: value_body_def ts Let_def\<close>)
qed

lemma after_member_reports:
  assumes "\<And>r. recorded d es True r \<Longrightarrow> reports d es (object_loop name m r)" and r: "recorded d es True r"
  shows "reports d es (after_member object_loop name m r)"
proof -
  obtain c s where cs: "readToken (rd_current r) = (c, s)" by (cases "readToken (rd_current r)")
  obtain c1 s1 where cs1: "next_token s = (c1, s1)" by (cases "next_token s")
  note place = readToken_suffix [OF cs recorded_place [OF r]]
  have "suffix s1 d" using next_token_suffix [OF cs1 place(1)] by simp
  then show ?thesis
    using place r assms(1) by (auto simp: after_member_def cs cs1 Let_def intro: recorded_intros)
qed

lemma object_body_reports:
  assumes val: "\<And>v r. recorded d es True r \<Longrightarrow> reports d es (read_value v r)"
    and obj: "\<And>name m r. recorded d es True r \<Longrightarrow> reports d es (object_loop name m r)" and r: "recorded d es True r"
  shows "reports d es (object_body read_value object_loop name m r)"
proof -
  obtain t s where ts: "next_token (rd_current r) = (t, s)" by (cases "next_token (rd_current r)")
  obtain c s2 where cs: "readToken s = (c, s2)" by (cases "readToken s")
  have place: "suffix s d" "token_place d (tk_start t)" using next_token_suffix [OF ts recorded_place [OF r]] by simp_all
  note place2 = readToken_suffix [OF cs place(1)]
  have stored: "reports d es (bindF (read_value (om_at nullValue m k) (r\<lparr>rd_current := s2\<rparr>)) (\<lambda>(ok, v, r3).
      let m1 = om_upd k v m in
      if ok then after_member object_loop name1 m1 r3 else Inr (False, m1, recoverFromError tokenObjectEnd r3)))" for k name1
  proof (rule reports_bind)
    show "reports d es (read_value (om_at nullValue m k) (r\<lparr>rd_current := s2\<rparr>))" using r place2(1) by (intro val recorded_move)
  qed (auto simp: Let_def intro: recorded_recover after_member_reports obj)
  show ?thesis
  proof (cases "tk_type t = tokenString")
    case False
    then show ?thesis using place r by (auto simp: object_body_def ts Let_def intro: recorded_intros)
  next
    case True
    then show ?thesis
      using place place2 r stored by (auto simp: object_body_def ts cs Let_def intro: recorded_intros split: sum.split)
  qed
qed

lemma array_body_reports:
  assumes "reports d es (read_value (om_at nullValue m index) r)"
    and arr: "\<And>i m r. recorded d es True r \<Longrightarrow> reports d es (array_loop i m r)"
  shows "reports d es (array_body read_value array_loop index m r)"
  unfolding array_body_def
proof (rule reports_bind [OF assms(1)])
  fix ok v and r1 :: Reader
  assume r1: "recorded d es ok r1"
  obtain t s where ts: "next_token (rd_current r1) = (t, s)" by (cases "next_token (rd_current r1)")
  have "suffix s d" using next_token_suffix [OF ts recorded_place [OF r1]] by simp
  then show "reports d es (case (ok, v, r1) of (ok, v, r1) \<Rightarrow>
     let m1 = om_upd index v m in
     if \<not> ok then Inr (False, m1, recoverFromError tokenArrayEnd r1)
     else
       let (token, s) = next_token (rd_current r1); r2 = r1\<lparr>rd_current := s\<rparr> in
       if tk_type token = tokenArrayEnd then Inr (True, m1, r2)
       else array_loop (index + 1) m1 r2)"
    using r1 by (cases ok) (auto simp: ts Let_def intro: recorded_intros arr)
qed

lemma reader_reports:
  "recorded d es True r \<Longrightarrow> reports d es (readValue n fl ft v r)"
  "recorded d es True r \<Longrightarrow> reports d es (readObject n fl ft name m r)"
  "recorded d es True r \<Longrightarrow> reports d es (readArray n fl ft index e r)"
proof (induction n arbitrary: r v name m index e)
  case (Suc n)
  {
    case 1
    then show ?case by (simp only: readValue.simps) (rule value_body_reports; (rule Suc.IH)?; simp)
  next
    case 2
    then show ?case by (simp only: readObject.simps) (rule object_body_reports; (rule Suc.IH)?; simp)
  next
    case 3
    then show ?case by (simp only: readArray.simps) (rule array_body_reports; rule Suc.IH; simp)
  }
qed simp_all

lemma parse_end_reports:
  assumes "recorded d [] ok r"
  shows "reports d [] (parse_end ft d (ok, root, r))"
proof -
  obtain t s where ts: "skipCommentTokens ft (rd_current r) = (t, s)" by (cases "skipCommentTokens ft (rd_current r)")
  have "suffix s d" using skipCommentTokens_suffix [OF ts recorded_place [OF assms]] by simp
  moreover have "token_place d d" by (simp add: token_place_def)
  ultimately show ?thesis using assms by (auto simp: parse_end_def ts Let_def intro!: recorded_intros)
qed

lemma parse_reports: "reports d [] (parse fl ft d root)"
  unfolding parse_def
proof (rule reports_bind)
  have "recorded d [] True \<lparr>rd_current = d, rd_errors = []\<rparr>" by (simp add: recorded_def)
  then show "reports d [] (readValue (2 * length d + 1) fl ft root \<lparr>rd_current = d, rd_errors = []\<rparr>)"
    by (rule reader_reports)
qed (rule parse_end_reports)

section \<open>What is thrown\<close>

lemma place_text:
  assumes "token_place d s"
  shows "\<exists>pre. d = pre @ s \<and> location_text d s =
     ''Line '' @ decimal (int (length (text_lines pre))) @ '', Column '' @ decimal (int (length (last (text_lines pre))) + 1)"
proof -
  obtain pre where pre: "d = pre @ s" using assms unfolding token_place_def by (blast elim: suffixE)
  have "\<not> between pre s" using assms pre by (auto simp: token_place_def between_def)
  then show ?thesis using pre by (auto simp: location_text_def error_location)
qed

lemma getFormatedErrorMessages_concat: "getFormatedErrorMessages d es = concat (map (error_text d) es)"
proof -
  have "foldl (\<lambda>msg e. msg @ error_text d e) acc es = acc @ concat (map (error_text d) es)" for acc
    by (induction es arbitrary: acc) simp_all
  then show ?thesis by (simp add: getFormatedErrorMessages_def)
qed

lemma error_text_begins:
  assumes "token_place d (tk_start (er_token e))"
  shows "\<exists>pre rest. d = pre @ tk_start (er_token e) \<and> error_text d e =
     ''* Line '' @ decimal (int (length (text_lines pre))) @ '', Column '' @ decimal (int (length (last (text_lines pre))) + 1) @
     [CHR 0x0A] @ ''  '' @ er_message e @ [CHR 0x0A] @ rest"
  using place_text [OF assms] by (fastforce simp: error_text_def)

text \<open>C33: the operator \<open>>>\<close> on a stream either leaves the parsed value and no error has been recorded, or throws. What it
  throws is never empty: it begins with the line and the column, counted from 1 with every kind of line end, of the token
  of the first error, which lies in the document, and with that error's message.\<close>

theorem extraction_reports:
  assumes "stream_extract fl sin root = Inr (v, thrown)"
  shows "\<exists>ok r. parse_stream fl Features_all sin root = Inr (ok, v, r) \<and>
     (case thrown of
        None \<Rightarrow> ok \<and> rd_errors r = []
      | Some txt \<Rightarrow> \<not> ok \<and> (\<exists>e es pre rest. rd_errors r = e # es \<and>
          takeWhile (\<lambda>c. c \<noteq> CHR 0xFF) sin = pre @ tk_start (er_token e) \<and>
          txt = ''* Line '' @ decimal (int (length (text_lines pre))) @ '', Column '' @
            decimal (int (length (last (text_lines pre))) + 1) @ [CHR 0x0A] @ ''  '' @ er_message e @ [CHR 0x0A] @ rest))"
proof -
  let ?d = "takeWhile (\<lambda>c. c \<noteq> CHR 0xFF) sin"
  obtain ok r where p: "parse_stream fl Features_all sin root = Inr (ok, v, r)"
    and thrown: "thrown = (if ok then None else Some (getFormatedErrorMessages ?d (rd_errors r)))"
    using assms by (cases "parse_stream fl Features_all sin root") (auto simp: stream_extract_def)
  have "recorded ?d [] ok r" using parse_reports [of ?d fl Features_all root] p by (simp add: parse_stream_def)
  then have errors: "ok \<longleftrightarrow> rd_errors r = []" "\<forall>e\<in>set (rd_errors r). token_place ?d (tk_start (er_token e))"
    by (auto simp: recorded_def)
  show ?thesis
  proof (cases "rd_errors r")
    case Nil
    then show ?thesis using p thrown errors by (intro exI [of _ ok] exI [of _ r]) simp
  next
    case (Cons e es)
    then obtain pre rest where "?d = pre @ tk_start (er_token e)" "error_text ?d e =
       ''* Line '' @ decimal (int (length (text_lines pre))) @ '', Column '' @ decimal (int (length (last (text_lines pre))) + 1) @
       [CHR 0x0A] @ ''  '' @ er_message e @ [CHR 0x0A] @ rest" using error_text_begins [of ?d e] errors(2) by auto
    then show ?thesis
      using p thrown errors(1) Cons by (intro exI [of _ ok] exI [of _ r]) (simp add: getFormatedErrorMessages_concat)
  qed
qed

theorem extraction_reports_witness:
  "\<exists>r e es. parse_stream zero_or_not Features_all (CHR 0x0A # '' tru'') nullValue = Inr (False, nullValue, r) \<and> rd_errors r = e # es"
proof -
  have "stream_extract zero_or_not (CHR 0x0A # '' tru'') nullValue =
    Inr (nullValue, Some (''* Line 2, Column 2'' @ CHR 0x0A # ''  Syntax error: value, object or array expected.'' @ [CHR 0x0A]))"
    by code_simp
  from extraction_reports [OF this] show ?thesis by auto
qed

text \<open>A place between a return and a newline is given the next line and column 0: here the place after a bad escape.\<close>

lemma column_zero:
  "map_sum id snd (stream_extract zero_or_not [CHR 0x22, CHR 0x5C, CHR 0x0D, CHR 0x0A, CHR 0x22] nullValue) =
   Inr (Some (''* Line 1, Column 1'' @ CHR 0x0A # ''  Bad escape sequence in string'' @ CHR 0x0A #
     ''See Line 2, Column 0 for detail.'' @ [CHR 0x0A]))"
  by code_simp

end
