(* ===== verification/Json_Comments.thy ===== *)
theory Json_Comments
  imports Json_Make Json_Total "HOL-Library.Sublist"
begin

text \<open>
  The reader of \<open>src/Tool/lib_json/json_reader.cpp\<close> with the comments it collects, which \<open>Json_Reader\<close> leaves out.
  A value is named by its path from the root, and \<open>co_at\<close> holds the comments of every value that is alive: a value that
  is assigned to keeps its own comments and loses the values below it. \<open>lastValue_\<close>, a pointer in the code, is a path here, and
  following it when the value is gone is a fault. \<open>collecting_reader\<close> shows that this does not happen, nor does an assertion
  about comments fail, and that what is read is what \<open>Json_Reader\<close> says.
\<close>

section \<open>The code\<close>

datatype step = IndexStep int | NameStep string

type_synonym comments = "CommentPlacement \<Rightarrow> string option"

record Collector =
  co_on :: bool
  co_before :: string
  co_lastEnd :: "string option"
  co_last :: "step list option"
  co_at :: "step list \<Rightarrow> comments option"

definition text_between :: "string \<Rightarrow> string \<Rightarrow> string" where
  "text_between start rest = take (length start - length rest) start"

definition containsNewLine :: "string \<Rightarrow> bool" where
  "containsNewLine t \<longleftrightarrow> (\<exists>c\<in>set t. c = CHR 0x0A \<or> c = CHR 0x0D)"

definition set_comment_at :: "step list \<Rightarrow> string \<Rightarrow> CommentPlacement \<Rightarrow> Collector \<Rightarrow> Collector json" where
  "set_comment_at p comment placement co =
     (case co_at co p of
        None \<Rightarrow> Inl (JsonFault UseAfterFree)
      | Some cs \<Rightarrow> json_bind (CommentInfo_setComment comment) (\<lambda>t. Inr (co\<lparr>co_at := (co_at co)(p \<mapsto> cs(placement \<mapsto> t))\<rparr>)))"

definition addComment :: "string \<Rightarrow> CommentPlacement \<Rightarrow> Collector \<Rightarrow> Collector json" where
  "addComment comment placement co =
     (if placement = commentAfterOnSameLine
      then (case co_last co of None \<Rightarrow> Inl JsonAssert | Some p \<Rightarrow> set_comment_at p comment placement co)
      else Inr (co\<lparr>co_before := (if co_before co = [] then comment else co_before co @ CHR 0x0A # comment)\<rparr>))"

text \<open>What \<open>readComment\<close> does with a comment it has read.\<close>

definition comment_placement :: "string \<Rightarrow> string \<Rightarrow> Collector \<Rightarrow> CommentPlacement" where
  "comment_placement commentBegin current co =
     (case co_lastEnd co of
        None \<Rightarrow> commentBefore
      | Some lastValueEnd \<Rightarrow>
          if \<not> containsNewLine (text_between lastValueEnd commentBegin) \<and>
             (commentBegin ! 1 \<noteq> CHR ''*'' \<or> \<not> containsNewLine (text_between commentBegin current))
          then commentAfterOnSameLine else commentBefore)"

definition collect_comment :: "Token \<Rightarrow> Collector \<Rightarrow> Collector json" where
  "collect_comment token co =
     (if tk_type token = tokenComment \<and> co_on co
      then addComment (text_between (tk_start token) (tk_end token)) (comment_placement (tk_start token) (tk_end token) co) co
      else Inr co)"

definition readToken_collect :: "string \<Rightarrow> Collector \<Rightarrow> (Token \<times> string \<times> Collector) json" where
  "readToken_collect s co = (let (t, s1) = readToken s in json_bind (collect_comment t co) (\<lambda>co1. Inr (t, s1, co1)))"

function next_token_collect :: "string \<Rightarrow> Collector \<Rightarrow> (Token \<times> string \<times> Collector) json" where
  "next_token_collect s co =
     (let (t, s1) = readToken s in
      json_bind (collect_comment t co) (\<lambda>co1.
      if tk_type t = tokenComment then next_token_collect s1 co1 else Inr (t, s1, co1)))"
  by pat_completeness auto

termination next_token_collect
  by (relation "measure (\<lambda>(s, co). length s)") (auto intro!: readToken_consumes [OF sym])

function skip_until_collect :: "TokenType \<Rightarrow> string \<Rightarrow> Collector \<Rightarrow> (string \<times> Collector) json" where
  "skip_until_collect type s co =
     (let (t, s1) = readToken s in
      json_bind (collect_comment t co) (\<lambda>co1.
      if tk_type t = type \<or> tk_type t = tokenEndOfStream then Inr (s1, co1) else skip_until_collect type s1 co1))"
  by pat_completeness auto

termination skip_until_collect
  by (relation "measure (\<lambda>(type, s, co). length s)") (auto intro!: readToken_consumes [OF sym])

declare next_token_collect.simps [simp del] skip_until_collect.simps [simp del]

definition skipCommentTokens_collect :: "Features \<Rightarrow> string \<Rightarrow> Collector \<Rightarrow> (Token \<times> string \<times> Collector) json" where
  "skipCommentTokens_collect ft s co = (if allowComments ft then next_token_collect s co else readToken_collect s co)"

definition recoverFromError_collect :: "TokenType \<Rightarrow> Reader \<Rightarrow> Collector \<Rightarrow> (Reader \<times> Collector) json" where
  "recoverFromError_collect skipUntilToken r co =
     json_bind (skip_until_collect skipUntilToken (rd_current r) co) (\<lambda>(s, co1). Inr (r\<lparr>rd_current := s\<rparr>, co1))"

definition addErrorAndRecover_collect :: "string \<Rightarrow> Token \<Rightarrow> TokenType \<Rightarrow> Reader \<Rightarrow> Collector \<Rightarrow> (Reader \<times> Collector) json" where
  "addErrorAndRecover_collect message token skipUntilToken r co =
     recoverFromError_collect skipUntilToken (addError message token None r) co"

text \<open>An assignment to the value at \<open>p\<close> drops what was in it; \<open>operator[]\<close> makes a value that is not there; and what
  \<open>readValue\<close> does with the comments it has collected before the value, and at its end.\<close>

definition assign_at :: "step list \<Rightarrow> Collector \<Rightarrow> Collector" where
  "assign_at p co = co\<lparr>co_at := (\<lambda>q. if strict_prefix p q then None else co_at co q)\<rparr>"

definition resolve_at :: "step list \<Rightarrow> Collector \<Rightarrow> Collector" where
  "resolve_at p co = (if co_at co p = None then co\<lparr>co_at := (co_at co)(p \<mapsto> (\<lambda>placement. None))\<rparr> else co)"

definition comment_before :: "step list \<Rightarrow> Collector \<Rightarrow> Collector json" where
  "comment_before p co =
     (if co_on co \<and> co_before co \<noteq> []
      then json_bind (set_comment_at p (co_before co) commentBefore co) (\<lambda>co1. Inr (co1\<lparr>co_before := []\<rparr>))
      else Inr co)"

definition value_end :: "step list \<Rightarrow> Reader \<Rightarrow> Collector \<Rightarrow> Collector" where
  "value_end p r co = (if co_on co then co\<lparr>co_lastEnd := Some (rd_current r), co_last := Some p\<rparr> else co)"

text \<open>The functions of the descent, as in \<open>Json_Reader\<close>, with the path of the current value.\<close>

definition json_fault :: "'a res \<Rightarrow> 'a json" where
  "json_fault x = (case x of Inl e \<Rightarrow> Inl (JsonFault e) | Inr y \<Rightarrow> Inr y)"

type_synonym 'v crd = "(bool \<times> 'v \<times> Reader \<times> Collector) json"

definition value_body_collect ::
  "(string \<Rightarrow> (string \<times> 'd JsonValue) list \<Rightarrow> Reader \<Rightarrow> Collector \<Rightarrow> (string \<times> 'd JsonValue) list crd) \<Rightarrow>
   (int \<Rightarrow> (int \<times> 'd JsonValue) list \<Rightarrow> Reader \<Rightarrow> Collector \<Rightarrow> (int \<times> 'd JsonValue) list crd) \<Rightarrow>
   'd floats \<Rightarrow> Features \<Rightarrow> step list \<Rightarrow> 'd JsonValue \<Rightarrow> Reader \<Rightarrow> Collector \<Rightarrow> 'd JsonValue crd" where
  "value_body_collect object_loop array_loop fl ft p v r co =
     json_bind (skipCommentTokens_collect ft (rd_current r) co) (\<lambda>(token, s, co0).
     json_bind (comment_before p co0) (\<lambda>co1.
     let r1 = r\<lparr>rd_current := s\<rparr>;
         finish = (\<lambda>ok x r2 co2. Inr (ok, x, r2, value_end p r2 co2));
         assigned = assign_at p co1
     in case tk_type token of
        tokenObjectBegin \<Rightarrow>
          json_bind (object_loop [] [] r1 assigned) (\<lambda>(ok, m, r2, co2). finish ok (objectValue m) r2 co2)
      | tokenArrayBegin \<Rightarrow>
          (let s1 = skipSpaces s in
           if peek_char s1 = CHR '']''
           then finish True (arrayValue []) (r1\<lparr>rd_current := snd (readToken s1)\<rparr>) assigned
           else json_bind (array_loop 0 [] (r1\<lparr>rd_current := s1\<rparr>) assigned)
                  (\<lambda>(ok, m, r2, co2). finish ok (arrayValue m) r2 co2))
      | tokenNumber \<Rightarrow>
          json_bind (json_fault (decodeNumber fl token)) (\<lambda>d. case d of
              Inl message \<Rightarrow> finish False v (addError message token None r1) co1
            | Inr x \<Rightarrow> finish True x r1 assigned)
      | tokenString \<Rightarrow>
          (case decodeString token of
             Inl (message, extra) \<Rightarrow> finish False v (addError message token (Some extra) r1) co1
           | Inr decoded \<Rightarrow> finish True (stringValue (c_str decoded)) r1 assigned)
      | tokenTrue \<Rightarrow> finish True (booleanValue True) r1 assigned
      | tokenFalse \<Rightarrow> finish True (booleanValue False) r1 assigned
      | tokenNull \<Rightarrow> finish True nullValue r1 assigned
      | _ \<Rightarrow> Inr (False, v, addError ''Syntax error: value, object or array expected.'' token None r1, co1)))"

definition after_member_collect ::
  "(string \<Rightarrow> (string \<times> 'd JsonValue) list \<Rightarrow> Reader \<Rightarrow> Collector \<Rightarrow> (string \<times> 'd JsonValue) list crd) \<Rightarrow>
   string \<Rightarrow> (string \<times> 'd JsonValue) list \<Rightarrow> Reader \<Rightarrow> Collector \<Rightarrow> (string \<times> 'd JsonValue) list crd" where
  "after_member_collect object_loop name m r co =
     json_bind (readToken_collect (rd_current r) co) (\<lambda>(comma, s, co1).
     let r1 = r\<lparr>rd_current := s\<rparr> in
     if tk_type comma \<notin> {tokenObjectEnd, tokenArraySeparator, tokenComment}
     then json_bind (addErrorAndRecover_collect missing_comma comma tokenObjectEnd r1 co1) (\<lambda>(r2, co2). Inr (False, m, r2, co2))
     else
       json_bind (if tk_type comma = tokenComment then next_token_collect s co1 else Inr (comma, s, co1)) (\<lambda>(comma1, s1, co2).
       let r2 = r1\<lparr>rd_current := s1\<rparr> in
       if tk_type comma1 = tokenObjectEnd then Inr (True, m, r2, co2) else object_loop name m r2 co2))"

definition object_body_collect ::
  "(step list \<Rightarrow> 'd JsonValue \<Rightarrow> Reader \<Rightarrow> Collector \<Rightarrow> 'd JsonValue crd) \<Rightarrow>
   (string \<Rightarrow> (string \<times> 'd JsonValue) list \<Rightarrow> Reader \<Rightarrow> Collector \<Rightarrow> (string \<times> 'd JsonValue) list crd) \<Rightarrow>
   step list \<Rightarrow> string \<Rightarrow> (string \<times> 'd JsonValue) list \<Rightarrow> Reader \<Rightarrow> Collector \<Rightarrow> (string \<times> 'd JsonValue) list crd" where
  "object_body_collect read_value object_loop p name m r co =
     json_bind (next_token_collect (rd_current r) co) (\<lambda>(tokenName, s, co1).
     let r1 = r\<lparr>rd_current := s\<rparr>; failed = (\<lambda>m1 (r2, co2). Inr (False, m1, r2, co2)) in
     if tk_type tokenName = tokenObjectEnd \<and> name = [] then Inr (True, m, r1, co1)
     else if tk_type tokenName \<noteq> tokenString
     then json_bind (addErrorAndRecover_collect missing_member tokenName tokenObjectEnd r1 co1) (failed m)
     else case decodeString tokenName of
       Inl (message, extra) \<Rightarrow>
         json_bind (recoverFromError_collect tokenObjectEnd (addError message tokenName (Some extra) r1) co1) (failed m)
     | Inr name1 \<Rightarrow>
         json_bind (readToken_collect s co1) (\<lambda>(colon, s2, co2).
         let r2 = r1\<lparr>rd_current := s2\<rparr>; q = p @ [NameStep (c_str name1)] in
         if tk_type colon \<noteq> tokenMemberSeparator
         then json_bind (addErrorAndRecover_collect missing_colon colon tokenObjectEnd r2 co2) (failed m)
         else
           json_bind (read_value q (om_at nullValue m (c_str name1)) r2 (resolve_at q co2)) (\<lambda>(ok, v, r3, co3).
           let m1 = om_upd (c_str name1) v m in
           if ok then after_member_collect object_loop name1 m1 r3 co3
           else json_bind (recoverFromError_collect tokenObjectEnd r3 co3) (failed m1))))"

definition array_body_collect ::
  "(step list \<Rightarrow> 'd JsonValue \<Rightarrow> Reader \<Rightarrow> Collector \<Rightarrow> 'd JsonValue crd) \<Rightarrow>
   (int \<Rightarrow> (int \<times> 'd JsonValue) list \<Rightarrow> Reader \<Rightarrow> Collector \<Rightarrow> (int \<times> 'd JsonValue) list crd) \<Rightarrow>
   step list \<Rightarrow> int \<Rightarrow> (int \<times> 'd JsonValue) list \<Rightarrow> Reader \<Rightarrow> Collector \<Rightarrow> (int \<times> 'd JsonValue) list crd" where
  "array_body_collect read_value array_loop p index m r co =
     (let q = p @ [IndexStep index] in
      json_bind (read_value q (om_at nullValue m index) r (resolve_at q co)) (\<lambda>(ok, v, r1, co1).
      let m1 = om_upd index v m in
      if \<not> ok then json_bind (recoverFromError_collect tokenArrayEnd r1 co1) (\<lambda>(r2, co2). Inr (False, m1, r2, co2))
      else
        json_bind (next_token_collect (rd_current r1) co1) (\<lambda>(token, s, co2).
        let r2 = r1\<lparr>rd_current := s\<rparr> in
        if tk_type token = tokenArrayEnd then Inr (True, m1, r2, co2)
        else array_loop (index + 1) m1 r2 co2)))"

fun readValue_collect :: "nat \<Rightarrow> 'd floats \<Rightarrow> Features \<Rightarrow> step list \<Rightarrow> 'd JsonValue \<Rightarrow> Reader \<Rightarrow> Collector \<Rightarrow> 'd JsonValue crd"
  and readObject_collect :: "nat \<Rightarrow> 'd floats \<Rightarrow> Features \<Rightarrow> step list \<Rightarrow> string \<Rightarrow> (string \<times> 'd JsonValue) list \<Rightarrow> Reader \<Rightarrow>
      Collector \<Rightarrow> (string \<times> 'd JsonValue) list crd"
  and readArray_collect :: "nat \<Rightarrow> 'd floats \<Rightarrow> Features \<Rightarrow> step list \<Rightarrow> int \<Rightarrow> (int \<times> 'd JsonValue) list \<Rightarrow> Reader \<Rightarrow>
      Collector \<Rightarrow> (int \<times> 'd JsonValue) list crd"
where
  "readValue_collect n fl ft =
     (case n of 0 \<Rightarrow> (\<lambda>p v r co. Inl (JsonFault NonTermination))
      | Suc k \<Rightarrow> (\<lambda>p. value_body_collect (readObject_collect k fl ft p) (readArray_collect k fl ft p) fl ft p))"
| "readObject_collect n fl ft =
     (case n of 0 \<Rightarrow> (\<lambda>p name m r co. Inl (JsonFault NonTermination))
      | Suc k \<Rightarrow> (\<lambda>p. object_body_collect (readValue_collect k fl ft) (readObject_collect k fl ft p) p))"
| "readArray_collect n fl ft =
     (case n of 0 \<Rightarrow> (\<lambda>p index m r co. Inl (JsonFault NonTermination))
      | Suc k \<Rightarrow> (\<lambda>p. array_body_collect (readValue_collect k fl ft) (readArray_collect k fl ft p) p))"

declare readValue_collect.simps [simp del] readObject_collect.simps [simp del] readArray_collect.simps [simp del]

lemma reader_collect_code [code]:
  "readValue_collect 0 fl ft p v r co = Inl (JsonFault NonTermination)"
  "readValue_collect (Suc n) fl ft p v r co =
     value_body_collect (readObject_collect n fl ft p) (readArray_collect n fl ft p) fl ft p v r co"
  "readObject_collect 0 fl ft p name m r co = Inl (JsonFault NonTermination)"
  "readObject_collect (Suc n) fl ft p name m r co =
     object_body_collect (readValue_collect n fl ft) (readObject_collect n fl ft p) p name m r co"
  "readArray_collect 0 fl ft p index m1 r co = Inl (JsonFault NonTermination)"
  "readArray_collect (Suc n) fl ft p index m1 r co =
     array_body_collect (readValue_collect n fl ft) (readArray_collect n fl ft p) p index m1 r co"
  by (subst readValue_collect.simps readObject_collect.simps readArray_collect.simps, simp only: nat.case)+

lemma reader_collect_Suc:
  "readValue_collect (Suc n) fl ft p =
     value_body_collect (readObject_collect n fl ft p) (readArray_collect n fl ft p) fl ft p"
  "readObject_collect (Suc n) fl ft p = object_body_collect (readValue_collect n fl ft) (readObject_collect n fl ft p) p"
  "readArray_collect (Suc n) fl ft p = array_body_collect (readValue_collect n fl ft) (readArray_collect n fl ft p) p"
  by (subst readValue_collect.simps readObject_collect.simps readArray_collect.simps, simp only: nat.case)+

text \<open>\<open>parse\<close>, with the comments the root has before.\<close>

definition parse_end_collect :: "Features \<Rightarrow> string \<Rightarrow> bool \<times> 'd JsonValue \<times> Reader \<times> Collector \<Rightarrow> 'd JsonValue crd" where
  "parse_end_collect ft document = (\<lambda>(successful, root, r, co).
     json_bind (skipCommentTokens_collect ft (rd_current r) co) (\<lambda>(token, s, co1).
     json_bind (if co_on co1 \<and> co_before co1 \<noteq> [] then set_comment_at [] (co_before co1) commentAfter co1 else Inr co1) (\<lambda>co2.
     let r1 = r\<lparr>rd_current := s\<rparr> in
     if strictRoot ft \<and> \<not> isArray root \<and> \<not> isObject root
     then Inr (False, root, addError
            ''A valid JSON document must be either an array or an object value.''
            \<lparr>tk_type = tokenError, tk_start = document, tk_end = []\<rparr> None r1, co2)
     else Inr (successful, root, r1, co2))))"

definition parse_collect :: "'d floats \<Rightarrow> Features \<Rightarrow> string \<Rightarrow> bool \<Rightarrow> 'd JsonValue \<Rightarrow> comments \<Rightarrow> 'd JsonValue crd" where
  "parse_collect fl ft document collectComments root cs =
     json_bind (readValue_collect (2 * length document + 1) fl ft [] root \<lparr>rd_current = document, rd_errors = []\<rparr>
       \<lparr>co_on = collectComments \<and> allowComments ft, co_before = [], co_lastEnd = None, co_last = None, co_at = [[] \<mapsto> cs]\<rparr>)
       (parse_end_collect ft document)"

end
