(* ===== verification/Json_Comments_Properties.thy ===== *)
theory Json_Comments_Properties
  imports Json_Comments Json_Properties
begin

text \<open>
  Collecting comments changes nothing about what the reader reads, and is safe: \<open>lastValue_\<close> is alive whenever it is
  followed, and the assertions on comments hold.
\<close>

section \<open>What the collector keeps\<close>

text \<open>The invariant of the collector, and a step that leaves \<open>lastValue_\<close> and what is alive as they are.\<close>

definition co_wf :: "Collector \<Rightarrow> bool" where
  "co_wf co \<longleftrightarrow> (co_before co = [] \<or> hd (co_before co) = CHR ''/'') \<and> (co_lastEnd co \<noteq> None \<longrightarrow> co_last co \<noteq> None) \<and>
     (\<forall>q. co_last co = Some q \<longrightarrow> co_at co q \<noteq> None) \<and> (\<not> co_on co \<longrightarrow> co_last co = None)"

definition steady :: "Collector \<Rightarrow> Collector \<Rightarrow> bool" where
  "steady co co' \<longleftrightarrow> co_wf co' \<and> co_on co' = co_on co \<and> co_last co' = co_last co \<and> (\<forall>q. co_at co' q = None \<longleftrightarrow> co_at co q = None)"

lemma steady_refl: "co_wf co \<Longrightarrow> steady co co"
  by (simp add: steady_def)

lemma steady_trans: "steady co co1 \<Longrightarrow> steady co1 co2 \<Longrightarrow> steady co co2"
  by (simp add: steady_def)

lemma CommentInfo_setComment_ok:
  assumes "hd t = CHR ''/''" "t \<noteq> []"
  shows "CommentInfo_setComment t = Inr (c_str t)"
  using assms by (cases t) (auto simp: CommentInfo_setComment_def c_str_def)

lemma set_comment_at_steady:
  assumes "co_wf co" "co_at co p \<noteq> None" "hd t = CHR ''/''" "t \<noteq> []"
  shows "\<exists>co'. set_comment_at p t placement co = Inr co' \<and> steady co co' \<and> co_before co' = co_before co"
proof -
  obtain cs where cs: "co_at co p = Some cs" using assms(2) by blast
  let ?co = "co\<lparr>co_at := (co_at co)(p \<mapsto> cs(placement \<mapsto> c_str t))\<rparr>"
  have "co_at ?co q = None \<longleftrightarrow> co_at co q = None" for q using cs by simp
  then have "steady co ?co" using assms(1) by (simp add: steady_def co_wf_def)
  then show ?thesis using cs CommentInfo_setComment_ok [OF assms(3,4)] by (simp add: set_comment_at_def)
qed

lemma addComment_steady:
  assumes "co_wf co" "placement = commentAfterOnSameLine \<longrightarrow> co_last co \<noteq> None" "hd t = CHR ''/''" "t \<noteq> []"
  shows "\<exists>co'. addComment t placement co = Inr co' \<and> steady co co'"
proof (cases "placement = commentAfterOnSameLine")
  case True
  then obtain p where p: "co_last co = Some p" using assms(2) by auto
  then have "co_at co p \<noteq> None" using assms(1) by (auto simp: co_wf_def)
  then show ?thesis using set_comment_at_steady [OF assms(1) _ assms(3,4)] True p by (fastforce simp: addComment_def)
next
  case False
  then show ?thesis using assms by (auto simp: addComment_def steady_def co_wf_def)
qed

lemma comment_text:
  assumes "readToken s = (t, s')" "tk_type t = tokenComment"
  shows "hd (text_between (tk_start t) (tk_end t)) = CHR ''/'' \<and> text_between (tk_start t) (tk_end t) \<noteq> []"
proof (cases "skipSpaces s")
  case Nil
  then show ?thesis using assms by (auto simp: readToken_def scan_token_def is_digit_def)
next
  case (Cons c s1)
  have t: "tk_start t = c # s1" "tk_end t = snd (snd (scan_token c s1))" "tk_type t = (if fst (snd (scan_token c s1)) then fst (scan_token c s1) else tokenError)"
    using assms(1) Cons by (auto simp: readToken_def Let_def split: prod.splits)
  have "c = CHR ''/''" using t(3) assms(2) by (auto simp: scan_token_def split: if_splits)
  moreover have "length (tk_end t) \<le> length s1" unfolding t(2) by (rule scan_token_shorter)
  ultimately show ?thesis using t(1) by (simp add: text_between_def Suc_diff_le)
qed

lemma collect_comment_steady:
  assumes "co_wf co" "readToken s = (t, s')"
  shows "\<exists>co'. collect_comment t co = Inr co' \<and> steady co co'"
proof (cases "tk_type t = tokenComment \<and> co_on co")
  case True
  have "comment_placement b e co = commentAfterOnSameLine \<longrightarrow> co_last co \<noteq> None" for b e
    using assms(1) by (auto simp: comment_placement_def co_wf_def split: option.split)
  then show ?thesis
    using addComment_steady [OF assms(1)] comment_text [OF assms(2)] True by (simp add: collect_comment_def)
next
  case False
  then have "collect_comment t co = Inr co" by (auto simp: collect_comment_def)
  then show ?thesis using steady_refl [OF assms(1)] by simp
qed

lemma steady_wf: "steady co co' \<Longrightarrow> co_wf co'"
  by (simp add: steady_def)

lemma readToken_collect_steady:
  assumes "co_wf co" "readToken s = (t, s')"
  shows "\<exists>co'. readToken_collect s co = Inr (t, s', co') \<and> steady co co'"
  using collect_comment_steady [OF assms] assms(2) by (auto simp: readToken_collect_def)

lemma next_token_collect_steady:
  "co_wf co \<Longrightarrow> next_token s = (t, s') \<Longrightarrow> \<exists>co'. next_token_collect s co = Inr (t, s', co') \<and> steady co co'"
proof (induction s arbitrary: co rule: next_token.induct)
  case (1 s)
  obtain u s1 where u: "readToken s = (u, s1)" by (cases "readToken s")
  obtain co1 where c: "collect_comment u co = Inr co1" "steady co co1" using collect_comment_steady [OF "1.prems"(1) u] by blast
  show ?case
  proof (cases "tk_type u = tokenComment")
    case True
    then have "next_token s1 = (t, s')" using "1.prems"(2) by (subst (asm) next_token.simps) (simp add: u)
    from "1.IH" [OF u [symmetric] refl True steady_wf [OF c(2)] this] obtain co' where
      "next_token_collect s1 co1 = Inr (t, s', co')" "steady co1 co'" by blast
    then show ?thesis using c True steady_trans [OF c(2)] by (subst next_token_collect.simps) (simp add: u)
  next
    case False
    then have "u = t" "s1 = s'" using "1.prems"(2) by (auto simp: u next_token.simps [of s])
    then show ?thesis using c False by (subst next_token_collect.simps) (simp add: u)
  qed
qed

lemma skip_until_collect_steady:
  "co_wf co \<Longrightarrow> \<exists>co'. skip_until_collect ty s co = Inr (skip_until ty s, co') \<and> steady co co'"
proof (induction ty s arbitrary: co rule: skip_until.induct)
  case (1 ty s)
  obtain u s1 where u: "readToken s = (u, s1)" by (cases "readToken s")
  obtain co1 where c: "collect_comment u co = Inr co1" "steady co co1" using collect_comment_steady [OF "1.prems" u] by blast
  show ?case
  proof (cases "tk_type u = ty \<or> tk_type u = tokenEndOfStream")
    case True
    then show ?thesis using c by (subst skip_until_collect.simps, subst skip_until.simps) (simp add: u)
  next
    case False
    from "1.IH" [OF u [symmetric] refl False steady_wf [OF c(2)]] obtain co' where
      "skip_until_collect ty s1 co1 = Inr (skip_until ty s1, co')" "steady co1 co'" by blast
    then show ?thesis using c False steady_trans [OF c(2)] by (subst skip_until_collect.simps, subst skip_until.simps) (simp add: u)
  qed
qed

lemma skipCommentTokens_collect_steady:
  "co_wf co \<Longrightarrow> skipCommentTokens ft s = (t, s') \<Longrightarrow> \<exists>co'. skipCommentTokens_collect ft s co = Inr (t, s', co') \<and> steady co co'"
  using next_token_collect_steady readToken_collect_steady by (auto simp: skipCommentTokens_def skipCommentTokens_collect_def split: if_splits)

lemma recoverFromError_collect_steady:
  "co_wf co \<Longrightarrow> \<exists>co'. recoverFromError_collect ty r co = Inr (recoverFromError ty r, co') \<and> steady co co'"
  using skip_until_collect_steady [of co ty "rd_current r"] by (auto simp: recoverFromError_collect_def recoverFromError_def)

lemma addErrorAndRecover_collect_steady:
  "co_wf co \<Longrightarrow> \<exists>co'. addErrorAndRecover_collect msg t ty r co = Inr (addErrorAndRecover msg t ty r, co') \<and> steady co co'"
  using recoverFromError_collect_steady [of co ty "addError msg t None r"]
  by (simp add: addErrorAndRecover_collect_def addErrorAndRecover_def)

lemma comment_before_steady:
  assumes "co_wf co" "co_at co p \<noteq> None"
  shows "\<exists>co'. comment_before p co = Inr co' \<and> steady co co'"
proof (cases "co_on co \<and> co_before co \<noteq> []")
  case True
  then have "hd (co_before co) = CHR ''/''" using assms(1) by (simp add: co_wf_def)
  from set_comment_at_steady [OF assms this, of commentBefore] True obtain co1 where
    "set_comment_at p (co_before co) commentBefore co = Inr co1" "steady co co1" by blast
  then show ?thesis using True by (auto simp: comment_before_def steady_def co_wf_def)
next
  case False
  then show ?thesis using assms(1) by (auto simp: comment_before_def steady_refl)
qed

section \<open>The descent\<close>

text \<open>Where the value at \<open>p\<close> may be read, and where its elements may: \<open>lastValue_\<close> is not below the value that is about to be
  assigned to.\<close>

definition may_read :: "step list \<Rightarrow> Collector \<Rightarrow> bool" where
  "may_read p co \<longleftrightarrow> co_wf co \<and> co_at co p \<noteq> None \<and> (\<forall>q. co_last co = Some q \<longrightarrow> \<not> strict_prefix p q)"

definition may_fill :: "step list \<Rightarrow> Collector \<Rightarrow> bool" where
  "may_fill p co \<longleftrightarrow> co_wf co \<and> co_at co p \<noteq> None \<and> (\<forall>q x. co_last co = Some q \<longrightarrow> \<not> strict_prefix (p @ [x]) q)"

text \<open>What is alive outside of the value at \<open>p\<close> stays alive.\<close>

definition keeps_outside :: "step list \<Rightarrow> Collector \<Rightarrow> Collector \<Rightarrow> bool" where
  "keeps_outside p co co' \<longleftrightarrow> co_wf co' \<and> co_on co' = co_on co \<and> (\<forall>q. \<not> strict_prefix p q \<longrightarrow> co_at co q \<noteq> None \<longrightarrow> co_at co' q \<noteq> None)"

text \<open>The collecting reader \<open>y\<close> does what the reader \<open>x\<close> does, and its collector satisfies \<open>P\<close> then.\<close>

definition follows :: "(Collector \<Rightarrow> bool) \<Rightarrow> 'v rd \<Rightarrow> 'v crd \<Rightarrow> bool" where
  "follows P x y \<longleftrightarrow> (case x of Inl e \<Rightarrow> y = Inl (JsonFault e) | Inr (ok, v, r) \<Rightarrow> \<exists>co. y = Inr (ok, v, r, co) \<and> P co)"

lemma follows_Inr: "P co \<Longrightarrow> follows P (Inr (ok, v, r)) (Inr (ok, v, r, co))"
  by (simp add: follows_def)

lemma follows_mono: "follows P x y \<Longrightarrow> (\<And>co. P co \<Longrightarrow> Q co) \<Longrightarrow> follows Q x y"
  by (auto simp: follows_def split: sum.splits)

lemma follows_bind:
  assumes "follows P x y" "\<And>ok v r co. P co \<Longrightarrow> follows Q (f (ok, v, r)) (g (ok, v, r, co))"
  shows "follows Q (bindF x f) (json_bind y g)"
proof (cases x)
  case (Inl e)
  then show ?thesis using assms(1) by (simp add: follows_def)
next
  case (Inr z)
  obtain ok v r where z: "z = (ok, v, r)" by (cases z)
  then obtain co where "y = Inr (ok, v, r, co)" "P co" using assms(1) Inr by (auto simp: follows_def)
  then show ?thesis using assms(2) Inr z by simp
qed

text \<open>The states the value at \<open>p\<close> may leave behind: \<open>lastValue_\<close> is that value, or what it was.\<close>

definition value_read :: "step list \<Rightarrow> Collector \<Rightarrow> Collector \<Rightarrow> bool" where
  "value_read p co co' \<longleftrightarrow> keeps_outside p co co' \<and> (co_last co' = co_last co \<or> co_last co' = Some p)"

lemma steady_may_read: "may_read p co \<Longrightarrow> steady co co' \<Longrightarrow> may_read p co'"
  by (simp add: may_read_def steady_def)

lemma steady_may_fill: "may_fill p co \<Longrightarrow> steady co co' \<Longrightarrow> may_fill p co'"
  by (simp add: may_fill_def steady_def)

lemma steady_keeps: "keeps_outside p co co1 \<Longrightarrow> steady co1 co' \<Longrightarrow> keeps_outside p co co'"
  by (simp add: keeps_outside_def steady_def)

lemma steady_keeps_first: "steady co co1 \<Longrightarrow> keeps_outside p co1 co' \<Longrightarrow> keeps_outside p co co'"
  by (simp add: keeps_outside_def steady_def)

lemma keeps_trans: "keeps_outside p co co1 \<Longrightarrow> keeps_outside p co1 co' \<Longrightarrow> keeps_outside p co co'"
  by (simp add: keeps_outside_def)

lemma steady_outside: "steady co co' \<Longrightarrow> keeps_outside p co co'"
  by (simp add: keeps_outside_def steady_def)

lemma may_fill_wf: "may_fill p co \<Longrightarrow> co_wf co"
  by (simp add: may_fill_def)

lemma below_element: "strict_prefix (p @ [x]) q \<Longrightarrow> strict_prefix p q"
  by (auto simp: strict_prefix_def prefix_def)

lemma assign_at_ok:
  assumes "may_read p co"
  shows "may_fill p (assign_at p co)" "keeps_outside p co (assign_at p co)" "co_last (assign_at p co) = co_last co"
proof -
  show "co_last (assign_at p co) = co_last co" by (simp add: assign_at_def)
  have wf: "co_wf (assign_at p co)" using assms by (auto simp: assign_at_def may_read_def co_wf_def)
  then show "keeps_outside p co (assign_at p co)" by (auto simp: keeps_outside_def assign_at_def)
  have "\<not> strict_prefix (p @ [x]) q" if "co_last co = Some q" for q x
    using assms that below_element [of p x q] by (auto simp: may_read_def)
  then show "may_fill p (assign_at p co)" using wf assms by (auto simp: may_fill_def may_read_def assign_at_def)
qed

lemma resolve_at_ok:
  assumes "may_fill p co"
  shows "may_read (p @ [x]) (resolve_at (p @ [x]) co)" "keeps_outside p co (resolve_at (p @ [x]) co)"
    "co_last (resolve_at (p @ [x]) co) = co_last co"
  using assms by (auto simp: may_fill_def may_read_def keeps_outside_def resolve_at_def co_wf_def)

lemma value_read_fill:
  assumes "may_fill p co" "value_read (p @ [x]) (resolve_at (p @ [x]) co) co'"
  shows "may_fill p co'" "keeps_outside p co co'"
proof -
  note r = resolve_at_ok [OF assms(1), of x]
  have inner: "keeps_outside (p @ [x]) (resolve_at (p @ [x]) co) co'" using assms(2) by (simp add: value_read_def)
  have "keeps_outside p (resolve_at (p @ [x]) co) co'"
    using inner below_element [of p x] by (auto simp: keeps_outside_def)
  then show "keeps_outside p co co'" by (rule keeps_trans [OF r(2)])
  have "co_at co' p \<noteq> None" using \<open>keeps_outside p co co'\<close> assms(1) by (auto simp: keeps_outside_def may_fill_def)
  moreover have "\<not> strict_prefix (p @ [y]) q" if "co_last co' = Some q" for y q
  proof -
    have "co_last co = Some q \<or> q = p @ [x]" using assms(2) that r(3) by (auto simp: value_read_def)
    then show ?thesis using assms(1) by (auto simp: may_fill_def strict_prefix_def)
  qed
  ultimately show "may_fill p co'" using inner by (simp add: may_fill_def keeps_outside_def)
qed

lemma value_end_ok:
  assumes "may_read p co" "keeps_outside p co co'"
  shows "value_read p co (value_end p r co')"
proof -
  have "co_at co' p \<noteq> None" using assms by (auto simp: may_read_def keeps_outside_def)
  moreover have "\<not> co_on co' \<Longrightarrow> co_last co' = None \<and> co_last co = None"
    using assms by (auto simp: may_read_def keeps_outside_def co_wf_def)
  ultimately show ?thesis using assms(2) by (auto simp: value_read_def value_end_def keeps_outside_def co_wf_def)
qed

lemma value_body_follows:
  assumes obj: "\<And>r co. may_fill p co \<Longrightarrow> follows (keeps_outside p co) (object_loop [] [] r) (object_loop' [] [] r co)"
    and arr: "\<And>r co. may_fill p co \<Longrightarrow> follows (keeps_outside p co) (array_loop 0 [] r) (array_loop' 0 [] r co)"
    and co: "may_read p co"
  shows "follows (value_read p co) (value_body object_loop array_loop fl ft v r) (value_body_collect object_loop' array_loop' fl ft p v r co)"
proof -
  obtain t s where ts: "skipCommentTokens ft (rd_current r) = (t, s)" by (cases "skipCommentTokens ft (rd_current r)")
  have wf: "co_wf co" using co by (simp add: may_read_def)
  obtain co0 where co0: "skipCommentTokens_collect ft (rd_current r) co = Inr (t, s, co0)" "steady co co0"
    using skipCommentTokens_collect_steady [OF wf ts] by blast
  have "co_wf co0" "co_at co0 p \<noteq> None" using steady_may_read [OF co co0(2)] by (simp_all add: may_read_def)
  then obtain co1 where co1: "comment_before p co0 = Inr co1" "steady co0 co1" using comment_before_steady by blast
  have step: "steady co co1" using co0(2) co1(2) by (rule steady_trans)
  have here: "may_read p co1" using co step by (rule steady_may_read)
  note assigned = assign_at_ok [OF here]
  have outside: "keeps_outside p co (assign_at p co1)" using step assigned(2) by (rule steady_keeps_first)
  have finish: "value_read p co (value_end p r' (assign_at p co1))" for r' using co outside by (rule value_end_ok)
  have failed: "value_read p co (value_end p r' co1)" for r' using co steady_outside [OF step] by (rule value_end_ok)
  have given_up: "value_read p co co1" using step by (simp add: value_read_def steady_outside steady_def)
  have fill: "value_read p co (value_end p r' co2)" if "keeps_outside p (assign_at p co1) co2" for r' co2
    using co keeps_trans [OF outside that] by (rule value_end_ok)
  note unfold = value_body_def value_body_collect_def ts co0(1) co1(1)
  let ?r = "r\<lparr>rd_current := s\<rparr>"
  show ?thesis
  proof (cases "tk_type t")
    case tokenObjectBegin
    have "follows (value_read p co) (bindF (object_loop [] [] ?r) (\<lambda>(ok, m, r2). Inr (ok, objectValue m, r2)))
       (json_bind (object_loop' [] [] ?r (assign_at p co1)) (\<lambda>(ok, m, r2, co2). Inr (ok, objectValue m, r2, value_end p r2 co2)))"
      by (rule follows_bind [OF obj [OF assigned(1)]]) (simp add: follows_Inr fill)
    then show ?thesis by (simp add: unfold tokenObjectBegin Let_def)
  next
    case tokenArrayBegin
    have "follows (value_read p co) (bindF (array_loop 0 [] (r\<lparr>rd_current := skipSpaces s\<rparr>)) (\<lambda>(ok, m, r2). Inr (ok, arrayValue m, r2)))
       (json_bind (array_loop' 0 [] (r\<lparr>rd_current := skipSpaces s\<rparr>) (assign_at p co1))
         (\<lambda>(ok, m, r2, co2). Inr (ok, arrayValue m, r2, value_end p r2 co2)))"
      by (rule follows_bind [OF arr [OF assigned(1)]]) (simp add: follows_Inr fill)
    then show ?thesis by (simp add: unfold tokenArrayBegin Let_def follows_Inr finish)
  next
    case tokenNumber
    then show ?thesis
      using decodeNumber_cases [of fl t]
      by (auto simp: unfold Let_def json_fault_def follows_def finish failed split: sum.split)
  next
    case tokenString
    then show ?thesis by (auto simp: unfold Let_def follows_Inr finish failed split: sum.split)
  qed (simp_all add: unfold Let_def follows_Inr finish given_up)
qed

lemma after_member_follows:
  assumes obj: "\<And>r co. may_fill p co \<Longrightarrow> follows (keeps_outside p co) (object_loop name m r) (object_loop' name m r co)"
    and co: "may_fill p co"
  shows "follows (keeps_outside p co) (after_member object_loop name m r) (after_member_collect object_loop' name m r co)"
proof -
  obtain c s where cs: "readToken (rd_current r) = (c, s)" by (cases "readToken (rd_current r)")
  obtain c1 s1 where cs1: "next_token s = (c1, s1)" by (cases "next_token s")
  obtain co1 where co1: "readToken_collect (rd_current r) co = Inr (c, s, co1)" "steady co co1"
    using readToken_collect_steady [OF may_fill_wf [OF co] cs] by blast
  obtain co2 where co2: "next_token_collect s co1 = Inr (c1, s1, co2)" "steady co1 co2"
    using next_token_collect_steady [OF steady_wf [OF co1(2)] cs1] by blast
  obtain co3 where co3: "addErrorAndRecover_collect missing_comma c tokenObjectEnd (r\<lparr>rd_current := s\<rparr>) co1 =
      Inr (addErrorAndRecover missing_comma c tokenObjectEnd (r\<lparr>rd_current := s\<rparr>), co3)" "steady co1 co3"
    using addErrorAndRecover_collect_steady [OF steady_wf [OF co1(2)]] by blast
  note steps = co1(2) steady_trans [OF co1(2) co2(2)] steady_trans [OF co1(2) co3(2)]
  have go_on: "follows (keeps_outside p co) (object_loop name m r') (object_loop' name m r' co')" if "steady co co'" for r' co'
    by (rule follows_mono [OF obj [OF steady_may_fill [OF co that]]]) (rule steady_keeps_first [OF that])
  show ?thesis
    by (simp add: after_member_def after_member_collect_def cs cs1 co1(1) co2(1) co3(1) Let_def follows_Inr
        steady_outside [OF steps(1)] steady_outside [OF steps(2)] steady_outside [OF steps(3)] go_on [OF steps(1)] go_on [OF steps(2)])
qed

text \<open>Giving up: an error and the way to the token that ends the value.\<close>

lemma recover_follows:
  assumes "may_fill p co0" "keeps_outside p co co0"
  shows "follows (keeps_outside p co) (Inr (False, m, recoverFromError ty r))
     (json_bind (recoverFromError_collect ty r co0) (\<lambda>(r2, co2). Inr (False, m, r2, co2)))"
proof -
  obtain co1 where "recoverFromError_collect ty r co0 = Inr (recoverFromError ty r, co1)" "steady co0 co1"
    using recoverFromError_collect_steady [OF may_fill_wf [OF assms(1)]] by blast
  then show ?thesis using steady_keeps [OF assms(2)] by (simp add: follows_Inr)
qed

lemma error_recover_follows:
  assumes "may_fill p co0" "keeps_outside p co co0"
  shows "follows (keeps_outside p co) (Inr (False, m, addErrorAndRecover msg t ty r))
     (json_bind (addErrorAndRecover_collect msg t ty r co0) (\<lambda>(r2, co2). Inr (False, m, r2, co2)))"
  using recover_follows [OF assms, of m ty "addError msg t None r"]
  by (simp add: addErrorAndRecover_def addErrorAndRecover_collect_def)

lemma object_body_follows:
  assumes val: "\<And>q v r co. may_read q co \<Longrightarrow> follows (value_read q co) (read_value v r) (read_value' q v r co)"
    and obj: "\<And>name m r co. may_fill p co \<Longrightarrow> follows (keeps_outside p co) (object_loop name m r) (object_loop' name m r co)"
    and co: "may_fill p co"
  shows "follows (keeps_outside p co) (object_body read_value object_loop name m r) (object_body_collect read_value' object_loop' p name m r co)"
proof -
  obtain t s where ts: "next_token (rd_current r) = (t, s)" by (cases "next_token (rd_current r)")
  obtain c s2 where cs: "readToken s = (c, s2)" by (cases "readToken s")
  obtain co1 where co1: "next_token_collect (rd_current r) co = Inr (t, s, co1)" "steady co co1"
    using next_token_collect_steady [OF may_fill_wf [OF co] ts] by blast
  obtain co2 where co2: "readToken_collect s co1 = Inr (c, s2, co2)" "steady co1 co2"
    using readToken_collect_steady [OF steady_wf [OF co1(2)] cs] by blast
  note fill1 = steady_may_fill [OF co co1(2)] and out1 = steady_outside [OF co1(2), of p]
  note step2 = steady_trans [OF co1(2) co2(2)]
  note fill2 = steady_may_fill [OF co step2] and out2 = steady_outside [OF step2, of p]
  note unfold = object_body_def object_body_collect_def ts co1(1)
  have member: "follows (keeps_outside p co)
      (bindF (read_value (om_at nullValue m k) r2) (\<lambda>(ok, v, r3). let m1 = om_upd k v m in
         if ok then after_member object_loop name1 m1 r3 else Inr (False, m1, recoverFromError tokenObjectEnd r3)))
      (json_bind (read_value' (p @ [NameStep k]) (om_at nullValue m k) r2 (resolve_at (p @ [NameStep k]) co2)) (\<lambda>(ok, v, r3, co3).
         let m1 = om_upd k v m in
         if ok then after_member_collect object_loop' name1 m1 r3 co3
         else json_bind (recoverFromError_collect tokenObjectEnd r3 co3) (\<lambda>(r2, co2). Inr (False, m1, r2, co2))))" for k name1 r2
  proof (rule follows_bind [OF val [OF resolve_at_ok(1) [OF fill2]]])
    fix ok v r3 co3
    assume read: "value_read (p @ [NameStep k]) (resolve_at (p @ [NameStep k]) co2) co3"
    note fill3 = value_read_fill(1) [OF fill2 read]
    have out3: "keeps_outside p co co3" by (rule keeps_trans [OF out2 value_read_fill(2) [OF fill2 read]])
    have "follows (keeps_outside p co) (after_member object_loop name1 m1 r3) (after_member_collect object_loop' name1 m1 r3 co3)" for m1
      by (rule follows_mono [OF after_member_follows [OF obj fill3]]) (auto intro: keeps_trans [OF out3])
    then show "follows (keeps_outside p co)
       (case (ok, v, r3) of (ok, v, r3) \<Rightarrow> let m1 = om_upd k v m in
         if ok then after_member object_loop name1 m1 r3 else Inr (False, m1, recoverFromError tokenObjectEnd r3))
       (case (ok, v, r3, co3) of (ok, v, r3, co3) \<Rightarrow> let m1 = om_upd k v m in
         if ok then after_member_collect object_loop' name1 m1 r3 co3
         else json_bind (recoverFromError_collect tokenObjectEnd r3 co3) (\<lambda>(r2, co2). Inr (False, m1, r2, co2)))"
      by (cases ok) (simp_all add: Let_def recover_follows [OF fill3 out3])
  qed
  show ?thesis
  proof (cases "tk_type t = tokenString")
    case False
    then show ?thesis by (auto simp: unfold Let_def follows_Inr out1 error_recover_follows [OF fill1 out1])
  next
    case True
    then show ?thesis
      by (auto simp: unfold cs co2(1) Let_def recover_follows [OF fill1 out1] error_recover_follows [OF fill2 out2]
          member [unfolded Let_def] split: sum.split)
  qed
qed

lemma array_body_follows:
  assumes val: "\<And>q v r co. may_read q co \<Longrightarrow> follows (value_read q co) (read_value v r) (read_value' q v r co)"
    and arr: "\<And>i m r co. may_fill p co \<Longrightarrow> follows (keeps_outside p co) (array_loop i m r) (array_loop' i m r co)"
    and co: "may_fill p co"
  shows "follows (keeps_outside p co) (array_body read_value array_loop index m r) (array_body_collect read_value' array_loop' p index m r co)"
  unfolding array_body_def array_body_collect_def Let_def
proof (rule follows_bind [OF val [OF resolve_at_ok(1) [OF co]]])
  fix ok v and r1 :: Reader and co1
  assume read: "value_read (p @ [IndexStep index]) (resolve_at (p @ [IndexStep index]) co) co1"
  note fill = value_read_fill(1) [OF co read] and out = value_read_fill(2) [OF co read]
  obtain t s where ts: "next_token (rd_current r1) = (t, s)" by (cases "next_token (rd_current r1)")
  obtain co2 where co2: "next_token_collect (rd_current r1) co1 = Inr (t, s, co2)" "steady co1 co2"
    using next_token_collect_steady [OF may_fill_wf [OF fill] ts] by blast
  note out2 = steady_keeps [OF out co2(2)]
  have "follows (keeps_outside p co) (array_loop i m' r') (array_loop' i m' r' co2)" for i m' r'
    by (rule follows_mono [OF arr [OF steady_may_fill [OF fill co2(2)]]]) (rule keeps_trans [OF out2])
  then show "follows (keeps_outside p co)
     (case (ok, v, r1) of (ok, v, r1) \<Rightarrow>
       if \<not> ok then Inr (False, om_upd index v m, recoverFromError tokenArrayEnd r1)
       else case next_token (rd_current r1) of (token, s) \<Rightarrow>
         if tk_type token = tokenArrayEnd then Inr (True, om_upd index v m, r1\<lparr>rd_current := s\<rparr>)
         else array_loop (index + 1) (om_upd index v m) (r1\<lparr>rd_current := s\<rparr>))
     (case (ok, v, r1, co1) of (ok, v, r1, co1) \<Rightarrow>
       if \<not> ok then json_bind (recoverFromError_collect tokenArrayEnd r1 co1) (\<lambda>(r2, co2). Inr (False, om_upd index v m, r2, co2))
       else json_bind (next_token_collect (rd_current r1) co1) (\<lambda>(token, s, co2).
         if tk_type token = tokenArrayEnd then Inr (True, om_upd index v m, r1\<lparr>rd_current := s\<rparr>, co2)
         else array_loop' (index + 1) (om_upd index v m) (r1\<lparr>rd_current := s\<rparr>) co2))"
    by (cases ok) (simp_all add: ts co2(1) follows_Inr out2 recover_follows [OF fill out])
qed

lemma reader_follows:
  "may_read p co \<Longrightarrow> follows (value_read p co) (readValue n fl ft v r) (readValue_collect n fl ft p v r co)"
  "may_fill p co \<Longrightarrow> follows (keeps_outside p co) (readObject n fl ft name m r) (readObject_collect n fl ft p name m r co)"
  "may_fill p co \<Longrightarrow> follows (keeps_outside p co) (readArray n fl ft index e r) (readArray_collect n fl ft p index e r co)"
proof (induction n arbitrary: p co r v name m index e)
  case 0
  {
    case 1
    show ?case by (simp add: readValue_collect.simps follows_def)
  next
    case 2
    show ?case by (simp add: readObject_collect.simps follows_def)
  next
    case 3
    show ?case by (simp add: readArray_collect.simps follows_def)
  }
next
  case (Suc n)
  {
    case 1
    show ?case unfolding readValue.simps reader_collect_Suc by (rule value_body_follows [OF Suc.IH(2) Suc.IH(3) 1])
  next
    case 2
    show ?case unfolding readObject.simps reader_collect_Suc by (rule object_body_follows [OF Suc.IH(1) Suc.IH(2) 2])
  next
    case 3
    show ?case unfolding readArray.simps reader_collect_Suc by (rule array_body_follows [OF Suc.IH(1) Suc.IH(3) 3])
  }
qed

lemma parse_end_follows:
  assumes "co_wf co" "co_at co [] \<noteq> None"
  shows "follows (\<lambda>co. True) (parse_end ft d (ok, root, r)) (parse_end_collect ft d (ok, root, r, co))"
proof -
  obtain t s where ts: "skipCommentTokens ft (rd_current r) = (t, s)" by (cases "skipCommentTokens ft (rd_current r)")
  obtain co1 where co1: "skipCommentTokens_collect ft (rd_current r) co = Inr (t, s, co1)" "steady co co1"
    using skipCommentTokens_collect_steady [OF assms(1) ts] by blast
  have "co_wf co1" "co_at co1 [] \<noteq> None" using assms(2) co1(2) by (simp_all add: steady_def)
  then have "co_before co1 \<noteq> [] \<Longrightarrow> \<exists>co2. set_comment_at [] (co_before co1) commentAfter co1 = Inr co2"
    using set_comment_at_steady [of co1 "[]" "co_before co1" commentAfter] by (auto simp: co_wf_def)
  then show ?thesis by (auto simp: parse_end_def parse_end_collect_def ts co1(1) Let_def follows_def)
qed

lemma parse_follows: "follows (\<lambda>co. True) (parse fl ft d root) (parse_collect fl ft d collectComments root cs)"
  unfolding parse_def parse_collect_def
proof (rule follows_bind)
  let ?co = "\<lparr>co_on = collectComments \<and> allowComments ft, co_before = [], co_lastEnd = None, co_last = None, co_at = [[] \<mapsto> cs]\<rparr>"
  have start: "may_read [] ?co" by (simp add: may_read_def co_wf_def)
  then show "follows (value_read [] ?co) (readValue (2 * length d + 1) fl ft root \<lparr>rd_current = d, rd_errors = []\<rparr>)
      (readValue_collect (2 * length d + 1) fl ft [] root \<lparr>rd_current = d, rd_errors = []\<rparr> ?co)"
    by (rule reader_follows)
  show "follows (\<lambda>co. True) (parse_end ft d (ok, v, r)) (parse_end_collect ft d (ok, v, r, co))"
    if "value_read [] ?co co" for ok v r co
    using that by (intro parse_end_follows) (auto simp: value_read_def keeps_outside_def)
qed

text \<open>C26: whether comments are collected or not, the reader reads the same value, records the same errors and stops at the
  same place; collecting them never follows a pointer to a value that is gone, nor violates an assertion about comments.\<close>

theorem collecting_reader:
  "map_sum id (\<lambda>(ok, v, r, co). (ok, v, r)) (parse_collect fl ft d collectComments root cs) = json_fault (parse fl ft d root)"
  using parse_follows [of fl ft d root collectComments cs]
  by (auto simp: follows_def json_fault_def split: sum.splits)

text \<open>Of two comments behind a value on its line only the second is kept, and a comment alone between brackets is an error.\<close>

lemma second_comment_wins:
  "map_sum id (\<lambda>(ok, v, r, co). (ok, map_option (\<lambda>cs. cs commentAfterOnSameLine) (co_at co [IndexStep 0])))
     (parse_collect zero_or_not Features_all ''[1 /*a*/ /*b*/]'' True nullValue (\<lambda>p. None)) = Inr (True, Some (Some ''/*b*/''))"
  by code_simp

lemma comment_in_empty_array:
  "map_sum id (\<lambda>(ok, v, r). ok) (parse zero_or_not Features_all ''[/**/]'' nullValue) = Inr False"
  by code_simp

end
