(* ===== verification/Json_Comment_Writer.thy ===== *)
theory Json_Comment_Writer
  imports Json_Comments Json_Properties
begin

text \<open>
  The indenting writers of \<open>src/Tool/lib_json/json_writer.cpp\<close> on values with comments, which \<open>Json_Writer\<close> leaves out. The
  comments of a value and of what is in it are a function of the path from the value, as the reader of \<open>Json_Comments\<close>
  leaves them. The two classes write comments alike, and \<open>sw_stream\<close> tells them apart. Without comments they are the
  writers of \<open>Json_Writer\<close>, and the comments in an array that goes on one line are lost.
\<close>

section \<open>The code\<close>

type_synonym commented = "step list \<Rightarrow> comments option"

definition own_comment :: "CommentPlacement \<Rightarrow> commented \<Rightarrow> string option" where
  "own_comment placement at = (case at [] of None \<Rightarrow> None | Some cs \<Rightarrow> cs placement)"

definition child_at :: "step \<Rightarrow> commented \<Rightarrow> commented" where
  "child_at x at = (\<lambda>q. at (x # q))"

function normalizeEOL :: "string \<Rightarrow> string" where
  "normalizeEOL [] = []"
| "normalizeEOL (c # s) =
     (if c = CHR 0x0D then CHR 0x0A # normalizeEOL (if peek_char s = CHR 0x0A then drop 1 s else s)
      else c # normalizeEOL s)"
  by pat_completeness auto

termination normalizeEOL
  by (relation "measure length") auto

definition writeCommentBeforeValue :: "commented \<Rightarrow> Styled \<Rightarrow> Styled" where
  "writeCommentBeforeValue at st =
     (case own_comment commentBefore at of
        None \<Rightarrow> st
      | Some t \<Rightarrow> write_text [CHR 0x0A] (write_text (normalizeEOL t) st))"

definition writeCommentAfterValueOnSameLine :: "commented \<Rightarrow> Styled \<Rightarrow> Styled" where
  "writeCommentAfterValueOnSameLine at st =
     (let st1 = (case own_comment commentAfterOnSameLine at of None \<Rightarrow> st | Some t \<Rightarrow> write_text ('' '' @ normalizeEOL t) st) in
      case own_comment commentAfter at of
        None \<Rightarrow> st1
      | Some t \<Rightarrow> write_text [CHR 0x0A] (write_text (normalizeEOL t) (write_text [CHR 0x0A] st1)))"

definition hasCommentForValue :: "commented \<Rightarrow> bool" where
  "hasCommentForValue at \<longleftrightarrow>
     own_comment commentBefore at \<noteq> None \<or> own_comment commentAfterOnSameLine at \<noteq> None \<or> own_comment commentAfter at \<noteq> None"

type_synonym 'd element = "commented \<times> 'd JsonValue"

definition commented_elements :: "commented \<Rightarrow> (int \<times> 'd JsonValue) list \<Rightarrow> 'd element list" where
  "commented_elements at m = map (\<lambda>i. (child_at (IndexStep i) at, om_at nullValue m i)) [0..json_size (arrayValue m) - 1]"

text \<open>The loop of \<open>isMultineArray\<close> over the elements of an array of scalars.\<close>

fun line_loop :: "('d element \<Rightarrow> Styled \<Rightarrow> Styled) \<Rightarrow> 'd element list \<Rightarrow> nat \<Rightarrow> bool \<Rightarrow> int \<Rightarrow> Styled \<Rightarrow> bool \<times> int \<times> Styled" where
  "line_loop write_value [] index isMultiLine lineLength st = (isMultiLine, lineLength, st)"
| "line_loop write_value (x # xs) index isMultiLine lineLength st =
     (if isMultiLine then (isMultiLine, lineLength, st)
      else let st1 = write_value x st in
           line_loop write_value xs (Suc index) (isMultiLine \<and> hasCommentForValue (fst x))
             (lineLength + (\<Sum>t\<leftarrow>take 1 (drop index (sw_children st1)). int (length t))) st1)"

definition commented_isMultineArray :: "('d element \<Rightarrow> Styled \<Rightarrow> Styled) \<Rightarrow> 'd element list \<Rightarrow> Styled \<Rightarrow> bool \<times> Styled" where
  "commented_isMultineArray write_value xs st =
     (let st0 = st\<lparr>sw_children := []\<rparr> in
      if int (length xs) * 3 \<ge> rightMargin \<or> (\<exists>x\<in>set xs. has_children (snd x)) then (True, st0)
      else let (isMultiLine, lineLength, st1) =
             line_loop write_value xs 0 False (4 + (int (length xs) - 1) * 2) (st0\<lparr>sw_add := True\<rparr>)
           in (isMultiLine \<or> lineLength \<ge> rightMargin, st1\<lparr>sw_add := False\<rparr>))"

text \<open>The lines of an array or object: each by what writes it, with the comments around it.\<close>

fun commented_lines :: "(commented \<times> (Styled \<Rightarrow> Styled)) list \<Rightarrow> Styled \<Rightarrow> Styled" where
  "commented_lines [] st = st"
| "commented_lines [(at, f)] st = writeCommentAfterValueOnSameLine at (f (writeCommentBeforeValue at st))"
| "commented_lines ((at, f) # g # fs) st =
     commented_lines (g # fs) (writeCommentAfterValueOnSameLine at (write_text '','' (f (writeCommentBeforeValue at st))))"

definition commented_writeArrayValue :: "('d element \<Rightarrow> Styled \<Rightarrow> Styled) \<Rightarrow> 'd element list \<Rightarrow> Styled \<Rightarrow> Styled" where
  "commented_writeArrayValue write_value xs st =
     (if xs = [] then pushValue ''[]'' st
      else
        let (multi, st1) = commented_isMultineArray write_value xs st in
        if multi then
          let st2 = sw_in (writeWithIndent ''['' st1);
              lines = (if sw_children st2 \<noteq> [] then map2 (\<lambda>x t. (fst x, writeWithIndent t)) xs (sw_children st2)
                       else map (\<lambda>x. (fst x, \<lambda>st. write_value x (writeIndent st))) xs)
          in writeWithIndent '']'' (sw_out (commented_lines lines st2))
        else write_text (''[ '' @ join_text '', '' (sw_children st1) @ '' ]'') st1)"

lemma line_loop_cong:
  assumes "\<And>x s. x \<in> set xs \<Longrightarrow> f x s = g x s"
  shows "line_loop f xs i b n st = line_loop g xs i b n st"
  using assms by (induction xs arbitrary: i b n st) (simp_all add: Let_def)

lemma commented_writeArrayValue_cong [fundef_cong]:
  assumes "xs = xs'" "st = st'" "\<And>x s. x \<in> set xs' \<Longrightarrow> f x s = g x s"
  shows "commented_writeArrayValue f xs st = commented_writeArrayValue g xs' st'"
proof -
  have "commented_isMultineArray f xs' st' = commented_isMultineArray g xs' st'"
    using assms(3) by (simp only: commented_isMultineArray_def line_loop_cong [of xs' f g])
  moreover have "map (\<lambda>x. (fst x, \<lambda>st. f x (writeIndent st))) xs' = map (\<lambda>x. (fst x, \<lambda>st. g x (writeIndent st))) xs'"
    using assms(3) by (intro map_cong) (auto simp: fun_eq_iff)
  ultimately show ?thesis unfolding assms(1,2) commented_writeArrayValue_def by (simp only:)
qed

function commented_value :: "'d floats \<Rightarrow> 'd element \<Rightarrow> Styled \<Rightarrow> Styled" where
  "commented_value fl (at, nullValue) st = pushValue ''null'' st"
| "commented_value fl (at, intValue n) st = pushValue (valueToString_Int n) st"
| "commented_value fl (at, uintValue n) st = pushValue (valueToString_UInt n) st"
| "commented_value fl (at, realValue d) st = pushValue (valueToString_double fl d) st"
| "commented_value fl (at, stringValue s) st = pushValue (valueToQuotedString s) st"
| "commented_value fl (at, booleanValue b) st = pushValue (valueToString_bool b) st"
| "commented_value fl (at, arrayValue m) st = commented_writeArrayValue (commented_value fl) (commented_elements at m) st"
| "commented_value fl (at, objectValue m) st =
     (if m = [] then pushValue [CHR 0x7B, CHR 0x7D] st
      else writeWithIndent [CHR 0x7D] (sw_out (commented_lines
             (map (\<lambda>e. (child_at (NameStep (fst e)) at, \<lambda>st. commented_value fl (child_at (NameStep (fst e)) at, snd e)
                     (write_text '' : '' (writeWithIndent (valueToQuotedString (fst e)) st)))) m)
             (sw_in (writeWithIndent [CHR 0x7B] st)))))"
  by pat_completeness auto

termination commented_value
proof (relation "measure (\<lambda>(fl, x, st). size (snd x))", goal_cases)
  case (2 fl at m st x s)
  then obtain i where "snd x = om_at nullValue m i" "m \<noteq> []" by (cases m) (auto simp: commented_elements_def)
  then show ?case using size_om_at [of m i] by simp
qed (auto intro: size_entry)

definition commented_write :: "'d floats \<Rightarrow> 'd element \<Rightarrow> Styled \<Rightarrow> string" where
  "commented_write fl x st =
     sw_document (writeCommentAfterValueOnSameLine (fst x) (commented_value fl x (writeCommentBeforeValue (fst x) st))) @ [CHR 0x0A]"

definition StyledWriter_write_comments :: "'d floats \<Rightarrow> 'd element \<Rightarrow> string" where
  "StyledWriter_write_comments fl x =
     commented_write fl x \<lparr>sw_document = [], sw_indent = [], sw_children = [], sw_add = False,
       sw_unit = replicate indentSize (CHR '' ''), sw_stream = False\<rparr>"

definition StyledStreamWriter_write_comments :: "'d floats \<Rightarrow> string \<Rightarrow> 'd element \<Rightarrow> string" where
  "StyledStreamWriter_write_comments fl indentation x =
     commented_write fl x \<lparr>sw_document = [], sw_indent = [], sw_children = [], sw_add = False, sw_unit = indentation, sw_stream = True\<rparr>"

section \<open>Comments and the writers without them\<close>

text \<open>A scalar, or an empty array or object, is one text whatever the comments.\<close>

lemma leaf_text:
  assumes "\<not> has_children v"
  shows "\<exists>t. \<forall>at st. commented_value fl (at, v) st = pushValue t st \<and> styled_value fl v st = pushValue t st"
proof (cases v)
  case (arrayValue m)
  then have "array_elements m = []" "\<And>at. commented_elements at m = []"
    using assms by (auto simp: has_children_def array_elements_def commented_elements_def isArray_def)
  then show ?thesis using arrayValue by (auto simp: writeArrayValue_def commented_writeArrayValue_def)
next
  case (objectValue m)
  then have "m = []" using assms by (cases m) (auto simp: has_children_def isObject_def)
  then show ?thesis using objectValue by auto
qed auto

lemma line_loop_leaves:
  assumes "\<And>x. x \<in> set xs \<Longrightarrow> \<not> has_children (snd x)" "sw_add st" "length (sw_children st) = i"
  shows "\<exists>ts. length ts = length xs \<and> fold (styled_value fl) (map snd xs) st = st\<lparr>sw_children := sw_children st @ ts\<rparr> \<and>
     line_loop (commented_value fl) xs i False n st =
       (False, n + (\<Sum>t\<leftarrow>ts. int (length t)), st\<lparr>sw_children := sw_children st @ ts\<rparr>)"
  using assms
proof (induction xs arbitrary: st i n)
  case (Cons x xs)
  obtain at v where x: "x = (at, v)" by (cases x)
  have "\<not> has_children v" using Cons.prems(1) [of x] x by simp
  then obtain t where t: "\<And>at st. commented_value fl (at, v) st = pushValue t st" "\<And>st. styled_value fl v st = pushValue t st"
    using leaf_text by blast
  let ?st = "st\<lparr>sw_children := sw_children st @ [t]\<rparr>"
  have push: "pushValue t st = ?st" using Cons.prems(2) by (simp add: pushValue_def)
  from Cons.IH [of ?st "Suc i" "n + int (length t)"] Cons.prems obtain ts where
    "length ts = length xs" "fold (styled_value fl) (map snd xs) ?st = ?st\<lparr>sw_children := sw_children ?st @ ts\<rparr>"
    "line_loop (commented_value fl) xs (Suc i) False (n + int (length t)) ?st =
       (False, n + int (length t) + (\<Sum>t\<leftarrow>ts. int (length t)), ?st\<lparr>sw_children := sw_children ?st @ ts\<rparr>)"
    by auto
  then show ?case using x t push Cons.prems(3) by (intro exI [of _ "t # ts"]) (simp add: Let_def)
qed auto

text \<open>So the comments have no say in whether an array goes on several lines, nor do they show when it goes on one.\<close>

lemma commented_isMultineArray_same:
  "commented_isMultineArray (commented_value fl) xs st = isMultineArray (styled_value fl) (map snd xs) st"
  "length (sw_children (snd (commented_isMultineArray (commented_value fl) xs st))) \<in> {0, length xs}"
proof -
  let ?same = "commented_isMultineArray (commented_value fl) xs st = isMultineArray (styled_value fl) (map snd xs) st \<and>
    length (sw_children (snd (commented_isMultineArray (commented_value fl) xs st))) \<in> {0, length xs}"
  have ?same
  proof (cases "int (length xs) * 3 \<ge> rightMargin \<or> (\<exists>x\<in>set xs. has_children (snd x))")
    case True
    then show ?thesis by (auto simp: commented_isMultineArray_def isMultineArray_def)
  next
    case False
    let ?st = "st\<lparr>sw_children := [], sw_add := True\<rparr>" and ?n = "4 + (int (length xs) - 1) * 2"
    obtain ts where "length ts = length xs" "fold (styled_value fl) (map snd xs) ?st = ?st\<lparr>sw_children := sw_children ?st @ ts\<rparr>"
      "line_loop (commented_value fl) xs 0 False ?n ?st =
         (False, ?n + (\<Sum>t\<leftarrow>ts. int (length t)), ?st\<lparr>sw_children := sw_children ?st @ ts\<rparr>)"
      using line_loop_leaves [of xs ?st 0 fl ?n] False by fastforce
    then show ?thesis using False by (simp add: commented_isMultineArray_def isMultineArray_def collect_def Let_def)
  qed
  then show "commented_isMultineArray (commented_value fl) xs st = isMultineArray (styled_value fl) (map snd xs) st"
    "length (sw_children (snd (commented_isMultineArray (commented_value fl) xs st))) \<in> {0, length xs}"
    by (rule conjunct1, rule conjunct2)
qed

lemma commented_elements_snd [simp]: "map snd (commented_elements at m) = array_elements m"
  by (simp add: commented_elements_def array_elements_def comp_def)

text \<open>No comments anywhere.\<close>

definition no_comments :: "commented \<Rightarrow> bool" where
  "no_comments at \<longleftrightarrow> (\<forall>q cs. at q = Some cs \<longrightarrow> (\<forall>placement. cs placement = None))"

lemma no_comments_child: "no_comments at \<Longrightarrow> no_comments (child_at x at)"
  by (simp add: no_comments_def child_at_def)

lemma no_comments_own [simp]: "no_comments at \<Longrightarrow> own_comment placement at = None"
  by (auto simp: no_comments_def own_comment_def split: option.split)

lemma no_comments_write [simp]:
  assumes "no_comments at"
  shows "writeCommentBeforeValue at st = st" "writeCommentAfterValueOnSameLine at st = st"
  using assms by (simp_all add: writeCommentBeforeValue_def writeCommentAfterValueOnSameLine_def)

lemma commented_lines_plain: "(\<And>l. l \<in> set ls \<Longrightarrow> no_comments (fst l)) \<Longrightarrow> commented_lines ls st = write_lines (map snd ls) st"
proof (induction ls st rule: commented_lines.induct)
  case (3 at f g fs st)
  have "no_comments at" using "3.prems" [of "(at, f)"] by simp
  then show ?case using 3 by simp
qed simp_all

lemma children_kept: "sw_children (sw_in (writeWithIndent t st)) = sw_children st"
  by (simp add: sw_in_def writeWithIndent_def writeIndent_def Let_def)

lemma commented_array_plain:
  assumes "\<And>x. x \<in> set xs \<Longrightarrow> no_comments (fst x)"
    and "\<And>x st. x \<in> set xs \<Longrightarrow> commented_value fl x st = styled_value fl (snd x) st"
  shows "commented_writeArrayValue (commented_value fl) xs st = writeArrayValue (styled_value fl) (map snd xs) st"
proof -
  let ?ls = "map (\<lambda>x. (fst x, \<lambda>st. commented_value fl x (writeIndent st))) xs"
  have "map snd ?ls = map (\<lambda>v st. styled_value fl v (writeIndent st)) (map snd xs)" using assms(2) by auto
  moreover have "commented_lines ?ls st = write_lines (map snd ?ls) st" for st
    using assms(1) by (intro commented_lines_plain) auto
  ultimately have lines: "commented_lines ?ls st = write_lines (map (\<lambda>v st. styled_value fl v (writeIndent st)) (map snd xs)) st" for st
    by (simp only:)
  have texts: "commented_lines (map2 (\<lambda>x t. (fst x, writeWithIndent t)) xs ts) st = write_lines (map writeWithIndent ts) st"
    if "length ts = length xs" for ts st
  proof -
    have "map snd (map2 (\<lambda>x t. (fst x, writeWithIndent t)) xs ts) = map (writeWithIndent \<circ> snd) (zip xs ts)" by auto
    also have "\<dots> = map writeWithIndent ts" using that by (simp only: map_map [symmetric] map_snd_zip)
    finally show ?thesis using assms(1) by (subst commented_lines_plain) (auto dest: set_zip_leftD)
  qed
  obtain multi st1 where split: "isMultineArray (styled_value fl) (map snd xs) st = (multi, st1)"
    by (cases "isMultineArray (styled_value fl) (map snd xs) st")
  then have "commented_isMultineArray (commented_value fl) xs st = (multi, st1)" "length (sw_children st1) \<in> {0, length xs}"
    using commented_isMultineArray_same [of fl xs st] by simp_all
  then show ?thesis
    by (cases multi; cases "sw_children st1 = []")
      (simp_all add: commented_writeArrayValue_def writeArrayValue_def split lines [unfolded map_map] texts Let_def children_kept)
qed

lemma uncommented_value:
  "no_comments at \<Longrightarrow> commented_value fl (at, v) st = styled_value fl v st"
proof (induction v arbitrary: at st)
  case (arrayValue m)
  have "no_comments (fst x)" "commented_value fl x st = styled_value fl (snd x) st" if x: "x \<in> set (commented_elements at m)" for x st
  proof -
    obtain i where i: "x = (child_at (IndexStep i) at, om_at nullValue m i)" using x by (auto simp: commented_elements_def)
    then show plain: "no_comments (fst x)" using no_comments_child [OF arrayValue.prems] by simp
    show "commented_value fl x st = styled_value fl (snd x) st"
    proof (cases "map_of m i")
      case None
      then show ?thesis using i by (simp add: om_at_def)
    next
      case (Some w)
      then have "(i, w) \<in> set m" by (rule map_of_SomeD)
      then show ?thesis using arrayValue.IH [of "(i, w)" w] i Some plain by (simp add: om_at_def)
    qed
  qed
  then show ?case using commented_array_plain [of "commented_elements at m" fl st] by simp
next
  case (objectValue m)
  have "no_comments (child_at x at)" for x using objectValue.prems by (rule no_comments_child)
  note plain = this
  let ?f = "\<lambda>e. write_text '' : '' \<circ> writeWithIndent (valueToQuotedString (fst e))"
  let ?lines = "map (\<lambda>e. (child_at (NameStep (fst e)) at, \<lambda>st. commented_value fl (child_at (NameStep (fst e)) at, snd e) (?f e st))) m"
  have "map snd ?lines = map (\<lambda>e st. styled_value fl (snd e) (?f e st)) m"
    using objectValue.IH plain by (auto simp: snds.simps)
  moreover have "commented_lines ?lines st = write_lines (map snd ?lines) st" for st
    using plain by (intro commented_lines_plain) auto
  ultimately have "commented_lines ?lines st = write_lines (map (\<lambda>e st. styled_value fl (snd e) (?f e st)) m) st" for st
    by (simp only:)
  then show ?case by simp
qed simp_all

text \<open>Without comments the text is what the writer of \<open>Json_Writer\<close> puts out.\<close>

lemma uncommented_write: "no_comments at \<Longrightarrow> StyledWriter_write_comments fl (at, v) = StyledWriter_write fl v"
  by (simp only: StyledWriter_write_comments_def commented_write_def StyledWriter_write_def uncommented_value fst_conv no_comments_write)

text \<open>An array of scalars that goes on one line is written without the comments of its elements, whatever they are: the
  loop of \<open>isMultineArray\<close> that is meant to put such an array on several lines never finds a comment. Only the comments of
  the array itself are left.\<close>

theorem short_array_loses_comments:
  assumes "\<not> fst (isMultineArray (styled_value fl) (array_elements m)
       \<lparr>sw_document = [], sw_indent = [], sw_children = [], sw_add = False, sw_unit = replicate indentSize (CHR '' ''), sw_stream = False\<rparr>)"
    and "own_comment commentBefore at = None" "own_comment commentAfterOnSameLine at = None" "own_comment commentAfter at = None"
  shows "StyledWriter_write_comments fl (at, arrayValue m) = StyledWriter_write fl (arrayValue m)"
proof -
  let ?st = "\<lparr>sw_document = [], sw_indent = [], sw_children = [], sw_add = False, sw_unit = replicate indentSize (CHR '' ''), sw_stream = False\<rparr>"
  obtain st1 where "isMultineArray (styled_value fl) (array_elements m) ?st = (False, st1)"
    using assms(1) by (cases "isMultineArray (styled_value fl) (array_elements m) ?st") auto
  moreover have "commented_elements at m = [] \<longleftrightarrow> array_elements m = []" by (simp add: commented_elements_def array_elements_def)
  ultimately have "commented_value fl (at, arrayValue m) ?st = styled_value fl (arrayValue m) ?st"
    by (simp add: commented_writeArrayValue_def writeArrayValue_def commented_isMultineArray_same(1))
  then show ?thesis
    using assms(2-4)
    by (simp add: StyledWriter_write_comments_def commented_write_def StyledWriter_write_def writeCommentBeforeValue_def
        writeCommentAfterValueOnSameLine_def)
qed

theorem short_array_loses_comments_witness:
  "StyledWriter_write_comments zero_or_not
     ((\<lambda>q. if q = [IndexStep 0] then Some [commentBefore \<mapsto> ''/* first */''] else None), arrayValue [(0, intValue 1), (1, intValue 2)]) =
   StyledWriter_write zero_or_not (arrayValue [(0, intValue 1), (1, intValue 2)])"
  by (rule short_array_loses_comments) code_simp+

end
