(* ===== verification/Spec2Isabelle.thy ===== *)
theory Spec2Isabelle
  imports Net_Properties Room_Properties Center_Properties Gate_Properties Run_Properties
    Relay_Properties Tool_Properties Send_Queue Local_Address Helpers Shutdown Json_Properties Json_Order Json_Styled Json_Path
    Json_Iter Json_Names Json_Make Json_Batch Json_Array_Properties Json_Map_Properties Json_Errors Json_Comments_Properties Json_Comment_Writer
begin

text \<open>
  A model of the Ancestral Property game server, a group of C++ processes that talk over TCP,
  and what is proved of it. Paths are relative to the repository's inner \<open>src\<close> directory.

  \<^bold>\<open>The program.\<close> Clients connect to a gate (\<open>Source/GateServer.cpp\<close>), which checks who speaks on
  which connection and passes requests on: logins and registrations to the database server
  (\<open>Source/DBServer.cpp\<close>), everything about rooms and games to a logic server
  (\<open>Source/LogicServer.cpp\<close>), whose rooms (\<open>Logic/Room.cpp\<close>) run frame-synchronised games. All of
  them register with the center server (\<open>Source/CenterServer.cpp\<close>), which assigns to a server that
  asks the least loaded one of the kind it wants. The four share two base classes:
  \<open>ServerBase\<close> (sockets, receive buffers, framing, sending, the epoll loop) and, except the center,
  \<open>FuncServer\<close> (registration, connecting to other servers). A packet is a head of 12 bytes and a
  protobuf body; the receiving side collects bytes in a ring buffer per connection and cuts the
  packets out. Closing a connection is virtual, and it sends messages, which can close further
  connections through the same method.

  \<^bold>\<open>Common ground.\<close>
  \<^item> \<open>Prelude\<close>: faults (what C++ leaves undefined, as values), sequencing of faulting operations,
    \<open>std::map<int, V>\<close> and \<open>std::set<int>\<close> as key-sorted lists, and the locales
    \<open>invariant_machine\<close> and \<open>total_machine\<close>, interpreted by the room, the logic server and the
    center server: an invariant that every step keeps holds in every reachable state, and a
    step that returns in every state of the invariant never faults.
  \<^item> \<open>Enums\<close> (\<open>Header/EnumHome.h\<close>), \<open>Proto\<close> (the four \<open>.proto\<close> files, one record per message with the
    proto3 defaults, and their sum \<open>proto_body\<close>), \<open>Config\<close> (the constants of \<open>Tool/ConstPool.cpp\<close> and
    what the network code and the rooms need of them), \<open>Config_Files\<close> (its readers, and the text of
    three of the shipped files under \<open>ini\<close>).
  \<^item> \<open>RingBuffer\<close> (\<open>Tool/RingBuffer.cpp\<close>): indices of 32 bits that wrap, accesses outside the array
    fault. The locale \<open>fifo_buffer\<close> says what the framing needs of it.
  \<^item> \<open>Message_Codec\<close>, \<open>Message_Wire\<close> (\<open>Tool/Message.cpp\<close>, \<open>Header/Message\<close>): heads, bodies, messages
    and their bytes. The locale \<open>int_codec\<close> is a pair of a writer and a reader of
    four bytes, interpreted by both pairs of the source.
  \<^item> \<open>Example_World\<close>: an environment on which the theorems are tried out.

  \<^bold>\<open>JSON.\<close> The configuration is parsed by the copy of jsoncpp under \<open>Tool/lib_json\<close>. \<open>Json_Value\<close>
  is \<open>json_value.cpp\<close>: values as a datatype, their arrays and objects as key-sorted lists, with the
  accessors, the conversions and the comparisons, which throw as the assertions of the source do.
  \<open>Json_Tokens\<close> and \<open>Json_Reader\<close> are \<open>json_reader.cpp\<close>: the scanner, the parser with its errors and
  its recovery from them, and the positions it reports. \<open>Json_Writer\<close> is \<open>json_writer.cpp\<close>: the fast
  writer and the two that indent. \<open>Json_Total\<close> shows that the parser returns, \<open>Json_Roundtrip\<close> that
  a text of a value (\<open>spaced\<close>: its tokens with white space between them) is read as that value,
  \<open>Json_Styled\<close> that the indenting writers put out such a text, \<open>Json_Order\<close> that \<open>operator<\<close> and \<open>operator==\<close> are
  an order, \<open>Json_Path\<close> is \<open>Path\<close> with its texts, \<open>Json_Iter\<close> the iterators, \<open>Json_Names\<close> who owns the text of a
  member name, \<open>Json_Errors\<close> the text of the errors and the operator that throws it, \<open>Json_Make\<close> construction,
  assignment and comments. \<open>Json_Comments\<close> is the reader once more with the comments it collects, \<open>Json_Comments_Properties\<close>
  shows that these change nothing else, and \<open>Json_Comment_Writer\<close> has the indenting writers put comments out.
  \<open>Json_Batch\<close> and \<open>Json_Array\<close> are the
  allocator and the paged array it has behind a switch that is off, \<open>Json_Map\<close> the hash map there;
  \<open>Json_Array_Properties\<close> relates the array to a list and \<open>Json_Map_Properties\<close> the hash map to the \<open>std::map\<close> the program
  is built with, as long as nothing is removed. \<open>Json_Properties\<close> states the properties, those of the shipped files
  included.

  \<^bold>\<open>Rooms.\<close> \<open>Room\<close> translates \<open>Logic/Room.cpp\<close> method by method; what a room sends is an outbox,
  which the logic server empties when the method returns. \<open>Room_Inv\<close> holds the data invariant
  \<open>room_wf\<close> and one lemma per method for what it keeps and does, \<open>Room_Machine\<close> the public
  methods as events, \<open>Room_Talk\<close> what a room says and to whom, and \<open>Room_Properties\<close> the properties. \<open>LeaveFromGame\<close> and \<open>EndGame\<close> call each
  other; the model recurses on the number of players, which each round decreases.

  \<^bold>\<open>The network.\<close> \<open>ServerBase\<close> translates the single-threaded build of \<open>Source/ServerBase.cpp\<close> and
  \<open>Tool/Timer.cpp\<close>, with the virtual methods as parameters. \<open>Virtual_Close\<close> ties the recursion through
  \<open>CloseClientSocket\<close>: a body that closes others only through sends, after its own connection is
  gone, is a \<open>closing\<close>, and then the recursion bounded by the number of open connections is a
  fixed point of the body; a \<open>safe_closing\<close> moreover keeps an invariant and returns. All
  four server kinds interpret \<open>closing\<close> or \<open>safe_closing\<close>. \<open>Framing\<close> shows that the loop of
  \<open>HandleReceivedMsg\<close> hands each complete packet to the handler, and \<open>Net_Properties\<close> states the
  properties of bytes, buffers and packets. \<open>Shutdown\<close> has the destructors, which close a descriptor once more.

  \<^bold>\<open>The servers.\<close>
  \<^item> \<open>FuncServer\<close> (\<open>Source/FuncServer.cpp\<close>).
  \<^item> Center: \<open>CenterServer\<close> the code, \<open>Center_Inv\<close> the invariant \<open>center_wf\<close> of the registry,
    \<open>Center_Machine\<close> the server as a machine of connections, packets and closings,
    \<open>Center_Properties\<close>.
  \<^item> Logic: \<open>LogicServer\<close> the code, \<open>Logic_Net\<close> what sending and closing leave alone, \<open>Logic_Inv\<close> the
    invariant \<open>logic_wf\<close> of rooms, room ids and users and the room service, \<open>Logic_Handlers\<close> a
    specification of every request, \<open>Logic_Machine\<close> the whole server as a machine of packets,
    frame ticks and lost connections, \<open>Logic_Properties\<close>.
  \<^item> Gate: \<open>GateServer\<close> the code, \<open>Gate_Net\<close> its closing, \<open>Gate_Users\<close> the tables of users and
    connections, \<open>Gate_Messages\<close> routing and checks, \<open>Gate_Properties\<close>.
  \<^item> Database: \<open>DBServer\<close> the code, with the SQL and Redis commands it issues in a log,
    \<open>Encryption\<close> the token hash, \<open>DB_Requests\<close> what a login and a registration come to,
    \<open>DB_Properties\<close>.
  \<^item> \<open>Tools\<close>: the queue, events, the message pool and the frame store; \<open>Tool_Properties\<close>. \<open>Send_Queue\<close> is the
    queue between threads, as a step relation with sleeping and woken waiters.
  \<^item> \<open>Local_Address\<close>: how a machine's addresses are read (\<open>Tool/WIP.cpp\<close>); \<open>Helpers\<close>: the two stand-alone
    programs under \<open>Tool/Helper\<close>.

  \<^bold>\<open>Whole processes.\<close> \<open>Event_Loop\<close> is about \<open>BootServer\<close> and its loop: a property of a server's own
  members that its virtual methods keep holds as long as the process runs (the locale
  \<open>server_invariant\<close>, interpreted by the center, the logic and the database server in
  \<open>Center_Run\<close>, \<open>Logic_Run\<close> and \<open>DB_Run\<close>), whatever the network delivers and whichever calls fail.
  \<open>Calm_Net\<close> is the network on a good day (\<open>calm\<close>: every send is taken, each receive event brings whole
  packets that fit the buffer), on which \<open>Center_Run\<close> shows that the center server serves every
  turn and answers every request for a server in the turn it arrives. \<open>Run_Properties\<close> states all
  this about the servers' \<open>main\<close>. The gate's members are not kept consistent by its own code
  (\<open>user_info_hijacks\<close>, \<open>spoofed_login\<close>, \<open>gate_count_underflows\<close>), so it has no such invariant.

  \<^bold>\<open>Two servers.\<close> \<open>Logic_Calm\<close> says which messages leave the tables of the logic server alone, \<open>Relay\<close>
  puts the gate, the wire and the logic server together, and \<open>Relay_Properties\<close> states what comes of it: a client's
  request reaches the handler of the logic server as the client wrote it, under the user id of the
  client's connection, and what the logic server tells a user is written to that user's connection.
  This theory holds the other properties that span two servers.

  \<^bold>\<open>Parameters.\<close> A \<open>world\<close> carries what is not in the repository: the answers of the operating
  system to each call (indexed by the number of calls made so far), protobuf's encoder and
  parser, and the constants of the configuration. MySQL and Redis are a \<open>dbms\<close>.
  Doubles, with \<open>sscanf\<close> and \<open>sprintf\<close> on them, are a \<open>floats\<close>. The
  hypotheses on them are named: \<open>pb_recovers\<close> (what was encoded is parsed back),
  \<open>pb_keeps_class\<close> (parsing keeps the class of the message parsed into), \<open>net_config_ok\<close>
  (the sizes of buffers and packets that the shipped files satisfy), \<open>sends_ok\<close> (no send
  fails; it is in \<open>Virtual_Close\<close>).

  \<^bold>\<open>Bounds.\<close> Loops that the code runs without an evident bound carry fuel, and running out of it is
  the fault \<open>NonTermination\<close>, which the safety theorems exclude with the rest. \<open>frame_loop\<close> gets
  two more turns than there are bytes, and each turn consumes at least the 12 bytes of a head.
  \<open>disconnect_loop\<close> and \<open>heartbeat_loop\<close> get the number of entries of the table they walk (the second one more),
  the recursion of \<open>CloseClientSocket\<close> the number of open connections. The JSON parser gets two calls per
  character and one more, which is enough because every second call of its three functions at
  least consumes a character; \<open>parse_always_returns\<close> says so. Two numbers are parameters because the
  code itself has no bound: the attempts of \<open>SendSelfInfoToCenter\<close> (\<open>w_retries\<close>, it retries
  until the center answers) and the turns of the loop in \<open>BootServer\<close>.

  \<^bold>\<open>Not modelled.\<close> The side of \<open>MULTI_THREAD\<close> in \<open>Source/ServerBase.cpp\<close>: nothing defines the switch, and
  that side does not compile. In the JSON library, declarations, overloads that only convert
  their argument, and what the two containers behind a switch that is off would change in the classes that use them. The code protoc
  generates, the answers of shell commands, and log output. Memory is modelled where a
  bug can come from it (null pointers, deleted rooms and heads, buffer bounds), not as an address
  space; a handler that closes the connection it is working for is a use after free in the code
  and is modelled as such.
\<close>

section \<open>Properties that span components\<close>

text \<open>The closing method of each server kind is virtual and sends messages, which can close further
  connections through the same method. Run as a recursion bounded by the number of open
  connections it does exactly what the method's body says, with itself for the calls.\<close>

theorem close_calls_itself:
  "LogicServer_CloseClientSocket w fd ls = LogicServer_close_body w (LogicServer_CloseClientSocket w) fd ls \<and>
   CenterServer_CloseClientSocket w fd cs = CenterServer_close_body w (CenterServer_CloseClientSocket w) fd cs \<and>
   GateServer_CloseClientSocket w fd gs = GateServer_close_body w (GateServer_CloseClientSocket w) fd gs"
  unfolding LogicServer_CloseClientSocket_def CenterServer_CloseClientSocket_def GateServer_CloseClientSocket_def
  using lc.virtual_close_eq cc.virtual_close_eq gc.virtual_close_eq by blast



text \<open>Of a login, the example's protocol carries the token; whoever asks is Ann with her password.\<close>

definition reply_world :: world where
  "reply_world = example_world\<lparr>w_pb :=
     \<lparr>pb_enc = (\<lambda>b. case b of B_LoginResponse r \<Rightarrow> UintToByte (lp_token r) | _ \<Rightarrow> []),
      pb_dec = (\<lambda>p bs. (True, case p of
         B_LoginRequest q \<Rightarrow> B_LoginRequest (ann_login ''secret'')
       | B_LoginResponse r \<Rightarrow> B_LoginResponse (r\<lparr>lp_result := True, lp_msg := ''Login Success!'', lp_userid := 42,
           lp_token := (case ByteToUint bs of Inl e \<Rightarrow> 0 | Inr t \<Rightarrow> t), lp_username := ''ann''\<rparr>)
       | _ \<Rightarrow> p))\<rparr>\<rparr>"

lemma reply_fields [simp]: "w_cfg reply_world = example_cfg" "sends_ok reply_world"
  by (simp_all add: reply_world_def sends_ok_def)


text \<open>C7: a server that asks the center for a logic server is told the least loaded one that is
  registered, and when it is a gate without a logic server and connecting works, that is the
  server it connects to.\<close>

theorem assignment_is_obeyed:
  assumes "center_wf c" "msg_object msg = Some (B_ServerInfo q)" "sv_opt q = Op_RequstAssgin"
    and "sv_server_type q = server_type_code LOGIC"
    and "\<exists>p\<in>set (logicServerGroup c). si_level (the (om_get (infos c) p)) < free_level_code DOWN"
    and "server_type g = GATE" "logic_server_client g = -1"
    and "os_socket (w_os w) (io_clock g) = Some sock" "sock \<noteq> -1" "\<forall>ip. os_inet_pton (w_os w) ip"
    and "\<forall>n ip port. os_connect (w_os w) n ip port" "\<forall>n fd. os_epoll_add (w_os w) n fd"
  shows "\<exists>p m g'. p \<in> set (logicServerGroup c) \<and> om_get (infos c) p = Some m \<and>
     (\<forall>r\<in>set (logicServerGroup c). si_level m \<le> si_level (the (om_get (infos c) r))) \<and>
     (let reply = NewServerInfoMessage (w_cfg w) (w_pb w) (si_ip m) (si_port m) (si_name m) (si_type m) Op_Connect (si_level m)
      in Center_HandleServerInfo w msg fd c = Center_SendMsg w reply fd c \<and>
         FuncServer_HandleServerInfo w close reply g = Inr g' \<and>
         ConnectToOtherServer w (si_ip m) (si_port m) g = (True, logic_server_client g', io_tick (io_tick g)) \<and>
         logic_server_client g' = sock \<and> om_has sock (connections g'))"
proof -
  have grp: "group_of (sv_server_type q) c = logicServerGroup c" by (simp add: group_of_def assms(4))
  have some: "\<exists>p\<in>set (group_of (sv_server_type q) c). si_level (info_of c p) < free_level_code DOWN"
    using assms(5) grp by (simp add: info_of_def)
  from AssignServer_spec [OF assms(1), of w "sv_server_type q"] obtain m pre p post where
    m: "AssignServer w (sv_server_type q) c = Inr m" "logicServerGroup c = pre @ p # post" "m = info_of c p"
      "\<forall>r\<in>set (logicServerGroup c). si_level m \<le> si_level (info_of c r)"
    unfolding if_P [OF some] unfolding grp by blast
  have p: "p \<in> set (logicServerGroup c)" using m(2) by simp
  then have "listed c 3 p" using center_wfD(8) [OF assms(1)] by auto
  then have get: "om_get (infos c) p = Some m" "si_type m = 3"
    using m(3) by (auto simp: listed_def info_of_def)
  let ?reply = "NewServerInfoMessage (w_cfg w) (w_pb w) (si_ip m) (si_port m) (si_name m) (si_type m) Op_Connect (si_level m)"
  have run: "Center_HandleServerInfo w msg fd c = Center_SendMsg w ?reply fd c"
    using assms(2,3) m(1) by (simp add: Center_HandleServerInfo_def)
  obtain sv where sv: "msg_object ?reply = Some (B_ServerInfo sv)" "sv_opt sv = Op_Connect"
      "sv_ip sv = si_ip m" "sv_port sv = si_port m" "sv_server_type sv = 3"
    by (simp add: NewServerInfoMessage_def make_message_def msg_object_def get(2))
  have con: "ConnectToOtherServer w (si_ip m) (si_port m) g = (True, sock, io_tick (io_tick g))"
    using assms(8-12) by (simp add: ConnectToOtherServer_def)
  let ?g = "io_tick ((io_tick (io_tick g))\<lparr>logic_server_client := sock\<rparr>)"
  have "connect_to_server w close sv logic_server_client (\<lambda>fd s. s\<lparr>logic_server_client := fd\<rparr>) g =
      Inr (True, new_connection w sock ?g)"
    using assms(6,7,12) con sv
    by (simp add: connect_to_server_def AddEventToEpoll_def new_connection_def io_tick_def)
  then have "FuncServer_HandleServerInfo w close ?reply g =
      Inr (restart_timers FuncServer_TryToConnectAvailabeServer (new_connection w sock ?g))"
    using sv by (simp add: FuncServer_HandleServerInfo_def)
  moreover have "logic_server_client (restart_timers ty (new_connection w sock ?g)) = sock"
    "om_has sock (connections (restart_timers ty (new_connection w sock ?g)))" for ty
    by (simp_all add: restart_timers_def new_connection_def io_tick_def)
  ultimately show ?thesis
    using p get m(4) run con by (intro exI [of _ p] exI [of _ m] exI) (auto simp: info_of_def Let_def)
qed


definition lone_gate :: GateServer where
  "lone_gate = GateServer_new example_cfg"

lemma lone_gate_fields [simp]: "server_type lone_gate = GATE" "logic_server_client lone_gate = -1"
  by (simp_all add: lone_gate_def GateServer_new_def FuncServer_new_def ServerBase_new_def GateServer.defs
      FuncServer.FuncServer.defs ServerBase.ServerBase.defs Let_def)

theorem assignment_is_obeyed_witness:
  "\<exists>g'. FuncServer_HandleServerInfo example_world (GateServer_CloseClientSocket example_world)
       (NewServerInfoMessage example_cfg example_pb ''127.0.0.1'' 6002 (si_name (machine 3 6002 1)) 3 Op_Connect 1) lone_gate = Inr g' \<and>
     logic_server_client g' = 9"
proof -
  let ?q = "new_ServerInfo\<lparr>sv_opt := Op_RequstAssgin, sv_server_type := 3\<rparr>"
  let ?msg = "\<lparr>m_head = \<lparr>m_packageSize = 12, m_packageType = 100, m_userid = 0\<rparr>, m_body = Some (Some (B_ServerInfo ?q))\<rparr>"
  have os: "os_socket (w_os example_world) n = Some 9" "os_inet_pton (w_os example_world) ip"
    "os_connect (w_os example_world) n ip port" "os_epoll_add (w_os example_world) n fd" for n ip port fd
    by (simp_all add: example_os_def)
  have some: "\<exists>p\<in>set (logicServerGroup registry). si_level (the (om_get (infos registry) p)) < free_level_code DOWN"
    by simp
  obtain p m g' where r: "p \<in> set (logicServerGroup registry)" "om_get (infos registry) p = Some m"
    "\<forall>r\<in>set (logicServerGroup registry). si_level m \<le> si_level (the (om_get (infos registry) r))"
    "FuncServer_HandleServerInfo example_world (GateServer_CloseClientSocket example_world)
       (NewServerInfoMessage example_cfg example_pb (si_ip m) (si_port m) (si_name m) (si_type m) Op_Connect (si_level m))
       lone_gate = Inr g'" "logic_server_client g' = 9"
    using assignment_is_obeyed [OF registry_wf _ _ _ some, of ?msg ?q lone_gate example_world 9 7
        "GateServer_CloseClientSocket example_world"] os
    by (auto simp: msg_object_def Let_def simp del: registry_fields)
  have "si_level m \<le> 1" using bspec [OF r(3), of 1] by simp
  then have "m = machine 3 6002 1" using r(1,2) by auto
  then show ?thesis using r(4,5) by (auto simp: machine_def Server_Info_new_def)
qed

end
